(* ===== verification/Prelude.thy ===== *)
theory Prelude
  imports Main "HOL-Library.AList" "HOL-Library.List_Lexorder" "HOL-Library.Char_ord"
begin

text \<open>
  Shared vocabulary of the development.  Python raises become the left side of a sum, Python
  dictionaries become association lists in insertion order (\<open>AList.update\<close> replaces in place or
  appends, as an item assignment does), \<open>sorted(set(..))\<close> becomes \<open>sorted_unique\<close>, and the value
  \<open>a or b\<close> on optional texts becomes \<open>text_or\<close>.  Strings are lists of characters, ordered by
  code point, so every character of the model is a Latin-1 code point.
\<close>

named_theorems registry_simps \<open>unfolding of the proposal registry's calls\<close>
named_theorems pack_simps \<open>unfolding of the pack lifecycle's plan\<close>
named_theorems queue_simps \<open>unfolding of the dispatch queue's statements\<close>
named_theorems perm_simps \<open>permission constants\<close>
named_theorems change_simps \<open>severity and membership of contract changes\<close>

section \<open>Results: a value or a raised error\<close>

fun and_then :: "'e + 'a \<Rightarrow> ('a \<Rightarrow> 'e + 'b) \<Rightarrow> 'e + 'b" where
  "and_then (Inl e) f = Inl e"
| "and_then (Inr x) f = f x"

lemma and_then_Inr_iff: "and_then r f = Inr y \<longleftrightarrow> (\<exists>x. r = Inr x \<and> f x = Inr y)"
  by (cases r) auto

lemma and_then_Inl_iff:
  "and_then r f = Inl e \<longleftrightarrow> r = Inl e \<or> (\<exists>x. r = Inr x \<and> f x = Inl e)"
  by (cases r) auto

lemma and_then_assoc: "and_then (and_then r f) g = and_then r (\<lambda>x. and_then (f x) g)"
  by (cases r) auto

definition guard_else :: "bool \<Rightarrow> 'e \<Rightarrow> 'e + unit" where
  "guard_else b e = (if b then Inr () else Inl e)"

lemma guard_else_Inr_iff [simp]: "guard_else b e = Inr u \<longleftrightarrow> b"
  by (simp add: guard_else_def)

lemma guard_else_Inl_iff [simp]: "guard_else b e = Inl e' \<longleftrightarrow> \<not> b \<and> e = e'"
  by (auto simp: guard_else_def)

fun fold_result :: "('a \<Rightarrow> 's \<Rightarrow> 'e + 's) \<Rightarrow> 'a list \<Rightarrow> 's \<Rightarrow> 'e + 's" where
  "fold_result f [] s = Inr s"
| "fold_result f (x # xs) s = and_then (f x s) (fold_result f xs)"

lemma fold_result_invariant:
  assumes "\<And>x s s'. x \<in> set xs \<Longrightarrow> P s \<Longrightarrow> f x s = Inr s' \<Longrightarrow> P s'"
    and "P s" and "fold_result f xs s = Inr s'"
  shows "P s'"
  using assms by (induction xs arbitrary: s) (auto simp: and_then_Inr_iff)

section \<open>Optional texts and Python truthiness\<close>

definition text_or :: "string option \<Rightarrow> string \<Rightarrow> string" where
  "text_or x d = (case x of None \<Rightarrow> d | Some s \<Rightarrow> if s = [] then d else s)"

lemma text_or_simps [simp]:
  "text_or None d = d" "text_or (Some []) d = d" "s \<noteq> [] \<Longrightarrow> text_or (Some s) d = s"
  by (simp_all add: text_or_def)

section \<open>Dictionaries in insertion order\<close>

lemma map_of_update: "map_of (AList.update k v xs) = (map_of xs)(k \<mapsto> v)"
  by (simp add: update_conv')

lemma map_of_SomeI_distinct:
  "distinct (map fst xs) \<Longrightarrow> (k, v) \<in> set xs \<longleftrightarrow> map_of xs k = Some v"
  by (rule map_of_eq_Some_iff [symmetric])

definition dict_of :: "('k \<times> 'v) list \<Rightarrow> ('k \<times> 'v) list" where
  \<comment> \<open>a dictionary filled by one item assignment after another: the last one of a key wins\<close>
  "dict_of kvs = fold (\<lambda>(k, v) d. AList.update k v d) kvs []"

lemma map_of_fold_update: "map_of (fold (\<lambda>(k, v) d. AList.update k v d) kvs d) = map_of d ++ map_of (rev kvs)"
  by (induction kvs arbitrary: d) (auto simp: map_of_update map_add_def fun_eq_iff split: option.splits)

lemma map_of_dict_of: "map_of (dict_of kvs) = map_of (rev kvs)"
  by (simp add: dict_of_def map_of_fold_update)

lemma dict_of_keys: "set (map fst (dict_of kvs)) = fst ` set kvs"
proof -
  have "dom (map_of (dict_of kvs)) = dom (map_of (rev kvs))" by (simp add: map_of_dict_of)
  then show ?thesis by (simp add: dom_map_of_conv_image_fst)
qed

lemma distinct_dict_of: "distinct (map fst (dict_of kvs))"
proof -
  have "distinct (map fst (fold (\<lambda>(k, v) d. AList.update k v d) kvs d))" if "distinct (map fst d)" for d :: "('a \<times> 'b) list"
    using that by (induction kvs arbitrary: d) (auto simp: distinct_update)
  then show ?thesis by (simp add: dict_of_def)
qed

lemma dict_of_member: "(k, v) \<in> set (dict_of kvs) \<Longrightarrow> (k, v) \<in> set kvs"
  using map_of_SomeI_distinct [OF distinct_dict_of, of k v kvs] map_of_SomeD [of "rev kvs" k v]
  by (simp add: map_of_dict_of)

lemma dict_of_append: "map_of (dict_of (xs @ ys)) = map_of (dict_of xs) ++ map_of (dict_of ys)"
  by (simp add: map_of_dict_of)

section \<open>Sorted, duplicate-free listings\<close>

definition sorted_unique :: "'a::linorder list \<Rightarrow> 'a list" where
  "sorted_unique xs = sort (remdups xs)"

lemma set_sorted_unique [simp]: "set (sorted_unique xs) = set xs"
  by (simp add: sorted_unique_def)

lemma sorted_sorted_unique [simp]: "sorted (sorted_unique xs)"
  by (simp add: sorted_unique_def)

lemma distinct_sorted_unique [simp]: "distinct (sorted_unique xs)"
  by (simp add: sorted_unique_def)

lemma sorted_unique_cong: "set xs = set ys \<Longrightarrow> sorted_unique xs = sorted_unique ys"
  by (metis distinct_sorted_unique set_sorted_unique sorted_distinct_set_unique
      sorted_sorted_unique)

lemma sorted_unique_Nil_iff [simp]: "sorted_unique xs = [] \<longleftrightarrow> xs = []"
  by (metis set_empty set_sorted_unique)

lemma sort_eq_Nil [simp]: "sort xs = [] \<longleftrightarrow> xs = []"
  by (metis set_empty set_sort)

section \<open>Lists\<close>

lemma filter_take_upto_sorted:
  fixes key :: "'a \<Rightarrow> int"
  assumes "sorted_wrt (<) (map key xs)" and "n < length xs"
  shows "filter (\<lambda>x. key (xs ! n) < key x) xs = drop (Suc n) xs"
  using assms
proof (induction xs arbitrary: n)
  case Nil
  then show ?case by simp
next
  case (Cons y ys)
  show ?case
  proof (cases n)
    case 0
    with Cons.prems show ?thesis by (auto simp: filter_id_conv)
  next
    case (Suc m)
    with Cons.prems have "\<not> key (ys ! m) < key y" by (auto simp: not_less less_imp_le)
    with Suc Cons show ?thesis by simp
  qed
qed

lemma find_Some_member: "List.find P xs = Some x \<Longrightarrow> x \<in> set xs \<and> P x"
  by (induction xs) (auto split: if_splits)

lemma find_append: "List.find P (xs @ ys) = (case List.find P xs of None \<Rightarrow> List.find P ys | Some x \<Rightarrow> Some x)"
  by (induction xs) simp_all

lemma last_max: "sorted xs \<Longrightarrow> \<forall>x\<in>set xs. x \<le> last xs"
  by (induction xs) auto

end
