(* ===== verification/PyText.thy ===== *)
theory PyText
  imports Prelude "HOL-Library.Sublist"
begin

text \<open>
  The string operations of the Python standard library that the modelled code calls, on Latin-1
  strings: \<open>strip\<close>, \<open>lower\<close>, \<open>split\<close> at one character, \<open>find\<close>, \<open>startswith\<close> (\<open>prefix\<close>),
  \<open>endswith\<close> (\<open>suffix\<close>), \<open>int\<close> on a text (surrounding space, a sign, digits with single
  underscores, at most 4300 digits) and the decimal text of a number.
\<close>

section \<open>strip and lower\<close>

definition is_space :: "char \<Rightarrow> bool" where
  "is_space c = (let n = (of_char c :: nat) in
     9 \<le> n \<and> n \<le> 13 \<or> 28 \<le> n \<and> n \<le> 32 \<or> n = 133 \<or> n = 160)"

definition lstrip :: "string \<Rightarrow> string" where
  "lstrip s = dropWhile is_space s"

definition rstrip :: "string \<Rightarrow> string" where
  "rstrip s = rev (dropWhile is_space (rev s))"

definition strip :: "string \<Rightarrow> string" where
  "strip s = rstrip (lstrip s)"

lemma rev_dropWhile_prefix: "rev (dropWhile P (rev s)) = take (length (dropWhile P (rev s))) s"
  by (metis length_rev rev_rev_ident append_eq_conv_conj takeWhile_dropWhile_id rev_append)

lemma hd_rstrip: "rstrip s \<noteq> [] \<Longrightarrow> hd (rstrip s) = hd s"
  unfolding rstrip_def
  by (metis hd_append2 rev_append rev_rev_ident takeWhile_dropWhile_id)

lemma lstrip_id: "s = [] \<or> \<not> is_space (hd s) \<Longrightarrow> lstrip s = s"
  by (cases s) (auto simp: lstrip_def)

lemma hd_lstrip: "lstrip s \<noteq> [] \<Longrightarrow> \<not> is_space (hd (lstrip s))"
  by (metis hd_dropWhile lstrip_def)

lemma rstrip_idem: "rstrip (rstrip s) = rstrip s"
  unfolding rstrip_def
  by (metis dropWhile_eq_Nil_conv dropWhile_idem rev_rev_ident)

lemma strip_idem [simp]: "strip (strip s) = strip s"
proof -
  have "lstrip (rstrip (lstrip s)) = rstrip (lstrip s)"
  proof (cases "rstrip (lstrip s) = []")
    case True
    then show ?thesis by (simp add: lstrip_def)
  next
    case False
    then have "lstrip s \<noteq> []" by (auto simp: rstrip_def)
    then show ?thesis
      using hd_rstrip [OF False] hd_lstrip [of s] by (intro lstrip_id) simp
  qed
  then show ?thesis
    by (simp add: strip_def rstrip_idem)
qed

lemma strip_Nil [simp]: "strip [] = []"
  by (simp add: strip_def lstrip_def rstrip_def)

definition lower_char :: "char \<Rightarrow> char" where
  "lower_char c = (let n = (of_char c :: nat) in
     if 65 \<le> n \<and> n \<le> 90 \<or> 192 \<le> n \<and> n \<le> 222 \<and> n \<noteq> 215 then char_of (n + 32) else c)"

definition lower :: "string \<Rightarrow> string" where
  "lower s = map lower_char s"

lemma lower_char_idem [simp]: "lower_char (lower_char c) = lower_char c"
proof -
  have "(of_char c :: nat) < 256"
    by (metis nat_of_char_less_256)
  then show ?thesis
    by (auto simp: lower_char_def Let_def of_char_of)
qed

lemma lower_idem [simp]: "lower (lower s) = lower s"
  by (simp add: lower_def)

definition upper_char :: "char \<Rightarrow> char" where
  "upper_char c = (let n = (of_char c :: nat) in if 97 \<le> n \<and> n \<le> 122 then char_of (n - 32) else c)"

definition upper_ascii :: "string \<Rightarrow> string" where
  \<comment> \<open>\<open>upper()\<close> of an ASCII text, such as an HTTP method\<close>
  "upper_ascii s = map upper_char s"

definition strip_char :: "char \<Rightarrow> string \<Rightarrow> string" where
  \<comment> \<open>\<open>s.strip(c)\<close> for one character\<close>
  "strip_char c s = rev (dropWhile (\<lambda>x. x = c) (rev (dropWhile (\<lambda>x. x = c) s)))"

definition removeprefix :: "string \<Rightarrow> string \<Rightarrow> string" where
  "removeprefix pre s = (if prefix pre s then drop (length pre) s else s)"

definition removesuffix :: "string \<Rightarrow> string \<Rightarrow> string" where
  "removesuffix suf s = (if suf \<noteq> [] \<and> suffix suf s then take (length s - length suf) s else s)"

section \<open>split, find and joins\<close>

fun split_on :: "char \<Rightarrow> string \<Rightarrow> string list" where
  "split_on c [] = [[]]"
| "split_on c (x # xs) =
     (if x = c then [] # split_on c xs
      else case split_on c xs of [] \<Rightarrow> [[x]] | y # ys \<Rightarrow> (x # y) # ys)"

lemma split_on_not_Nil [simp]: "split_on c s \<noteq> []"
  by (induction c s rule: split_on.induct) (auto split: list.splits)

fun join_with :: "char \<Rightarrow> string list \<Rightarrow> string" where
  "join_with c [] = []"
| "join_with c [s] = s"
| "join_with c (s # t # ts) = s @ c # join_with c (t # ts)"

lemma join_with_Cons: "ts \<noteq> [] \<Longrightarrow> join_with c (s # ts) = s @ c # join_with c ts"
  by (cases ts) auto

lemma join_split: "join_with c (split_on c s) = s"
proof (induction c s rule: split_on.induct)
  case (1 c)
  show ?case by simp
next
  case (2 c x xs)
  obtain y ys where y: "split_on c xs = y # ys"
    by (metis neq_Nil_conv split_on_not_Nil)
  with 2 show ?case
    by (cases "x = c"; cases ys) (auto simp: join_with_Cons)
qed

definition before_first :: "char \<Rightarrow> string \<Rightarrow> string" where
  \<comment> \<open>\<open>s.split(c, 1)[0]\<close>\<close>
  "before_first c s = takeWhile (\<lambda>x. x \<noteq> c) s"

fun find_sub :: "string \<Rightarrow> string \<Rightarrow> nat option" where
  \<comment> \<open>\<open>s.find(pat)\<close>, \<open>None\<close> for Python's -1\<close>
  "find_sub pat [] = (if pat = [] then Some 0 else None)"
| "find_sub pat (x # xs) =
     (if prefix pat (x # xs) then Some 0 else map_option Suc (find_sub pat xs))"

lemma find_sub_bound: "find_sub pat s = Some i \<Longrightarrow> i \<le> length s \<and> prefix pat (drop i s)"
  by (induction pat s arbitrary: i rule: find_sub.induct) (auto split: if_splits)

fun join_texts :: "string \<Rightarrow> string list \<Rightarrow> string" where
  "join_texts sep [] = []"
| "join_texts sep [s] = s"
| "join_texts sep (s # t # ts) = s @ sep @ join_texts sep (t # ts)"

section \<open>int on a text, decimal text of a number\<close>

definition is_digit :: "char \<Rightarrow> bool" where
  "is_digit c = (48 \<le> (of_char c :: nat) \<and> (of_char c :: nat) \<le> 57)"

definition digit_of :: "char \<Rightarrow> int" where
  "digit_of c = of_char c - 48"

fun digits_value :: "int \<Rightarrow> bool \<Rightarrow> string \<Rightarrow> int option" where
  "digits_value acc prev_digit [] = (if prev_digit then Some acc else None)"
| "digits_value acc prev_digit (c # cs) =
     (if is_digit c then digits_value (10 * acc + digit_of c) True cs
      else if c = CHR ''_'' \<and> prev_digit then digits_value acc False cs
      else None)"

definition int_max_str_digits :: nat where
  "int_max_str_digits = 4300"

definition int_space :: "string \<Rightarrow> char \<Rightarrow> bool" where
  \<comment> \<open>an ASCII text is scanned with C's \<open>isspace\<close>, any other with Python's\<close>
  "int_space s c = (if list_all (\<lambda>x. (of_char x :: nat) < 128) s
     then 9 \<le> (of_char c :: nat) \<and> (of_char c :: nat) \<le> 13 \<or> c = CHR '' ''
     else is_space c)"

definition py_int :: "string \<Rightarrow> int option" where
  "py_int s =
     (let body = rev (dropWhile (int_space s) (rev (dropWhile (int_space s) s)));
          negative = (body \<noteq> [] \<and> hd body = CHR ''-'');
          digits = (if body \<noteq> [] \<and> (hd body = CHR ''-'' \<or> hd body = CHR ''+'') then tl body else body)
      in if length (filter is_digit digits) > int_max_str_digits then None
         else map_option (\<lambda>n. if negative then - n else n) (digits_value 0 False digits))"

fun nat_text :: "nat \<Rightarrow> string" where
  "nat_text n = (if n < 10 then [char_of (48 + n)] else nat_text (n div 10) @ [char_of (48 + n mod 10)])"

declare nat_text.simps [simp del]

definition int_text :: "int \<Rightarrow> string" where
  "int_text i = (if i < 0 then CHR ''-'' # nat_text (nat (- i)) else nat_text (nat i))"

definition pad_left :: "nat \<Rightarrow> string \<Rightarrow> string" where
  \<comment> \<open>a number text padded with zeros on the left\<close>
  "pad_left n s = replicate (n - length s) (CHR ''0'') @ s"

lemma of_digit_char: "(d::nat) < 10 \<Longrightarrow> (of_char (char_of (48 + d) :: char) :: nat) = 48 + d"
  by (simp add: of_char_of)

lemma digit_char [simp]: "(d::nat) < 10 \<Longrightarrow> is_digit (char_of (48 + d))"
  by (simp add: is_digit_def of_digit_char)

lemma digit_of_char [simp]: "(d::nat) < 10 \<Longrightarrow> digit_of (char_of (48 + d)) = int d"
proof -
  assume "d < 10"
  then have "(of_char (char_of (48 + d) :: char) :: int) = int (48 + d)"
    by (metis of_digit_char of_nat_of_char)
  then show ?thesis by (simp add: digit_of_def)
qed

lemma nat_text_digits: "list_all is_digit (nat_text n)"
proof (induction n rule: nat_text.induct)
  case (1 n)
  then show ?case by (subst nat_text.simps) simp
qed

lemma nat_text_not_Nil [simp]: "nat_text n \<noteq> []"
  by (subst nat_text.simps) simp

lemma digits_value_snoc:
  assumes "list_all is_digit ds" and "ds \<noteq> [] \<or> p" and "is_digit c"
  shows "digits_value acc p (ds @ [c]) = map_option (\<lambda>v. 10 * v + digit_of c) (digits_value acc p ds)"
  using assms by (induction ds arbitrary: acc p) auto

lemma digits_value_nat_text: "digits_value 0 False (nat_text n) = Some (int n)"
proof (induction n rule: nat_text.induct)
  case (1 n)
  show ?case
  proof (cases "n < 10")
    case True
    then show ?thesis by (subst nat_text.simps) simp
  next
    case False
    then have "digits_value 0 False (nat_text n) = Some (10 * int (n div 10) + int (n mod 10))"
      using 1 by (subst nat_text.simps) (simp add: digits_value_snoc nat_text_digits)
    also have "10 * int (n div 10) + int (n mod 10) = int n"
      by (simp add: zdiv_int zmod_int)
    finally show ?thesis .
  qed
qed

lemma nat_text_inj: "nat_text m = nat_text n \<Longrightarrow> m = n"
  by (metis digits_value_nat_text of_nat_eq_iff option.inject)

lemma nat_text_eq_iff [simp]: "nat_text m = nat_text n \<longleftrightarrow> m = n"
  using nat_text_inj by blast

end
