(* ===== verification/Proposals.thy ===== *)
theory Proposals
  imports PyText
begin

text \<open>
  The approval-gated proposal queue of \<open>packages/platform/action_proposals.py\<close>: its data, the
  persistence port \<open>ActionProposalStore\<close> as a record of operations, the contract every store has
  to keep (locale \<open>proposal_store\<close>) and the in-process store, which is shown to keep it.

  A timestamp is the instant its UTC ISO text denotes, as an integer number of microseconds: every
  timestamp of the queue is written by \<open>_now_iso\<close>, whose texts sort as the instants do.  Proposal
  metadata is a map from texts to values of an arbitrary type.
\<close>

section \<open>Data\<close>

datatype proposal_status = Pending | Approved | Dismissed

datatype source_kind = From_policy | From_assistant | From_operator | From_agent

datatype event_kind = Drafted | Refreshed | Reopened | Was_approved | Was_dismissed | Release_failed

datatype trust_source = Server_stamped | Proposer_supplied

definition ADAPTER_HOME_ASSISTANT :: string where
  "ADAPTER_HOME_ASSISTANT = ''home_assistant''"

definition ADAPTER_PLATFORM :: string where
  "ADAPTER_PLATFORM = ''platform''"

definition MACHINE_AUTH_PROVIDERS :: "string list" where
  "MACHINE_AUTH_PROVIDERS = [''service_token'', ''machine_jwt'']"

record history_event =
  ev_kind :: event_kind
  ev_at :: int
  ev_actor :: "string option"
  ev_reason :: "string option"
  ev_actor_auth_provider :: "string option"

record provenance =
  publication_keys :: "string list"
  confidence_verdict_at_draft :: "string option"
  freshness_state_at_draft :: "string option"
  assessed_at :: "string option"
  prov_trust_source :: "trust_source option"

record 'v proposal =
  action_id :: string
  policy_id :: string
  policy_name :: string
  verdict :: string
  prop_value :: "string option"
  notification_id :: string
  adapter :: string
  prop_source_kind :: source_kind
  source_key :: "string option"
  source_summary :: "string option"
  created_by :: "string option"
  status :: proposal_status
  created_at :: int
  approved_at :: "int option"
  dismissed_at :: "int option"
  prop_metadata :: "string \<rightharpoonup> 'v"
  prop_provenance :: "provenance option"
  resolved_by :: "string option"
  resolution_reason :: "string option"
  idempotency_key :: "string option"
  history :: "history_event list"

record feed_event =
  position :: int
  event_id :: string
  fe_action_id :: string
  sequence :: int
  fe_event :: history_event
  fe_adapter :: string
  fe_source_kind :: source_kind
  fe_policy_id :: string
  fe_policy_name :: string

datatype registry_error =
    Conflict string
  | Already proposal_status string
  | Unknown_action string

definition status_text :: "proposal_status \<Rightarrow> string" where
  "status_text s = (case s of Pending \<Rightarrow> ''pending'' | Approved \<Rightarrow> ''approved''
     | Dismissed \<Rightarrow> ''dismissed'')"

definition ProposalTransitionError :: "string \<Rightarrow> proposal_status \<Rightarrow> registry_error" where
  "ProposalTransitionError aid s = Already s
     (''Proposal '' @ aid @ '' is already '' @ status_text s
       @ ''; only pending proposals can be approved or dismissed.'')"

section \<open>The persistence port\<close>

text \<open>
  \<open>st_update\<close> is the compare-and-set: it applies only while the stored status equals the expected
  one, and says whether it did.  \<open>st_insert\<close> raises \<open>Conflict\<close>.
\<close>

record ('s, 'v) store_ops =
  st_get :: "'s \<Rightarrow> string \<Rightarrow> 'v proposal option"
  st_find :: "'s \<Rightarrow> string \<Rightarrow> 'v proposal option"
  st_list :: "'s \<Rightarrow> 'v proposal list"
  st_insert :: "'s \<Rightarrow> 'v proposal \<Rightarrow> registry_error + 's"
  st_update :: "'s \<Rightarrow> 'v proposal \<Rightarrow> proposal_status \<Rightarrow> history_event option \<Rightarrow> bool \<times> 's"
  st_changes :: "'s \<Rightarrow> int \<Rightarrow> int \<Rightarrow> string option \<Rightarrow> feed_event list"

text \<open>What a successful compare-and-set stores: identity, key and old history stay.\<close>

definition committed :: "'v proposal \<Rightarrow> 'v proposal \<Rightarrow> history_event option \<Rightarrow> 'v proposal" where
  "committed stored p e = p\<lparr>idempotency_key := idempotency_key stored,
     history := history stored @ (case e of None \<Rightarrow> [] | Some ev \<Rightarrow> [ev])\<rparr>"

lemma committed_fields [simp]:
  "action_id (committed q p e) = action_id p"
  "status (committed q p e) = status p"
  "idempotency_key (committed q p e) = idempotency_key q"
  "created_by (committed q p e) = created_by p"
  "approved_at (committed q p e) = approved_at p"
  "dismissed_at (committed q p e) = dismissed_at p"
  "resolved_by (committed q p e) = resolved_by p"
  "resolution_reason (committed q p e) = resolution_reason p"
  "history (committed q p None) = history q"
  "history (committed q p (Some ev)) = history q @ [ev]"
  by (simp_all add: committed_def)

locale proposal_store =
  fixes ops :: "('s, 'v) store_ops" and sinv :: "'s \<Rightarrow> bool"
  assumes get_id: "sinv s \<Longrightarrow> st_get ops s a = Some p \<Longrightarrow> action_id p = a"
    and find_get: "sinv s \<Longrightarrow> st_find ops s k = Some p \<longleftrightarrow>
      st_get ops s (action_id p) = Some p \<and> idempotency_key p = Some k"
    and set_list: "sinv s \<Longrightarrow> set (st_list ops s) = ran (st_get ops s)"
    and insert_free: "sinv s \<Longrightarrow> st_get ops s (action_id p) = None \<Longrightarrow>
      (\<And>k. idempotency_key p = Some k \<Longrightarrow> st_find ops s k = None) \<Longrightarrow>
      \<exists>s'. st_insert ops s p = Inr s'"
    and insert_taken: "sinv s \<Longrightarrow> st_insert ops s p = Inr s' \<Longrightarrow>
      st_get ops s (action_id p) = None \<and>
      (\<forall>k. idempotency_key p = Some k \<longrightarrow> st_find ops s k = None)"
    and insert_conflict: "sinv s \<Longrightarrow> st_insert ops s p = Inl err \<Longrightarrow> \<exists>m. err = Conflict m"
    and insert_inv: "sinv s \<Longrightarrow> st_insert ops s p = Inr s' \<Longrightarrow> sinv s'"
    and insert_get: "sinv s \<Longrightarrow> st_insert ops s p = Inr s' \<Longrightarrow>
      st_get ops s' = (st_get ops s)(action_id p \<mapsto> p)"
    and update_miss: "sinv s \<Longrightarrow>
      (\<forall>q. st_get ops s (action_id p) = Some q \<longrightarrow> status q \<noteq> x) \<Longrightarrow>
      st_update ops s p x e = (False, s)"
    and update_hit: "sinv s \<Longrightarrow> st_get ops s (action_id p) = Some q \<Longrightarrow> status q = x \<Longrightarrow>
      \<exists>s'. st_update ops s p x e = (True, s') \<and> sinv s' \<and>
        st_get ops s' = (st_get ops s)(action_id p \<mapsto> committed q p e)"
begin

lemma update_cases:
  assumes "sinv s"
  obtains (miss) "st_update ops s p x e = (False, s)"
      "\<forall>q. st_get ops s (action_id p) = Some q \<longrightarrow> status q \<noteq> x"
  | (hit) q s' where "st_update ops s p x e = (True, s')" "sinv s'"
      "st_get ops s (action_id p) = Some q" "status q = x"
      "st_get ops s' = (st_get ops s)(action_id p \<mapsto> committed q p e)"
  using assms update_hit update_miss by (metis (full_types))

lemma update_inv: "sinv s \<Longrightarrow> sinv (snd (st_update ops s p x e))"
  by (rule update_cases [of s p x e]) auto

lemma find_None: "sinv s \<Longrightarrow> st_find ops s k = None \<longleftrightarrow>
    (\<forall>a p. st_get ops s a = Some p \<longrightarrow> idempotency_key p \<noteq> Some k)"
  by (metis find_get get_id not_None_eq)

end

section \<open>The in-process store\<close>

record 'v mem_store =
  ms_proposals :: "(string \<times> 'v proposal) list"
  ms_feed :: "feed_event list"

definition empty_store :: "'v mem_store" where
  "empty_store = \<lparr>ms_proposals = [], ms_feed = []\<rparr>"

definition append_feed ::
    "'v proposal \<Rightarrow> int \<Rightarrow> history_event \<Rightarrow> feed_event list \<Rightarrow> feed_event list" where
  "append_feed p sq e feed =
     (let pos = length feed + 1 in
      feed @ [\<lparr>position = int pos, event_id = ''ape_memory_'' @ pad_left 12 (nat_text pos),
        fe_action_id = action_id p, sequence = sq, fe_event = e, fe_adapter = adapter p,
        fe_source_kind = prop_source_kind p, fe_policy_id = policy_id p,
        fe_policy_name = policy_name p\<rparr>])"

fun append_history :: "'v proposal \<Rightarrow> int \<Rightarrow> history_event list \<Rightarrow> feed_event list \<Rightarrow> feed_event list" where
  "append_history p sq [] feed = feed"
| "append_history p sq (e # es) feed = append_history p (sq + 1) es (append_feed p sq e feed)"

definition py_slice_to :: "int \<Rightarrow> 'a list \<Rightarrow> 'a list" where
  "py_slice_to n xs = take (nat (max n 0)) xs"

definition mem_changes :: "'v mem_store \<Rightarrow> int \<Rightarrow> int \<Rightarrow> string option \<Rightarrow> feed_event list" where
  "mem_changes s after limit aid = py_slice_to limit
     (filter (\<lambda>i. position i > after \<and> (aid = None \<or> aid = Some (fe_action_id i))) (ms_feed s))"

definition mem_get :: "'v mem_store \<Rightarrow> string \<Rightarrow> 'v proposal option" where
  "mem_get s a = map_of (ms_proposals s) a"

definition mem_find :: "'v mem_store \<Rightarrow> string \<Rightarrow> 'v proposal option" where
  "mem_find s k = List.find (\<lambda>p. idempotency_key p = Some k) (map snd (ms_proposals s))"

definition sort_proposals :: "'v proposal list \<Rightarrow> 'v proposal list" where
  \<comment> \<open>newest first, ties by action id: a stable descending sort after an ascending one\<close>
  "sort_proposals ps = sort_key (\<lambda>p. - created_at p) (sort_key action_id ps)"

definition mem_list :: "'v mem_store \<Rightarrow> 'v proposal list" where
  "mem_list s = sort_proposals (map snd (ms_proposals s))"

definition mem_insert :: "'v mem_store \<Rightarrow> 'v proposal \<Rightarrow> registry_error + 'v mem_store" where
  "mem_insert s p =
     (if map_of (ms_proposals s) (action_id p) \<noteq> None
      then Inl (Conflict (''Proposal '' @ action_id p @ '' already exists.''))
      else if idempotency_key p \<noteq> None \<and>
          list_ex (\<lambda>q. idempotency_key q = idempotency_key p) (map snd (ms_proposals s))
      then Inl (Conflict (''Idempotency key '' @ the (idempotency_key p) @ '' is already in use.''))
      else Inr \<lparr>ms_proposals = AList.update (action_id p) p (ms_proposals s),
        ms_feed = append_history p 1 (history p) (ms_feed s)\<rparr>)"

definition mem_update ::
    "'v mem_store \<Rightarrow> 'v proposal \<Rightarrow> proposal_status \<Rightarrow> history_event option \<Rightarrow> bool \<times> 'v mem_store" where
  "mem_update s p expected e =
     (case map_of (ms_proposals s) (action_id p) of
        None \<Rightarrow> (False, s)
      | Some stored \<Rightarrow>
          if status stored \<noteq> expected then (False, s)
          else
            let updated = p\<lparr>idempotency_key := idempotency_key stored, history := history stored\<rparr>;
                updated' = (case e of None \<Rightarrow> updated
                  | Some ev \<Rightarrow> updated\<lparr>history := history updated @ [ev]\<rparr>);
                feed' = (case e of None \<Rightarrow> ms_feed s
                  | Some ev \<Rightarrow> append_feed stored (int (length (history updated'))) ev (ms_feed s))
            in (True, \<lparr>ms_proposals = AList.update (action_id p) updated' (ms_proposals s),
                 ms_feed = feed'\<rparr>))"

definition mem_ops :: "('v mem_store, 'v) store_ops" where
  "mem_ops = \<lparr>st_get = mem_get, st_find = mem_find, st_list = mem_list, st_insert = mem_insert,
     st_update = mem_update, st_changes = mem_changes\<rparr>"

lemma mem_ops_simps [simp]:
  "st_get mem_ops = mem_get" "st_find mem_ops = mem_find" "st_list mem_ops = mem_list"
  "st_insert mem_ops = mem_insert" "st_update mem_ops = mem_update"
  "st_changes mem_ops = mem_changes"
  by (simp_all add: mem_ops_def)

section \<open>The in-process store keeps the contract\<close>

definition feed_positions :: "feed_event list \<Rightarrow> bool" where
  "feed_positions feed = (map position feed = map int [1..<Suc (length feed)])"

definition feed_of :: "string \<Rightarrow> feed_event list \<Rightarrow> feed_event list" where
  "feed_of a feed = filter (\<lambda>i. fe_action_id i = a) feed"

fun numbered :: "int \<Rightarrow> history_event list \<Rightarrow> (int \<times> history_event) list" where
  "numbered n [] = []"
| "numbered n (e # es) = (n, e) # numbered (n + 1) es"

definition seq_event :: "feed_event \<Rightarrow> int \<times> history_event" where
  "seq_event i = (sequence i, fe_event i)"

lemma numbered_snoc: "numbered n (es @ [e]) = numbered n es @ [(n + int (length es), e)]"
  by (induction n es rule: numbered.induct) (simp_all add: algebra_simps)

lemma map_snd_numbered [simp]: "map snd (numbered n es) = es"
  by (induction n es rule: numbered.induct) simp_all

lemma map_fst_numbered: "map fst (numbered n es) = map (\<lambda>i. n + int i) [0..<length es]"
  by (induction n es rule: numbered.induct)
    (simp_all add: upt_conv_Cons map_Suc_upt [symmetric] algebra_simps del: upt_Suc)

lemma append_feed_length [simp]: "length (append_feed p n e feed) = Suc (length feed)"
  by (simp add: append_feed_def)

lemma append_feed_positions: "feed_positions feed \<Longrightarrow> feed_positions (append_feed p n e feed)"
  by (simp add: feed_positions_def append_feed_def)

lemma append_feed_of: "map seq_event (feed_of a (append_feed p n e feed)) =
    map seq_event (feed_of a feed) @ (if action_id p = a then [(n, e)] else [])"
  by (simp add: feed_of_def append_feed_def seq_event_def)

lemma append_history_positions: "feed_positions feed \<Longrightarrow> feed_positions (append_history p n es feed)"
  by (induction p n es feed rule: append_history.induct) (auto simp: append_feed_positions)

lemma append_history_of: "map seq_event (feed_of a (append_history p n es feed)) =
    map seq_event (feed_of a feed) @ (if action_id p = a then numbered n es else [])"
  by (induction p n es feed rule: append_history.induct) (simp_all add: append_feed_of)

definition mem_inv :: "'v mem_store \<Rightarrow> bool" where
  "mem_inv s \<longleftrightarrow>
     distinct (map fst (ms_proposals s)) \<and>
     (\<forall>a p. mem_get s a = Some p \<longrightarrow> action_id p = a) \<and>
     (\<forall>a b p q k. mem_get s a = Some p \<longrightarrow> mem_get s b = Some q \<longrightarrow>
        idempotency_key p = Some k \<longrightarrow> idempotency_key q = Some k \<longrightarrow> a = b) \<and>
     feed_positions (ms_feed s) \<and>
     (\<forall>a. map seq_event (feed_of a (ms_feed s)) =
        numbered 1 (case mem_get s a of None \<Rightarrow> [] | Some p \<Rightarrow> history p))"

lemma mem_inv_empty: "mem_inv empty_store"
  by (simp add: mem_inv_def empty_store_def mem_get_def feed_positions_def feed_of_def)

lemma mem_get_in: "mem_inv s \<Longrightarrow> mem_get s a = Some p \<longleftrightarrow> (a, p) \<in> set (ms_proposals s)"
  by (simp add: mem_inv_def mem_get_def)

lemma mem_ran: "mem_inv s \<Longrightarrow> ran (mem_get s) = snd ` set (ms_proposals s)"
  by (force simp: ran_def mem_get_in image_iff)

lemma mem_find_iff: "mem_inv s \<Longrightarrow> mem_find s k = Some p \<longleftrightarrow>
    mem_get s (action_id p) = Some p \<and> idempotency_key p = Some k"
proof
  assume sinv: "mem_inv s" and "mem_find s k = Some p"
  then have "p \<in> ran (mem_get s)" and "idempotency_key p = Some k"
    using find_Some_member [of _ "map snd (ms_proposals s)" p]
    by (auto simp: mem_find_def mem_ran)
  then show "mem_get s (action_id p) = Some p \<and> idempotency_key p = Some k"
    using sinv by (auto simp: ran_def mem_inv_def)
next
  assume sinv: "mem_inv s" and p: "mem_get s (action_id p) = Some p \<and> idempotency_key p = Some k"
  then have "p \<in> set (map snd (ms_proposals s))"
    by (metis mem_ran ranI set_map)
  with p have "mem_find s k \<noteq> None"
    by (auto simp: mem_find_def find_None_iff)
  then obtain q where q: "mem_find s k = Some q" by blast
  then have "q \<in> ran (mem_get s)" and "idempotency_key q = Some k"
    using sinv find_Some_member [of _ "map snd (ms_proposals s)" q]
    by (auto simp: mem_find_def mem_ran)
  then obtain a where "mem_get s a = Some q"
    by (auto simp: ran_def)
  moreover from this have "a = action_id p"
    using sinv p \<open>idempotency_key q = Some k\<close> by (auto simp: mem_inv_def)
  ultimately have "q = p"
    using p by simp
  with q show "mem_find s k = Some p" by simp
qed

lemma mem_find_None: "mem_inv s \<Longrightarrow> mem_find s k = None \<longleftrightarrow>
    (\<forall>a p. mem_get s a = Some p \<longrightarrow> idempotency_key p \<noteq> Some k)"
  by (metis mem_find_iff mem_inv_def not_None_eq)

lemma mem_key_taken: "mem_inv s \<Longrightarrow>
    list_ex (\<lambda>q. idempotency_key q = Some k) (map snd (ms_proposals s)) \<longleftrightarrow> mem_find s k \<noteq> None"
  by (auto simp: mem_find_def find_None_iff list_ex_iff)

lemma mem_insert_Inr: "mem_inv s \<Longrightarrow> mem_insert s p = Inr s' \<longleftrightarrow>
    mem_get s (action_id p) = None \<and> (\<forall>k. idempotency_key p = Some k \<longrightarrow> mem_find s k = None) \<and>
    s' = \<lparr>ms_proposals = AList.update (action_id p) p (ms_proposals s),
       ms_feed = append_history p 1 (history p) (ms_feed s)\<rparr>"
  by (cases "idempotency_key p") (auto simp: mem_insert_def mem_get_def mem_key_taken)

lemma mem_insert_get: "mem_insert s p = Inr s' \<Longrightarrow> mem_get s' = (mem_get s)(action_id p \<mapsto> p)"
  by (auto simp: mem_insert_def mem_get_def map_of_update split: if_splits)

lemma mem_insert_inv:
  assumes "mem_inv s" and ins: "mem_insert s p = Inr s'"
  shows "mem_inv s'"
proof -
  note ok = mem_insert_Inr [OF assms(1), THEN iffD1, OF ins]
  then have free: "mem_get s (action_id p) = None"
    and feed: "ms_feed s' = append_history p 1 (history p) (ms_feed s)"
    and props: "ms_proposals s' = AList.update (action_id p) p (ms_proposals s)"
    by simp_all
  have keyfree: "mem_get s a = Some q \<Longrightarrow> idempotency_key q = Some k \<Longrightarrow>
      idempotency_key p = Some k \<Longrightarrow> False" for a q k
    using ok mem_find_None [OF assms(1)] by blast
  have get: "mem_get s' = (mem_get s)(action_id p \<mapsto> p)"
    by (rule mem_insert_get [OF ins])
  have "map seq_event (feed_of a (ms_feed s')) =
      numbered 1 (case mem_get s' a of None \<Rightarrow> [] | Some q \<Rightarrow> history q)" for a
    using assms(1) free by (auto simp: get feed append_history_of mem_inv_def)
  moreover have "feed_positions (ms_feed s')" and "distinct (map fst (ms_proposals s'))"
    using assms(1) by (simp_all add: feed props append_history_positions distinct_update mem_inv_def)
  ultimately show ?thesis
    unfolding mem_inv_def get using assms(1) keyfree by (auto simp: mem_inv_def)
qed

lemma mem_update_hit:
  assumes "mem_get s (action_id p) = Some q" and "status q = x"
  shows "mem_update s p x e = (True, \<lparr>ms_proposals = AList.update (action_id p) (committed q p e) (ms_proposals s),
     ms_feed = (case e of None \<Rightarrow> ms_feed s
       | Some ev \<Rightarrow> append_feed q (int (Suc (length (history q)))) ev (ms_feed s))\<rparr>)"
  using assms by (cases e) (simp_all add: mem_update_def mem_get_def committed_def Let_def)

lemma mem_update_inv:
  assumes sinv: "mem_inv s" and q: "mem_get s (action_id p) = Some q" and x: "status q = x"
    and upd: "mem_update s p x e = (b, s')"
  shows "mem_inv s' \<and> mem_get s' = (mem_get s)(action_id p \<mapsto> committed q p e)"
proof -
  have s': "s' = \<lparr>ms_proposals = AList.update (action_id p) (committed q p e) (ms_proposals s),
     ms_feed = (case e of None \<Rightarrow> ms_feed s
       | Some ev \<Rightarrow> append_feed q (int (Suc (length (history q)))) ev (ms_feed s))\<rparr>"
    using upd mem_update_hit [OF q x] by simp
  then have feed: "ms_feed s' = (case e of None \<Rightarrow> ms_feed s
       | Some ev \<Rightarrow> append_feed q (int (Suc (length (history q)))) ev (ms_feed s))"
    by simp
  have get: "mem_get s' = (mem_get s)(action_id p \<mapsto> committed q p e)"
    by (simp add: s' mem_get_def map_of_update fun_eq_iff)
  have qid: "action_id q = action_id p"
    using sinv q by (simp add: mem_inv_def)
  have "map seq_event (feed_of a (ms_feed s')) =
      numbered 1 (case mem_get s' a of None \<Rightarrow> [] | Some r \<Rightarrow> history r)" for a
    using sinv q by (cases e) (auto simp: feed get qid append_feed_of mem_inv_def numbered_snoc)
  moreover have "feed_positions (ms_feed s')" and "distinct (map fst (ms_proposals s'))"
    using sinv by (auto simp: s' mem_inv_def append_feed_positions distinct_update split: option.splits)
  ultimately show ?thesis
    unfolding mem_inv_def get using sinv q by (auto simp: mem_inv_def split: if_splits)
qed

lemma mem_update_miss:
  assumes "\<forall>q. mem_get s (action_id p) = Some q \<longrightarrow> status q \<noteq> x"
  shows "mem_update s p x e = (False, s)"
  using assms by (auto simp: mem_update_def mem_get_def split: option.splits)

interpretation mem: proposal_store mem_ops mem_inv
proof (unfold_locales, unfold mem_ops_simps, goal_cases)
  case (1 s a p)
  then show ?case by (simp add: mem_inv_def)
next
  case (2 s k p)
  then show ?case by (rule mem_find_iff)
next
  case (3 s)
  then show ?case by (simp add: mem_list_def sort_proposals_def mem_ran)
next
  case (4 s p)
  then show ?case by (auto simp: mem_insert_Inr)
next
  case (5 s p s')
  then show ?case by (simp add: mem_insert_Inr)
next
  case (6 s p err)
  then show ?case by (auto simp: mem_insert_def split: if_splits)
next
  case (7 s p s')
  then show ?case by (rule mem_insert_inv)
next
  case (8 s p s')
  then show ?case by (simp add: mem_insert_get)
next
  case (9 s p x e)
  then show ?case by (simp add: mem_update_miss)
next
  case (10 s p q x e)
  then show ?case
    using mem_update_hit [of s p q x e] mem_update_inv [of s p q x e] by blast
qed

end
