(* ===== verification/ProposalRegistry.thy ===== *)
theory ProposalRegistry
  imports Proposals
begin

text \<open>
  \<open>ActionProposalRegistry\<close>: the lifecycle rules of the queue, over any store of the port.

  Every method is the sequence of store calls the code makes.  Other threads and replicas may write
  between two of them, so each method takes \<open>gap\<close>: \<open>gap i\<close> is what happened to the store before the
  method's \<open>i\<close>-th store call (\<open>no_gap\<close> is the undisturbed run).  The clock readings and the random
  hexadecimal digits a call draws are arguments: \<open>now\<close> for \<open>_now_iso\<close>, \<open>now2\<close> for a second reading,
  \<open>uid\<close> for \<open>uuid.uuid4().hex[:12]\<close>.
\<close>

type_synonym 's gaps = "nat \<Rightarrow> 's \<Rightarrow> 's"

definition no_gap :: "'s gaps" where
  "no_gap i s = s"

record 'v draft =
  d_policy_id :: string
  d_policy_name :: string
  d_verdict :: string
  d_value :: "string option"
  d_notification_id :: "string option"
  d_adapter :: string
  d_source_kind :: source_kind
  d_source_key :: "string option"
  d_source_summary :: "string option"
  d_created_by :: "string option"
  d_metadata :: "(string \<rightharpoonup> 'v) option"
  d_action_id :: "string option"
  d_provenance :: "provenance option"
  d_idempotency_key :: "string option"
  d_actor_auth_provider :: "string option"
  d_reopen_resolved :: bool

definition clean_reason :: "string option \<Rightarrow> string option" where
  "clean_reason r = (case r of None \<Rightarrow> None
     | Some t \<Rightarrow> if t \<noteq> [] \<and> strip t \<noteq> [] then Some (strip t) else None)"

definition require :: "('s, 'v) store_ops \<Rightarrow> 's \<Rightarrow> string \<Rightarrow> registry_error + 'v proposal" where
  "require ops s aid = (case st_get ops s aid of
     None \<Rightarrow> Inl (Unknown_action (''Unknown approval action: '' @ aid)) | Some p \<Rightarrow> Inr p)"

definition require_pending :: "('s, 'v) store_ops \<Rightarrow> 's \<Rightarrow> string \<Rightarrow> registry_error + 'v proposal" where
  "require_pending ops s aid = and_then (require ops s aid)
     (\<lambda>p. if status p \<noteq> Pending then Inl (ProposalTransitionError aid (status p)) else Inr p)"

section \<open>Resolving: approve, dismiss, revert a failed release\<close>

definition resolved_copy ::
    "int \<Rightarrow> proposal_status \<Rightarrow> string option \<Rightarrow> string option \<Rightarrow> 'v proposal \<Rightarrow> 'v proposal" where
  "resolved_copy now kind by reason p =
     (let p1 = p\<lparr>status := kind\<rparr>;
          p2 = (if kind = Approved then p1\<lparr>approved_at := Some now\<rparr> else p1\<lparr>dismissed_at := Some now\<rparr>)
      in p2\<lparr>resolved_by := by, resolution_reason := reason\<rparr>)"

definition resolution_event ::
    "int \<Rightarrow> proposal_status \<Rightarrow> string option \<Rightarrow> string option \<Rightarrow> string option \<Rightarrow> history_event" where
  "resolution_event now kind by reason auth =
     \<lparr>ev_kind = (if kind = Approved then Was_approved else Was_dismissed), ev_at = now,
      ev_actor = by, ev_reason = reason, ev_actor_auth_provider = auth\<rparr>"

definition resolve :: "('s, 'v) store_ops \<Rightarrow> 's gaps \<Rightarrow> int \<Rightarrow> 's \<Rightarrow> string \<Rightarrow> proposal_status \<Rightarrow>
    string option \<Rightarrow> string option \<Rightarrow> string option \<Rightarrow> (registry_error + 'v proposal) \<times> 's" where
  "resolve ops gap now s aid kind by reason auth =
     (let s0 = gap 0 s in
      case require_pending ops s0 aid of
        Inl err \<Rightarrow> (Inl err, s0)
      | Inr p \<Rightarrow>
          let cleaned = clean_reason reason;
              p' = resolved_copy now kind by cleaned p;
              e = resolution_event now kind by cleaned auth;
              (ok, s1) = st_update ops (gap 1 s0) p' Pending (Some e);
              s2 = gap 2 s1
          in (and_then (require ops s2 aid)
                (\<lambda>q. if ok then Inr q else Inl (ProposalTransitionError aid (status q))), s2))"

definition approve where
  "approve ops gap now s aid by reason auth = resolve ops gap now s aid Approved by reason auth"

definition dismiss where
  "dismiss ops gap now s aid by reason auth = resolve ops gap now s aid Dismissed by reason auth"

definition reverted_copy :: "'v proposal \<Rightarrow> 'v proposal" where
  "reverted_copy p = p\<lparr>status := Pending, approved_at := None, dismissed_at := None,
     resolved_by := None, resolution_reason := None\<rparr>"

definition revert_failed_release :: "('s, 'v) store_ops \<Rightarrow> 's gaps \<Rightarrow> int \<Rightarrow> 's \<Rightarrow> string \<Rightarrow>
    proposal_status \<Rightarrow> string \<Rightarrow> (registry_error + 'v proposal) \<times> 's" where
  "revert_failed_release ops gap now s aid resolution reason =
     (let s0 = gap 0 s in
      case require ops s0 aid of
        Inl err \<Rightarrow> (Inl err, s0)
      | Inr p \<Rightarrow>
          if status p \<noteq> resolution then (Inl (ProposalTransitionError aid (status p)), s0)
          else
            let e = \<lparr>ev_kind = Release_failed, ev_at = now, ev_actor = None,
                  ev_reason = clean_reason (Some reason), ev_actor_auth_provider = None\<rparr>;
                (ok, s1) = st_update ops (gap 1 s0) (reverted_copy p) resolution (Some e);
                s2 = gap 2 s1
            in (and_then (require ops s2 aid)
                  (\<lambda>q. if ok then Inr q else Inl (ProposalTransitionError aid (status q))), s2))"

section \<open>Drafting: register\<close>

text \<open>\<open>i\<close> is the number of store calls made before, so that a caller's gaps go on counting.\<close>

definition refresh :: "('s, 'v) store_ops \<Rightarrow> 's gaps \<Rightarrow> nat \<Rightarrow> int \<Rightarrow> 's \<Rightarrow> 'v proposal \<Rightarrow> string \<Rightarrow>
    string option \<Rightarrow> (string \<rightharpoonup> 'v) option \<Rightarrow> string option \<Rightarrow> string option \<Rightarrow>
    (registry_error + 'v proposal) \<times> 's" where
  "refresh ops gap i now s existing vd val md actor auth =
     (let changed = (verdict existing \<noteq> vd \<or> prop_value existing \<noteq> val);
          updated = existing\<lparr>verdict := vd, prop_value := val,
            prop_metadata := (case md of None \<Rightarrow> Map.empty | Some m \<Rightarrow> m)\<rparr>;
          e = (if changed then Some \<lparr>ev_kind = Refreshed, ev_at = now, ev_actor = actor,
                 ev_reason = None, ev_actor_auth_provider = auth\<rparr> else None);
          (ok, s1) = st_update ops (gap i s) updated Pending e;
          s2 = gap (i + 1) s1
      in (require ops s2 (action_id existing), s2))"

definition replay_idempotent :: "('s, 'v) store_ops \<Rightarrow> 's gaps \<Rightarrow> nat \<Rightarrow> int \<Rightarrow> 's \<Rightarrow> 'v proposal \<Rightarrow>
    'v draft \<Rightarrow> (registry_error + 'v proposal) \<times> 's" where
  "replay_idempotent ops gap i now s existing d =
     (if created_by existing \<noteq> d_created_by d
      then (Inl (Conflict (''Idempotency key '' @ (case idempotency_key existing of None \<Rightarrow> ''None'' | Some k \<Rightarrow> k)
              @ '' belongs to another drafter.'')), s)
      else if status existing \<noteq> Pending then (Inr existing, s)
      else refresh ops gap i now s existing (d_verdict d) (d_value d) (d_metadata d)
             (d_created_by d) (d_actor_auth_provider d))"

definition resolved_action_id :: "string \<Rightarrow> 'v draft \<Rightarrow> string" where
  "resolved_action_id uid d = text_or (d_action_id d)
     (case d_idempotency_key d of Some k \<Rightarrow> ''agent_'' @ k | None \<Rightarrow> ''approval_'' @ uid)"

definition new_proposal :: "int \<Rightarrow> string \<Rightarrow> string option \<Rightarrow> 'v draft \<Rightarrow> 'v proposal" where
  "new_proposal now aid key d =
     \<lparr>action_id = aid, policy_id = d_policy_id d, policy_name = d_policy_name d,
      verdict = d_verdict d, prop_value = d_value d,
      notification_id = text_or (d_notification_id d) aid, adapter = d_adapter d,
      prop_source_kind = d_source_kind d, source_key = d_source_key d,
      source_summary = d_source_summary d, created_by = d_created_by d, status = Pending,
      created_at = now, approved_at = None, dismissed_at = None,
      prop_metadata = (case d_metadata d of None \<Rightarrow> Map.empty | Some m \<Rightarrow> m),
      prop_provenance = d_provenance d, resolved_by = None, resolution_reason = None,
      idempotency_key = key, history = []\<rparr>"

definition reopen :: "('s, 'v) store_ops \<Rightarrow> 's gaps \<Rightarrow> nat \<Rightarrow> 's \<Rightarrow> 'v proposal \<Rightarrow> 'v proposal \<Rightarrow>
    string option \<Rightarrow> (registry_error + 'v proposal) \<times> 's" where
  "reopen ops gap i s existing reopened auth =
     (let e = \<lparr>ev_kind = Reopened, ev_at = created_at reopened, ev_actor = created_by reopened,
            ev_reason = Some (''Re-raised after it was '' @ status_text (status existing) @ ''.''),
            ev_actor_auth_provider = auth\<rparr>;
          (ok, s1) = st_update ops (gap i s) reopened (status existing) (Some e)
      in if ok then (let s2 = gap (i + 1) s1 in (require ops s2 (action_id existing), s2))
         else
           let s2 = gap (i + 1) s1
           in case require ops s2 (action_id existing) of
                Inl err \<Rightarrow> (Inl err, s2)
              | Inr current \<Rightarrow>
                  if status current \<noteq> Pending
                  then (Inl (ProposalTransitionError (action_id existing) (status current)), s2)
                  else (let s3 = gap (i + 2) s2 in (require ops s3 (action_id existing), s3)))"

definition drafted_event :: "int \<Rightarrow> string option \<Rightarrow> string option \<Rightarrow> history_event" where
  "drafted_event now actor auth = \<lparr>ev_kind = Drafted, ev_at = now, ev_actor = actor,
     ev_reason = None, ev_actor_auth_provider = auth\<rparr>"

definition insert_draft :: "('s, 'v) store_ops \<Rightarrow> 's gaps \<Rightarrow> nat \<Rightarrow> int \<Rightarrow> int \<Rightarrow> 's \<Rightarrow> string \<Rightarrow>
    'v draft \<Rightarrow> (registry_error + 'v proposal) \<times> 's" where
  "insert_draft ops gap i now now2 s aid d =
     (let p = (new_proposal now aid (d_idempotency_key d) d)
            \<lparr>history := [drafted_event now (d_created_by d) (d_actor_auth_provider d)]\<rparr>;
          s1 = gap i s
      in case st_insert ops s1 p of
           Inr s2 \<Rightarrow> (let s3 = gap (i + 1) s2 in (require ops s3 aid, s3))
         | Inl err \<Rightarrow>
             (case d_idempotency_key d of
                None \<Rightarrow> (Inl err, s1)
              | Some k \<Rightarrow>
                  let s2 = gap (i + 1) s1
                  in case st_find ops s2 k of
                       None \<Rightarrow> (Inl err, s2)
                     | Some winner \<Rightarrow> replay_idempotent ops gap (i + 2) now2 s2 winner d))"

definition register_new :: "('s, 'v) store_ops \<Rightarrow> 's gaps \<Rightarrow> nat \<Rightarrow> int \<Rightarrow> int \<Rightarrow> string \<Rightarrow> 's \<Rightarrow>
    'v draft \<Rightarrow> (registry_error + 'v proposal) \<times> 's" where
  "register_new ops gap i now now2 uid s d =
     (let aid = resolved_action_id uid d; s1 = gap i s
      in case st_get ops s1 aid of
           None \<Rightarrow> insert_draft ops gap (i + 1) now now2 s1 aid d
         | Some existing \<Rightarrow>
             if idempotency_key existing \<noteq> d_idempotency_key d \<and>
                (idempotency_key existing \<noteq> None \<or> d_idempotency_key d \<noteq> None)
             then (Inl (Conflict (''Proposal '' @ aid @ '' exists under a different idempotency key.'')), s1)
             else if status existing = Pending
             then refresh ops gap (i + 1) now s1 existing (d_verdict d) (d_value d) (d_metadata d)
                    (d_created_by d) (d_actor_auth_provider d)
             else if \<not> d_reopen_resolved d
             then (Inl (ProposalTransitionError aid (status existing)), s1)
             else reopen ops gap (i + 1) s1 existing
                    (new_proposal now aid (idempotency_key existing) d) (d_actor_auth_provider d))"

definition register :: "('s, 'v) store_ops \<Rightarrow> 's gaps \<Rightarrow> int \<Rightarrow> int \<Rightarrow> string \<Rightarrow> 's \<Rightarrow> 'v draft \<Rightarrow>
    (registry_error + 'v proposal) \<times> 's" where
  "register ops gap now now2 uid s d =
     (case d_idempotency_key d of
        None \<Rightarrow> register_new ops gap 0 now now2 uid s d
      | Some k \<Rightarrow>
          let s0 = gap 0 s
          in case st_find ops s0 k of
               Some replayed \<Rightarrow> replay_idempotent ops gap 1 now s0 replayed d
             | None \<Rightarrow> register_new ops gap 1 now now2 uid s0 d)"

section \<open>Reading\<close>

definition list_pending :: "('s, 'v) store_ops \<Rightarrow> 's \<Rightarrow> 'v proposal list" where
  "list_pending ops s = filter (\<lambda>p. status p = Pending) (st_list ops s)"

record registry_status =
  rs_tracked :: nat
  rs_pending :: nat
  rs_approved :: nat
  rs_dismissed :: nat

definition get_status :: "('s, 'v) store_ops \<Rightarrow> 's \<Rightarrow> registry_status" where
  "get_status ops s =
     (let ps = st_list ops s; count = (\<lambda>x. length (filter (\<lambda>p. status p = x) ps))
      in \<lparr>rs_tracked = length ps, rs_pending = count Pending, rs_approved = count Approved,
          rs_dismissed = count Dismissed\<rparr>)"

end
