(* ===== verification/ProposalLifecycle.thy ===== *)
theory ProposalLifecycle
  imports ProposalRegistry
begin

text \<open>
  The lifecycle the registry promises, as an event-sourced state machine, and the proof that every
  method of the registry keeps it on any store of the port, whatever other writers do in its gaps
  as long as they keep it too (rely: \<open>calm\<close>).
\<close>

section \<open>The specification\<close>

definition STATUS_AFTER_EVENT :: "event_kind \<Rightarrow> proposal_status" where
  "STATUS_AFTER_EVENT k = (case k of Drafted \<Rightarrow> Pending | Refreshed \<Rightarrow> Pending
     | Reopened \<Rightarrow> Pending | Release_failed \<Rightarrow> Pending
     | Was_approved \<Rightarrow> Approved | Was_dismissed \<Rightarrow> Dismissed)"

text \<open>Histories the lifecycle allows, with the status they end in.\<close>

inductive lifecycle :: "event_kind list \<Rightarrow> proposal_status \<Rightarrow> bool" where
  draft: "lifecycle [Drafted] Pending"
| refreshed: "lifecycle ks Pending \<Longrightarrow> lifecycle (ks @ [Refreshed]) Pending"
| approved: "lifecycle ks Pending \<Longrightarrow> lifecycle (ks @ [Was_approved]) Approved"
| dismissed: "lifecycle ks Pending \<Longrightarrow> lifecycle (ks @ [Was_dismissed]) Dismissed"
| reopened: "lifecycle ks x \<Longrightarrow> x \<noteq> Pending \<Longrightarrow> lifecycle (ks @ [Reopened]) Pending"
| release_failed: "lifecycle ks x \<Longrightarrow> x \<noteq> Pending \<Longrightarrow> lifecycle (ks @ [Release_failed]) Pending"

inductive_cases lifecycle_NilE: "lifecycle [] x"

lemma lifecycle_last: "lifecycle ks x \<Longrightarrow> ks \<noteq> [] \<and> x = STATUS_AFTER_EVENT (last ks)"
  by (induction rule: lifecycle.induct) (auto simp: STATUS_AFTER_EVENT_def)

lemma lifecycle_first: "lifecycle ks x \<Longrightarrow> hd ks = Drafted \<and> Drafted \<notin> set (tl ks)"
  by (induction rule: lifecycle.induct) (auto dest: lifecycle_last)

definition well_formed :: "'v proposal \<Rightarrow> bool" where
  "well_formed p \<longleftrightarrow> lifecycle (map ev_kind (history p)) (status p) \<and>
     (approved_at p \<noteq> None \<longleftrightarrow> status p = Approved) \<and>
     (dismissed_at p \<noteq> None \<longleftrightarrow> status p = Dismissed) \<and>
     (status p = Pending \<longrightarrow> resolved_by p = None \<and> resolution_reason p = None)"

definition wf_store :: "('s, 'v) store_ops \<Rightarrow> 's \<Rightarrow> bool" where
  "wf_store ops s \<longleftrightarrow> (\<forall>a p. st_get ops s a = Some p \<longrightarrow> well_formed p)"

text \<open>What no writer may undo: a proposal stays, its history only grows, its key is fixed.\<close>

definition evolves :: "('s, 'v) store_ops \<Rightarrow> 's \<Rightarrow> 's \<Rightarrow> bool" where
  "evolves ops s t \<longleftrightarrow> (\<forall>a p. st_get ops s a = Some p \<longrightarrow>
     (\<exists>q. st_get ops t a = Some q \<and> prefix (history p) (history q) \<and>
        idempotency_key q = idempotency_key p))"

lemma evolves_refl [simp]: "evolves ops s s"
  by (simp add: evolves_def)

lemma evolves_get: "evolves ops s t \<Longrightarrow> st_get ops s a = Some p \<Longrightarrow>
    \<exists>q. st_get ops t a = Some q \<and> prefix (history p) (history q) \<and> idempotency_key q = idempotency_key p"
  unfolding evolves_def by blast

lemma evolves_trans [trans]:
  assumes "evolves ops s t" and "evolves ops t u"
  shows "evolves ops s u"
  unfolding evolves_def
proof (intro allI impI)
  fix a p
  assume "st_get ops s a = Some p"
  from evolves_get [OF assms(1) this] obtain q where
    q: "st_get ops t a = Some q" "prefix (history p) (history q)" "idempotency_key q = idempotency_key p"
    by blast
  from evolves_get [OF assms(2) q(1)] q(2,3)
  show "\<exists>r. st_get ops u a = Some r \<and> prefix (history p) (history r) \<and>
      idempotency_key r = idempotency_key p"
    by (metis prefix_order.trans)
qed

section \<open>Well-formedness of what the registry writes\<close>

lemma well_formed_pendingD:
  "well_formed p \<Longrightarrow> status p = Pending \<Longrightarrow>
     approved_at p = None \<and> dismissed_at p = None \<and> resolved_by p = None \<and> resolution_reason p = None"
  by (auto simp: well_formed_def)

lemma well_formed_resolved:
  assumes "well_formed p" and "status p = Pending" and "well_formed q" and "status q = Pending"
    and "kind \<noteq> Pending"
  shows "well_formed (committed q (resolved_copy now kind by r p) (Some (resolution_event now kind by r auth)))"
proof -
  have "lifecycle (map ev_kind (history q)) Pending"
    using assms by (simp add: well_formed_def)
  then show ?thesis
    using assms well_formed_pendingD [OF assms(1,2)]
    by (cases kind)
      (auto simp: well_formed_def resolved_copy_def resolution_event_def intro: approved dismissed)
qed

lemma well_formed_reverted:
  assumes "well_formed q" and "status q \<noteq> Pending"
  shows "well_formed (committed q (reverted_copy p)
      (Some \<lparr>ev_kind = Release_failed, ev_at = now, ev_actor = a, ev_reason = r, ev_actor_auth_provider = x\<rparr>))"
  using assms release_failed [of "map ev_kind (history q)" "status q"]
  by (auto simp: well_formed_def reverted_copy_def committed_def)

lemma well_formed_refreshed:
  assumes "well_formed p" and "status p = Pending" and "well_formed q" and "status q = Pending"
    and "e = None \<or> (\<exists>ev. e = Some ev \<and> ev_kind ev = Refreshed)"
  shows "well_formed (committed q (p\<lparr>verdict := v, prop_value := w, prop_metadata := m\<rparr>) e)"
  using assms refreshed [of "map ev_kind (history q)"]
  by (auto simp: well_formed_def committed_def)

lemma well_formed_reopened:
  assumes "well_formed q" and "status q \<noteq> Pending" and "ev_kind ev = Reopened"
  shows "well_formed (committed q (new_proposal now aid key d) (Some ev))"
  using assms reopened [of "map ev_kind (history q)" "status q"]
  by (auto simp: well_formed_def committed_def new_proposal_def)

lemma well_formed_drafted:
  "well_formed ((new_proposal now aid key d)\<lparr>history := [drafted_event now actor auth]\<rparr>)"
  by (simp add: well_formed_def new_proposal_def drafted_event_def draft)

section \<open>Every method keeps the store\<close>

definition kept :: "('s, 'v) store_ops \<Rightarrow> ('s \<Rightarrow> bool) \<Rightarrow> 's \<Rightarrow> 's \<Rightarrow> bool" where
  "kept ops sinv s t \<longleftrightarrow> sinv t \<and> evolves ops s t \<and> wf_store ops t"

definition calm :: "('s, 'v) store_ops \<Rightarrow> ('s \<Rightarrow> bool) \<Rightarrow> 's gaps \<Rightarrow> bool" where
  "calm ops sinv gap \<longleftrightarrow> (\<forall>i s. sinv s \<longrightarrow> wf_store ops s \<longrightarrow> kept ops sinv s (gap i s))"

lemma calm_no_gap: "calm ops sinv no_gap"
  by (simp add: calm_def kept_def no_gap_def)

lemma calmD: "calm ops sinv gap \<Longrightarrow> sinv s \<Longrightarrow> wf_store ops s \<Longrightarrow> kept ops sinv s (gap i s)"
  by (simp add: calm_def)

lemma kept_refl: "sinv s \<Longrightarrow> wf_store ops s \<Longrightarrow> kept ops sinv s s"
  by (simp add: kept_def)

lemma kept_trans: "kept ops sinv s t \<Longrightarrow> kept ops sinv t u \<Longrightarrow> kept ops sinv s u"
  unfolding kept_def using evolves_trans [of ops s t u] by blast

lemma keptD: "kept ops sinv s t \<Longrightarrow> sinv t" "kept ops sinv s t \<Longrightarrow> wf_store ops t"
    "kept ops sinv s t \<Longrightarrow> evolves ops s t"
  by (simp_all add: kept_def)

lemma kept_calm: "kept ops sinv s t \<Longrightarrow> calm ops sinv gap \<Longrightarrow> kept ops sinv s (gap i t)"
  by (meson calmD kept_trans keptD)

lemma wf_storeD: "wf_store ops s \<Longrightarrow> st_get ops s a = Some p \<Longrightarrow> well_formed p"
  by (simp add: wf_store_def)

lemma require_Inr: "require ops s aid = Inr p \<longleftrightarrow> st_get ops s aid = Some p"
  by (auto simp: require_def split: option.splits)

lemma require_pending_Inr:
  "require_pending ops s aid = Inr p \<longleftrightarrow> st_get ops s aid = Some p \<and> status p = Pending"
  by (auto simp: require_pending_def and_then_Inr_iff require_Inr)

lemma clean_reason_not_blank: "clean_reason r = Some t \<Longrightarrow> t \<noteq> [] \<and> strip t = t"
  by (auto simp: clean_reason_def split: option.splits if_splits)

context proposal_store begin

lemma insert_kept:
  assumes "sinv s" "wf_store ops s" "st_insert ops s p = Inr t" "well_formed p"
  shows "kept ops sinv s t"
proof -
  note get = insert_get [OF assms(1,3)]
  have "st_get ops s (action_id p) = None"
    using insert_taken [OF assms(1,3)] by blast
  then have "evolves ops s t"
    by (auto simp: evolves_def get)
  moreover have "wf_store ops t"
    using assms(2,4) by (auto simp: wf_store_def get)
  ultimately show ?thesis
    using insert_inv [OF assms(1,3)] by (simp add: kept_def)
qed

lemma update_kept:
  assumes "sinv s" "wf_store ops s"
    and "\<And>q. well_formed q \<Longrightarrow> status q = x \<Longrightarrow> well_formed (committed q p e)"
  shows "kept ops sinv s (snd (st_update ops s p x e))"
  using assms(1)
proof (cases rule: update_cases [of s p x e])
  case miss
  then show ?thesis using assms by (simp add: kept_refl)
next
  case (hit q t)
  have "well_formed (committed q p e)"
    using assms(2,3) hit by (auto dest: wf_storeD)
  then have "wf_store ops t"
    using assms(2) hit by (auto simp: wf_store_def)
  moreover have "evolves ops s t"
    using hit by (auto simp: evolves_def committed_def)
  ultimately show ?thesis
    using hit by (simp add: kept_def)
qed

lemma resolve_kept:
  assumes "sinv s" "wf_store ops s" "calm ops sinv gap" "kind \<noteq> Pending"
  shows "kept ops sinv s (snd (resolve ops gap now s aid kind by reason auth))"
proof (cases "require_pending ops (gap 0 s) aid")
  case (Inl err)
  then show ?thesis
    using assms calmD [of ops sinv gap s 0] by (simp add: resolve_def Let_def)
next
  case (Inr p)
  let ?r = "clean_reason reason"
  let ?p = "resolved_copy now kind by ?r p" and ?e = "resolution_event now kind by ?r auth"
  have s0: "kept ops sinv s (gap 0 s)"
    using assms by (simp add: calmD)
  then have s1: "kept ops sinv s (gap 1 (gap 0 s))"
    using assms(3) by (rule kept_calm)
  have "well_formed p" and "status p = Pending"
    using Inr keptD [OF s0] by (auto simp: require_pending_Inr dest: wf_storeD)
  then have "kept ops sinv (gap 1 (gap 0 s)) (snd (st_update ops (gap 1 (gap 0 s)) ?p Pending (Some ?e)))"
    using keptD [OF s1] assms(4) by (intro update_kept) (auto intro: well_formed_resolved)
  then have "kept ops sinv s (gap 2 (snd (st_update ops (gap 1 (gap 0 s)) ?p Pending (Some ?e))))"
    using s1 assms(3) by (meson kept_calm kept_trans)
  then show ?thesis
    using Inr by (simp add: resolve_def Let_def case_prod_beta)
qed

lemma revert_kept:
  assumes "sinv s" "wf_store ops s" "calm ops sinv gap" "resolution \<noteq> Pending"
  shows "kept ops sinv s (snd (revert_failed_release ops gap now s aid resolution reason))"
proof -
  let ?s1 = "gap 1 (gap 0 s)"
  have s0: "kept ops sinv s (gap 0 s)"
    using assms by (simp add: calmD)
  then have s1: "kept ops sinv s ?s1"
    using assms(3) by (rule kept_calm)
  have upd: "kept ops sinv s (gap 2 (snd (st_update ops ?s1 (reverted_copy p) resolution (Some
      \<lparr>ev_kind = Release_failed, ev_at = now, ev_actor = None, ev_reason = clean_reason (Some reason),
       ev_actor_auth_provider = None\<rparr>))))" for p
    using keptD [OF s1] assms(4) kept_trans [OF s1] kept_calm [OF _ assms(3)]
    by (metis update_kept well_formed_reverted)
  show ?thesis
    using s0 upd by (auto simp: revert_failed_release_def Let_def case_prod_beta split: sum.splits)
qed

lemma refresh_kept:
  assumes "sinv s" "wf_store ops s" "calm ops sinv gap" "well_formed existing" "status existing = Pending"
  shows "kept ops sinv s (snd (refresh ops gap i now s existing vd val md actor auth))"
proof -
  let ?e = "if verdict existing \<noteq> vd \<or> prop_value existing \<noteq> val then Some \<lparr>ev_kind = Refreshed,
      ev_at = now, ev_actor = actor, ev_reason = None, ev_actor_auth_provider = auth\<rparr> else None"
  let ?p = "existing\<lparr>verdict := vd, prop_value := val,
      prop_metadata := (case md of None \<Rightarrow> Map.empty | Some m \<Rightarrow> m)\<rparr>"
  have s1: "kept ops sinv s (gap i s)"
    using assms by (simp add: calmD)
  have "kept ops sinv (gap i s) (snd (st_update ops (gap i s) ?p Pending ?e))"
    using keptD [OF s1] assms(4,5) by (intro update_kept) (auto intro!: well_formed_refreshed)
  then have "kept ops sinv s (gap (i + 1) (snd (st_update ops (gap i s) ?p Pending ?e)))"
    using s1 assms(3) by (meson kept_calm kept_trans)
  then show ?thesis
    by (simp add: refresh_def Let_def case_prod_beta)
qed

lemma replay_kept:
  assumes "sinv s" "wf_store ops s" "calm ops sinv gap" "well_formed existing"
  shows "kept ops sinv s (snd (replay_idempotent ops gap i now s existing d))"
  using assms by (simp add: replay_idempotent_def kept_refl refresh_kept)

lemma reopen_kept:
  assumes "sinv s" "wf_store ops s" "calm ops sinv gap" "status existing \<noteq> Pending"
    and "p = new_proposal now aid key d"
  shows "kept ops sinv s (snd (reopen ops gap i s existing p auth))"
proof -
  let ?e = "Some \<lparr>ev_kind = Reopened, ev_at = created_at p, ev_actor = created_by p,
      ev_reason = Some (''Re-raised after it was '' @ status_text (status existing) @ ''.''),
      ev_actor_auth_provider = auth\<rparr>"
  let ?s2 = "snd (st_update ops (gap i s) p (status existing) ?e)"
  have s1: "kept ops sinv s (gap i s)"
    using assms by (simp add: calmD)
  have "kept ops sinv (gap i s) ?s2"
    using keptD [OF s1] assms(4,5) by (intro update_kept) (auto intro: well_formed_reopened)
  then have s2: "kept ops sinv s (gap (i + 1) ?s2)"
    using s1 assms(3) by (meson kept_calm kept_trans)
  then have "kept ops sinv s (gap (i + 2) (gap (i + 1) ?s2))"
    using assms(3) by (rule kept_calm)
  with s2 show ?thesis
    by (auto simp: reopen_def Let_def case_prod_beta split: sum.split)
qed

lemma insert_draft_kept:
  assumes "sinv s" "wf_store ops s" "calm ops sinv gap"
  shows "kept ops sinv s (snd (insert_draft ops gap i now now2 s aid d))"
proof -
  let ?p = "(new_proposal now aid (d_idempotency_key d) d)
      \<lparr>history := [drafted_event now (d_created_by d) (d_actor_auth_provider d)]\<rparr>"
  have s1: "kept ops sinv s (gap i s)"
    using assms by (simp add: calmD)
  then have s2: "kept ops sinv s (gap (i + 1) (gap i s))"
    using assms(3) by (rule kept_calm)
  show ?thesis
  proof (cases "st_insert ops (gap i s) ?p")
    case (Inr t)
    have "kept ops sinv (gap i s) t"
      by (rule insert_kept [OF keptD(1,2) [OF s1] Inr well_formed_drafted])
    then have "kept ops sinv s (gap (i + 1) t)"
      using s1 assms(3) by (meson kept_calm kept_trans)
    with Inr show ?thesis by (simp add: insert_draft_def Let_def)
  next
    case (Inl err)
    have "kept ops sinv s (snd (replay_idempotent ops gap (i + 2) now2 (gap (i + 1) (gap i s)) w d))"
      if "st_find ops (gap (i + 1) (gap i s)) k = Some w" for k w
    proof -
      have "well_formed w"
        using that keptD [OF s2] by (auto simp: find_get dest: wf_storeD)
      then show ?thesis
        using keptD [OF s2] assms(3) by (intro kept_trans [OF s2] replay_kept)
    qed
    with Inl s1 s2 show ?thesis
      by (auto simp: insert_draft_def Let_def split: option.splits)
  qed
qed

lemma register_new_kept:
  assumes "sinv s" "wf_store ops s" "calm ops sinv gap"
  shows "kept ops sinv s (snd (register_new ops gap i now now2 uid s d))"
proof -
  have s1: "kept ops sinv s (gap i s)"
    using assms by (simp add: calmD)
  note s1' = keptD [OF s1]
  show ?thesis
  proof (cases "st_get ops (gap i s) (resolved_action_id uid d)")
    case None
    then show ?thesis
      using kept_trans [OF s1 insert_draft_kept [OF s1'(1,2) assms(3)]]
      by (simp add: register_new_def Let_def)
  next
    case (Some p)
    then have "well_formed p"
      using s1' by (auto dest: wf_storeD)
    with Some s1 s1' assms(3) show ?thesis
      by (auto simp: register_new_def Let_def intro!: kept_trans [OF s1] refresh_kept reopen_kept)
  qed
qed

lemma register_kept:
  assumes "sinv s" "wf_store ops s" "calm ops sinv gap"
  shows "kept ops sinv s (snd (register ops gap now now2 uid s d))"
proof (cases "d_idempotency_key d")
  case None
  with assms show ?thesis by (simp add: register_def register_new_kept)
next
  case (Some k)
  have s0: "kept ops sinv s (gap 0 s)"
    using assms by (simp add: calmD)
  note s0' = keptD [OF s0]
  show ?thesis
  proof (cases "st_find ops (gap 0 s) k")
    case None
    with Some show ?thesis
      using kept_trans [OF s0 register_new_kept [OF s0'(1,2) assms(3)]]
      by (simp add: register_def Let_def)
  next
    case (Some w)
    then have "well_formed w"
      using s0' by (auto simp: find_get dest: wf_storeD)
    with Some \<open>d_idempotency_key d = _\<close> show ?thesis
      using kept_trans [OF s0 replay_kept [OF s0'(1,2) assms(3)]]
      by (simp add: register_def Let_def)
  qed
qed

end

end
