(* ===== verification/ProposalGuarantees.thy ===== *)
theory ProposalGuarantees
  imports ProposalLifecycle
begin

text \<open>
  What a caller of the registry can rely on, proved once for every store of the port: who wins a
  contested resolution, that the losers write nothing, that a decision survives re-drafting, that an
  idempotency key names one proposal, and that a failed release puts the decision back.
\<close>

definition stands :: "('s, 'v) store_ops \<Rightarrow> ('s \<Rightarrow> bool) \<Rightarrow> string \<Rightarrow> 'v proposal \<Rightarrow> 's \<Rightarrow> bool" where
  "stands ops sinv a p s \<longleftrightarrow> sinv s \<and> st_get ops s a = Some p \<and> status p \<noteq> Pending"

context proposal_store begin

text \<open>The commit of a resolution: what it read, and the state \<open>u\<close> its compare-and-set left.\<close>

lemma resolve_commit:
  assumes s: "sinv s" "wf_store ops s" "calm ops sinv gap" "kind \<noteq> Pending"
    and read: "require_pending ops (gap 0 s) aid = Inr p"
    and upd: "st_update ops (gap 1 (gap 0 s)) (resolved_copy now kind by r p) Pending
      (Some (resolution_event now kind by r auth)) = (ok, u)"
  shows "action_id (resolved_copy now kind by r p) = aid"
    and "sinv (gap 1 (gap 0 s))" and "kept ops sinv s u" and "evolves ops u (gap 2 u)"
proof -
  let ?p = "resolved_copy now kind by r p" and ?e = "resolution_event now kind by r auth"
  have s0: "kept ops sinv s (gap 0 s)" using s by (simp add: calmD)
  then have s1: "kept ops sinv s (gap 1 (gap 0 s))" using s(3) by (rule kept_calm)
  have p: "st_get ops (gap 0 s) aid = Some p" "status p = Pending"
    using read by (simp_all add: require_pending_Inr)
  have "kept ops sinv (gap 1 (gap 0 s)) (snd (st_update ops (gap 1 (gap 0 s)) ?p Pending (Some ?e)))"
    using wf_storeD [OF keptD(2) [OF s0] p(1)] p(2) s(4)
    by (intro update_kept [OF keptD(1,2) [OF s1]] well_formed_resolved)
  then show u: "kept ops sinv s u"
    using kept_trans [OF s1] upd by simp
  show "action_id ?p = aid"
    using get_id [OF keptD(1) [OF s0] p(1)] by (simp add: resolved_copy_def Let_def)
  show "sinv (gap 1 (gap 0 s))"
    by (rule keptD(1) [OF s1])
  show "evolves ops u (gap 2 u)"
    using keptD(3) [OF calmD [OF s(3) keptD(1,2) [OF u]]] .
qed

lemma resolve_won:
  assumes s: "sinv s" "wf_store ops s" "calm ops sinv gap" "kind \<noteq> Pending"
    and won: "resolve ops gap now s aid kind by reason auth = (Inr q, t)"
  obtains p r u where "st_get ops (gap 1 (gap 0 s)) aid = Some p" "status p = Pending"
    "st_get ops u aid = Some r" "status r = kind"
    "history r = history p @ [resolution_event now kind by (clean_reason reason) auth]"
    "t = gap 2 u" "st_get ops t aid = Some q" "prefix (history r) (history q)"
proof -
  from won obtain p0 where read: "require_pending ops (gap 0 s) aid = Inr p0"
    by (auto simp: resolve_def Let_def split: sum.splits)
  let ?s1 = "gap 1 (gap 0 s)" and ?p = "resolved_copy now kind by (clean_reason reason) p0"
  let ?e = "resolution_event now kind by (clean_reason reason) auth"
  obtain ok u where upd: "st_update ops ?s1 ?p Pending (Some ?e) = (ok, u)"
    by force
  have t: "t = gap 2 u" and ok: "ok" and q: "st_get ops t aid = Some q"
    using won read upd by (auto simp: resolve_def Let_def and_then_Inr_iff require_Inr split: if_splits)
  note commit = resolve_commit [OF s read upd]
  from commit(2) obtain r where r: "st_get ops ?s1 aid = Some r" "status r = Pending"
      "st_get ops u aid = Some (committed r ?p (Some ?e))"
    using upd ok by (cases rule: update_cases [of ?s1 ?p Pending "Some ?e"]) (auto simp: commit(1))
  from evolves_get [OF commit(4) r(3)] q
  have "prefix (history (committed r ?p (Some ?e))) (history q)"
    by (simp add: t)
  then show ?thesis
    by (intro that [OF r(1,2,3) _ _ t q]) (simp_all add: resolved_copy_def Let_def)
qed

lemma resolve_lost:
  assumes s: "sinv s" "wf_store ops s" "calm ops sinv gap" "kind \<noteq> Pending"
    and lost: "resolve ops gap now s aid kind by reason auth = (Inl err, t)"
  shows "t = gap 0 s \<or> t = gap 2 (gap 1 (gap 0 s))"
proof (cases "require_pending ops (gap 0 s) aid")
  case (Inl e)
  with lost show ?thesis by (simp add: resolve_def Let_def)
next
  case (Inr p)
  let ?s1 = "gap 1 (gap 0 s)" and ?p = "resolved_copy now kind by (clean_reason reason) p"
  let ?e = "resolution_event now kind by (clean_reason reason) auth"
  obtain ok u where upd: "st_update ops ?s1 ?p Pending (Some ?e) = (ok, u)"
    by force
  have t: "t = gap 2 u" and q: "ok \<Longrightarrow> st_get ops t aid = None"
    using lost Inr upd
    by (auto simp: resolve_def Let_def and_then_Inl_iff require_def split: if_splits option.splits)
  note commit = resolve_commit [OF s Inr upd]
  show ?thesis
    using commit(2)
  proof (cases rule: update_cases [of ?s1 ?p Pending "Some ?e"])
    case miss
    with upd t show ?thesis by simp
  next
    case (hit r u')
    with upd have "ok" and "st_get ops u aid = Some (committed r ?p (Some ?e))"
      by (auto simp: commit(1))
    with evolves_get [OF commit(4)] q show ?thesis by (force simp: t)
  qed
qed

lemma resolve_settled:
  assumes "st_get ops s aid = Some p" and "status p \<noteq> Pending"
  shows "resolve ops no_gap now s aid kind by reason auth =
    (Inl (ProposalTransitionError aid (status p)), s)"
  using assms by (simp add: resolve_def require_pending_def require_def no_gap_def)

lemma replay_same_drafter:
  assumes "sinv s" "st_find ops s k = Some p" "d_idempotency_key d = Some k"
    and "created_by p = d_created_by d" "status p \<noteq> Pending"
  shows "register ops no_gap now now2 uid s d = (Inr p, s)"
  using assms by (simp add: register_def replay_idempotent_def no_gap_def Let_def)

lemma replay_other_drafter:
  assumes "st_find ops s k = Some p" "d_idempotency_key d = Some k"
    and "created_by p \<noteq> d_created_by d"
  shows "\<exists>m. register ops no_gap now now2 uid s d = (Inl (Conflict m), s)"
  using assms by (simp add: register_def replay_idempotent_def no_gap_def Let_def)

text \<open>The undisturbed compare-and-set on a proposal that was just read.\<close>

lemma update_own:
  assumes "sinv s" "st_get ops s (action_id p) = Some q" "status q = x"
  obtains u where "st_update ops s p x e = (True, u)" "sinv u"
    "st_get ops u = (st_get ops s)(action_id p \<mapsto> committed q p e)"
  using update_hit [OF assms] by blast

lemma resolve_fresh:
  assumes "sinv s" "st_get ops s aid = Some p" "status p = Pending"
  obtains q t where "resolve ops no_gap now s aid kind by reason auth = (Inr q, t)" "sinv t"
    "q = committed p (resolved_copy now kind by (clean_reason reason) p)
       (Some (resolution_event now kind by (clean_reason reason) auth))"
    "st_get ops t = (st_get ops s)(aid \<mapsto> q)"
proof -
  let ?p = "resolved_copy now kind by (clean_reason reason) p"
  let ?e = "Some (resolution_event now kind by (clean_reason reason) auth)"
  have pid: "action_id ?p = aid"
    using get_id assms(1,2) by (simp add: resolved_copy_def Let_def)
  obtain u where u: "st_update ops s ?p Pending ?e = (True, u)" "sinv u"
      "st_get ops u = (st_get ops s)(aid \<mapsto> committed p ?p ?e)"
    using update_own [of s ?p p Pending ?e] assms by (auto simp: pid)
  show ?thesis
    using assms u by (intro that [OF _ u(2) refl u(3)])
      (simp add: resolve_def require_pending_def require_def no_gap_def Let_def)
qed

lemma revert_fresh:
  assumes "sinv s" "st_get ops s aid = Some p" "status p = x"
  obtains q t where "revert_failed_release ops no_gap now s aid x reason = (Inr q, t)" "sinv t"
    "status q = Pending" "map ev_kind (history q) = map ev_kind (history p) @ [Release_failed]"
    "st_get ops t = (st_get ops s)(aid \<mapsto> q)"
proof -
  let ?p = "reverted_copy p"
  let ?e = "Some \<lparr>ev_kind = Release_failed, ev_at = now, ev_actor = None,
      ev_reason = clean_reason (Some reason), ev_actor_auth_provider = None\<rparr>"
  have pid: "action_id ?p = aid"
    using get_id assms(1,2) by (simp add: reverted_copy_def)
  obtain u where u: "st_update ops s ?p x ?e = (True, u)" "sinv u"
      "st_get ops u = (st_get ops s)(aid \<mapsto> committed p ?p ?e)"
    using update_own [of s ?p p x ?e] assms by (auto simp: pid)
  show ?thesis
    using assms u by (intro that [OF _ u(2) _ _ u(3)])
      (simp_all add: revert_failed_release_def require_def no_gap_def reverted_copy_def)
qed

subsection \<open>Drafting never flips a decision\<close>

lemma stands_update: "stands ops sinv a p s \<Longrightarrow> stands ops sinv a p (snd (st_update ops s r Pending e))"
  by (rule update_cases [of s r Pending e]) (auto simp: stands_def)

lemma stands_insert: "stands ops sinv a p s \<Longrightarrow> st_insert ops s r = Inr t \<Longrightarrow> stands ops sinv a p t"
  using insert_taken [of s r t] by (auto simp: stands_def insert_get insert_inv)

lemma stands_refresh:
  assumes gap: "\<And>i s. stands ops sinv a p s \<Longrightarrow> stands ops sinv a p (gap i s)" and "stands ops sinv a p s"
  shows "stands ops sinv a p (snd (refresh ops gap i now s existing vd val md actor auth))"
  using assms by (simp add: refresh_def Let_def case_prod_beta stands_update)

lemma stands_replay:
  assumes gap: "\<And>i s. stands ops sinv a p s \<Longrightarrow> stands ops sinv a p (gap i s)" and "stands ops sinv a p s"
  shows "stands ops sinv a p (snd (replay_idempotent ops gap i now s existing d))"
  using assms by (simp add: replay_idempotent_def stands_refresh)

lemma stands_insert_draft:
  assumes gap: "\<And>i s. stands ops sinv a p s \<Longrightarrow> stands ops sinv a p (gap i s)" and "stands ops sinv a p s"
  shows "stands ops sinv a p (snd (insert_draft ops gap i now now2 s aid d))"
  using assms by (auto simp: insert_draft_def Let_def stands_replay
      intro!: gap intro: stands_insert split: sum.splits option.splits)

lemma stands_register_new:
  assumes gap: "\<And>i s. stands ops sinv a p s \<Longrightarrow> stands ops sinv a p (gap i s)" and "stands ops sinv a p s"
    and "\<not> d_reopen_resolved d"
  shows "stands ops sinv a p (snd (register_new ops gap i now now2 uid s d))"
  using assms by (auto simp: register_new_def Let_def stands_insert_draft stands_refresh
      split: option.splits)

lemma stands_register:
  assumes gap: "\<And>i s. stands ops sinv a p s \<Longrightarrow> stands ops sinv a p (gap i s)" and "stands ops sinv a p s"
    and "\<not> d_reopen_resolved d"
  shows "stands ops sinv a p (snd (register ops gap now now2 uid s d))"
  using assms by (auto simp: register_def Let_def stands_register_new stands_replay
      split: option.splits)

subsection \<open>One key, one proposal\<close>

lemma refresh_fresh:
  assumes "sinv s" "st_get ops s (action_id w) = Some w" "status w = Pending"
  obtains q t where "refresh ops no_gap i now s w vd val md actor auth = (Inr q, t)" "sinv t"
    "st_get ops t = (st_get ops s)(action_id w \<mapsto> q)" "action_id q = action_id w"
    "idempotency_key q = idempotency_key w" "created_by q = created_by w" "status q = Pending"
    "verdict q = vd" "prop_value q = val"
    "verdict w = vd \<and> prop_value w = val \<longrightarrow> history q = history w"
proof -
  let ?p = "w\<lparr>verdict := vd, prop_value := val,
      prop_metadata := (case md of None \<Rightarrow> Map.empty | Some m \<Rightarrow> m)\<rparr>"
  let ?e = "if verdict w \<noteq> vd \<or> prop_value w \<noteq> val then Some \<lparr>ev_kind = Refreshed,
      ev_at = now, ev_actor = actor, ev_reason = None, ev_actor_auth_provider = auth\<rparr> else None"
  obtain u where u: "st_update ops s ?p Pending ?e = (True, u)" "sinv u"
      "st_get ops u = (st_get ops s)(action_id w \<mapsto> committed w ?p ?e)"
    using update_own [of s ?p w Pending ?e] assms by auto
  show ?thesis
    using u by (intro that [OF _ u(2) u(3)])
      (simp_all add: refresh_def no_gap_def Let_def require_def committed_def assms(3))
qed

lemma insert_fresh:
  assumes "sinv s" "st_get ops s aid = None"
    and "\<And>k. d_idempotency_key d = Some k \<Longrightarrow> st_find ops s k = None"
    and p: "p = (new_proposal now aid (d_idempotency_key d) d)
      \<lparr>history := [drafted_event now (d_created_by d) (d_actor_auth_provider d)]\<rparr>"
  obtains t where "insert_draft ops no_gap i now now2 s aid d = (Inr p, t)" "sinv t"
    "st_get ops t = (st_get ops s)(aid \<mapsto> p)"
proof -
  have pid: "action_id p = aid" and key: "idempotency_key p = d_idempotency_key d"
    by (simp_all add: p new_proposal_def)
  obtain t where t: "st_insert ops s p = Inr t"
    using insert_free [of s p, unfolded pid key, OF assms(1,2,3)] by blast
  note get = insert_get [OF assms(1) t]
  show ?thesis
    using t by (intro that [OF _ insert_inv [OF assms(1) t] get [unfolded pid]])
      (simp add: insert_draft_def no_gap_def Let_def require_def get pid flip: p)
qed

lemma register_keyed:
  assumes s: "sinv s" and k: "d_idempotency_key d = Some k"
    and reg: "register ops no_gap now now2 uid s d = (Inr p, t)"
  shows "sinv t \<and> st_get ops t (action_id p) = Some p \<and> idempotency_key p = Some k \<and>
    created_by p = d_created_by d \<and>
    (status p = Pending \<longrightarrow> verdict p = d_verdict d \<and> prop_value p = d_value d)"
proof (cases "st_find ops s k")
  case (Some w)
  then have w: "st_get ops s (action_id w) = Some w" "idempotency_key w = Some k"
    using find_get [OF s] by auto
  have replay: "replay_idempotent ops no_gap 1 now s w d = (Inr p, t)"
    using reg k Some by (simp add: register_def no_gap_def Let_def)
  then have author: "created_by w = d_created_by d"
    by (auto simp: replay_idempotent_def split: if_splits)
  show ?thesis
  proof (cases "status w = Pending")
    case True
    obtain q u where "refresh ops no_gap 1 now s w (d_verdict d) (d_value d) (d_metadata d)
        (d_created_by d) (d_actor_auth_provider d) = (Inr q, u)" "sinv u"
      "st_get ops u = (st_get ops s)(action_id w \<mapsto> q)" "action_id q = action_id w"
      "idempotency_key q = idempotency_key w" "created_by q = created_by w"
      "verdict q = d_verdict d" "prop_value q = d_value d"
      by (rule refresh_fresh [OF s w(1) True]) blast
    with replay True author w show ?thesis by (simp add: replay_idempotent_def)
  next
    case False
    with replay author w s show ?thesis by (auto simp: replay_idempotent_def)
  qed
next
  case None
  let ?aid = "resolved_action_id uid d"
  have new: "register_new ops no_gap 1 now now2 uid s d = (Inr p, t)"
    using reg k None by (simp add: register_def no_gap_def Let_def)
  have free: "st_get ops s ?aid = None"
  proof (rule ccontr)
    assume "st_get ops s ?aid \<noteq> None"
    then obtain w where w: "st_get ops s ?aid = Some w" by blast
    then have "idempotency_key w \<noteq> Some k"
      using None find_None [OF s] by blast
    with new w k show False by (simp add: register_new_def no_gap_def Let_def)
  qed
  then have ins: "insert_draft ops no_gap 2 now now2 s ?aid d = (Inr p, t)"
    using new by (simp add: register_new_def no_gap_def Let_def numeral_2_eq_2)
  let ?p = "(new_proposal now ?aid (d_idempotency_key d) d)
      \<lparr>history := [drafted_event now (d_created_by d) (d_actor_auth_provider d)]\<rparr>"
  obtain u where u: "insert_draft ops no_gap 2 now now2 s ?aid d = (Inr ?p, u)" "sinv u"
      "st_get ops u = (st_get ops s)(?aid \<mapsto> ?p)"
    by (rule insert_fresh [where d = d and now = now and i = 2 and ?now2.0 = now2,
          OF s free _ refl]) (use k None in auto)
  with ins have "p = ?p" and "t = u" by auto
  with u k show ?thesis by (simp add: new_proposal_def)
qed

lemma register_twice:
  assumes s: "sinv s" and k: "d_idempotency_key d = Some k"
    and reg: "register ops no_gap now now2 uid s d = (Inr p, t)"
  obtains q u where "register ops no_gap now' now2' uid' t d = (Inr q, u)" "sinv u"
    "action_id q = action_id p" "history q = history p" "status q = status p"
    "dom (st_get ops u) = dom (st_get ops t)"
proof -
  note p = register_keyed [OF assms]
  then have found: "st_find ops t k = Some p"
    using find_get by blast
  show ?thesis
  proof (cases "status p = Pending")
    case True
    have stored: "sinv t" "st_get ops t (action_id p) = Some p" using p by auto
    obtain q u where q: "refresh ops no_gap 1 now' t p (d_verdict d) (d_value d) (d_metadata d)
        (d_created_by d) (d_actor_auth_provider d) = (Inr q, u)" "sinv u"
      "st_get ops u = (st_get ops t)(action_id p \<mapsto> q)" "action_id q = action_id p"
      "status q = Pending" "history q = history p"
      by (rule refresh_fresh [OF stored True]) (use p True in auto)
    have "register ops no_gap now' now2' uid' t d = (Inr q, u)"
      using p q(1) True found k
      by (simp add: register_def replay_idempotent_def no_gap_def Let_def)
    with q p True show ?thesis
      by (intro that [of q u]) auto
  next
    case False
    with p found k have "register ops no_gap now' now2' uid' t d = (Inr p, t)"
      by (intro replay_same_drafter) auto
    with p show ?thesis by (intro that [of p t]) auto
  qed
qed

end

end
