(* ===== verification/ProposalRace.thy ===== *)
theory ProposalRace
  imports ProposalGuarantees
begin

text \<open>
  Any number of resolvers (operators' tabs, API replicas) race to approve or dismiss one proposal.
  Each runs \<open>resolve\<close>, whose two atomic halves are the pending read and the compare-and-set; the
  halves of different resolvers interleave freely, and other writers may work on the store in
  between as long as they leave this proposal's status alone.  Exactly one resolver wins.
\<close>

section \<open>The two halves of resolve\<close>

definition resolve_read :: "('s, 'v) store_ops \<Rightarrow> 's \<Rightarrow> string \<Rightarrow> 'v proposal option" where
  "resolve_read ops s aid = (case require_pending ops s aid of Inl err \<Rightarrow> None | Inr p \<Rightarrow> Some p)"

record resolver =
  rv_now :: int
  rv_kind :: proposal_status
  rv_by :: "string option"
  rv_reason :: "string option"
  rv_auth :: "string option"

definition resolve_write :: "('s, 'v) store_ops \<Rightarrow> 's \<Rightarrow> resolver \<Rightarrow> 'v proposal \<Rightarrow> bool \<times> 's" where
  "resolve_write ops s v p =
     (let r = clean_reason (rv_reason v) in
      st_update ops s (resolved_copy (rv_now v) (rv_kind v) (rv_by v) r p) Pending
        (Some (resolution_event (rv_now v) (rv_kind v) (rv_by v) r (rv_auth v))))"

lemma resolve_halves:
  "resolve ops gap (rv_now v) s aid (rv_kind v) (rv_by v) (rv_reason v) (rv_auth v) =
     (case resolve_read ops (gap 0 s) aid of
        None \<Rightarrow> (Inl (projl (require_pending ops (gap 0 s) aid)), gap 0 s)
      | Some p \<Rightarrow>
          let (ok, u) = resolve_write ops (gap 1 (gap 0 s)) v p
          in (and_then (require ops (gap 2 u) aid)
                (\<lambda>q. if ok then Inr q else Inl (ProposalTransitionError aid (status q))), gap 2 u))"
  by (simp add: resolve_def resolve_read_def resolve_write_def Let_def split: sum.split)

section \<open>The interleaving\<close>

datatype 'v resolver_pc = Starting | Has_read "'v proposal" | Won | Lost

record ('s, 'v) race =
  rc_store :: 's
  rc_pcs :: "nat \<Rightarrow> 'v resolver_pc"

definition race_status :: "('s, 'v) store_ops \<Rightarrow> string \<Rightarrow> 's \<Rightarrow> proposal_status option" where
  "race_status ops aid s = map_option status (st_get ops s aid)"

inductive race_step :: "('s, 'v) store_ops \<Rightarrow> ('s \<Rightarrow> bool) \<Rightarrow> string \<Rightarrow> (nat \<Rightarrow> resolver) \<Rightarrow>
    ('s, 'v) race \<Rightarrow> ('s, 'v) race \<Rightarrow> bool"
  for ops sinv aid v where
  read: "rc_pcs c i = Starting \<Longrightarrow> resolve_read ops (rc_store c) aid = Some p \<Longrightarrow>
    race_step ops sinv aid v c (c\<lparr>rc_pcs := (rc_pcs c)(i := Has_read p)\<rparr>)"
| refused: "rc_pcs c i = Starting \<Longrightarrow> resolve_read ops (rc_store c) aid = None \<Longrightarrow>
    race_step ops sinv aid v c (c\<lparr>rc_pcs := (rc_pcs c)(i := Lost)\<rparr>)"
| attempt: "rc_pcs c i = Has_read p \<Longrightarrow> resolve_write ops (rc_store c) (v i) p = (ok, t) \<Longrightarrow>
    race_step ops sinv aid v c
      (c\<lparr>rc_store := t, rc_pcs := (rc_pcs c)(i := (if ok then Won else Lost))\<rparr>)"
| other: "sinv t \<Longrightarrow> race_status ops aid t = race_status ops aid (rc_store c) \<Longrightarrow>
    race_step ops sinv aid v c (c\<lparr>rc_store := t\<rparr>)"

inductive race_reach :: "('s, 'v) store_ops \<Rightarrow> ('s \<Rightarrow> bool) \<Rightarrow> string \<Rightarrow> (nat \<Rightarrow> resolver) \<Rightarrow> 's \<Rightarrow>
    ('s, 'v) race \<Rightarrow> bool"
  for ops sinv aid v s where
  start: "race_reach ops sinv aid v s \<lparr>rc_store = s, rc_pcs = (\<lambda>_. Starting)\<rparr>"
| step: "race_reach ops sinv aid v s c \<Longrightarrow> race_step ops sinv aid v c d \<Longrightarrow>
    race_reach ops sinv aid v s d"

definition race_inv :: "('s, 'v) store_ops \<Rightarrow> ('s \<Rightarrow> bool) \<Rightarrow> string \<Rightarrow> ('s, 'v) race \<Rightarrow> bool" where
  "race_inv ops sinv aid c \<longleftrightarrow> sinv (rc_store c) \<and>
     (\<forall>i p. rc_pcs c i = Has_read p \<longrightarrow> action_id p = aid) \<and>
     (if race_status ops aid (rc_store c) = Some Pending
      then \<forall>i. rc_pcs c i \<noteq> Won \<and> rc_pcs c i \<noteq> Lost
      else \<exists>w. \<forall>i. rc_pcs c i = Won \<longleftrightarrow> i = w)"

context proposal_store begin

lemma race_write:
  assumes s: "sinv s" and aid: "action_id p = aid" and "rv_kind r \<noteq> Pending"
    and w: "resolve_write ops s r p = (ok, t)"
  shows "sinv t \<and> ok = (race_status ops aid s = Some Pending) \<and>
    (ok \<longrightarrow> race_status ops aid t \<noteq> Some Pending) \<and> (\<not> ok \<longrightarrow> t = s)"
proof -
  let ?p = "resolved_copy (rv_now r) (rv_kind r) (rv_by r) (clean_reason (rv_reason r)) p"
  let ?e = "Some (resolution_event (rv_now r) (rv_kind r) (rv_by r) (clean_reason (rv_reason r)) (rv_auth r))"
  have pid: "action_id ?p = aid" and kind: "status ?p = rv_kind r"
    using aid by (simp_all add: resolved_copy_def Let_def)
  show ?thesis
    using s
  proof (cases rule: update_cases [of s ?p Pending ?e])
    case miss
    with w s show ?thesis
      by (auto simp: resolve_write_def Let_def race_status_def pid)
  next
    case (hit q u)
    with w assms(3) show ?thesis
      by (auto simp: resolve_write_def Let_def race_status_def pid kind)
  qed
qed

lemma race_inv_step:
  assumes "race_step ops sinv aid v c d" and "race_inv ops sinv aid c" and kinds: "\<And>i. rv_kind (v i) \<noteq> Pending"
  shows "race_inv ops sinv aid d"
  using assms(1,2)
proof (induction rule: race_step.induct)
  case (read c i p)
  then have "action_id p = aid" and "race_status ops aid (rc_store c) = Some Pending"
    using get_id by (auto simp: resolve_read_def require_pending_Inr race_status_def race_inv_def
        split: sum.splits)
  with read.prems show ?case by (auto simp: race_inv_def)
next
  case (refused c i)
  then have "race_status ops aid (rc_store c) \<noteq> Some Pending"
    by (auto simp: resolve_read_def race_status_def require_pending_def require_def
        split: sum.splits option.splits)
  moreover from this obtain w where w: "\<forall>j. rc_pcs c j = Won \<longleftrightarrow> j = w"
    using refused.prems by (auto simp: race_inv_def)
  moreover have "w \<noteq> i"
    using w refused.hyps(1) by force
  ultimately show ?case
    using refused by (auto simp: race_inv_def intro!: exI [of _ w])
next
  case (attempt c i p ok t)
  have inv: "sinv (rc_store c)" and aid: "action_id p = aid"
    using attempt by (auto simp: race_inv_def)
  note w = race_write [OF inv aid kinds attempt.hyps(2)]
  show ?case
  proof (cases ok)
    case True
    with w attempt.prems show ?thesis
      by (auto simp: race_inv_def)
  next
    case False
    with w have lost: "race_status ops aid (rc_store c) \<noteq> Some Pending" "t = rc_store c"
      by auto
    then obtain n where n: "\<forall>j. rc_pcs c j = Won \<longleftrightarrow> j = n"
      using attempt.prems by (auto simp: race_inv_def)
    moreover have "n \<noteq> i"
      using n attempt.hyps(1) by force
    ultimately show ?thesis
      using False lost attempt.prems by (auto simp: race_inv_def intro!: exI [of _ n])
  qed
next
  case (other t c)
  then show ?case by (auto simp: race_inv_def)
qed

lemma race_reach_inv:
  assumes "race_reach ops sinv aid v s c" and "sinv s" and "race_status ops aid s = Some Pending"
    and "\<And>i. rv_kind (v i) \<noteq> Pending"
  shows "race_inv ops sinv aid c"
  using assms(1)
proof induction
  case start
  then show ?case using assms(2,3) by (simp add: race_inv_def)
next
  case (step c d)
  then show ?case using race_inv_step assms(4) by blast
qed

lemma race_one_winner:
  assumes "race_reach ops sinv aid v s c" and "sinv s" and "race_status ops aid s = Some Pending"
    and "\<And>i. rv_kind (v i) \<noteq> Pending" and "rc_pcs c i \<in> {Won, Lost}"
  shows "\<exists>!j. rc_pcs c j = Won"
proof -
  have "race_inv ops sinv aid c"
    using race_reach_inv [OF assms(1-4)] .
  with assms(5) obtain w where "\<forall>j. rc_pcs c j = Won \<longleftrightarrow> j = w"
    by (auto simp: race_inv_def split: if_splits)
  then have "rc_pcs c w = Won" and "\<And>j. rc_pcs c j = Won \<Longrightarrow> j = w" by simp_all
  then show ?thesis by (rule ex1I)
qed

end

end
