(* ===== verification/ProposalSqlStore.thy ===== *)
theory ProposalSqlStore
  imports ProposalRace
begin

text \<open>
  The durable store of \<open>packages/storage/action_proposal_store.py\<close>: two tables and a counter row,
  the mapping of a proposal onto columns and back, and the SQL statements as list operations.  A
  JSON text column is modelled by the document it holds and a timestamp column by its instant; a
  \<open>uuid4\<close> is a number not drawn before.  \<open>updated_at\<close>, which nothing reads, is left out.  Every
  method runs in one write-locked transaction, so it is one step on the database.
\<close>

section \<open>Rows\<close>

record 'v proposal_columns =
  pr_action_id :: string
  pr_policy_id :: string
  pr_policy_name :: string
  pr_verdict :: string
  pr_value :: "string option"
  pr_notification_id :: string
  pr_adapter :: string
  pr_source_kind :: source_kind
  pr_source_key :: "string option"
  pr_source_summary :: "string option"
  pr_created_by :: "string option"
  pr_status :: proposal_status
  pr_created_at :: int
  pr_approved_at :: "int option"
  pr_dismissed_at :: "int option"
  pr_metadata :: "string \<rightharpoonup> 'v"
  pr_prov_keys :: "string list option"
  pr_prov_verdict :: "string option"
  pr_prov_freshness :: "string option"
  pr_prov_assessed_at :: "string option"
  pr_prov_trust_source :: "trust_source option"
  pr_resolved_by :: "string option"
  pr_resolution_reason :: "string option"
  pr_idempotency_key :: "string option"

record event_columns =
  er_event_id :: string
  er_action_id :: string
  er_sequence :: int
  er_kind :: event_kind
  er_occurred_at :: int
  er_actor :: "string option"
  er_actor_auth_provider :: "string option"
  er_reason :: "string option"
  er_feed_position :: int

record 'v sql_db =
  db_proposals :: "'v proposal_columns list"
  db_events :: "event_columns list"
  db_counter :: "int option"
  db_uuids :: nat

definition proposal_row :: "'v proposal \<Rightarrow> 'v proposal_columns" where
  "proposal_row p =
     (let pv = prop_provenance p in
      \<lparr>pr_action_id = action_id p, pr_policy_id = policy_id p, pr_policy_name = policy_name p,
       pr_verdict = verdict p, pr_value = prop_value p, pr_notification_id = notification_id p,
       pr_adapter = adapter p, pr_source_kind = prop_source_kind p, pr_source_key = source_key p,
       pr_source_summary = source_summary p, pr_created_by = created_by p, pr_status = status p,
       pr_created_at = created_at p, pr_approved_at = approved_at p,
       pr_dismissed_at = dismissed_at p, pr_metadata = prop_metadata p,
       pr_prov_keys = map_option publication_keys pv,
       pr_prov_verdict = Option.bind pv confidence_verdict_at_draft,
       pr_prov_freshness = Option.bind pv freshness_state_at_draft,
       pr_prov_assessed_at = Option.bind pv assessed_at,
       pr_prov_trust_source = Option.bind pv prov_trust_source,
       pr_resolved_by = resolved_by p, pr_resolution_reason = resolution_reason p,
       pr_idempotency_key = idempotency_key p\<rparr>)"

definition event_row :: "nat \<Rightarrow> string \<Rightarrow> int \<Rightarrow> history_event \<Rightarrow> int \<Rightarrow> event_columns" where
  "event_row uid aid sq e pos =
     \<lparr>er_event_id = ''ape_'' @ nat_text uid, er_action_id = aid, er_sequence = sq,
      er_kind = ev_kind e, er_occurred_at = ev_at e, er_actor = ev_actor e,
      er_actor_auth_provider = ev_actor_auth_provider e, er_reason = ev_reason e,
      er_feed_position = pos\<rparr>"

definition deserialize_event :: "event_columns \<Rightarrow> history_event" where
  "deserialize_event r = \<lparr>ev_kind = er_kind r, ev_at = er_occurred_at r, ev_actor = er_actor r,
     ev_reason = er_reason r, ev_actor_auth_provider = er_actor_auth_provider r\<rparr>"

definition deserialize_proposal :: "'v proposal_columns \<Rightarrow> event_columns list \<Rightarrow> 'v proposal" where
  "deserialize_proposal r events =
     \<lparr>action_id = pr_action_id r, policy_id = pr_policy_id r, policy_name = pr_policy_name r,
      verdict = pr_verdict r, prop_value = pr_value r, notification_id = pr_notification_id r,
      adapter = pr_adapter r, prop_source_kind = pr_source_kind r, source_key = pr_source_key r,
      source_summary = pr_source_summary r, created_by = pr_created_by r, status = pr_status r,
      created_at = pr_created_at r, approved_at = pr_approved_at r,
      dismissed_at = pr_dismissed_at r, prop_metadata = pr_metadata r,
      prop_provenance = (case pr_prov_keys r of None \<Rightarrow> None
        | Some keys \<Rightarrow> Some \<lparr>publication_keys = keys, confidence_verdict_at_draft = pr_prov_verdict r,
            freshness_state_at_draft = pr_prov_freshness r, assessed_at = pr_prov_assessed_at r,
            prov_trust_source = pr_prov_trust_source r\<rparr>),
      resolved_by = pr_resolved_by r, resolution_reason = pr_resolution_reason r,
      idempotency_key = pr_idempotency_key r, history = map deserialize_event events\<rparr>"

lemma deserialize_event_row [simp]: "deserialize_event (event_row uid aid sq e pos) = e"
  by (simp add: deserialize_event_def event_row_def)

lemma deserialize_proposal_row:
  "deserialize_proposal (proposal_row p) events = p\<lparr>history := map deserialize_event events\<rparr>"
  by (cases "prop_provenance p") (simp_all add: deserialize_proposal_def proposal_row_def Let_def)

section \<open>Statements\<close>

definition events_of :: "'v sql_db \<Rightarrow> string \<Rightarrow> event_columns list" where
  \<comment> \<open>\<open>WHERE action_id IN (..) ORDER BY action_id, sequence\<close>, grouped\<close>
  "events_of db aid = sort_key er_sequence (filter (\<lambda>r. er_action_id r = aid) (db_events db))"

definition load_action_proposals :: "'v sql_db \<Rightarrow> ('v proposal_columns \<Rightarrow> bool) \<Rightarrow> 'v proposal list" where
  "load_action_proposals db cond =
     map (\<lambda>r. deserialize_proposal r (events_of db (pr_action_id r))) (filter cond (db_proposals db))"

definition first_of :: "'a list \<Rightarrow> 'a option" where
  "first_of xs = (case xs of [] \<Rightarrow> None | x # _ \<Rightarrow> Some x)"

definition sql_get :: "'v sql_db \<Rightarrow> string \<Rightarrow> 'v proposal option" where
  "sql_get db aid = first_of (load_action_proposals db (\<lambda>r. pr_action_id r = aid))"

definition sql_find :: "'v sql_db \<Rightarrow> string \<Rightarrow> 'v proposal option" where
  "sql_find db k = first_of (load_action_proposals db (\<lambda>r. pr_idempotency_key r = Some k))"

definition sql_list :: "'v sql_db \<Rightarrow> 'v proposal list" where
  "sql_list db = sort_proposals (load_action_proposals db (\<lambda>_. True))"

definition max_or_zero :: "int list \<Rightarrow> int" where
  \<comment> \<open>\<open>COALESCE(MAX(..), 0)\<close>\<close>
  "max_or_zero xs = (case xs of [] \<Rightarrow> 0 | y # ys \<Rightarrow> fold max ys y)"

definition reserve_feed_positions :: "'v sql_db \<Rightarrow> int \<Rightarrow> int \<times> 'v sql_db" where
  "reserve_feed_positions db count =
     (let last = (case db_counter db of
            Some c \<Rightarrow> c + count
          | None \<Rightarrow> max_or_zero (map er_feed_position (db_events db)) + count)
      in (last - count + 1, db\<lparr>db_counter := Some last\<rparr>))"

definition insert_event :: "'v sql_db \<Rightarrow> string \<Rightarrow> int \<Rightarrow> history_event \<Rightarrow> int \<Rightarrow> 'v sql_db" where
  "insert_event db aid sq e pos =
     db\<lparr>db_events := db_events db @ [event_row (db_uuids db) aid sq e pos],
        db_uuids := Suc (db_uuids db)\<rparr>"

fun insert_events :: "'v sql_db \<Rightarrow> string \<Rightarrow> int \<Rightarrow> history_event list \<Rightarrow> int \<Rightarrow> 'v sql_db" where
  "insert_events db aid offset [] first = db"
| "insert_events db aid offset (e # es) first =
     insert_events (insert_event db aid (offset + 1) e (first + offset)) aid (offset + 1) es first"

definition sql_insert :: "'v sql_db \<Rightarrow> 'v proposal \<Rightarrow> registry_error + 'v sql_db" where
  "sql_insert db p =
     (let row = proposal_row p in
      if list_ex (\<lambda>r. pr_action_id r = pr_action_id row) (db_proposals db) \<or>
         pr_idempotency_key row \<noteq> None \<and>
           list_ex (\<lambda>r. pr_idempotency_key r = pr_idempotency_key row) (db_proposals db)
      then Inl (Conflict (''Proposal '' @ action_id p @ '' or its idempotency key already exists.''))
      else
        let db1 = db\<lparr>db_proposals := db_proposals db @ [row]\<rparr>;
            (first, db2) = (if history p \<noteq> [] then reserve_feed_positions db1 (int (length (history p)))
                            else (0, db1))
        in Inr (insert_events db2 (action_id p) 0 (history p) first))"

definition rewrite_row :: "'v proposal_columns \<Rightarrow> 'v proposal_columns \<Rightarrow> 'v proposal_columns" where
  \<comment> \<open>the \<open>SET\<close> list of \<open>MUTABLE_PROPOSAL_COLUMNS\<close>: all but \<open>action_id\<close> and \<open>idempotency_key\<close>\<close>
  "rewrite_row row stored =
     row\<lparr>pr_action_id := pr_action_id stored, pr_idempotency_key := pr_idempotency_key stored\<rparr>"

definition next_sequence :: "'v sql_db \<Rightarrow> string \<Rightarrow> int" where
  "next_sequence db aid =
     max_or_zero (map er_sequence (filter (\<lambda>r. er_action_id r = aid) (db_events db))) + 1"

definition sql_update ::
    "'v sql_db \<Rightarrow> 'v proposal \<Rightarrow> proposal_status \<Rightarrow> history_event option \<Rightarrow> bool \<times> 'v sql_db" where
  "sql_update db p expected e =
     (let row = proposal_row p;
          hit = (\<lambda>r. pr_action_id r = action_id p \<and> pr_status r = expected);
          updated = length (filter hit (db_proposals db));
          db1 = db\<lparr>db_proposals := map (\<lambda>r. if hit r then rewrite_row row r else r) (db_proposals db)\<rparr>
      in if updated \<noteq> 1 then (False, db1)
         else case e of
           None \<Rightarrow> (True, db1)
         | Some ev \<Rightarrow>
             let sq = next_sequence db1 (action_id p); (pos, db2) = reserve_feed_positions db1 1
             in (True, insert_event db2 (action_id p) sq ev pos))"

definition feed_row :: "'v sql_db \<Rightarrow> event_columns \<Rightarrow> feed_event list" where
  \<comment> \<open>the join with the event's proposal, as it is now\<close>
  "feed_row db r = map (\<lambda>p. \<lparr>position = er_feed_position r, event_id = er_event_id r,
       fe_action_id = er_action_id r, sequence = er_sequence r, fe_event = deserialize_event r,
       fe_adapter = pr_adapter p, fe_source_kind = pr_source_kind p,
       fe_policy_id = pr_policy_id p, fe_policy_name = pr_policy_name p\<rparr>)
     (filter (\<lambda>p. pr_action_id p = er_action_id r) (db_proposals db))"

definition sql_changes :: "'v sql_db \<Rightarrow> int \<Rightarrow> int \<Rightarrow> string option \<Rightarrow> feed_event list" where
  "sql_changes db after limit aid =
     take (nat (max limit 0)) (sort_key position
       (concat (map (feed_row db) (filter (\<lambda>r. er_feed_position r > after \<and>
          (aid = None \<or> aid = Some (er_action_id r))) (db_events db)))))"

definition sql_ops :: "('v sql_db, 'v) store_ops" where
  "sql_ops = \<lparr>st_get = sql_get, st_find = sql_find, st_list = sql_list, st_insert = sql_insert,
     st_update = sql_update, st_changes = sql_changes\<rparr>"

definition empty_db :: "'v sql_db" where
  "empty_db = \<lparr>db_proposals = [], db_events = [], db_counter = None, db_uuids = 0\<rparr>"

lemma sql_ops_simps [simp]:
  "st_get sql_ops = sql_get" "st_find sql_ops = sql_find" "st_list sql_ops = sql_list"
  "st_insert sql_ops = sql_insert" "st_update sql_ops = sql_update"
  "st_changes sql_ops = sql_changes"
  by (simp_all add: sql_ops_def)


section \<open>Reading\<close>

definition own_events :: "'v sql_db \<Rightarrow> string \<Rightarrow> event_columns list" where
  "own_events db a = filter (\<lambda>r. er_action_id r = a) (db_events db)"

definition row_of :: "'v sql_db \<Rightarrow> string \<Rightarrow> 'v proposal_columns option" where
  "row_of db a = List.find (\<lambda>r. pr_action_id r = a) (db_proposals db)"

definition counted :: "int list \<Rightarrow> bool" where
  "counted ns \<longleftrightarrow> ns = map int [1..<Suc (length ns)]"

text \<open>
  The invariant: primary and unique keys hold, the events of a proposal are numbered from one in
  table order, every event has its proposal, feed positions are positive, grow in table order and
  stay at or below the counter.
\<close>

definition feed_line :: "int option \<Rightarrow> int list \<Rightarrow> bool" where
  "feed_line counter ps \<longleftrightarrow> sorted_wrt (<) (0 # ps) \<and>
     (\<forall>c. counter = Some c \<longrightarrow> 0 \<le> c \<and> (\<forall>p\<in>set ps. p \<le> c))"

definition sql_inv :: "'v sql_db \<Rightarrow> bool" where
  "sql_inv db \<longleftrightarrow>
     distinct (map pr_action_id (db_proposals db)) \<and>
     distinct (List.map_filter pr_idempotency_key (db_proposals db)) \<and>
     (\<forall>a. counted (map er_sequence (own_events db a))) \<and>
     (\<forall>r\<in>set (db_events db). er_action_id r \<in> pr_action_id ` set (db_proposals db)) \<and>
     feed_line (db_counter db) (map er_feed_position (db_events db)) \<and>
     (\<forall>r\<in>set (db_events db). \<exists>n<db_uuids db. er_event_id r = ''ape_'' @ nat_text n) \<and>
     distinct (map er_event_id (db_events db))"

lemma sql_inv_empty: "sql_inv empty_db"
  by (simp add: sql_inv_def empty_db_def own_events_def counted_def feed_line_def map_filter_simps)

lemma first_of_filter: "first_of (map f (filter P xs)) = map_option f (List.find P xs)"
  by (induction xs) (simp_all add: first_of_def)

lemma sorted_counted: "counted ns \<Longrightarrow> sorted ns"
  by (metis counted_def sorted_map_mono sorted_wrt_upt strict_sorted_imp_sorted mono_onI of_nat_mono)

lemma events_of_own:
  assumes "sql_inv db"
  shows "events_of db a = own_events db a"
proof -
  have "sort_key er_sequence (own_events db a) = own_events db a"
    using assms by (intro sort_key_id_if_sorted sorted_counted) (simp add: sql_inv_def)
  then show ?thesis
    by (simp add: events_of_def own_events_def)
qed

lemma sql_get_row:
  assumes "sql_inv db"
  shows "sql_get db a = map_option (\<lambda>r. deserialize_proposal r (own_events db a)) (row_of db a)"
  using assms by (auto simp: sql_get_def load_action_proposals_def first_of_filter row_of_def
      events_of_own intro!: option.map_cong dest: find_Some_member)

lemma row_of_Some: "row_of db a = Some r \<Longrightarrow> r \<in> set (db_proposals db) \<and> pr_action_id r = a"
  by (auto simp: row_of_def dest: find_Some_member)

lemma row_of_iff:
  assumes "distinct (map pr_action_id (db_proposals db))"
  shows "row_of db a = Some r \<longleftrightarrow> r \<in> set (db_proposals db) \<and> pr_action_id r = a"
proof
  assume r: "r \<in> set (db_proposals db) \<and> pr_action_id r = a"
  then obtain r' where r': "row_of db a = Some r'"
    by (cases "row_of db a") (auto simp: row_of_def find_None_iff)
  then have "r' = r"
    using r row_of_Some [OF r'] assms by (auto simp: distinct_map inj_on_def)
  with r' show "row_of db a = Some r" by simp
qed (rule row_of_Some)

lemma distinct_filtered_keys:
  assumes "distinct (List.map_filter key xs)" and "x \<in> set xs" and "y \<in> set xs"
    and "key x = Some k" and "key y = Some k"
  shows "x = y"
  using assms
proof (induction xs)
  case (Cons z zs)
  then show ?case
    by (auto simp: map_filter_simps map_filter_def image_iff split: option.splits if_splits)
qed simp

lemma distinct_filtered_iff:
  "List.map_filter key xs = map (the \<circ> key) (filter (\<lambda>x. key x \<noteq> None) xs)"
  by (simp add: map_filter_def)

lemma proposal_of_row [simp]:
  "action_id (deserialize_proposal r es) = pr_action_id r"
  "idempotency_key (deserialize_proposal r es) = pr_idempotency_key r"
  "status (deserialize_proposal r es) = pr_status r"
  "history (deserialize_proposal r es) = map deserialize_event es"
  by (simp_all add: deserialize_proposal_def)

lemma row_of_proposal [simp]:
  "pr_action_id (proposal_row p) = action_id p"
  "pr_idempotency_key (proposal_row p) = idempotency_key p"
  "pr_status (proposal_row p) = status p"
  by (simp_all add: proposal_row_def Let_def)

lemma sql_find_row:
  assumes "sql_inv db"
  shows "sql_find db k = map_option (\<lambda>r. deserialize_proposal r (own_events db (pr_action_id r)))
    (List.find (\<lambda>r. pr_idempotency_key r = Some k) (db_proposals db))"
  using assms by (simp add: sql_find_def load_action_proposals_def first_of_filter events_of_own)

lemma sql_get_iff:
  assumes "sql_inv db"
  shows "sql_get db a = Some p \<longleftrightarrow> (\<exists>r\<in>set (db_proposals db). pr_action_id r = a \<and>
    p = deserialize_proposal r (own_events db a))"
  using assms by (auto simp: sql_get_row row_of_iff sql_inv_def)

lemma sql_get_None:
  assumes "sql_inv db"
  shows "sql_get db a = None \<longleftrightarrow> a \<notin> pr_action_id ` set (db_proposals db)"
  using assms by (auto simp: sql_get_row row_of_def find_None_iff)

lemma sql_find_None:
  assumes "sql_inv db"
  shows "sql_find db k = None \<longleftrightarrow>
    \<not> list_ex (\<lambda>r. pr_idempotency_key r = Some k) (db_proposals db)"
  using assms by (auto simp: sql_find_row find_None_iff list_ex_iff)

lemma sql_find_iff:
  assumes "sql_inv db"
  shows "sql_find db k = Some p \<longleftrightarrow>
    sql_get db (action_id p) = Some p \<and> idempotency_key p = Some k"
proof
  assume "sql_find db k = Some p"
  then obtain r where "List.find (\<lambda>r. pr_idempotency_key r = Some k) (db_proposals db) = Some r"
    and "p = deserialize_proposal r (own_events db (pr_action_id r))"
    using assms by (auto simp: sql_find_row)
  then show "sql_get db (action_id p) = Some p \<and> idempotency_key p = Some k"
    using assms by (auto simp: sql_get_iff dest!: find_Some_member)
next
  assume got: "sql_get db (action_id p) = Some p \<and> idempotency_key p = Some k"
  then obtain r where r: "r \<in> set (db_proposals db)" "pr_action_id r = action_id p"
    "p = deserialize_proposal r (own_events db (action_id p))"
    using assms by (auto simp: sql_get_iff)
  then have "idempotency_key p = pr_idempotency_key r"
    by (metis proposal_of_row(2))
  with r got have r: "r \<in> set (db_proposals db)" "p = deserialize_proposal r (own_events db (pr_action_id r))"
    "pr_idempotency_key r = Some k"
    by simp_all
  then obtain r' where r': "List.find (\<lambda>r. pr_idempotency_key r = Some k) (db_proposals db) = Some r'"
    by (cases "List.find (\<lambda>r. pr_idempotency_key r = Some k) (db_proposals db)")
      (auto simp: find_None_iff)
  then have "r' = r"
    using r distinct_filtered_keys [of pr_idempotency_key "db_proposals db" r' r k] assms
    by (auto simp: sql_inv_def dest!: find_Some_member)
  with r r' show "sql_find db k = Some p"
    using assms by (simp add: sql_find_row)
qed

lemma set_sql_list:
  assumes "sql_inv db"
  shows "set (sql_list db) = ran (sql_get db)"
  using assms by (force simp: events_of_own sql_list_def sort_proposals_def load_action_proposals_def ran_def sql_get_iff)


section \<open>Writing events\<close>

fun event_rows :: "nat \<Rightarrow> string \<Rightarrow> int \<Rightarrow> history_event list \<Rightarrow> int \<Rightarrow> event_columns list" where
  "event_rows uid aid offset [] first = []"
| "event_rows uid aid offset (e # es) first =
     event_row uid aid (offset + 1) e (first + offset) # event_rows (Suc uid) aid (offset + 1) es first"

lemma insert_events_rows:
  "insert_events db aid offset es first = db\<lparr>db_events := db_events db @ event_rows (db_uuids db) aid offset es first,
     db_uuids := db_uuids db + length es\<rparr>"
  by (induction db aid offset es first rule: insert_events.induct) (simp_all add: insert_event_def)

lemma event_rows_simps [simp]:
  "length (event_rows uid aid n es m) = length es"
  "map deserialize_event (event_rows uid aid n es m) = es"
  "filter (\<lambda>r. er_action_id r = a) (event_rows uid aid n es m) = (if a = aid then event_rows uid aid n es m else [])"
  by (induction uid aid n es m rule: event_rows.induct) (auto simp: event_row_def deserialize_event_def)

lemma event_rows_aid: "r \<in> set (event_rows uid aid n es m) \<Longrightarrow> er_action_id r = aid"
  by (induction uid aid n es m rule: event_rows.induct) (auto simp: event_row_def)

lemma map_plus_upt: "map (\<lambda>i. n + int i) [0..<Suc k] = n # map (\<lambda>i. (n + 1) + int i) [0..<k]"
  by (simp add: upt_conv_Cons map_Suc_upt [symmetric] comp_def algebra_simps del: upt_Suc)

lemma event_rows_sequence:
  "map er_sequence (event_rows uid aid n es m) = map (\<lambda>i. (n + 1) + int i) [0..<length es]"
proof (induction uid aid n es m rule: event_rows.induct)
  case (2 uid aid n e es m)
  then show ?case
    using map_plus_upt [of "n + 1" "length es"] by (simp add: event_row_def del: upt_Suc)
qed simp

lemma event_rows_position:
  "map er_feed_position (event_rows uid aid n es m) = map (\<lambda>i. (m + n) + int i) [0..<length es]"
proof (induction uid aid n es m rule: event_rows.induct)
  case (2 uid aid n e es m)
  then show ?case
    using map_plus_upt [of "m + n" "length es"] by (simp add: event_row_def algebra_simps del: upt_Suc)
qed simp

lemma event_rows_ids:
  "map er_event_id (event_rows uid aid n es m) = map (\<lambda>i. ''ape_'' @ nat_text i) [uid..<uid + length es]"
proof (induction uid aid n es m rule: event_rows.induct)
  case (2 uid aid n e es m)
  then show ?case
    by (simp add: event_row_def upt_conv_Cons del: upt_Suc)
qed simp

lemma counted_append:
  "counted ns \<Longrightarrow> counted (ns @ map (\<lambda>i. (int (length ns) + 1) + int i) [0..<k])"
proof (induction k)
  case (Suc k)
  then show ?case by (simp add: counted_def)
qed simp

lemma max_or_zero_Cons_last:
  "sorted_wrt (<) (0 # ps) \<Longrightarrow> max_or_zero ps = last (0 # ps)"
proof (induction ps rule: rev_induct)
  case (snoc p ps)
  then have "max_or_zero ps = last (0 # ps)" and "\<forall>q\<in>set (0 # ps). q < p"
    by (auto simp: sorted_wrt_append)
  moreover from this have "max (last (0 # ps)) p = p"
    by (metis last_in_set list.distinct(1) max.strict_order_iff max.commute)
  ultimately show ?case
    by (cases ps) (auto simp: max_or_zero_def max_def split: if_splits)
qed (simp add: max_or_zero_def)

lemma max_counted: "counted ns \<Longrightarrow> max_or_zero ns = int (length ns)"
proof -
  assume ns: "counted ns"
  have "0 # map int [1..<Suc k] = map int [0..<Suc k]" for k
    by (simp add: upt_conv_Cons del: upt_Suc)
  then have "0 # ns = map int [0..<Suc (length ns)]"
    using ns unfolding counted_def by metis
  then have "sorted_wrt (<) (0 # ns)"
    by (simp add: sorted_wrt_map sorted_wrt_append del: upt_Suc)
  then have "max_or_zero ns = last (0 # ns)" by (rule max_or_zero_Cons_last)
  also have "\<dots> = int (length ns)"
    using ns by (cases ns rule: rev_cases) (auto simp: counted_def)
  finally show ?thesis .
qed

definition feed_top :: "'v sql_db \<Rightarrow> int" where
  "feed_top db = (case db_counter db of Some c \<Rightarrow> c
     | None \<Rightarrow> max_or_zero (map er_feed_position (db_events db)))"

lemma reserve_feed_positions_simp:
  "reserve_feed_positions db n = (feed_top db + 1, db\<lparr>db_counter := Some (feed_top db + n)\<rparr>)"
  by (simp add: reserve_feed_positions_def feed_top_def Let_def split: option.splits)

lemma feed_line_top:
  assumes "feed_line (db_counter db) (map er_feed_position (db_events db))"
  shows "0 \<le> feed_top db" and "\<forall>p\<in>set (map er_feed_position (db_events db)). p \<le> feed_top db"
proof -
  let ?ps = "map er_feed_position (db_events db)"
  have "0 \<le> last (0 # ?ps) \<and> (\<forall>p\<in>set ?ps. p \<le> last (0 # ?ps))"
    if "sorted_wrt (<) (0 # ?ps)"
  proof -
    have "sorted (0 # ?ps)"
      using that by (rule strict_sorted_imp_sorted)
    then have "\<forall>p\<in>set (0 # ?ps). p \<le> last (0 # ?ps)"
      by (rule last_max)
    then show ?thesis by simp
  qed
  then have "0 \<le> feed_top db \<and> (\<forall>p\<in>set ?ps. p \<le> feed_top db)"
    using assms by (cases "db_counter db") (auto simp: feed_line_def feed_top_def max_or_zero_Cons_last)
  then show "0 \<le> feed_top db" and "\<forall>p\<in>set ?ps. p \<le> feed_top db"
    by simp_all
qed

lemma feed_line_extend:
  assumes "feed_line c ps" and "0 \<le> m" and "\<forall>p\<in>set ps. p \<le> m"
  shows "feed_line (Some (m + int k)) (ps @ map (\<lambda>i. (m + 1) + int i) [0..<k])"
proof -
  have "sorted_wrt (<) (map (\<lambda>i. (m + 1) + int i) [0..<k])"
    by (simp add: sorted_wrt_map)
  then show ?thesis
    using assms by (auto simp: feed_line_def sorted_wrt_append)
qed


definition with_events :: "'v sql_db \<Rightarrow> string \<Rightarrow> history_event list \<Rightarrow> 'v sql_db" where
  "with_events db aid es =
     (let n = int (length (own_events db aid)) in
      db\<lparr>db_events := db_events db @ event_rows (db_uuids db) aid n es (feed_top db + 1 - n),
         db_counter := Some (feed_top db + int (length es)), db_uuids := db_uuids db + length es\<rparr>)"

lemma own_with_events:
  "own_events (with_events db aid es) a = own_events db a @ (if a = aid then
     event_rows (db_uuids db) aid (int (length (own_events db aid))) es
       (feed_top db + 1 - int (length (own_events db aid))) else [])"
  by (simp add: own_events_def with_events_def Let_def)

lemma with_events_get:
  assumes "sql_inv db" and "sql_inv (with_events db aid es)" and "sql_get db aid = Some p"
  shows "sql_get (with_events db aid es) = (sql_get db)(aid \<mapsto> p\<lparr>history := history p @ es\<rparr>)"
proof
  fix a
  have rows: "row_of (with_events db aid es) a = row_of db a" for a
    by (simp add: row_of_def with_events_def Let_def)
  show "sql_get (with_events db aid es) a = ((sql_get db)(aid \<mapsto> p\<lparr>history := history p @ es\<rparr>)) a"
    using assms by (auto simp: sql_get_row rows own_with_events deserialize_proposal_def)
qed

lemma with_events_inv:
  assumes sinv: "sql_inv db" and aid: "aid \<in> pr_action_id ` set (db_proposals db)"
  shows "sql_inv (with_events db aid es)"
proof -
  let ?n = "int (length (own_events db aid))"
  let ?new = "event_rows (db_uuids db) aid ?n es (feed_top db + 1 - ?n)"
  have "counted (map er_sequence (own_events (with_events db aid es) a))" for a
    using sinv counted_append [of "map er_sequence (own_events db aid)" "length es"]
    by (auto simp: own_with_events sql_inv_def event_rows_sequence)
  moreover have "feed_line (db_counter (with_events db aid es))
      (map er_feed_position (db_events (with_events db aid es)))"
    using sinv feed_line_extend [of "db_counter db" "map er_feed_position (db_events db)" "feed_top db" "length es"]
      feed_line_top [of db]
    by (simp add: with_events_def Let_def event_rows_position sql_inv_def)
  moreover have new: "\<exists>k<db_uuids db + length es. er_event_id r = ''ape_'' @ nat_text k \<and> db_uuids db \<le> k"
    if "r \<in> set ?new" for r
  proof -
    have "er_event_id r \<in> set (map er_event_id ?new)" using that by simp
    then show ?thesis
      unfolding event_rows_ids by auto
  qed
  moreover have "distinct (map er_event_id (db_events db @ ?new))"
  proof -
    have "distinct (map er_event_id ?new)"
      by (auto simp: event_rows_ids distinct_map inj_on_def dest: nat_text_inj)
    moreover have "er_event_id r \<noteq> er_event_id q"
      if r: "r \<in> set (db_events db)" and q: "q \<in> set ?new" for r q
    proof -
      obtain m where "m < db_uuids db" "er_event_id r = ''ape_'' @ nat_text m"
        using sinv r by (auto simp: sql_inv_def)
      with new [OF q] show ?thesis by (auto dest: nat_text_inj)
    qed
    ultimately show ?thesis
      using sinv by (fastforce simp: sql_inv_def)
  qed
  moreover have "\<forall>r\<in>set (db_events db @ ?new). \<exists>k<db_uuids db + length es. er_event_id r = ''ape_'' @ nat_text k"
  proof
    fix r assume "r \<in> set (db_events db @ ?new)"
    then show "\<exists>k<db_uuids db + length es. er_event_id r = ''ape_'' @ nat_text k"
    proof (cases "r \<in> set (db_events db)")
      case True
      then obtain k where "k < db_uuids db" "er_event_id r = ''ape_'' @ nat_text k"
        using sinv by (auto simp: sql_inv_def)
      then show ?thesis by (intro exI [of _ k]) simp
    next
      case False
      with \<open>r \<in> set (db_events db @ ?new)\<close> new [of r] show ?thesis by auto
    qed
  qed
  moreover have "\<forall>r\<in>set (db_events db @ ?new). er_action_id r \<in> pr_action_id ` set (db_proposals db)"
    using sinv aid by (auto simp: sql_inv_def dest: event_rows_aid)
  moreover have "db_proposals (with_events db aid es) = db_proposals db"
    and "db_events (with_events db aid es) = db_events db @ ?new"
    and "db_uuids (with_events db aid es) = db_uuids db + length es"
    by (simp_all add: with_events_def Let_def)
  ultimately show ?thesis
    using sinv unfolding sql_inv_def by (intro conjI) simp_all
qed

lemma with_rows_inv:
  assumes "sql_inv db" and "distinct (map pr_action_id rows)"
    and "distinct (List.map_filter pr_idempotency_key rows)"
    and "pr_action_id ` set (db_proposals db) \<subseteq> pr_action_id ` set rows"
  shows "sql_inv (db\<lparr>db_proposals := rows\<rparr>)"
  using assms by (auto simp: sql_inv_def own_events_def)


section \<open>The durable store keeps the contract\<close>

lemma insert_event_rows:
  "insert_event db aid sq e pos = insert_events db aid (sq - 1) [e] (pos - sq + 1)"
  by simp

lemma sql_insert_free:
  assumes sinv: "sql_inv db"
  shows "(\<exists>db'. sql_insert db p = Inr db') \<longleftrightarrow>
    sql_get db (action_id p) = None \<and> (\<forall>k. idempotency_key p = Some k \<longrightarrow> sql_find db k = None)"
  using assms by (cases "idempotency_key p")
    (auto simp: sql_insert_def sql_get_None sql_find_None Let_def list_ex_iff case_prod_beta intro: rev_image_eqI)

lemma sql_insert_with:
  assumes sinv: "sql_inv db" and ok: "sql_insert db p = Inr db'"
  defines "db1 \<equiv> db\<lparr>db_proposals := db_proposals db @ [proposal_row p]\<rparr>"
  shows "sql_inv db1 \<and> own_events db1 (action_id p) = [] \<and>
    db' = (if history p = [] then db1 else with_events db1 (action_id p) (history p))"
proof -
  have free: "sql_get db (action_id p) = None" and keyfree: "idempotency_key p = Some k \<Longrightarrow> sql_find db k = None" for k
    using sql_insert_free [OF sinv, of p] ok by blast+
  have "er_action_id r \<noteq> action_id p" if "r \<in> set (db_events db)" for r
  proof -
    have "er_action_id r \<in> pr_action_id ` set (db_proposals db)"
      using sinv that by (simp add: sql_inv_def)
    with free show ?thesis by (metis sql_get_None [OF sinv])
  qed
  then have "own_events db1 (action_id p) = []"
    by (simp add: own_events_def db1_def filter_empty_conv)
  moreover have "sql_inv db1"
    unfolding db1_def
  proof (rule with_rows_inv [OF sinv])
    show "distinct (map pr_action_id (db_proposals db @ [proposal_row p]))"
      using sinv free by (auto simp: sql_inv_def sql_get_None)
    show "distinct (List.map_filter pr_idempotency_key (db_proposals db @ [proposal_row p]))"
      using sinv keyfree by (cases "idempotency_key p")
        (auto simp: sql_inv_def sql_find_None map_filter_def list_ex_iff)
  qed auto
  moreover have "db' = (if history p = [] then db1 else with_events db1 (action_id p) (history p))"
    using ok \<open>own_events db1 (action_id p) = []\<close>
    by (auto simp: sql_insert_def Let_def reserve_feed_positions_simp insert_events_rows
        with_events_def db1_def feed_top_def split: if_splits)
  ultimately show ?thesis by blast
qed

lemma sql_insert_result:
  assumes sinv: "sql_inv db" and ok: "sql_insert db p = Inr db'"
  shows "sql_inv db' \<and> sql_get db' = (sql_get db)(action_id p \<mapsto> p)"
proof -
  define db1 where "db1 = db\<lparr>db_proposals := db_proposals db @ [proposal_row p]\<rparr>"
  have inv1: "sql_inv db1" and own: "own_events db1 (action_id p) = []"
    and db': "db' = (if history p = [] then db1 else with_events db1 (action_id p) (history p))"
    using sql_insert_with [OF assms] by (simp_all add: db1_def)
  have free: "sql_get db (action_id p) = None"
    using sql_insert_free [OF sinv, of p] ok by blast
  have get1: "sql_get db1 = (sql_get db)(action_id p \<mapsto> p\<lparr>history := []\<rparr>)"
  proof
    fix a
    have "row_of db (action_id p) = None"
      using free by (simp add: sql_get_row [OF sinv])
    then have "row_of db1 a = (if a = action_id p then Some (proposal_row p) else row_of db a)"
      by (auto simp: row_of_def db1_def find_append split: option.splits)
    then show "sql_get db1 a = ((sql_get db)(action_id p \<mapsto> p\<lparr>history := []\<rparr>)) a"
      using sinv inv1 own by (auto simp: sql_get_row deserialize_proposal_row own_events_def db1_def)
  qed
  have inv': "sql_inv db'"
    unfolding db' using inv1 with_events_inv [OF inv1, of "action_id p" "history p"]
    by (auto simp: db1_def)
  moreover have "sql_get db' = (sql_get db)(action_id p \<mapsto> p)"
  proof (cases "history p = []")
    case True
    then have "p\<lparr>history := []\<rparr> = p" by simp
    with True get1 show ?thesis by (simp add: db')
  next
    case False
    with inv' inv1 get1 with_events_get [of db1 "action_id p" "history p" "p\<lparr>history := []\<rparr>"]
    show ?thesis by (simp add: db')
  qed
  ultimately show ?thesis ..
qed

lemma filter_one_row:
  assumes "distinct (map key xs)" and "x \<in> set xs" and "P x"
    and "\<And>y. P y \<Longrightarrow> key y = key x"
  shows "filter P xs = [x]"
proof -
  have "y = x" if "y \<in> set xs" "P y" for y
    using inj_onD [of key "set xs" y x] assms(1,2) assms(4) [OF that(2)] that(1)
    by (simp add: distinct_map)
  with assms(3) have "filter P xs = filter (\<lambda>y. y = x) xs"
    by (intro filter_cong) auto
  moreover have "distinct xs"
    using assms(1) by (simp add: distinct_map)
  then have "filter (\<lambda>y. y = x) xs = [x]"
    using assms(2) by (induction xs) (auto simp: filter_empty_conv)
  ultimately show ?thesis by simp
qed

lemma sql_update_miss:
  assumes sinv: "sql_inv db" and miss: "\<forall>q. sql_get db (action_id p) = Some q \<longrightarrow> status q \<noteq> x"
  shows "sql_update db p x e = (False, db)"
proof -
  have none: "\<not> (pr_action_id r = action_id p \<and> pr_status r = x)" if "r \<in> set (db_proposals db)" for r
  proof
    assume hit: "pr_action_id r = action_id p \<and> pr_status r = x"
    with that have "sql_get db (action_id p) = Some (deserialize_proposal r (own_events db (action_id p)))"
      unfolding sql_get_iff [OF sinv] by (intro bexI [of _ r]) simp_all
    with miss have "status (deserialize_proposal r (own_events db (action_id p))) \<noteq> x" by blast
    with hit show False by simp
  qed
  then have "filter (\<lambda>r. pr_action_id r = action_id p \<and> pr_status r = x) (db_proposals db) = []"
    by (simp add: filter_empty_conv)
  moreover have "map (\<lambda>r. if pr_action_id r = action_id p \<and> pr_status r = x
      then rewrite_row (proposal_row p) r else r) (db_proposals db) = db_proposals db"
    using none by (intro map_idI) auto
  ultimately show ?thesis
    by (simp add: sql_update_def Let_def)
qed

definition rewritten :: "'v sql_db \<Rightarrow> 'v proposal \<Rightarrow> proposal_status \<Rightarrow> 'v sql_db" where
  "rewritten db p x = db\<lparr>db_proposals := map (\<lambda>r. if pr_action_id r = action_id p \<and> pr_status r = x
     then rewrite_row (proposal_row p) r else r) (db_proposals db)\<rparr>"

lemma rewrite_row_simps [simp]:
  "pr_action_id (rewrite_row r q) = pr_action_id q"
  "pr_idempotency_key (rewrite_row r q) = pr_idempotency_key q"
  by (simp_all add: rewrite_row_def)

lemma rewritten_inv:
  assumes "sql_inv db"
  shows "sql_inv (rewritten db p x)"
proof -
  let ?rows = "db_proposals (rewritten db p x)"
  have ids: "map pr_action_id ?rows = map pr_action_id (db_proposals db)"
    by (simp add: rewritten_def)
  have keys: "map pr_idempotency_key ?rows = map pr_idempotency_key (db_proposals db)"
    by (simp add: rewritten_def)
  have "List.map_filter pr_idempotency_key rs = List.map_filter id (map pr_idempotency_key rs)"
    for rs :: "'a proposal_columns list"
    by (simp add: map_filter_def filter_map comp_def)
  then have "distinct (List.map_filter pr_idempotency_key ?rows)"
    using assms keys by (simp add: sql_inv_def)
  moreover have "pr_action_id ` set ?rows = pr_action_id ` set (db_proposals db)"
    by (metis ids set_map)
  ultimately have "sql_inv (db\<lparr>db_proposals := ?rows\<rparr>)"
    using assms ids by (intro with_rows_inv) (simp_all add: sql_inv_def)
  then show ?thesis by (simp add: rewritten_def)
qed

lemma sql_update_hit:
  assumes sinv: "sql_inv db" and q: "sql_get db (action_id p) = Some q" and x: "status q = x"
  shows "sql_update db p x e = (True, case e of None \<Rightarrow> rewritten db p x
    | Some ev \<Rightarrow> with_events (rewritten db p x) (action_id p) [ev])"
proof -
  obtain r where r: "r \<in> set (db_proposals db)" "pr_action_id r = action_id p"
    "q = deserialize_proposal r (own_events db (action_id p))"
    using q by (auto simp: sql_get_iff [OF sinv])
  with x have "pr_status r = x" by simp
  then have one: "length (filter (\<lambda>r. pr_action_id r = action_id p \<and> pr_status r = x) (db_proposals db)) = 1"
    using filter_one_row [of pr_action_id "db_proposals db" r "\<lambda>r. pr_action_id r = action_id p \<and> pr_status r = x"] r sinv
    by (simp add: sql_inv_def)
  let ?db1 = "rewritten db p x"
  have "counted (map er_sequence (own_events ?db1 (action_id p)))"
    using rewritten_inv [OF sinv, of p x] by (simp add: sql_inv_def)
  then have "max_or_zero (map er_sequence (own_events ?db1 (action_id p))) = int (length (own_events ?db1 (action_id p)))"
    by (simp add: max_counted)
  then have "next_sequence ?db1 (action_id p) = int (length (own_events ?db1 (action_id p))) + 1"
    by (simp add: next_sequence_def own_events_def)
  then show ?thesis
    using one by (auto simp: sql_update_def rewritten_def [symmetric] Let_def case_prod_beta
        reserve_feed_positions_simp insert_event_def with_events_def feed_top_def own_events_def algebra_simps
        split: option.splits)
qed

lemma rewritten_get:
  assumes sinv: "sql_inv db" and q: "sql_get db (action_id p) = Some q" and x: "status q = x"
  shows "sql_get (rewritten db p x) = (sql_get db)(action_id p \<mapsto> committed q p None)"
proof
  fix a
  obtain r where r: "r \<in> set (db_proposals db)" "pr_action_id r = action_id p"
    "q = deserialize_proposal r (own_events db (action_id p))"
    using q by (auto simp: sql_get_iff [OF sinv])
  show "sql_get (rewritten db p x) a = ((sql_get db)(action_id p \<mapsto> committed q p None)) a"
  proof (cases "a = action_id p")
    case True
    have "rewrite_row (proposal_row p) r \<in> set (db_proposals (rewritten db p x))"
      using r x by (force simp: rewritten_def)
    moreover have "committed q p None = deserialize_proposal (rewrite_row (proposal_row p) r) (own_events db (action_id p))"
      using r by (simp add: committed_def rewrite_row_def deserialize_proposal_def proposal_row_def Let_def split: option.splits)
    ultimately have "sql_get (rewritten db p x) (action_id p) = Some (committed q p None)"
      using r(2) unfolding sql_get_iff [OF rewritten_inv [OF sinv]]
      by (intro bexI [of _ "rewrite_row (proposal_row p) r"]) (simp_all add: own_events_def rewritten_def)
    with True show ?thesis by simp
  next
    case False
    have "List.find (\<lambda>r. pr_action_id r = a) (map (\<lambda>r. if pr_action_id r = action_id p \<and> pr_status r = x
        then rewrite_row (proposal_row p) r else r) rs) = List.find (\<lambda>r. pr_action_id r = a) rs" for rs
      using False by (induction rs) auto
    with False show ?thesis
      unfolding sql_get_row [OF sinv] sql_get_row [OF rewritten_inv [OF sinv]]
      by (simp add: row_of_def rewritten_def own_events_def)
  qed
qed

lemma committed_event: "committed q p (Some ev) = (committed q p None)\<lparr>history := history (committed q p None) @ [ev]\<rparr>"
  by (simp add: committed_def)

lemma sql_update_result:
  assumes sinv: "sql_inv db" and q: "sql_get db (action_id p) = Some q" and x: "status q = x"
  shows "\<exists>db'. sql_update db p x e = (True, db') \<and> sql_inv db' \<and>
    sql_get db' = (sql_get db)(action_id p \<mapsto> committed q p e)"
proof -
  note inv1 = rewritten_inv [OF sinv, of p x] and get1 = rewritten_get [OF assms]
  show ?thesis
  proof (cases e)
    case None
    then show ?thesis using sql_update_hit [OF assms, of e] inv1 get1 by simp
  next
    case (Some ev)
    have "sql_get (rewritten db p x) (action_id p) \<noteq> None"
      by (simp add: get1)
    then have inv2: "sql_inv (with_events (rewritten db p x) (action_id p) [ev])"
      using inv1 by (intro with_events_inv) (simp_all add: sql_get_None)
    moreover have "sql_get (with_events (rewritten db p x) (action_id p) [ev]) =
        (sql_get db)(action_id p \<mapsto> committed q p e)"
      using with_events_get [OF inv1 inv2, of "committed q p None"]
      unfolding Some committed_event by (simp add: get1)
    ultimately show ?thesis
      using sql_update_hit [OF assms, of e] Some by simp
  qed
qed

interpretation sql: proposal_store sql_ops sql_inv
proof (unfold_locales, unfold sql_ops_simps, goal_cases)
  case (1 s a p)
  then show ?case by (auto simp: sql_get_iff)
next
  case (2 s k p)
  then show ?case by (rule sql_find_iff)
next
  case (3 s)
  then show ?case by (rule set_sql_list)
next
  case (4 s p)
  then show ?case using sql_insert_free by blast
next
  case (5 s p s')
  then show ?case using sql_insert_free by blast
next
  case (6 s p err)
  then show ?case by (auto simp: sql_insert_def Let_def case_prod_beta split: if_splits)
next
  case (7 s p s')
  then show ?case using sql_insert_result by blast
next
  case (8 s p s')
  then show ?case using sql_insert_result by blast
next
  case (9 s p x e)
  then show ?case by (rule sql_update_miss)
next
  case (10 s p q x e)
  then show ?case by (rule sql_update_result)
qed

end
