(* ===== verification/ProposalFeed.thy ===== *)
theory ProposalFeed
  imports ProposalSqlStore ProposalLifecycle
begin

text \<open>
  The changes feed of \<open>packages/application/use_cases/action_proposal_changes.py\<close>: its cursors, its
  events and its pages.  The locale \<open>proposal_feed\<close> is what a store promises about the positions it
  hands out; both stores keep it, and a reader that follows \<open>next_cursor\<close> over either of them reads
  every event once and in order, whatever is written between two pages.
\<close>

section \<open>Cursors\<close>

datatype cursor_error = InvalidCursorError string

definition encode_cursor :: "int \<Rightarrow> string" where
  "encode_cursor pos = ''apf.'' @ int_text pos"

definition cursor_group :: "string \<Rightarrow> string option" where
  \<comment> \<open>group 1 of \<open>_CURSOR_PATTERN.match\<close>; \<open>$\<close> also matches before a final line feed\<close>
  "cursor_group s =
     (let rest = drop 4 s;
          body = (if rest \<noteq> [] \<and> last rest = CHR 0x0A then butlast rest else rest)
      in if take 4 s = ''apf.'' \<and> (body = ''0'' \<or>
           body \<noteq> [] \<and> list_all is_digit body \<and> hd body \<noteq> CHR ''0'' \<and> length body \<le> 18)
         then Some body else None)"

definition decode_cursor :: "string option \<Rightarrow> cursor_error + int" where
  "decode_cursor cursor = (case cursor of
     None \<Rightarrow> Inr 0
   | Some s \<Rightarrow>
       if s = [] then Inr 0
       else case cursor_group s of
         None \<Rightarrow> Inl (InvalidCursorError s)
       | Some digits \<Rightarrow> Inr (the (digits_value 0 False digits)))"

lemma digits_value_total: "list_all is_digit ds \<Longrightarrow> ds \<noteq> [] \<or> p \<Longrightarrow> digits_value acc p ds \<noteq> None"
  by (induction ds arbitrary: acc p) auto

lemma is_digit_digit_of: "is_digit c \<Longrightarrow> 0 \<le> digit_of c \<and> digit_of c < 10 \<and> c = char_of (48 + nat (digit_of c))"
proof -
  assume d: "is_digit c"
  have i: "(of_char c :: int) = int (of_char c)" by (rule of_nat_of_char [symmetric])
  have "digit_of c = int ((of_char c :: nat) - 48)"
    using d by (simp add: is_digit_def digit_of_def i)
  then have "nat (digit_of c) = of_char c - 48" by simp
  with d have "48 + nat (digit_of c) = of_char c" by (simp add: is_digit_def)
  then have "c = char_of (48 + nat (digit_of c))" by simp
  with d show ?thesis
    by (simp add: \<open>digit_of c = _\<close> is_digit_def)
qed

lemma digits_value_nonneg: "digits_value acc p ds = Some v \<Longrightarrow> 0 \<le> acc \<Longrightarrow> acc \<le> v"
proof (induction ds arbitrary: acc p)
  case (Cons c cs)
  show ?case
  proof (cases "is_digit c")
    case True
    with Cons.prems Cons.IH [of "10 * acc + digit_of c" True] is_digit_digit_of [OF True]
    show ?thesis by simp
  next
    case False
    with Cons show ?thesis by (auto split: if_splits)
  qed
qed (auto split: if_splits)

text \<open>A digit text without a leading zero is the decimal text of its value.\<close>

lemma nat_text_digits_value:
  assumes "list_all is_digit ds" and "ds \<noteq> []" and "hd ds \<noteq> CHR ''0'' \<or> length ds = 1"
    and "digits_value 0 False ds = Some v"
  shows "nat_text (nat v) = ds \<and> 0 \<le> v \<and> v < 10 ^ length ds \<and> (hd ds \<noteq> CHR ''0'' \<longrightarrow> 0 < v)"
  using assms
proof (induction ds arbitrary: v rule: rev_induct)
  case (snoc c ds)
  have c: "is_digit c" using snoc.prems by simp
  note dc = is_digit_digit_of [OF c]
  show ?case
  proof (cases ds)
    case Nil
    then have v: "v = digit_of c" using snoc.prems c by simp
    have "c = CHR ''0''" if "digit_of c = 0"
    proof -
      have "c = char_of (48 + nat (digit_of c))" using dc by blast
      also have "\<dots> = CHR ''0''" unfolding that by code_simp
      finally show ?thesis .
    qed
    moreover have "nat_text (nat v) = [c]"
    proof -
      have "nat v < 10" using dc v by auto
      with dc v show ?thesis by (subst nat_text.simps) simp
    qed
    moreover have "c \<noteq> CHR ''0'' \<longrightarrow> 0 < digit_of c"
      using \<open>digit_of c = 0 \<Longrightarrow> c = CHR ''0''\<close> dc by (metis order_le_less)
    ultimately show ?thesis using Nil dc v by simp
  next
    case (Cons a as)
    then obtain w where w: "digits_value 0 False ds = Some w"
      using snoc.prems digits_value_total [of ds False 0] by auto
    then have v: "v = 10 * w + digit_of c"
      using snoc.prems c Cons by (simp add: digits_value_snoc)
    have ih: "nat_text (nat w) = ds" "0 < w" "w < 10 ^ length ds"
      using snoc.IH [OF _ _ _ w] snoc.prems Cons by auto
    have "10 \<le> v" using v dc ih by simp
    moreover have "nat v div 10 = nat w" and "nat v mod 10 = nat (digit_of c)"
    proof -
      have "nat v = 10 * nat w + nat (digit_of c)" and "nat (digit_of c) < 10"
        using v dc ih by (simp_all add: nat_add_distrib nat_mult_distrib nat_less_iff)
      then show "nat v div 10 = nat w" and "nat v mod 10 = nat (digit_of c)"
        by simp_all
    qed
    ultimately have "nat_text (nat v) = ds @ [c]"
      using dc ih \<open>10 \<le> v\<close> by (subst nat_text.simps) (simp add: nat_less_iff)
    moreover have "v < 10 ^ length (ds @ [c])" using v dc ih by simp
    ultimately show ?thesis using \<open>10 \<le> v\<close> by simp
  qed
qed simp

lemma is_digit_newline [simp]: "\<not> is_digit (CHR 0x0A)"
  by (simp add: is_digit_def)

lemma nat_text_shape: "n < 10 ^ Suc k \<Longrightarrow>
    length (nat_text n) \<le> Suc k \<and> (n = 0 \<and> nat_text n = ''0'' \<or> hd (nat_text n) \<noteq> CHR ''0'')"
proof (induction n arbitrary: k rule: nat_text.induct)
  case (1 n)
  show ?case
  proof (cases "n < 10")
    case True
    have "CHR ''0'' = char_of (48 :: nat)" by code_simp
    moreover have "char_of (48 + n) = (char_of (48 :: nat) :: char) \<Longrightarrow> n = 0"
      using arg_cong [of "char_of (48 + n)" "char_of (48::nat) :: char" "of_char :: char \<Rightarrow> nat"] True
      by (simp add: of_char_of)
    ultimately show ?thesis using True by (subst (1 2 3) nat_text.simps) auto
  next
    case False
    then obtain k' where k: "k = Suc k'"
      using 1 by (cases k) auto
    have "n div 10 < 10 ^ Suc k'"
      using 1(2) k by (simp add: less_mult_imp_div_less mult.commute)
    from 1(1) [OF False this] k False
    have "length (nat_text (n div 10)) \<le> k \<and> hd (nat_text (n div 10)) \<noteq> CHR ''0''"
      by auto
    with False show ?thesis by (subst (1 2 3) nat_text.simps) (simp add: hd_append)
  qed
qed

lemma cursor_group_encode:
  assumes "0 \<le> n" and "n < 10 ^ 18"
  shows "cursor_group (encode_cursor n) = Some (nat_text (nat n))"
    and "cursor_group (encode_cursor n @ [CHR 0x0A]) = Some (nat_text (nat n))"
proof -
  let ?d = "nat_text (nat n)"
  have digits: "list_all is_digit ?d" and "?d \<noteq> []"
    by (simp_all add: nat_text_digits)
  then have "last ?d \<noteq> CHR 0x0A"
    by (metis last_in_set list_all_iff is_digit_newline)
  moreover have "?d = ''0'' \<or> hd ?d \<noteq> CHR ''0'' \<and> length ?d \<le> 18"
    using nat_text_shape [of "nat n" 17] assms by (auto simp: nat_less_iff)
  moreover have "encode_cursor n = ''apf.'' @ ?d"
    using assms by (simp add: encode_cursor_def int_text_def)
  ultimately show "cursor_group (encode_cursor n) = Some ?d"
    and "cursor_group (encode_cursor n @ [CHR 0x0A]) = Some ?d"
    using digits by (auto simp: cursor_group_def Let_def)
qed

lemma cursor_group_Some:
  assumes "cursor_group s = Some ds"
  obtains n where "digits_value 0 False ds = Some n" "0 \<le> n" "n < 10 ^ 18"
    "s = encode_cursor n \<or> s = encode_cursor n @ [CHR 0x0A]"
proof -
  have ds: "list_all is_digit ds" "ds \<noteq> []" "hd ds \<noteq> CHR ''0'' \<or> length ds = 1" "length ds \<le> 18"
    and s: "s = ''apf.'' @ ds \<or> s = ''apf.'' @ ds @ [CHR 0x0A]"
  proof -
    have head: "take 4 s = ''apf.''" and body: "ds = ''0'' \<or>
        ds \<noteq> [] \<and> list_all is_digit ds \<and> hd ds \<noteq> CHR ''0'' \<and> length ds \<le> 18"
      and rest: "ds = (if drop 4 s \<noteq> [] \<and> last (drop 4 s) = CHR 0x0A then butlast (drop 4 s) else drop 4 s)"
      using assms unfolding cursor_group_def Let_def by (auto simp only: option.inject option.distinct split: if_splits)
    have "is_digit CHR ''0''" by (simp add: is_digit_def)
    with body show "list_all is_digit ds" "ds \<noteq> []" "hd ds \<noteq> CHR ''0'' \<or> length ds = 1" "length ds \<le> 18"
      by auto
    have "drop 4 s = ds \<or> drop 4 s = ds @ [CHR 0x0A]"
      using rest append_butlast_last_id [of "drop 4 s"] by (auto split: if_splits)
    then show "s = ''apf.'' @ ds \<or> s = ''apf.'' @ ds @ [CHR 0x0A]"
      using append_take_drop_id [of 4 s] unfolding head by auto
  qed
  obtain n where n: "digits_value 0 False ds = Some n"
    using digits_value_total [of ds False 0] ds by auto
  note val = nat_text_digits_value [OF ds(1-3) n]
  have "n < 10 ^ 18"
    using val ds(4) by (meson less_le_trans one_le_numeral power_increasing)
  moreover have "int_text n = ds"
    using val by (simp add: int_text_def)
  ultimately show ?thesis
    using that [of n] n val s by (auto simp: encode_cursor_def)
qed

lemma decode_cursor_Some_iff:
  "decode_cursor (Some s) = Inr n \<longleftrightarrow> s = [] \<and> n = 0 \<or>
     0 \<le> n \<and> n < 10 ^ 18 \<and> (s = encode_cursor n \<or> s = encode_cursor n @ [CHR 0x0A])"
proof (cases "s = []")
  case True
  then show ?thesis by (auto simp: decode_cursor_def encode_cursor_def)
next
  case False
  show ?thesis
  proof
    assume "decode_cursor (Some s) = Inr n"
    with False obtain ds where ds: "cursor_group s = Some ds" "n = the (digits_value 0 False ds)"
      by (auto simp: decode_cursor_def split: option.splits)
    from ds(1) show "s = [] \<and> n = 0 \<or>
        0 \<le> n \<and> n < 10 ^ 18 \<and> (s = encode_cursor n \<or> s = encode_cursor n @ [CHR 0x0A])"
      by (rule cursor_group_Some) (use ds in auto)
  next
    assume "s = [] \<and> n = 0 \<or>
        0 \<le> n \<and> n < 10 ^ 18 \<and> (s = encode_cursor n \<or> s = encode_cursor n @ [CHR 0x0A])"
    with False have n: "0 \<le> n" "n < 10 ^ 18" and "s = encode_cursor n \<or> s = encode_cursor n @ [CHR 0x0A]"
      by auto
    then have "cursor_group s = Some (nat_text (nat n))"
      using cursor_group_encode [OF n] by auto
    with False n show "decode_cursor (Some s) = Inr n"
      by (simp add: decode_cursor_def digits_value_nat_text)
  qed
qed

lemma decode_encode: "0 \<le> n \<Longrightarrow> n < 10 ^ 18 \<Longrightarrow> decode_cursor (Some (encode_cursor n)) = Inr n"
  by (simp add: decode_cursor_Some_iff)

section \<open>Events and pages\<close>

definition PROPOSAL_STATE_TO_VUORO_EFFECT :: "proposal_status \<Rightarrow> string" where
  "PROPOSAL_STATE_TO_VUORO_EFFECT x = (case x of Pending \<Rightarrow> ''proposed'' | Approved \<Rightarrow> ''accepted''
     | Dismissed \<Rightarrow> ''rejected'')"

definition MAX_LIMIT :: int where
  "MAX_LIMIT = 500"

definition TERMINAL_STATUSES :: "proposal_status list" where
  "TERMINAL_STATUSES = [Approved, Dismissed]"

record event_payload =
  pl_event_id :: string
  pl_terminal :: bool
  pl_action_id :: string
  pl_sequence :: int
  pl_event :: history_event
  pl_status :: proposal_status
  pl_effect_state :: string
  pl_adapter :: string
  pl_source_kind :: source_kind
  pl_origin :: string
  pl_title :: string
  pl_proposal_path :: string

definition event_payload_of :: "feed_event \<Rightarrow> event_payload" where
  "event_payload_of i =
     (let st = STATUS_AFTER_EVENT (ev_kind (fe_event i)) in
      \<lparr>pl_event_id = event_id i, pl_terminal = (st \<in> set TERMINAL_STATUSES),
       pl_action_id = fe_action_id i, pl_sequence = sequence i, pl_event = fe_event i,
       pl_status = st, pl_effect_state = PROPOSAL_STATE_TO_VUORO_EFFECT st,
       pl_adapter = fe_adapter i, pl_source_kind = fe_source_kind i, pl_origin = fe_policy_id i,
       pl_title = fe_policy_name i,
       pl_proposal_path = ''/api/actions/proposals/'' @ fe_action_id i\<rparr>)"

record feed_page =
  pg_reference :: string
  pg_next_cursor :: string
  pg_events :: "event_payload list"

definition feed_reference :: "string option \<Rightarrow> string" where
  "feed_reference aid = (case aid of None \<Rightarrow> ''action-proposals''
     | Some a \<Rightarrow> ''action-proposals/'' @ a)"

definition proposal_changes_feed :: "('s, 'v) store_ops \<Rightarrow> 's \<Rightarrow> string option \<Rightarrow> int \<Rightarrow>
    string option \<Rightarrow> cursor_error + feed_page" where
  "proposal_changes_feed ops s cursor limit aid =
     and_then (decode_cursor cursor) (\<lambda>after.
       let bounded = min (max limit 1) MAX_LIMIT;
           items = st_changes ops s after bounded aid;
           next_position = (if items \<noteq> [] then position (last items) else after)
       in Inr \<lparr>pg_reference = feed_reference aid, pg_next_cursor = encode_cursor next_position,
              pg_events = map event_payload_of items\<rparr>)"

text \<open>A reader: it polls a sequence of store states, handing back the cursor it was given.\<close>

fun follow :: "('s, 'v) store_ops \<Rightarrow> string option \<Rightarrow> ('s \<times> int) list \<Rightarrow> string option \<Rightarrow>
    cursor_error + (string option \<times> event_payload list)" where
  "follow ops aid [] cursor = Inr (cursor, [])"
| "follow ops aid ((s, limit) # polls) cursor =
     and_then (proposal_changes_feed ops s cursor limit aid) (\<lambda>page.
       and_then (follow ops aid polls (Some (pg_next_cursor page))) (\<lambda>(last_cursor, later).
         Inr (last_cursor, pg_events page @ later)))"

section \<open>What a store promises about its feed\<close>

text \<open>
  The parts of a feed event that never change, and those of the event payload: the other four fields
  describe the proposal, which may be rewritten.
\<close>

type_synonym fixed_fields = "string \<times> string \<times> int \<times> history_event"

definition fixed_of :: "feed_event \<Rightarrow> fixed_fields" where
  "fixed_of i = (event_id i, fe_action_id i, sequence i, fe_event i)"

definition placed :: "feed_event \<Rightarrow> int \<times> fixed_fields" where
  "placed i = (position i, fixed_of i)"

definition fixed_payload :: "event_payload \<Rightarrow> fixed_fields" where
  "fixed_payload e = (pl_event_id e, pl_action_id e, pl_sequence e, pl_event e)"

definition about :: "string option \<Rightarrow> feed_event \<Rightarrow> bool" where
  "about aid i \<longleftrightarrow> aid = None \<or> aid = Some (fe_action_id i)"

inductive store_run :: "('s, 'v) store_ops \<Rightarrow> 's \<Rightarrow> 's \<Rightarrow> bool" for ops where
  idle: "store_run ops s s"
| inserted: "store_run ops s t \<Longrightarrow> st_insert ops t p = Inr u \<Longrightarrow> store_run ops s u"
| updated: "store_run ops s t \<Longrightarrow> store_run ops s (snd (st_update ops t p x e))"

text \<open>The states a reader polls, each reached from the one before by writes.\<close>

fun polled :: "('s, 'v) store_ops \<Rightarrow> 's \<Rightarrow> ('s \<times> int) list \<Rightarrow> bool" where
  "polled ops s [] = True"
| "polled ops s ((t, limit) # polls) = (store_run ops s t \<and> polled ops t polls)"

fun last_state :: "'s \<Rightarrow> ('s \<times> int) list \<Rightarrow> 's" where
  "last_state s [] = s"
| "last_state s ((t, limit) # polls) = last_state t polls"

lemma filter_after:
  assumes "sorted_wrt (<) (0 # map fst xs)" and "n \<le> length xs"
  shows "filter (\<lambda>x. last (0 # map fst (take n xs)) < fst x) xs = drop n (xs :: (int \<times> 'b) list)"
proof -
  let ?c = "last (0 # map fst (take n xs))"
  have sorted: "sorted_wrt (<) (0 # map fst (take n xs) @ map fst (drop n xs))"
    using assms by (metis append_take_drop_id map_append)
  have "sorted (0 # map fst (take n xs))"
    using sorted by (intro strict_sorted_imp_sorted) (auto simp: sorted_wrt_append)
  then have le: "\<forall>p\<in>set (0 # map fst (take n xs)). p \<le> ?c"
    by (rule last_max)
  have "?c \<in> set (0 # map fst (take n xs))" by (rule last_in_set) simp
  then have gt: "\<forall>p\<in>set (map fst (drop n xs)). ?c < p"
    using sorted sorted_wrt_append [of "(<)" "0 # map fst (take n xs)" "map fst (drop n xs)"]
    unfolding append_Cons by blast
  have "filter (\<lambda>x. ?c < fst x) (take n xs @ drop n xs) = drop n xs"
    using le gt by (auto simp: filter_empty_conv not_less simp del: last.simps append_take_drop_id)
  then show ?thesis by simp
qed

lemma last_Cons_append_map:
  "last (x # xs @ map f ys) = (if ys \<noteq> [] then f (last ys) else last (x # xs))"
  by (auto simp: last_append last_map)

locale proposal_feed = proposal_store +
  fixes feed :: "'a \<Rightarrow> feed_event list"
  assumes feed_sorted: "sinv s \<Longrightarrow> sorted_wrt (<) (0 # map position (feed s))"
    and changes_feed: "sinv s \<Longrightarrow> st_changes ops s after limit aid =
      take (nat (max limit 0)) (filter (\<lambda>i. after < position i \<and> about aid i) (feed s))"
    and feed_history: "sinv s \<Longrightarrow> map seq_event (filter (\<lambda>i. fe_action_id i = a) (feed s)) =
      numbered 1 (case st_get ops s a of None \<Rightarrow> [] | Some p \<Rightarrow> history p)"
    and feed_insert: "sinv s \<Longrightarrow> st_insert ops s p = Inr s' \<Longrightarrow>
      prefix (map placed (feed s)) (map placed (feed s'))"
    and feed_update: "sinv s \<Longrightarrow> st_update ops s p x e = (b, s') \<Longrightarrow>
      prefix (map placed (feed s)) (map placed (feed s'))"
begin

lemma run_grows:
  assumes "store_run ops s t" and "sinv s"
  shows "sinv t \<and> prefix (map placed (feed s)) (map placed (feed t))"
  using assms
proof (induction rule: store_run.induct)
  case (inserted s t p u)
  then show ?case
    using insert_inv [of t p u] feed_insert [of t p u] prefix_order.trans by blast
next
  case (updated s t p x e)
  obtain b u where "st_update ops t p x e = (b, u)" by (cases "st_update ops t p x e")
  with updated show ?case
    using update_inv [of t p x e] feed_update [of t p x e b u] by (auto intro: prefix_order.trans)
qed simp

definition log :: "string option \<Rightarrow> 'a \<Rightarrow> (int \<times> fixed_fields) list" where
  "log aid s = map placed (filter (about aid) (feed s))"

definition read_upto :: "string option \<Rightarrow> 'a \<Rightarrow> int \<Rightarrow> nat \<Rightarrow> bool" where
  "read_upto aid s after n \<longleftrightarrow>
     n \<le> length (log aid s) \<and> after = last (0 # map fst (take n (log aid s)))"

lemma log_filter: "log aid s = filter (\<lambda>(_, _, a, _). aid = None \<or> aid = Some a) (map placed (feed s))"
  by (simp add: log_def filter_map comp_def placed_def fixed_of_def about_def[abs_def])

lemma log_sorted: "sinv s \<Longrightarrow> sorted_wrt (<) (0 # map fst (log aid s))"
  using feed_sorted [of s]
  by (auto simp: log_def comp_def placed_def sorted_wrt_map intro: sorted_wrt_filter)

lemma run_log:
  assumes "store_run ops s t" and "sinv s"
  obtains more where "log aid t = log aid s @ more"
proof -
  obtain more where "map placed (feed t) = map placed (feed s) @ more"
    using run_grows [OF assms] by (auto simp: prefix_def)
  then show ?thesis
    using that by (simp add: log_filter)
qed

lemma run_read_upto:
  assumes "store_run ops s t" and "sinv s" and "read_upto aid s after n"
  shows "read_upto aid t after n"
proof -
  obtain more where "log aid t = log aid s @ more"
    using assms(1,2) by (rule run_log)
  with assms(3) show ?thesis by (simp add: read_upto_def)
qed

lemma changes_log:
  assumes "sinv s" and "read_upto aid s after n"
  shows "map placed (st_changes ops s after limit aid) = take (nat (max limit 0)) (drop n (log aid s))"
proof -
  have upto: "n \<le> length (log aid s)" and after: "after = last (0 # map fst (take n (log aid s)))"
    using assms(2) by (auto simp only: read_upto_def)
  have "filter (\<lambda>x. after < fst x) (log aid s) = drop n (log aid s)"
    unfolding after by (rule filter_after [OF log_sorted [OF assms(1)] upto])
  moreover have "filter (\<lambda>x. after < fst x) (log aid s) =
      map placed (filter (\<lambda>i. after < position i \<and> about aid i) (feed s))"
    by (simp add: log_def filter_map comp_def placed_def conj_commute)
  ultimately show ?thesis
    using assms by (simp add: changes_feed flip: take_map)
qed

lemma page_log:
  assumes sinv: "sinv s" and upto: "read_upto aid s after n" and cursor: "decode_cursor cursor = Inr after"
  obtains page m next_position where "proposal_changes_feed ops s cursor limit aid = Inr page"
    and "m = min (n + nat (min (max limit 1) MAX_LIMIT)) (length (log aid s))"
    and "map fixed_payload (pg_events page) = map snd (take (m - n) (drop n (log aid s)))"
    and "pg_next_cursor page = encode_cursor next_position" and "read_upto aid s next_position m"
proof -
  let ?b = "min (max limit 1) MAX_LIMIT"
  let ?items = "st_changes ops s after ?b aid"
  let ?m = "min (n + nat ?b) (length (log aid s))"
  let ?next = "if ?items \<noteq> [] then position (last ?items) else after"
  have n: "n \<le> length (log aid s)" using upto by (simp add: read_upto_def)
  have placed: "map placed ?items = take (?m - n) (drop n (log aid s))"
    using changes_log [OF sinv upto, of ?b] n by (auto simp: MAX_LIMIT_def min_def)
  then have fst_items: "map position ?items = map fst (take (?m - n) (drop n (log aid s)))"
    unfolding placed [symmetric] by (simp add: placed_def comp_def)
  have "n + (?m - n) = ?m" using n by simp
  then have "take ?m (log aid s) = take n (log aid s) @ take (?m - n) (drop n (log aid s))"
    using take_add [of n "?m - n" "log aid s"] by presburger
  then have read: "map fst (take ?m (log aid s)) = map fst (take n (log aid s)) @ map position ?items"
    by (simp only: map_append fst_items)
  have after: "last (0 # map fst (take n (log aid s))) = after"
    using upto unfolding read_upto_def by (elim conjE) (rule sym)
  have "last (0 # map fst (take ?m (log aid s))) = ?next"
    unfolding read last_Cons_append_map after by (rule refl)
  then have "read_upto aid s ?next ?m"
    unfolding read_upto_def by (intro conjI) (simp, rule sym)
  moreover have "map fixed_payload (map event_payload_of ?items) = map snd (take (?m - n) (drop n (log aid s)))"
    using arg_cong [OF placed, of "map snd"]
    by (simp add: placed_def comp_def fixed_payload_def event_payload_of_def fixed_of_def Let_def)
  ultimately show ?thesis
    using that [of "\<lparr>pg_reference = feed_reference aid, pg_next_cursor = encode_cursor ?next,
        pg_events = map event_payload_of ?items\<rparr>" ?m ?next] cursor
    by (simp add: proposal_changes_feed_def Let_def)
qed

lemma polled_run: "polled ops s polls \<Longrightarrow> sinv s \<Longrightarrow>
    sinv (last_state s polls) \<and> (\<exists>more. log aid (last_state s polls) = log aid s @ more)"
proof (induction polls arbitrary: s)
  case (Cons poll polls)
  obtain t limit where poll: "poll = (t, limit)" by force
  with Cons.prems have run: "store_run ops s t" and "polled ops t polls" by simp_all
  moreover have "sinv t" using run_grows [OF run] Cons.prems by blast
  moreover obtain more where "log aid t = log aid s @ more"
    using run_log [OF run] Cons.prems by blast
  ultimately show ?case
    using Cons.IH [of t] poll by auto
qed simp

text \<open>The reader sees the log of the last state, from where it started, without gap or repetition.\<close>

lemma follow_log:
  assumes "sinv s" and "polled ops s polls" and "read_upto aid s after n"
    and "decode_cursor cursor = Inr after"
    and "\<forall>i\<in>set (log aid (last_state s polls)). fst i < 10 ^ 18"
  shows "\<exists>c es m. follow ops aid polls cursor = Inr (c, es) \<and> n \<le> m \<and>
    map fixed_payload es = map snd (take (m - n) (drop n (log aid (last_state s polls)))) \<and>
    min (n + length polls) (length (log aid s)) \<le> m \<and> m \<le> length (log aid (last_state s polls))"
  using assms
proof (induction polls arbitrary: s after n cursor)
  case Nil
  then show ?case by (auto simp: read_upto_def)
next
  case (Cons poll polls)
  obtain t limit where poll: "poll = (t, limit)" by force
  with Cons.prems have run: "store_run ops s t" and polled: "polled ops t polls" by simp_all
  have sinv: "sinv t" using run_grows [OF run] Cons.prems(1) by blast
  obtain more where more: "log aid t = log aid s @ more"
    using run_log [OF run Cons.prems(1)] by blast
  obtain page k next_position where page: "proposal_changes_feed ops t cursor limit aid = Inr page"
    and k: "k = min (n + nat (min (max limit 1) MAX_LIMIT)) (length (log aid t))"
    and events: "map fixed_payload (pg_events page) = map snd (take (k - n) (drop n (log aid t)))"
    and next_cursor: "pg_next_cursor page = encode_cursor next_position"
    and upto: "read_upto aid t next_position k"
    using page_log [OF sinv run_read_upto [OF run Cons.prems(1,3)] Cons.prems(4)] by blast
  obtain rest where final: "log aid (last_state t polls) = log aid t @ rest"
    using polled_run [OF polled sinv] by blast
  have "0 \<le> next_position \<and> next_position < 10 ^ 18"
  proof -
    let ?p = "0 # map fst (take k (log aid t))"
    have "next_position \<in> set ?p"
      using upto unfolding read_upto_def by (metis last_in_set list.distinct(1))
    moreover have "\<forall>p\<in>set ?p. p < 10 ^ 18"
      using Cons.prems(5) poll final by (auto dest: in_set_takeD)
    moreover have "\<forall>p\<in>set ?p. 0 \<le> p"
      using log_sorted [OF sinv, of aid] by (auto dest!: in_set_takeD)
    ultimately show ?thesis by blast
  qed
  then have decoded: "decode_cursor (Some (pg_next_cursor page)) = Inr next_position"
    unfolding next_cursor by (intro decode_encode) simp_all
  have bounded: "\<forall>i\<in>set (log aid (last_state t polls)). fst i < 10 ^ 18"
    using Cons.prems(5) poll by simp
  then obtain c es m where rec: "follow ops aid polls (Some (pg_next_cursor page)) = Inr (c, es)" "k \<le> m"
    "map fixed_payload es = map snd (take (m - k) (drop k (log aid (last_state t polls))))"
    "min (k + length polls) (length (log aid t)) \<le> m" "m \<le> length (log aid (last_state t polls))"
    using Cons.IH [OF sinv polled upto decoded bounded] by blast
  have n: "n \<le> length (log aid t)"
    using Cons.prems(3) more by (simp add: read_upto_def)
  have nk: "n \<le> k" "k \<le> length (log aid t)" "min (n + 1) (length (log aid t)) \<le> k"
    using k n by (auto simp: MAX_LIMIT_def)
  have "take (m - n) (drop n xs) = take (k - n) (drop n xs) @ take (m - k) (drop k xs)" for xs :: "(int \<times> fixed_fields) list"
    using nk rec(2) take_add [of "k - n" "m - k" "drop n xs"] by simp
  moreover have "take (k - n) (drop n (log aid (last_state t polls))) = take (k - n) (drop n (log aid t))"
    using nk by (simp add: final)
  ultimately have "map fixed_payload (pg_events page @ es) =
      map snd (take (m - n) (drop n (log aid (last_state s (poll # polls)))))"
    using events rec(3) poll by simp
  moreover have "min (n + length (poll # polls)) (length (log aid s)) \<le> m"
    using nk rec(2,4) more by auto
  ultimately show ?case
    using page rec nk poll by (intro exI [of _ c] exI [of _ "pg_events page @ es"] exI [of _ m]) simp
qed

end


section \<open>Both stores keep the promise\<close>

lemma numbered_zip: "numbered n es = zip (map (\<lambda>i. n + int i) [0..<length es]) es"
  by (metis map_fst_numbered map_snd_numbered zip_map_fst_snd)

lemma counted_numbered:
  assumes "counted (map f xs)"
  shows "map (\<lambda>x. (f x, g x)) xs = numbered 1 (map g xs)"
proof -
  have "map f xs = map (\<lambda>i. 1 + int i) [0..<length xs]"
    using assms by (simp add: counted_def map_Suc_upt [symmetric] comp_def add.commute del: upt_Suc)
  then have "numbered 1 (map g xs) = zip (map f xs) (map g xs)"
    by (simp add: numbered_zip)
  then show ?thesis by (simp add: zip_map_map zip_same_conv_map)
qed

lemma mem_feed_insert: "mem_insert s p = Inr s' \<Longrightarrow> prefix (map placed (ms_feed s)) (map placed (ms_feed s'))"
proof -
  have "prefix feed (append_history q n es feed)" for q :: "'a proposal" and n es feed
    by (induction q n es feed rule: append_history.induct)
      (auto simp: append_feed_def Let_def intro: prefix_order.trans append_prefixD)
  moreover assume "mem_insert s p = Inr s'"
  ultimately show ?thesis
    by (auto simp: mem_insert_def split: if_splits intro!: map_mono_prefix)
qed

lemma mem_feed_update: "mem_update s p x e = (b, s') \<Longrightarrow> prefix (map placed (ms_feed s)) (map placed (ms_feed s'))"
  by (auto simp: mem_update_def append_feed_def Let_def split: option.splits if_splits)

lemma mem_feed_sorted: "feed_positions feed \<Longrightarrow> sorted_wrt (<) (0 # map position feed)"
  by (auto simp: feed_positions_def sorted_wrt_map sorted_wrt_append simp del: upt_Suc)

interpretation mem_feed: proposal_feed mem_ops mem_inv ms_feed
proof (unfold_locales, unfold mem_ops_simps, goal_cases)
  case (1 s)
  then show ?case by (intro mem_feed_sorted) (simp add: mem_inv_def)
next
  case (2 s after limit aid)
  have "about aid = (\<lambda>i. aid = None \<or> aid = Some (fe_action_id i))"
    by (rule ext) (simp add: about_def)
  then show ?case by (simp add: mem_changes_def py_slice_to_def)
next
  case (3 s a)
  then show ?case by (simp add: mem_inv_def feed_of_def)
next
  case (4 s p s')
  then show ?case by (simp add: mem_feed_insert)
next
  case (5 s p x e b s')
  then show ?case by (simp add: mem_feed_update)
qed

definition sql_feed :: "'v sql_db \<Rightarrow> feed_event list" where
  "sql_feed db = concat (map (feed_row db) (db_events db))"

definition row_placed :: "event_columns \<Rightarrow> int \<times> fixed_fields" where
  "row_placed r = (er_feed_position r, er_event_id r, er_action_id r, er_sequence r, deserialize_event r)"

lemma feed_row_single:
  assumes "sql_inv db" and "r \<in> set (db_events db)"
  obtains i where "feed_row db r = [i]" and "placed i = row_placed r"
proof -
  obtain p where p: "p \<in> set (db_proposals db)" "pr_action_id p = er_action_id r"
    using assms by (force simp: sql_inv_def)
  then have "filter (\<lambda>p. pr_action_id p = er_action_id r) (db_proposals db) = [p]"
    using assms by (intro filter_one_row [where key = pr_action_id]) (auto simp: sql_inv_def)
  then show ?thesis
    using that by (simp add: feed_row_def placed_def fixed_of_def row_placed_def)
qed

lemma concat_single: "(\<And>x. x \<in> set xs \<Longrightarrow> \<exists>y. f x = [y] \<and> g y = h x) \<Longrightarrow> map g (concat (map f xs)) = map h xs"
  by (induction xs) fastforce+

lemma sql_feed_placed: "sql_inv db \<Longrightarrow> map placed (sql_feed db) = map row_placed (db_events db)"
  unfolding sql_feed_def by (rule concat_single) (metis feed_row_single)

lemma sql_feed_field:
  assumes "sql_inv db"
  shows "map position (sql_feed db) = map er_feed_position (db_events db)"
    and "map fe_action_id (sql_feed db) = map er_action_id (db_events db)"
  using arg_cong [OF sql_feed_placed [OF assms], of "map fst"]
    arg_cong [OF sql_feed_placed [OF assms], of "map (fst \<circ> snd \<circ> snd)"]
  by (simp_all add: placed_def fixed_of_def row_placed_def comp_def)

lemma filter_concat_rows:
  "filter (\<lambda>i. after < position i \<and> about aid i) (concat (map (feed_row db) rs)) =
   concat (map (feed_row db) (filter (\<lambda>r. er_feed_position r > after \<and>
     (aid = None \<or> aid = Some (er_action_id r))) rs))"
proof (induction rs)
  case (Cons r rs)
  have "\<forall>i\<in>set (feed_row db r). position i = er_feed_position r \<and> fe_action_id i = er_action_id r"
    by (auto simp: feed_row_def)
  then have "filter (\<lambda>i. after < position i \<and> about aid i) (feed_row db r) =
      (if er_feed_position r > after \<and> (aid = None \<or> aid = Some (er_action_id r)) then feed_row db r else [])"
    by (auto simp: about_def filter_empty_conv intro!: filter_True)
  with Cons show ?case by auto
qed simp

lemma sql_changes_feed:
  assumes "sql_inv db"
  shows "sql_changes db after limit aid =
    take (nat (max limit 0)) (filter (\<lambda>i. after < position i \<and> about aid i) (sql_feed db))"
proof -
  have "sorted (map position (sql_feed db))"
    using assms strict_sorted_imp_sorted [of "0 # map er_feed_position (db_events db)"]
    by (simp add: sql_feed_field sql_inv_def feed_line_def)
  then have "sort_key position (filter (\<lambda>i. after < position i \<and> about aid i) (sql_feed db)) =
      filter (\<lambda>i. after < position i \<and> about aid i) (sql_feed db)"
    by (intro sort_key_id_if_sorted sorted_filter)
  then show ?thesis
    by (simp add: sql_changes_def sql_feed_def filter_concat_rows)
qed

lemma with_events_prefix: "prefix (map row_placed (db_events db)) (map row_placed (db_events (with_events db aid es)))"
  by (simp add: with_events_def Let_def)

lemma sql_feed_insert:
  assumes sinv: "sql_inv db" and ok: "sql_insert db p = Inr db'"
  shows "prefix (map placed (sql_feed db)) (map placed (sql_feed db'))"
proof -
  let ?db1 = "db\<lparr>db_proposals := db_proposals db @ [proposal_row p]\<rparr>"
  have "db' = (if history p = [] then ?db1 else with_events ?db1 (action_id p) (history p))"
    using sql_insert_with [OF assms] by blast
  then have "prefix (map row_placed (db_events db)) (map row_placed (db_events db'))"
    using with_events_prefix [of ?db1 "action_id p" "history p"] by simp
  then show ?thesis
    using sinv sql_insert_result [OF assms] by (simp add: sql_feed_placed)
qed

lemma sql_feed_update:
  assumes sinv: "sql_inv db" and upd: "sql_update db p x e = (b, db')"
  shows "prefix (map placed (sql_feed db)) (map placed (sql_feed db'))"
proof (cases "\<exists>q. sql_get db (action_id p) = Some q \<and> status q = x")
  case True
  then obtain q where q: "sql_get db (action_id p) = Some q" "status q = x" by blast
  then have "db' = (case e of None \<Rightarrow> rewritten db p x | Some ev \<Rightarrow> with_events (rewritten db p x) (action_id p) [ev])"
    and inv': "sql_inv db'"
    using upd sql_update_hit [OF sinv q] sql_update_result [OF sinv q] by force+
  then have "prefix (map row_placed (db_events db)) (map row_placed (db_events db'))"
    using with_events_prefix [of "rewritten db p x" "action_id p"]
    by (auto simp: rewritten_def split: option.splits)
  then show ?thesis
    using sinv inv' by (simp add: sql_feed_placed)
next
  case False
  with sql_update_miss [OF sinv, of p x e] upd show ?thesis by auto
qed

interpretation sql_feed: proposal_feed sql_ops sql_inv sql_feed
proof (unfold_locales, unfold sql_ops_simps, goal_cases)
  case (1 s)
  then show ?case by (simp add: sql_feed_field sql_inv_def feed_line_def)
next
  case (2 s after limit aid)
  then show ?case by (rule sql_changes_feed)
next
  case (3 s a)
  have "map seq_event (filter (\<lambda>i. fe_action_id i = a) (sql_feed s)) =
      map (\<lambda>(_, _, _, n, e). (n, e)) (filter (\<lambda>(_, _, b, _). b = a) (map placed (sql_feed s)))"
    by (simp add: filter_map comp_def placed_def fixed_of_def seq_event_def[abs_def])
  also have "\<dots> = map (\<lambda>r. (er_sequence r, deserialize_event r)) (own_events s a)"
    using 3 by (simp add: sql_feed_placed filter_map comp_def row_placed_def own_events_def)
  also have "\<dots> = numbered 1 (map deserialize_event (own_events s a))"
    using 3 by (intro counted_numbered) (simp add: sql_inv_def)
  also have "map deserialize_event (own_events s a) = (case sql_get s a of None \<Rightarrow> [] | Some p \<Rightarrow> history p)"
  proof (cases "sql_get s a")
    case None
    with 3 have "own_events s a = []"
      by (auto simp: sql_get_None [OF 3] own_events_def filter_empty_conv sql_inv_def)
    with None show ?thesis by simp
  next
    case (Some p)
    then obtain r where "p = deserialize_proposal r (own_events s a)"
      by (auto simp: sql_get_iff [OF 3])
    with Some show ?thesis by simp
  qed
  finally show ?case .
next
  case (4 s p s')
  then show ?case by (rule sql_feed_insert)
next
  case (5 s p x e b s')
  then show ?case by (rule sql_feed_update)
qed

section \<open>The registry's methods are runs\<close>

lemma store_run_trans: "store_run ops t u \<Longrightarrow> store_run ops s t \<Longrightarrow> store_run ops s u"
proof (induction rule: store_run.induct)
  case (inserted s' t p u)
  show ?case by (rule store_run.inserted [OF inserted.IH [OF inserted.prems] inserted.hyps(2)])
next
  case (updated s' t p x e)
  show ?case by (rule store_run.updated [OF updated.IH [OF updated.prems]])
qed

definition gaps_run :: "('s, 'v) store_ops \<Rightarrow> 's gaps \<Rightarrow> bool" where
  "gaps_run ops gap \<longleftrightarrow> (\<forall>i s. store_run ops s (gap i s))"

lemma gap_run: "gaps_run ops gap \<Longrightarrow> store_run ops s t \<Longrightarrow> store_run ops s (gap i t)"
  unfolding gaps_run_def by (rule store_run_trans) simp_all

lemma resolve_run:
  assumes "gaps_run ops gap"
  shows "store_run ops s (snd (resolve ops gap now s aid kind by reason auth))"
proof (cases "require_pending ops (gap 0 s) aid")
  case (Inl e)
  then show ?thesis
    unfolding resolve_def Let_def case_prod_beta by (simp add: gap_run [OF assms] store_run.idle)
next
  case (Inr p)
  then show ?thesis
    unfolding resolve_def Let_def case_prod_beta by (simp add: gap_run [OF assms] store_run.idle store_run.updated)
qed

lemma revert_run:
  assumes "gaps_run ops gap"
  shows "store_run ops s (snd (revert_failed_release ops gap now s aid resolution reason))"
  unfolding revert_failed_release_def Let_def case_prod_beta
  by (simp split: sum.split) (intro allI conjI impI gap_run [OF assms] store_run.updated store_run.idle)

lemma refresh_run:
  assumes "gaps_run ops gap" and "store_run ops s t"
  shows "store_run ops s (snd (refresh ops gap i now t existing vd val md actor auth))"
  unfolding refresh_def Let_def case_prod_beta snd_conv
  by (intro gap_run [OF assms(1)] store_run.updated assms(2))

lemma replay_run:
  assumes "gaps_run ops gap" and "store_run ops s t"
  shows "store_run ops s (snd (replay_idempotent ops gap i now t existing d))"
  unfolding replay_idempotent_def by (simp add: assms refresh_run)

lemma reopen_run:
  assumes "gaps_run ops gap" and "store_run ops s t"
  shows "store_run ops s (snd (reopen ops gap i t existing reopened auth))"
  unfolding reopen_def Let_def case_prod_beta
  by (simp split: sum.split) (intro allI conjI impI gap_run [OF assms(1)] store_run.updated assms(2))

lemma insert_draft_run:
  assumes g: "gaps_run ops gap" and s: "store_run ops s t"
  shows "store_run ops s (snd (insert_draft ops gap i now now2 t aid d))"
  unfolding insert_draft_def Let_def
  by (simp split: sum.split option.split)
    (intro allI conjI impI gap_run [OF g] replay_run [OF g] s | rule store_run.inserted [OF gap_run [OF g s]] | assumption)+

lemma register_new_run:
  assumes g: "gaps_run ops gap" and s: "store_run ops s t"
  shows "store_run ops s (snd (register_new ops gap i now now2 uid t d))"
  unfolding register_new_def Let_def
  by (simp split: option.split add: refresh_run insert_draft_run reopen_run gap_run [OF g] g s)

lemma register_run:
  assumes g: "gaps_run ops gap"
  shows "store_run ops s (snd (register ops gap now now2 uid s d))"
  unfolding register_def Let_def
  by (simp split: option.split add: register_new_run replay_run gap_run [OF g] g store_run.idle)

end
