(* ===== verification/ProposalRefine.thy ===== *)
theory ProposalRefine
  imports ProposalFeed
begin

text \<open>
  Two stores that keep the contract cannot be told apart by an undisturbed caller: from states that
  hold the same proposals, every method of the registry returns the same and leads to states that
  hold the same again.  The in-process store and the SQL store are such a pair.
\<close>

locale store_pair =
  left: proposal_store opsl invl + right: proposal_store opsr invr
  for opsl :: "('s, 'v) store_ops" and invl and opsr :: "('t, 'v) store_ops" and invr
begin

definition agree :: "'s \<Rightarrow> 't \<Rightarrow> bool" where
  "agree s t \<longleftrightarrow> invl s \<and> invr t \<and> st_get opsl s = st_get opsr t"

lemma agree_find: "agree s t \<Longrightarrow> st_find opsl s k = st_find opsr t k"
proof -
  assume a: "agree s t"
  then have "st_find opsl s k = Some p \<longleftrightarrow> st_find opsr t k = Some p" for p
    using left.find_get right.find_get by (simp add: agree_def)
  then show ?thesis by (metis not_Some_eq)
qed

lemma agree_update:
  assumes "agree s t"
  obtains b s' t' where "st_update opsl s p x e = (b, s')" "st_update opsr t p x e = (b, t')" "agree s' t'"
proof (cases "\<exists>q. st_get opsl s (action_id p) = Some q \<and> status q = x")
  case True
  then obtain q where "st_get opsl s (action_id p) = Some q" "status q = x" by blast
  with assms show ?thesis
    using left.update_hit [of s p q x e] right.update_hit [of t p q x e] that
    by (auto simp: agree_def)
next
  case False
  with assms show ?thesis
    using left.update_miss [of s p x e] right.update_miss [of t p x e] that [of False s t]
    by (auto simp: agree_def)
qed

lemma agree_insert:
  assumes "agree s t" and "st_get opsl s (action_id p) = None"
    and "\<And>k. idempotency_key p = Some k \<Longrightarrow> st_find opsl s k = None"
  obtains s' t' where "st_insert opsl s p = Inr s'" "st_insert opsr t p = Inr t'" "agree s' t'"
proof -
  have inv: "invl s" "invr t" and get: "st_get opsl s = st_get opsr t"
    using assms(1) by (auto simp: agree_def)
  obtain s' where s': "st_insert opsl s p = Inr s'"
    using left.insert_free [OF inv(1) assms(2,3)] by blast
  obtain t' where t': "st_insert opsr t p = Inr t'"
    using right.insert_free [of t p] assms(2,3) inv(2) get agree_find [OF assms(1)] by auto
  have "agree s' t'"
    using left.insert_inv [OF inv(1) s'] right.insert_inv [OF inv(2) t']
      left.insert_get [OF inv(1) s'] right.insert_get [OF inv(2) t'] get by (simp add: agree_def)
  with s' t' show ?thesis using that by blast
qed

lemma agree_require: "agree s t \<Longrightarrow> require opsl s aid = require opsr t aid"
  by (simp add: require_def agree_def)

lemma agree_resolve:
  assumes "agree s t"
  shows "\<exists>r s' t'. resolve opsl no_gap now s aid kind by reason auth = (r, s') \<and>
    resolve opsr no_gap now t aid kind by reason auth = (r, t') \<and> agree s' t'"
proof (cases "require_pending opsl s aid")
  case (Inl err)
  with assms show ?thesis
    by (simp add: resolve_def no_gap_def require_pending_def agree_require)
next
  case (Inr p)
  then have Inr': "require_pending opsr t aid = Inr p"
    using assms by (simp add: require_pending_def agree_require)
  let ?p = "resolved_copy now kind by (clean_reason reason) p"
  let ?e = "resolution_event now kind by (clean_reason reason) auth"
  obtain b s' t' where "st_update opsl s ?p Pending (Some ?e) = (b, s')"
    "st_update opsr t ?p Pending (Some ?e) = (b, t')" "agree s' t'"
    using agree_update [OF assms] by blast
  with Inr Inr' show ?thesis
    by (simp add: resolve_def no_gap_def Let_def agree_require)
qed

lemma agree_revert:
  assumes "agree s t"
  shows "\<exists>r s' t'. revert_failed_release opsl no_gap now s aid x reason = (r, s') \<and>
    revert_failed_release opsr no_gap now t aid x reason = (r, t') \<and> agree s' t'"
proof (cases "require opsl s aid")
  case (Inl err)
  with assms show ?thesis
    by (simp add: revert_failed_release_def no_gap_def agree_require [symmetric, OF assms])
next
  case (Inr p)
  let ?e = "\<lparr>ev_kind = Release_failed, ev_at = now, ev_actor = None,
      ev_reason = clean_reason (Some reason), ev_actor_auth_provider = None\<rparr>"
  obtain b s' t' where "st_update opsl s (reverted_copy p) x (Some ?e) = (b, s')"
    "st_update opsr t (reverted_copy p) x (Some ?e) = (b, t')" "agree s' t'"
    using agree_update [OF assms] by blast
  with Inr assms show ?thesis
    by (simp add: revert_failed_release_def no_gap_def Let_def agree_require)
qed

lemma agree_refresh:
  assumes "agree s t"
  shows "\<exists>r s' t'. refresh opsl no_gap i now s p vd val md actor auth = (r, s') \<and>
    refresh opsr no_gap i now t p vd val md actor auth = (r, t') \<and> agree s' t'"
proof -
  let ?p = "p\<lparr>verdict := vd, prop_value := val, prop_metadata := (case md of None \<Rightarrow> Map.empty | Some m \<Rightarrow> m)\<rparr>"
  let ?e = "if verdict p \<noteq> vd \<or> prop_value p \<noteq> val then Some \<lparr>ev_kind = Refreshed, ev_at = now,
      ev_actor = actor, ev_reason = None, ev_actor_auth_provider = auth\<rparr> else None"
  obtain b s' t' where "st_update opsl s ?p Pending ?e = (b, s')" "st_update opsr t ?p Pending ?e = (b, t')" "agree s' t'"
    using agree_update [OF assms] by blast
  then show ?thesis
    by (simp add: refresh_def no_gap_def Let_def agree_require)
qed

lemma agree_replay:
  assumes "agree s t"
  shows "\<exists>r s' t'. replay_idempotent opsl no_gap i now s p d = (r, s') \<and>
    replay_idempotent opsr no_gap i now t p d = (r, t') \<and> agree s' t'"
  unfolding replay_idempotent_def using assms agree_refresh [OF assms] by auto

lemma agree_reopen:
  assumes "agree s t"
  shows "\<exists>r s' t'. reopen opsl no_gap i s p q auth = (r, s') \<and> reopen opsr no_gap i t p q auth = (r, t') \<and> agree s' t'"
proof -
  let ?e = "\<lparr>ev_kind = Reopened, ev_at = created_at q, ev_actor = created_by q,
      ev_reason = Some (''Re-raised after it was '' @ status_text (status p) @ ''.''),
      ev_actor_auth_provider = auth\<rparr>"
  obtain b s' t' where "st_update opsl s q (status p) (Some ?e) = (b, s')"
    "st_update opsr t q (status p) (Some ?e) = (b, t')" "agree s' t'"
    using agree_update [OF assms] by blast
  then show ?thesis
    by (cases b; cases "require opsr t' (action_id p)")
      (simp_all add: reopen_def no_gap_def Let_def agree_require)
qed

lemma agree_register_new:
  assumes "agree s t" and key: "\<And>k. d_idempotency_key d = Some k \<Longrightarrow> st_find opsl s k = None"
  shows "\<exists>r s' t'. register_new opsl no_gap i now now2 uid s d = (r, s') \<and>
    register_new opsr no_gap i now now2 uid t d = (r, t') \<and> agree s' t'"
proof (cases "st_get opsl s (resolved_action_id uid d)")
  case None
  let ?aid = "resolved_action_id uid d"
  let ?p = "(new_proposal now ?aid (d_idempotency_key d) d)
      \<lparr>history := [drafted_event now (d_created_by d) (d_actor_auth_provider d)]\<rparr>"
  have id: "action_id ?p = ?aid" "idempotency_key ?p = d_idempotency_key d"
    by (simp_all add: new_proposal_def)
  obtain s' t' where "st_insert opsl s ?p = Inr s'" "st_insert opsr t ?p = Inr t'" "agree s' t'"
    using agree_insert [OF assms(1), of ?p] None key id by auto
  moreover have "st_get opsr t ?aid = None" using None assms(1) by (simp add: agree_def)
  ultimately show ?thesis
    using None by (simp add: register_new_def insert_draft_def no_gap_def Let_def agree_require)
next
  case (Some p)
  moreover have "st_get opsr t (resolved_action_id uid d) = Some p"
    using Some assms(1) by (simp add: agree_def)
  ultimately show ?thesis
    using agree_refresh [OF assms(1)] agree_reopen [OF assms(1)] assms(1)
    by (simp add: register_new_def no_gap_def Let_def)
qed

lemma agree_register:
  assumes "agree s t"
  shows "\<exists>r s' t'. register opsl no_gap now now2 uid s d = (r, s') \<and>
    register opsr no_gap now now2 uid t d = (r, t') \<and> agree s' t'"
proof (cases "d_idempotency_key d")
  case None
  with agree_register_new [OF assms, of d] show ?thesis
    by (simp add: register_def)
next
  case (Some k)
  show ?thesis
  proof (cases "st_find opsl s k")
    case None
    with Some assms agree_register_new [OF assms, of d] show ?thesis
      by (simp add: register_def no_gap_def agree_find [symmetric, OF assms])
  next
    case (Some p)
    with \<open>d_idempotency_key d = Some k\<close> agree_replay [OF assms] show ?thesis
      by (simp add: register_def no_gap_def agree_find [symmetric, OF assms])
  qed
qed

end

interpretation mem_sql: store_pair mem_ops mem_inv sql_ops sql_inv
  by unfold_locales

end
