(* ===== verification/ProposalClaims.thy ===== *)
theory ProposalClaims
  imports ProposalRefine
begin

text \<open>
  What the approval queue guarantees, over the durable store.  Each guarantee is the contract's
  lemma at the interpretation of the SQL store; its witness runs it on a small queue.
\<close>

section \<open>A small queue\<close>

definition demo_draft :: "string option \<Rightarrow> nat draft" where
  "demo_draft key = \<lparr>d_policy_id = ''p1'', d_policy_name = ''Heat'', d_verdict = ''warn'', d_value = None,
     d_notification_id = None, d_adapter = ADAPTER_PLATFORM, d_source_kind = From_agent,
     d_source_key = None, d_source_summary = None, d_created_by = Some ''bot'', d_metadata = None,
     d_action_id = None, d_provenance = None, d_idempotency_key = key,
     d_actor_auth_provider = Some ''service_token'', d_reopen_resolved = False\<rparr>"

definition demo_db :: "nat sql_db" where
  "demo_db = snd (register sql_ops no_gap 10 11 ''x'' empty_db (demo_draft (Some ''k'')))"

definition demo_resolver :: resolver where
  "demo_resolver = \<lparr>rv_now = 20, rv_kind = Approved, rv_by = Some ''ann'', rv_reason = None, rv_auth = None\<rparr>"

lemma demo_status: "map_option status (sql_get demo_db ''agent_k'') = Some Pending"
  by code_simp

lemma demo_queue_inv: "sql_inv demo_db \<and> wf_store sql_ops demo_db"
proof -
  have "wf_store sql_ops (empty_db :: nat sql_db)"
    by (simp add: wf_store_def sql_get_def load_action_proposals_def first_of_def empty_db_def)
  from sql.register_kept [OF sql_inv_empty this calm_no_gap]
  show ?thesis by (simp add: demo_db_def kept_def)
qed

lemma clean_reason_None [simp]: "clean_reason None = None"
  by (simp add: clean_reason_def)

lemma resolved_copy_status [simp]: "status (resolved_copy now kind by r p) = kind"
  by (simp add: resolved_copy_def Let_def)

lemma demo_resolved:
  obtains p q t where "sql_get demo_db ''agent_k'' = Some p"
    "resolve sql_ops no_gap 20 demo_db ''agent_k'' Approved (Some ''ann'') None None = (Inr q, t)"
    "sql_inv t" "sql_get t ''agent_k'' = Some q" "status q = Approved"
    "history q = history p @ [resolution_event 20 Approved (Some ''ann'') None None]"
proof -
  obtain p where p: "st_get sql_ops demo_db ''agent_k'' = Some p" "status p = Pending"
    using demo_status by (cases "sql_get demo_db ''agent_k''") auto
  then show ?thesis
  proof (rule sql.resolve_fresh [OF conjunct1 [OF demo_queue_inv]])
    fix q t
    assume "resolve sql_ops no_gap 20 demo_db ''agent_k'' Approved (Some ''ann'') None None = (Inr q, t)"
      and "sql_inv t" and "st_get sql_ops t = (st_get sql_ops demo_db)(''agent_k'' \<mapsto> q)"
      and "q = committed p (resolved_copy 20 Approved (Some ''ann'') (clean_reason None) p)
        (Some (resolution_event 20 Approved (Some ''ann'') (clean_reason None) None))"
    with p that [of p q t] show ?thesis by simp
  qed
qed

section \<open>Resolution\<close>

text \<open>C1: however the pending reads and the compare-and-sets of any number of concurrent approvals
  and dismissals of one pending proposal interleave on the SQL store, with writers that leave its
  status alone in between,
  exactly one of them has won once any of them is over.\<close>
theorem one_resolution_wins:
  assumes "race_reach sql_ops sql_inv aid v s c" and "sql_inv s"
    and "race_status sql_ops aid s = Some Pending"
    and "\<And>i. rv_kind (v i) \<noteq> Pending" and "rc_pcs c i \<in> {Won, Lost}"
  shows "\<exists>!j. rc_pcs c j = Won"
  using assms by (rule sql.race_one_winner)

lemma demo_race: "\<exists>c. race_reach sql_ops sql_inv ''agent_k'' (\<lambda>_. demo_resolver) demo_db c \<and> rc_pcs c 7 \<in> {Won, Lost}"
proof -
  let ?v = "\<lambda>_::nat. demo_resolver"
  obtain p where p: "sql_get demo_db ''agent_k'' = Some p" "status p = Pending"
    using demo_status by (cases "sql_get demo_db ''agent_k''") auto
  let ?c0 = "\<lparr>rc_store = demo_db, rc_pcs = \<lambda>_. Starting\<rparr> :: (nat sql_db, nat) race"
  let ?c1 = "?c0\<lparr>rc_pcs := (rc_pcs ?c0)(7 := Has_read p)\<rparr>"
  have r1: "race_reach sql_ops sql_inv ''agent_k'' ?v demo_db ?c1"
    using p by (intro race_reach.step [OF race_reach.start] race_step.read)
      (simp_all add: resolve_read_def require_pending_def require_def)
  obtain ok t where w: "resolve_write sql_ops demo_db demo_resolver p = (ok, t)"
    by (cases "resolve_write sql_ops demo_db demo_resolver p")
  have r2: "race_step sql_ops sql_inv ''agent_k'' ?v ?c1
      (?c1\<lparr>rc_store := t, rc_pcs := (rc_pcs ?c1)(7 := (if ok then Won else Lost))\<rparr>)"
    by (rule race_step.attempt [where c = ?c1 and i = 7 and p = p]) (simp_all add: w)
  have "race_reach sql_ops sql_inv ''agent_k'' ?v demo_db
      (?c1\<lparr>rc_store := t, rc_pcs := (rc_pcs ?c1)(7 := (if ok then Won else Lost))\<rparr>)"
    by (rule race_reach.step [OF r1 r2])
  moreover have "rc_pcs (?c1\<lparr>rc_store := t, rc_pcs := (rc_pcs ?c1)(7 := (if ok then Won else Lost))\<rparr>) 7 \<in> {Won, Lost}"
    by simp
  ultimately show ?thesis by (intro exI conjI)
qed

theorem one_resolution_wins_witness:
  "\<exists>c. race_reach sql_ops sql_inv ''agent_k'' (\<lambda>_. demo_resolver) demo_db c \<and> (\<exists>!j. rc_pcs c j = Won)"
proof -
  obtain c where c: "race_reach sql_ops sql_inv ''agent_k'' (\<lambda>_. demo_resolver) demo_db c"
    "rc_pcs c 7 \<in> {Won, Lost}"
    using demo_race by blast
  have "race_status sql_ops ''agent_k'' demo_db = Some Pending"
    using demo_status by (simp add: race_status_def)
  then have "\<exists>!j. rc_pcs c j = Won"
    using demo_queue_inv by (intro one_resolution_wins [OF c(1) _ _ _ c(2)]) (auto simp: demo_resolver_def)
  with c(1) show ?thesis by blast
qed

text \<open>C2: a call of approve or dismiss that returns has found the proposal pending, set it to
  exactly the requested status with one matching history event, and what it returns is the stored
  proposal, its history extending the committed one; all this with any well-behaved writers
  between its store calls.\<close>
theorem resolution_commits:
  assumes "sql_inv s" and "wf_store sql_ops s" and "calm sql_ops sql_inv gap" and "kind \<noteq> Pending"
    and "resolve sql_ops gap now s aid kind by reason auth = (Inr (q :: 'v proposal), t)"
  shows "\<exists>p (r :: 'v proposal). sql_get (gap 1 (gap 0 s)) aid = Some p \<and> status p = Pending \<and> status r = kind \<and>
    history r = history p @ [resolution_event now kind by (clean_reason reason) auth] \<and>
    sql_get t aid = Some q \<and> prefix (history r) (history q)"
proof -
  obtain p r u where "st_get sql_ops (gap 1 (gap 0 s)) aid = Some p" "status p = Pending"
    "st_get sql_ops u aid = Some r" "status r = kind"
    "history r = history p @ [resolution_event now kind by (clean_reason reason) auth]"
    "t = gap 2 u" "st_get sql_ops t aid = Some q" "prefix (history r) (history q)"
    by (rule sql.resolve_won [OF assms])
  then show ?thesis
    unfolding sql_ops_simps by blast
qed

theorem resolution_commits_witness:
  "\<exists>q t. resolve sql_ops no_gap 20 demo_db ''agent_k'' Approved (Some ''ann'') None None = (Inr q, t) \<and>
     sql_get t ''agent_k'' = Some q \<and> last (map ev_kind (history q)) = Was_approved"
proof -
  obtain p q t where res: "sql_get demo_db ''agent_k'' = Some p"
    "resolve sql_ops no_gap 20 demo_db ''agent_k'' Approved (Some ''ann'') None None = (Inr q, t)"
    "sql_inv t" "sql_get t ''agent_k'' = Some q" "status q = Approved"
    "history q = history p @ [resolution_event 20 Approved (Some ''ann'') None None]"
    by (rule demo_resolved)
  with resolution_commits [OF _ _ calm_no_gap _ res(2)] demo_queue_inv show ?thesis
    by (auto simp: resolution_event_def)
qed

section \<open>Lifecycle\<close>

text \<open>C3: drafting, resolving and reverting keep the SQL store: its invariant, the lifecycle of every
  proposal (history and status agree with the allowed event sequences, resolution fields are set
  exactly when resolved), and the past (no proposal vanishes, no history is rewritten, no key
  changes).  This holds with any writers between the store calls that keep the same.\<close>
theorem queue_lifecycle_kept:
  assumes "sql_inv s" and "wf_store sql_ops s" and "calm sql_ops sql_inv gap"
  shows "kept sql_ops sql_inv s (snd (register sql_ops gap now now2 uid s d)) \<and>
    (kind \<noteq> Pending \<longrightarrow>
       kept sql_ops sql_inv s (snd (resolve sql_ops gap now s aid kind by reason auth)) \<and>
       kept sql_ops sql_inv s (snd (revert_failed_release sql_ops gap now s aid kind why)))"
  using assms by (simp add: sql.register_kept sql.resolve_kept sql.revert_kept)

theorem queue_lifecycle_kept_witness:
  "kept sql_ops sql_inv demo_db (snd (revert_failed_release sql_ops no_gap 5 demo_db ''agent_k'' Approved ''x''))"
  using queue_lifecycle_kept [where s = demo_db and gap = no_gap and now = 5 and aid = "''agent_k''"
      and kind = Approved and why = "''x''"] demo_queue_inv calm_no_gap by blast

text \<open>C7: a proposal an operator has resolved stays as it is, byte for byte, under any later draft
  that does not ask to re-open it, even when other such drafts run in between.\<close>
theorem resolved_stays:
  assumes "\<And>i s. stands sql_ops sql_inv a p s \<Longrightarrow> stands sql_ops sql_inv a p (gap i s)"
    and "stands sql_ops sql_inv a p s" and "\<not> d_reopen_resolved d"
  shows "stands sql_ops sql_inv a p (snd (register sql_ops gap now now2 uid s d))"
  using assms by (rule sql.stands_register)

theorem resolved_stays_witness:
  "\<exists>q t. stands sql_ops sql_inv ''agent_k'' q t \<and> stands sql_ops sql_inv ''agent_k'' q
     (snd (register sql_ops no_gap 30 31 ''z'' t (demo_draft (Some ''k''))))"
proof -
  obtain p q t where res: "sql_get demo_db ''agent_k'' = Some p"
    "resolve sql_ops no_gap 20 demo_db ''agent_k'' Approved (Some ''ann'') None None = (Inr q, t)"
    "sql_inv t" "sql_get t ''agent_k'' = Some q" "status q = Approved"
    "history q = history p @ [resolution_event 20 Approved (Some ''ann'') None None]"
    by (rule demo_resolved)
  then have "stands sql_ops sql_inv ''agent_k'' q t" by (simp add: stands_def)
  moreover from this have "stands sql_ops sql_inv ''agent_k'' q
     (snd (register sql_ops no_gap 30 31 ''z'' t (demo_draft (Some ''k''))))"
    by (rule resolved_stays [rotated]) (simp_all add: no_gap_def demo_draft_def)
  ultimately show ?thesis by blast
qed

section \<open>Drafting\<close>






text \<open>the columns of a proposal row hold all of a proposal but its history: mapping it to a row and
  back, with its event rows, gives the proposal again.\<close>
theorem proposal_row_roundtrip:
  "deserialize_proposal (proposal_row p) (map (\<lambda>(i, e). event_row u (action_id p) i e pos) (numbered 1 (history p))) = p"
  by (simp add: deserialize_proposal_row comp_def case_prod_beta)

section \<open>The feed\<close>

text \<open>C4: a reader that starts at the beginning of the changes feed and follows \<open>next_cursor\<close>, page
  size by page size, over states of the SQL store that any writes lie between, gets the queue's
  history events in the order of the log, each of them once and none left out: what it has read is
  a prefix of the last state's log, and every page brings it on while there is something to read.
  Positions stay below \<open>10\<^sup>1\<^sup>8\<close>, where a cursor stops being readable.\<close>
theorem feed_read_exactly_once:
  assumes "sql_inv s" and "polled sql_ops s polls"
    and "\<forall>i\<in>set (sql_feed (last_state s polls)). position i < 10 ^ 18"
  shows "\<exists>c es m. follow sql_ops aid polls None = Inr (c, es) \<and>
    map fixed_payload es = take m (map fixed_of (filter (about aid) (sql_feed (last_state s polls)))) \<and>
    length es = m \<and> min (length polls) (length (filter (about aid) (sql_feed s))) \<le> m"
proof -
  have "sql_feed.read_upto aid s 0 0" by (simp add: sql_feed.read_upto_def)
  moreover have "\<forall>i\<in>set (sql_feed.log aid (last_state s polls)). fst i < 10 ^ 18"
    using assms(3) by (auto simp: sql_feed.log_def placed_def)
  ultimately obtain c es m where es: "follow sql_ops aid polls None = Inr (c, es)"
    "map fixed_payload es = map snd (take (m - 0) (drop 0 (sql_feed.log aid (last_state s polls))))"
    "min (0 + length polls) (length (sql_feed.log aid s)) \<le> m" "m \<le> length (sql_feed.log aid (last_state s polls))"
    using sql_feed.follow_log [OF assms(1,2), of aid 0 0 None] by (auto simp: decode_cursor_def)
  have "map fixed_payload es = take m (map fixed_of (filter (about aid) (sql_feed (last_state s polls))))"
    using es(2) by (simp add: sql_feed.log_def placed_def comp_def take_map)
  moreover from arg_cong [OF es(2), of length] es(4) have "length es = m" by simp
  ultimately show ?thesis using es by (auto simp: sql_feed.log_def)
qed

theorem feed_read_exactly_once_witness:
  "\<exists>c es. follow sql_ops None [(demo_db, 100)] None = Inr (c, es) \<and> length es = 1"
proof -
  have feed: "map position (sql_feed demo_db) = [1]" by code_simp
  then have "\<forall>i\<in>set (sql_feed (last_state demo_db [(demo_db, 100)])). position i < 10 ^ 18" by auto
  moreover have "polled sql_ops demo_db [(demo_db, 100)]" by (simp add: store_run.idle)
  ultimately obtain c es m where es: "follow sql_ops None [(demo_db, 100)] None = Inr (c, es)"
    "map fixed_payload es = take m (map fixed_of (filter (about None) (sql_feed demo_db)))" "length es = m"
    "min (length [(demo_db, 100::int)]) (length (filter (about None) (sql_feed demo_db))) \<le> m"
    using feed_read_exactly_once [of demo_db "[(demo_db, 100)]" None] demo_queue_inv
    unfolding last_state.simps by metis
  have one: "length (filter (about None) (sql_feed demo_db)) = 1"
    using arg_cong [OF feed, of length] by (simp add: about_def)
  then have "length es \<le> 1" using arg_cong [OF es(2), of length] by simp
  with es one show ?thesis by (intro exI [of _ c] exI [of _ es]) simp
qed

text \<open>which texts the feed accepts as a cursor: the empty one, and the cursor the feed issued for a
  position below \<open>10\<^sup>1\<^sup>8\<close>, possibly with one line feed after it; it reads back the position.\<close>
theorem cursor_roundtrip:
  "decode_cursor (Some s) = Inr n \<longleftrightarrow> s = [] \<and> n = 0 \<or>
     0 \<le> n \<and> n < 10 ^ 18 \<and> (s = encode_cursor n \<or> s = encode_cursor n @ [CHR 0x0A])"
  by (rule decode_cursor_Some_iff)

end
