(* ===== verification/PackVersions.thy ===== *)
theory PackVersions
  imports PyText
begin

text \<open>
  \<open>packages/adapters/pack_compatibility.py\<close>: version tuples, dependency strings, version
  constraints and the compatibility check of a pack manifest.  Python tuples of integers compare as
  lists do lexicographically.
\<close>

section \<open>Versions and constraints\<close>

definition int_or_zero :: "string \<Rightarrow> int" where
  \<comment> \<open>\<open>int(part)\<close>, 0 when it raises \<open>ValueError\<close>\<close>
  "int_or_zero part = (case py_int part of Some n \<Rightarrow> n | None \<Rightarrow> 0)"

definition parse_version :: "string \<Rightarrow> int list" where
  "parse_version version =
     (let core = strip (before_first (CHR ''-'') (before_first (CHR ''+'') version)) in
      if core = [] then [0] else map int_or_zero (split_on (CHR ''.'') core))"

definition COMPARATORS :: "string list" where
  "COMPARATORS = [''>='', ''<='', ''=='', ''>'', ''<'']"

fun split_dependency_at :: "string list \<Rightarrow> string \<Rightarrow> string \<times> string" where
  "split_dependency_at [] stripped = (stripped, '''')"
| "split_dependency_at (op # ops) stripped =
     (case find_sub op stripped of
        Some (Suc i) \<Rightarrow> (strip (take (Suc i) stripped), strip (drop (Suc i) stripped))
      | _ \<Rightarrow> split_dependency_at ops stripped)"

definition split_dependency :: "string \<Rightarrow> string \<times> string" where
  "split_dependency dep = split_dependency_at COMPARATORS (strip dep)"

definition clause_holds :: "int list \<Rightarrow> string \<Rightarrow> bool" where
  \<comment> \<open>the body of the loop over the clauses: does this clause let the version pass\<close>
  "clause_holds v clause =
     (case List.find (\<lambda>op. prefix op clause) COMPARATORS of
        None \<Rightarrow> v = parse_version clause
      | Some op \<Rightarrow>
          let t = parse_version (strip (drop (length op) clause)) in
          if op = ''=='' then v = t
          else if op = ''>='' then \<not> v < t
          else if op = ''<='' then \<not> t < v
          else if op = ''>'' then \<not> v \<le> t
          else if op = ''<'' then \<not> t \<le> v
          else True)"

fun clauses_hold :: "int list \<Rightarrow> string list \<Rightarrow> bool" where
  "clauses_hold v [] = True"
| "clauses_hold v (raw_clause # rest) =
     (let clause = strip raw_clause in
      if clause = [] then clauses_hold v rest
      else if \<not> clause_holds v clause then False
      else clauses_hold v rest)"

definition satisfies_constraint :: "string \<Rightarrow> string \<Rightarrow> bool" where
  "satisfies_constraint version constraint =
     (if constraint = [] \<or> strip constraint = [] then True
      else clauses_hold (parse_version version) (split_on (CHR '','') constraint))"

section \<open>What a constraint means\<close>

lemma clauses_hold_all:
  "clauses_hold v raws \<longleftrightarrow> (\<forall>raw\<in>set raws. strip raw = [] \<or> clause_holds v (strip raw))"
  by (induction v raws rule: clauses_hold.induct) (auto simp: Let_def)

lemma strip_Nil_iff: "strip s = [] \<longleftrightarrow> (\<forall>c\<in>set s. is_space c)"
proof
  assume "strip s = []"
  then have "\<forall>c\<in>set (lstrip s). is_space c"
    by (simp add: strip_def rstrip_def)
  then show "\<forall>c\<in>set s. is_space c"
    by (metis hd_in_set hd_lstrip dropWhile_eq_Nil_conv lstrip_def)
next
  assume "\<forall>c\<in>set s. is_space c"
  then show "strip s = []" by (simp add: strip_def lstrip_def rstrip_def dropWhile_eq_Nil_conv [THEN iffD2])
qed

lemma set_split_on: "s' \<in> set (split_on c s) \<Longrightarrow> set s' \<subseteq> set s"
proof (induction c s arbitrary: s' rule: split_on.induct)
  case (2 c x xs)
  show ?case
  proof (cases "x = c")
    case True
    with 2 show ?thesis by fastforce
  next
    case False
    obtain y ys where "split_on c xs = y # ys" by (metis neq_Nil_conv split_on_not_Nil)
    with 2 False show ?thesis by fastforce
  qed
qed simp

text \<open>A constraint is the conjunction of its clauses, blank ones aside.\<close>

lemma satisfies_all: "satisfies_constraint v c \<longleftrightarrow>
    (\<forall>raw\<in>set (split_on (CHR '','') c). strip raw = [] \<or> clause_holds (parse_version v) (strip raw))"
proof (cases "strip c = []")
  case True
  then have "\<forall>raw\<in>set (split_on (CHR '','') c). strip raw = []"
    using set_split_on by (fastforce simp: strip_Nil_iff)
  with True show ?thesis by (simp add: satisfies_constraint_def)
next
  case False
  then show ?thesis by (auto simp: satisfies_constraint_def clauses_hold_all)
qed

lemma split_on_append: "split_on c (s @ c # t) = split_on c s @ split_on c t"
proof (induction c s rule: split_on.induct)
  case (2 c x xs)
  obtain y ys where "split_on c xs = y # ys" by (metis neq_Nil_conv split_on_not_Nil)
  with 2 show ?case by auto
qed simp

lemma satisfies_conj: "satisfies_constraint v (c @ '','' @ d) \<longleftrightarrow>
    satisfies_constraint v c \<and> satisfies_constraint v d"
  by (auto simp: satisfies_all split_on_append)

lemma split_on_none: "c \<notin> set s \<Longrightarrow> split_on c s = [s]"
  by (induction c s rule: split_on.induct) auto

lemma strip_keep: "s \<noteq> [] \<Longrightarrow> \<not> is_space (hd s) \<Longrightarrow> strip s = rstrip s"
  by (simp add: strip_def lstrip_id)

lemma rstrip_append: "rstrip s \<noteq> [] \<Longrightarrow> rstrip (r @ s) = r @ rstrip s"
  by (auto simp: rstrip_def dropWhile_append)

text \<open>The five comparators, on a target without a comma.\<close>

lemma single_clause:
  assumes "CHR '','' \<notin> set c" and "strip c \<noteq> []"
  shows "satisfies_constraint v c \<longleftrightarrow> clause_holds (parse_version v) (strip c)"
  using assms by (simp add: satisfies_all split_on_none)

section \<open>The compatibility check\<close>

datatype trust_level = Verified | Community | Local

record pack_manifest =
  m_pack_key :: string
  m_display_name :: string
  m_version :: string
  m_trust_level :: trust_level
  m_pack_kind :: string
  m_description :: string
  m_requires_platform_version :: string
  m_dependencies :: "string list"
  m_publication_relations :: "string list"

record ('a, 'r) adapter_pack =
  ap_pack_key :: string
  ap_display_name :: string
  ap_version :: string
  ap_trust_level :: trust_level
  ap_adapters :: "'a list"
  ap_renderers :: "'r list"
  ap_description :: string
  ap_requires_platform_version :: string
  ap_dependencies :: "string list"
  ap_publication_relations :: "string list"

definition to_pack_manifest :: "('a, 'r) adapter_pack \<Rightarrow> pack_manifest" where
  "to_pack_manifest p =
     \<lparr>m_pack_key = ap_pack_key p, m_display_name = ap_display_name p, m_version = ap_version p,
      m_trust_level = ap_trust_level p, m_pack_kind = ''adapter'',
      m_description = ap_description p, m_requires_platform_version = ap_requires_platform_version p,
      m_dependencies = ap_dependencies p, m_publication_relations = ap_publication_relations p\<rparr>"

record compatibility_check =
  is_compatible :: bool
  cc_issues :: "string list"
  cc_warnings :: "string list"

definition dependency_issues :: "(string \<times> pack_manifest) list \<Rightarrow> string \<Rightarrow> string list" where
  \<comment> \<open>the body of the loop over \<open>manifest.dependencies\<close>\<close>
  "dependency_issues installed_packs dep =
     (let (dep_key, dep_constraint) = split_dependency dep in
      if dep_key = [] then []
      else case map_of installed_packs dep_key of
        None \<Rightarrow> [''missing dependency: '' @ dep_key]
      | Some installed \<Rightarrow>
          if dep_constraint \<noteq> [] \<and> \<not> satisfies_constraint (m_version installed) dep_constraint
          then [''dependency '' @ dep_key @ '' '' @ m_version installed @ '' does not satisfy '' @ dep_constraint]
          else [])"

definition platform_issues :: "string \<Rightarrow> pack_manifest \<Rightarrow> string list" where
  "platform_issues platform_version manifest =
     (if m_requires_platform_version manifest \<noteq> [] \<and>
         \<not> satisfies_constraint platform_version (m_requires_platform_version manifest)
      then [''pack requires platform '' @ m_requires_platform_version manifest @ ''; running '' @ platform_version]
      else [])"

definition check_pack ::
    "string \<Rightarrow> (string \<times> pack_manifest) list \<Rightarrow> string list \<Rightarrow> pack_manifest \<Rightarrow> compatibility_check" where
  "check_pack platform_version installed_packs known_publications manifest =
     (let issues = platform_issues platform_version manifest @
            concat (map (dependency_issues installed_packs) (m_dependencies manifest));
          warnings = concat (map (\<lambda>key.
            if known_publications \<noteq> [] \<and> key \<notin> set known_publications
            then [''unknown publication key: '' @ key] else []) (m_publication_relations manifest))
      in \<lparr>is_compatible = (issues = []), cc_issues = issues, cc_warnings = warnings\<rparr>)"

definition dependency_met :: "(string \<Rightarrow> string option) \<Rightarrow> string \<Rightarrow> bool" where
  \<comment> \<open>the specification of one declared dependency, over the version each pack is present in\<close>
  "dependency_met version_of dep \<longleftrightarrow>
     (let (k, c) = split_dependency dep in
      k = [] \<or> (\<exists>v. version_of k = Some v \<and> satisfies_constraint v c))"

lemma satisfies_blank [simp]: "satisfies_constraint v []"
  by (simp add: satisfies_constraint_def)

lemma dependency_issues_Nil: "dependency_issues installed dep = [] \<longleftrightarrow>
    dependency_met (\<lambda>k. map_option m_version (map_of installed k)) dep"
  by (auto simp: dependency_issues_def dependency_met_def Let_def case_prod_beta split: option.splits)

lemma check_pack_compatible: "is_compatible (check_pack pv installed known manifest) \<longleftrightarrow>
    satisfies_constraint pv (m_requires_platform_version manifest) \<and>
    (\<forall>dep\<in>set (m_dependencies manifest).
       dependency_met (\<lambda>k. map_option m_version (map_of installed k)) dep)"
  by (auto simp: check_pack_def platform_issues_def dependency_issues_Nil)

lemma check_pack_issues: "is_compatible (check_pack pv installed known manifest) \<longleftrightarrow>
    cc_issues (check_pack pv installed known manifest) = []"
  by (simp add: check_pack_def Let_def)

end
