(* ===== verification/PackStore.thy ===== *)
theory PackStore
  imports PackVersions
begin

text \<open>
  The control-plane records of the pack lifecycle (\<open>packages/storage/pack_lifecycle.py\<close>) and their
  SQLite store (\<open>packages/storage/sqlite_pack_lifecycle.py\<close>): one row per installed pack, replaced by
  a compare-and-set that writes its audit event in the same transaction, and an append-only event
  table.  Timestamps are instants.  The two JSON columns hold documents of arbitrary types: \<open>'c\<close> for
  the compatibility snapshot, \<open>'d\<close> for the plan; \<open>available_versions\<close> is the list it encodes.
\<close>

section \<open>Records\<close>

definition PACK_LIFECYCLE_ACTIONS :: "string list" where
  "PACK_LIFECYCLE_ACTIONS =
     [''install'', ''upgrade'', ''rollback'', ''disable'', ''enable'', ''pin'', ''unpin'']"

definition PACK_LIFECYCLE_OUTCOMES :: "string list" where
  "PACK_LIFECYCLE_OUTCOMES = [''applied'', ''refused'']"

record pack_actor =
  actor :: string
  actor_role :: "string option"
  actor_auth_provider :: string
  actor_authenticated :: bool

record 'c installation =
  i_pack_key :: string
  i_display_name :: string
  i_pack_kind :: string
  i_trust_level :: trust_level
  i_installed_version :: string
  i_previous_version :: "string option"
  i_pinned_version :: "string option"
  i_enabled :: bool
  i_source_id :: string
  i_revision_id :: string
  i_entry_digest :: string
  i_previous_entry_digest :: "string option"
  i_available_versions :: "string list"
  i_snapshot :: 'c
  i_installed_at :: int
  i_updated_at :: int

record ('c, 'd) pack_event =
  pe_event_id :: string
  pe_pack_key :: string
  pe_action :: string
  pe_outcome :: string
  pe_from_version :: "string option"
  pe_to_version :: "string option"
  pe_reason :: string
  pe_source_id :: "string option"
  pe_revision_id :: "string option"
  pe_entry_digest :: "string option"
  pe_snapshot :: 'c
  pe_plan :: 'd
  pe_actor :: pack_actor
  pe_occurred_at :: int

record expectation =
  x_installed_version :: "string option"
  x_enabled :: "bool option"
  x_pinned_version :: "string option"

datatype store_error =
    ValueError string
  | PackLifecycleConflictError string
  | DuplicateEvent string
  | UnknownEvent string

definition validate_event :: "('c, 'd) pack_event \<Rightarrow> store_error + unit" where
  "validate_event e =
     (if pe_action e \<notin> set PACK_LIFECYCLE_ACTIONS then Inl (ValueError ''Unknown pack lifecycle action'')
      else if pe_outcome e \<notin> set PACK_LIFECYCLE_OUTCOMES then Inl (ValueError ''Unknown pack lifecycle outcome'')
      else if strip (pe_reason e) = [] then Inl (ValueError ''Pack lifecycle events require a non-empty reason.'')
      else Inr ())"

definition matches_expectation :: "'c installation option \<Rightarrow> expectation \<Rightarrow> bool" where
  "matches_expectation current expected =
     (case current of
        None \<Rightarrow> x_installed_version expected = None
      | Some i \<Rightarrow>
          if Some (i_installed_version i) \<noteq> x_installed_version expected then False
          else if x_enabled expected \<noteq> None \<and> Some (i_enabled i) \<noteq> x_enabled expected then False
          else i_pinned_version i = x_pinned_version expected)"

section \<open>Rows of the installation table\<close>

record 'c installation_row =
  r_pack_key :: string
  r_display_name :: string
  r_pack_kind :: string
  r_trust_level :: trust_level
  r_installed_version :: string
  r_previous_version :: "string option"
  r_pinned_version :: "string option"
  r_enabled :: int
  r_source_id :: string
  r_revision_id :: string
  r_entry_digest :: string
  r_previous_entry_digest :: "string option"
  r_available_versions :: "string list"
  r_snapshot :: 'c
  r_installed_at :: int
  r_updated_at :: int

definition installation_params :: "'c installation \<Rightarrow> 'c installation_row" where
  "installation_params i =
     \<lparr>r_pack_key = i_pack_key i, r_display_name = i_display_name i, r_pack_kind = i_pack_kind i,
      r_trust_level = i_trust_level i, r_installed_version = i_installed_version i,
      r_previous_version = i_previous_version i, r_pinned_version = i_pinned_version i,
      r_enabled = of_bool (i_enabled i), r_source_id = i_source_id i,
      r_revision_id = i_revision_id i, r_entry_digest = i_entry_digest i,
      r_previous_entry_digest = i_previous_entry_digest i,
      r_available_versions = i_available_versions i, r_snapshot = i_snapshot i,
      r_installed_at = i_installed_at i, r_updated_at = i_updated_at i\<rparr>"

definition deserialize_installation :: "'c installation_row \<Rightarrow> 'c installation" where
  "deserialize_installation r =
     \<lparr>i_pack_key = r_pack_key r, i_display_name = r_display_name r, i_pack_kind = r_pack_kind r,
      i_trust_level = r_trust_level r, i_installed_version = r_installed_version r,
      i_previous_version = r_previous_version r, i_pinned_version = r_pinned_version r,
      i_enabled = (r_enabled r \<noteq> 0), i_source_id = r_source_id r,
      i_revision_id = r_revision_id r, i_entry_digest = r_entry_digest r,
      i_previous_entry_digest = r_previous_entry_digest r,
      i_available_versions = r_available_versions r, i_snapshot = r_snapshot r,
      i_installed_at = r_installed_at r, i_updated_at = r_updated_at r\<rparr>"

lemma deserialize_params [simp]: "deserialize_installation (installation_params i) = i"
  by (simp add: deserialize_installation_def installation_params_def)

lemma row_keys [simp]:
  "r_pack_key (installation_params i) = i_pack_key i"
  "i_pack_key (deserialize_installation r) = r_pack_key r"
  by (simp_all add: deserialize_installation_def installation_params_def)

section \<open>The store\<close>

record ('c, 'd) pack_db =
  pdb_installations :: "'c installation_row list"
  pdb_events :: "('c, 'd) pack_event list"

definition empty_pack_db :: "('c, 'd) pack_db" where
  "empty_pack_db = \<lparr>pdb_installations = [], pdb_events = []\<rparr>"

definition get_pack_installation :: "('c, 'd) pack_db \<Rightarrow> string \<Rightarrow> 'c installation option" where
  "get_pack_installation db k =
     map_option deserialize_installation (List.find (\<lambda>r. r_pack_key r = k) (pdb_installations db))"

definition list_pack_installations :: "('c, 'd) pack_db \<Rightarrow> 'c installation list" where
  "list_pack_installations db = map deserialize_installation (sort_key r_pack_key (pdb_installations db))"

definition upsert_row :: "'c installation_row \<Rightarrow> 'c installation_row list \<Rightarrow> 'c installation_row list" where
  \<comment> \<open>\<open>INSERT .. ON CONFLICT (pack_key) DO UPDATE SET\<close> every other column\<close>
  "upsert_row row rows =
     (if list_ex (\<lambda>r. r_pack_key r = r_pack_key row) rows
      then map (\<lambda>r. if r_pack_key r = r_pack_key row then row else r) rows
      else rows @ [row])"

definition find_event :: "('c, 'd) pack_db \<Rightarrow> string \<Rightarrow> store_error + ('c, 'd) pack_event" where
  "find_event db eid = (case List.find (\<lambda>e. pe_event_id e = eid) (pdb_events db) of
     None \<Rightarrow> Inl (UnknownEvent eid) | Some e \<Rightarrow> Inr e)"

definition insert_pack_event :: "('c, 'd) pack_event \<Rightarrow> ('c, 'd) pack_db \<Rightarrow> store_error + ('c, 'd) pack_db" where
  "insert_pack_event e db =
     (if list_ex (\<lambda>f. pe_event_id f = pe_event_id e) (pdb_events db) then Inl (DuplicateEvent (pe_event_id e))
      else Inr (db\<lparr>pdb_events := pdb_events db @ [e]\<rparr>))"

text \<open>A result pairs what the call returns or raises with the committed database.\<close>

definition commit_or_rollback :: "('c, 'd) pack_db \<Rightarrow> store_error + ('c, 'd) pack_db \<Rightarrow> string \<Rightarrow>
    (store_error + ('c, 'd) pack_event) \<times> ('c, 'd) pack_db" where
  "commit_or_rollback db written eid = (case written of
     Inl err \<Rightarrow> (Inl err, db) | Inr db' \<Rightarrow> (find_event db' eid, db'))"

definition apply_written :: "('c, 'd) pack_db \<Rightarrow> 'c installation \<Rightarrow> ('c, 'd) pack_event \<Rightarrow> expectation \<Rightarrow>
    store_error + ('c, 'd) pack_db" where
  \<comment> \<open>the transaction up to its commit\<close>
  "apply_written db i e expected =
     and_then (validate_event e) (\<lambda>_.
     if pe_pack_key e \<noteq> i_pack_key i
     then Inl (ValueError ''Event and installation must name the same pack.'')
     else if \<not> matches_expectation (get_pack_installation db (i_pack_key i)) expected
     then Inl (PackLifecycleConflictError (i_pack_key i))
     else insert_pack_event e
       (db\<lparr>pdb_installations := upsert_row (installation_params i) (pdb_installations db)\<rparr>))"

definition apply_pack_lifecycle_change :: "('c, 'd) pack_db \<Rightarrow> 'c installation \<Rightarrow> ('c, 'd) pack_event \<Rightarrow>
    expectation \<Rightarrow> (store_error + ('c, 'd) pack_event) \<times> ('c, 'd) pack_db" where
  "apply_pack_lifecycle_change db i e expected =
     commit_or_rollback db (apply_written db i e expected) (pe_event_id e)"

definition record_pack_lifecycle_event :: "('c, 'd) pack_db \<Rightarrow> ('c, 'd) pack_event \<Rightarrow>
    (store_error + ('c, 'd) pack_event) \<times> ('c, 'd) pack_db" where
  "record_pack_lifecycle_event db e =
     commit_or_rollback db (and_then (validate_event e) (\<lambda>_. insert_pack_event e db)) (pe_event_id e)"

definition sql_limit :: "int option \<Rightarrow> 'a list \<Rightarrow> 'a list" where
  \<comment> \<open>SQLite reads a negative limit as no limit\<close>
  "sql_limit limit xs = (case limit of None \<Rightarrow> xs | Some n \<Rightarrow> if n < 0 then xs else take (nat n) xs)"

definition newest_first :: "('c, 'd) pack_event list \<Rightarrow> ('c, 'd) pack_event list" where
  \<comment> \<open>\<open>ORDER BY occurred_at DESC, event_id DESC\<close>\<close>
  "newest_first es = sort_key (\<lambda>e. - pe_occurred_at e) (rev (sort_key pe_event_id es))"

definition list_pack_lifecycle_events ::
    "('c, 'd) pack_db \<Rightarrow> string option \<Rightarrow> int option \<Rightarrow> ('c, 'd) pack_event list" where
  "list_pack_lifecycle_events db pack_key limit =
     sql_limit limit (newest_first
       (filter (\<lambda>e. pack_key = None \<or> pack_key = Some (pe_pack_key e)) (pdb_events db)))"

section \<open>What the store guarantees\<close>

definition pack_inv :: "('c, 'd) pack_db \<Rightarrow> bool" where
  "pack_inv db \<longleftrightarrow> distinct (map r_pack_key (pdb_installations db)) \<and>
     distinct (map pe_event_id (pdb_events db)) \<and>
     (\<forall>e\<in>set (pdb_events db). validate_event e = Inr ())"

lemma pack_inv_empty: "pack_inv empty_pack_db"
  by (simp add: pack_inv_def empty_pack_db_def)

lemma upsert_keys: "map r_pack_key (upsert_row row rows) =
    (if r_pack_key row \<in> r_pack_key ` set rows then map r_pack_key rows else map r_pack_key rows @ [r_pack_key row])"
  by (auto simp: upsert_row_def list_ex_iff intro: rev_image_eqI)

lemma find_replaced: "List.find (\<lambda>r. r_pack_key r = k) (map (\<lambda>r. if r_pack_key r = r_pack_key row then row else r) rows) =
    (if k = r_pack_key row \<and> (\<exists>r\<in>set rows. r_pack_key r = k) then Some row
     else List.find (\<lambda>r. r_pack_key r = k) rows)"
  by (induction rows) auto

lemma upsert_find: "List.find (\<lambda>r. r_pack_key r = k) (upsert_row row rows) =
    (if k = r_pack_key row then Some row else List.find (\<lambda>r. r_pack_key r = k) rows)"
proof (cases "\<exists>r\<in>set rows. r_pack_key r = r_pack_key row")
  case True
  then show ?thesis
    by (simp add: upsert_row_def list_ex_iff find_replaced)
next
  case False
  moreover from this have "List.find (\<lambda>r. r_pack_key r = r_pack_key row) rows = None"
    by (auto simp: find_None_iff)
  ultimately show ?thesis
    by (auto simp: upsert_row_def list_ex_iff find_append split: option.splits)
qed

lemma find_appended: "\<not> list_ex (\<lambda>f. pe_event_id f = pe_event_id e) es \<Longrightarrow>
    List.find (\<lambda>f. pe_event_id f = pe_event_id e) (es @ [e]) = Some e"
  by (induction es) auto

lemma apply_cases:
  obtains (refused) err where "apply_pack_lifecycle_change db i e expected = (Inl err, db)"
  | (applied) db' where "apply_pack_lifecycle_change db i e expected = (Inr e, db')"
      "pdb_events db' = pdb_events db @ [e]" "validate_event e = Inr ()"
      "pe_event_id e \<notin> pe_event_id ` set (pdb_events db)"
      "matches_expectation (get_pack_installation db (i_pack_key i)) expected"
      "pdb_installations db' = upsert_row (installation_params i) (pdb_installations db)"
proof (cases "apply_written db i e expected")
  case (Inl err)
  then show ?thesis
    using refused by (simp add: apply_pack_lifecycle_change_def commit_or_rollback_def)
next
  case (Inr db')
  then have "validate_event e = Inr ()"
    and "matches_expectation (get_pack_installation db (i_pack_key i)) expected"
    and new: "\<not> list_ex (\<lambda>f. pe_event_id f = pe_event_id e) (pdb_events db)"
    and db': "db' = db\<lparr>pdb_installations := upsert_row (installation_params i) (pdb_installations db),
      pdb_events := pdb_events db @ [e]\<rparr>"
    by (auto simp: apply_written_def and_then_Inr_iff insert_pack_event_def split: if_splits)
  moreover from new have "pe_event_id e \<notin> pe_event_id ` set (pdb_events db)"
    by (auto simp: list_ex_iff)
  moreover have "apply_pack_lifecycle_change db i e expected = (Inr e, db')"
    using Inr find_appended [OF new]
    by (simp add: apply_pack_lifecycle_change_def commit_or_rollback_def find_event_def db')
  ultimately show ?thesis
    using applied [of db'] by simp
qed

lemma apply_inv: "pack_inv db \<Longrightarrow> pack_inv (snd (apply_pack_lifecycle_change db i e expected))"
  by (rule apply_cases [of db i e expected]) (auto simp: pack_inv_def upsert_keys)

lemma apply_get:
  assumes "apply_pack_lifecycle_change db i e expected = (Inr f, db')"
  shows "get_pack_installation db' = (get_pack_installation db)(i_pack_key i \<mapsto> i)"
  using assms by (cases rule: apply_cases [of db i e expected])
    (auto simp: get_pack_installation_def upsert_find)

lemma apply_Inr:
  assumes "apply_pack_lifecycle_change db i e expected = (Inr f, db')"
  shows "f = e \<and> pdb_events db' = pdb_events db @ [e] \<and> validate_event e = Inr () \<and>
    matches_expectation (get_pack_installation db (i_pack_key i)) expected"
  using assms by (cases rule: apply_cases [of db i e expected]) auto

lemma record_inv: "pack_inv db \<Longrightarrow> pack_inv (snd (record_pack_lifecycle_event db e))"
  by (cases "validate_event e") (auto simp: record_pack_lifecycle_event_def commit_or_rollback_def
      insert_pack_event_def pack_inv_def list_ex_iff)

lemma record_get: "get_pack_installation (snd (record_pack_lifecycle_event db e)) = get_pack_installation db"
  by (cases "validate_event e") (auto simp: record_pack_lifecycle_event_def commit_or_rollback_def
      insert_pack_event_def get_pack_installation_def)

lemma get_key: "get_pack_installation db k = Some i \<Longrightarrow> i_pack_key i = k"
  by (auto simp: get_pack_installation_def dest: find_Some_member)

lemma set_list_installations:
  assumes "pack_inv db"
  shows "i \<in> set (list_pack_installations db) \<longleftrightarrow> get_pack_installation db (i_pack_key i) = Some i"
proof -
  have unique: "List.find (\<lambda>r. r_pack_key r = r_pack_key row) (pdb_installations db) = Some row"
    if "row \<in> set (pdb_installations db)" for row
  proof -
    have "List.find (\<lambda>r. r_pack_key r = r_pack_key row) (pdb_installations db) \<noteq> None"
      using that by (auto simp: find_None_iff)
    then obtain row' where row': "List.find (\<lambda>r. r_pack_key r = r_pack_key row) (pdb_installations db) = Some row'"
      by blast
    moreover have "row' = row"
      using find_Some_member [OF row'] that assms by (auto simp: pack_inv_def distinct_map inj_on_def)
    ultimately show ?thesis by simp
  qed
  show ?thesis
  proof
    assume "i \<in> set (list_pack_installations db)"
    then obtain row where "row \<in> set (pdb_installations db)" "i = deserialize_installation row"
      by (auto simp: list_pack_installations_def)
    with unique [of row] show "get_pack_installation db (i_pack_key i) = Some i"
      by (simp add: get_pack_installation_def)
  next
    assume "get_pack_installation db (i_pack_key i) = Some i"
    then show "i \<in> set (list_pack_installations db)"
      by (auto simp: list_pack_installations_def get_pack_installation_def dest!: find_Some_member)
  qed
qed

end
