(* ===== verification/PackPlan.thy ===== *)
theory PackPlan
  imports PackStore
begin

text \<open>
  The dry run of \<open>packages/application/use_cases/pack_lifecycle.py\<close>: the context a change is
  planned against, the diagnostics of its publications and dependencies, and \<open>plan_pack_change\<close>.
  The store a context holds is an argument of its own; a plan reads one state of it.
\<close>

section \<open>Catalog entries and contexts\<close>

record publication_contract =
  pc_publication_key :: string
  pc_schema_version :: string

record catalog_entry =
  e_pack_key :: string
  e_display_name :: string
  e_version :: string
  e_pack_kind :: string
  e_trust_level :: trust_level
  e_description :: string
  e_requires_platform_version :: string
  e_dependencies :: "string list"
  e_publications :: "publication_contract list"
  e_requires_publications :: "string list"
  e_source_id :: string
  e_source_name :: string
  e_revision_id :: string
  e_manifest_digest :: string
  e_entry_digest :: string

record platform_pack =
  pp_name :: string
  pp_version :: string
  pp_publications :: "string list"

record pack_context =
  cx_entries :: "catalog_entry list"
  cx_platform_packs :: "platform_pack list"
  cx_platform_version :: string

definition provided_publication_keys :: "catalog_entry \<Rightarrow> string list" where
  "provided_publication_keys e = map pc_publication_key (e_publications e)"

definition version_key :: "string \<Rightarrow> int list" where
  "version_key version =
     map int_or_zero (split_on (CHR ''.'') (before_first (CHR ''-'') (before_first (CHR ''+'') version)))"

definition major :: "string option \<Rightarrow> int option" where
  "major schema_version = (case schema_version of None \<Rightarrow> None
     | Some s \<Rightarrow> if s = [] then None else Some (hd (version_key s)))"

definition entries_for :: "pack_context \<Rightarrow> string \<Rightarrow> catalog_entry list" where
  "entries_for cx k = sort_key (\<lambda>e. version_key (e_version e)) (filter (\<lambda>e. e_pack_key e = k) (cx_entries cx))"

definition entry :: "pack_context \<Rightarrow> string \<Rightarrow> string \<Rightarrow> catalog_entry option" where
  "entry cx k v = List.find (\<lambda>e. e_pack_key e = k \<and> e_version e = v) (cx_entries cx)"

section \<open>Diagnostics\<close>

datatype severity = Blocking | Warning

record pack_diagnostic =
  dg_code :: string
  dg_severity :: severity
  dg_message :: string
  dg_publication_key :: "string option"
  dg_pack_key :: "string option"

definition diagnostic :: "string \<Rightarrow> severity \<Rightarrow> string \<Rightarrow> pack_diagnostic" where
  "diagnostic code sev message = \<lparr>dg_code = code, dg_severity = sev, dg_message = message,
     dg_publication_key = None, dg_pack_key = None\<rparr>"

abbreviation blocking :: "string \<Rightarrow> string \<Rightarrow> pack_diagnostic" where
  "blocking code message \<equiv> diagnostic code Blocking message"

definition platform_publications :: "pack_context \<Rightarrow> string \<Rightarrow> (string \<times> string) list" where
  "platform_publications cx exclude =
     dict_of (concat (map (\<lambda>p. map (\<lambda>k. (k, pp_name p)) (pp_publications p))
       (filter (\<lambda>p. pp_name p \<noteq> exclude) (cx_platform_packs cx))))"

definition installed_entries ::
    "pack_context \<Rightarrow> ('c, 'd) pack_db \<Rightarrow> string \<Rightarrow> ('c installation \<times> catalog_entry option) list" where
  "installed_entries cx db exclude =
     map (\<lambda>i. (i, entry cx (i_pack_key i) (i_installed_version i)))
       (filter (\<lambda>i. i_pack_key i \<noteq> exclude \<and> i_enabled i) (list_pack_installations db))"

definition to_manifest :: "catalog_entry \<Rightarrow> pack_manifest" where
  "to_manifest e =
     \<lparr>m_pack_key = e_pack_key e, m_display_name = e_display_name e, m_version = e_version e,
      m_trust_level = e_trust_level e, m_pack_kind = e_pack_kind e, m_description = e_description e,
      m_requires_platform_version = e_requires_platform_version e,
      m_dependencies = e_dependencies e,
      m_publication_relations = provided_publication_keys e @ e_requires_publications e\<rparr>"

definition bare_manifest :: "string \<Rightarrow> string \<Rightarrow> string \<Rightarrow> trust_level \<Rightarrow> pack_manifest" where
  \<comment> \<open>\<open>PackManifest\<close> with its defaults\<close>
  "bare_manifest k name v trust =
     \<lparr>m_pack_key = k, m_display_name = name, m_version = v, m_trust_level = trust,
      m_pack_kind = ''adapter'', m_description = '''', m_requires_platform_version = '''',
      m_dependencies = [], m_publication_relations = []\<rparr>"

definition installed_manifest :: "'c installation \<times> catalog_entry option \<Rightarrow> string \<times> pack_manifest" where
  "installed_manifest = (\<lambda>(i, e). (i_pack_key i, case e of Some en \<Rightarrow> to_manifest en
     | None \<Rightarrow> bare_manifest (i_pack_key i) (i_display_name i) (i_installed_version i) (i_trust_level i)))"

definition installed_manifests ::
    "pack_context \<Rightarrow> ('c, 'd) pack_db \<Rightarrow> string \<Rightarrow> (string \<times> pack_manifest) list" where
  "installed_manifests cx db exclude =
     dict_of (map (\<lambda>p. (pp_name p, bare_manifest (pp_name p) (pp_name p) (pp_version p) Verified)) (cx_platform_packs cx)
       @ map installed_manifest (installed_entries cx db exclude))"

definition installed_publications ::
    "pack_context \<Rightarrow> ('c, 'd) pack_db \<Rightarrow> string \<Rightarrow> (string \<times> string) list" where
  "installed_publications cx db exclude =
     dict_of (concat (map (\<lambda>(i, e). case e of None \<Rightarrow> []
       | Some en \<Rightarrow> map (\<lambda>k. (k, i_pack_key i)) (provided_publication_keys en)) (installed_entries cx db exclude)))"

definition owner_of :: "(string \<times> string) list \<Rightarrow> (string \<times> string) list \<Rightarrow> string \<Rightarrow> string option" where
  \<comment> \<open>\<open>platform_owners.get(key) or installed_owners.get(key)\<close>\<close>
  "owner_of platform_owners installed_owners k =
     (case map_of platform_owners k of
        Some (c # cs) \<Rightarrow> Some (c # cs)
      | _ \<Rightarrow> map_of installed_owners k)"

definition assess_entry :: "pack_context \<Rightarrow> ('c, 'd) pack_db \<Rightarrow> catalog_entry \<Rightarrow> pack_diagnostic list" where
  "assess_entry cx db e =
     (let platform_owners = platform_publications cx (e_pack_key e);
          installed_owners = installed_publications cx db (e_pack_key e);
          known = map fst platform_owners @ provided_publication_keys e @ map fst installed_owners;
          check = check_pack (cx_platform_version cx) (installed_manifests cx db (e_pack_key e)) known (to_manifest e)
      in (if e_trust_level e = Verified
          then [blocking ''untrusted_verified_claim''
            (''external registry entries cannot declare verified trust; '' @
             ''verified is reserved for platform-shipped packs'')] else [])
         @ map (blocking ''compatibility'') (cc_issues check)
         @ map (diagnostic ''compatibility_warning'' Warning) (cc_warnings check)
         @ concat (map (\<lambda>k. case owner_of platform_owners installed_owners k of
               None \<Rightarrow> []
             | Some owner \<Rightarrow> [\<lparr>dg_code = ''publication_conflict'', dg_severity = Blocking,
                 dg_message = ''publication '' @ k @ '' is already provided by '' @ owner,
                 dg_publication_key = Some k, dg_pack_key = Some owner\<rparr>])
             (provided_publication_keys e)))"

section \<open>Publications a change adds, removes or rewrites\<close>

datatype publication_change_kind = Added | Removed | Schema_changed | Unchanged

definition change_text :: "publication_change_kind \<Rightarrow> string" where
  "change_text c = (case c of Added \<Rightarrow> ''added'' | Removed \<Rightarrow> ''removed''
     | Schema_changed \<Rightarrow> ''schema_changed'' | Unchanged \<Rightarrow> ''unchanged'')"

record publication_change =
  ch_publication_key :: string
  ch_change :: publication_change_kind
  ch_from_schema_version :: "string option"
  ch_to_schema_version :: "string option"
  ch_breaking :: bool
  ch_dependents :: "string list"

definition schemas_of :: "catalog_entry option \<Rightarrow> (string \<times> string) list" where
  "schemas_of e = (case e of None \<Rightarrow> []
     | Some en \<Rightarrow> dict_of (map (\<lambda>c. (pc_publication_key c, pc_schema_version c)) (e_publications en)))"

definition requirers :: "pack_context \<Rightarrow> ('c, 'd) pack_db \<Rightarrow> string \<Rightarrow> string \<Rightarrow> string list" where
  "requirers cx db k key =
     concat (map (\<lambda>(i, e). case e of None \<Rightarrow> []
       | Some en \<Rightarrow> map (\<lambda>_. i_pack_key i) (filter (\<lambda>r. r = key) (e_requires_publications en)))
       (installed_entries cx db k))"

definition publication_change_at :: "(string \<times> string) list \<Rightarrow> (string \<times> string) list \<Rightarrow>
    (string \<Rightarrow> string list) \<Rightarrow> string \<Rightarrow> publication_change \<times> pack_diagnostic list" where
  "publication_change_at before after required_by key =
     (let from_schema = map_of before key;
          to_schema = map_of after key;
          dependents = sort (required_by key);
          change = (if from_schema = None then Added
            else if to_schema = None then Removed
            else if from_schema \<noteq> to_schema then Schema_changed
            else Unchanged);
          breaking = (change = Removed \<or> change = Schema_changed \<and> major from_schema \<noteq> major to_schema);
          verb = (if change = Removed then ''remove'' else ''change the schema major of'')
      in (\<lparr>ch_publication_key = key, ch_change = change, ch_from_schema_version = from_schema,
           ch_to_schema_version = to_schema, ch_breaking = breaking, ch_dependents = dependents\<rparr>,
          if breaking \<and> dependents \<noteq> []
          then [(blocking ''would_break_publication''
                  (''would '' @ verb @ '' publication '' @ key @ '' required by '' @ join_texts '', '' dependents))
                \<lparr>dg_publication_key := Some key\<rparr>]
          else if breaking
          then [(diagnostic ''breaking_publication_change'' Warning
                  (''publication '' @ key @ '' contract changes incompatibly ('' @ change_text change @ '')''))
                \<lparr>dg_publication_key := Some key\<rparr>]
          else []))"

definition publication_changes :: "pack_context \<Rightarrow> ('c, 'd) pack_db \<Rightarrow> string \<Rightarrow> catalog_entry option \<Rightarrow>
    catalog_entry option \<Rightarrow> publication_change list \<times> pack_diagnostic list" where
  "publication_changes cx db k current target =
     (let before = schemas_of current;
          after = schemas_of target;
          results = map (publication_change_at before after (requirers cx db k))
            (sorted_unique (map fst before @ map fst after))
      in (map fst results, concat (map snd results)))"

definition dependent_pack_diagnostics ::
    "pack_context \<Rightarrow> ('c, 'd) pack_db \<Rightarrow> string \<Rightarrow> string option \<Rightarrow> pack_diagnostic list" where
  "dependent_pack_diagnostics cx db k to_version =
     concat (map (\<lambda>(i, e). case e of None \<Rightarrow> [] | Some en \<Rightarrow>
       concat (map (\<lambda>dependency.
         let (name, constraint) = split_dependency dependency in
         if name \<noteq> k then []
         else if to_version = None \<or> \<not> satisfies_constraint (the to_version) constraint
         then [(blocking ''would_break_dependency''
                 (i_pack_key i @ '' depends on '' @ dependency @
                  (case to_version of None \<Rightarrow> ''; the pack would no longer be enabled''
                   | Some v \<Rightarrow> ''; '' @ v @ '' does not satisfy it'')))
               \<lparr>dg_pack_key := Some (i_pack_key i)\<rparr>]
         else []) (e_dependencies en))) (installed_entries cx db k))"

section \<open>The plan\<close>

record change_plan =
  pl_pack_key :: string
  pl_action :: string
  pl_from_version :: "string option"
  pl_to_version :: "string option"
  pl_from_enabled :: "bool option"
  pl_to_enabled :: "bool option"
  pl_platform_version :: string
  pl_target :: "catalog_entry option"
  pl_diagnostics :: "pack_diagnostic list"
  pl_changes :: "publication_change list"
  pl_checked_at :: int

record compatibility_snapshot =
  sn_status :: string
  sn_platform_version :: string
  sn_checked_at :: int
  sn_issues :: "string list"
  sn_warnings :: "string list"

definition allowed :: "change_plan \<Rightarrow> bool" where
  "allowed p = (\<not> list_ex (\<lambda>d. dg_severity d = Blocking) (pl_diagnostics p))"

definition compatibility_status :: "change_plan \<Rightarrow> string" where
  "compatibility_status p = (if \<not> allowed p then ''incompatible''
     else if pl_diagnostics p \<noteq> [] then ''warning'' else ''compatible'')"

definition contracts_affected :: "change_plan \<Rightarrow> string list" where
  "contracts_affected p =
     map (\<lambda>c. ch_publication_key c @ ''@'' @
         text_or (ch_to_schema_version c)
           (case ch_from_schema_version c of None \<Rightarrow> ''None'' | Some s \<Rightarrow> s))
       (filter (\<lambda>c. ch_change c \<noteq> Unchanged) (pl_changes p))"

definition messages_of :: "severity \<Rightarrow> pack_diagnostic list \<Rightarrow> string list" where
  "messages_of sev ds = map dg_message (filter (\<lambda>d. dg_severity d = sev) ds)"

definition plan_summary :: "change_plan \<Rightarrow> string" where
  "plan_summary p =
     (let blockers = messages_of Blocking (pl_diagnostics p) in
      if blockers = [] then pl_action p @ '' '' @ pl_pack_key p @ '' is allowed''
      else pl_action p @ '' '' @ pl_pack_key p @ '' refused: '' @ join_texts ''; '' blockers)"

definition snapshot_of :: "change_plan \<Rightarrow> compatibility_snapshot" where
  "snapshot_of p = \<lparr>sn_status = compatibility_status p, sn_platform_version = pl_platform_version p,
     sn_checked_at = pl_checked_at p, sn_issues = messages_of Blocking (pl_diagnostics p),
     sn_warnings = messages_of Warning (pl_diagnostics p)\<rparr>"

text \<open>The locals of \<open>plan_pack_change\<close> that the branch of an action sets.\<close>

record transition =
  tr_version :: "string option"
  tr_target :: "catalog_entry option"
  tr_to_version :: "string option"
  tr_to_enabled :: "bool option"
  tr_after_entry :: "catalog_entry option"
  tr_diagnostics :: "pack_diagnostic list"

definition entry_if :: "pack_context \<Rightarrow> string \<Rightarrow> string option \<Rightarrow> catalog_entry option" where
  \<comment> \<open>\<open>context.entry(pack_key, version) if version else None\<close>\<close>
  "entry_if cx k version = (case version of None \<Rightarrow> None | Some v \<Rightarrow> if v = [] then None else entry cx k v)"

definition version_or_latest :: "pack_context \<Rightarrow> string \<Rightarrow> string option \<Rightarrow> string option" where
  "version_or_latest cx k version =
     (if version = None \<and> entries_for cx k \<noteq> [] then Some (e_version (last (entries_for cx k))) else version)"

definition install_transition ::
    "pack_context \<Rightarrow> string \<Rightarrow> string option \<Rightarrow> 'c installation option \<Rightarrow> transition" where
  "install_transition cx k version0 current =
     (let version = version_or_latest cx k version0; target = entry_if cx k version in
      \<lparr>tr_version = version, tr_target = target, tr_to_version = version, tr_to_enabled = Some True,
       tr_after_entry = target,
       tr_diagnostics = (if current \<noteq> None
         then [blocking ''illegal_transition'' (k @ '' is already installed'')] else [])\<rparr>)"

definition upgrade_transition ::
    "pack_context \<Rightarrow> string \<Rightarrow> string option \<Rightarrow> 'c installation \<Rightarrow> transition" where
  "upgrade_transition cx k version0 i =
     (let version = version_or_latest cx k version0; target = entry_if cx k version in
      \<lparr>tr_version = version, tr_target = target, tr_to_version = version,
       tr_to_enabled = Some (i_enabled i), tr_after_entry = (if i_enabled i then target else None),
       tr_diagnostics = (case version of
           None \<Rightarrow> []
         | Some v \<Rightarrow>
             if v = i_installed_version i
             then [blocking ''illegal_transition'' (k @ '' '' @ v @ '' is already installed'')]
             else if version_key v < version_key (i_installed_version i)
             then [blocking ''illegal_transition'' (v @ '' is older than '' @ i_installed_version i @ ''; use rollback'')]
             else [])\<rparr>)"

definition changed_entry :: "string \<Rightarrow> string \<Rightarrow> pack_diagnostic" where
  "changed_entry k v = blocking ''cached_entry_changed''
     (''cached entry for '' @ k @ '' '' @ v @ '' changed since it was installed'')"

definition rollback_transition :: "pack_context \<Rightarrow> string \<Rightarrow> string option \<Rightarrow> 'c installation \<Rightarrow>
    catalog_entry option \<Rightarrow> transition" where
  "rollback_transition cx k version0 i before_entry =
     (case i_previous_version i of
        None \<Rightarrow> \<lparr>tr_version = version0, tr_target = None, tr_to_version = Some (i_installed_version i),
          tr_to_enabled = Some (i_enabled i), tr_after_entry = before_entry,
          tr_diagnostics = [blocking ''no_rollback_target'' (k @ '' has no previous version to roll back to'')]\<rparr>
      | Some v \<Rightarrow>
          let target = entry cx k v in
          \<lparr>tr_version = Some v, tr_target = target, tr_to_version = Some v,
           tr_to_enabled = Some (i_enabled i), tr_after_entry = (if i_enabled i then target else None),
           tr_diagnostics = (if target \<noteq> None \<and> i_previous_entry_digest i \<noteq> None \<and>
               Some (e_entry_digest (the target)) \<noteq> i_previous_entry_digest i
             then [changed_entry k v] else [])\<rparr>)"

definition stay_transition :: "string option \<Rightarrow> 'c installation \<Rightarrow> catalog_entry option \<Rightarrow>
    pack_diagnostic list \<Rightarrow> transition" where
  \<comment> \<open>the locals before the branches, with the diagnostics of the branch\<close>
  "stay_transition version0 i before_entry ds =
     \<lparr>tr_version = version0, tr_target = None, tr_to_version = Some (i_installed_version i),
      tr_to_enabled = Some (i_enabled i), tr_after_entry = before_entry, tr_diagnostics = ds\<rparr>"

definition enable_transition ::
    "string \<Rightarrow> 'c installation \<Rightarrow> catalog_entry option \<Rightarrow> transition" where
  "enable_transition k i current_entry =
     \<lparr>tr_version = Some (i_installed_version i), tr_target = current_entry,
      tr_to_version = Some (i_installed_version i), tr_to_enabled = Some True,
      tr_after_entry = current_entry,
      tr_diagnostics =
        (if i_enabled i then [blocking ''illegal_transition'' (k @ '' is already enabled'')] else [])
        @ (if current_entry \<noteq> None \<and> e_entry_digest (the current_entry) \<noteq> i_entry_digest i
           then [changed_entry k (i_installed_version i)] else [])\<rparr>"

definition transition_of :: "pack_context \<Rightarrow> string \<Rightarrow> string \<Rightarrow> string option \<Rightarrow>
    'c installation option \<Rightarrow> transition" where
  "transition_of cx k action version current =
     (if action = ''install'' then install_transition cx k version current
      else case current of
        None \<Rightarrow> \<lparr>tr_version = version, tr_target = None, tr_to_version = None, tr_to_enabled = None,
          tr_after_entry = None,
          tr_diagnostics = [blocking ''illegal_transition'' (k @ '' is not installed; install it first'')]\<rparr>
      | Some i \<Rightarrow>
          let current_entry = entry cx k (i_installed_version i);
              before_entry = (if i_enabled i then current_entry else None) in
          if action = ''upgrade'' then upgrade_transition cx k version i
          else if action = ''rollback'' then rollback_transition cx k version i before_entry
          else if action = ''disable''
          then (stay_transition version i before_entry
                 (if \<not> i_enabled i then [blocking ''illegal_transition'' (k @ '' is already disabled'')] else []))
               \<lparr>tr_to_enabled := Some False, tr_after_entry := None\<rparr>
          else if action = ''enable'' then enable_transition k i current_entry
          else if action = ''pin''
          then stay_transition version i before_entry
                 (if i_pinned_version i \<noteq> None then [blocking ''illegal_transition'' (k @ '' is already pinned'')] else [])
          else stay_transition version i before_entry
                 (if i_pinned_version i = None then [blocking ''illegal_transition'' (k @ '' is not pinned'')] else []))"

definition target_required :: "string \<Rightarrow> 'c installation option \<Rightarrow> bool" where
  "target_required action current =
     (action = ''install'' \<or> (case current of None \<Rightarrow> False
        | Some i \<Rightarrow> action \<in> {''upgrade'', ''enable''} \<or>
            action = ''rollback'' \<and> i_previous_version i \<noteq> None))"

definition pinned_elsewhere :: "string \<Rightarrow> 'c installation option \<Rightarrow> string option \<Rightarrow> bool" where
  "pinned_elsewhere action current to_version =
     (case current of None \<Rightarrow> False
      | Some i \<Rightarrow> i_pinned_version i \<noteq> None \<and> action \<in> {''upgrade'', ''rollback''} \<and>
          to_version \<noteq> i_pinned_version i)"

definition not_in_cache :: "string \<Rightarrow> string option \<Rightarrow> pack_diagnostic" where
  "not_in_cache k version = blocking ''not_in_registry_cache''
     (if text_or version [] \<noteq> [] then k @ '' '' @ the version @ '' is not in the validated local registry cache''
      else ''no cached registry entry offers '' @ k)"

datatype ('c, 'd) lifecycle_error =
    ValidationError string
  | ChangeRefused 'd "('c, 'd) pack_event"
  | StoreError store_error
  | AssertionError

definition enabled_entry :: "pack_context \<Rightarrow> string \<Rightarrow> 'c installation option \<Rightarrow> catalog_entry option" where
  "enabled_entry cx k current = (case current of None \<Rightarrow> None
     | Some i \<Rightarrow> if i_enabled i then entry cx k (i_installed_version i) else None)"

definition is_enabled :: "'c installation option \<Rightarrow> bool" where
  "is_enabled current = (case current of None \<Rightarrow> False | Some i \<Rightarrow> i_enabled i)"

definition plan_diagnostics :: "pack_context \<Rightarrow> ('c, 'd) pack_db \<Rightarrow> string \<Rightarrow> string \<Rightarrow>
    'c installation option \<Rightarrow> transition \<Rightarrow> pack_diagnostic list" where
  "plan_diagnostics cx db k action current tr =
     tr_diagnostics tr
     @ (if target_required action current \<and> tr_target tr = None then [not_in_cache k (tr_version tr)] else [])
     @ (if pinned_elsewhere action current (tr_to_version tr)
        then [blocking ''pinned'' (k @ '' is pinned to '' @ the (i_pinned_version (the current)) @ ''; unpin it first'')]
        else [])
     @ (case tr_target tr of
          None \<Rightarrow> []
        | Some e \<Rightarrow> if tr_to_enabled tr = Some True \<or> action = ''install'' then assess_entry cx db e else [])
     @ (if current \<noteq> None \<or> action = ''install''
        then snd (publication_changes cx db k (enabled_entry cx k current) (tr_after_entry tr)) else [])
     @ (if is_enabled current \<and> action \<in> {''disable'', ''upgrade'', ''rollback''}
        then dependent_pack_diagnostics cx db k (if action = ''disable'' then None else tr_to_version tr)
        else [])"

definition plan_pack_change :: "pack_context \<Rightarrow> ('c, 'd) pack_db \<Rightarrow> string \<Rightarrow> string \<Rightarrow> string option \<Rightarrow>
    int \<Rightarrow> ('c, 'e) lifecycle_error + change_plan" where
  "plan_pack_change cx db k action version now =
     (if action \<notin> set PACK_LIFECYCLE_ACTIONS then Inl (ValidationError ''Unknown pack lifecycle action'')
      else
        let current = get_pack_installation db k;
            tr = transition_of cx k action version current
        in Inr \<lparr>pl_pack_key = k, pl_action = action,
          pl_from_version = map_option i_installed_version current, pl_to_version = tr_to_version tr,
          pl_from_enabled = map_option i_enabled current, pl_to_enabled = tr_to_enabled tr,
          pl_platform_version = cx_platform_version cx, pl_target = tr_target tr,
          pl_diagnostics = plan_diagnostics cx db k action current tr,
          pl_changes = (if current \<noteq> None \<or> action = ''install''
            then fst (publication_changes cx db k (enabled_entry cx k current) (tr_after_entry tr)) else []),
          pl_checked_at = now\<rparr>)"

end
