(* ===== verification/PackLifecycle.thy ===== *)
theory PackLifecycle
  imports PackPlan
begin

text \<open>
  Applying a pack change (\<open>packages/application/use_cases/pack_lifecycle.py\<close>): the audit event, the
  next installation row and \<open>apply_pack_change\<close>.  The call reads the store twice and writes it once;
  \<open>gap i\<close> is what other operators did to it before its \<open>i\<close>-th access (0 the plan, 1 the second
  read, 2 the write).
\<close>

type_synonym event_of_plan = "(compatibility_snapshot, change_plan) pack_event"
type_synonym installation_of_plan = "compatibility_snapshot installation"
type_synonym plan_db = "(compatibility_snapshot, change_plan) pack_db"
type_synonym apply_error = "(compatibility_snapshot, change_plan) lifecycle_error"

section \<open>Events and next rows\<close>

definition source_field :: "(catalog_entry \<Rightarrow> string) \<Rightarrow> ('c installation \<Rightarrow> string) \<Rightarrow>
    catalog_entry option \<Rightarrow> 'c installation option \<Rightarrow> string option" where
  "source_field of_entry of_installation target current =
     (case target of Some e \<Rightarrow> Some (of_entry e) | None \<Rightarrow> map_option of_installation current)"

definition event_of :: "string \<Rightarrow> change_plan \<Rightarrow> string \<Rightarrow> string \<Rightarrow> pack_actor \<Rightarrow>
    installation_of_plan option \<Rightarrow> event_of_plan" where
  "event_of uid p outcome reason who current =
     \<lparr>pe_event_id = ''packevt-'' @ uid, pe_pack_key = pl_pack_key p, pe_action = pl_action p,
      pe_outcome = outcome, pe_from_version = pl_from_version p, pe_to_version = pl_to_version p,
      pe_reason = reason,
      pe_source_id = source_field e_source_id i_source_id (pl_target p) current,
      pe_revision_id = source_field e_revision_id i_revision_id (pl_target p) current,
      pe_entry_digest = source_field e_entry_digest i_entry_digest (pl_target p) current,
      pe_snapshot = snapshot_of p, pe_plan = p, pe_actor = who, pe_occurred_at = pl_checked_at p\<rparr>"

definition next_installation :: "pack_context \<Rightarrow> change_plan \<Rightarrow> installation_of_plan option \<Rightarrow>
    apply_error + installation_of_plan" where
  "next_installation cx p current =
     (let snapshot = snapshot_of p;
          available = map e_version (entries_for cx (pl_pack_key p));
          now = pl_checked_at p
      in if pl_action p = ''install'' then
           (case pl_target p of
              None \<Rightarrow> Inl AssertionError
            | Some t \<Rightarrow> Inr \<lparr>i_pack_key = e_pack_key t, i_display_name = e_display_name t,
                i_pack_kind = e_pack_kind t, i_trust_level = e_trust_level t,
                i_installed_version = e_version t, i_previous_version = None, i_pinned_version = None,
                i_enabled = True, i_source_id = e_source_id t, i_revision_id = e_revision_id t,
                i_entry_digest = e_entry_digest t, i_previous_entry_digest = None,
                i_available_versions = available, i_snapshot = snapshot, i_installed_at = now,
                i_updated_at = now\<rparr>)
         else (case current of
            None \<Rightarrow> Inl AssertionError
          | Some i \<Rightarrow>
              let base = i\<lparr>i_available_versions := available, i_updated_at := now\<rparr> in
              if pl_action p \<in> {''upgrade'', ''rollback''} then
                (case pl_target p of
                   None \<Rightarrow> Inl AssertionError
                 | Some t \<Rightarrow> Inr (base\<lparr>i_display_name := e_display_name t, i_pack_kind := e_pack_kind t,
                     i_trust_level := e_trust_level t, i_installed_version := e_version t,
                     i_previous_version := Some (i_installed_version i), i_source_id := e_source_id t,
                     i_revision_id := e_revision_id t, i_entry_digest := e_entry_digest t,
                     i_previous_entry_digest := Some (i_entry_digest i), i_snapshot := snapshot\<rparr>))
              else if pl_action p = ''disable'' then Inr (base\<lparr>i_enabled := False\<rparr>)
              else if pl_action p = ''enable'' then Inr (base\<lparr>i_enabled := True, i_snapshot := snapshot\<rparr>)
              else if pl_action p = ''pin'' then Inr (base\<lparr>i_pinned_version := Some (i_installed_version i)\<rparr>)
              else Inr (base\<lparr>i_pinned_version := None\<rparr>)))"

section \<open>Applying a change\<close>

record change_result =
  cr_plan :: change_plan
  cr_dry_run :: bool
  cr_event :: "event_of_plan option"
  cr_installation :: "installation_of_plan option"

definition MAX_REASON_LENGTH :: nat where
  "MAX_REASON_LENGTH = 500"

definition expectation_of :: "'c installation option \<Rightarrow> expectation" where
  "expectation_of current = \<lparr>x_installed_version = map_option i_installed_version current,
     x_enabled = map_option i_enabled current,
     x_pinned_version = Option.bind current i_pinned_version\<rparr>"

definition write_change :: "pack_context \<Rightarrow> (nat \<Rightarrow> plan_db \<Rightarrow> plan_db) \<Rightarrow> string \<Rightarrow> plan_db \<Rightarrow> string \<Rightarrow>
    string \<Rightarrow> pack_actor \<Rightarrow> change_plan \<Rightarrow> (apply_error + change_result) \<times> plan_db" where
  \<comment> \<open>the part after the plan, from the second read on\<close>
  "write_change cx gap uid s k cleaned who p =
     (let s1 = gap 1 s; current = get_pack_installation s1 k in
      if \<not> allowed p then
        (let (r, s3) = record_pack_lifecycle_event (gap 2 s1) (event_of uid p ''refused'' cleaned who current)
         in (case r of Inl err \<Rightarrow> Inl (StoreError err) | Inr e \<Rightarrow> Inl (ChangeRefused p e), s3))
      else case next_installation cx p current of
        Inl err \<Rightarrow> (Inl err, s1)
      | Inr i \<Rightarrow>
          let (r, s3) = apply_pack_lifecycle_change (gap 2 s1) i
                (event_of uid p ''applied'' cleaned who current) (expectation_of current)
          in (case r of Inl err \<Rightarrow> Inl (StoreError err)
              | Inr e \<Rightarrow> Inr \<lparr>cr_plan = p, cr_dry_run = False, cr_event = Some e, cr_installation = Some i\<rparr>, s3))"

definition apply_pack_change :: "pack_context \<Rightarrow> (nat \<Rightarrow> plan_db \<Rightarrow> plan_db) \<Rightarrow> string \<Rightarrow> int \<Rightarrow> plan_db \<Rightarrow>
    string \<Rightarrow> string \<Rightarrow> string option \<Rightarrow> string \<Rightarrow> pack_actor \<Rightarrow> bool \<Rightarrow>
    (apply_error + change_result) \<times> plan_db" where
  "apply_pack_change cx gap uid now s k action version reason who dry_run =
     (let cleaned = strip reason in
      if \<not> dry_run \<and> cleaned = []
      then (Inl (ValidationError ''A reason is required for pack lifecycle changes.''), s)
      else if length cleaned > MAX_REASON_LENGTH
      then (Inl (ValidationError ''Reason must be at most 500 characters.''), s)
      else
        let s0 = gap 0 s in
        case plan_pack_change cx s0 k action version now of
          Inl err \<Rightarrow> (Inl err, s0)
        | Inr p \<Rightarrow>
            if dry_run then (Inr \<lparr>cr_plan = p, cr_dry_run = True, cr_event = None, cr_installation = None\<rparr>, s0)
            else write_change cx gap uid s0 k cleaned who p)"

definition quiet :: "nat \<Rightarrow> plan_db \<Rightarrow> plan_db" where
  "quiet i s = s"

section \<open>The state machine\<close>

datatype pack_state =
    Not_installed
  | Installed bool string "string option" "string option"
      \<comment> \<open>enabled, version, parked version, pin\<close>

definition state_of :: "'c installation option \<Rightarrow> pack_state" where
  "state_of current = (case current of None \<Rightarrow> Not_installed
     | Some i \<Rightarrow> Installed (i_enabled i) (i_installed_version i) (i_previous_version i) (i_pinned_version i))"

inductive pack_step :: "string \<Rightarrow> pack_state \<Rightarrow> pack_state \<Rightarrow> bool" where
  install: "pack_step ''install'' Not_installed (Installed True v None None)"
| upgrade: "version_key v \<le> version_key w \<Longrightarrow> v \<noteq> w \<Longrightarrow> pin = None \<or> pin = Some w \<Longrightarrow>
    pack_step ''upgrade'' (Installed b v prev pin) (Installed b w (Some v) pin)"
| rollback: "pin = None \<or> pin = Some w \<Longrightarrow>
    pack_step ''rollback'' (Installed b v (Some w) pin) (Installed b w (Some v) pin)"
| disable: "pack_step ''disable'' (Installed True v prev pin) (Installed False v prev pin)"
| enable: "pack_step ''enable'' (Installed False v prev pin) (Installed True v prev pin)"
| pin: "pack_step ''pin'' (Installed b v prev None) (Installed b v prev (Some v))"
| unpin: "pack_step ''unpin'' (Installed b v prev (Some w)) (Installed b v prev None)"

inductive_cases pack_step_upgradeE: "pack_step ''upgrade'' s t"
inductive_cases pack_step_rollbackE: "pack_step ''rollback'' s t"

lemma step_enabled: "pack_step a (Installed b v p q) (Installed b' w p' q') \<Longrightarrow>
    a \<noteq> ''disable'' \<Longrightarrow> a \<noteq> ''enable'' \<Longrightarrow> b' = b"
  by (erule pack_step.cases) simp_all

lemma step_version: "pack_step a (Installed b v p q) (Installed b' w p' q') \<Longrightarrow>
    a \<noteq> ''upgrade'' \<Longrightarrow> a \<noteq> ''rollback'' \<Longrightarrow> w = v"
  by (erule pack_step.cases) simp_all

lemma step_install: "pack_step ''install'' s t \<Longrightarrow> s = Not_installed"
  by (erule pack_step.cases) simp_all

lemma step_switch:
  "pack_step ''enable'' (Installed b v p q) (Installed b' w p' q') \<Longrightarrow> \<not> b \<and> b'"
  "pack_step ''disable'' (Installed b v p q) (Installed b' w p' q') \<Longrightarrow> b \<and> \<not> b'"
  by (erule pack_step.cases; simp)+

lemma entry_Some: "entry cx k v = Some e \<Longrightarrow> e \<in> set (cx_entries cx) \<and> e_pack_key e = k \<and> e_version e = v"
  by (auto simp: entry_def dest: find_Some_member)

lemma entry_if_Some: "entry_if cx k version = Some e \<longleftrightarrow> version = Some (e_version e) \<and> e_version e \<noteq> [] \<and> entry cx k (e_version e) = Some e"
  by (auto simp: entry_if_def split: option.splits dest: entry_Some)

lemma quiet_id [simp]: "quiet i = id" "quiet i s = s"
  by (simp_all add: quiet_def fun_eq_iff)

definition clear :: "pack_diagnostic list \<Rightarrow> bool" where
  "clear ds \<longleftrightarrow> (\<forall>d\<in>set ds. dg_severity d \<noteq> Blocking)"

lemma clear_simps [simp]:
  "clear []" "clear (ds @ es) \<longleftrightarrow> clear ds \<and> clear es"
  "clear (blocking code message # ds) \<longleftrightarrow> False"
  "clear [(blocking code message)\<lparr>dg_publication_key := key\<rparr>] \<longleftrightarrow> False"
  "clear [(blocking code message)\<lparr>dg_pack_key := key\<rparr>] \<longleftrightarrow> False"
  "clear (concat dss) \<longleftrightarrow> (\<forall>ds\<in>set dss. clear ds)"
  "clear (if b then ds else es) \<longleftrightarrow> (if b then clear ds else clear es)"
  "clear [changed_entry k v] \<longleftrightarrow> False" "clear [not_in_cache k ver] \<longleftrightarrow> False"
  by (auto simp: clear_def diagnostic_def changed_entry_def not_in_cache_def)

lemma clear_blocking [simp]: "clear (map (blocking code) ms) \<longleftrightarrow> ms = []"
  by (cases ms) (auto simp: clear_def diagnostic_def)

text \<open>What a plan without a blocking diagnostic says.\<close>

lemma clear_plan:
  assumes "clear (plan_diagnostics cx db k action current tr)"
  shows "clear (tr_diagnostics tr)"
    and "target_required action current \<Longrightarrow> tr_target tr \<noteq> None"
    and "\<not> pinned_elsewhere action current (tr_to_version tr)"
    and "tr_target tr = Some e \<Longrightarrow> tr_to_enabled tr = Some True \<or> action = ''install'' \<Longrightarrow>
      clear (assess_entry cx db e)"
    and "current \<noteq> None \<or> action = ''install'' \<Longrightarrow>
      clear (snd (publication_changes cx db k (enabled_entry cx k current) (tr_after_entry tr)))"
    and "is_enabled current \<Longrightarrow> action \<in> {''disable'', ''upgrade'', ''rollback''} \<Longrightarrow>
      clear (dependent_pack_diagnostics cx db k (if action = ''disable'' then None else tr_to_version tr))"
  using assms unfolding plan_diagnostics_def clear_simps(2)
  by (auto split: if_split_asm option.split_asm)

lemma applied_write:
  assumes ok: "apply_pack_change cx gap uid now s k action version reason who dry = (Inr r, s')" and wet: "\<not> dry"
  obtains p where "plan_pack_change cx (gap 0 s) k action version now = (Inr p :: apply_error + change_plan)"
    and "write_change cx gap uid (gap 0 s) k (strip reason) who p = (Inr r, s')"
proof (cases "plan_pack_change cx (gap 0 s) k action version now :: apply_error + change_plan")
  case (Inl err)
  with ok wet show ?thesis
    by (simp add: apply_pack_change_def Let_def del: split_paired_All split: if_split_asm)
next
  case (Inr p)
  have "strip reason \<noteq> [] \<and> \<not> length (strip reason) > MAX_REASON_LENGTH"
    using ok wet by (simp add: apply_pack_change_def Let_def split: if_split_asm)
  with Inr ok wet have "write_change cx gap uid (gap 0 s) k (strip reason) who p = (Inr r, s')"
    by (simp add: apply_pack_change_def Let_def)
  with Inr show ?thesis using that by blast
qed

text \<open>What a call that applied a change has done, undisturbed between its two reads.\<close>

lemma applied_change:
  assumes "apply_pack_change cx gap uid now s k action version reason who dry = (Inr r, s')"
    and quiet: "gap 1 = id" and "\<not> dry"
  obtains current i tr where
    "current = get_pack_installation (gap 0 s) k"
    "tr = transition_of cx k action version current"
    "action \<in> set PACK_LIFECYCLE_ACTIONS"
    "clear (plan_diagnostics cx (gap 0 s) k action current tr)"
    "next_installation cx (cr_plan r) current = Inr i"
    "pl_target (cr_plan r) = tr_target tr" "pl_action (cr_plan r) = action" "pl_pack_key (cr_plan r) = k"
    "get_pack_installation s' = (get_pack_installation (gap 2 (gap 0 s)))(i_pack_key i \<mapsto> i)"
    "matches_expectation (get_pack_installation (gap 2 (gap 0 s)) (i_pack_key i)) (expectation_of current)"
    "cr_event r = Some (event_of uid (cr_plan r) ''applied'' (strip reason) who current)"
    "pdb_events s' = pdb_events (gap 2 (gap 0 s)) @ [the (cr_event r)]"
    "cr_installation r = Some i"
proof -
  let ?s0 = "gap 0 s"
  let ?current = "get_pack_installation ?s0 k"
  let ?tr = "transition_of cx k action version ?current"
  obtain p where plan: "plan_pack_change cx ?s0 k action version now = (Inr p :: apply_error + change_plan)"
    and wr: "write_change cx gap uid ?s0 k (strip reason) who p = (Inr r, s')"
    using assms(1,3) by (rule applied_write)
  from plan have action: "action \<in> set PACK_LIFECYCLE_ACTIONS"
    and p: "pl_diagnostics p = plan_diagnostics cx ?s0 k action ?current ?tr" "pl_target p = tr_target ?tr"
      "pl_action p = action" "pl_pack_key p = k"
    by (auto simp: plan_pack_change_def Let_def split: if_splits)
  have ok: "allowed p"
    using wr by (auto simp: write_change_def Let_def case_prod_beta split: if_splits sum.splits)
  then obtain i e where i: "next_installation cx p ?current = Inr i"
    and ap: "apply_pack_lifecycle_change (gap 2 ?s0) i (event_of uid p ''applied'' (strip reason) who ?current)
       (expectation_of ?current) = (Inr e, s')"
    and r: "r = \<lparr>cr_plan = p, cr_dry_run = False, cr_event = Some e, cr_installation = Some i\<rparr>"
    using wr quiet by (auto simp: write_change_def Let_def case_prod_beta prod_eq_iff split: sum.splits)
  have "e = event_of uid p ''applied'' (strip reason) who ?current"
    and "pdb_events s' = pdb_events (gap 2 ?s0) @ [e]"
    and "matches_expectation (get_pack_installation (gap 2 ?s0) (i_pack_key i)) (expectation_of ?current)"
    using apply_Inr [OF ap] by simp_all
  then show ?thesis
    using that [of ?current ?tr i] action p ok i apply_get [OF ap] r
    by (auto simp: allowed_def list_ex_iff clear_def)
qed

lemma actions:
  assumes "action \<in> set PACK_LIFECYCLE_ACTIONS"
  obtains "action = ''install''" | "action = ''upgrade''" | "action = ''rollback''"
    | "action = ''disable''" | "action = ''enable''" | "action = ''pin''" | "action = ''unpin''"
  using assms unfolding PACK_LIFECYCLE_ACTIONS_def list.set insert_iff empty_iff by (elim disjE) auto

text \<open>The row an allowed plan writes is one step of the state machine away.\<close>

lemma next_step:
  assumes plan: "clear (plan_diagnostics cx db k action current tr)"
    and tr: "tr = transition_of cx k action version current"
    and action: "action \<in> set PACK_LIFECYCLE_ACTIONS"
    and current: "\<forall>i. current = Some i \<longrightarrow> i_pack_key i = k"
    and i: "next_installation cx p current = Inr i" and p: "pl_target p = tr_target tr" "pl_action p = action"
  shows "i_pack_key i = k \<and> pack_step action (state_of current) (state_of (Some i))"
proof (cases current)
  case None
  then have "action = ''install''"
    using i p by (simp add: next_installation_def Let_def split: if_split_asm)
  with None i p tr show ?thesis
    by (auto simp: next_installation_def Let_def transition_of_def install_transition_def state_of_def
        entry_if_Some split: option.split_asm dest!: entry_Some intro: pack_step.install)
next
  case (Some c)
  note clear = clear_plan [OF plan]
  have key: "i_pack_key c = k" using current Some by blast
  from action show ?thesis
  proof (cases rule: actions)
    case 1
    with clear(1) Some tr show ?thesis by (simp add: transition_of_def install_transition_def Let_def)
  next
    case 2
    then obtain t where t: "tr_target tr = Some t"
      using i p Some by (auto simp: next_installation_def Let_def split: option.split_asm)
    then have tv: "tr_to_version tr = Some (e_version t)" "tr_version tr = Some (e_version t)"
      using 2 tr Some by (auto simp: transition_of_def upgrade_transition_def Let_def entry_if_Some)
    then have "e_version t \<noteq> i_installed_version c"
      and "\<not> version_key (e_version t) < version_key (i_installed_version c)"
      using 2 tr Some clear(1) by (auto simp: transition_of_def upgrade_transition_def Let_def split: if_split_asm)
    moreover have "i_pinned_version c = None \<or> i_pinned_version c = Some (e_version t)"
      using 2 clear(3) Some tv by (auto simp: pinned_elsewhere_def)
    ultimately show ?thesis
      using 2 i p Some t key
      by (auto simp: next_installation_def Let_def state_of_def intro!: pack_step.upgrade)
  next
    case 3
    then obtain t where t: "tr_target tr = Some t"
      using i p Some by (auto simp: next_installation_def Let_def split: option.split_asm)
    then have tv: "tr_to_version tr = Some (e_version t)" "i_previous_version c = Some (e_version t)"
      using 3 tr Some by (auto simp: transition_of_def rollback_transition_def Let_def split: option.split_asm dest: entry_Some)
    moreover have "i_pinned_version c = None \<or> i_pinned_version c = Some (e_version t)"
      using 3 clear(3) Some tv by (auto simp: pinned_elsewhere_def)
    ultimately show ?thesis
      using 3 i p Some t key
      by (auto simp: next_installation_def Let_def state_of_def intro!: pack_step.rollback)
  next
    case 4
    then have "i_enabled c"
      using tr Some clear(1) by (simp add: transition_of_def stay_transition_def Let_def split: if_split_asm)
    then show ?thesis
      using 4 i p Some key pack_step.disable by (auto simp: next_installation_def Let_def state_of_def)
  next
    case 5
    then have "\<not> i_enabled c"
      using tr Some clear(1) by (simp add: transition_of_def enable_transition_def Let_def split: if_split_asm)
    then show ?thesis
      using 5 i p Some key pack_step.enable by (auto simp: next_installation_def Let_def state_of_def)
  next
    case 6
    then have "i_pinned_version c = None"
      using tr Some clear(1) by (auto simp: transition_of_def stay_transition_def Let_def split: if_split_asm)
    then show ?thesis
      using 6 i p Some key pack_step.pin by (auto simp: next_installation_def Let_def state_of_def)
  next
    case 7
    then obtain w where "i_pinned_version c = Some w"
      using tr Some clear(1) by (auto simp: transition_of_def stay_transition_def Let_def split: if_split_asm)
    then show ?thesis
      using 7 i p Some key pack_step.unpin by (auto simp: next_installation_def Let_def state_of_def)
  qed
qed

lemma transition_target:
  assumes "tr = transition_of cx k action version current" and "tr_target tr = Some t"
  shows "entry cx k (e_version t) = Some t \<and> tr_to_version tr = Some (e_version t)"
proof (cases "action = ''install''")
  case True
  with assms show ?thesis
    by (simp add: transition_of_def install_transition_def Let_def entry_if_Some)
next
  case False
  then obtain c where c: "current = Some c"
    using assms by (cases current) (simp_all add: transition_of_def)
  have found: "entry cx k v = Some t \<Longrightarrow> e_version t = v" for v
    by (simp add: entry_Some)
  consider "action = ''upgrade''" | "action = ''rollback''" | "action = ''enable''"
    using assms False c by (fastforce simp: transition_of_def stay_transition_def Let_def split: if_split_asm)
  then show ?thesis
  proof cases
    case 1
    with assms c show ?thesis
      by (simp add: transition_of_def upgrade_transition_def Let_def entry_if_Some)
  next
    case 2
    with assms c found show ?thesis
      by (auto simp: transition_of_def rollback_transition_def Let_def split: option.split_asm)
  next
    case 3
    with assms c found show ?thesis
      by (auto simp: transition_of_def enable_transition_def Let_def)
  qed
qed

section \<open>Declared dependencies stay satisfied\<close>

definition platform_version_of :: "pack_context \<Rightarrow> string \<Rightarrow> string option" where
  "platform_version_of cx = map_of (dict_of (map (\<lambda>p. (pp_name p, pp_version p)) (cx_platform_packs cx)))"

definition version_present :: "pack_context \<Rightarrow> (string \<Rightarrow> 'c installation option) \<Rightarrow> string \<Rightarrow> string option" where
  "version_present cx packs k = (case packs k of
     Some i \<Rightarrow> if i_enabled i then Some (i_installed_version i) else platform_version_of cx k
   | None \<Rightarrow> platform_version_of cx k)"

definition deps_ok :: "pack_context \<Rightarrow> (string \<Rightarrow> 'c installation option) \<Rightarrow> bool" where
  "deps_ok cx packs \<longleftrightarrow> (\<forall>k i e. packs k = Some i \<longrightarrow> i_enabled i \<longrightarrow> entry cx k (i_installed_version i) = Some e \<longrightarrow>
     (\<forall>dep\<in>set (e_dependencies e). dependency_met (version_present cx packs) dep))"

lemma keys_list_installations:
  assumes "pack_inv db"
  shows "distinct (map i_pack_key (list_pack_installations db))"
proof -
  have "map i_pack_key (list_pack_installations db) = map r_pack_key (sort_key r_pack_key (pdb_installations db))"
    by (simp add: list_pack_installations_def)
  moreover have "distinct (map r_pack_key (pdb_installations db))" using assms by (simp add: pack_inv_def)
  ultimately show ?thesis
    by (simp add: distinct_map)
qed

lemma map_of_enabled:
  assumes "pack_inv db"
  shows "map_of (rev (map (\<lambda>i. (i_pack_key i, i_installed_version i))
      (filter (\<lambda>i. i_pack_key i \<noteq> x \<and> i_enabled i) (list_pack_installations db)))) k =
    (case get_pack_installation db k of None \<Rightarrow> None
     | Some i \<Rightarrow> if k \<noteq> x \<and> i_enabled i then Some (i_installed_version i) else None)"
    (is "map_of (rev ?kvs) k = ?rhs")
proof -
  have fst: "map fst (rev ?kvs) = rev (map i_pack_key (filter (\<lambda>i. i_pack_key i \<noteq> x \<and> i_enabled i) (list_pack_installations db)))"
    by (simp add: rev_map comp_def)
  have distinct: "distinct (map fst (rev ?kvs))"
    unfolding fst distinct_rev by (rule distinct_map_filter [OF keys_list_installations [OF assms]])
  have mem: "(k, v) \<in> set (rev ?kvs) \<longleftrightarrow>
      (\<exists>i. get_pack_installation db k = Some i \<and> k \<noteq> x \<and> i_enabled i \<and> v = i_installed_version i)" for v
    using get_key [of db k] by (auto simp: set_list_installations [OF assms])
  show ?thesis
  proof (cases "map_of (rev ?kvs) k")
    case None
    then have "\<And>v. (k, v) \<notin> set (rev ?kvs)" by (force simp: map_of_eq_None_iff)
    with None mem show ?thesis by (auto split: option.splits)
  next
    case (Some v)
    then have "(k, v) \<in> set (rev ?kvs)" by (rule map_of_SomeD)
    with Some mem show ?thesis by auto
  qed
qed

lemma manifest_version:
  assumes "pack_inv db"
  shows "map_option m_version (map_of (installed_manifests cx db x) k) =
    (if k = x then platform_version_of cx k else version_present cx (get_pack_installation db) k)"
proof -
  have bare: "m_version (bare_manifest a b v c) = v" for a b v c by (simp add: bare_manifest_def)
  have inst: "map (\<lambda>(k, m). (k, m_version m)) (map installed_manifest (installed_entries cx db x)) =
      map (\<lambda>i. (i_pack_key i, i_installed_version i)) (filter (\<lambda>i. i_pack_key i \<noteq> x \<and> i_enabled i) (list_pack_installations db))"
    by (auto simp: installed_entries_def installed_manifest_def bare to_manifest_def split: option.splits dest: entry_Some)
  have "map_option m_version (map_of (installed_manifests cx db x) k) =
      map_of (rev (map (\<lambda>(k, m). (k, m_version m))
        (map (\<lambda>p. (pp_name p, bare_manifest (pp_name p) (pp_name p) (pp_version p) Verified)) (cx_platform_packs cx)
         @ map installed_manifest (installed_entries cx db x)))) k"
    unfolding installed_manifests_def map_of_dict_of rev_map map_of_map by simp
  also have "\<dots> = (map_of (rev (map (\<lambda>p. (pp_name p, pp_version p)) (cx_platform_packs cx))) ++
      map_of (rev (map (\<lambda>i. (i_pack_key i, i_installed_version i))
        (filter (\<lambda>i. i_pack_key i \<noteq> x \<and> i_enabled i) (list_pack_installations db))))) k"
    unfolding map_append inst by (simp add: bare comp_def)
  finally show ?thesis
    unfolding map_add_def map_of_enabled [OF assms]
    by (auto simp: version_present_def platform_version_of_def map_of_dict_of split: option.splits)
qed

lemma clear_assess:
  assumes "clear (assess_entry cx db e)"
  shows "e_trust_level e \<noteq> Verified"
    and "is_compatible (check_pack (cx_platform_version cx) (installed_manifests cx db (e_pack_key e))
      (map fst (platform_publications cx (e_pack_key e)) @ provided_publication_keys e @
       map fst (installed_publications cx db (e_pack_key e))) (to_manifest e))"
    and "key \<in> set (provided_publication_keys e) \<Longrightarrow>
      owner_of (platform_publications cx (e_pack_key e)) (installed_publications cx db (e_pack_key e)) key = None"
proof -
  have "clear [\<lparr>dg_code = c, dg_severity = Blocking, dg_message = m, dg_publication_key = x, dg_pack_key = y\<rparr>] = False" for c m x y
    by (simp add: clear_def)
  with assms show "e_trust_level e \<noteq> Verified"
    and "is_compatible (check_pack (cx_platform_version cx) (installed_manifests cx db (e_pack_key e))
      (map fst (platform_publications cx (e_pack_key e)) @ provided_publication_keys e @
       map fst (installed_publications cx db (e_pack_key e))) (to_manifest e))"
    and "key \<in> set (provided_publication_keys e) \<Longrightarrow>
      owner_of (platform_publications cx (e_pack_key e)) (installed_publications cx db (e_pack_key e)) key = None"
    unfolding assess_entry_def Let_def check_pack_issues
    by (auto split: if_split_asm option.split_asm)
qed

lemma clear_dependents:
  assumes "clear (dependent_pack_diagnostics cx db k to_version)" and "pack_inv db"
    and "get_pack_installation db j = Some i" and "j \<noteq> k" and "i_enabled i"
    and "entry cx j (i_installed_version i) = Some e" and "dep \<in> set (e_dependencies e)"
    and "split_dependency dep = (k, constraint)"
  shows "\<exists>v. to_version = Some v \<and> satisfies_constraint v constraint"
proof -
  have "(i, Some e) \<in> set (installed_entries cx db k)"
    using assms get_key [OF assms(3)] by (auto simp: installed_entries_def set_list_installations)
  with assms(1,7,8) show ?thesis
    unfolding dependent_pack_diagnostics_def clear_simps(6)
    by (cases to_version) (fastforce split: if_split_asm)+
qed

lemma dependency_met_mono:
  assumes "dependency_met f dep"
    and "\<And>k c v. split_dependency dep = (k, c) \<Longrightarrow> f k = Some v \<Longrightarrow> satisfies_constraint v c \<Longrightarrow>
      \<exists>w. g k = Some w \<and> satisfies_constraint w c"
  shows "dependency_met g dep"
  using assms by (cases "split_dependency dep") (auto simp: dependency_met_def)

text \<open>What the row of an allowed plan holds, by action.\<close>

lemma next_row:
  assumes plan: "clear (plan_diagnostics cx db k action current tr)"
    and tr: "tr = transition_of cx k action version current"
    and action: "action \<in> set PACK_LIFECYCLE_ACTIONS"
    and current: "\<forall>i. current = Some i \<longrightarrow> i_pack_key i = k"
    and i: "next_installation cx p current = Inr i" and p: "pl_target p = tr_target tr" "pl_action p = action"
  obtains (off) "\<not> i_enabled i" "is_enabled current \<Longrightarrow> action = ''disable''"
  | (same) c where "current = Some c" "i_enabled i = i_enabled c" "i_installed_version i = i_installed_version c"
  | (target) t where "tr_target tr = Some t" "i_installed_version i = e_version t" "entry cx k (e_version t) = Some t"
      "tr_to_version tr = Some (e_version t)" "i_enabled i" "clear (assess_entry cx db t)" "e_pack_key t = k"
      "is_enabled current \<Longrightarrow> action \<in> {''upgrade'', ''rollback''}"
proof -
  note clear = clear_plan [OF plan] and step = next_step [OF assms]
  show ?thesis
  proof (cases "action = ''install'' \<or> action \<in> {''upgrade'', ''rollback''}")
    case True
    then have "tr_target tr \<noteq> None"
      using i p by (cases "tr_target tr") (auto simp: next_installation_def Let_def split: option.split_asm if_split_asm)
    then obtain t where t: "tr_target tr = Some t" by blast
    note found = transition_target [OF tr t]
    have ver: "i_installed_version i = e_version t"
      using i p t True by (auto simp: next_installation_def Let_def split: option.split_asm if_split_asm)
    have key: "e_pack_key t = k" using found entry_Some by blast
    show ?thesis
    proof (cases "i_enabled i")
      case on: True
      have "tr_to_enabled tr = Some True \<or> action = ''install''"
      proof (cases current)
        case None
        then show ?thesis using i p by (auto simp: next_installation_def Let_def split: if_split_asm)
      next
        case (Some c)
        then have step': "pack_step action (Installed (i_enabled c) (i_installed_version c) (i_previous_version c) (i_pinned_version c))
            (Installed (i_enabled i) (i_installed_version i) (i_previous_version i) (i_pinned_version i))"
          using step by (simp add: state_of_def)
        have "action \<noteq> ''disable''" "action \<noteq> ''enable''" using True by auto
        with step' on have "i_enabled c" using step_enabled by blast
        with True Some tr t show ?thesis
          by (cases "i_previous_version c")
            (auto simp: transition_of_def upgrade_transition_def rollback_transition_def Let_def)
      qed
      then have "clear (assess_entry cx db t)" using clear(4) t by blast
      moreover have "is_enabled current \<Longrightarrow> action \<in> {''upgrade'', ''rollback''}"
        using step True step_install by (cases current) (auto simp: state_of_def is_enabled_def)
      ultimately show ?thesis using target [of t] t ver found on key by blast
    next
      case False
      have "\<not> is_enabled current"
      proof (cases current)
        case (Some c)
        have "action \<noteq> ''disable''" "action \<noteq> ''enable''" using True by auto
        with False Some step show ?thesis
          using step_enabled by (fastforce simp: state_of_def is_enabled_def)
      qed (simp add: is_enabled_def)
      with False show ?thesis using off by blast
    qed
  next
    case False
    then obtain c where c: "current = Some c"
      using i p by (cases current) (auto simp: next_installation_def Let_def)
    show ?thesis
    proof (cases "action = ''enable''")
      case True
      then obtain t where t: "tr_target tr = Some t"
        using clear(2) c by (auto simp: target_required_def)
      note found = transition_target [OF tr t]
      have step': "pack_step ''enable'' (Installed (i_enabled c) (i_installed_version c) (i_previous_version c) (i_pinned_version c))
          (Installed (i_enabled i) (i_installed_version i) (i_previous_version i) (i_pinned_version i))"
        using step True c by (simp add: state_of_def)
      have on: "i_enabled i" and was: "\<not> i_enabled c"
        using step_switch(1) [OF step'] by blast+
      have ver: "i_installed_version i = i_installed_version c"
        using step_version [OF step'] by simp
      have "tr_to_enabled tr = Some True" "tr_to_version tr = Some (i_installed_version c)"
        using True c tr by (auto simp: transition_of_def enable_transition_def Let_def)
      then have "clear (assess_entry cx db t)" "e_version t = i_installed_version c"
        using clear(4) t found by auto
      moreover have "e_pack_key t = k" using found entry_Some by blast
      moreover have "\<not> is_enabled current" using c was by (simp add: is_enabled_def)
      ultimately show ?thesis using target [of t] t found ver on by simp
    next
      case not_enable: False
      show ?thesis
      proof (cases "action = ''disable''")
        case True
        then have "pack_step ''disable'' (Installed (i_enabled c) (i_installed_version c) (i_previous_version c) (i_pinned_version c))
          (Installed (i_enabled i) (i_installed_version i) (i_previous_version i) (i_pinned_version i))"
          using step c by (simp add: state_of_def)
        from step_switch(2) [OF this] have "\<not> i_enabled i" by blast
        with True show ?thesis using off by blast
      next
        case False
        have step': "pack_step action (Installed (i_enabled c) (i_installed_version c) (i_previous_version c) (i_pinned_version c))
          (Installed (i_enabled i) (i_installed_version i) (i_previous_version i) (i_pinned_version i))"
          using step c by (simp add: state_of_def)
        have "i_enabled i = i_enabled c"
          by (rule step_enabled [OF step' False not_enable])
        moreover have "i_installed_version i = i_installed_version c"
          using \<open>\<not> (action = ''install'' \<or> action \<in> {''upgrade'', ''rollback''})\<close>
          by (intro step_version [OF step']) simp_all
        ultimately have "i_enabled i = i_enabled c" "i_installed_version i = i_installed_version c"
          by simp_all
        with c show ?thesis using same by blast
      qed
    qed
  qed
qed

text \<open>Every enabled pack's declared dependencies are still met after an allowed change.\<close>

lemma deps_preserved:
  assumes plan: "clear (plan_diagnostics cx db k action current tr)"
    and tr: "tr = transition_of cx k action version current"
    and action: "action \<in> set PACK_LIFECYCLE_ACTIONS"
    and current: "current = get_pack_installation db k"
    and i: "next_installation cx p current = Inr i" and p: "pl_target p = tr_target tr" "pl_action p = action"
    and dbinv: "pack_inv db" and ok: "deps_ok cx (get_pack_installation db)"
    and foreign: "platform_version_of cx k = None"
  shows "deps_ok cx ((get_pack_installation db)(k \<mapsto> i))"
proof -
  let ?old = "get_pack_installation db" and ?new = "(get_pack_installation db)(k \<mapsto> i)"
  have key: "\<forall>c. current = Some c \<longrightarrow> i_pack_key c = k" by (simp add: current get_key)
  have other: "version_present cx ?new n = version_present cx ?old n" if "n \<noteq> k" for n
    using that by (simp add: version_present_def)
  have kept: "dependency_met (version_present cx ?new) dep"
    if j: "?old j = Some i'" "j \<noteq> k" "i_enabled i'" "entry cx j (i_installed_version i') = Some e"
      "dep \<in> set (e_dependencies e)" for j i' e dep
  proof -
    have met: "dependency_met (version_present cx ?old) dep"
      using ok j unfolding deps_ok_def by blast
    show ?thesis
    proof (rule dependency_met_mono [OF met])
      fix n c v assume n: "split_dependency dep = (n, c)" and v: "version_present cx ?old n = Some v" "satisfies_constraint v c"
      show "\<exists>w. version_present cx ?new n = Some w \<and> satisfies_constraint w c"
      proof (cases "n = k")
        case False
        with other v show ?thesis by simp
      next
        case True
        with v foreign current obtain cur where cur: "current = Some cur" "i_enabled cur" "i_installed_version cur = v"
          by (auto simp: version_present_def split: option.split_asm if_split_asm)
        then have on: "is_enabled current" by (simp add: is_enabled_def)
        have depend: "\<exists>v. (if action = ''disable'' then None else tr_to_version tr) = Some v \<and> satisfies_constraint v c"
          if "action \<in> {''disable'', ''upgrade'', ''rollback''}"
          using clear_dependents [OF clear_plan(6) [OF plan on that] dbinv j(1-5)] n True by blast
        show ?thesis
        proof (cases rule: next_row [OF plan tr action key i p])
          case 1
          with on depend show ?thesis by simp
        next
          case (2 c')
          with cur True v show ?thesis by (simp add: version_present_def)
        next
          case (3 t)
          with on depend True show ?thesis by (fastforce simp: version_present_def)
        qed
      qed
    qed
  qed
  have own: "dependency_met (version_present cx ?new) dep"
    if on: "i_enabled i" and e: "entry cx k (i_installed_version i) = Some e" and dep: "dep \<in> set (e_dependencies e)" for e dep
  proof (cases rule: next_row [OF plan tr action key i p])
    case 1
    with on show ?thesis by simp
  next
    case (2 c)
    then have "version_present cx ?new n = version_present cx ?old n" for n
      using current by (simp add: version_present_def)
    moreover have "dependency_met (version_present cx ?old) dep"
      using ok 2 current on e dep unfolding deps_ok_def by metis
    ultimately show ?thesis by (auto simp: dependency_met_def)
  next
    case (3 t)
    then have "e = t" using e by simp
    with clear_assess(2) [OF 3(6)] dep
    have "dependency_met (\<lambda>n. if n = k then None else version_present cx ?old n) dep"
      using foreign 3(7) by (simp add: check_pack_compatible manifest_version [OF dbinv] to_manifest_def cong: if_cong)
    then show ?thesis
      by (rule dependency_met_mono) (auto simp: other split: if_split_asm)
  qed
  show ?thesis
    unfolding deps_ok_def using kept own by (metis fun_upd_apply option.inject)
qed

end
