(* ===== verification/PackSafety.thy ===== *)
theory PackSafety
  imports PackLifecycle
begin

text \<open>
  Publication safety of pack changes (\<open>_publication_changes\<close> and the conflict check of
  \<open>assess_entry\<close>): enabled packs never provide the same publication, and an allowed change never
  takes away a publication that another enabled pack requires.
\<close>

definition provided_by :: "pack_context \<Rightarrow> (string \<Rightarrow> 'c installation option) \<Rightarrow> string \<Rightarrow> string set" where
  "provided_by cx packs k = (case enabled_entry cx k (packs k) of None \<Rightarrow> {}
     | Some e \<Rightarrow> set (provided_publication_keys e))"

definition pubs_ok :: "pack_context \<Rightarrow> (string \<Rightarrow> 'c installation option) \<Rightarrow> bool" where
  "pubs_ok cx packs \<longleftrightarrow> (\<forall>j k. j \<noteq> k \<longrightarrow> provided_by cx packs j \<inter> provided_by cx packs k = {})"

lemma installed_entries_iff:
  assumes "pack_inv db" and "j \<noteq> x"
  shows "(\<exists>i. (i, Some e) \<in> set (installed_entries cx db x) \<and> i_pack_key i = j) \<longleftrightarrow>
    enabled_entry cx j (get_pack_installation db j) = Some e"
proof
  assume "\<exists>i. (i, Some e) \<in> set (installed_entries cx db x) \<and> i_pack_key i = j"
  then show "enabled_entry cx j (get_pack_installation db j) = Some e"
    using assms by (auto simp: installed_entries_def set_list_installations enabled_entry_def)
next
  assume e: "enabled_entry cx j (get_pack_installation db j) = Some e"
  then obtain i where i: "get_pack_installation db j = Some i" "i_enabled i" "entry cx j (i_installed_version i) = Some e"
    by (auto simp: enabled_entry_def split: option.split_asm if_split_asm)
  with get_key [OF i(1)] assms show "\<exists>i. (i, Some e) \<in> set (installed_entries cx db x) \<and> i_pack_key i = j"
    by (intro exI [of _ i]) (auto simp: installed_entries_def set_list_installations)
qed

lemma installed_publications_has:
  assumes "pack_inv db" and "j \<noteq> x" and "enabled_entry cx j (get_pack_installation db j) = Some e"
    and "key \<in> set (provided_publication_keys e)"
  shows "map_of (installed_publications cx db x) key \<noteq> None"
proof -
  obtain i where "(i, Some e) \<in> set (installed_entries cx db x)"
    using installed_entries_iff [OF assms(1,2)] assms(3) by blast
  with assms(4) have "key \<in> fst ` set (concat (map (\<lambda>(i, e). case e of None \<Rightarrow> []
       | Some en \<Rightarrow> map (\<lambda>k. (k, i_pack_key i)) (provided_publication_keys en)) (installed_entries cx db x)))"
    by (force simp: image_iff)
  then show ?thesis
    by (simp add: installed_publications_def map_of_eq_None_iff dict_of_keys flip: set_map)
qed

lemma next_after:
  assumes plan: "clear (plan_diagnostics cx db k action current tr)"
    and tr: "tr = transition_of cx k action version current"
    and action: "action \<in> set PACK_LIFECYCLE_ACTIONS"
    and current: "\<forall>i. current = Some i \<longrightarrow> i_pack_key i = k"
    and i: "next_installation cx p current = Inr i" and p: "pl_target p = tr_target tr" "pl_action p = action"
  shows "enabled_entry cx k (Some i) = tr_after_entry tr"
proof (cases current)
  case None
  then have "action = ''install''"
    using i p by (simp add: next_installation_def Let_def split: if_split_asm)
  moreover from this obtain t where t: "tr_target tr = Some t"
    using clear_plan(2) [OF plan] by (auto simp: target_required_def)
  ultimately show ?thesis
    using i p tr transition_target [OF tr t]
    by (auto simp: enabled_entry_def next_installation_def Let_def transition_of_def install_transition_def)
next
  case (Some c)
  note clear = clear_plan [OF plan]
  have moved: ?thesis if "tr_target tr = Some t" "i_enabled i = i_enabled c" "i_installed_version i = e_version t"
    "tr_after_entry tr = (if i_enabled c then tr_target tr else None)" for t
    using that transition_target [OF tr that(1)] by (simp add: enabled_entry_def)
  from action show ?thesis
  proof (cases rule: actions)
    case 1
    with clear(1) Some tr show ?thesis by (simp add: transition_of_def install_transition_def Let_def)
  next
    case 2
    then obtain t where t: "tr_target tr = Some t"
      using clear(2) Some by (auto simp: target_required_def)
    then show ?thesis
      using 2 i p Some tr by (intro moved [OF t])
        (auto simp: next_installation_def Let_def transition_of_def upgrade_transition_def)
  next
    case 3
    then obtain t where t: "tr_target tr = Some t"
      using clear(1,2) Some tr
      by (cases "i_previous_version c") (auto simp: target_required_def transition_of_def rollback_transition_def Let_def)
    then obtain v where "i_previous_version c = Some v"
      using 3 Some tr by (cases "i_previous_version c") (auto simp: transition_of_def rollback_transition_def Let_def)
    then show ?thesis
      using 3 i p Some tr t by (intro moved [OF t])
        (auto simp: next_installation_def Let_def transition_of_def rollback_transition_def)
  next
    case 4
    then show ?thesis
      using i p Some tr by (auto simp: enabled_entry_def next_installation_def Let_def transition_of_def stay_transition_def)
  next
    case 5
    then show ?thesis
      using i p Some tr by (auto simp: enabled_entry_def next_installation_def Let_def transition_of_def enable_transition_def)
  next
    case 6
    then show ?thesis
      using i p Some tr by (auto simp: enabled_entry_def next_installation_def Let_def transition_of_def stay_transition_def)
  next
    case 7
    then show ?thesis
      using i p Some tr by (auto simp: enabled_entry_def next_installation_def Let_def transition_of_def stay_transition_def)
  qed
qed

text \<open>No publication gets a second provider.\<close>

lemma pubs_preserved:
  assumes plan: "clear (plan_diagnostics cx db k action current tr)"
    and tr: "tr = transition_of cx k action version current"
    and action: "action \<in> set PACK_LIFECYCLE_ACTIONS"
    and current: "current = get_pack_installation db k"
    and i: "next_installation cx p current = Inr i" and p: "pl_target p = tr_target tr" "pl_action p = action"
    and dbinv: "pack_inv db" and ok: "pubs_ok cx (get_pack_installation db)"
  shows "pubs_ok cx ((get_pack_installation db)(k \<mapsto> i))"
proof -
  let ?old = "get_pack_installation db" and ?new = "(get_pack_installation db)(k \<mapsto> i)"
  have key: "\<forall>c. current = Some c \<longrightarrow> i_pack_key c = k" by (simp add: current get_key)
  have clash: "provided_by cx ?old j \<inter> provided_by cx ?new k = {}" if "j \<noteq> k" for j
  proof (cases rule: next_row [OF plan tr action key i p])
    case 1
    then show ?thesis by (simp add: provided_by_def enabled_entry_def)
  next
    case (2 c)
    then have "provided_by cx ?new k = provided_by cx ?old k"
      using current by (auto simp: provided_by_def enabled_entry_def)
    then show ?thesis using ok that by (simp add: pubs_ok_def)
  next
    case (3 t)
    have "provided_by cx ?new k = set (provided_publication_keys t)"
      using 3 by (simp add: provided_by_def enabled_entry_def)
    moreover have False if x: "x \<in> set (provided_publication_keys t)" "x \<in> provided_by cx ?old j" for x
    proof -
      have "owner_of (platform_publications cx k) (installed_publications cx db k) x = None"
        using clear_assess(3) [OF 3(6) x(1)] 3(7) by simp
      moreover obtain e where "enabled_entry cx j (?old j) = Some e" "x \<in> set (provided_publication_keys e)"
        using x(2) by (auto simp: provided_by_def split: option.split_asm)
      ultimately show ?thesis
        using installed_publications_has [OF dbinv \<open>j \<noteq> k\<close>]
        by (fastforce simp: owner_of_def split: option.split_asm list.split_asm)
    qed
    ultimately show ?thesis by blast
  qed
  have rest: "provided_by cx ?new j = provided_by cx ?old j" if "j \<noteq> k" for j
    using that by (simp add: provided_by_def)
  show ?thesis
    unfolding pubs_ok_def
  proof (intro allI impI)
    fix a b :: string assume "a \<noteq> b"
    then show "provided_by cx ?new a \<inter> provided_by cx ?new b = {}"
      using clash rest ok unfolding pubs_ok_def by (cases "a = k"; cases "b = k") (simp_all, blast+)
  qed
qed

text \<open>A publication another enabled pack requires does not disappear.\<close>

lemma schemas_keys: "map_of (schemas_of e) key \<noteq> None \<longleftrightarrow>
    (\<exists>en. e = Some en \<and> key \<in> set (provided_publication_keys en))"
proof (cases e)
  case (Some en)
  have "map_of (schemas_of e) key \<noteq> None \<longleftrightarrow> key \<in> set (map fst (schemas_of e))"
    by (simp add: map_of_eq_None_iff)
  also have "set (map fst (schemas_of e)) = set (provided_publication_keys en)"
    unfolding Some schemas_of_def option.case dict_of_keys provided_publication_keys_def
    by (simp add: image_image)
  finally show ?thesis using Some by simp
qed (simp add: schemas_of_def)

lemma required_kept:
  assumes plan: "clear (plan_diagnostics cx db k action current tr)" and some: "current \<noteq> None"
    and dbinv: "pack_inv db" and j: "j \<noteq> k" "enabled_entry cx j (get_pack_installation db j) = Some e"
    and r: "r \<in> set (e_requires_publications e)"
    and was: "enabled_entry cx k current = Some b" "r \<in> set (provided_publication_keys b)"
  shows "\<exists>a. tr_after_entry tr = Some a \<and> r \<in> set (provided_publication_keys a)"
proof (rule ccontr)
  assume gone: "\<not> ?thesis"
  let ?before = "schemas_of (enabled_entry cx k current)" and ?after = "schemas_of (tr_after_entry tr)"
  have before: "map_of ?before r \<noteq> None" and after: "map_of ?after r = None"
    using schemas_keys was gone by blast+
  obtain i where "(i, Some e) \<in> set (installed_entries cx db k)"
    using installed_entries_iff [OF dbinv j(1)] j(2) by blast
  with r have dependents: "requirers cx db k r \<noteq> []"
    by (force simp: requirers_def filter_empty_conv)
  have "clear (snd (publication_change_at ?before ?after (requirers cx db k) r))"
  proof -
    have "r \<in> set (sorted_unique (map fst ?before @ map fst ?after))"
      using before by (simp add: map_of_eq_None_iff)
    moreover have "clear (snd (publication_changes cx db k (enabled_entry cx k current) (tr_after_entry tr)))"
      using clear_plan(5) [OF plan] some by blast
    ultimately show ?thesis
      by (simp add: publication_changes_def Let_def)
  qed
  then show False
    using before after dependents by (simp add: publication_change_at_def Let_def sort_eq_Nil)
qed

end
