(* ===== verification/PackClaims.thy ===== *)
theory PackClaims
  imports PackSafety
begin

text \<open>What the pack lifecycle guarantees, each with a run on a small registry.\<close>

section \<open>A small registry\<close>

definition demo_entry :: "string \<Rightarrow> string \<Rightarrow> string list \<Rightarrow> string list \<Rightarrow> string list \<Rightarrow> catalog_entry" where
  "demo_entry k v deps pubs needs = \<lparr>e_pack_key = k, e_display_name = k, e_version = v, e_pack_kind = ''domain'',
     e_trust_level = Community, e_description = '''', e_requires_platform_version = ''>=0.1'',
     e_dependencies = deps, e_publications = map (\<lambda>p. \<lparr>pc_publication_key = p, pc_schema_version = ''1.0.0''\<rparr>) pubs,
     e_requires_publications = needs, e_source_id = ''s'', e_source_name = ''src'', e_revision_id = ''r'',
     e_manifest_digest = ''m'', e_entry_digest = k @ v\<rparr>"

definition demo_cx :: pack_context where
  "demo_cx = \<lparr>cx_entries = [demo_entry ''acme'' ''1.0.0'' [] [''tariffs''] [],
       demo_entry ''acme'' ''1.1.0'' [] [''tariffs''] [],
       demo_entry ''solar'' ''2.0.0'' [''acme>=1.0''] [''yield''] [''tariffs'']],
     cx_platform_packs = [\<lparr>pp_name = ''finance'', pp_version = ''0.5.0'', pp_publications = [''cash'']\<rparr>],
     cx_platform_version = ''0.2.0''\<rparr>"

definition demo_who :: pack_actor where
  "demo_who = \<lparr>actor = ''ann'', actor_role = Some ''admin'', actor_auth_provider = ''local'', actor_authenticated = True\<rparr>"

definition demo_installed :: "string \<Rightarrow> string \<Rightarrow> compatibility_snapshot installation_row" where
  "demo_installed k v = installation_params \<lparr>i_pack_key = k, i_display_name = k, i_pack_kind = ''domain'',
     i_trust_level = Community, i_installed_version = v, i_previous_version = None, i_pinned_version = None,
     i_enabled = True, i_source_id = ''s'', i_revision_id = ''r'', i_entry_digest = k @ v,
     i_previous_entry_digest = None, i_available_versions = [v],
     i_snapshot = \<lparr>sn_status = ''compatible'', sn_platform_version = ''0.2.0'', sn_checked_at = 1,
       sn_issues = [], sn_warnings = []\<rparr>, i_installed_at = 1, i_updated_at = 1\<rparr>"

definition demo_packs :: plan_db where
  "demo_packs = \<lparr>pdb_installations = [demo_installed ''acme'' ''1.0.0'', demo_installed ''solar'' ''2.0.0''],
     pdb_events = []\<rparr>"

abbreviation demo_apply :: "string \<Rightarrow> string \<Rightarrow> string option \<Rightarrow> (apply_error + change_result) \<times> plan_db" where
  "demo_apply k action version \<equiv> apply_pack_change demo_cx quiet ''1'' 5 demo_packs k action version ''why'' demo_who False"

definition succeeds :: "('e + 'a) \<times> 's \<Rightarrow> bool" where
  "succeeds r = (case fst r of Inl _ \<Rightarrow> False | Inr _ \<Rightarrow> True)"

lemma succeedsE: "succeeds r \<Longrightarrow> \<exists>x. r = (Inr x, snd r)"
  by (cases r; cases "fst r") (auto simp: succeeds_def)

lemma demo_runs:
  "succeeds (demo_apply ''acme'' ''upgrade'' None)" "\<not> succeeds (demo_apply ''acme'' ''disable'' None)"
  by code_simp+

lemma demo_inv: "pack_inv demo_packs"
  by (simp add: pack_inv_def demo_packs_def demo_installed_def)

lemma demo_get: "get_pack_installation demo_packs k = Some i \<Longrightarrow>
    k = ''acme'' \<and> i = deserialize_installation (demo_installed ''acme'' ''1.0.0'') \<or>
    k = ''solar'' \<and> i = deserialize_installation (demo_installed ''solar'' ''2.0.0'')"
  by (auto simp: get_pack_installation_def demo_packs_def demo_installed_def split: if_splits)

lemma demo_deps: "deps_ok demo_cx (get_pack_installation demo_packs)"
proof -
  have "entry demo_cx ''acme'' ''1.0.0'' = Some (demo_entry ''acme'' ''1.0.0'' [] [''tariffs''] [])"
    and "entry demo_cx ''solar'' ''2.0.0'' = Some (demo_entry ''solar'' ''2.0.0'' [''acme>=1.0''] [''yield''] [''tariffs''])"
    by code_simp+
  moreover have "version_present demo_cx (get_pack_installation demo_packs) ''acme'' = Some ''1.0.0''"
    by code_simp
  moreover have "split_dependency ''acme>=1.0'' = (''acme'', ''>=1.0'')" "satisfies_constraint ''1.0.0'' ''>=1.0''"
    by code_simp+
  ultimately show ?thesis
    unfolding deps_ok_def
    by (auto dest!: demo_get simp: demo_installed_def demo_entry_def dependency_met_def)
qed

lemma demo_pubs: "pubs_ok demo_cx (get_pack_installation demo_packs)"
proof -
  have entries: "entry demo_cx ''acme'' ''1.0.0'' = Some (demo_entry ''acme'' ''1.0.0'' [] [''tariffs''] [])"
    "entry demo_cx ''solar'' ''2.0.0'' = Some (demo_entry ''solar'' ''2.0.0'' [''acme>=1.0''] [''yield''] [''tariffs''])"
    by code_simp+
  have sub: "provided_by demo_cx (get_pack_installation demo_packs) k \<subseteq>
      (if k = ''acme'' then {''tariffs''} else if k = ''solar'' then {''yield''} else {})" for k
    using entries by (cases "get_pack_installation demo_packs k")
      (auto dest!: demo_get simp: provided_by_def enabled_entry_def demo_installed_def
        provided_publication_keys_def demo_entry_def)
  have owner: "k = ''acme'' \<and> x = ''tariffs'' \<or> k = ''solar'' \<and> x = ''yield''"
    if "x \<in> provided_by demo_cx (get_pack_installation demo_packs) k" for k x
    using subsetD [OF sub that] by (simp split: if_split_asm)
  show ?thesis
    unfolding pubs_ok_def
  proof (intro allI impI equals0I)
    fix j k :: string and y
    assume "j \<noteq> k" and y: "y \<in> provided_by demo_cx (get_pack_installation demo_packs) j \<inter>
      provided_by demo_cx (get_pack_installation demo_packs) k"
    from owner [OF IntD1 [OF y]] owner [OF IntD2 [OF y]] \<open>j \<noteq> k\<close> show False by auto
  qed
qed

lemma demo_upgrade:
  obtains r s' where "demo_apply ''acme'' ''upgrade'' None = (Inr r, s')"
  using succeedsE [OF demo_runs(1)] by blast

section \<open>Guarantees\<close>



text \<open>whatever other operators do between the second read of a change and its write, a change is
  applied only while version, enablement and pin of the pack are those it was planned for, and then
  exactly the planned row and one audit event are written.\<close>
theorem write_is_compare_and_set:
  assumes "gap 1 = id" and "\<not> dry"
    and "apply_pack_change cx gap uid now s k action version reason who dry = (Inr r, s')"
  shows "(case get_pack_installation (gap 2 (gap 0 s)) k of
      None \<Rightarrow> get_pack_installation (gap 0 s) k = None
    | Some c \<Rightarrow> \<exists>d. get_pack_installation (gap 0 s) k = Some d \<and> i_installed_version c = i_installed_version d \<and>
        i_enabled c = i_enabled d \<and> i_pinned_version c = i_pinned_version d) \<and>
    get_pack_installation s' = (get_pack_installation (gap 2 (gap 0 s)))(k := cr_installation r) \<and>
    pdb_events s' = pdb_events (gap 2 (gap 0 s)) @ [the (cr_event r)]"
proof (rule applied_change [OF assms(3,1,2)])
  fix current i tr
  assume *: "current = get_pack_installation (gap 0 s) k" "tr = transition_of cx k action version current"
    "action \<in> set PACK_LIFECYCLE_ACTIONS" "clear (plan_diagnostics cx (gap 0 s) k action current tr)"
    "next_installation cx (cr_plan r) current = Inr i" "pl_target (cr_plan r) = tr_target tr"
    "pl_action (cr_plan r) = action"
    "get_pack_installation s' = (get_pack_installation (gap 2 (gap 0 s)))(i_pack_key i \<mapsto> i)"
    "matches_expectation (get_pack_installation (gap 2 (gap 0 s)) (i_pack_key i)) (expectation_of current)"
    "pdb_events s' = pdb_events (gap 2 (gap 0 s)) @ [the (cr_event r)]"
    "cr_installation r = Some i"
  then have "\<forall>c. current = Some c \<longrightarrow> i_pack_key c = k" by (simp add: get_key)
  from next_step [OF *(4,2,3) this *(5-7)] have key: "i_pack_key i = k" by blast
  have "case get_pack_installation (gap 2 (gap 0 s)) k of None \<Rightarrow> current = None
    | Some c \<Rightarrow> \<exists>d. current = Some d \<and> i_installed_version c = i_installed_version d \<and>
        i_enabled c = i_enabled d \<and> i_pinned_version c = i_pinned_version d"
    using *(9) unfolding key matches_expectation_def expectation_of_def
    by (cases current) (auto split: option.split_asm if_split_asm)
  with *(8,10,11) key show ?thesis unfolding *(1) [symmetric] by simp
qed

theorem write_is_compare_and_set_witness:
  "\<exists>r s'. demo_apply ''acme'' ''upgrade'' None = (Inr r, s') \<and> pdb_events s' = [the (cr_event r)]"
proof -
  obtain r s' where r: "demo_apply ''acme'' ''upgrade'' None = (Inr r, s')" by (rule demo_upgrade)
  from write_is_compare_and_set [OF _ _ r] r show ?thesis by (auto simp: demo_packs_def)
qed

text \<open>C9: if every enabled pack finds its dependencies present at versions its constraints accept when a
  change is planned, nobody writes between plan and second read, no other pack changes before the
  write, and the changed pack does not carry the name of a platform pack, then after the applied
  change they still do, the changed pack as all others.  The tables hold one row per pack and per event.\<close>
theorem dependencies_stay_satisfied:
  assumes "apply_pack_change cx gap uid now s k action version reason who dry = (Inr r, s')"
    and "gap 1 = id" and "\<And>j. j \<noteq> k \<Longrightarrow> get_pack_installation (gap 2 (gap 0 s)) j = get_pack_installation (gap 0 s) j"
    and "\<not> dry" and "pack_inv (gap 0 s)" and "deps_ok cx (get_pack_installation (gap 0 s))"
    and "platform_version_of cx k = None"
  shows "deps_ok cx (get_pack_installation s')"
proof (rule applied_change [OF assms(1,2,4)])
  fix current i tr
  assume *: "current = get_pack_installation (gap 0 s) k" "tr = transition_of cx k action version current"
    "action \<in> set PACK_LIFECYCLE_ACTIONS" "clear (plan_diagnostics cx (gap 0 s) k action current tr)"
    "next_installation cx (cr_plan r) current = Inr i" "pl_target (cr_plan r) = tr_target tr"
    "pl_action (cr_plan r) = action"
    "get_pack_installation s' = (get_pack_installation (gap 2 (gap 0 s)))(i_pack_key i \<mapsto> i)"
  then have "\<forall>c. current = Some c \<longrightarrow> i_pack_key c = k" by (simp add: get_key)
  from next_step [OF *(4,2,3) this *(5-7)] have "i_pack_key i = k" by blast
  moreover have "(get_pack_installation (gap 2 (gap 0 s)))(k \<mapsto> i) = (get_pack_installation (gap 0 s))(k \<mapsto> i)"
    using assms(3) by (simp add: fun_eq_iff)
  ultimately show ?thesis using deps_preserved [OF *(4,2,3,1,5-7) assms(5-7)] *(8) by simp
qed

theorem dependencies_stay_satisfied_witness:
  "\<exists>r s'. demo_apply ''acme'' ''upgrade'' None = (Inr r, s') \<and> deps_ok demo_cx (get_pack_installation s')"
proof -
  obtain r s' where r: "demo_apply ''acme'' ''upgrade'' None = (Inr r, s')" by (rule demo_upgrade)
  have "platform_version_of demo_cx ''acme'' = None" by code_simp
  with dependencies_stay_satisfied [OF r] demo_inv demo_deps r show ?thesis by auto
qed

text \<open>C10: if no publication has two providers among the enabled packs when a change is planned, nobody
  writes between plan and second read and no other pack changes before the write, then none has two
  after the applied change.  The tables hold one row per pack and per event.\<close>
theorem publications_stay_unique:
  assumes "apply_pack_change cx gap uid now s k action version reason who dry = (Inr r, s')"
    and "gap 1 = id" and "\<And>j. j \<noteq> k \<Longrightarrow> get_pack_installation (gap 2 (gap 0 s)) j = get_pack_installation (gap 0 s) j"
    and "\<not> dry" and "pack_inv (gap 0 s)" and "pubs_ok cx (get_pack_installation (gap 0 s))"
  shows "pubs_ok cx (get_pack_installation s')"
proof (rule applied_change [OF assms(1,2,4)])
  fix current i tr
  assume *: "current = get_pack_installation (gap 0 s) k" "tr = transition_of cx k action version current"
    "action \<in> set PACK_LIFECYCLE_ACTIONS" "clear (plan_diagnostics cx (gap 0 s) k action current tr)"
    "next_installation cx (cr_plan r) current = Inr i" "pl_target (cr_plan r) = tr_target tr"
    "pl_action (cr_plan r) = action"
    "get_pack_installation s' = (get_pack_installation (gap 2 (gap 0 s)))(i_pack_key i \<mapsto> i)"
  then have "\<forall>c. current = Some c \<longrightarrow> i_pack_key c = k" by (simp add: get_key)
  from next_step [OF *(4,2,3) this *(5-7)] have "i_pack_key i = k" by blast
  moreover have "(get_pack_installation (gap 2 (gap 0 s)))(k \<mapsto> i) = (get_pack_installation (gap 0 s))(k \<mapsto> i)"
    using assms(3) by (simp add: fun_eq_iff)
  ultimately show ?thesis using pubs_preserved [OF *(4,2,3,1,5-7) assms(5,6)] *(8) by simp
qed

theorem publications_stay_unique_witness:
  "\<exists>r s'. demo_apply ''acme'' ''upgrade'' None = (Inr r, s') \<and> pubs_ok demo_cx (get_pack_installation s')"
proof -
  obtain r s' where r: "demo_apply ''acme'' ''upgrade'' None = (Inr r, s')" by (rule demo_upgrade)
  from publications_stay_unique [OF r] demo_inv demo_pubs r show ?thesis by auto
qed

text \<open>The compare-and-set guards only the changed pack's own row: two packs that are enabled at the same
  time can end up providing the same publication, although enabled one after the other the second is
  refused.\<close>

definition rival_cx :: pack_context where
  "rival_cx = demo_cx\<lparr>cx_entries := [demo_entry ''acme'' ''1.0.0'' [] [''tariffs''] [],
     demo_entry ''rival'' ''1.0.0'' [] [''tariffs''] []]\<rparr>"

definition rival_packs :: plan_db where
  "rival_packs = \<lparr>pdb_installations = map (\<lambda>k. (demo_installed k ''1.0.0'')\<lparr>r_enabled := 0\<rparr>) [''acme'', ''rival''],
     pdb_events = []\<rparr>"

abbreviation rival_enable :: "(nat \<Rightarrow> plan_db \<Rightarrow> plan_db) \<Rightarrow> plan_db \<Rightarrow> string \<Rightarrow> (apply_error + change_result) \<times> plan_db" where
  "rival_enable gap s k \<equiv> apply_pack_change rival_cx gap k 5 s k ''enable'' None ''why'' demo_who False"

lemma concurrent_enables_share_publication:
  "succeeds (rival_enable quiet rival_packs ''acme'')"
  "\<not> succeeds (rival_enable quiet (snd (rival_enable quiet rival_packs ''acme'')) ''rival'')"
  "succeeds (rival_enable (\<lambda>i db. if i = 2 then snd (rival_enable quiet db ''acme'') else db) rival_packs ''rival'')"
  "list_all (\<lambda>k. ''tariffs'' \<in> provided_by rival_cx (get_pack_installation
     (snd (rival_enable (\<lambda>i db. if i = 2 then snd (rival_enable quiet db ''acme'') else db) rival_packs ''rival''))) k)
     [''acme'', ''rival'']"
  by (code_simp, code_simp, code_simp, unfold provided_by_def, code_simp)

text \<open>an applied change never takes away a publication that another enabled pack requires: if the
  changed pack provided it, it still does.\<close>
theorem required_publications_stay:
  assumes "apply_pack_change cx gap uid now s k action version reason who dry = (Inr r, s')"
    and "gap 1 = id" and "gap 2 = id" and "\<not> dry" and "pack_inv (gap 0 s)"
    and "j \<noteq> k" and "enabled_entry cx j (get_pack_installation (gap 0 s) j) = Some e"
    and "x \<in> set (e_requires_publications e)" and "x \<in> provided_by cx (get_pack_installation (gap 0 s)) k"
  shows "x \<in> provided_by cx (get_pack_installation s') k"
proof (rule applied_change [OF assms(1,2,4)])
  fix current i tr
  assume *: "current = get_pack_installation (gap 0 s) k" "tr = transition_of cx k action version current"
    "action \<in> set PACK_LIFECYCLE_ACTIONS" "clear (plan_diagnostics cx (gap 0 s) k action current tr)"
    "next_installation cx (cr_plan r) current = Inr i" "pl_target (cr_plan r) = tr_target tr"
    "pl_action (cr_plan r) = action"
    "get_pack_installation s' = (get_pack_installation (gap 2 (gap 0 s)))(i_pack_key i \<mapsto> i)"
  then have key: "\<forall>c. current = Some c \<longrightarrow> i_pack_key c = k" by (simp add: get_key)
  have "i_pack_key i = k" using next_step [OF *(4,2,3) key *(5-7)] by blast
  moreover obtain b where b: "enabled_entry cx k current = Some b" "x \<in> set (provided_publication_keys b)"
    using assms(9) *(1) by (auto simp: provided_by_def split: option.split_asm)
  moreover from b have "current \<noteq> None" by (cases current) (simp_all add: enabled_entry_def)
  ultimately show ?thesis
    using required_kept [OF *(4) _ assms(5-8) b] next_after [OF *(4,2,3) key *(5-7)] *(8)
    by (auto simp: provided_by_def)
qed

theorem required_publications_stay_witness:
  "\<exists>r s'. demo_apply ''acme'' ''upgrade'' None = (Inr r, s') \<and>
     ''tariffs'' \<in> provided_by demo_cx (get_pack_installation s') ''acme''"
proof -
  obtain r s' where r: "demo_apply ''acme'' ''upgrade'' None = (Inr r, s')" by (rule demo_upgrade)
  have "enabled_entry demo_cx ''solar'' (get_pack_installation demo_packs ''solar'') =
      Some (demo_entry ''solar'' ''2.0.0'' [''acme>=1.0''] [''yield''] [''tariffs''])"
    by code_simp
  moreover have "''tariffs'' \<in> provided_by demo_cx (get_pack_installation demo_packs) ''acme''"
    unfolding provided_by_def by code_simp
  ultimately show ?thesis
    using required_publications_stay [OF r, of "''solar''"] demo_inv r by (auto simp: demo_entry_def)
qed





text \<open>a version constraint is the conjunction of its comma-separated parts, however the parts
  themselves are made up.\<close>
theorem constraint_is_conjunction:
  "satisfies_constraint v (c @ '','' @ d) \<longleftrightarrow> satisfies_constraint v c \<and> satisfies_constraint v d"
  by (rule satisfies_conj)

text \<open>the compatibility check passes exactly when the platform version satisfies the manifest's
  constraint and every declared dependency is installed at a version its constraint accepts.\<close>
theorem compatibility_check_exact:
  "is_compatible (check_pack pv installed known manifest) \<longleftrightarrow>
    satisfies_constraint pv (m_requires_platform_version manifest) \<and>
    list_all (dependency_met (\<lambda>k. map_option m_version (map_of installed k))) (m_dependencies manifest)"
  by (simp add: check_pack_compatible list_all_iff)

end
