(* ===== verification/Json.thy ===== *)
theory Json
  imports PyText
begin

text \<open>
  JSON documents as the code builds them (texts, integers, booleans, null, arrays, objects in
  insertion order) and \<open>json.dumps(.., sort_keys=True)\<close> with its default ASCII escapes.
\<close>

datatype json = JNull | JBool bool | JNum int | JStr string | JArr "json list" | JObj "(string \<times> json) list"

definition j_opt :: "string option \<Rightarrow> json" where
  "j_opt x = (case x of None \<Rightarrow> JNull | Some s \<Rightarrow> JStr s)"

definition j_texts :: "string list \<Rightarrow> json" where
  "j_texts xs = JArr (map JStr xs)"

fun j_get :: "string \<Rightarrow> json \<Rightarrow> json option" where
  "j_get k (JObj fields) = map_of fields k"
| "j_get k _ = None"

definition hex_digit :: "nat \<Rightarrow> char" where
  "hex_digit n = (if n < 10 then char_of (48 + n) else char_of (87 + n))"

definition escape_char :: "char \<Rightarrow> string" where
  "escape_char c = (let n = (of_char c :: nat) in
     if n = 34 then [char_of (92 :: nat), c]
     else if n = 92 then [c, c]
     else if n = 10 then [char_of (92 :: nat), CHR ''n'']
     else if n = 13 then [char_of (92 :: nat), CHR ''r'']
     else if n = 9 then [char_of (92 :: nat), CHR ''t'']
     else if n = 8 then [char_of (92 :: nat), CHR ''b'']
     else if n = 12 then [char_of (92 :: nat), CHR ''f'']
     else if 32 \<le> n \<and> n \<le> 126 then [c]
     else [char_of (92 :: nat), CHR ''u'', CHR ''0'', CHR ''0'', hex_digit (n div 16), hex_digit (n mod 16)])"

definition quoted :: "string \<Rightarrow> string" where
  "quoted s = [char_of (34 :: nat)] @ concat (map escape_char s) @ [char_of (34 :: nat)]"

fun dumps :: "json \<Rightarrow> string" where
  "dumps JNull = ''null''"
| "dumps (JBool b) = (if b then ''true'' else ''false'')"
| "dumps (JNum n) = int_text n"
| "dumps (JStr s) = quoted s"
| "dumps (JArr xs) = ''['' @ join_texts '', '' (map dumps xs) @ '']''"
| "dumps (JObj fields) = ''{'' @ join_texts '', ''
     (map (\<lambda>(k, t). quoted k @ '': '' @ t) (sort_key fst (map (\<lambda>(k, v). (k, dumps v)) fields))) @ ''}''"

end
