(* ===== verification/AdapterRegistry.thy ===== *)
theory AdapterRegistry
  imports PackVersions Json Prelude
begin

text \<open>
  Adapter packs in the process (\<open>packages/adapters/contracts.py\<close>, \<open>registry.py\<close>,
  \<open>instance_registry.py\<close>, \<open>entity_correlation.py\<close>, \<open>compatibility.py\<close>): the registry of packs
  with their activation, the registry of live instances, the correlation of entity names, and the
  structural checks of a pack.  Each dictionary is an association list in insertion order and each
  call is one step, as its lock makes it.
\<close>

section \<open>Manifests\<close>

datatype adapter_direction = Ingest | Publish | Action | Observe

definition direction_value :: "adapter_direction \<Rightarrow> string" where
  "direction_value d = (case d of Ingest \<Rightarrow> ''ingest'' | Publish \<Rightarrow> ''publish'' | Action \<Rightarrow> ''action'' | Observe \<Rightarrow> ''observe'')"

definition trust_value :: "trust_level \<Rightarrow> string" where
  "trust_value t = (case t of Verified \<Rightarrow> ''verified'' | Community \<Rightarrow> ''community'' | Local \<Rightarrow> ''local'')"

record adapter_manifest =
  am_adapter_key :: string
  am_display_name :: string
  am_version :: string
  am_supported_directions :: "adapter_direction list"
  am_supported_entity_classes :: "string list"
  am_credential_requirements :: "string list"
  am_health_check_contract :: string
  am_target_capabilities :: "string list"

record renderer_manifest =
  rm_renderer_key :: string
  rm_display_name :: string
  rm_version :: string
  rm_supported_formats :: "string list"
  rm_supported_publication_keys :: "string list"
  rm_supported_publication_versions :: "string list"

type_synonym pack = "(adapter_manifest, renderer_manifest) adapter_pack"

section \<open>The registry of packs\<close>

record adapter_registry =
  rg_packs :: "(string \<times> pack) list"
  rg_active :: "(string \<times> bool) list"

datatype adapter_error =
    Value_error string
  | Key_error string
  | Illegal_pack_transition string

definition empty_registry :: adapter_registry where
  "empty_registry = \<lparr> rg_packs = [], rg_active = [] \<rparr>"

definition get_pack :: "adapter_registry \<Rightarrow> string \<Rightarrow> pack option" where
  "get_pack rg k = map_of (rg_packs rg) k"

definition is_active :: "adapter_registry \<Rightarrow> string \<Rightarrow> bool" where
  "is_active rg k = (case map_of (rg_active rg) k of None \<Rightarrow> False | Some b \<Rightarrow> b)"

definition not_registered :: "string \<Rightarrow> adapter_error" where
  "not_registered k = Key_error (''Pack '' @ [char_of (39::nat)] @ k @ [char_of (39::nat)] @ '' is not registered'')"

definition register_pack :: "pack \<Rightarrow> adapter_registry \<Rightarrow> adapter_error + adapter_registry" where
  "register_pack p rg = (let k = ap_pack_key p in
     if get_pack rg k \<noteq> None
     then Inl (Value_error (''Pack with key '' @ [char_of (39::nat)] @ k @ [char_of (39::nat)] @ '' is already registered''))
     else Inr \<lparr> rg_packs = AList.update k p (rg_packs rg), rg_active = AList.update k False (rg_active rg) \<rparr>)"

definition set_active :: "bool \<Rightarrow> string \<Rightarrow> adapter_registry \<Rightarrow> adapter_error + adapter_registry" where
  "set_active b k rg = (if get_pack rg k = None then Inl (not_registered k)
     else Inr (rg \<lparr> rg_active := AList.update k b (rg_active rg) \<rparr>))"

definition activate_pack :: "string \<Rightarrow> adapter_registry \<Rightarrow> adapter_error + adapter_registry" where
  "activate_pack = set_active True"

definition deactivate_pack :: "string \<Rightarrow> adapter_registry \<Rightarrow> adapter_error + adapter_registry" where
  "deactivate_pack = set_active False"

definition unregister_pack :: "string \<Rightarrow> adapter_registry \<Rightarrow> adapter_error + adapter_registry" where
  "unregister_pack k rg = (if get_pack rg k = None then Inl (not_registered k)
     else Inr \<lparr> rg_packs = AList.delete k (rg_packs rg), rg_active = AList.delete k (rg_active rg) \<rparr>)"

definition list_packs :: "bool \<Rightarrow> adapter_registry \<Rightarrow> pack list" where
  "list_packs active_only rg = map (\<lambda>k. the (map_of (rg_packs rg) k))
     (filter (\<lambda>k. active_only \<longrightarrow> is_active rg k) (sorted_unique (map fst (rg_packs rg))))"

text \<open>The packs and their activation have the same keys, and a pack is stored under its own key.\<close>

definition registry_ok :: "adapter_registry \<Rightarrow> bool" where
  "registry_ok rg \<longleftrightarrow> (\<forall>k. map_of (rg_active rg) k = None \<longleftrightarrow> get_pack rg k = None) \<and>
     (\<forall>k p. get_pack rg k = Some p \<longrightarrow> ap_pack_key p = k)"

lemma registry_calls:
  "register_pack p rg = Inr rg' \<Longrightarrow> get_pack rg (ap_pack_key p) = None \<and> get_pack rg' = (get_pack rg)(ap_pack_key p \<mapsto> p) \<and>
     is_active rg' = (is_active rg)(ap_pack_key p := False)"
  "set_active b k rg = Inr rg' \<Longrightarrow> get_pack rg k \<noteq> None \<and> get_pack rg' = get_pack rg \<and> is_active rg' = (is_active rg)(k := b)"
  "unregister_pack k rg = Inr rg' \<Longrightarrow> get_pack rg k \<noteq> None \<and> get_pack rg' = (get_pack rg)(k := None) \<and>
     is_active rg' = (is_active rg)(k := False)"
  by (auto simp: register_pack_def set_active_def unregister_pack_def Let_def get_pack_def is_active_def fun_eq_iff
      map_of_update delete_conv' split: if_splits)

lemma registry_ok_empty: "registry_ok empty_registry"
  by (simp add: registry_ok_def empty_registry_def get_pack_def)

lemma active_calls:
  "register_pack p rg = Inr rg' \<Longrightarrow> map_of (rg_active rg') = (map_of (rg_active rg))(ap_pack_key p \<mapsto> False)"
  "set_active b k rg = Inr rg' \<Longrightarrow> map_of (rg_active rg') = (map_of (rg_active rg))(k \<mapsto> b)"
  "unregister_pack k rg = Inr rg' \<Longrightarrow> map_of (rg_active rg') = (map_of (rg_active rg))(k := None)"
  by (auto simp: register_pack_def set_active_def unregister_pack_def Let_def update_conv' delete_conv' split: if_splits)

lemma registry_ok_calls:
  assumes "registry_ok rg"
  shows "register_pack p rg = Inr rg' \<Longrightarrow> registry_ok rg'" "set_active b k rg = Inr rg' \<Longrightarrow> registry_ok rg'"
    "unregister_pack k rg = Inr rg' \<Longrightarrow> registry_ok rg'"
  using assms registry_calls(1) [of p rg rg'] active_calls(1) [of p rg rg'] registry_calls(2) [of b k rg rg']
    active_calls(2) [of b k rg rg'] registry_calls(3) [of k rg rg'] active_calls(3) [of k rg rg']
  by (simp_all add: registry_ok_def)

lemma list_packs_member:
  assumes "registry_ok rg"
  shows "p \<in> set (list_packs a rg) \<longleftrightarrow> get_pack rg (ap_pack_key p) = Some p \<and> (a \<longrightarrow> is_active rg (ap_pack_key p))"
proof -
  have "p \<in> set (list_packs a rg) \<longleftrightarrow> (\<exists>k. get_pack rg k = Some p \<and> (a \<longrightarrow> is_active rg k))"
    unfolding list_packs_def by (auto simp: get_pack_def image_iff weak_map_of_SomeI dest: map_of_SomeD) (metis fst_conv map_of_SomeD option.sel)+
  then show ?thesis using assms by (auto simp: registry_ok_def)
qed

section \<open>The interface of a pack registry\<close>

text \<open>What a lifecycle relies on: each call succeeds where its pack is there (or not yet there), and
  changes that pack only.\<close>

locale pack_registry =
  fixes reg :: "'p \<Rightarrow> 'r \<Rightarrow> 'e + 'r"
    and flag :: "bool \<Rightarrow> string \<Rightarrow> 'r \<Rightarrow> 'e + 'r"
    and unreg :: "string \<Rightarrow> 'r \<Rightarrow> 'e + 'r"
    and key_of :: "'p \<Rightarrow> string"
    and lookup :: "'r \<Rightarrow> string \<Rightarrow> 'p option"
    and active :: "'r \<Rightarrow> string \<Rightarrow> bool"
    and ok :: "'r \<Rightarrow> bool"
  assumes reg_new: "ok r \<Longrightarrow> lookup r (key_of p) = None \<Longrightarrow>
      \<exists>r'. reg p r = Inr r' \<and> ok r' \<and> lookup r' = (lookup r)(key_of p \<mapsto> p) \<and> active r' = (active r)(key_of p := False)"
    and flag_known: "ok r \<Longrightarrow> lookup r k \<noteq> None \<Longrightarrow>
      \<exists>r'. flag b k r = Inr r' \<and> ok r' \<and> lookup r' = lookup r \<and> active r' = (active r)(k := b)"
    and unreg_known: "ok r \<Longrightarrow> lookup r k \<noteq> None \<Longrightarrow>
      \<exists>r'. unreg k r = Inr r' \<and> ok r' \<and> lookup r' = (lookup r)(k := None) \<and> active r' = (active r)(k := False)"
begin

lemma replace_known:
  assumes "ok r" and "lookup r (key_of new) \<noteq> None"
  shows "\<exists>r'. and_then (unreg (key_of new) r) (\<lambda>r1. and_then (reg new r1) (\<lambda>r2. if a then flag True (key_of new) r2 else Inr r2)) = Inr r' \<and>
    ok r' \<and> lookup r' = (lookup r)(key_of new \<mapsto> new) \<and> active r' = (active r)(key_of new := a)"
proof -
  obtain r1 where r1: "unreg (key_of new) r = Inr r1" "ok r1" "lookup r1 = (lookup r)(key_of new := None)"
    "active r1 = (active r)(key_of new := False)"
    using unreg_known [OF assms] by blast
  obtain r2 where r2: "reg new r1 = Inr r2" "ok r2" "lookup r2 = (lookup r)(key_of new \<mapsto> new)"
    "active r2 = (active r)(key_of new := False)"
    using reg_new [OF r1(2), of new] by (auto simp: r1)
  obtain r3 where "flag True (key_of new) r2 = Inr r3" "ok r3" "lookup r3 = lookup r2" "active r3 = (active r2)(key_of new := True)"
    using flag_known [OF r2(2), of "key_of new" True] by (auto simp: r2)
  then show ?thesis using r1 r2 by (cases a) auto
qed

end

interpretation packs: pack_registry register_pack set_active unregister_pack ap_pack_key get_pack is_active registry_ok
proof
  fix r :: adapter_registry and p :: pack
  assume ok: "registry_ok r" and "get_pack r (ap_pack_key p) = None"
  then obtain r' where r': "register_pack p r = Inr r'" by (auto simp: register_pack_def Let_def)
  show "\<exists>r'. register_pack p r = Inr r' \<and> registry_ok r' \<and> get_pack r' = (get_pack r)(ap_pack_key p \<mapsto> p) \<and>
      is_active r' = (is_active r)(ap_pack_key p := False)"
    using r' registry_calls(1) [OF r'] registry_ok_calls(1) [OF ok r'] by blast
next
  fix r :: adapter_registry and k :: string and b :: bool
  assume ok: "registry_ok r" and "get_pack r k \<noteq> None"
  then obtain r' where r': "set_active b k r = Inr r'" by (auto simp: set_active_def)
  show "\<exists>r'. set_active b k r = Inr r' \<and> registry_ok r' \<and> get_pack r' = get_pack r \<and> is_active r' = (is_active r)(k := b)"
    using r' registry_calls(2) [OF r'] registry_ok_calls(2) [OF ok r'] by blast
next
  fix r :: adapter_registry and k :: string
  assume ok: "registry_ok r" and "get_pack r k \<noteq> None"
  then obtain r' where r': "unregister_pack k r = Inr r'" by (auto simp: unregister_pack_def)
  show "\<exists>r'. unregister_pack k r = Inr r' \<and> registry_ok r' \<and> get_pack r' = (get_pack r)(k := None) \<and> is_active r' = (is_active r)(k := False)"
    using r' registry_calls(3) [OF r'] registry_ok_calls(3) [OF ok r'] by blast
qed

end
