(* ===== verification/AdapterLifecycle.thy ===== *)
theory AdapterLifecycle
  imports AdapterRegistry
begin

text \<open>
  The lifecycle of adapter packs over their registry (\<open>packages/adapters/lifecycle.py\<close>): installing,
  activating, upgrading with a compatibility check, and rolling back to the parked version.  The state
  machine it promises is \<open>spec_call\<close>, on one pack at a time; the calls refine it.
\<close>

section \<open>The calls\<close>

datatype life_state = Life_not_installed | Life_installed | Life_active

definition life_state_value :: "life_state \<Rightarrow> string" where
  "life_state_value s = (case s of Life_not_installed \<Rightarrow> ''not_installed'' | Life_installed \<Rightarrow> ''installed'' | Life_active \<Rightarrow> ''active'')"

record pack_checker =
  ck_platform_version :: string
  ck_installed_packs :: "(string \<times> pack_manifest) list"
  ck_known_publications :: "string list"

record upgrade_result =
  ur_upgraded :: bool
  ur_check :: "compatibility_check option"
  ur_previous :: "pack option"

record adapter_lifecycle =
  lc_registry :: adapter_registry
  lc_previous :: "(string \<times> pack) list"

definition new_lifecycle :: adapter_lifecycle where
  "new_lifecycle = \<lparr> lc_registry = empty_registry, lc_previous = [] \<rparr>"

definition life_state_of :: "adapter_lifecycle \<Rightarrow> string \<Rightarrow> life_state" where
  "life_state_of lf k = (if get_pack (lc_registry lf) k = None then Life_not_installed
     else if is_active (lc_registry lf) k then Life_active else Life_installed)"

definition life_previous :: "adapter_lifecycle \<Rightarrow> string \<Rightarrow> pack option" where
  "life_previous lf k = map_of (lc_previous lf) k"

definition on_registry :: "(adapter_registry \<Rightarrow> adapter_error + adapter_registry) \<Rightarrow> adapter_lifecycle \<Rightarrow> adapter_error + adapter_lifecycle" where
  "on_registry f lf = and_then (f (lc_registry lf)) (\<lambda>rg. Inr (lf \<lparr> lc_registry := rg \<rparr>))"

definition life_install :: "pack \<Rightarrow> adapter_lifecycle \<Rightarrow> adapter_error + adapter_lifecycle" where
  "life_install p lf = (let k = ap_pack_key p; current = life_state_of lf k in
     if current \<noteq> Life_not_installed
     then Inl (Illegal_pack_transition (''cannot install '' @ k @ '': already '' @ life_state_value current))
     else on_registry (register_pack p) lf)"

definition life_uninstall :: "string \<Rightarrow> adapter_lifecycle \<Rightarrow> adapter_error + adapter_lifecycle" where
  "life_uninstall k lf = (case life_state_of lf k of
     Life_not_installed \<Rightarrow> Inl (Illegal_pack_transition (''cannot uninstall '' @ k @ '': not installed''))
   | Life_active \<Rightarrow> Inl (Illegal_pack_transition (''cannot uninstall '' @ k @ '' while active; deactivate first''))
   | Life_installed \<Rightarrow> and_then (on_registry (unregister_pack k) lf)
       (\<lambda>lf'. Inr (lf' \<lparr> lc_previous := AList.delete k (lc_previous lf') \<rparr>)))"

definition life_activate :: "string \<Rightarrow> adapter_lifecycle \<Rightarrow> adapter_error + adapter_lifecycle" where
  "life_activate k lf = (case life_state_of lf k of
     Life_not_installed \<Rightarrow> Inl (Illegal_pack_transition (''cannot activate '' @ k @ '': not installed''))
   | Life_active \<Rightarrow> Inl (Illegal_pack_transition (''cannot activate '' @ k @ '': already active''))
   | Life_installed \<Rightarrow> on_registry (activate_pack k) lf)"

definition life_deactivate :: "string \<Rightarrow> adapter_lifecycle \<Rightarrow> adapter_error + adapter_lifecycle" where
  "life_deactivate k lf = (let current = life_state_of lf k in
     if current \<noteq> Life_active
     then Inl (Illegal_pack_transition (''cannot deactivate '' @ k @ '': not active (currently '' @ life_state_value current @ '')''))
     else on_registry (deactivate_pack k) lf)"

definition swap_pack :: "string \<Rightarrow> pack \<Rightarrow> pack \<Rightarrow> bool \<Rightarrow> adapter_lifecycle \<Rightarrow> adapter_error + adapter_lifecycle" where
  \<comment> \<open>unregister, register the other one, keep it active if it was, park the current one\<close>
  "swap_pack k new current was_active lf =
     and_then (on_registry (unregister_pack k) lf) (\<lambda>lf1.
     and_then (on_registry (register_pack new) lf1) (\<lambda>lf2.
     and_then (if was_active then on_registry (activate_pack k) lf2 else Inr lf2) (\<lambda>lf3.
     Inr (lf3 \<lparr> lc_previous := AList.update k current (lc_previous lf3) \<rparr>))))"

definition life_upgrade :: "pack \<Rightarrow> pack_checker option \<Rightarrow> adapter_lifecycle \<Rightarrow> adapter_error + (upgrade_result \<times> adapter_lifecycle)" where
  "life_upgrade new checker lf = (let k = ap_pack_key new; current_state = life_state_of lf k in
     if current_state = Life_not_installed
     then Inl (Illegal_pack_transition (''cannot upgrade '' @ k @ '': not installed''))
     else (let current = the (get_pack (lc_registry lf) k);
               check = map_option (\<lambda>c. check_pack (ck_platform_version c) (ck_installed_packs c) (ck_known_publications c) (to_pack_manifest new)) checker in
       if check \<noteq> None \<and> \<not> is_compatible (the check)
       then Inr (\<lparr> ur_upgraded = False, ur_check = check, ur_previous = None \<rparr>, lf)
       else and_then (swap_pack k new current (current_state = Life_active) lf)
         (\<lambda>lf'. Inr (\<lparr> ur_upgraded = True, ur_check = check, ur_previous = Some current \<rparr>, lf'))))"

definition life_rollback :: "string \<Rightarrow> adapter_lifecycle \<Rightarrow> adapter_error + (pack \<times> adapter_lifecycle)" where
  "life_rollback k lf = (let current_state = life_state_of lf k in
     if current_state = Life_not_installed
     then Inl (Illegal_pack_transition (''cannot rollback '' @ k @ '': not installed''))
     else (case life_previous lf k of
         None \<Rightarrow> Inl (Illegal_pack_transition (''cannot rollback '' @ k @ '': no previous version parked''))
       | Some previous \<Rightarrow>
           and_then (swap_pack k previous (the (get_pack (lc_registry lf) k)) (current_state = Life_active) lf)
             (\<lambda>lf'. Inr (previous, lf'))))"

section \<open>The state machine\<close>

datatype life_call =
    Install_call pack
  | Uninstall_call string
  | Activate_call string
  | Deactivate_call string
  | Upgrade_call pack "pack_checker option"
  | Rollback_call string

fun call_key :: "life_call \<Rightarrow> string" where
  "call_key (Install_call p) = ap_pack_key p"
| "call_key (Uninstall_call k) = k"
| "call_key (Activate_call k) = k"
| "call_key (Deactivate_call k) = k"
| "call_key (Upgrade_call p c) = ap_pack_key p"
| "call_key (Rollback_call k) = k"

fun run_call :: "life_call \<Rightarrow> adapter_lifecycle \<Rightarrow> adapter_error + adapter_lifecycle" where
  "run_call (Install_call p) lf = life_install p lf"
| "run_call (Uninstall_call k) lf = life_uninstall k lf"
| "run_call (Activate_call k) lf = life_activate k lf"
| "run_call (Deactivate_call k) lf = life_deactivate k lf"
| "run_call (Upgrade_call p c) lf = and_then (life_upgrade p c lf) (\<lambda>r. Inr (snd r))"
| "run_call (Rollback_call k) lf = and_then (life_rollback k lf) (\<lambda>r. Inr (snd r))"

type_synonym pack_view = "(pack \<times> bool \<times> pack option) option"

definition life_view :: "adapter_lifecycle \<Rightarrow> string \<Rightarrow> pack_view" where
  \<comment> \<open>the installed pack, whether it is active, and the parked one\<close>
  "life_view lf k = map_option (\<lambda>p. (p, is_active (lc_registry lf) k, life_previous lf k)) (get_pack (lc_registry lf) k)"

definition passes :: "pack \<Rightarrow> pack_checker option \<Rightarrow> bool" where
  "passes p checker = (case checker of None \<Rightarrow> True
   | Some c \<Rightarrow> is_compatible (check_pack (ck_platform_version c) (ck_installed_packs c) (ck_known_publications c) (to_pack_manifest p)))"

fun spec_call :: "life_call \<Rightarrow> pack_view \<Rightarrow> pack_view option" where
  \<comment> \<open>the documented transitions of one pack; nothing where the call is illegal\<close>
  "spec_call (Install_call p) None = Some (Some (p, False, None))"
| "spec_call (Uninstall_call k) (Some (p, False, q)) = Some None"
| "spec_call (Activate_call k) (Some (p, False, q)) = Some (Some (p, True, q))"
| "spec_call (Deactivate_call k) (Some (p, True, q)) = Some (Some (p, False, q))"
| "spec_call (Upgrade_call p' c) (Some (p, a, q)) = Some (Some (if passes p' c then (p', a, Some p) else (p, a, q)))"
| "spec_call (Rollback_call k) (Some (p, a, Some q)) = Some (Some (q, a, Some p))"
| "spec_call _ _ = None"

definition life_ok :: "adapter_lifecycle \<Rightarrow> bool" where
  "life_ok lf \<longleftrightarrow> registry_ok (lc_registry lf) \<and>
     (\<forall>k q. life_previous lf k = Some q \<longrightarrow> ap_pack_key q = k \<and> get_pack (lc_registry lf) k \<noteq> None)"

lemma on_registry_Inr: "on_registry f lf = Inr lf' \<longleftrightarrow> (\<exists>rg. f (lc_registry lf) = Inr rg \<and> lf' = lf \<lparr> lc_registry := rg \<rparr>)"
  by (auto simp: on_registry_def and_then_Inr_iff)

lemma swap_composed:
  "swap_pack k new current a lf = and_then
     (and_then (unregister_pack k (lc_registry lf)) (\<lambda>r1. and_then (register_pack new r1) (\<lambda>r2. if a then set_active True k r2 else Inr r2)))
     (\<lambda>rg. Inr \<lparr> lc_registry = rg, lc_previous = AList.update k current (lc_previous lf) \<rparr>)"
  by (cases lf; cases a) (simp_all add: swap_pack_def on_registry_def and_then_assoc activate_pack_def)

lemma swap_succeeds:
  assumes "registry_ok (lc_registry lf)" and "get_pack (lc_registry lf) k = Some current" and "ap_pack_key new = k"
  shows "\<exists>rg. swap_pack k new current a lf = Inr \<lparr> lc_registry = rg, lc_previous = AList.update k current (lc_previous lf) \<rparr> \<and>
    registry_ok rg \<and> get_pack rg = (get_pack (lc_registry lf))(k \<mapsto> new) \<and> is_active rg = (is_active (lc_registry lf))(k := a)"
  using packs.replace_known [OF assms(1), of new a] assms(2,3) unfolding swap_composed by fastforce

section \<open>The calls refine the state machine\<close>

lemma life_view_cases:
  "life_view lf k = None \<longleftrightarrow> get_pack (lc_registry lf) k = None"
  "life_view lf k = Some (p, a, q) \<longleftrightarrow>
     get_pack (lc_registry lf) k = Some p \<and> is_active (lc_registry lf) k = a \<and> life_previous lf k = q"
  by (auto simp: life_view_def)

lemma life_state_cases:
  "life_view lf k = None \<Longrightarrow> life_state_of lf k = Life_not_installed"
  "life_view lf k = Some (p, True, q) \<Longrightarrow> life_state_of lf k = Life_active"
  "life_view lf k = Some (p, False, q) \<Longrightarrow> life_state_of lf k = Life_installed"
  by (simp_all add: life_state_of_def life_view_cases)

definition refined :: "life_call \<Rightarrow> adapter_lifecycle \<Rightarrow> pack_view \<Rightarrow> bool" where
  "refined c lf v \<longleftrightarrow> (\<exists>lf'. run_call c lf = Inr lf' \<and> life_ok lf' \<and> life_view lf' = (life_view lf)(call_key c := v))"

definition refused_call :: "life_call \<Rightarrow> adapter_lifecycle \<Rightarrow> bool" where
  "refused_call c lf \<longleftrightarrow> (\<exists>m. run_call c lf = Inl (Illegal_pack_transition m))"

lemma refined_swap:
  assumes "life_ok lf" and "life_view lf k = Some (p, a, q)" and "ap_pack_key new = k"
    and "run_call c lf = and_then (swap_pack k new p a lf) Inr" and "call_key c = k"
  shows "refined c lf (Some (new, a, Some p))"
proof -
  have old: "get_pack (lc_registry lf) k = Some p" "registry_ok (lc_registry lf)" "ap_pack_key p = k"
    using assms(1,2) by (auto simp: life_view_cases life_ok_def registry_ok_def)
  obtain rg where rg: "swap_pack k new p a lf = Inr \<lparr> lc_registry = rg, lc_previous = AList.update k p (lc_previous lf) \<rparr>"
    "registry_ok rg" "get_pack rg = (get_pack (lc_registry lf))(k \<mapsto> new)" "is_active rg = (is_active (lc_registry lf))(k := a)"
    using swap_succeeds [OF old(2,1) assms(3)] by metis
  have "life_view \<lparr> lc_registry = rg, lc_previous = AList.update k p (lc_previous lf) \<rparr> = (life_view lf)(k := Some (new, a, Some p))"
    by (simp add: fun_eq_iff life_view_def life_previous_def rg map_of_update)
  moreover have "life_ok \<lparr> lc_registry = rg, lc_previous = AList.update k p (lc_previous lf) \<rparr>"
    using assms(1) old(3) by (simp add: life_ok_def life_previous_def rg map_of_update)
  ultimately show ?thesis unfolding refined_def by (simp add: assms(4,5) rg(1))
qed

lemma refined_flag:
  assumes "life_ok lf" and "life_view lf k = Some (p, a, q)" and "run_call c lf = on_registry (set_active b k) lf" and "call_key c = k"
  shows "refined c lf (Some (p, b, q))"
proof -
  have ok: "registry_ok (lc_registry lf)" using assms(1) by (simp add: life_ok_def)
  obtain rg where rg: "set_active b k (lc_registry lf) = Inr rg" and calls: "registry_ok rg"
    "get_pack rg = get_pack (lc_registry lf)" "is_active rg = (is_active (lc_registry lf))(k := b)"
    using packs.flag_known [OF ok, of k b] assms(2) by (auto simp: life_view_cases)
  have "life_view (lf \<lparr> lc_registry := rg \<rparr>) = (life_view lf)(k := Some (p, b, q))"
    using assms(2) by (simp add: fun_eq_iff life_view_def life_previous_def calls)
  moreover have "life_ok (lf \<lparr> lc_registry := rg \<rparr>)"
    using assms(1) calls by (auto simp: life_ok_def life_previous_def)
  ultimately show ?thesis unfolding refined_def using assms(3,4) rg by (simp add: on_registry_def)
qed

lemma refined_install:
  assumes "life_ok lf" and "life_view lf (ap_pack_key p) = None"
  shows "refined (Install_call p) lf (Some (p, False, None))"
proof -
  have ok: "registry_ok (lc_registry lf)" using assms(1) by (simp add: life_ok_def)
  obtain rg where rg: "register_pack p (lc_registry lf) = Inr rg" and calls: "registry_ok rg"
    "get_pack rg = (get_pack (lc_registry lf))(ap_pack_key p \<mapsto> p)" "is_active rg = (is_active (lc_registry lf))(ap_pack_key p := False)"
    using packs.reg_new [OF ok, of p] assms(2) by (auto simp: life_view_cases)
  have "life_previous lf (ap_pack_key p) = None"
    using assms by (metis life_ok_def life_view_cases(1) not_None_eq)
  then have "life_view (lf \<lparr> lc_registry := rg \<rparr>) = (life_view lf)(ap_pack_key p := Some (p, False, None))"
    by (simp add: fun_eq_iff life_view_def life_previous_def calls)
  moreover have "life_ok (lf \<lparr> lc_registry := rg \<rparr>)"
    using assms(1) calls by (auto simp: life_ok_def life_previous_def)
  ultimately show ?thesis
    unfolding refined_def using life_state_cases(1) [OF assms(2)] rg by (simp add: life_install_def Let_def on_registry_def)
qed

lemma refined_uninstall:
  assumes "life_ok lf" and "life_view lf k = Some (p, False, q)"
  shows "refined (Uninstall_call k) lf None"
proof -
  have ok: "registry_ok (lc_registry lf)" using assms(1) by (simp add: life_ok_def)
  obtain rg where rg: "unregister_pack k (lc_registry lf) = Inr rg" and calls: "registry_ok rg"
    "get_pack rg = (get_pack (lc_registry lf))(k := None)" "is_active rg = (is_active (lc_registry lf))(k := False)"
    using packs.unreg_known [OF ok, of k] assms(2) by (auto simp: life_view_cases)
  let ?lf = "lf \<lparr> lc_registry := rg, lc_previous := AList.delete k (lc_previous lf) \<rparr>"
  have "life_view ?lf = (life_view lf)(k := None)"
    by (simp add: fun_eq_iff life_view_def life_previous_def calls delete_conv')
  moreover have "life_ok ?lf"
    using assms(1) calls by (auto simp: life_ok_def life_previous_def delete_conv' split: if_splits)
  ultimately show ?thesis
    unfolding refined_def using life_state_cases(3) [OF assms(2)] rg by (simp add: life_uninstall_def on_registry_def)
qed

lemma refined_upgrade:
  assumes "life_ok lf" and "life_view lf (ap_pack_key p') = Some (p, a, q)"
  shows "refined (Upgrade_call p' c) lf (Some (if passes p' c then (p', a, Some p) else (p, a, q)))"
proof -
  have state: "life_state_of lf (ap_pack_key p') = (if a then Life_active else Life_installed)"
    and old: "the (get_pack (lc_registry lf) (ap_pack_key p')) = p"
    using assms(2) life_state_cases(2,3) [of lf "ap_pack_key p'"] by (auto simp: life_view_cases)
  show ?thesis
  proof (cases "passes p' c")
    case True
    then have "run_call (Upgrade_call p' c) lf = and_then (swap_pack (ap_pack_key p') p' p a lf) Inr"
      by (cases c; cases a) (simp_all add: life_upgrade_def Let_def state old passes_def and_then_assoc)
    then show ?thesis using refined_swap [OF assms refl] True by simp
  next
    case False
    then have "run_call (Upgrade_call p' c) lf = Inr lf"
      by (cases c) (auto simp: life_upgrade_def Let_def state passes_def)
    then show ?thesis using assms False by (simp add: refined_def fun_upd_idem)
  qed
qed

lemma refined_rollback:
  assumes "life_ok lf" and "life_view lf k = Some (p, a, Some q)"
  shows "refined (Rollback_call k) lf (Some (q, a, Some p))"
proof (rule refined_swap [OF assms])
  have "life_state_of lf k = (if a then Life_active else Life_installed)"
    using assms(2) life_state_cases(2,3) [of lf k] by auto
  then show "run_call (Rollback_call k) lf = and_then (swap_pack k q p a lf) Inr"
    using assms(2) by (cases a) (simp_all add: life_rollback_def Let_def life_view_cases and_then_assoc)
  show "ap_pack_key q = k" using assms by (auto simp: life_ok_def life_view_cases)
qed simp

lemma call_refines:
  assumes "life_ok lf"
  shows "case spec_call c (life_view lf (call_key c)) of None \<Rightarrow> refused_call c lf | Some v \<Rightarrow> refined c lf v"
proof (cases "life_view lf (call_key c)")
  case None
  then show ?thesis
    using assms life_state_cases(1) [OF None]
    by (cases c) (auto simp: refined_install refused_call_def life_uninstall_def life_activate_def life_deactivate_def
        life_upgrade_def life_rollback_def Let_def)
next
  case (Some v)
  obtain p a q where v: "v = (p, a, q)" by (cases v)
  note view = Some [unfolded v]
  have state: "life_state_of lf (call_key c) = (if a then Life_active else Life_installed)"
    using view life_state_cases(2,3) [of lf "call_key c"] by (cases a) auto
  show ?thesis
  proof (cases c)
    case (Install_call p')
    then show ?thesis using view state by (auto simp: refused_call_def life_install_def Let_def)
  next
    case (Uninstall_call k)
    then show ?thesis using view state refined_uninstall [OF assms, of k p q]
      by (cases a) (auto simp: refused_call_def life_uninstall_def)
  next
    case (Activate_call k)
    then show ?thesis using view state refined_flag [OF assms, of k p a q c True]
      by (cases a) (auto simp: refused_call_def life_activate_def activate_pack_def)
  next
    case (Deactivate_call k)
    then show ?thesis using view state refined_flag [OF assms, of k p a q c False]
      by (cases a) (auto simp: refused_call_def life_deactivate_def deactivate_pack_def Let_def)
  next
    case (Upgrade_call p' ck)
    then show ?thesis using view refined_upgrade [OF assms, of p' p a q ck] by simp
  next
    case (Rollback_call k)
    moreover have "life_previous lf (call_key c) = q" using view by (simp add: life_view_cases)
    ultimately show ?thesis using view state refined_rollback [OF assms, of k p a]
      by (cases q) (auto simp: refused_call_def life_rollback_def Let_def)
  qed
qed


section \<open>Sequences of calls\<close>

definition attempt_call :: "life_call \<Rightarrow> adapter_lifecycle \<Rightarrow> adapter_lifecycle" where
  \<comment> \<open>a call whose error is caught\<close>
  "attempt_call c lf = (case run_call c lf of Inl e \<Rightarrow> lf | Inr lf' \<Rightarrow> lf')"

definition life_after :: "life_call list \<Rightarrow> adapter_lifecycle" where
  "life_after calls = fold attempt_call calls new_lifecycle"

definition spec_attempt :: "life_call \<Rightarrow> (string \<Rightarrow> pack_view) \<Rightarrow> (string \<Rightarrow> pack_view)" where
  "spec_attempt c w = (case spec_call c (w (call_key c)) of None \<Rightarrow> w | Some v \<Rightarrow> w(call_key c := v))"

definition spec_after :: "life_call list \<Rightarrow> string \<Rightarrow> pack_view" where
  "spec_after calls = fold spec_attempt calls (\<lambda>k. None)"

lemma attempt_refines:
  assumes "life_ok lf"
  shows "life_ok (attempt_call c lf)" "life_view (attempt_call c lf) = spec_attempt c (life_view lf)"
  using call_refines [OF assms, of c] assms
  by (auto simp: attempt_call_def spec_attempt_def refused_call_def refined_def split: option.splits)

lemma life_ok_new: "life_ok new_lifecycle" "life_view new_lifecycle = (\<lambda>k. None)"
  by (simp_all add: life_ok_def new_lifecycle_def registry_ok_empty [unfolded empty_registry_def] life_previous_def life_view_def fun_eq_iff
      get_pack_def empty_registry_def)

lemma life_after_refines: "life_ok (life_after calls) \<and> life_view (life_after calls) = spec_after calls"
  by (induction calls rule: rev_induct) (simp_all add: life_after_def spec_after_def life_ok_new attempt_refines)

end
