(* ===== verification/AdapterRouting.thy ===== *)
theory AdapterRouting
  imports AdapterRegistry
begin

text \<open>
  What is looked up in the adapter registries: the renderers that may render a publication
  (\<open>packages/adapters/renderer_router.py\<close>), the live instances (\<open>instance_registry.py\<close>), the canonical
  entity behind an adapter's name (\<open>entity_correlation.py\<close>), the checks of a pack
  (\<open>compatibility.py\<close>) and the routes that show them (\<open>apps/api/routes/adapter_routes.py\<close>).
\<close>

section \<open>Renderers of a publication\<close>

text \<open>A renderer is its manifest; what \<open>render\<close> gives is an argument.\<close>

fun pack_of_renderer :: "string \<Rightarrow> pack list \<Rightarrow> pack option" where
  \<comment> \<open>the first pack that declares the renderer\<close>
  "pack_of_renderer k [] = None"
| "pack_of_renderer k (p # ps) = (if list_ex (\<lambda>m. rm_renderer_key m = k) (ap_renderers p) then Some p else pack_of_renderer k ps)"

definition pack_is_active :: "adapter_registry \<Rightarrow> string \<Rightarrow> bool" where
  "pack_is_active rg k = (let active_keys = map ap_pack_key (list_packs True rg) in
     case pack_of_renderer k (list_packs False rg) of None \<Rightarrow> False | Some p \<Rightarrow> ap_pack_key p \<in> set active_keys)"

definition renderer_fits :: "string \<Rightarrow> string \<Rightarrow> renderer_manifest \<Rightarrow> bool" where
  "renderer_fits publication_key fmt m \<longleftrightarrow> fmt \<in> set (rm_supported_formats m) \<and>
     (rm_supported_publication_keys m \<noteq> [] \<longrightarrow> publication_key \<in> set (rm_supported_publication_keys m))"

definition resolve_renderers :: "adapter_registry \<Rightarrow> renderer_manifest list \<Rightarrow> string \<Rightarrow> string \<Rightarrow> renderer_manifest list" where
  "resolve_renderers rg renderers publication_key fmt =
     filter (\<lambda>m. pack_is_active rg (rm_renderer_key m) \<and> renderer_fits publication_key fmt m) renderers"

definition render_all :: "(renderer_manifest \<Rightarrow> 'o) \<Rightarrow> adapter_registry \<Rightarrow> renderer_manifest list \<Rightarrow> string \<Rightarrow> string \<Rightarrow> 'o list" where
  "render_all render rg renderers publication_key fmt = map render (resolve_renderers rg renderers publication_key fmt)"

definition render_first :: "(renderer_manifest \<Rightarrow> 'o) \<Rightarrow> adapter_registry \<Rightarrow> renderer_manifest list \<Rightarrow> string \<Rightarrow> string \<Rightarrow> 'o option" where
  "render_first render rg renderers publication_key fmt =
     (case resolve_renderers rg renderers publication_key fmt of [] \<Rightarrow> None | m # ms \<Rightarrow> Some (render m))"

lemma render_first_all: "render_first render rg rs k f = (case render_all render rg rs k f of [] \<Rightarrow> None | o1 # os \<Rightarrow> Some o1)"
  by (simp add: render_first_def render_all_def split: list.split)

definition declares :: "pack \<Rightarrow> string \<Rightarrow> bool" where
  "declares p k \<longleftrightarrow> (\<exists>m\<in>set (ap_renderers p). rm_renderer_key m = k)"

lemma pack_of_renderer_some:
  "pack_of_renderer k ps = Some p \<Longrightarrow> p \<in> set ps \<and> declares p k"
  by (induction ps) (auto simp: declares_def list_ex_iff split: if_splits)

lemma pack_of_renderer_none: "pack_of_renderer k ps = None \<longleftrightarrow> (\<forall>p\<in>set ps. \<not> declares p k)"
  by (induction ps) (auto simp: declares_def list_ex_iff)

text \<open>Where at most one pack declares the renderer, it is routed to exactly while that pack is active.\<close>

lemma pack_is_active_iff:
  assumes "registry_ok rg"
    and "\<And>p q. get_pack rg (ap_pack_key p) = Some p \<Longrightarrow> get_pack rg (ap_pack_key q) = Some q \<Longrightarrow> declares p k \<Longrightarrow> declares q k \<Longrightarrow> p = q"
  shows "pack_is_active rg k \<longleftrightarrow> (\<exists>p. get_pack rg (ap_pack_key p) = Some p \<and> declares p k \<and> is_active rg (ap_pack_key p))"
proof (cases "pack_of_renderer k (list_packs False rg)")
  case None
  then have "\<not> declares p k" if "get_pack rg (ap_pack_key p) = Some p" for p
    using that list_packs_member [OF assms(1), of p False] None unfolding pack_of_renderer_none by simp
  then show ?thesis using None by (auto simp: pack_is_active_def)
next
  case (Some p)
  then have p: "get_pack rg (ap_pack_key p) = Some p" "declares p k"
    using pack_of_renderer_some [OF Some] list_packs_member [OF assms(1), of p False] by simp_all
  have "ap_pack_key p \<in> ap_pack_key ` set (list_packs True rg) \<longleftrightarrow> is_active rg (ap_pack_key p)"
  proof
    assume "ap_pack_key p \<in> ap_pack_key ` set (list_packs True rg)"
    then obtain q where "q \<in> set (list_packs True rg)" "ap_pack_key q = ap_pack_key p" by (metis imageE)
    then show "is_active rg (ap_pack_key p)" using list_packs_member [OF assms(1), of q True] by simp
  next
    assume "is_active rg (ap_pack_key p)"
    then show "ap_pack_key p \<in> ap_pack_key ` set (list_packs True rg)"
      using p(1) list_packs_member [OF assms(1), of p True] by blast
  qed
  then show ?thesis using Some p assms(2) by (auto simp: pack_is_active_def)
qed

section \<open>Live instances\<close>

definition register_instance :: "string \<Rightarrow> 'i \<Rightarrow> (string \<times> 'i) list \<Rightarrow> adapter_error + (string \<times> 'i) list" where
  "register_instance k i insts = (if k = [] then Inl (Value_error ''adapter_key must be a non-empty string'') else Inr (AList.update k i insts))"

definition unregister_instance :: "string \<Rightarrow> (string \<times> 'i) list \<Rightarrow> (string \<times> 'i) list" where
  "unregister_instance k insts = AList.delete k insts"

definition instance_keys :: "(string \<times> 'i) list \<Rightarrow> string list" where
  "instance_keys insts = sorted_unique (map fst insts)"

definition instance_status :: "('i \<Rightarrow> 's) \<Rightarrow> (string \<times> 'i) list \<Rightarrow> string \<Rightarrow> 's option" where
  "instance_status get_status insts k = map_option get_status (map_of insts k)"

definition instance_statuses :: "('i \<Rightarrow> 's) \<Rightarrow> (string \<times> 'i) list \<Rightarrow> (string \<times> 's) list" where
  "instance_statuses get_status insts = map (\<lambda>(k, i). (k, get_status i)) insts"

lemma statuses_agree: "map_of (instance_statuses st insts) k = instance_status st insts k"
  by (simp add: instance_statuses_def instance_status_def map_of_map)

section \<open>Entity correlation\<close>

record canonical_id =
  ci_entity_class :: string
  ci_canonical_key :: string

record entity_alias =
  ea_adapter_key :: string
  ea_entity_class :: string
  ea_source_entity_id :: string
  ea_canonical_key :: string
  ea_trust_level :: trust_level

type_synonym alias_table = "((string \<times> string \<times> string) \<times> entity_alias) list"

definition canonical_of :: "entity_alias \<Rightarrow> canonical_id" where
  "canonical_of a = \<lparr> ci_entity_class = ea_entity_class a, ci_canonical_key = ea_canonical_key a \<rparr>"

definition trust_rank :: "trust_level \<Rightarrow> nat" where
  "trust_rank t = (case t of Local \<Rightarrow> 0 | Community \<Rightarrow> 1 | Verified \<Rightarrow> 2)"

definition alias_key :: "entity_alias \<Rightarrow> string \<times> string \<times> string" where
  "alias_key a = (ea_adapter_key a, ea_entity_class a, ea_source_entity_id a)"

definition register_alias :: "entity_alias \<Rightarrow> alias_table \<Rightarrow> entity_alias \<times> alias_table" where
  "register_alias a t = (case map_of t (alias_key a) of
     None \<Rightarrow> (a, AList.update (alias_key a) a t)
   | Some existing \<Rightarrow>
       if trust_rank (ea_trust_level a) > trust_rank (ea_trust_level existing) then (a, AList.update (alias_key a) a t)
       else if trust_rank (ea_trust_level a) < trust_rank (ea_trust_level existing) then (existing, t)
       else (a, AList.update (alias_key a) a t))"

definition resolve_entity :: "alias_table \<Rightarrow> string \<times> string \<times> string \<Rightarrow> canonical_id option" where
  "resolve_entity t k = map_option canonical_of (map_of t k)"

definition aliases_for :: "alias_table \<Rightarrow> canonical_id \<Rightarrow> entity_alias list" where
  "aliases_for t c = sort_key ea_adapter_key (sort_key ea_source_entity_id (filter (\<lambda>a. canonical_of a = c) (map snd t)))"

definition all_aliases :: "alias_table \<Rightarrow> entity_alias list" where
  "all_aliases t = sort_key ea_adapter_key (sort_key ea_entity_class (sort_key ea_source_entity_id (map snd t)))"

definition aliases_after :: "entity_alias list \<Rightarrow> alias_table" where
  "aliases_after rs = fold (\<lambda>a t. snd (register_alias a t)) rs []"

definition trusted :: "entity_alias list \<Rightarrow> entity_alias list" where
  \<comment> \<open>the registrations no other one outranks\<close>
  "trusted rs = filter (\<lambda>a. \<forall>b\<in>set rs. trust_rank (ea_trust_level b) \<le> trust_rank (ea_trust_level a)) rs"

lemma trusted_snoc:
  assumes "l \<in> set own" and "\<forall>b\<in>set own. trust_rank (ea_trust_level b) \<le> trust_rank (ea_trust_level l)"
  shows "trust_rank (ea_trust_level a) < trust_rank (ea_trust_level l) \<Longrightarrow> trusted (own @ [a]) = trusted own"
    "trust_rank (ea_trust_level a) = trust_rank (ea_trust_level l) \<Longrightarrow> trusted (own @ [a]) = trusted own @ [a]"
    "trust_rank (ea_trust_level l) < trust_rank (ea_trust_level a) \<Longrightarrow> trusted (own @ [a]) = [a]"
proof -
  let ?r = "\<lambda>a. trust_rank (ea_trust_level a)"
  show "trusted (own @ [a]) = trusted own" if "?r a < ?r l"
  proof -
    have eq: "(\<forall>b\<in>set (own @ [a]). ?r b \<le> ?r x) \<longleftrightarrow> (\<forall>b\<in>set own. ?r b \<le> ?r x)" for x
      using that assms(1) by (auto intro: order_trans less_imp_le)
    moreover have "\<not> (\<forall>b\<in>set own. ?r b \<le> ?r a)" using that assms(1) not_le by blast
    ultimately show ?thesis unfolding trusted_def eq by simp
  qed
  show "trusted (own @ [a]) = trusted own @ [a]" if "?r a = ?r l"
  proof -
    have eq: "(\<forall>b\<in>set (own @ [a]). ?r b \<le> ?r x) \<longleftrightarrow> (\<forall>b\<in>set own. ?r b \<le> ?r x)" for x
      using that assms(1) by auto
    moreover have "\<forall>b\<in>set own. ?r b \<le> ?r a" using that assms(2) by simp
    ultimately show ?thesis unfolding trusted_def eq by simp
  qed
  show "trusted (own @ [a]) = [a]" if "?r l < ?r a"
  proof -
    have "\<not> (\<forall>b\<in>set (own @ [a]). ?r b \<le> ?r x)" if "x \<in> set own" for x
      using assms(2) that \<open>?r l < ?r a\<close> by (auto simp: not_le intro: le_less_trans)
    moreover have "\<forall>b\<in>set (own @ [a]). ?r b \<le> ?r a" using that assms(2) by (auto intro: order_trans less_imp_le)
    ultimately show ?thesis by (simp add: trusted_def filter_empty_conv)
  qed
qed

lemma trusted_nonempty: "rs \<noteq> [] \<Longrightarrow> trusted rs \<noteq> []"
proof -
  assume "rs \<noteq> []"
  let ?R = "(\<lambda>a. trust_rank (ea_trust_level a)) ` set rs"
  have "Max ?R \<in> ?R" using \<open>rs \<noteq> []\<close> by (intro Max_in) auto
  then obtain a where "a \<in> set rs" and a: "trust_rank (ea_trust_level a) = Max ?R" by auto
  moreover have "\<forall>b\<in>set rs. trust_rank (ea_trust_level b) \<le> trust_rank (ea_trust_level a)" unfolding a by (auto intro: Max_ge)
  ultimately show ?thesis unfolding trusted_def filter_empty_conv by blast
qed

text \<open>The alias of a source name is the latest of its most trusted registrations.\<close>

lemma alias_in_force:
  "map_of (aliases_after rs) k = (let own = trusted (filter (\<lambda>a. alias_key a = k) rs) in if own = [] then None else Some (last own))"
proof (induction rs rule: rev_induct)
  case Nil
  then show ?case by (simp add: aliases_after_def trusted_def)
next
  case (snoc a rs)
  define own where "own = filter (\<lambda>a. alias_key a = k) rs"
  have step: "aliases_after (rs @ [a]) = snd (register_alias a (aliases_after rs))" by (simp add: aliases_after_def)
  show ?case
  proof (cases "alias_key a = k")
    case False
    then show ?thesis
      using snoc by (auto simp: step register_alias_def map_of_update split: option.splits)
  next
    case True
    have own': "filter (\<lambda>a. alias_key a = k) (rs @ [a]) = own @ [a]" using True by (simp add: own_def)
    show ?thesis
    proof (cases "own = []")
      case True
      then have "map_of (aliases_after rs) k = None" using snoc by (simp add: own_def [symmetric] trusted_def)
      then show ?thesis
        unfolding own' step using \<open>alias_key a = k\<close> True by (simp add: register_alias_def map_of_update trusted_def)
    next
      case False
      then have ne: "trusted own \<noteq> []" by (rule trusted_nonempty)
      then have e: "map_of (aliases_after rs) k = Some (last (trusted own))"
        using snoc by (simp add: own_def [symmetric] Let_def)
      have l: "last (trusted own) \<in> set own" "\<forall>b\<in>set own. trust_rank (ea_trust_level b) \<le> trust_rank (ea_trust_level (last (trusted own)))"
        using last_in_set [OF ne] by (auto simp: trusted_def)
      have "map_of (snd (register_alias a (aliases_after rs))) k =
          (if trust_rank (ea_trust_level a) < trust_rank (ea_trust_level (last (trusted own))) then Some (last (trusted own)) else Some a)"
        using e \<open>alias_key a = k\<close> by (simp add: register_alias_def map_of_update)
      then show ?thesis
        unfolding own' step Let_def using ne trusted_snoc [OF l, of a]
        by (cases "trust_rank (ea_trust_level a)" "trust_rank (ea_trust_level (last (trusted own)))" rule: linorder_cases) simp_all
    qed
  qed
qed

section \<open>Checks of a pack\<close>

definition quoted_text :: "string \<Rightarrow> string" where
  "quoted_text s = [char_of (39::nat)] @ s @ [char_of (39::nat)]"

definition major_of :: "string \<Rightarrow> string" where
  "major_of v = hd (split_on (CHR ''.'') v)"

definition version_findings :: "pack \<Rightarrow> string \<Rightarrow> string list \<times> string list" where
  \<comment> \<open>issues and warnings of the version constraint\<close>
  "version_findings p platform_version = (let req = ap_requires_platform_version p in
     if req \<noteq> [] \<and> platform_version = []
     then ([], [''Platform version unknown; cannot verify version constraint '' @ quoted_text req])
     else if req \<noteq> [] \<and> major_of req \<noteq> major_of platform_version
     then ([''Pack requires platform version '' @ quoted_text req @ '', got '' @ quoted_text platform_version], [])
     else ([], []))"

definition trust_warnings :: "pack \<Rightarrow> string list" where
  "trust_warnings p = (case ap_trust_level p of
     Local \<Rightarrow> [''Pack '' @ quoted_text (ap_pack_key p) @ '' has LOCAL trust level; no external verification'']
   | Community \<Rightarrow> [''Pack '' @ quoted_text (ap_pack_key p) @ '' has COMMUNITY trust level; review before activating in production'']
   | Verified \<Rightarrow> [])"

definition check_compatibility :: "pack \<Rightarrow> string \<Rightarrow> compatibility_check" where
  "check_compatibility p platform_version = (case version_findings p platform_version of (version_issues, version_warnings) \<Rightarrow>
     let issues = version_issues @
           (if ap_adapters p = [] \<and> ap_renderers p = []
            then [''Pack '' @ quoted_text (ap_pack_key p) @ '' contains no adapters or renderers''] else [])
     in \<lparr> is_compatible = (issues = []), cc_issues = issues, cc_warnings = version_warnings @ trust_warnings p \<rparr>)"

lemma check_compatibility_iff:
  "is_compatible (check_compatibility p v) \<longleftrightarrow> (ap_adapters p \<noteq> [] \<or> ap_renderers p \<noteq> []) \<and>
     (ap_requires_platform_version p = [] \<or> v = [] \<or> major_of (ap_requires_platform_version p) = major_of v)"
  by (auto simp: check_compatibility_def version_findings_def Let_def)

fun repeated_keys :: "string \<Rightarrow> string set \<Rightarrow> string list \<Rightarrow> string list" where
  "repeated_keys label seen [] = []"
| "repeated_keys label seen (k # ks) = (if k \<in> seen then [''duplicate '' @ label @ '': '' @ quoted_text k] else [])
     @ repeated_keys label (insert k seen) ks"

definition key_errors :: "string \<Rightarrow> string \<Rightarrow> string list \<Rightarrow> string list" where
  \<comment> \<open>empty keys first, then the keys met before\<close>
  "key_errors kind label ks = map (\<lambda>k. kind @ '' '' @ quoted_text k @ '' has empty '' @ label) (filter (\<lambda>k. k = []) ks)
     @ repeated_keys label {} (filter (\<lambda>k. k \<noteq> []) ks)"

definition validate_adapter_pack :: "pack \<Rightarrow> string list" where
  "validate_adapter_pack p =
     (if ap_pack_key p = [] then [''pack_key must be non-empty''] else []) @
     (if ap_display_name p = [] then [''display_name must be non-empty''] else []) @
     (if ap_version p = [] then [''version must be non-empty''] else []) @
     key_errors ''adapter'' ''adapter_key'' (map am_adapter_key (ap_adapters p)) @
     key_errors ''renderer'' ''renderer_key'' (map rm_renderer_key (ap_renderers p))"

lemma repeated_keys_Nil: "repeated_keys label seen ks = [] \<longleftrightarrow> distinct ks \<and> set ks \<inter> seen = {}"
  by (induction ks arbitrary: seen) auto

lemma key_errors_Nil: "key_errors kind label ks = [] \<longleftrightarrow> distinct ks \<and> [] \<notin> set ks"
proof -
  have "filter (\<lambda>k. k \<noteq> []) ks = ks" if "[] \<notin> set ks" using that by (auto simp: filter_id_conv)
  then show ?thesis by (auto simp: key_errors_def repeated_keys_Nil filter_empty_conv)
qed

lemma valid_pack_iff:
  "validate_adapter_pack p = [] \<longleftrightarrow> ap_pack_key p \<noteq> [] \<and> ap_display_name p \<noteq> [] \<and> ap_version p \<noteq> [] \<and>
     distinct (map am_adapter_key (ap_adapters p)) \<and> [] \<notin> am_adapter_key ` set (ap_adapters p) \<and>
     distinct (map rm_renderer_key (ap_renderers p)) \<and> [] \<notin> rm_renderer_key ` set (ap_renderers p)"
  by (auto simp: validate_adapter_pack_def key_errors_Nil)

end
