(* ===== verification/Permissions.thy ===== *)
theory Permissions
  imports PyText
begin

text \<open>
  The permission vocabulary (\<open>packages/platform/auth/permission_registry.py\<close>) and the roles and
  service-token scopes (\<open>packages/platform/auth/contracts.py\<close>, \<open>role_hierarchy.py\<close>, \<open>crypto.py\<close>):
  which permissions a principal holds and which requirement a held permission satisfies.  A frozen
  set is the list of its members.
\<close>

section \<open>Roles and scopes\<close>

datatype user_role = Reader | Operator | Admin

fun role_value :: "user_role \<Rightarrow> string" where
  "role_value Reader = ''reader''"
| "role_value Operator = ''operator''"
| "role_value Admin = ''admin''"

fun role_order :: "user_role \<Rightarrow> nat" where
  "role_order Reader = 0"
| "role_order Operator = 1"
| "role_order Admin = 2"

definition has_required_role :: "user_role \<Rightarrow> user_role \<Rightarrow> bool" where
  "has_required_role role required \<longleftrightarrow> role_order required \<le> role_order role"

definition SCOPE_REPORTS_READ :: string where [perm_simps]: "SCOPE_REPORTS_READ = ''reports:read''"
definition SCOPE_RUNS_READ :: string where [perm_simps]: "SCOPE_RUNS_READ = ''runs:read''"
definition SCOPE_INGEST_WRITE :: string where [perm_simps]: "SCOPE_INGEST_WRITE = ''ingest:write''"
definition SCOPE_HA_BRIDGE_INGEST :: string where [perm_simps]: "SCOPE_HA_BRIDGE_INGEST = ''ha-bridge:ingest''"
definition SCOPE_ADMIN_WRITE :: string where [perm_simps]: "SCOPE_ADMIN_WRITE = ''admin:write''"
definition SCOPE_PROPOSALS_DRAFT :: string where [perm_simps]: "SCOPE_PROPOSALS_DRAFT = ''proposals:draft''"
definition SCOPE_POLICIES_DRAFT :: string where [perm_simps]: "SCOPE_POLICIES_DRAFT = ''policies:draft''"

definition SERVICE_TOKEN_SCOPES :: "string list" where
  "SERVICE_TOKEN_SCOPES = [SCOPE_REPORTS_READ, SCOPE_RUNS_READ, SCOPE_INGEST_WRITE, SCOPE_HA_BRIDGE_INGEST,
     SCOPE_ADMIN_WRITE, SCOPE_PROPOSALS_DRAFT, SCOPE_POLICIES_DRAFT]"

definition normalize_service_token_scopes :: "string list \<Rightarrow> string list option" where
  \<comment> \<open>\<open>None\<close> for the errors raised: no scope, or an unknown one\<close>
  "normalize_service_token_scopes scopes =
     (let normalized = map (\<lambda>s. lower (strip s)) (filter (\<lambda>s. strip s \<noteq> []) scopes) in
      if normalized = [] \<or> \<not> list_all (\<lambda>s. s \<in> set SERVICE_TOKEN_SCOPES) normalized then None
      else Some (filter (\<lambda>s. s \<in> set normalized) SERVICE_TOKEN_SCOPES))"

definition scope_implications :: "string \<Rightarrow> string list" where
  "scope_implications s = (if s = SCOPE_ADMIN_WRITE then [SCOPE_PROPOSALS_DRAFT] else [])"

definition has_required_service_token_scope :: "string list \<Rightarrow> string option \<Rightarrow> bool" where
  "has_required_service_token_scope scopes required = (case required of
     None \<Rightarrow> True
   | Some r \<Rightarrow> r \<in> set scopes \<or> list_ex (\<lambda>s. r \<in> set (scope_implications s)) scopes)"

section \<open>Permissions\<close>

definition PERMISSION_RUNS_READ :: string where [perm_simps]: "PERMISSION_RUNS_READ = ''runs.read''"
definition PERMISSION_RUNS_RETRY :: string where [perm_simps]: "PERMISSION_RUNS_RETRY = ''runs.retry''"
definition PERMISSION_REPORTS_READ :: string where [perm_simps]: "PERMISSION_REPORTS_READ = ''reports.read''"
definition PERMISSION_INGEST_WRITE :: string where [perm_simps]: "PERMISSION_INGEST_WRITE = ''ingest.write''"
definition PERMISSION_CONTROL_SOURCE_LINEAGE_READ :: string where [perm_simps]: "PERMISSION_CONTROL_SOURCE_LINEAGE_READ = ''control.source_lineage.read''"
definition PERMISSION_CONTROL_PUBLICATION_AUDIT_READ :: string where [perm_simps]: "PERMISSION_CONTROL_PUBLICATION_AUDIT_READ = ''control.publication_audit.read''"
definition PERMISSION_CONTROL_SCHEDULE_DISPATCHES_READ :: string where [perm_simps]: "PERMISSION_CONTROL_SCHEDULE_DISPATCHES_READ = ''control.schedule_dispatches.read''"
definition PERMISSION_CONTROL_SCHEDULE_DISPATCHES_WRITE :: string where [perm_simps]: "PERMISSION_CONTROL_SCHEDULE_DISPATCHES_WRITE = ''control.schedule_dispatches.write''"
definition PERMISSION_CONTROL_ACTION_PROPOSALS_WRITE :: string where [perm_simps]: "PERMISSION_CONTROL_ACTION_PROPOSALS_WRITE = ''control.action_proposals.write''"
definition PERMISSION_CONTROL_ACTION_PROPOSALS_DRAFT :: string where [perm_simps]: "PERMISSION_CONTROL_ACTION_PROPOSALS_DRAFT = ''control.action_proposals.draft''"
definition PERMISSION_CONTROL_CONFIG_READ :: string where [perm_simps]: "PERMISSION_CONTROL_CONFIG_READ = ''control.config.read''"
definition PERMISSION_CONTROL_CONFIG_WRITE :: string where [perm_simps]: "PERMISSION_CONTROL_CONFIG_WRITE = ''control.config.write''"
definition PERMISSION_TRANSFORMATION_AUDIT_READ :: string where [perm_simps]: "PERMISSION_TRANSFORMATION_AUDIT_READ = ''transformation.audit.read''"
definition PERMISSION_ADMIN_WRITE :: string where [perm_simps]: "PERMISSION_ADMIN_WRITE = ''admin.write''"
definition PERMISSION_CONTROL_POLICY_READ :: string where [perm_simps]: "PERMISSION_CONTROL_POLICY_READ = ''control.policy.read''"
definition PERMISSION_CONTROL_POLICY_WRITE :: string where [perm_simps]: "PERMISSION_CONTROL_POLICY_WRITE = ''control.policy.write''"
definition PERMISSION_CONTROL_POLICY_DRAFT :: string where [perm_simps]: "PERMISSION_CONTROL_POLICY_DRAFT = ''control.policy.draft''"
definition PERMISSION_CONTROL_DECISIONS_READ :: string where [perm_simps]: "PERMISSION_CONTROL_DECISIONS_READ = ''control.decisions.read''"
definition PERMISSION_CONTROL_DECISIONS_WRITE :: string where [perm_simps]: "PERMISSION_CONTROL_DECISIONS_WRITE = ''control.decisions.write''"
definition PERMISSION_RUNS_READ_RUN_PREFIX :: string where [perm_simps]: "PERMISSION_RUNS_READ_RUN_PREFIX = PERMISSION_RUNS_READ @ ''.run.''"
definition PERMISSION_RUNS_RETRY_RUN_PREFIX :: string where [perm_simps]: "PERMISSION_RUNS_RETRY_RUN_PREFIX = PERMISSION_RUNS_RETRY @ ''.run.''"
definition PERMISSION_RUNS_READ_RUN_WILDCARD :: string where [perm_simps]: "PERMISSION_RUNS_READ_RUN_WILDCARD = PERMISSION_RUNS_READ_RUN_PREFIX @ ''*''"
definition PERMISSION_RUNS_RETRY_RUN_WILDCARD :: string where [perm_simps]: "PERMISSION_RUNS_RETRY_RUN_WILDCARD = PERMISSION_RUNS_RETRY_RUN_PREFIX @ ''*''"
definition PERMISSION_CONTROL_SOURCE_LINEAGE_RUN_PREFIX :: string where [perm_simps]: "PERMISSION_CONTROL_SOURCE_LINEAGE_RUN_PREFIX = PERMISSION_CONTROL_SOURCE_LINEAGE_READ @ ''.run.''"
definition PERMISSION_CONTROL_PUBLICATION_AUDIT_PUBLICATION_PREFIX :: string where [perm_simps]: "PERMISSION_CONTROL_PUBLICATION_AUDIT_PUBLICATION_PREFIX = PERMISSION_CONTROL_PUBLICATION_AUDIT_READ @ ''.publication.''"
definition PERMISSION_CONTROL_SOURCE_LINEAGE_RUN_WILDCARD :: string where [perm_simps]: "PERMISSION_CONTROL_SOURCE_LINEAGE_RUN_WILDCARD = PERMISSION_CONTROL_SOURCE_LINEAGE_RUN_PREFIX @ ''*''"
definition PERMISSION_CONTROL_PUBLICATION_AUDIT_PUBLICATION_WILDCARD :: string where [perm_simps]: "PERMISSION_CONTROL_PUBLICATION_AUDIT_PUBLICATION_WILDCARD = PERMISSION_CONTROL_PUBLICATION_AUDIT_PUBLICATION_PREFIX @ ''*''"
definition PERMISSION_CONTROL_SCHEDULE_DISPATCHES_READ_SCHEDULE_PREFIX :: string where [perm_simps]: "PERMISSION_CONTROL_SCHEDULE_DISPATCHES_READ_SCHEDULE_PREFIX = PERMISSION_CONTROL_SCHEDULE_DISPATCHES_READ @ ''.schedule.''"
definition PERMISSION_CONTROL_SCHEDULE_DISPATCHES_READ_DISPATCH_PREFIX :: string where [perm_simps]: "PERMISSION_CONTROL_SCHEDULE_DISPATCHES_READ_DISPATCH_PREFIX = PERMISSION_CONTROL_SCHEDULE_DISPATCHES_READ @ ''.dispatch.''"
definition PERMISSION_CONTROL_SCHEDULE_DISPATCHES_WRITE_DISPATCH_PREFIX :: string where [perm_simps]: "PERMISSION_CONTROL_SCHEDULE_DISPATCHES_WRITE_DISPATCH_PREFIX = PERMISSION_CONTROL_SCHEDULE_DISPATCHES_WRITE @ ''.dispatch.''"
definition PERMISSION_CONTROL_SCHEDULE_DISPATCHES_READ_SCHEDULE_WILDCARD :: string where [perm_simps]: "PERMISSION_CONTROL_SCHEDULE_DISPATCHES_READ_SCHEDULE_WILDCARD = PERMISSION_CONTROL_SCHEDULE_DISPATCHES_READ_SCHEDULE_PREFIX @ ''*''"
definition PERMISSION_CONTROL_SCHEDULE_DISPATCHES_READ_DISPATCH_WILDCARD :: string where [perm_simps]: "PERMISSION_CONTROL_SCHEDULE_DISPATCHES_READ_DISPATCH_WILDCARD = PERMISSION_CONTROL_SCHEDULE_DISPATCHES_READ_DISPATCH_PREFIX @ ''*''"
definition PERMISSION_CONTROL_SCHEDULE_DISPATCHES_WRITE_DISPATCH_WILDCARD :: string where [perm_simps]: "PERMISSION_CONTROL_SCHEDULE_DISPATCHES_WRITE_DISPATCH_WILDCARD = PERMISSION_CONTROL_SCHEDULE_DISPATCHES_WRITE_DISPATCH_PREFIX @ ''*''"
definition PERMISSION_CONTROL_CONFIG_READ_RESOURCE_PREFIX :: string where [perm_simps]: "PERMISSION_CONTROL_CONFIG_READ_RESOURCE_PREFIX = PERMISSION_CONTROL_CONFIG_READ @ ''.resource.''"
definition PERMISSION_CONTROL_CONFIG_WRITE_RESOURCE_PREFIX :: string where [perm_simps]: "PERMISSION_CONTROL_CONFIG_WRITE_RESOURCE_PREFIX = PERMISSION_CONTROL_CONFIG_WRITE @ ''.resource.''"
definition PERMISSION_CONTROL_CONFIG_READ_RESOURCE_WILDCARD :: string where [perm_simps]: "PERMISSION_CONTROL_CONFIG_READ_RESOURCE_WILDCARD = PERMISSION_CONTROL_CONFIG_READ_RESOURCE_PREFIX @ ''*''"
definition PERMISSION_CONTROL_CONFIG_WRITE_RESOURCE_WILDCARD :: string where [perm_simps]: "PERMISSION_CONTROL_CONFIG_WRITE_RESOURCE_WILDCARD = PERMISSION_CONTROL_CONFIG_WRITE_RESOURCE_PREFIX @ ''*''"
definition PERMISSION_TRANSFORMATION_AUDIT_RUN_PREFIX :: string where [perm_simps]: "PERMISSION_TRANSFORMATION_AUDIT_RUN_PREFIX = PERMISSION_TRANSFORMATION_AUDIT_READ @ ''.run.''"
definition PERMISSION_TRANSFORMATION_AUDIT_RUN_WILDCARD :: string where [perm_simps]: "PERMISSION_TRANSFORMATION_AUDIT_RUN_WILDCARD = PERMISSION_TRANSFORMATION_AUDIT_RUN_PREFIX @ ''*''"
definition PERMISSION_REPORTS_READ_PUBLICATION_PREFIX :: string where [perm_simps]: "PERMISSION_REPORTS_READ_PUBLICATION_PREFIX = PERMISSION_REPORTS_READ @ ''.publication.''"
definition PERMISSION_REPORTS_READ_PUBLICATION_WILDCARD :: string where [perm_simps]: "PERMISSION_REPORTS_READ_PUBLICATION_WILDCARD = PERMISSION_REPORTS_READ_PUBLICATION_PREFIX @ ''*''"

definition dynamic_char :: "char \<Rightarrow> bool" where
  "dynamic_char c \<longleftrightarrow> (let n = (of_char c :: nat) in 97 \<le> n \<and> n \<le> 122 \<or> 48 \<le> n \<and> n \<le> 57)"

definition dynamic_pattern :: "string \<Rightarrow> bool" where
  \<comment> \<open>a full match of \<open>[a-z0-9][a-z0-9_.-]*\<close>\<close>
  "dynamic_pattern s = (case s of [] \<Rightarrow> False
     | c # cs \<Rightarrow> dynamic_char c \<and> list_all (\<lambda>x. dynamic_char x \<or> x \<in> set ''_.-'') cs)"

definition READER_PERMISSIONS :: "string list" where
  "READER_PERMISSIONS = [PERMISSION_RUNS_READ, PERMISSION_REPORTS_READ, PERMISSION_CONTROL_SOURCE_LINEAGE_READ,
     PERMISSION_CONTROL_PUBLICATION_AUDIT_READ, PERMISSION_CONTROL_SCHEDULE_DISPATCHES_READ,
     PERMISSION_TRANSFORMATION_AUDIT_READ, PERMISSION_CONTROL_DECISIONS_READ]"

definition OPERATOR_PERMISSIONS :: "string list" where
  "OPERATOR_PERMISSIONS = READER_PERMISSIONS @ [PERMISSION_INGEST_WRITE, PERMISSION_RUNS_RETRY,
     PERMISSION_CONTROL_SCHEDULE_DISPATCHES_WRITE, PERMISSION_CONTROL_ACTION_PROPOSALS_WRITE,
     PERMISSION_CONTROL_ACTION_PROPOSALS_DRAFT, PERMISSION_CONTROL_DECISIONS_WRITE]"

definition ADMIN_PERMISSIONS :: "string list" where
  "ADMIN_PERMISSIONS = OPERATOR_PERMISSIONS @ [PERMISSION_CONTROL_CONFIG_READ, PERMISSION_CONTROL_CONFIG_WRITE,
     PERMISSION_ADMIN_WRITE, PERMISSION_CONTROL_POLICY_READ, PERMISSION_CONTROL_POLICY_WRITE, PERMISSION_CONTROL_POLICY_DRAFT]"

fun permissions_for_role :: "user_role \<Rightarrow> string list" where
  "permissions_for_role Reader = READER_PERMISSIONS"
| "permissions_for_role Operator = OPERATOR_PERMISSIONS"
| "permissions_for_role Admin = ADMIN_PERMISSIONS"

definition SERVICE_SCOPE_PERMISSIONS :: "(string \<times> string list) list" where
  "SERVICE_SCOPE_PERMISSIONS =
     [(SCOPE_REPORTS_READ, [PERMISSION_REPORTS_READ]),
      (SCOPE_RUNS_READ, [PERMISSION_RUNS_READ, PERMISSION_CONTROL_SOURCE_LINEAGE_READ, PERMISSION_CONTROL_PUBLICATION_AUDIT_READ,
         PERMISSION_CONTROL_SCHEDULE_DISPATCHES_READ, PERMISSION_TRANSFORMATION_AUDIT_READ]),
      (SCOPE_INGEST_WRITE, [PERMISSION_INGEST_WRITE, PERMISSION_RUNS_RETRY, PERMISSION_CONTROL_SCHEDULE_DISPATCHES_WRITE,
         PERMISSION_CONTROL_ACTION_PROPOSALS_WRITE]),
      (SCOPE_HA_BRIDGE_INGEST, [PERMISSION_INGEST_WRITE]),
      (SCOPE_ADMIN_WRITE, [PERMISSION_ADMIN_WRITE, PERMISSION_CONTROL_CONFIG_READ, PERMISSION_CONTROL_CONFIG_WRITE,
         PERMISSION_CONTROL_ACTION_PROPOSALS_WRITE, PERMISSION_CONTROL_ACTION_PROPOSALS_DRAFT]),
      (SCOPE_PROPOSALS_DRAFT, [PERMISSION_CONTROL_ACTION_PROPOSALS_DRAFT]),
      (SCOPE_POLICIES_DRAFT, [PERMISSION_CONTROL_POLICY_DRAFT])]"

definition KNOWN_PERMISSIONS :: "string list" where
  "KNOWN_PERMISSIONS = [PERMISSION_RUNS_READ, PERMISSION_RUNS_RETRY, PERMISSION_REPORTS_READ, PERMISSION_INGEST_WRITE,
     PERMISSION_CONTROL_SOURCE_LINEAGE_READ, PERMISSION_CONTROL_PUBLICATION_AUDIT_READ,
     PERMISSION_CONTROL_SCHEDULE_DISPATCHES_READ, PERMISSION_CONTROL_SCHEDULE_DISPATCHES_WRITE,
     PERMISSION_CONTROL_ACTION_PROPOSALS_WRITE, PERMISSION_CONTROL_ACTION_PROPOSALS_DRAFT,
     PERMISSION_CONTROL_CONFIG_READ, PERMISSION_CONTROL_CONFIG_WRITE, PERMISSION_TRANSFORMATION_AUDIT_READ,
     PERMISSION_ADMIN_WRITE, PERMISSION_CONTROL_POLICY_READ, PERMISSION_CONTROL_POLICY_WRITE,
     PERMISSION_CONTROL_POLICY_DRAFT, PERMISSION_CONTROL_DECISIONS_READ, PERMISSION_CONTROL_DECISIONS_WRITE]"

definition permissions_for_service_token_scopes :: "string list \<Rightarrow> string list" where
  "permissions_for_service_token_scopes scopes =
     concat (map (\<lambda>s. case map_of SERVICE_SCOPE_PERMISSIONS s of None \<Rightarrow> [] | Some ps \<Rightarrow> ps) scopes)"

section \<open>Permissions of one resource\<close>

definition resource_permission :: "string \<Rightarrow> string \<Rightarrow> string option" where
  \<comment> \<open>the common body of the functions below\<close>
  "resource_permission pre v = (let normalized = lower (strip v) in
     if normalized = [] then None else if \<not> dynamic_pattern normalized then None else Some (pre @ normalized))"

definition publication_read_permission :: "string \<Rightarrow> string option" where
  "publication_read_permission v = resource_permission PERMISSION_REPORTS_READ_PUBLICATION_PREFIX v"

definition run_read_permission :: "string \<Rightarrow> string option" where
  "run_read_permission v = resource_permission PERMISSION_RUNS_READ_RUN_PREFIX v"

definition run_retry_permission :: "string \<Rightarrow> string option" where
  "run_retry_permission v = resource_permission PERMISSION_RUNS_RETRY_RUN_PREFIX v"

definition source_lineage_run_permission :: "string \<Rightarrow> string option" where
  "source_lineage_run_permission v = resource_permission PERMISSION_CONTROL_SOURCE_LINEAGE_RUN_PREFIX v"

definition publication_audit_publication_permission :: "string \<Rightarrow> string option" where
  "publication_audit_publication_permission v = resource_permission PERMISSION_CONTROL_PUBLICATION_AUDIT_PUBLICATION_PREFIX v"

definition transformation_audit_run_permission :: "string \<Rightarrow> string option" where
  "transformation_audit_run_permission v = resource_permission PERMISSION_TRANSFORMATION_AUDIT_RUN_PREFIX v"

definition schedule_dispatch_read_schedule_permission :: "string \<Rightarrow> string option" where
  "schedule_dispatch_read_schedule_permission v = resource_permission PERMISSION_CONTROL_SCHEDULE_DISPATCHES_READ_SCHEDULE_PREFIX v"

definition schedule_dispatch_read_dispatch_permission :: "string \<Rightarrow> string option" where
  "schedule_dispatch_read_dispatch_permission v = resource_permission PERMISSION_CONTROL_SCHEDULE_DISPATCHES_READ_DISPATCH_PREFIX v"

definition schedule_dispatch_write_dispatch_permission :: "string \<Rightarrow> string option" where
  "schedule_dispatch_write_dispatch_permission v = resource_permission PERMISSION_CONTROL_SCHEDULE_DISPATCHES_WRITE_DISPATCH_PREFIX v"

definition config_read_resource_permission :: "string \<Rightarrow> string option" where
  "config_read_resource_permission v = resource_permission PERMISSION_CONTROL_CONFIG_READ_RESOURCE_PREFIX v"

definition config_write_resource_permission :: "string \<Rightarrow> string option" where
  "config_write_resource_permission v = resource_permission PERMISSION_CONTROL_CONFIG_WRITE_RESOURCE_PREFIX v"

definition DYNAMIC_PREFIXES :: "string list" where
  "DYNAMIC_PREFIXES = [PERMISSION_RUNS_READ_RUN_PREFIX, PERMISSION_RUNS_RETRY_RUN_PREFIX,
     PERMISSION_CONTROL_SOURCE_LINEAGE_RUN_PREFIX, PERMISSION_CONTROL_PUBLICATION_AUDIT_PUBLICATION_PREFIX,
     PERMISSION_CONTROL_SCHEDULE_DISPATCHES_READ_SCHEDULE_PREFIX, PERMISSION_CONTROL_SCHEDULE_DISPATCHES_READ_DISPATCH_PREFIX,
     PERMISSION_CONTROL_SCHEDULE_DISPATCHES_WRITE_DISPATCH_PREFIX, PERMISSION_CONTROL_CONFIG_READ_RESOURCE_PREFIX,
     PERMISSION_CONTROL_CONFIG_WRITE_RESOURCE_PREFIX, PERMISSION_TRANSFORMATION_AUDIT_RUN_PREFIX,
     PERMISSION_REPORTS_READ_PUBLICATION_PREFIX]"

definition DYNAMIC_WILDCARDS :: "string list" where
  "DYNAMIC_WILDCARDS = [PERMISSION_RUNS_READ_RUN_WILDCARD, PERMISSION_RUNS_RETRY_RUN_WILDCARD,
     PERMISSION_CONTROL_SOURCE_LINEAGE_RUN_WILDCARD, PERMISSION_CONTROL_PUBLICATION_AUDIT_PUBLICATION_WILDCARD,
     PERMISSION_CONTROL_SCHEDULE_DISPATCHES_READ_SCHEDULE_WILDCARD, PERMISSION_CONTROL_SCHEDULE_DISPATCHES_READ_DISPATCH_WILDCARD,
     PERMISSION_CONTROL_SCHEDULE_DISPATCHES_WRITE_DISPATCH_WILDCARD, PERMISSION_CONTROL_CONFIG_READ_RESOURCE_WILDCARD,
     PERMISSION_CONTROL_CONFIG_WRITE_RESOURCE_WILDCARD, PERMISSION_TRANSFORMATION_AUDIT_RUN_WILDCARD,
     PERMISSION_REPORTS_READ_PUBLICATION_WILDCARD]"

definition normalize_dynamic_permission :: "string \<Rightarrow> string option" where
  "normalize_dynamic_permission p = (if p \<in> set DYNAMIC_WILDCARDS then Some p
     else (case List.find (\<lambda>pre. prefix pre p) DYNAMIC_PREFIXES of
       None \<Rightarrow> None
     | Some pre \<Rightarrow>
         let rest = drop (length pre) p in
         if suffix ''.*'' rest then
           (let w = take (length rest - 2) rest in if w \<noteq> [] \<and> dynamic_pattern w then Some (pre @ w @ ''.*'') else None)
         else if dynamic_pattern rest then Some (pre @ rest) else None))"

definition normalize_permission_grants :: "string list \<Rightarrow> string list" where
  "normalize_permission_grants permissions =
     (let normalized = map (\<lambda>p. lower (strip p)) (filter (\<lambda>p. strip p \<noteq> []) permissions) in
      sorted_unique (filter (\<lambda>p. p \<in> set KNOWN_PERMISSIONS) normalized @ List.map_filter normalize_dynamic_permission normalized))"

definition normalize_required_permission :: "string \<Rightarrow> string" where
  "normalize_required_permission p = (case normalize_permission_grants [p] of
     q # _ \<Rightarrow> q
   | [] \<Rightarrow> lower (strip p))"

section \<open>What a grant satisfies\<close>

definition BASE_GRANTS :: "(string \<times> string list) list" where
  \<comment> \<open>a base permission and the prefixes of the resource permissions it covers\<close>
  "BASE_GRANTS =
     [(PERMISSION_REPORTS_READ, [PERMISSION_REPORTS_READ_PUBLICATION_PREFIX]),
      (PERMISSION_RUNS_READ, [PERMISSION_RUNS_READ_RUN_PREFIX]),
      (PERMISSION_RUNS_RETRY, [PERMISSION_RUNS_RETRY_RUN_PREFIX]),
      (PERMISSION_CONTROL_SOURCE_LINEAGE_READ, [PERMISSION_CONTROL_SOURCE_LINEAGE_RUN_PREFIX]),
      (PERMISSION_CONTROL_PUBLICATION_AUDIT_READ, [PERMISSION_CONTROL_PUBLICATION_AUDIT_PUBLICATION_PREFIX]),
      (PERMISSION_CONTROL_SCHEDULE_DISPATCHES_READ, [PERMISSION_CONTROL_SCHEDULE_DISPATCHES_READ_SCHEDULE_PREFIX,
         PERMISSION_CONTROL_SCHEDULE_DISPATCHES_READ_DISPATCH_PREFIX]),
      (PERMISSION_CONTROL_SCHEDULE_DISPATCHES_WRITE, [PERMISSION_CONTROL_SCHEDULE_DISPATCHES_WRITE_DISPATCH_PREFIX]),
      (PERMISSION_CONTROL_CONFIG_READ, [PERMISSION_CONTROL_CONFIG_READ_RESOURCE_PREFIX]),
      (PERMISSION_CONTROL_CONFIG_WRITE, [PERMISSION_CONTROL_CONFIG_WRITE_RESOURCE_PREFIX]),
      (PERMISSION_TRANSFORMATION_AUDIT_READ, [PERMISSION_TRANSFORMATION_AUDIT_RUN_PREFIX])]"

definition granted_permission_satisfies_required :: "string \<Rightarrow> string \<Rightarrow> bool" where
  "granted_permission_satisfies_required granted required =
     (if granted = required then True
      else if list_ex (\<lambda>(g, pres). granted = g \<and> list_ex (\<lambda>pre. prefix pre required) pres) BASE_GRANTS then True
      else if suffix ''.*'' granted then
        (let pre = take (length granted - 2) granted in required = pre \<or> prefix (pre @ ''.'') required)
      else False)"

section \<open>Principals\<close>

record principal_context =
  pc_role :: user_role
  pc_auth_provider :: string
  pc_scopes :: "string list"
  pc_granted_permissions :: "string list"
  pc_permission_bound :: bool

definition permissions_for_principal :: "principal_context \<Rightarrow> string list" where
  "permissions_for_principal c =
     (let role_permissions = (if pc_permission_bound c then [] else permissions_for_role (pc_role c));
          direct_permissions = normalize_permission_grants (pc_granted_permissions c);
          scope_permissions = permissions_for_service_token_scopes (pc_scopes c) in
      if pc_auth_provider c \<noteq> ''service_token'' then
        (if pc_auth_provider c = ''machine_jwt'' then
           (if pc_scopes c \<noteq> [] then filter (\<lambda>p. p \<in> set scope_permissions) role_permissions else role_permissions) @ direct_permissions
         else role_permissions @ direct_permissions)
      else filter (\<lambda>p. p \<in> set scope_permissions) role_permissions)"

definition has_required_permission :: "principal_context \<Rightarrow> string option \<Rightarrow> bool" where
  "has_required_permission c required = (case required of
     None \<Rightarrow> True
   | Some p \<Rightarrow> (let normalized = normalize_required_permission p in
       list_ex (\<lambda>g. granted_permission_satisfies_required g normalized) (permissions_for_principal c)))"

end
