(* ===== verification/RoutePolicies.thy ===== *)
theory RoutePolicies
  imports Permissions
begin

text \<open>
  Which role, permission and service-token scope a request needs: the lookup
  (\<open>packages/platform/auth/route_policy_engine.py\<close>) and the catalog of the API
  (\<open>apps/api/auth_policies.py\<close>).  A field of a decision is a function of the request; a constant is the
  constant function.
\<close>

section \<open>The engine\<close>

record route_context =
  rc_path :: string
  rc_method :: "string option"
  rc_query :: "(string \<times> string) list"

record route_decision =
  rd_role :: "route_context \<Rightarrow> user_role option"
  rd_permission :: "route_context \<Rightarrow> string option"
  rd_scope :: "route_context \<Rightarrow> string option"

record route_policy =
  rp_exact_paths :: "string list"
  rp_prefix_paths :: "string list"
  rp_path_decision :: "route_decision option"
  rp_request_decision :: "route_decision option"

definition route_decision_of :: "(route_context \<Rightarrow> user_role option) \<Rightarrow> (route_context \<Rightarrow> string option) \<Rightarrow>
  (route_context \<Rightarrow> string option) \<Rightarrow> route_decision" where
  "route_decision_of role permission scope = \<lparr> rd_role = role, rd_permission = permission, rd_scope = scope \<rparr>"

definition static_route_decision :: "user_role option \<Rightarrow> string option \<Rightarrow> string option \<Rightarrow> route_decision" where
  "static_route_decision role permission scope = route_decision_of (\<lambda>_. role) (\<lambda>_. permission) (\<lambda>_. scope)"

definition route_policy_of :: "string list \<Rightarrow> string list \<Rightarrow> route_decision option \<Rightarrow> route_decision option \<Rightarrow> route_policy" where
  "route_policy_of exact pres path_decision request_decision =
     \<lparr> rp_exact_paths = exact, rp_prefix_paths = pres, rp_path_decision = path_decision, rp_request_decision = request_decision \<rparr>"

definition matches_prefix :: "string \<Rightarrow> string \<Rightarrow> bool" where
  "matches_prefix path pre = (if suffix ''/'' pre then prefix pre path else path = pre \<or> prefix (pre @ ''/'') path)"

definition policy_matches :: "route_policy \<Rightarrow> string \<Rightarrow> bool" where
  "policy_matches p path \<longleftrightarrow> path \<in> set (rp_exact_paths p) \<or> list_ex (matches_prefix path) (rp_prefix_paths p)"

definition decision_for :: "route_policy \<Rightarrow> route_context \<Rightarrow> route_decision option" where
  \<comment> \<open>with a method the decision for requests, and without either that or the path's\<close>
  "decision_for p c = (case (if rc_method c \<noteq> None then rp_request_decision p else rp_path_decision p) of
     Some d \<Rightarrow> Some d
   | None \<Rightarrow> rp_path_decision p)"

fun lookup_field :: "(route_decision \<Rightarrow> route_context \<Rightarrow> 'a option) \<Rightarrow> route_policy list \<Rightarrow> route_context \<Rightarrow> 'a option" where
  "lookup_field field [] c = None"
| "lookup_field field (p # ps) c =
     (if \<not> policy_matches p (rc_path c) then lookup_field field ps c
      else (case decision_for p c of
        None \<Rightarrow> lookup_field field ps c
      | Some d \<Rightarrow> (case field d c of None \<Rightarrow> lookup_field field ps c | Some v \<Rightarrow> Some v)))"

definition route_context_of :: "string \<Rightarrow> string option \<Rightarrow> (string \<times> string) list \<Rightarrow> route_context" where
  "route_context_of path method query = \<lparr> rc_path = path,
     rc_method = (let m = upper_ascii (text_or method []) in if m = [] then None else Some m), rc_query = query \<rparr>"

definition request_method :: "string option \<Rightarrow> string" where
  "request_method method = upper_ascii (text_or method ''GET'')"

definition required_role_for_request :: "route_policy list \<Rightarrow> string \<Rightarrow> string option \<Rightarrow> user_role option" where
  "required_role_for_request ps path method = lookup_field rd_role ps (route_context_of path (Some (request_method method)) [])"

definition required_scope_for_request :: "route_policy list \<Rightarrow> string \<Rightarrow> string option \<Rightarrow> string option" where
  "required_scope_for_request ps path method = lookup_field rd_scope ps (route_context_of path (Some (request_method method)) [])"

definition required_permission_for_request :: "route_policy list \<Rightarrow> string \<Rightarrow> (string \<times> string) list \<Rightarrow> string option \<Rightarrow> string option" where
  "required_permission_for_request ps path query method =
     lookup_field rd_permission ps (route_context_of path (Some (request_method method)) query)"

definition required_role_for_path :: "route_policy list \<Rightarrow> string \<Rightarrow> user_role option" where
  "required_role_for_path ps path = lookup_field rd_role ps (route_context_of path None [])"

definition required_permission_for_path :: "route_policy list \<Rightarrow> string \<Rightarrow> string option" where
  "required_permission_for_path ps path = lookup_field rd_permission ps (route_context_of path None [])"

definition required_scope_for_path :: "route_policy list \<Rightarrow> string \<Rightarrow> string option" where
  "required_scope_for_path ps path = lookup_field rd_scope ps (route_context_of path None [])"

section \<open>Decisions that depend on the request\<close>

definition permission_or :: "string option \<Rightarrow> string \<Rightarrow> string" where
  "permission_or p fallback = (case p of None \<Rightarrow> fallback | Some q \<Rightarrow> q)"

definition permission_from_suffix :: "string \<Rightarrow> (string \<Rightarrow> string option) \<Rightarrow> string \<Rightarrow> route_context \<Rightarrow> string option" where
  "permission_from_suffix pre factory fallback c =
     (let rest = strip_char (CHR ''/'') (removeprefix pre (rc_path c)) in
      Some (if rest = [] then fallback else permission_or (factory rest) fallback))"

definition query_value :: "route_context \<Rightarrow> string \<Rightarrow> string" where
  "query_value c parameter = strip (case map_of (rc_query c) parameter of None \<Rightarrow> [] | Some v \<Rightarrow> v)"

definition permission_from_query_param :: "string \<Rightarrow> (string \<Rightarrow> string option) \<Rightarrow> string \<Rightarrow> route_context \<Rightarrow> string option" where
  "permission_from_query_param parameter factory fallback c =
     (let v = query_value c parameter in Some (if v = [] then fallback else permission_or (factory v) fallback))"

definition schedule_dispatches_request_permission :: "route_context \<Rightarrow> string option" where
  "schedule_dispatches_request_permission c =
     (if rc_method c = Some ''GET'' then
        (let schedule_id = query_value c ''schedule_id'' in
         if schedule_id \<noteq> [] then Some (permission_or (schedule_dispatch_read_schedule_permission schedule_id) PERMISSION_CONTROL_SCHEDULE_DISPATCHES_READ)
         else Some PERMISSION_CONTROL_SCHEDULE_DISPATCHES_READ)
      else Some PERMISSION_CONTROL_SCHEDULE_DISPATCHES_WRITE)"

definition schedule_dispatches_request_role :: "route_context \<Rightarrow> user_role option" where
  "schedule_dispatches_request_role c = Some (if rc_method c = Some ''GET'' then Reader else Operator)"

definition dispatch_item :: "route_context \<Rightarrow> string" where
  "dispatch_item c = strip_char (CHR ''/'') (removeprefix ''/control/schedule-dispatches/'' (rc_path c))"

definition schedule_dispatch_item_permission :: "route_context \<Rightarrow> string option" where
  "schedule_dispatch_item_permission c =
     (let dispatch_id = dispatch_item c in
      if dispatch_id = [] then Some PERMISSION_CONTROL_SCHEDULE_DISPATCHES_READ
      else if suffix ''/retry'' dispatch_id then
        Some (permission_or (schedule_dispatch_write_dispatch_permission (strip_char (CHR ''/'') (removesuffix ''/retry'' dispatch_id)))
          PERMISSION_CONTROL_SCHEDULE_DISPATCHES_WRITE)
      else Some (permission_or (schedule_dispatch_read_dispatch_permission dispatch_id) PERMISSION_CONTROL_SCHEDULE_DISPATCHES_READ))"

definition schedule_dispatch_item_role :: "route_context \<Rightarrow> user_role option" where
  "schedule_dispatch_item_role c = Some (if suffix ''/retry'' (dispatch_item c) then Operator else Reader)"

definition categories_request_role :: "route_context \<Rightarrow> user_role option" where
  "categories_request_role c = Some (if rc_method c = Some ''GET'' then Reader else Operator)"

definition categories_request_permission :: "route_context \<Rightarrow> string option" where
  "categories_request_permission c = Some (if rc_method c = Some ''GET'' then PERMISSION_REPORTS_READ else PERMISSION_INGEST_WRITE)"

definition categories_rules_request_role :: "route_context \<Rightarrow> user_role option" where
  "categories_rules_request_role c = Some (if rc_method c = Some ''GET'' then Reader else Admin)"

definition categories_rules_request_permission :: "route_context \<Rightarrow> string option" where
  "categories_rules_request_permission c = Some (if rc_method c = Some ''GET'' then PERMISSION_REPORTS_READ else PERMISSION_ADMIN_WRITE)"

definition categories_overrides_request_role :: "route_context \<Rightarrow> user_role option" where
  "categories_overrides_request_role c = Some Reader"

definition categories_overrides_request_permission :: "route_context \<Rightarrow> string option" where
  "categories_overrides_request_permission c = Some PERMISSION_REPORTS_READ"

definition config_resource_key :: "string \<Rightarrow> string option" where
  "config_resource_key path =
     (let rest = strip_char (CHR ''/'') (removeprefix ''/config/'' path) in
      if rest = [] then None
      else let parts = map (\<lambda>p. lower (strip p)) (filter (\<lambda>p. strip p \<noteq> []) (split_on (CHR ''/'') rest)) in
        if parts = [] then None else Some (join_with (CHR ''.'') parts))"

definition config_request_role :: "route_context \<Rightarrow> user_role option" where
  "config_request_role c = Some Admin"

definition config_request_permission :: "route_context \<Rightarrow> string option" where
  "config_request_permission c =
     (let key = config_resource_key (rc_path c) in
      if rc_method c \<in> set (map Some [''GET'', ''HEAD'', ''OPTIONS'']) then
        (case key of None \<Rightarrow> Some PERMISSION_CONTROL_CONFIG_READ
         | Some k \<Rightarrow> Some (permission_or (config_read_resource_permission k) PERMISSION_CONTROL_CONFIG_READ))
      else (case key of None \<Rightarrow> Some PERMISSION_CONTROL_CONFIG_WRITE
         | Some k \<Rightarrow> Some (permission_or (config_write_resource_permission k) PERMISSION_CONTROL_CONFIG_WRITE)))"

definition what_if_paths :: "string list" where
  "what_if_paths = [''/api/scenarios/loan-what-if'', ''/api/scenarios/income-change'', ''/api/scenarios/expense-shock'']"

definition path_parts :: "route_context \<Rightarrow> string list" where
  "path_parts c = filter (\<lambda>p. p \<noteq> []) (split_on (CHR ''/'') (strip_char (CHR ''/'') (rc_path c)))"

definition scenarios_request_role :: "route_context \<Rightarrow> user_role option" where
  "scenarios_request_role c =
     (if rc_path c = ''/api/scenarios/compare-sets'' then Some (if rc_method c = Some ''GET'' then Reader else Operator)
      else if prefix ''/api/scenarios/compare-sets/'' (rc_path c) then
        Some (if rc_method c \<in> set (map Some [''DELETE'', ''PATCH'', ''POST'', ''PUT'']) then Operator else Reader)
      else if rc_path c \<in> set what_if_paths then Some Operator
      else if length (path_parts c) = 3 \<and> rc_method c = Some ''DELETE'' then Some Operator
      else Some Reader)"

definition scenarios_request_permission :: "route_context \<Rightarrow> string option" where
  "scenarios_request_permission c =
     (if rc_path c = ''/api/scenarios/compare-sets'' then Some (if rc_method c = Some ''GET'' then PERMISSION_REPORTS_READ else PERMISSION_INGEST_WRITE)
      else if prefix ''/api/scenarios/compare-sets/'' (rc_path c) then
        Some (if rc_method c \<in> set (map Some [''DELETE'', ''PATCH'', ''POST'', ''PUT'']) then PERMISSION_INGEST_WRITE else PERMISSION_REPORTS_READ)
      else if rc_path c \<in> set what_if_paths then Some PERMISSION_INGEST_WRITE
      else if length (path_parts c) = 3 \<and> rc_method c = Some ''DELETE'' then Some PERMISSION_INGEST_WRITE
      else Some PERMISSION_REPORTS_READ)"

definition api_ha_request_role :: "route_context \<Rightarrow> user_role option" where
  "api_ha_request_role c =
     (if rc_path c \<in> set [''/api/ha/ingest'', ''/api/ha/policies/evaluate''] then Some Operator
      else if rc_path c = ''/api/ha/actions/proposals'' then Some (if rc_method c = Some ''GET'' then Reader else Operator)
      else if prefix ''/api/ha/actions/proposals/'' (rc_path c) then Some (if rc_method c = Some ''GET'' then Reader else Operator)
      else Some Reader)"

definition api_ha_request_permission :: "route_context \<Rightarrow> string option" where
  "api_ha_request_permission c =
     (if rc_path c \<in> set [''/api/ha/ingest'', ''/api/ha/policies/evaluate''] then Some PERMISSION_INGEST_WRITE
      else if rc_path c = ''/api/ha/actions/proposals'' then
        Some (if rc_method c = Some ''GET'' then PERMISSION_RUNS_READ else PERMISSION_CONTROL_ACTION_PROPOSALS_DRAFT)
      else if prefix ''/api/ha/actions/proposals/'' (rc_path c) then
        Some (if rc_method c = Some ''GET'' then PERMISSION_RUNS_READ else PERMISSION_CONTROL_ACTION_PROPOSALS_WRITE)
      else Some PERMISSION_RUNS_READ)"

definition api_ha_request_scope :: "route_context \<Rightarrow> string option" where
  "api_ha_request_scope c =
     (if rc_path c \<in> set [''/api/ha/ingest'', ''/api/ha/policies/evaluate''] then Some SCOPE_INGEST_WRITE
      else if rc_path c = ''/api/ha/actions/proposals'' then
        Some (if rc_method c = Some ''GET'' then SCOPE_RUNS_READ else SCOPE_PROPOSALS_DRAFT)
      else if prefix ''/api/ha/actions/proposals/'' (rc_path c) then
        Some (if rc_method c = Some ''GET'' then SCOPE_RUNS_READ else SCOPE_ADMIN_WRITE)
      else Some SCOPE_RUNS_READ)"

definition ACTIONS_DRAFT_PATH :: string where
  "ACTIONS_DRAFT_PATH = ''/api/actions/proposals''"

definition is_read :: "route_context \<Rightarrow> bool" where
  "is_read c \<longleftrightarrow> upper_ascii (text_or (rc_method c) ''GET'') \<in> set [''GET'', ''HEAD'']"

definition api_actions_request_role :: "route_context \<Rightarrow> user_role option" where
  "api_actions_request_role c = Some (if is_read c then Reader else Operator)"

definition api_actions_request_permission :: "route_context \<Rightarrow> string option" where
  "api_actions_request_permission c = Some (if is_read c then PERMISSION_REPORTS_READ
     else if rc_path c = ACTIONS_DRAFT_PATH then PERMISSION_CONTROL_ACTION_PROPOSALS_DRAFT
     else PERMISSION_CONTROL_ACTION_PROPOSALS_WRITE)"

definition api_actions_request_scope :: "route_context \<Rightarrow> string option" where
  "api_actions_request_scope c = Some (if is_read c then SCOPE_REPORTS_READ
     else if rc_path c = ACTIONS_DRAFT_PATH then SCOPE_PROPOSALS_DRAFT
     else SCOPE_ADMIN_WRITE)"

definition creates_policy :: "route_context \<Rightarrow> bool" where
  "creates_policy c \<longleftrightarrow> rc_path c = ''/control/policies'' \<and> upper_ascii (text_or (rc_method c) []) = ''POST''"

definition control_policies_request_permission :: "route_context \<Rightarrow> string option" where
  "control_policies_request_permission c = Some (if is_read c then PERMISSION_CONTROL_POLICY_READ
     else if creates_policy c then PERMISSION_CONTROL_POLICY_DRAFT
     else PERMISSION_CONTROL_POLICY_WRITE)"

definition control_policies_request_scope :: "route_context \<Rightarrow> string option" where
  "control_policies_request_scope c = Some (if creates_policy c then SCOPE_POLICIES_DRAFT else SCOPE_ADMIN_WRITE)"

definition control_source_lineage_permission :: "route_context \<Rightarrow> string option" where
  "control_source_lineage_permission =
     permission_from_query_param ''run_id'' source_lineage_run_permission PERMISSION_CONTROL_SOURCE_LINEAGE_READ"

definition control_publication_audit_permission :: "route_context \<Rightarrow> string option" where
  "control_publication_audit_permission =
     permission_from_query_param ''publication_key'' publication_audit_publication_permission PERMISSION_CONTROL_PUBLICATION_AUDIT_READ"

definition transformation_audit_permission :: "route_context \<Rightarrow> string option" where
  "transformation_audit_permission =
     permission_from_query_param ''run_id'' transformation_audit_run_permission PERMISSION_TRANSFORMATION_AUDIT_READ"

definition runs_suffix :: "route_context \<Rightarrow> string" where
  "runs_suffix c = strip_char (CHR ''/'') (removeprefix ''/runs/'' (rc_path c))"

definition runs_retry_permission :: "route_context \<Rightarrow> string option" where
  "runs_retry_permission c = (if \<not> suffix ''/retry'' (runs_suffix c) then None
     else Some (permission_or (run_retry_permission (strip_char (CHR ''/'') (removesuffix ''/retry'' (runs_suffix c)))) PERMISSION_RUNS_RETRY))"

definition runs_read_role :: "route_context \<Rightarrow> user_role option" where
  "runs_read_role c = (if rc_path c = ''/runs'' then Some Reader
     else if suffix ''/retry'' (runs_suffix c) then None else Some Reader)"

definition first_segment_permission :: "(string \<Rightarrow> string option) \<Rightarrow> string \<Rightarrow> string \<Rightarrow> string option" where
  "first_segment_permission factory fallback rest =
     (if rest = [] then Some fallback
      else let first_segment = strip (before_first (CHR ''/'') rest) in
        if first_segment = [] then Some fallback else Some (permission_or (factory first_segment) fallback))"

definition runs_read_permission :: "route_context \<Rightarrow> string option" where
  "runs_read_permission c = (if rc_path c = ''/runs'' then Some PERMISSION_RUNS_READ
     else if suffix ''/retry'' (runs_suffix c) then None
     else first_segment_permission run_read_permission PERMISSION_RUNS_READ (runs_suffix c))"

definition runs_read_scope :: "route_context \<Rightarrow> string option" where
  "runs_read_scope c = (if rc_path c = ''/runs'' then Some SCOPE_RUNS_READ
     else if suffix ''/retry'' (runs_suffix c) then None else Some SCOPE_RUNS_READ)"

definition reports_read_role :: "route_context \<Rightarrow> user_role option" where
  "reports_read_role c = Some Reader"

definition reports_read_permission :: "route_context \<Rightarrow> string option" where
  "reports_read_permission c = (if rc_path c = ''/reports'' then Some PERMISSION_REPORTS_READ
     else first_segment_permission publication_read_permission PERMISSION_REPORTS_READ
       (strip_char (CHR ''/'') (removeprefix ''/reports/'' (rc_path c))))"

definition reports_read_scope :: "route_context \<Rightarrow> string option" where
  "reports_read_scope c = Some SCOPE_REPORTS_READ"

definition decision_read :: "route_context \<Rightarrow> bool" where
  "decision_read c \<longleftrightarrow> upper_ascii (text_or (rc_method c) []) \<in> set [''GET'', ''HEAD'']"

section \<open>The catalog\<close>

definition session_policies :: "route_policy list" where
  "session_policies =
     [route_policy_of [''/health'', ''/ready'', ''/metrics'', ''/auth/login'', ''/auth/logout'', ''/auth/callback''] []
       None
       None,
      route_policy_of [''/auth/me'', ''/docs'', ''/redoc'', ''/openapi.json''] []
       (Some (static_route_decision (Some Reader) None None))
       (Some (static_route_decision (Some Reader) None None))]"

definition audit_policies :: "route_policy list" where
  "audit_policies =
     [route_policy_of [''/control/source-lineage''] []
       (Some (route_decision_of (\<lambda>_. Some Reader) control_source_lineage_permission (\<lambda>_. Some SCOPE_RUNS_READ)))
       None,
      route_policy_of [''/control/publication-audit''] []
       (Some (route_decision_of (\<lambda>_. Some Reader) control_publication_audit_permission (\<lambda>_. Some SCOPE_RUNS_READ)))
       None,
      route_policy_of [''/transformation-audit''] []
       (Some (route_decision_of (\<lambda>_. Some Reader) transformation_audit_permission (\<lambda>_. Some SCOPE_RUNS_READ)))
       None,
      route_policy_of [''/control/schedule-dispatches''] []
       (Some (static_route_decision (Some Admin) (Some PERMISSION_ADMIN_WRITE) (Some SCOPE_ADMIN_WRITE)))
       (Some (route_decision_of schedule_dispatches_request_role schedule_dispatches_request_permission (\<lambda>c. Some (if rc_method c = Some ''GET'' then SCOPE_RUNS_READ else SCOPE_INGEST_WRITE)))),
      route_policy_of [] [''/control/schedule-dispatches/'']
       (Some (static_route_decision (Some Admin) (Some PERMISSION_ADMIN_WRITE) (Some SCOPE_ADMIN_WRITE)))
       (Some (route_decision_of schedule_dispatch_item_role schedule_dispatch_item_permission (\<lambda>c. Some (if suffix ''/retry'' (rc_path c) then SCOPE_INGEST_WRITE else SCOPE_RUNS_READ))))]"

definition category_policies :: "route_policy list" where
  "category_policies =
     [route_policy_of [''/functions''] []
       (Some (static_route_decision (Some Admin) (Some PERMISSION_ADMIN_WRITE) (Some SCOPE_ADMIN_WRITE)))
       (Some (static_route_decision (Some Admin) (Some PERMISSION_ADMIN_WRITE) (Some SCOPE_ADMIN_WRITE))),
      route_policy_of [''/api/categories''] []
       None
       (Some (route_decision_of categories_request_role categories_request_permission (\<lambda>c. Some (if rc_method c = Some ''GET'' then SCOPE_REPORTS_READ else SCOPE_INGEST_WRITE)))),
      route_policy_of [''/categories/rules''] []
       None
       (Some (route_decision_of categories_rules_request_role categories_rules_request_permission (\<lambda>c. Some (if rc_method c = Some ''GET'' then SCOPE_REPORTS_READ else SCOPE_ADMIN_WRITE)))),
      route_policy_of [] [''/categories/rules/'']
       (Some (static_route_decision (Some Admin) (Some PERMISSION_ADMIN_WRITE) (Some SCOPE_ADMIN_WRITE)))
       None,
      route_policy_of [''/categories/overrides''] []
       None
       (Some (route_decision_of categories_overrides_request_role categories_overrides_request_permission (\<lambda>_. Some SCOPE_REPORTS_READ))),
      route_policy_of [] [''/categories/overrides/'']
       (Some (static_route_decision (Some Admin) (Some PERMISSION_ADMIN_WRITE) (Some SCOPE_ADMIN_WRITE)))
       None]"

definition scenario_policies :: "route_policy list" where
  "scenario_policies =
     [route_policy_of [''/api/scenarios''] []
       (Some (static_route_decision (Some Reader) (Some PERMISSION_REPORTS_READ) (Some SCOPE_REPORTS_READ)))
       (Some (static_route_decision (Some Reader) (Some PERMISSION_REPORTS_READ) (Some SCOPE_REPORTS_READ))),
      route_policy_of [''/api/scenarios/compare-sets''] []
       (Some (static_route_decision (Some Reader) (Some PERMISSION_REPORTS_READ) (Some SCOPE_REPORTS_READ)))
       (Some (route_decision_of scenarios_request_role scenarios_request_permission (\<lambda>c. Some (if rc_method c = Some ''GET'' then SCOPE_REPORTS_READ else SCOPE_INGEST_WRITE)))),
      route_policy_of [] [''/api/scenarios/compare-sets/'']
       (Some (static_route_decision (Some Reader) (Some PERMISSION_REPORTS_READ) (Some SCOPE_REPORTS_READ)))
       (Some (route_decision_of scenarios_request_role scenarios_request_permission (\<lambda>c. Some (if rc_method c = Some ''GET'' then SCOPE_REPORTS_READ else SCOPE_INGEST_WRITE)))),
      route_policy_of [''/api/scenarios/loan-what-if'', ''/api/scenarios/income-change'', ''/api/scenarios/expense-shock'', ''/api/scenarios/tariff-shock'', ''/api/scenarios/homelab-cost-benefit''] []
       (Some (static_route_decision (Some Reader) (Some PERMISSION_REPORTS_READ) (Some SCOPE_REPORTS_READ)))
       (Some (static_route_decision (Some Operator) (Some PERMISSION_INGEST_WRITE) (Some SCOPE_INGEST_WRITE))),
      route_policy_of [] [''/api/scenarios/'']
       (Some (static_route_decision (Some Reader) (Some PERMISSION_REPORTS_READ) (Some SCOPE_REPORTS_READ)))
       (Some (route_decision_of scenarios_request_role scenarios_request_permission (\<lambda>c. Some (if rc_method c \<noteq> Some ''DELETE'' then SCOPE_REPORTS_READ else SCOPE_INGEST_WRITE))))]"

definition assistant_policies :: "route_policy list" where
  "assistant_policies =
     [route_policy_of [''/api/briefing''] []
       (Some (static_route_decision (Some Reader) (Some PERMISSION_REPORTS_READ) (Some SCOPE_REPORTS_READ)))
       (Some (static_route_decision (Some Reader) (Some PERMISSION_REPORTS_READ) (Some SCOPE_REPORTS_READ))),
      route_policy_of [] [''/api/assistant'']
       (Some (static_route_decision (Some Reader) (Some PERMISSION_REPORTS_READ) (Some SCOPE_REPORTS_READ)))
       (Some (static_route_decision (Some Reader) (Some PERMISSION_REPORTS_READ) (Some SCOPE_REPORTS_READ)))]"

definition ha_policies :: "route_policy list" where
  "ha_policies =
     [route_policy_of [] [''/api/ingest/ha-bridge/'']
       (Some (static_route_decision (Some Operator) (Some PERMISSION_INGEST_WRITE) (Some SCOPE_HA_BRIDGE_INGEST)))
       (Some (static_route_decision (Some Operator) (Some PERMISSION_INGEST_WRITE) (Some SCOPE_HA_BRIDGE_INGEST))),
      route_policy_of [''/api/ha/ingest'', ''/api/ha/policies/evaluate''] []
       (Some (static_route_decision (Some Reader) (Some PERMISSION_RUNS_READ) (Some SCOPE_RUNS_READ)))
       (Some (static_route_decision (Some Operator) (Some PERMISSION_INGEST_WRITE) (Some SCOPE_INGEST_WRITE))),
      route_policy_of [''/api/ha/actions/proposals''] []
       (Some (static_route_decision (Some Reader) (Some PERMISSION_RUNS_READ) (Some SCOPE_RUNS_READ)))
       (Some (route_decision_of api_ha_request_role api_ha_request_permission api_ha_request_scope)),
      route_policy_of [] [''/api/ha/actions/proposals/'']
       (Some (static_route_decision (Some Reader) (Some PERMISSION_RUNS_READ) (Some SCOPE_RUNS_READ)))
       (Some (route_decision_of api_ha_request_role api_ha_request_permission api_ha_request_scope)),
      route_policy_of [] [''/api/ha/metrics'']
       (Some (static_route_decision (Some Reader) (Some PERMISSION_REPORTS_READ) (Some SCOPE_REPORTS_READ)))
       (Some (static_route_decision (Some Reader) (Some PERMISSION_REPORTS_READ) (Some SCOPE_REPORTS_READ))),
      route_policy_of [] [''/api/ha'']
       (Some (static_route_decision (Some Reader) (Some PERMISSION_RUNS_READ) (Some SCOPE_RUNS_READ)))
       (Some (static_route_decision (Some Reader) (Some PERMISSION_RUNS_READ) (Some SCOPE_RUNS_READ)))]"

definition household_policies :: "route_policy list" where
  "household_policies =
     [route_policy_of [''/api/wallboard/events''] []
       (Some (static_route_decision (Some Reader) (Some PERMISSION_RUNS_READ) (Some SCOPE_RUNS_READ)))
       (Some (static_route_decision (Some Reader) (Some PERMISSION_RUNS_READ) (Some SCOPE_RUNS_READ))),
      route_policy_of [] [''/api/wallboard/'']
       (Some (static_route_decision (Some Reader) (Some PERMISSION_REPORTS_READ) (Some SCOPE_REPORTS_READ)))
       (Some (static_route_decision (Some Reader) (Some PERMISSION_REPORTS_READ) (Some SCOPE_REPORTS_READ))),
      route_policy_of [] [''/api/homelab/'']
       (Some (static_route_decision (Some Reader) (Some PERMISSION_REPORTS_READ) (Some SCOPE_REPORTS_READ)))
       (Some (static_route_decision (Some Reader) (Some PERMISSION_REPORTS_READ) (Some SCOPE_REPORTS_READ))),
      route_policy_of [] [''/adapters/'', ''/api/adapters/'', ''/api/lineage/'']
       (Some (static_route_decision (Some Reader) (Some PERMISSION_REPORTS_READ) (Some SCOPE_REPORTS_READ)))
       (Some (route_decision_of (\<lambda>c. Some (if rc_method c = Some ''GET'' then Reader else Operator)) (\<lambda>c. Some (if rc_method c = Some ''GET'' then PERMISSION_REPORTS_READ else PERMISSION_ADMIN_WRITE)) (\<lambda>c. Some (if rc_method c = Some ''GET'' then SCOPE_REPORTS_READ else SCOPE_ADMIN_WRITE)))),
      route_policy_of [] [''/api/actions/'']
       (Some (static_route_decision (Some Reader) (Some PERMISSION_REPORTS_READ) (Some SCOPE_REPORTS_READ)))
       (Some (route_decision_of api_actions_request_role api_actions_request_permission api_actions_request_scope))]"

definition agent_policies :: "route_policy list" where
  "agent_policies =
     [route_policy_of [] [''/api/agent/'']
       (Some (static_route_decision (Some Reader) (Some PERMISSION_REPORTS_READ) (Some SCOPE_REPORTS_READ)))
       (Some (static_route_decision (Some Reader) (Some PERMISSION_REPORTS_READ) (Some SCOPE_REPORTS_READ))),
      route_policy_of [] [''/contracts/publications/'']
       (Some (route_decision_of (\<lambda>_. Some Reader) (permission_from_suffix ''/contracts/publications/'' publication_read_permission PERMISSION_REPORTS_READ) (\<lambda>_. Some SCOPE_REPORTS_READ)))
       (Some (route_decision_of (\<lambda>_. Some Reader) (permission_from_suffix ''/contracts/publications/'' publication_read_permission PERMISSION_REPORTS_READ) (\<lambda>_. Some SCOPE_REPORTS_READ))),
      route_policy_of [] [''/contracts/'']
       (Some (static_route_decision (Some Reader) (Some PERMISSION_REPORTS_READ) (Some SCOPE_REPORTS_READ)))
       (Some (static_route_decision (Some Reader) (Some PERMISSION_REPORTS_READ) (Some SCOPE_REPORTS_READ)))]"

definition admin_policies :: "route_policy list" where
  "admin_policies =
     [route_policy_of [] [''/auth/users'', ''/auth/service-tokens'']
       (Some (static_route_decision (Some Admin) (Some PERMISSION_ADMIN_WRITE) (Some SCOPE_ADMIN_WRITE)))
       (Some (static_route_decision (Some Admin) (Some PERMISSION_ADMIN_WRITE) (Some SCOPE_ADMIN_WRITE))),
      route_policy_of [''/control/auth-audit''] []
       (Some (static_route_decision (Some Admin) (Some PERMISSION_ADMIN_WRITE) (Some SCOPE_ADMIN_WRITE)))
       (Some (static_route_decision (Some Admin) (Some PERMISSION_ADMIN_WRITE) (Some SCOPE_ADMIN_WRITE))),
      route_policy_of [] [''/config/'']
       (Some (static_route_decision (Some Admin) (Some PERMISSION_ADMIN_WRITE) (Some SCOPE_ADMIN_WRITE)))
       (Some (route_decision_of config_request_role config_request_permission (\<lambda>c. Some SCOPE_ADMIN_WRITE)))]"

definition control_policies :: "route_policy list" where
  "control_policies =
     [route_policy_of [''/control/decisions''] [''/control/decisions/'']
       (Some (static_route_decision (Some Reader) (Some PERMISSION_CONTROL_DECISIONS_READ) (Some SCOPE_REPORTS_READ)))
       (Some (route_decision_of (\<lambda>c. Some (if decision_read c then Reader else Operator)) (\<lambda>c. Some (if decision_read c then PERMISSION_CONTROL_DECISIONS_READ else PERMISSION_CONTROL_DECISIONS_WRITE)) (\<lambda>c. Some (if decision_read c then SCOPE_REPORTS_READ else SCOPE_ADMIN_WRITE)))),
      route_policy_of [''/control/policies''] [''/control/policies/'']
       (Some (static_route_decision (Some Admin) (Some PERMISSION_CONTROL_POLICY_READ) (Some SCOPE_ADMIN_WRITE)))
       (Some (route_decision_of (\<lambda>_. Some Admin) control_policies_request_permission control_policies_request_scope)),
      route_policy_of [] [''/control/'']
       (Some (static_route_decision (Some Admin) (Some PERMISSION_ADMIN_WRITE) (Some SCOPE_ADMIN_WRITE)))
       (Some (static_route_decision (Some Admin) (Some PERMISSION_ADMIN_WRITE) (Some SCOPE_ADMIN_WRITE)))]"

definition ingest_policies :: "route_policy list" where
  "ingest_policies =
     [route_policy_of [''/extensions'', ''/sources''] []
       (Some (static_route_decision (Some Admin) (Some PERMISSION_ADMIN_WRITE) (Some SCOPE_ADMIN_WRITE)))
       (Some (static_route_decision (Some Admin) (Some PERMISSION_ADMIN_WRITE) (Some SCOPE_ADMIN_WRITE))),
      route_policy_of [] [''/landing/'', ''/transformations/'', ''/ingest/ingestion-definitions/'']
       (Some (static_route_decision (Some Admin) (Some PERMISSION_ADMIN_WRITE) (Some SCOPE_ADMIN_WRITE)))
       (Some (static_route_decision (Some Admin) (Some PERMISSION_ADMIN_WRITE) (Some SCOPE_ADMIN_WRITE))),
      route_policy_of [''/ingest''] [''/ingest/'']
       (Some (static_route_decision (Some Operator) (Some PERMISSION_INGEST_WRITE) (Some SCOPE_INGEST_WRITE)))
       (Some (static_route_decision (Some Operator) (Some PERMISSION_INGEST_WRITE) (Some SCOPE_INGEST_WRITE)))]"

definition report_policies :: "route_policy list" where
  "report_policies =
     [route_policy_of [''/runs''] [''/runs/'']
       (Some (route_decision_of runs_read_role runs_read_permission runs_read_scope))
       (Some (route_decision_of runs_read_role runs_read_permission runs_read_scope)),
      route_policy_of [] [''/runs/'']
       (Some (route_decision_of (\<lambda>_. Some Operator) runs_retry_permission (\<lambda>_. Some SCOPE_INGEST_WRITE)))
       (Some (route_decision_of (\<lambda>_. Some Operator) runs_retry_permission (\<lambda>_. Some SCOPE_INGEST_WRITE))),
      route_policy_of [''/reports''] [''/reports/'']
       (Some (route_decision_of reports_read_role reports_read_permission reports_read_scope))
       (Some (route_decision_of reports_read_role reports_read_permission reports_read_scope))]"

definition API_ROUTE_POLICY_CATALOG :: "route_policy list" where
  "API_ROUTE_POLICY_CATALOG = concat [session_policies, audit_policies, category_policies, scenario_policies, assistant_policies, ha_policies, household_policies, agent_policies, admin_policies, control_policies, ingest_policies, report_policies]"

end
