(* ===== verification/AuthStore.thy ===== *)
theory AuthStore
  imports Permissions "HOL-Library.Product_Lexorder"
begin

text \<open>
  Local users, service tokens and the audit log (\<open>packages/storage/auth_store.py\<close>,
  \<open>packages/storage/sqlite_auth_control_plane.py\<close>, \<open>packages/platform/auth/audit_hooks.py\<close>).  A session is
  one transaction and one step; instants are UTC microseconds; tables are lists of rows in insertion
  order.
\<close>

section \<open>Rows\<close>

datatype auth_error = Unknown_User | Unknown_Token | Integrity_Error | Value_Error | Encoding_Error

record local_user =
  lu_user_id :: string
  lu_username :: string
  lu_password_hash :: string
  lu_role :: user_role
  lu_enabled :: bool
  lu_created_at :: int
  lu_last_login_at :: "int option"

record service_token =
  tk_token_id :: string
  tk_token_name :: string
  tk_secret_hash :: string
  tk_role :: user_role
  tk_scopes :: "string list"
  tk_expires_at :: "int option"
  tk_created_at :: int
  tk_last_used_at :: "int option"
  tk_revoked_at :: "int option"

record audit_event =
  ae_event_id :: string
  ae_event_type :: string
  ae_success :: bool
  ae_actor_id :: "string option"
  ae_actor_name :: "string option"
  ae_subject_id :: "string option"
  ae_subject_name :: "string option"
  ae_remote_addr :: "string option"
  ae_user_agent :: "string option"
  ae_detail :: "string option"
  ae_occurred_at :: int

record auth_db =
  ab_users :: "local_user list"
  ab_tokens :: "service_token list"
  ab_events :: "audit_event list"

definition normalize_username :: "string \<Rightarrow> auth_error + string" where
  "normalize_username username =
     (let normalized = lower (strip username) in if normalized = [] then Inl Value_Error else Inr normalized)"

definition normalize_service_token_name :: "string \<Rightarrow> auth_error + string" where
  "normalize_service_token_name name = (let normalized = strip name in if normalized = [] then Inl Value_Error else Inr normalized)"

section \<open>Users\<close>

definition get_local_user :: "string \<Rightarrow> auth_db \<Rightarrow> auth_error + local_user" where
  "get_local_user user_id db = (case List.find (\<lambda>u. lu_user_id u = user_id) (ab_users db) of
     None \<Rightarrow> Inl Unknown_User | Some u \<Rightarrow> Inr u)"

definition get_local_user_by_username :: "string \<Rightarrow> auth_db \<Rightarrow> auth_error + local_user" where
  "get_local_user_by_username username db = and_then (normalize_username username) (\<lambda>name.
     case List.find (\<lambda>u. lu_username u = name) (ab_users db) of None \<Rightarrow> Inl Unknown_User | Some u \<Rightarrow> Inr u)"

definition create_local_user :: "local_user \<Rightarrow> auth_db \<Rightarrow> auth_error + (local_user \<times> auth_db)" where
  "create_local_user user db = and_then (normalize_username (lu_username user)) (\<lambda>name.
     if list_ex (\<lambda>u. lu_user_id u = lu_user_id user \<or> lu_username u = name) (ab_users db) then Inl Integrity_Error
     else let db' = db\<lparr> ab_users := ab_users db @ [user\<lparr> lu_username := name \<rparr>] \<rparr> in
       and_then (get_local_user (lu_user_id user) db') (\<lambda>u. Inr (u, db')))"

definition list_local_users :: "bool \<Rightarrow> auth_db \<Rightarrow> local_user list" where
  "list_local_users enabled_only db =
     sort_key (\<lambda>u. (lu_created_at u, lu_username u)) (filter (\<lambda>u. enabled_only \<longrightarrow> lu_enabled u) (ab_users db))"

definition write_user :: "string \<Rightarrow> (local_user \<Rightarrow> local_user) \<Rightarrow> auth_db \<Rightarrow> auth_error + (local_user \<times> auth_db)" where
  \<comment> \<open>an \<open>UPDATE\<close> of one row, an error when there is none, and the row read back\<close>
  "write_user user_id f db =
     (if \<not> list_ex (\<lambda>u. lu_user_id u = user_id) (ab_users db) then Inl Unknown_User
      else let db' = db\<lparr> ab_users := map (\<lambda>u. if lu_user_id u = user_id then f u else u) (ab_users db) \<rparr> in
        and_then (get_local_user user_id db') (\<lambda>u. Inr (u, db')))"

definition update_local_user :: "string \<Rightarrow> user_role option \<Rightarrow> bool option \<Rightarrow> auth_db \<Rightarrow> auth_error + (local_user \<times> auth_db)" where
  "update_local_user user_id role enabled db =
     (if role = None \<and> enabled = None then and_then (get_local_user user_id db) (\<lambda>u. Inr (u, db))
      else write_user user_id (\<lambda>u. u\<lparr> lu_role := (case role of None \<Rightarrow> lu_role u | Some r \<Rightarrow> r),
        lu_enabled := (case enabled of None \<Rightarrow> lu_enabled u | Some e \<Rightarrow> e) \<rparr>) db)"

definition update_local_user_password :: "string \<Rightarrow> string \<Rightarrow> auth_db \<Rightarrow> auth_error + (local_user \<times> auth_db)" where
  "update_local_user_password user_id password_hash db = write_user user_id (\<lambda>u. u\<lparr> lu_password_hash := password_hash \<rparr>) db"

definition record_local_user_login :: "string \<Rightarrow> int \<Rightarrow> auth_db \<Rightarrow> auth_error + (local_user \<times> auth_db)" where
  "record_local_user_login user_id logged_in_at db = write_user user_id (\<lambda>u. u\<lparr> lu_last_login_at := Some logged_in_at \<rparr>) db"

section \<open>Service tokens\<close>

definition read_service_token :: "service_token \<Rightarrow> auth_error + service_token" where
  \<comment> \<open>a row as a record: the stored scopes are normalised again\<close>
  "read_service_token t = (case normalize_service_token_scopes (tk_scopes t) of
     None \<Rightarrow> Inl Value_Error | Some scopes \<Rightarrow> Inr (t\<lparr> tk_scopes := scopes \<rparr>))"

definition get_service_token :: "string \<Rightarrow> auth_db \<Rightarrow> auth_error + service_token" where
  "get_service_token token_id db = (case List.find (\<lambda>t. tk_token_id t = token_id) (ab_tokens db) of
     None \<Rightarrow> Inl Unknown_Token | Some t \<Rightarrow> read_service_token t)"

definition create_service_token :: "service_token \<Rightarrow> auth_db \<Rightarrow> auth_error + (service_token \<times> auth_db)" where
  "create_service_token token db = and_then (normalize_service_token_name (tk_token_name token)) (\<lambda>name.
     case normalize_service_token_scopes (tk_scopes token) of
       None \<Rightarrow> Inl Value_Error
     | Some scopes \<Rightarrow>
         if list_ex (\<lambda>t. tk_token_id t = tk_token_id token) (ab_tokens db) then Inl Integrity_Error
         else let db' = db\<lparr> ab_tokens := ab_tokens db @ [token\<lparr> tk_token_name := name, tk_scopes := scopes \<rparr>] \<rparr> in
           and_then (get_service_token (tk_token_id token) db') (\<lambda>t. Inr (t, db')))"

fun read_all :: "service_token list \<Rightarrow> auth_error + service_token list" where
  "read_all [] = Inr []"
| "read_all (t # ts) = and_then (read_service_token t) (\<lambda>r. and_then (read_all ts) (\<lambda>rs. Inr (r # rs)))"

definition list_service_tokens :: "bool \<Rightarrow> auth_db \<Rightarrow> auth_error + service_token list" where
  "list_service_tokens include_revoked db = read_all
     (sort_key (\<lambda>t. (tk_created_at t, tk_token_name t)) (filter (\<lambda>t. \<not> include_revoked \<longrightarrow> tk_revoked_at t = None) (ab_tokens db)))"

definition write_token :: "string \<Rightarrow> (service_token \<Rightarrow> service_token) \<Rightarrow> auth_db \<Rightarrow> auth_error + (service_token \<times> auth_db)" where
  "write_token token_id f db =
     (if \<not> list_ex (\<lambda>t. tk_token_id t = token_id) (ab_tokens db) then Inl Unknown_Token
      else let db' = db\<lparr> ab_tokens := map (\<lambda>t. if tk_token_id t = token_id then f t else t) (ab_tokens db) \<rparr> in
        and_then (get_service_token token_id db') (\<lambda>t. Inr (t, db')))"

definition revoke_service_token :: "string \<Rightarrow> int \<Rightarrow> auth_db \<Rightarrow> auth_error + (service_token \<times> auth_db)" where
  \<comment> \<open>a token revoked before keeps its first time\<close>
  "revoke_service_token token_id revoked_at db = write_token token_id
     (\<lambda>t. t\<lparr> tk_revoked_at := (case tk_revoked_at t of None \<Rightarrow> Some revoked_at | Some r \<Rightarrow> Some r) \<rparr>) db"

definition record_service_token_use :: "string \<Rightarrow> int \<Rightarrow> auth_db \<Rightarrow> auth_error + (service_token \<times> auth_db)" where
  "record_service_token_use token_id used_at db = write_token token_id (\<lambda>t. t\<lparr> tk_last_used_at := Some used_at \<rparr>) db"

section \<open>The audit log\<close>

record event_filter =
  ef_event_type :: "string option"
  ef_success :: "bool option"
  ef_actor_id :: "string option"
  ef_subject_id :: "string option"
  ef_subject_name :: "string option"
  ef_since :: "int option"
  ef_limit :: "nat option"

definition no_filter :: event_filter where
  "no_filter = \<lparr> ef_event_type = None, ef_success = None, ef_actor_id = None, ef_subject_id = None,
     ef_subject_name = None, ef_since = None, ef_limit = None \<rparr>"

definition given :: "'a option \<Rightarrow> ('a \<Rightarrow> bool) \<Rightarrow> bool" where
  "given v P \<longleftrightarrow> (case v of None \<Rightarrow> True | Some x \<Rightarrow> P x)"

definition list_auth_audit_events :: "event_filter \<Rightarrow> auth_db \<Rightarrow> auth_error + audit_event list" where
  "list_auth_audit_events f db =
     and_then (case ef_subject_name f of None \<Rightarrow> Inr None | Some n \<Rightarrow> and_then (normalize_username n) (\<lambda>m. Inr (Some m))) (\<lambda>name.
     let matching = filter (\<lambda>e. given (ef_event_type f) (\<lambda>t. ae_event_type e = t) \<and> given (ef_success f) (\<lambda>s. ae_success e = s) \<and>
           given (ef_actor_id f) (\<lambda>a. ae_actor_id e = Some a) \<and> given (ef_subject_id f) (\<lambda>s. ae_subject_id e = Some s) \<and>
           given name (\<lambda>n. ae_subject_name e = Some n) \<and> given (ef_since f) (\<lambda>s. s \<le> ae_occurred_at e)) (ab_events db);
         newest = rev (sort_key (\<lambda>e. (ae_occurred_at e, ae_event_id e)) matching) in
     Inr (case ef_limit f of None \<Rightarrow> newest | Some k \<Rightarrow> take k newest))"

definition stored_event :: "audit_event \<Rightarrow> auth_error + audit_event" where
  "stored_event e = (case ae_subject_name e of
     None \<Rightarrow> Inr e
   | Some n \<Rightarrow> if n = [] then Inr (e\<lparr> ae_subject_name := None \<rparr>)
       else and_then (normalize_username n) (\<lambda>m. Inr (e\<lparr> ae_subject_name := Some m \<rparr>)))"

fun insert_audit_events :: "audit_event list \<Rightarrow> auth_db \<Rightarrow> auth_error + auth_db" where
  \<comment> \<open>the \<open>INSERT\<close>s of one transaction; event ids are a primary key\<close>
  "insert_audit_events [] db = Inr db"
| "insert_audit_events (e # es) db =
     (if list_ex (\<lambda>x. ae_event_id x = ae_event_id e) (ab_events db) then Inl Integrity_Error
      else insert_audit_events es (db\<lparr> ab_events := ab_events db @ [e] \<rparr>))"

fun stored_events :: "audit_event list \<Rightarrow> auth_error + audit_event list" where
  "stored_events [] = Inr []"
| "stored_events (e # es) = and_then (stored_event e) (\<lambda>r. and_then (stored_events es) (\<lambda>rs. Inr (r # rs)))"

definition record_auth_audit_events :: "audit_event list \<Rightarrow> auth_db \<Rightarrow> auth_error + (audit_event list \<times> auth_db)" where
  "record_auth_audit_events entries db = (if entries = [] then Inr ([], db)
     else and_then (stored_events entries) (\<lambda>es. and_then (insert_audit_events es db) (\<lambda>db'.
       and_then (list_auth_audit_events (no_filter\<lparr> ef_limit := Some (length entries) \<rparr>) db') (\<lambda>listed.
       Inr (filter (\<lambda>e. ae_event_id e \<in> set (map ae_event_id entries)) listed, db')))))"

section \<open>Lockout\<close>

fun count_failures :: "audit_event list \<Rightarrow> nat \<times> int option \<Rightarrow> nat \<times> int option" where
  \<comment> \<open>the loop of \<open>locked_out_until\<close> over the recent events, newest first\<close>
  "count_failures [] acc = acc"
| "count_failures (e # es) (n, latest) =
     (if ae_event_type e = ''login_succeeded'' \<and> ae_success e then (n, latest)
      else if ae_event_type e \<notin> set [''login_failed'', ''login_blocked''] then count_failures es (n, latest)
      else if ae_success e then count_failures es (n, latest)
      else count_failures es (Suc n, (case latest of None \<Rightarrow> Some (ae_occurred_at e) | Some t \<Rightarrow> Some t)))"

definition locked_out_until :: "int \<Rightarrow> nat \<Rightarrow> int \<Rightarrow> string \<Rightarrow> int \<Rightarrow> auth_db \<Rightarrow> auth_error + int option" where
  \<comment> \<open>window, threshold and lockout of the configuration, the durations in microseconds\<close>
  "locked_out_until window threshold lockout username now db =
     and_then (list_auth_audit_events (no_filter\<lparr> ef_subject_name := Some username, ef_since := Some (now - window),
         ef_limit := Some (max (threshold * 4) 20) \<rparr>) db) (\<lambda>recent. Inr
       (case count_failures recent (0, None) of
          (n, None) \<Rightarrow> None
        | (n, Some latest) \<Rightarrow> if n < threshold then None
            else let candidate = latest + lockout in if candidate \<le> now then None else Some candidate))"

end
