(* ===== verification/AuthGate.thy ===== *)
theory AuthGate
  imports RoutePolicies AuthStore Json
begin

text \<open>
  The authentication gate before every route (\<open>apps/api/auth_runtime.py\<close> and
  \<open>packages/platform/auth/\<close>): credentials, sessions, service tokens, trusted proxies, the break-glass
  window, CSRF protection and the authorization decision.  Hashing, signatures, IP networks, ISO
  dates and the two identity providers are parameters, gathered in one record.
\<close>

section \<open>Requests, principals and the environment\<close>

record request =
  rq_path :: string
  rq_method :: string
  rq_query :: "(string \<times> string) list"
  rq_headers :: "(string \<times> string) list"
  rq_cookies :: "(string \<times> string) list"
  rq_client :: "string option"
  rq_event_id :: string
  \<comment> \<open>the fresh id of the audit event a request may record\<close>

record principal =
  au_user_id :: string
  au_username :: string
  au_role :: user_role
  au_auth_provider :: string
  au_csrf_token :: "string option"
  au_scopes :: "string list"
  au_permissions :: "string list"
  au_permission_bound :: bool

datatype provider_error = Authentication_Error string | Authorization_Error string

record break_glass =
  bg_enabled :: bool
  bg_internal_only :: bool
  bg_ttl :: int
  bg_allowed_cidrs :: "string list"

record proxy_provider =
  px_username_header :: string
  px_role_header :: string
  px_permissions_header :: "string option"
  px_trusted_cidrs :: "string list"

record session_manager =
  sm_cookie_name :: string
  sm_csrf_cookie_name :: string
  sm_max_age :: int

record auth_env =
  en_auth_mode :: string
  en_identity_mode :: string
  en_session_manager :: "session_manager option"
  en_proxy :: "proxy_provider option"
  en_break_glass :: "break_glass option"
  en_unsafe_admin :: bool
  en_forwarders :: "string list"
  en_policies :: "route_policy list"
  en_machine_jwt :: "(string \<Rightarrow> provider_error + principal) option"
  en_oidc :: "(string \<Rightarrow> provider_error + principal) option"
  en_hash :: "string \<Rightarrow> string"
  en_check_password :: "string \<Rightarrow> string \<Rightarrow> bool"
  en_valid_ip :: "string \<Rightarrow> bool"
  en_internal_ip :: "string \<Rightarrow> bool"
  en_in_network :: "string \<Rightarrow> string \<Rightarrow> bool"
  en_verified_payload :: "string \<Rightarrow> (string \<times> json) list option"
  \<comment> \<open>the JSON object of a cookie whose signature is right\<close>
  en_parse_instant :: "string \<Rightarrow> int option"
  en_sign :: "(string \<times> json) list \<Rightarrow> string"
  en_iso :: "int \<Rightarrow> string"
  en_oidc_callback :: "string \<Rightarrow> string \<Rightarrow> string option \<Rightarrow> provider_error + (principal \<times> string)"
  en_failure_window :: int
  en_failure_threshold :: nat
  en_lockout :: int

record gate_state =
  gs_db :: auth_db
  gs_active_until :: "int option"

record response =
  re_status :: nat
  re_detail :: string

definition response_of :: "nat \<Rightarrow> string \<Rightarrow> response" where
  "response_of status detail = \<lparr> re_status = status, re_detail = detail \<rparr>"

definition header :: "request \<Rightarrow> string \<Rightarrow> string option" where
  \<comment> \<open>header names are kept in lower case and looked up in any\<close>
  "header rq name = map_of (rq_headers rq) (lower name)"

section \<open>Credentials\<close>

definition first_header_value :: "string \<Rightarrow> string option" where
  "first_header_value v = (let candidate = strip (before_first (CHR '','') v) in if candidate = [] then None else Some candidate)"

definition from_trusted_forwarder :: "auth_env \<Rightarrow> request \<Rightarrow> bool" where
  "from_trusted_forwarder env rq = (case rq_client rq of
     None \<Rightarrow> False
   | Some host \<Rightarrow> en_valid_ip env host \<and> list_ex (en_in_network env host) (en_forwarders env))"

definition request_remote_addr :: "auth_env \<Rightarrow> request \<Rightarrow> string option" where
  "request_remote_addr env rq =
     (case (if from_trusted_forwarder env rq then first_header_value (text_or (header rq ''x-forwarded-for'') []) else None) of
        Some addr \<Rightarrow> Some addr
      | None \<Rightarrow> rq_client rq)"

definition bearer_token_from_request :: "request \<Rightarrow> string option" where
  "bearer_token_from_request rq =
     (let v = strip (text_or (header rq ''authorization'') []);
          scheme = before_first (CHR '' '') v; token = drop (Suc (length scheme)) v in
      if v = [] then None
      else if lower scheme \<noteq> ''bearer'' \<or> strip token = [] then None
      else Some (strip token))"

definition TOKEN_PREFIX :: string where
  "TOKEN_PREFIX = ''hst_''"

definition parse_service_token :: "string option \<Rightarrow> (string \<times> string) option" where
  "parse_service_token value = (case value of
     None \<Rightarrow> None
   | Some v \<Rightarrow>
       if v = [] \<or> CHR ''.'' \<notin> set v then None
       else let prefix_and_id = before_first (CHR ''.'') v; secret = drop (Suc (length prefix_and_id)) v in
         if \<not> prefix TOKEN_PREFIX prefix_and_id \<or> secret = [] then None
         else let token_id = strip (drop (length TOKEN_PREFIX) prefix_and_id) in
           if token_id = [] then None else Some (token_id, secret))"

definition verify_service_token_secret :: "auth_env \<Rightarrow> string \<Rightarrow> string \<Rightarrow> bool" where
  "verify_service_token_secret env secret secret_hash = (if secret = [] then False else en_hash env secret = secret_hash)"

definition issued_token :: "string \<Rightarrow> string \<Rightarrow> string" where
  \<comment> \<open>the value \<open>issue_service_token\<close> hands out for a drawn secret\<close>
  "issued_token token_id secret = TOKEN_PREFIX @ token_id @ ''.'' @ secret"

definition principal_from_service_token :: "service_token \<Rightarrow> principal" where
  "principal_from_service_token t = \<lparr> au_user_id = tk_token_id t, au_username = tk_token_name t, au_role = tk_role t,
     au_auth_provider = ''service_token'', au_csrf_token = None, au_scopes = tk_scopes t, au_permissions = [],
     au_permission_bound = False \<rparr>"

definition authenticate_service_token :: "auth_env \<Rightarrow> int \<Rightarrow> string option \<Rightarrow> auth_db \<Rightarrow> auth_error + (principal option \<times> auth_db)" where
  "authenticate_service_token env now value db = (case parse_service_token value of
     None \<Rightarrow> Inr (None, db)
   | Some (token_id, secret) \<Rightarrow>
       (case get_service_token token_id db of
          Inl e \<Rightarrow> if e = Unknown_Token then Inr (None, db) else Inl e
        | Inr t \<Rightarrow>
            if tk_revoked_at t \<noteq> None then Inr (None, db)
            else if (case tk_expires_at t of None \<Rightarrow> False | Some e \<Rightarrow> e \<le> now) then Inr (None, db)
            else if \<not> verify_service_token_secret env secret (tk_secret_hash t) then Inr (None, db)
            else and_then (record_service_token_use (tk_token_id t) now db) (\<lambda>(u, db'). Inr (Some (principal_from_service_token u), db'))))"

section \<open>Sessions\<close>

fun payload_string :: "(string \<times> json) list \<Rightarrow> string \<Rightarrow> string option" where
  "payload_string p k = (case map_of p k of Some (JStr s) \<Rightarrow> Some s | _ \<Rightarrow> None)"

fun scalar_payload :: "json \<Rightarrow> string" where
  \<comment> \<open>\<open>str(v)\<close> of a scalar; containers do not occur in an issued payload\<close>
  "scalar_payload JNull = ''None''"
| "scalar_payload (JBool b) = (if b then ''True'' else ''False'')"
| "scalar_payload (JNum n) = int_text n"
| "scalar_payload (JStr s) = s"
| "scalar_payload _ = []"

definition payload_strings :: "(string \<times> json) list \<Rightarrow> string \<Rightarrow> string list" where
  "payload_strings p k = (case map_of p k of
     Some (JArr xs) \<Rightarrow> filter (\<lambda>s. s \<noteq> []) (map (\<lambda>x. strip (scalar_payload x)) xs)
   | Some (JStr s) \<Rightarrow> filter (\<lambda>x. x \<noteq> []) (map strip (split_on (CHR '','') s))
   | _ \<Rightarrow> [])"

definition payload_bool :: "(string \<times> json) list \<Rightarrow> string \<Rightarrow> bool" where
  "payload_bool p k = (case map_of p k of
     Some (JBool b) \<Rightarrow> b
   | Some (JStr s) \<Rightarrow> lower (strip s) \<in> set [''1'', ''true'', ''yes'', ''on'']
   | _ \<Rightarrow> False)"

definition ascii :: "string \<Rightarrow> bool" where
  "ascii s \<longleftrightarrow> list_all (\<lambda>c. (of_char c :: nat) < 128) s"

definition decode_signed_payload :: "auth_env \<Rightarrow> int \<Rightarrow> string option \<Rightarrow> string list \<Rightarrow> auth_error + (string \<times> json) list option" where
  \<comment> \<open>outside ASCII, encoding the payload or comparing the signature raises\<close>
  "decode_signed_payload env now value required = (case value of
     None \<Rightarrow> Inr None
   | Some v \<Rightarrow>
       if v = [] \<or> CHR ''.'' \<notin> set v then Inr None
       else if \<not> ascii v then Inl Encoding_Error
       else Inr (case en_verified_payload env v of
          None \<Rightarrow> None
        | Some p \<Rightarrow>
            if \<not> list_all (\<lambda>k. map_of p k \<noteq> None) required then None
            else (case en_parse_instant env (scalar_payload (the (map_of p ''exp''))) of
               None \<Rightarrow> None
             | Some e \<Rightarrow> if e \<le> now then None else Some p)))"

fun role_of_value :: "string \<Rightarrow> user_role option" where
  "role_of_value v = List.find (\<lambda>r. role_value r = v) [Reader, Operator, Admin]"

definition authenticate_session :: "auth_env \<Rightarrow> int \<Rightarrow> string option \<Rightarrow> auth_db \<Rightarrow> auth_error + principal option" where
  "authenticate_session env now cookie db =
     and_then (decode_signed_payload env now cookie [''sub'', ''usr'', ''role'', ''provider'', ''csrf'', ''exp'']) (\<lambda>payload. Inr
     (case payload of
        None \<Rightarrow> None
      | Some p \<Rightarrow> (case (payload_string p ''provider'', payload_string p ''sub'', payload_string p ''usr'', payload_string p ''role'') of
          (Some provider, Some subject, Some username, Some role_text) \<Rightarrow>
            if provider = ''local'' then
              (case get_local_user subject db of
                 Inl _ \<Rightarrow> None
               | Inr user \<Rightarrow>
                   if \<not> lu_enabled user then None
                   else if lu_username user \<noteq> username then None
                   else if en_hash env (lu_password_hash user) \<noteq> text_or (payload_string p ''fp'') [] then None
                   else Some \<lparr> au_user_id = lu_user_id user, au_username = lu_username user, au_role = lu_role user,
                     au_auth_provider = ''local'', au_csrf_token = payload_string p ''csrf'', au_scopes = [],
                     au_permissions = [], au_permission_bound = False \<rparr>)
            else if provider = ''oidc'' then
              (case role_of_value role_text of
                 None \<Rightarrow> None
               | Some role \<Rightarrow> Some \<lparr> au_user_id = subject, au_username = username, au_role = role,
                   au_auth_provider = ''oidc'', au_csrf_token = payload_string p ''csrf'', au_scopes = payload_strings p ''scopes'',
                   au_permissions = payload_strings p ''permissions'', au_permission_bound = payload_bool p ''pb'' \<rparr>)
            else None
        | _ \<Rightarrow> None)))"

definition validate_csrf_token :: "principal \<Rightarrow> string option \<Rightarrow> string option \<Rightarrow> bool" where
  "validate_csrf_token p csrf_header csrf_cookie =
     (if au_csrf_token p = None then False
      else if csrf_cookie \<noteq> au_csrf_token p then False
      else if csrf_header \<noteq> au_csrf_token p then False
      else True)"

section \<open>The trusted proxy\<close>

definition proxy_role :: "proxy_provider \<Rightarrow> request \<Rightarrow> user_role option" where
  "proxy_role px rq = role_of_value (lower (strip (case header rq (px_role_header px) of None \<Rightarrow> ''reader'' | Some v \<Rightarrow> v)))"

definition proxy_permissions :: "proxy_provider \<Rightarrow> request \<Rightarrow> string list" where
  "proxy_permissions px rq = (case px_permissions_header px of
     None \<Rightarrow> []
   | Some h \<Rightarrow> if h = [] then []
       else let raw = strip (text_or (header rq h) []) in
         if raw = [] then [] else normalize_permission_grants (split_on (CHR '','') raw))"

definition authenticate_proxy :: "auth_env \<Rightarrow> proxy_provider \<Rightarrow> request \<Rightarrow> response + principal" where
  "authenticate_proxy env px rq =
     (let trusted = (case request_remote_addr env rq of
            None \<Rightarrow> False
          | Some a \<Rightarrow> a \<noteq> [] \<and> en_valid_ip env a \<and> list_ex (en_in_network env a) (px_trusted_cidrs px));
          username = strip (text_or (header rq (px_username_header px)) []) in
      if \<not> trusted then Inl (response_of 403 ''Proxy identity headers are accepted only from trusted proxy CIDRs.'')
      else if username = [] then Inl (response_of 401 (''Proxy identity header '' @ [char_of (39::nat)] @ px_username_header px @ [char_of (39::nat)] @ '' is missing.''))
      else (case proxy_role px rq of
         None \<Rightarrow> Inl (response_of 401 (''Proxy role header '' @ [char_of (39::nat)] @ px_role_header px @ [char_of (39::nat)] @ '' contains unsupported role '' @
           [char_of (39::nat)] @ lower (strip (case header rq (px_role_header px) of None \<Rightarrow> ''reader'' | Some v \<Rightarrow> v)) @ [char_of (39::nat)] @ ''.''))
       | Some role \<Rightarrow> Inr \<lparr> au_user_id = ''proxy:'' @ username, au_username = username, au_role = role, au_auth_provider = ''proxy'',
           au_csrf_token = None, au_scopes = [], au_permissions = proxy_permissions px rq, au_permission_bound = False \<rparr>))"

section \<open>Authentication\<close>

definition record_event :: "auth_env \<Rightarrow> request \<Rightarrow> int \<Rightarrow> string \<Rightarrow> bool \<Rightarrow> principal option \<Rightarrow> string option \<Rightarrow> string option \<Rightarrow> string option \<Rightarrow>
  auth_db \<Rightarrow> auth_error + auth_db" where
  \<comment> \<open>the recorder of \<open>audit_hooks.py\<close>\<close>
  "record_event env rq now event_type success actor subject_id subject_name detail db = and_then (record_auth_audit_events
     [\<lparr> ae_event_id = rq_event_id rq, ae_event_type = event_type, ae_success = success,
        ae_actor_id = map_option au_user_id actor, ae_actor_name = map_option au_username actor,
        ae_subject_id = subject_id, ae_subject_name = subject_name, ae_remote_addr = request_remote_addr env rq,
        ae_user_agent = header rq ''user-agent'', ae_detail = detail, ae_occurred_at = now \<rparr>] db) (\<lambda>(_, db'). Inr db')"

record outcome =
  oc_principal :: "principal option"
  oc_via_cookie :: bool
  oc_response :: "response option"

definition authenticated :: "principal option \<Rightarrow> bool \<Rightarrow> outcome" where
  "authenticated p via_cookie = \<lparr> oc_principal = p, oc_via_cookie = via_cookie, oc_response = None \<rparr>"

definition rejected :: "nat \<Rightarrow> string \<Rightarrow> outcome" where
  "rejected status detail = \<lparr> oc_principal = None, oc_via_cookie = False, oc_response = Some (response_of status detail) \<rparr>"

definition authenticate_oidc_bearer :: "auth_env \<Rightarrow> string \<Rightarrow> outcome option" where
  \<comment> \<open>\<open>None\<close>: the assertion that a provider is configured fails\<close>
  "authenticate_oidc_bearer env token = (case en_oidc env of
     None \<Rightarrow> None
   | Some f \<Rightarrow> Some (case f token of
       Inr p \<Rightarrow> authenticated (Some p) False
     | Inl (Authorization_Error d) \<Rightarrow> rejected 403 d
     | Inl (Authentication_Error _) \<Rightarrow> rejected 401 ''Invalid bearer token.''))"

definition authenticate_machine_bearer :: "auth_env \<Rightarrow> request \<Rightarrow> int \<Rightarrow> string \<Rightarrow> auth_db \<Rightarrow> auth_error + (outcome option \<times> auth_db)" where
  \<comment> \<open>a bearer value that is no service token\<close>
  "authenticate_machine_bearer env rq now token db = (case en_machine_jwt env of
     None \<Rightarrow> Inr (if en_auth_mode env = ''oidc'' then authenticate_oidc_bearer env token else Some (authenticated None False), db)
   | Some f \<Rightarrow> (case f token of
       Inr p \<Rightarrow> and_then (record_event env rq now ''machine_jwt_auth_succeeded'' True None (Some (au_user_id p)) (Some (au_username p))
           (Some ''Machine JWT bearer authenticated.'') db) (\<lambda>db'. Inr (Some (authenticated (Some p) False), db'))
     | Inl e \<Rightarrow>
         if en_auth_mode env = ''oidc'' then Inr (authenticate_oidc_bearer env token, db)
         else let (status, shown, logged) = (case e of
             Authorization_Error d \<Rightarrow> (403, d, d)
           | Authentication_Error _ \<Rightarrow> (401, ''Invalid bearer token.'', ''Invalid or unauthorized machine JWT bearer token.'')) in
           and_then (record_event env rq now ''machine_jwt_auth_failed'' False None None None (Some logged) db) (\<lambda>db'.
             Inr (Some (rejected status shown), db'))))"

definition authenticate_bearer :: "auth_env \<Rightarrow> request \<Rightarrow> int \<Rightarrow> string \<Rightarrow> auth_db \<Rightarrow> auth_error + (outcome option \<times> auth_db)" where
  "authenticate_bearer env rq now token db = and_then (authenticate_service_token env now (Some token) db) (\<lambda>(p, db').
     case p of
       Some q \<Rightarrow> Inr (Some (authenticated (Some q) False), db')
     | None \<Rightarrow> (case parse_service_token (Some token) of
         Some (token_id, _) \<Rightarrow> and_then (record_event env rq now ''service_token_auth_failed'' False None (Some token_id) (Some token_id)
             (Some ''Invalid, expired, or revoked service token.'') db') (\<lambda>db''. Inr (Some (rejected 401 ''Invalid service token.''), db''))
       | None \<Rightarrow> authenticate_machine_bearer env rq now token db'))"

definition authenticate_cookie_or_proxy :: "auth_env \<Rightarrow> request \<Rightarrow> int \<Rightarrow> auth_db \<Rightarrow> auth_error + outcome option" where
  "authenticate_cookie_or_proxy env rq now db =
     (if en_auth_mode env = ''proxy'' then Inr (case en_proxy env of
        None \<Rightarrow> None
      | Some px \<Rightarrow> Some (case authenticate_proxy env px rq of
          Inl r \<Rightarrow> rejected (re_status r) (re_detail r)
        | Inr p \<Rightarrow> authenticated (Some p) False))
      else (case en_session_manager env of
        None \<Rightarrow> Inr None
      | Some sm \<Rightarrow> and_then (authenticate_session env now (map_of (rq_cookies rq) (sm_cookie_name sm)) db) (\<lambda>p.
          Inr (Some (authenticated p (p \<noteq> None))))))"

definition authenticate_request :: "auth_env \<Rightarrow> request \<Rightarrow> int \<Rightarrow> auth_db \<Rightarrow> auth_error + (outcome option \<times> auth_db)" where
  "authenticate_request env rq now db = (case bearer_token_from_request rq of
     Some token \<Rightarrow> authenticate_bearer env rq now token db
   | None \<Rightarrow> and_then (authenticate_cookie_or_proxy env rq now db) (\<lambda>out. Inr (out, db)))"

section \<open>Guards\<close>

definition is_remote_address_allowed :: "auth_env \<Rightarrow> break_glass \<Rightarrow> string option \<Rightarrow> bool" where
  "is_remote_address_allowed env bg addr = (case addr of
     None \<Rightarrow> False
   | Some a \<Rightarrow>
       if \<not> en_valid_ip env a then False
       else if bg_allowed_cidrs bg \<noteq> [] then list_ex (en_in_network env a) (bg_allowed_cidrs bg)
       else if bg_internal_only bg then en_internal_ip env a
       else True)"

definition activate_break_glass :: "break_glass \<Rightarrow> int \<Rightarrow> gate_state \<Rightarrow> gate_state" where
  "activate_break_glass bg now s = s\<lparr> gs_active_until := Some (now + bg_ttl bg) \<rparr>"

definition clear_break_glass :: "gate_state \<Rightarrow> gate_state" where
  "clear_break_glass s = s\<lparr> gs_active_until := None \<rparr>"

definition break_glass_active :: "break_glass \<Rightarrow> int \<Rightarrow> gate_state \<Rightarrow> bool \<times> gate_state" where
  "break_glass_active bg now s =
     (if \<not> bg_enabled bg then (False, s)
      else (case gs_active_until s of
        None \<Rightarrow> (False, s)
      | Some t \<Rightarrow> if t \<le> now then (False, s\<lparr> gs_active_until := None \<rparr>) else (True, s)))"

definition enforce_break_glass_access :: "auth_env \<Rightarrow> request \<Rightarrow> int \<Rightarrow> principal option \<Rightarrow> gate_state \<Rightarrow> auth_error + (response option \<times> gate_state)" where
  "enforce_break_glass_access env rq now p s = (case (en_break_glass env, p) of
     (Some bg, Some q) \<Rightarrow>
       if en_identity_mode env \<noteq> ''local_single_user'' \<or> au_auth_provider q \<noteq> ''local'' then Inr (None, s)
       else if \<not> is_remote_address_allowed env bg (request_remote_addr env rq) then
         and_then (record_event env rq now ''break_glass_request_blocked'' False (Some q) (Some (au_user_id q)) (Some (au_username q))
           (Some ''Remote address is not allowed for break-glass access.'') (gs_db s)) (\<lambda>db.
           Inr (Some (response_of 403 ''Break-glass access is limited to internal addresses.''), s\<lparr> gs_db := db \<rparr>))
       else (case break_glass_active bg now s of
         (True, s') \<Rightarrow> Inr (None, s')
       | (False, s') \<Rightarrow>
           and_then (record_event env rq now ''break_glass_window_expired'' False (Some q) (Some (au_user_id q)) (Some (au_username q))
             (Some ''Break-glass window expired; new login required.'') (gs_db s')) (\<lambda>db.
             Inr (Some (response_of 401 ''Break-glass session expired. Sign in again.''), s'\<lparr> gs_db := db \<rparr>)))
   | _ \<Rightarrow> Inr (None, s))"

definition SAFE_METHODS :: "string list" where
  "SAFE_METHODS = [''GET'', ''HEAD'', ''OPTIONS'']"

definition enforce_csrf_protection :: "auth_env \<Rightarrow> request \<Rightarrow> principal option \<Rightarrow> bool \<Rightarrow> response option" where
  "enforce_csrf_protection env rq p via_cookie = (case p of
     None \<Rightarrow> None
   | Some q \<Rightarrow>
       if \<not> via_cookie \<or> upper_ascii (rq_method rq) \<in> set SAFE_METHODS then None
       else (case en_session_manager env of
         None \<Rightarrow> Some (response_of 500 ''Internal Server Error'')
       | Some sm \<Rightarrow> if validate_csrf_token q (header rq ''x-csrf-token'') (map_of (rq_cookies rq) (sm_csrf_cookie_name sm)) then None
           else Some (response_of 403 ''CSRF validation failed.'')))"

section \<open>Authorization\<close>

definition context_of :: "principal \<Rightarrow> principal_context" where
  "context_of p = \<lparr> pc_role = au_role p, pc_auth_provider = au_auth_provider p, pc_scopes = au_scopes p,
     pc_granted_permissions = au_permissions p, pc_permission_bound = au_permission_bound p \<rparr>"

definition authorize_request :: "principal option \<Rightarrow> user_role option \<Rightarrow> string option \<Rightarrow> string option \<Rightarrow> bool \<Rightarrow> response option" where
  "authorize_request p required_role required_scope required_permission unsafe_admin = (case required_role of
     None \<Rightarrow> None
   | Some role \<Rightarrow> (case p of
       None \<Rightarrow> if unsafe_admin \<and> role = Admin then None else Some (response_of 401 ''Authentication required.'')
     | Some q \<Rightarrow>
         let permitted = has_required_permission (context_of q) required_permission in
         if \<not> has_required_role (au_role q) role \<and> \<not> permitted then Some (response_of 403 (role_value role @ '' role required.''))
         else if au_auth_provider q \<in> set [''service_token'', ''machine_jwt''] \<and> \<not> has_required_service_token_scope (au_scopes q) required_scope
           then Some (response_of 403 (text_or required_scope ''required'' @ '' scope required.''))
         else if \<not> permitted then Some (response_of 403 (text_or required_permission ''required'' @ '' permission required.''))
         else None))"

section \<open>The gate\<close>

datatype verdict_of_gate = Passed "principal option" | Stopped response

definition gate :: "auth_env \<Rightarrow> request \<Rightarrow> int \<Rightarrow> gate_state \<Rightarrow> auth_error + (verdict_of_gate option \<times> gate_state)" where
  \<comment> \<open>the middleware up to the route; \<open>None\<close> for a failed assertion\<close>
  "gate env rq now s =
     (if en_auth_mode env = ''disabled'' then Inr (Some (Passed None), s)
      else if en_auth_mode env \<in> {''local'', ''oidc''} \<and> en_session_manager env = None then Inr (None, s)
      else
        let role = required_role_for_request (en_policies env) (rq_path rq) (Some (rq_method rq));
            scope = required_scope_for_request (en_policies env) (rq_path rq) (Some (rq_method rq));
            permission = required_permission_for_request (en_policies env) (rq_path rq) (rq_query rq) (Some (rq_method rq)) in
        and_then (authenticate_request env rq now (gs_db s)) (\<lambda>(result, db). let s1 = s\<lparr> gs_db := db \<rparr> in
          case result of
            None \<Rightarrow> Inr (None, s1)
          | Some oc \<Rightarrow> (case oc_response oc of
              Some r \<Rightarrow> Inr (Some (Stopped r), s1)
            | None \<Rightarrow>
                and_then (enforce_break_glass_access env rq now (oc_principal oc) s1) (\<lambda>(blocked, s2).
                  case blocked of
                    Some r \<Rightarrow> Inr (Some (Stopped r), s2)
                  | None \<Rightarrow> (case enforce_csrf_protection env rq (oc_principal oc) (oc_via_cookie oc) of
                      Some r \<Rightarrow> Inr (Some (Stopped r), s2)
                    | None \<Rightarrow> (case authorize_request (oc_principal oc) role scope permission (en_unsafe_admin env) of
                        Some r \<Rightarrow> Inr (Some (Stopped r), s2)
                      | None \<Rightarrow> Inr (Some (Passed (oc_principal oc)), s2)))))))"

end
