(* ===== verification/AdapterRoutes.thy ===== *)
theory AdapterRoutes
  imports AdapterRouting AuthGate
begin

text \<open>
  The adapter routes (\<open>apps/api/routes/adapter_routes.py\<close>) over the registries: listings of packs and
  renderers, enabling and disabling a pack, its health and configuration, and the live statuses.
\<close>

section \<open>The guard\<close>

definition require_unsafe_admin :: "string \<Rightarrow> bool \<Rightarrow> response + unit" where
  "require_unsafe_admin auth_mode enable_unsafe_admin =
     (if auth_mode \<noteq> ''disabled'' then Inr ()
      else if \<not> enable_unsafe_admin then Inl (response_of 404 ''Unsafe admin routes are disabled until authentication is implemented.'')
      else Inr ())"

definition pack_not_found :: "string \<Rightarrow> response" where
  "pack_not_found k = response_of 404 (''Pack '' @ quoted_text k @ '' not found'')"

definition with_pack :: "response + unit \<Rightarrow> adapter_registry \<Rightarrow> string \<Rightarrow> (pack \<Rightarrow> response + 'b) \<Rightarrow> response + 'b" where
  \<comment> \<open>the guard, then the pack or 404\<close>
  "with_pack guard rg k f = and_then guard (\<lambda>_. case get_pack rg k of None \<Rightarrow> Inl (pack_not_found k) | Some p \<Rightarrow> f p)"

section \<open>Listings\<close>

definition pack_summary :: "adapter_registry \<Rightarrow> pack \<Rightarrow> json" where
  "pack_summary rg p = JObj [(''pack_key'', JStr (ap_pack_key p)), (''display_name'', JStr (ap_display_name p)),
     (''version'', JStr (ap_version p)), (''trust_level'', JStr (trust_value (ap_trust_level p))),
     (''active'', JBool (is_active rg (ap_pack_key p))), (''adapter_count'', JNum (int (length (ap_adapters p)))),
     (''renderer_count'', JNum (int (length (ap_renderers p)))), (''description'', JStr (ap_description p))]"

definition list_adapter_packs :: "response + unit \<Rightarrow> adapter_registry \<Rightarrow> response + json" where
  "list_adapter_packs guard rg = and_then guard (\<lambda>_. Inr (JObj [(''packs'', JArr (map (pack_summary rg) (list_packs False rg)))]))"

definition adapter_dict :: "adapter_manifest \<Rightarrow> json" where
  "adapter_dict m = JObj [(''adapter_key'', JStr (am_adapter_key m)), (''display_name'', JStr (am_display_name m)),
     (''version'', JStr (am_version m)), (''supported_directions'', j_texts (map direction_value (am_supported_directions m))),
     (''supported_entity_classes'', j_texts (am_supported_entity_classes m)),
     (''credential_requirements'', j_texts (am_credential_requirements m)),
     (''health_check_contract'', JStr (am_health_check_contract m)), (''target_capabilities'', j_texts (am_target_capabilities m))]"

definition renderer_dict :: "renderer_manifest \<Rightarrow> json" where
  "renderer_dict m = JObj [(''renderer_key'', JStr (rm_renderer_key m)), (''display_name'', JStr (rm_display_name m)),
     (''version'', JStr (rm_version m)), (''supported_formats'', j_texts (rm_supported_formats m)),
     (''supported_publication_keys'', j_texts (rm_supported_publication_keys m))]"

definition get_adapter_pack :: "response + unit \<Rightarrow> adapter_registry \<Rightarrow> string \<Rightarrow> response + json" where
  "get_adapter_pack guard rg k = with_pack guard rg k (\<lambda>p. Inr (JObj
     [(''pack_key'', JStr (ap_pack_key p)), (''display_name'', JStr (ap_display_name p)), (''version'', JStr (ap_version p)),
      (''trust_level'', JStr (trust_value (ap_trust_level p))), (''active'', JBool (is_active rg (ap_pack_key p))),
      (''description'', JStr (ap_description p)), (''requires_platform_version'', JStr (ap_requires_platform_version p)),
      (''adapters'', JArr (map adapter_dict (ap_adapters p))), (''renderers'', JArr (map renderer_dict (ap_renderers p)))]))"

definition list_renderer_manifests :: "response + unit \<Rightarrow> adapter_registry \<Rightarrow> response + json" where
  "list_renderer_manifests guard rg = and_then guard (\<lambda>_. Inr (JObj
     [(''renderers'', JArr (concat (map (\<lambda>p. map renderer_dict (ap_renderers p)) (list_packs False rg))))]))"

definition get_contract_vocabulary :: "response + unit \<Rightarrow> response + json" where
  "get_contract_vocabulary guard = and_then guard (\<lambda>_. Inr (JObj
     [(''directions'', j_texts (map direction_value [Ingest, Publish, Action, Observe])),
      (''trust_levels'', j_texts (map trust_value [Verified, Community, Local]))]))"

section \<open>Activation, health and configuration\<close>

definition switch_pack :: "bool \<Rightarrow> response + unit \<Rightarrow> adapter_registry \<Rightarrow> string \<Rightarrow> response + (json \<times> adapter_registry)" where
  "switch_pack b guard rg k = with_pack guard rg k (\<lambda>p. case set_active b k rg of
     Inl e \<Rightarrow> Inl (response_of 500 ''Internal Server Error'')
   | Inr rg' \<Rightarrow> Inr (JObj [(''pack_key'', JStr k), (''active'', JBool b)], rg'))"

definition enable_pack :: "response + unit \<Rightarrow> adapter_registry \<Rightarrow> string \<Rightarrow> response + (json \<times> adapter_registry)" where
  "enable_pack = switch_pack True"

definition disable_pack :: "response + unit \<Rightarrow> adapter_registry \<Rightarrow> string \<Rightarrow> response + (json \<times> adapter_registry)" where
  "disable_pack = switch_pack False"

definition get_pack_health :: "response + unit \<Rightarrow> adapter_registry \<Rightarrow> string \<Rightarrow> response + json" where
  "get_pack_health guard rg k = with_pack guard rg k (\<lambda>p. let compat = check_compatibility p [] in Inr (JObj
     [(''pack_key'', JStr k), (''active'', JBool (is_active rg k)),
      (''compatibility'', JObj [(''is_compatible'', JBool (is_compatible compat)), (''issues'', j_texts (cc_issues compat)),
         (''warnings'', j_texts (cc_warnings compat))])]))"

definition get_pack_config :: "response + unit \<Rightarrow> adapter_registry \<Rightarrow> string \<Rightarrow> response + json" where
  "get_pack_config guard rg k = with_pack guard rg k (\<lambda>p. Inr (JObj
     [(''pack_key'', JStr k),
      (''credential_requirements'', j_texts (sorted_unique (concat (map am_credential_requirements (ap_adapters p))))),
      (''adapter_count'', JNum (int (length (ap_adapters p)))), (''renderer_count'', JNum (int (length (ap_renderers p))))]))"

section \<open>Live statuses\<close>

record runtime_status =
  rs_enabled :: bool
  rs_connected :: bool
  rs_last_activity_at :: "string option"
  rs_error_count :: int
  rs_extra :: "(string \<times> json) list"

definition status_fields :: "runtime_status \<Rightarrow> (string \<times> json) list" where
  \<comment> \<open>\<open>as_dict\<close>: the extra fields are merged over the standard ones\<close>
  "status_fields s = fold (\<lambda>(k, v) d. AList.update k v d) (rs_extra s)
     [(''enabled'', JBool (rs_enabled s)), (''connected'', JBool (rs_connected s)),
      (''last_activity_at'', j_opt (rs_last_activity_at s)), (''error_count'', JNum (rs_error_count s))]"

definition status_entry :: "string \<Rightarrow> runtime_status \<Rightarrow> json" where
  "status_entry k s = JObj (fold (\<lambda>(k, v) d. AList.update k v d) (status_fields s) [(''adapter_key'', JStr k)])"

definition list_instance_statuses :: "('i \<Rightarrow> runtime_status) \<Rightarrow> (string \<times> 'i) list \<Rightarrow> json" where
  "list_instance_statuses get_status insts = (let statuses = instance_statuses get_status insts in
     JObj [(''adapters'', JArr (map (\<lambda>k. status_entry k (the (map_of statuses k))) (sorted_unique (map fst statuses))))])"

definition get_instance_status :: "('i \<Rightarrow> runtime_status) \<Rightarrow> (string \<times> 'i) list \<Rightarrow> string \<Rightarrow> response + json" where
  "get_instance_status get_status insts k = (case instance_status get_status insts k of
     None \<Rightarrow> Inl (response_of 404 (''Adapter '' @ quoted_text k @ '' is not registered as a live instance''))
   | Some s \<Rightarrow> Inr (status_entry k s))"

section \<open>What the routes do\<close>

lemma switch_found: "get_pack rg k = Some p \<Longrightarrow> \<exists>rg'. set_active b k rg = Inr rg' \<and>
    switch_pack b (Inr ()) rg k = Inr (JObj [(''pack_key'', JStr k), (''active'', JBool b)], rg')"
  by (simp add: switch_pack_def with_pack_def set_active_def)

lemma switch_never_500: "switch_pack b (Inr ()) rg k = Inl r \<longleftrightarrow> get_pack rg k = None \<and> r = pack_not_found k"
  by (auto simp: switch_pack_def with_pack_def set_active_def split: option.splits)

text \<open>An extra field named as a standard one, or as the key of the listing, replaces it.\<close>

lemma extra_replaces_standard:
  "map_of (status_fields (s \<lparr> rs_extra := [(''error_count'', JNum n)] \<rparr>)) ''error_count'' = Some (JNum n)"
  by (simp add: status_fields_def)

end
