(* ===== verification/AdapterClaims.thy ===== *)
theory AdapterClaims
  imports AdapterLifecycle AdapterRoutes
begin

text \<open>The properties of adapter packs: their lifecycle as a state machine, and where the checks and the
  router part from what they promise.\<close>

section \<open>Rolling back\<close>

text \<open>An upgrade that was accepted is undone by a rollback, which parks the upgraded pack; a second
  rollback brings it back.\<close>

lemma rollback_undoes_upgrade:
  assumes "spec_after calls (ap_pack_key p') = Some (p, a, q)" and "passes p' checker"
  shows "life_view (life_after (calls @ [Upgrade_call p' checker, Rollback_call (ap_pack_key p')])) (ap_pack_key p') = Some (p, a, Some p')"
    "life_view (life_after (calls @ [Upgrade_call p' checker, Rollback_call (ap_pack_key p'), Rollback_call (ap_pack_key p')])) (ap_pack_key p') =
       Some (p', a, Some p)"
  using assms by (simp_all add: life_after_refines spec_after_def spec_attempt_def)

text \<open>A reinstalled pack starts without a parked version.\<close>

lemma reinstall_forgets:
  assumes "spec_after calls (ap_pack_key p) = Some (p0, False, q)"
  shows "life_view (life_after (calls @ [Uninstall_call (ap_pack_key p), Install_call p])) (ap_pack_key p) = Some (p, False, None)"
  using assms by (simp add: life_after_refines spec_after_def spec_attempt_def)

section \<open>Where the code parts from its promises\<close>

definition sample_renderer :: renderer_manifest where
  "sample_renderer = \<lparr> rm_renderer_key = ''csv'', rm_display_name = ''CSV'', rm_version = ''1'', rm_supported_formats = [''csv''],
     rm_supported_publication_keys = [], rm_supported_publication_versions = [] \<rparr>"

definition sample_pack :: "string \<Rightarrow> string \<Rightarrow> pack" where
  "sample_pack k req = \<lparr> ap_pack_key = k, ap_display_name = k, ap_version = ''1.0'', ap_trust_level = Verified, ap_adapters = [],
     ap_renderers = [sample_renderer], ap_description = [], ap_requires_platform_version = req, ap_dependencies = [],
     ap_publication_relations = [] \<rparr>"

text \<open>Two packs declare one renderer and the active one sorts behind: nothing is routed to it.\<close>

lemma shadowed_renderer:
  "resolve_renderers \<lparr> rg_packs = [(''a'', sample_pack ''a'' []), (''b'', sample_pack ''b'' [])], rg_active = [(''a'', False), (''b'', True)] \<rparr>
     [sample_renderer] ''cashflow'' ''csv'' = []"
  by code_simp

text \<open>The two compatibility checks read the constraint of a pack differently: one as a constraint, the
  other as a version.\<close>

lemma checks_disagree:
  "is_compatible (check_pack ''1.5.2'' [] [] (to_pack_manifest (sample_pack ''a'' ''>=1.2'')))"
  "\<not> is_compatible (check_compatibility (sample_pack ''a'' ''>=1.2'') ''1.5.2'')"
  by code_simp+

section \<open>Properties\<close>

text \<open>C12: The lifecycle of adapter packs is the documented state machine: after any calls, what is
  installed, active and parked under every key is what the machine says, and a call is refused, with an
  illegal transition and nothing else, exactly where the machine has no transition.\<close>
theorem adapter_lifecycle_refines:
  "life_view (life_after calls) = spec_after calls \<and>
    (\<forall>c. ((\<exists>e. run_call c (life_after calls) = Inl e) \<longleftrightarrow> spec_call c (spec_after calls (call_key c)) = None) \<and>
         (refused_call c (life_after calls) \<longleftrightarrow> spec_call c (spec_after calls (call_key c)) = None))"
proof -
  have ok: "life_ok (life_after calls)" and view: "life_view (life_after calls) = spec_after calls"
    using life_after_refines by auto
  have "((\<exists>e. run_call c (life_after calls) = Inl e) \<longleftrightarrow> spec_call c (spec_after calls (call_key c)) = None) \<and>
      (refused_call c (life_after calls) \<longleftrightarrow> spec_call c (spec_after calls (call_key c)) = None)" for c
    using call_refines [OF ok, of c] unfolding view
    by (cases "spec_call c (spec_after calls (call_key c))") (auto simp: refused_call_def refined_def)
  with view show ?thesis by simp
qed

end
