(* ===== verification/Calendar.thy ===== *)
theory Calendar
  imports PyText
begin

text \<open>
  Dates of Python's \<open>datetime\<close> and \<open>calendar\<close>: year, month and day of the proleptic Gregorian
  calendar, ordered field by field, and their ordinals (day 1 is 1 January of year 1).  A
  constructor call with an impossible day raises \<open>ValueError\<close>, arithmetic that leaves the years
  1 to 9999 raises \<open>OverflowError\<close>; both are \<open>None\<close>.
\<close>

section \<open>Dates\<close>

datatype date = Date (year: int) (month: int) (day: int)

instantiation date :: linorder
begin

definition less_eq_date :: "date \<Rightarrow> date \<Rightarrow> bool" where
  "less_eq_date a b \<longleftrightarrow> year a < year b \<or> year a = year b \<and>
     (month a < month b \<or> month a = month b \<and> day a \<le> day b)"

definition less_date :: "date \<Rightarrow> date \<Rightarrow> bool" where
  "less_date a b \<longleftrightarrow> year a < year b \<or> year a = year b \<and>
     (month a < month b \<or> month a = month b \<and> day a < day b)"

instance
  by standard (auto simp: less_eq_date_def less_date_def intro: date.expand)

end

definition is_leap :: "int \<Rightarrow> bool" where
  "is_leap y = (y mod 4 = 0 \<and> (y mod 100 \<noteq> 0 \<or> y mod 400 = 0))"

definition days_in_month :: "int \<Rightarrow> int \<Rightarrow> int" where
  \<comment> \<open>\<open>monthrange(year, month)[1]\<close>\<close>
  "days_in_month y m = (if m = 2 then if is_leap y then 29 else 28
     else if m = 4 \<or> m = 6 \<or> m = 9 \<or> m = 11 then 30 else 31)"

definition valid_date :: "date \<Rightarrow> bool" where
  "valid_date d \<longleftrightarrow> 1 \<le> year d \<and> year d \<le> 9999 \<and> 1 \<le> month d \<and> month d \<le> 12 \<and>
     1 \<le> day d \<and> day d \<le> days_in_month (year d) (month d)"

definition make_date :: "int \<Rightarrow> int \<Rightarrow> int \<Rightarrow> date option" where
  "make_date y m d = (if valid_date (Date y m d) then Some (Date y m d) else None)"

lemma make_date_Some: "make_date y m d = Some x \<longleftrightarrow> x = Date y m d \<and> valid_date x"
  by (auto simp: make_date_def)

lemma days_in_month_bounds: "28 \<le> days_in_month y m" "days_in_month y m \<le> 31"
  by (simp_all add: days_in_month_def)

section \<open>Ordinals\<close>

definition days_before_year :: "int \<Rightarrow> int" where
  "days_before_year y = (let p = y - 1 in p * 365 + p div 4 - p div 100 + p div 400)"

definition days_in_year :: "int \<Rightarrow> int" where
  "days_in_year y = (if is_leap y then 366 else 365)"

fun days_before_month :: "int \<Rightarrow> nat \<Rightarrow> int" where
  \<comment> \<open>days of the first \<open>m\<close> months\<close>
  "days_before_month y 0 = 0"
| "days_before_month y (Suc m) = days_before_month y m + days_in_month y (int m + 1)"

definition ordinal :: "date \<Rightarrow> int" where
  "ordinal d = days_before_year (year d) + days_before_month (year d) (nat (month d - 1)) + day d"

function year_at :: "int \<Rightarrow> int \<Rightarrow> int \<times> int" where
  \<comment> \<open>from day \<open>n\<close> counted from the start of year \<open>y\<close>\<close>
  "year_at y n = (if n \<le> days_in_year y then (y, n) else year_at (y + 1) (n - days_in_year y))"
  by pat_completeness auto
termination
  by (relation "measure (\<lambda>(y, n). nat n)") (auto simp: days_in_year_def split: if_split_asm)

declare year_at.simps [simp del]

fun month_at :: "int \<Rightarrow> nat \<Rightarrow> int \<Rightarrow> nat \<Rightarrow> int \<times> int" where
  \<comment> \<open>from day \<open>n\<close> counted from the start of month \<open>m + 1\<close>, with \<open>k\<close> later months\<close>
  "month_at y m n 0 = (int m + 1, n)"
| "month_at y m n (Suc k) =
     (if n \<le> days_in_month y (int m + 1) then (int m + 1, n)
      else month_at y (Suc m) (n - days_in_month y (int m + 1)) k)"

definition of_ordinal :: "int \<Rightarrow> date option" where
  "of_ordinal n =
     (if n < 1 then None
      else
        let blocks = (n - 1) div 146097;
            (y, n1) = year_at (400 * blocks + 1) (n - 146097 * blocks);
            (m, d) = month_at y 0 n1 11
        in if y > 9999 then None else Some (Date y m d))"

definition plus_days :: "date \<Rightarrow> int \<Rightarrow> date option" where
  \<comment> \<open>\<open>d + timedelta(days=k)\<close>\<close>
  "plus_days d k = of_ordinal (ordinal d + k)"

lemma div_pred:
  fixes y k :: int
  assumes "0 < k"
  shows "y div k = (y - 1) div k + (if y mod k = 0 then 1 else 0)"
proof (cases "y mod k = 0")
  case True
  have "y - 1 = k * (y div k - 1) + (k - 1)"
    using True div_mult_mod_eq [of y k] by (simp add: algebra_simps)
  from int_div_pos_eq [OF this] have "(y - 1) div k = y div k - 1"
    using assms by simp
  with True show ?thesis by simp
next
  case False
  have "y - 1 = k * (y div k) + (y mod k - 1)"
    using div_mult_mod_eq [of y k] by (simp add: algebra_simps)
  moreover have "0 \<le> y mod k - 1" and "y mod k - 1 < k"
    using False pos_mod_bound [OF assms, of y] pos_mod_sign [OF assms, of y] by linarith+
  ultimately have "(y - 1) div k = y div k"
    by (rule int_div_pos_eq)
  with False show ?thesis by simp
qed

lemma mod_400: "(y::int) mod 400 = 0 \<Longrightarrow> y mod 100 = 0"
  using mod_mod_cancel [of 100 400 y] by simp

lemma mod_100: "(y::int) mod 100 = 0 \<Longrightarrow> y mod 4 = 0"
  by presburger

lemma leap_cases:
  "(c \<Longrightarrow> b) \<Longrightarrow> (b \<Longrightarrow> a) \<Longrightarrow> (if a \<and> (\<not> b \<or> c) then 366 else 365) =
    365 + (if a then 1 else 0) - (if b then 1 else 0) + (if c then 1 else (0::int))"
  by (cases a; cases b; cases c) simp_all

lemma year_sum:
  "y * 365 + (a + i) - (b + j) + (c + k) = (y - 1) * 365 + a - b + c + (365 + i - j + (k::int))"
  by simp

lemma days_before_year_Suc: "days_before_year (y + 1) = days_before_year y + days_in_year y"
proof -
  have "days_before_year (y + 1) = y * 365 + y div 4 - y div 100 + y div 400"
    by (simp add: days_before_year_def)
  moreover have "days_before_year y = (y - 1) * 365 + (y - 1) div 4 - (y - 1) div 100 + (y - 1) div 400"
    by (simp add: days_before_year_def Let_def)
  moreover have "days_in_year y = 365 + (if y mod 4 = 0 then 1 else 0) - (if y mod 100 = 0 then 1 else 0)
      + (if y mod 400 = 0 then 1 else 0)"
    unfolding days_in_year_def is_leap_def by (rule leap_cases [OF mod_400 mod_100])
  moreover have "y div 4 = (y - 1) div 4 + (if y mod 4 = 0 then 1 else 0)"
    "y div 100 = (y - 1) div 100 + (if y mod 100 = 0 then 1 else 0)"
    "y div 400 = (y - 1) div 400 + (if y mod 400 = 0 then 1 else 0)"
    by (rule div_pred, simp)+
  ultimately show ?thesis by (simp only: year_sum)
qed

lemma days_before_month_12: "days_before_month y 12 = days_in_year y"
  by (simp add: eval_nat_numeral days_in_month_def days_in_year_def)

lemma days_before_month_mono: "i \<le> j \<Longrightarrow> days_before_month y i \<le> days_before_month y j"
proof (induction j)
  case (Suc j)
  then show ?case
    using days_in_month_bounds(1) [of y "int j + 1"] by (cases "i = Suc j") auto
qed simp

lemma ordinal_in_year:
  assumes "valid_date d"
  shows "days_before_year (year d) < ordinal d" "ordinal d \<le> days_before_year (year d + 1)"
proof -
  obtain m where m: "month d = int m + 1" "m < 12"
    using assms by (intro that [of "nat (month d - 1)"]) (auto simp: valid_date_def)
  have "0 \<le> days_before_month (year d) m"
    using days_before_month_mono [of 0 m] by simp
  then show "days_before_year (year d) < ordinal d"
    using assms m by (simp add: ordinal_def valid_date_def)
  have "days_before_month (year d) (Suc m) \<le> days_before_month (year d) 12"
    using m by (intro days_before_month_mono) simp
  then show "ordinal d \<le> days_before_year (year d + 1)"
    using assms m by (simp add: ordinal_def valid_date_def days_before_year_Suc days_before_month_12)
qed

lemma days_in_year_bounds: "365 \<le> days_in_year y" "days_in_year y \<le> 366"
  by (simp_all add: days_in_year_def)

lemma days_before_year_mono: "x \<le> y \<Longrightarrow> days_before_year x \<le> days_before_year y"
proof (induction y rule: int_ge_induct)
  case (step y)
  then show ?case using days_in_year_bounds(1) [of y] by (simp add: days_before_year_Suc)
qed simp

section \<open>Dates and ordinals correspond\<close>

lemma year_at_spec:
  assumes "1 \<le> n" and "year_at y n = (z, m)"
  shows "y \<le> z \<and> 1 \<le> m \<and> m \<le> days_in_year z \<and> days_before_year z + m = days_before_year y + n"
  using assms
proof (induction y n rule: year_at.induct)
  case (1 y n)
  show ?case
  proof (cases "n \<le> days_in_year y")
    case True
    with "1.prems" show ?thesis by (simp add: year_at.simps [of y n])
  next
    case False
    with "1.prems" have "year_at (y + 1) (n - days_in_year y) = (z, m)"
      by (simp add: year_at.simps [of y n])
    with "1.IH" [OF False] False show ?thesis by (simp add: days_before_year_Suc)
  qed
qed

lemma month_at_spec:
  assumes "1 \<le> n" and "n \<le> days_before_month y (Suc (m + k)) - days_before_month y m"
    and "month_at y m n k = (mo, d)"
  shows "int m + 1 \<le> mo \<and> mo \<le> int (m + k) + 1 \<and> 1 \<le> d \<and> d \<le> days_in_month y mo \<and>
    days_before_month y (nat (mo - 1)) + d = days_before_month y m + n"
  using assms
proof (induction y m n k rule: month_at.induct)
  case (1 y m n)
  then show ?case by auto
next
  case (2 y m n k)
  show ?case
  proof (cases "n \<le> days_in_month y (int m + 1)")
    case True
    with "2.prems" show ?thesis by auto
  next
    case False
    with "2.prems" have "month_at y (Suc m) (n - days_in_month y (int m + 1)) k = (mo, d)" by simp
    with "2.IH" [OF False] "2.prems"(2) False show ?thesis by (simp add: algebra_simps)
  qed
qed

lemma days_before_cycle: "days_before_year (400 * b + 1) = 146097 * b"
proof -
  have "400 * b div 4 = 100 * b" "400 * b div 100 = 4 * b" "400 * b div 400 = b" by simp_all
  then show ?thesis by (simp add: days_before_year_def)
qed

lemma of_ordinal_spec:
  assumes "of_ordinal n = Some d"
  shows "valid_date d \<and> ordinal d = n"
proof -
  define b where "b = (n - 1) div 146097"
  obtain y n1 where y: "year_at (400 * b + 1) (n - 146097 * b) = (y, n1)" by fastforce
  obtain m k where m: "month_at y 0 n1 11 = (m, k)" by fastforce
  have n: "1 \<le> n" and y9: "y \<le> 9999" and d: "d = Date y m k"
    using assms y m by (auto simp: of_ordinal_def Let_def b_def [symmetric] split: if_split_asm)
  have b: "0 \<le> b" using n by (simp add: b_def pos_imp_zdiv_nonneg_iff)
  have "1 \<le> n - 146097 * b"
    using div_mult_mod_eq [of "n - 1" 146097] pos_mod_sign [of 146097 "n - 1"] by (simp add: b_def)
  from year_at_spec [OF this y] have ys: "400 * b + 1 \<le> y" "1 \<le> n1" "n1 \<le> days_in_year y"
      "days_before_year y + n1 = n"
    using days_before_cycle [of b] by auto
  have "n1 \<le> days_before_month y (Suc (0 + 11)) - days_before_month y 0"
    using ys(3) days_before_month_12 [of y] by (simp add: eval_nat_numeral)
  from month_at_spec [OF ys(2) this m] show ?thesis
    using ys b y9 d by (auto simp: valid_date_def ordinal_def)
qed

lemma ordinal_less:
  assumes "valid_date a" and "valid_date b" and "a < b"
  shows "ordinal a < ordinal b"
proof (cases "year a < year b")
  case True
  then have "days_before_year (year a + 1) \<le> days_before_year (year b)"
    by (intro days_before_year_mono) simp
  then show ?thesis
    using ordinal_in_year(2) [OF assms(1)] ordinal_in_year(1) [OF assms(2)] by simp
next
  case False
  with assms(3) have y: "year a = year b" and c: "month a < month b \<or> month a = month b \<and> day a < day b"
    by (auto simp: less_date_def)
  show ?thesis
  proof (cases "month a = month b")
    case True
    with y c show ?thesis by (simp add: ordinal_def)
  next
    case False
    with c have "Suc (nat (month a - 1)) \<le> nat (month b - 1)"
      using assms(1) by (simp add: valid_date_def nat_le_iff) linarith
    from days_before_month_mono [OF this, of "year a"] show ?thesis
      using assms(1,2) y by (simp add: ordinal_def valid_date_def)
  qed
qed

lemma ordinal_inj: "valid_date a \<Longrightarrow> valid_date b \<Longrightarrow> ordinal a = ordinal b \<Longrightarrow> a = b"
  using ordinal_less [of a b] ordinal_less [of b a] by (cases a b rule: linorder_cases) auto

lemma of_ordinal_ordinal:
  assumes "valid_date d"
  shows "of_ordinal (ordinal d) = Some d"
proof -
  have "1 \<le> ordinal d"
    using ordinal_in_year(1) [OF assms] days_before_year_mono [of 1 "year d"] assms
    by (simp add: valid_date_def days_before_year_def)
  have "of_ordinal (ordinal d) \<noteq> None"
  proof
    assume none: "of_ordinal (ordinal d) = None"
    define b where "b = (ordinal d - 1) div 146097"
    obtain y n1 where y: "year_at (400 * b + 1) (ordinal d - 146097 * b) = (y, n1)" by fastforce
    obtain m k where m: "month_at y 0 n1 11 = (m, k)" by fastforce
    have "9999 < y"
      using none y m \<open>1 \<le> ordinal d\<close> by (auto simp: of_ordinal_def Let_def b_def [symmetric] split: if_split_asm)
    have "1 \<le> ordinal d - 146097 * b"
      using div_mult_mod_eq [of "ordinal d - 1" 146097] pos_mod_sign [of 146097 "ordinal d - 1"]
      by (simp add: b_def)
    from year_at_spec [OF this y] have "days_before_year y < ordinal d"
      using days_before_cycle [of b] by auto
    moreover have "days_before_year (year d + 1) \<le> days_before_year y"
      using assms \<open>9999 < y\<close> by (intro days_before_year_mono) (simp add: valid_date_def)
    ultimately show False using ordinal_in_year(2) [OF assms] by simp
  qed
  then obtain e where e: "of_ordinal (ordinal d) = Some e" by blast
  with of_ordinal_spec [OF e] ordinal_inj [of e d] assms show ?thesis by simp
qed

lemma ordinal_le_iff: "valid_date a \<Longrightarrow> valid_date b \<Longrightarrow> ordinal a \<le> ordinal b \<longleftrightarrow> a \<le> b"
  using ordinal_less [of a b] ordinal_less [of b a] by (cases a b rule: linorder_cases) auto

lemma ordinal_less_iff: "valid_date a \<Longrightarrow> valid_date b \<Longrightarrow> ordinal a < ordinal b \<longleftrightarrow> a < b"
  using ordinal_le_iff [of b a] by auto

lemma of_ordinal_total:
  assumes "1 \<le> n" and "n \<le> days_before_year 10000"
  shows "\<exists>d. of_ordinal n = Some d"
proof -
  define b where "b = (n - 1) div 146097"
  obtain y n1 where y: "year_at (400 * b + 1) (n - 146097 * b) = (y, n1)" by fastforce
  obtain m k where m: "month_at y 0 n1 11 = (m, k)" by fastforce
  have "1 \<le> n - 146097 * b"
    using div_mult_mod_eq [of "n - 1" 146097] pos_mod_sign [of 146097 "n - 1"] by (simp add: b_def)
  from year_at_spec [OF this y] have "days_before_year y < n"
    using days_before_cycle [of b] by auto
  then have "y < 10000"
    using assms(2) days_before_year_mono [of 10000 y] by linarith
  then show ?thesis
    using assms(1) y m by (simp add: of_ordinal_def Let_def b_def [symmetric])
qed

lemma valid_ordinal_bounds:
  assumes "valid_date d"
  shows "1 \<le> ordinal d" "ordinal d \<le> days_before_year (year d + 1)"
  using ordinal_in_year [OF assms] days_before_year_mono [of 1 "year d"] assms
  by (auto simp: valid_date_def days_before_year_def)

lemma plus_days_valid: "plus_days d k = Some e \<Longrightarrow> valid_date e \<and> ordinal e = ordinal d + k"
  unfolding plus_days_def by (rule of_ordinal_spec)

section \<open>Instants as texts\<close>

text \<open>An instant in microseconds since 1970; day 719163 is 1 January 1970.\<close>

definition date_of_instant :: "int \<Rightarrow> date option" where
  "date_of_instant t = of_ordinal (t div 86400000000 + 719163)"

definition padded :: "nat \<Rightarrow> int \<Rightarrow> string" where
  "padded n i = pad_left n (int_text i)"

definition iso_text :: "int \<Rightarrow> string" where
  \<comment> \<open>\<open>isoformat()\<close> of an aware UTC datetime\<close>
  "iso_text t = (case date_of_instant t of
     None \<Rightarrow> []
   | Some d \<Rightarrow>
       let us = t mod 86400000000; s = us div 1000000; f = us mod 1000000 in
       padded 4 (year d) @ ''-'' @ padded 2 (month d) @ ''-'' @ padded 2 (day d) @ ''T''
         @ padded 2 (s div 3600) @ '':'' @ padded 2 (s div 60 mod 60) @ '':'' @ padded 2 (s mod 60)
         @ (if f = 0 then [] else ''.'' @ padded 6 f) @ ''+00:00'')"

end
