(* ===== verification/Cron.thy ===== *)
theory Cron
  imports Calendar
begin

text \<open>
  \<open>packages/storage/scheduling.py\<close>: the next occurrence of a five-field cron expression.

  An instant is a number of microseconds since 1970 (UTC), a wall-clock time a number of
  microseconds since 1 January of year 1, and the search runs over wall-clock minutes.  The time
  zone database is not part of the program: it is a parameter, a known-zone test and the two
  conversions \<open>astimezone\<close> makes (to the wall clock of a zone, and from an unfolded wall clock).
\<close>

section \<open>Fields\<close>

datatype cron_error = Bad_cron string | Unknown_zone string | Out_of_range

function words :: "string \<Rightarrow> string list" where
  \<comment> \<open>\<open>s.split()\<close>\<close>
  "words s = (let t = dropWhile is_space s in
     if t = [] then [] else takeWhile (\<lambda>c. \<not> is_space c) t # words (dropWhile (\<lambda>c. \<not> is_space c) t))"
  by pat_completeness auto
termination
proof (relation "measure length", simp_all)
  fix s :: string
  assume "\<exists>x\<in>set s. \<not> is_space x"
  then obtain c t where "dropWhile is_space s = c # t" "\<not> is_space c"
    by (metis dropWhile_eq_Nil_conv hd_dropWhile list.exhaust_sel)
  moreover from this have "length (c # t) \<le> length s"
    by (metis length_dropWhile_le)
  ultimately show "length (dropWhile (\<lambda>c. \<not> is_space c) (dropWhile is_space s)) < length s"
    using length_dropWhile_le [of "\<lambda>c. \<not> is_space c" t] by simp
qed

declare words.simps [simp del]

definition py_range :: "int \<Rightarrow> int \<Rightarrow> int \<Rightarrow> int list" where
  \<comment> \<open>\<open>range(start, end + 1, step)\<close> for \<open>start <= end\<close> and a step other than 0\<close>
  "py_range start end step = (if step < 0 then [] else filter (\<lambda>x. (x - start) mod step = 0) [start..end])"

definition parse_part :: "int \<Rightarrow> int \<Rightarrow> string \<Rightarrow> cron_error + int list" where
  "parse_part start end part =
     (if prefix ''*/'' part then
        (case py_int (drop 2 part) of
           None \<Rightarrow> Inl (Bad_cron ''invalid literal for int'')
         | Some step \<Rightarrow>
             if step = 0 then Inl (Bad_cron ''range() arg 3 must not be zero'')
             else Inr (py_range start end step))
      else
        (case py_int part of
           None \<Rightarrow> Inl (Bad_cron ''invalid literal for int'')
         | Some parsed \<Rightarrow>
             if parsed < start \<or> parsed > end then Inl (Bad_cron (''Cron field value out of range: '' @ part))
             else Inr [parsed]))"

fun parse_parts :: "int \<Rightarrow> int \<Rightarrow> string list \<Rightarrow> cron_error + int list" where
  "parse_parts start end [] = Inr []"
| "parse_parts start end (part # parts) =
     and_then (parse_part start end (strip part)) (\<lambda>vs.
     and_then (parse_parts start end parts) (\<lambda>ws. Inr (vs @ ws)))"

definition parse_field :: "string \<Rightarrow> int \<Rightarrow> int \<Rightarrow> cron_error + int list" where
  \<comment> \<open>the set of values, as a list\<close>
  "parse_field text start end =
     (if text = ''*'' then Inr [start..end]
      else and_then (parse_parts start end (split_on (CHR '','') text)) (\<lambda>values.
        if values = [] then Inl (Bad_cron (''Invalid cron field: '' @ text)) else Inr values))"

record cron_fields =
  cf_minute :: "int list"
  cf_hour :: "int list"
  cf_day :: "int list"
  cf_month :: "int list"
  cf_weekday :: "int list"

definition parse_cron :: "string \<Rightarrow> cron_error + cron_fields" where
  "parse_cron expression =
     (let parts = words expression in
      if length parts \<noteq> 5
      then Inl (Bad_cron ''cron_expression must use five fields: minute hour day month weekday'')
      else
        and_then (parse_field (parts ! 0) 0 59) (\<lambda>minute.
        and_then (parse_field (parts ! 1) 0 23) (\<lambda>hour.
        and_then (parse_field (parts ! 2) 1 31) (\<lambda>day.
        and_then (parse_field (parts ! 3) 1 12) (\<lambda>month.
        and_then (parse_field (parts ! 4) 0 6) (\<lambda>weekday.
          Inr \<lparr>cf_minute = minute, cf_hour = hour, cf_day = day, cf_month = month, cf_weekday = weekday\<rparr>))))))"

section \<open>The search\<close>

definition minute_us :: int where
  "minute_us = 60000000"

definition last_minute :: int where
  \<comment> \<open>9999-12-31 23:59\<close>
  "last_minute = 3652059 * 1440 - 1"

record tz_database =
  tz_known :: "string \<Rightarrow> bool"
  tz_wall :: "string \<Rightarrow> int \<Rightarrow> int"
  tz_utc :: "string \<Rightarrow> int \<Rightarrow> int"

definition cron_matches :: "cron_fields \<Rightarrow> int \<Rightarrow> bool" where
  \<comment> \<open>Monday is weekday 0; day 1 of the calendar is a Monday\<close>
  "cron_matches f c = (case of_ordinal (c div 1440 + 1) of
     None \<Rightarrow> False
   | Some d \<Rightarrow>
       c mod 60 \<in> set (cf_minute f) \<and> c div 60 mod 24 \<in> set (cf_hour f) \<and> day d \<in> set (cf_day f) \<and>
       month d \<in> set (cf_month f) \<and> c div 1440 mod 7 \<in> set (cf_weekday f))"

function first_match :: "cron_fields \<Rightarrow> int \<Rightarrow> int \<Rightarrow> int option" where
  "first_match f candidate deadline =
     (if candidate > deadline then None
      else if cron_matches f candidate then Some candidate
      else first_match f (candidate + 1) deadline)"
  by pat_completeness auto
termination
  by (relation "measure (\<lambda>(f, c, d). nat (d + 1 - c))") auto

declare first_match.simps [simp del]

definition next_cron_occurrence :: "tz_database \<Rightarrow> string \<Rightarrow> string \<Rightarrow> int \<Rightarrow> cron_error + int" where
  "next_cron_occurrence tz expression zone after =
     and_then (parse_cron expression) (\<lambda>f.
       if \<not> tz_known tz zone then Inl (Unknown_zone zone)
       else
         let candidate = tz_wall tz zone after div minute_us + 1;
             deadline = candidate + 366 * 1440
         in if candidate < 1 \<or> deadline > last_minute then Inl Out_of_range
            else case first_match f candidate deadline of
              Some c \<Rightarrow> Inr (tz_utc tz zone (c * minute_us))
            | None \<Rightarrow> if deadline = last_minute then Inl Out_of_range
                else Inl (Bad_cron (''Unable to compute next cron occurrence for '' @ expression)))"

section \<open>Parsed fields are in range\<close>

lemma py_range_bounds: "x \<in> set (py_range start end step) \<Longrightarrow> start \<le> x \<and> x \<le> end"
  by (auto simp: py_range_def split: if_splits)

lemma parse_part_bounds:
  "parse_part start end part = Inr vs \<Longrightarrow> x \<in> set vs \<Longrightarrow> start \<le> x \<and> x \<le> end"
  by (auto simp: parse_part_def split: if_splits option.splits dest: py_range_bounds)

lemma parse_parts_bounds:
  "parse_parts start end parts = Inr vs \<Longrightarrow> x \<in> set vs \<Longrightarrow> start \<le> x \<and> x \<le> end"
proof (induction parts arbitrary: vs)
  case (Cons p ps)
  then show ?case by (auto simp: and_then_Inr_iff dest: parse_part_bounds)
qed simp

lemma parse_field_bounds:
  assumes "parse_field text start end = Inr vs" and "start \<le> end"
  shows "vs \<noteq> [] \<and> set vs \<subseteq> {start..end}"
  using assms by (auto simp: parse_field_def and_then_Inr_iff split: if_splits dest: parse_parts_bounds)

definition field_ok :: "int list \<Rightarrow> int \<Rightarrow> int \<Rightarrow> bool" where
  "field_ok vs start end \<longleftrightarrow> vs \<noteq> [] \<and> set vs \<subseteq> {start..end}"

definition fields_ok :: "cron_fields \<Rightarrow> bool" where
  "fields_ok f \<longleftrightarrow> field_ok (cf_minute f) 0 59 \<and> field_ok (cf_hour f) 0 23 \<and>
     field_ok (cf_day f) 1 31 \<and> field_ok (cf_month f) 1 12 \<and> field_ok (cf_weekday f) 0 6"

lemma parse_cron_ok:
  assumes "parse_cron e = Inr f"
  shows "fields_ok f"
proof -
  obtain a b c d w where "parse_field (words e ! 0) 0 59 = Inr a" "parse_field (words e ! 1) 0 23 = Inr b"
    "parse_field (words e ! 2) 1 31 = Inr c" "parse_field (words e ! 3) 1 12 = Inr d"
    "parse_field (words e ! 4) 0 6 = Inr w"
    and "f = \<lparr>cf_minute = a, cf_hour = b, cf_day = c, cf_month = d, cf_weekday = w\<rparr>"
    using assms by (auto simp: parse_cron_def Let_def and_then_Inr_iff split: if_split_asm)
  then show ?thesis
    using parse_field_bounds [of "words e ! 0"] parse_field_bounds [of "words e ! 1"]
      parse_field_bounds [of "words e ! 2"] parse_field_bounds [of "words e ! 3"]
      parse_field_bounds [of "words e ! 4"]
    by (simp add: fields_ok_def field_ok_def)
qed

section \<open>The search finds the first match\<close>

lemma first_match_Some:
  "first_match f c deadline = Some r \<Longrightarrow>
    c \<le> r \<and> r \<le> deadline \<and> cron_matches f r \<and> (\<forall>x. c \<le> x \<and> x < r \<longrightarrow> \<not> cron_matches f x)"
proof (induction f c deadline rule: first_match.induct)
  case (1 f c deadline)
  show ?case
  proof (cases "c > deadline \<or> cron_matches f c")
    case True
    with "1.prems" show ?thesis by (auto simp: first_match.simps [of f c] split: if_split_asm)
  next
    case False
    with "1.prems" have "first_match f (c + 1) deadline = Some r" by (simp add: first_match.simps [of f c])
    with "1.IH" False have "c + 1 \<le> r \<and> r \<le> deadline \<and> cron_matches f r \<and>
        (\<forall>x. c + 1 \<le> x \<and> x < r \<longrightarrow> \<not> cron_matches f x)" by simp
    moreover have "c + 1 \<le> x \<or> x = c" if "c \<le> x" for x using that by linarith
    ultimately show ?thesis using False by auto
  qed
qed

lemma first_match_None:
  "first_match f c deadline = None \<longleftrightarrow> (\<forall>x. c \<le> x \<and> x \<le> deadline \<longrightarrow> \<not> cron_matches f x)"
proof (induction f c deadline rule: first_match.induct)
  case (1 f c deadline)
  have split: "c + 1 \<le> x \<or> x = c" if "c \<le> x" for x using that by linarith
  show ?case
  proof (cases "c > deadline \<or> cron_matches f c")
    case True
    then show ?thesis by (auto simp: first_match.simps [of f c])
  next
    case False
    with "1.IH" show ?thesis using split by (auto simp: first_match.simps [of f c])
  qed
qed

end
