(* ===== verification/DispatchQueue.thy ===== *)
theory DispatchQueue
  imports Cron Json
begin

text \<open>
  The execution control plane of \<open>packages/storage/execution_control_plane.py\<close>: schedules, the
  dispatch queue with its leases, and worker heartbeats.

  A \<open>_session(write_lock=True)\<close> and a session of one statement are one atomic step: it commits the new
  database or, when it raises, leaves the old one.  Any other \<open>_session()\<close> takes the lock with its
  first write: each read before it is a step of its own, and the write with all that follows is one
  more (as in SQLite; Postgres lets others commit between the later statements too).  A call of
  several steps takes \<open>gap\<close>: \<open>gap i\<close> is what other workers did before its \<open>i\<close>-th step.  Dispatch ids are drawn by the caller (\<open>uid\<close>, or
  \<open>uids n\<close> for the \<open>n\<close>-th of a call); the primary key refuses one that exists.
\<close>

section \<open>Tables\<close>

record schedule =
  sc_schedule_id :: string
  sc_target_kind :: string
  sc_target_ref :: string
  sc_cron_expression :: string
  sc_timezone :: string
  sc_enabled :: bool
  sc_archived :: bool
  sc_max_concurrency :: int
  sc_next_due_at :: "int option"
  sc_last_enqueued_at :: "int option"
  sc_created_at :: int

record dispatch =
  dp_dispatch_id :: string
  dp_schedule_id :: string
  dp_target_kind :: string
  dp_target_ref :: string
  dp_enqueued_at :: int
  dp_status :: string
  dp_started_at :: "int option"
  dp_completed_at :: "int option"
  dp_run_ids :: "string list"
  dp_failure_reason :: "string option"
  dp_worker_detail :: "string option"
  dp_claimed_by :: "string option"
  dp_claimed_at :: "int option"
  dp_claim_expires_at :: "int option"

record recovery =
  rc_stale_dispatch :: dispatch
  rc_replacement_dispatch :: "dispatch option"
  rc_recovered_at :: int
  rc_recovered_by :: "string option"

record heartbeat =
  hb_worker_id :: string
  hb_status :: string
  hb_active_dispatch_id :: "string option"
  hb_detail :: "string option"
  hb_observed_at :: int

record queue_db =
  q_definitions :: "(string \<times> bool) list"
    \<comment> \<open>the ingestion definitions: id and whether archived\<close>
  q_schedules :: "schedule list"
  q_dispatches :: "dispatch list"
  q_heartbeats :: "heartbeat list"

datatype queue_error =
    Key_error string
  | Value_error string
  | Integrity_error string
  | Cron_failed cron_error

definition active_status :: "string \<Rightarrow> bool" where
  "active_status x \<longleftrightarrow> x = ''enqueued'' \<or> x = ''running''"

definition active_count :: "queue_db \<Rightarrow> string \<Rightarrow> int" where
  "active_count db sid =
     int (length (filter (\<lambda>d. dp_schedule_id d = sid \<and> active_status (dp_status d)) (q_dispatches db)))"

definition find_schedule :: "queue_db \<Rightarrow> string \<Rightarrow> schedule option" where
  "find_schedule db sid = List.find (\<lambda>s. sc_schedule_id s = sid) (q_schedules db)"

definition find_dispatch :: "queue_db \<Rightarrow> string \<Rightarrow> dispatch option" where
  "find_dispatch db did = List.find (\<lambda>d. dp_dispatch_id d = did) (q_dispatches db)"

definition update_where :: "('a \<Rightarrow> bool) \<Rightarrow> ('a \<Rightarrow> 'a) \<Rightarrow> 'a list \<Rightarrow> nat \<times> 'a list" where
  \<comment> \<open>an \<open>UPDATE\<close>: how many rows it hit, and the table after it\<close>
  "update_where hit f rows = (length (filter hit rows), map (\<lambda>r. if hit r then f r else r) rows)"

definition set_schedule :: "string \<Rightarrow> (schedule \<Rightarrow> schedule) \<Rightarrow> queue_db \<Rightarrow> nat \<times> queue_db" where
  "set_schedule sid f db =
     (let (n, rows) = update_where (\<lambda>s. sc_schedule_id s = sid) f (q_schedules db)
      in (n, db\<lparr>q_schedules := rows\<rparr>))"

definition set_dispatches :: "(dispatch \<Rightarrow> bool) \<Rightarrow> (dispatch \<Rightarrow> dispatch) \<Rightarrow> queue_db \<Rightarrow> nat \<times> queue_db" where
  "set_dispatches hit f db =
     (let (n, rows) = update_where hit f (q_dispatches db) in (n, db\<lparr>q_dispatches := rows\<rparr>))"

definition transaction :: "queue_db \<Rightarrow> queue_error + ('a \<times> queue_db) \<Rightarrow> (queue_error + 'a) \<times> queue_db" where
  "transaction db r = (case r of Inl e \<Rightarrow> (Inl e, db) | Inr (x, db') \<Rightarrow> (Inr x, db'))"

section \<open>Enqueued dispatches\<close>

definition enqueued_dispatch :: "string \<Rightarrow> schedule \<Rightarrow> int \<Rightarrow> string option \<Rightarrow> dispatch" where
  "enqueued_dispatch uid s at detail =
     \<lparr>dp_dispatch_id = uid, dp_schedule_id = sc_schedule_id s, dp_target_kind = sc_target_kind s,
      dp_target_ref = sc_target_ref s, dp_enqueued_at = at, dp_status = ''enqueued'',
      dp_started_at = None, dp_completed_at = None, dp_run_ids = [], dp_failure_reason = None,
      dp_worker_detail = detail, dp_claimed_by = None, dp_claimed_at = None, dp_claim_expires_at = None\<rparr>"

definition insert_enqueued_dispatch ::
    "string \<Rightarrow> schedule \<Rightarrow> int \<Rightarrow> string option \<Rightarrow> queue_db \<Rightarrow> queue_error + (dispatch \<times> queue_db)" where
  "insert_enqueued_dispatch uid s at detail db =
     (if find_dispatch db uid \<noteq> None then Inl (Integrity_error ''schedule_dispatches.dispatch_id'')
      else if find_schedule db (sc_schedule_id s) = None then Inl (Integrity_error ''FOREIGN KEY'')
      else
        let d = enqueued_dispatch uid s at detail
        in Inr (d, db\<lparr>q_dispatches := q_dispatches db @ [d]\<rparr>))"

section \<open>Schedules\<close>

definition validate_target :: "queue_db \<Rightarrow> string \<Rightarrow> string \<Rightarrow> queue_error + unit" where
  "validate_target db kind ref =
     (if kind = ''ingestion_definition'' then
        (case map_of (q_definitions db) ref of
           None \<Rightarrow> Inl (Key_error (''Unknown ingestion definition: '' @ ref))
         | Some archived \<Rightarrow>
             if archived then Inl (Value_error (''Ingestion definition is archived: '' @ ref)) else Inr ())
      else Inr ())"

definition due_or_next :: "tz_database \<Rightarrow> schedule \<Rightarrow> int \<Rightarrow> queue_error + int" where
  \<comment> \<open>\<open>schedule.next_due_at or next_cron_occurrence(..)\<close>\<close>
  "due_or_next tz s after =
     (case sc_next_due_at s of
        Some t \<Rightarrow> Inr t
      | None \<Rightarrow> (case next_cron_occurrence tz (sc_cron_expression s) (sc_timezone s) after of
          Inl e \<Rightarrow> Inl (Cron_failed e) | Inr t \<Rightarrow> Inr t))"

definition get_execution_schedule :: "queue_db \<Rightarrow> string \<Rightarrow> queue_error + schedule" where
  "get_execution_schedule db sid = (case find_schedule db sid of
     None \<Rightarrow> Inl (Key_error (''Unknown execution schedule: '' @ sid)) | Some s \<Rightarrow> Inr s)"

definition create_execution_schedule :: "tz_database \<Rightarrow> (nat \<Rightarrow> queue_db \<Rightarrow> queue_db) \<Rightarrow> queue_db \<Rightarrow> schedule \<Rightarrow>
    (queue_error + schedule) \<times> queue_db" where
  "create_execution_schedule tz gap db s =
     (let db0 = gap 0 db in
      case and_then (validate_target db0 (sc_target_kind s) (sc_target_ref s))
             (\<lambda>_. due_or_next tz s (sc_created_at s)) of
        Inl e \<Rightarrow> (Inl e, db0)
      | Inr due \<Rightarrow>
          let db1 = gap 1 db0 in
          if find_schedule db1 (sc_schedule_id s) \<noteq> None
          then (Inl (Integrity_error ''execution_schedules.schedule_id''), db1)
          else
            let db2 = gap 2 (db1\<lparr>q_schedules := q_schedules db1 @ [s\<lparr>sc_next_due_at := Some due\<rparr>]\<rparr>)
            in (get_execution_schedule db2 (sc_schedule_id s), db2))"

definition rewritten_schedule :: "schedule \<Rightarrow> int \<Rightarrow> schedule \<Rightarrow> schedule" where
  \<comment> \<open>the \<open>SET\<close> list of the update: all but the id and the creation time\<close>
  "rewritten_schedule s due old =
     s\<lparr>sc_schedule_id := sc_schedule_id old, sc_created_at := sc_created_at old, sc_next_due_at := Some due\<rparr>"

definition update_execution_schedule :: "tz_database \<Rightarrow> (nat \<Rightarrow> queue_db \<Rightarrow> queue_db) \<Rightarrow> queue_db \<Rightarrow> schedule \<Rightarrow>
    (queue_error + schedule) \<times> queue_db" where
  "update_execution_schedule tz gap db s =
     (let db0 = gap 0 db in
      case and_then (validate_target db0 (sc_target_kind s) (sc_target_ref s))
             (\<lambda>_. due_or_next tz s (case sc_last_enqueued_at s of Some t \<Rightarrow> t | None \<Rightarrow> sc_created_at s)) of
        Inl e \<Rightarrow> (Inl e, db0)
      | Inr due \<Rightarrow>
          let (n, db1) = set_schedule (sc_schedule_id s) (rewritten_schedule s due) (gap 1 db0) in
          if n = 0 then (Inl (Key_error (''Unknown execution schedule: '' @ sc_schedule_id s)), db1)
          else let db2 = gap 2 db1 in (get_execution_schedule db2 (sc_schedule_id s), db2))"

definition list_execution_schedules :: "queue_db \<Rightarrow> bool \<Rightarrow> bool \<Rightarrow> schedule list" where
  "list_execution_schedules db enabled_only include_archived =
     sort_key sc_created_at (sort_key sc_schedule_id
       (filter (\<lambda>s. (enabled_only \<longrightarrow> sc_enabled s) \<and> (\<not> include_archived \<longrightarrow> \<not> sc_archived s)) (q_schedules db)))"

definition set_execution_schedule_archived_state ::
    "(nat \<Rightarrow> queue_db \<Rightarrow> queue_db) \<Rightarrow> queue_db \<Rightarrow> string \<Rightarrow> bool \<Rightarrow> (queue_error + schedule) \<times> queue_db" where
  "set_execution_schedule_archived_state gap db sid archived =
     (let (n, db1) = set_schedule sid
            (\<lambda>s. s\<lparr>sc_archived := archived, sc_enabled := (if archived then False else sc_enabled s)\<rparr>) (gap 0 db)
      in if n = 0 then (Inl (Key_error (''Unknown execution schedule: '' @ sid)), db1)
         else let db2 = gap 1 db1 in (get_execution_schedule db2 sid, db2))"

definition list_schedule_dispatches :: "queue_db \<Rightarrow> string option \<Rightarrow> string option \<Rightarrow> dispatch list" where
  \<comment> \<open>\<open>ORDER BY enqueued_at DESC, dispatch_id DESC\<close>\<close>
  "list_schedule_dispatches db sid st =
     sort_key (\<lambda>d. - dp_enqueued_at d) (rev (sort_key dp_dispatch_id
       (filter (\<lambda>d. (sid = None \<or> sid = Some (dp_schedule_id d)) \<and> (st = None \<or> st = Some (dp_status d)))
         (q_dispatches db))))"

definition delete_execution_schedule ::
    "(nat \<Rightarrow> queue_db \<Rightarrow> queue_db) \<Rightarrow> queue_db \<Rightarrow> string \<Rightarrow> (queue_error + unit) \<times> queue_db" where
  "delete_execution_schedule gap db sid =
     (let db0 = gap 0 db in
      case get_execution_schedule db0 sid of
        Inl e \<Rightarrow> (Inl e, db0)
      | Inr s \<Rightarrow>
          if \<not> sc_archived s then (Inl (Value_error ''Archive execution schedule before deleting it.''), db0)
          else
            let db1 = gap 1 db0; dispatches = list_schedule_dispatches db1 (Some sid) None in
            if dispatches \<noteq> [] then
              (Inl (Value_error (''Cannot delete execution schedule while dispatch history exists: ''
                 @ join_texts '', '' (map dp_dispatch_id dispatches))), db1)
            else
              let db2 = gap 2 db1 in
              if list_ex (\<lambda>d. dp_schedule_id d = sid) (q_dispatches db2)
              then (Inl (Integrity_error ''FOREIGN KEY''), db2)
              else if find_schedule db2 sid = None
              then (Inl (Key_error (''Unknown execution schedule: '' @ sid)), db2)
              else (Inr (), db2\<lparr>q_schedules := filter (\<lambda>s. sc_schedule_id s \<noteq> sid) (q_schedules db2)\<rparr>))"

section \<open>Enqueueing\<close>

definition due_schedules :: "queue_db \<Rightarrow> int \<Rightarrow> schedule list" where
  "due_schedules db as_of =
     sort_key (\<lambda>s. the (sc_next_due_at s)) (sort_key sc_schedule_id
       (filter (\<lambda>s. sc_enabled s \<and> \<not> sc_archived s \<and>
          (case sc_next_due_at s of None \<Rightarrow> False | Some t \<Rightarrow> t \<le> as_of)) (q_schedules db)))"

definition enqueue_row :: "tz_database \<Rightarrow> string \<Rightarrow> int \<Rightarrow> schedule \<Rightarrow> queue_db \<Rightarrow> queue_error + (dispatch \<times> queue_db)" where
  "enqueue_row tz uid as_of s db =
     and_then (insert_enqueued_dispatch uid s as_of None db) (\<lambda>(d, db1).
       case next_cron_occurrence tz (sc_cron_expression s) (sc_timezone s) as_of of
         Inl e \<Rightarrow> Inl (Cron_failed e)
       | Inr due \<Rightarrow> Inr (d, snd (set_schedule (sc_schedule_id s)
           (\<lambda>r. r\<lparr>sc_last_enqueued_at := Some as_of, sc_next_due_at := Some due\<rparr>) db1)))"

definition limit_reached :: "int option \<Rightarrow> nat \<Rightarrow> bool" where
  "limit_reached limit n \<longleftrightarrow> (case limit of None \<Rightarrow> False | Some k \<Rightarrow> int n \<ge> k)"

fun enqueue_rows :: "tz_database \<Rightarrow> (nat \<Rightarrow> string) \<Rightarrow> int \<Rightarrow> int option \<Rightarrow> schedule list \<Rightarrow>
    dispatch list \<Rightarrow> queue_db \<Rightarrow> queue_error + (dispatch list \<times> queue_db)" where
  "enqueue_rows tz uids as_of limit [] ds db = Inr (ds, db)"
| "enqueue_rows tz uids as_of limit (s # rows) ds db =
     (if limit_reached limit (length ds) then Inr (ds, db)
      else if active_count db (sc_schedule_id s) \<ge> sc_max_concurrency s
      then enqueue_rows tz uids as_of limit rows ds db
      else and_then (enqueue_row tz (uids (length ds)) as_of s db) (\<lambda>(d, db1).
        enqueue_rows tz uids as_of limit rows (ds @ [d]) db1))"

fun enqueue_search :: "tz_database \<Rightarrow> (nat \<Rightarrow> string) \<Rightarrow> int \<Rightarrow> int option \<Rightarrow> (nat \<Rightarrow> queue_db \<Rightarrow> queue_db) \<Rightarrow> nat \<Rightarrow>
    schedule list \<Rightarrow> queue_db \<Rightarrow> (queue_error + dispatch list) \<times> queue_db" where
  \<comment> \<open>the loop up to its first write: each count is a step of its own\<close>
  "enqueue_search tz uids as_of limit gap n [] db = (Inr [], db)"
| "enqueue_search tz uids as_of limit gap n (s # rows) db =
     (if limit_reached limit 0 then (Inr [], db)
      else let db1 = gap n db in
        if active_count db1 (sc_schedule_id s) \<ge> sc_max_concurrency s
        then enqueue_search tz uids as_of limit gap (Suc n) rows db1
        else let db2 = gap (Suc n) db1 in
          transaction db2 (and_then (enqueue_row tz (uids 0) as_of s db2) (\<lambda>(d, db3).
            enqueue_rows tz uids as_of limit rows [d] db3)))"

definition enqueue_due_execution_schedules :: "tz_database \<Rightarrow> (nat \<Rightarrow> string) \<Rightarrow> int \<Rightarrow> int option \<Rightarrow>
    (nat \<Rightarrow> queue_db \<Rightarrow> queue_db) \<Rightarrow> queue_db \<Rightarrow> (queue_error + dispatch list) \<times> queue_db" where
  "enqueue_due_execution_schedules tz uids as_of limit gap db =
     (let db0 = gap 0 db in enqueue_search tz uids as_of limit gap 1 (due_schedules db0 as_of) db0)"

definition create_schedule_dispatch :: "string \<Rightarrow> int \<Rightarrow> (nat \<Rightarrow> queue_db \<Rightarrow> queue_db) \<Rightarrow> queue_db \<Rightarrow> string \<Rightarrow>
    (queue_error + dispatch) \<times> queue_db" where
  \<comment> \<open>the schedule, the count and the write are three steps\<close>
  "create_schedule_dispatch uid at gap db sid =
     (let db0 = gap 0 db in
      case find_schedule db0 sid of
        None \<Rightarrow> (Inl (Key_error (''Unknown execution schedule: '' @ sid)), db0)
      | Some s \<Rightarrow>
          if sc_archived s then (Inl (Value_error (''Execution schedule is archived: '' @ sid)), db0)
          else if \<not> sc_enabled s then (Inl (Value_error (''Execution schedule is disabled: '' @ sid)), db0)
          else let db1 = gap 1 db0 in
            if active_count db1 sid \<ge> sc_max_concurrency s
            then (Inl (Value_error (''Execution schedule already has max_concurrency active dispatches: '' @ sid)), db1)
            else let db2 = gap 2 db1 in
              transaction db2 (and_then (insert_enqueued_dispatch uid s at None db2) (\<lambda>(d, db3).
                Inr (d, snd (set_schedule sid (\<lambda>r. r\<lparr>sc_last_enqueued_at := Some at\<rparr>) db3)))))"

section \<open>Claims and leases\<close>

definition get_schedule_dispatch :: "queue_db \<Rightarrow> string \<Rightarrow> queue_error + dispatch" where
  "get_schedule_dispatch db did = (case find_dispatch db did of
     None \<Rightarrow> Inl (Key_error (''Unknown schedule dispatch: '' @ did)) | Some d \<Rightarrow> Inr d)"

definition option_or :: "'a option \<Rightarrow> 'a option \<Rightarrow> 'a option" where
  \<comment> \<open>\<open>x if x is not None else y\<close>\<close>
  "option_or x y = (case x of None \<Rightarrow> y | Some a \<Rightarrow> Some a)"

definition claimed_row :: "string \<Rightarrow> int \<Rightarrow> int \<Rightarrow> string option \<Rightarrow> dispatch \<Rightarrow> dispatch \<Rightarrow> dispatch" where
  "claimed_row worker at expires detail existing d =
     d\<lparr>dp_status := ''running'', dp_started_at := option_or (dp_started_at existing) (Some at),
       dp_completed_at := None, dp_failure_reason := None,
       dp_worker_detail := option_or detail (dp_worker_detail existing),
       dp_claimed_by := Some worker, dp_claimed_at := Some at, dp_claim_expires_at := Some expires\<rparr>"

definition claim_enqueued_dispatch :: "string \<Rightarrow> int \<Rightarrow> int \<Rightarrow> string option \<Rightarrow> dispatch \<Rightarrow> queue_db \<Rightarrow> nat \<times> queue_db" where
  "claim_enqueued_dispatch worker at expires detail existing db =
     set_dispatches (\<lambda>d. dp_dispatch_id d = dp_dispatch_id existing \<and> dp_status d = ''enqueued'')
       (claimed_row worker at expires detail existing) db"

definition lease_end :: "int \<Rightarrow> int \<Rightarrow> int" where
  "lease_end at lease_seconds = at + lease_seconds * 1000000"

definition claim_in_session :: "string \<Rightarrow> string \<Rightarrow> int \<Rightarrow> int \<Rightarrow> string option \<Rightarrow> queue_db \<Rightarrow>
    queue_error + (unit \<times> queue_db)" where
  "claim_in_session did worker at lease_seconds detail db =
     (case find_dispatch db did of
        None \<Rightarrow> Inl (Key_error (''Unknown schedule dispatch: '' @ did))
      | Some existing \<Rightarrow>
          if dp_status existing \<noteq> ''enqueued''
          then Inl (Value_error (''Schedule dispatch must be enqueued before claiming: '' @ did))
          else
            let (n, db1) = claim_enqueued_dispatch worker at (lease_end at lease_seconds) detail existing db
            in if n = 0 then Inl (Value_error (''Schedule dispatch could not be claimed: '' @ did))
               else Inr ((), db1))"

definition claim_schedule_dispatch :: "(nat \<Rightarrow> queue_db \<Rightarrow> queue_db) \<Rightarrow> queue_db \<Rightarrow> string \<Rightarrow> string \<Rightarrow> int \<Rightarrow> int \<Rightarrow>
    string option \<Rightarrow> (queue_error + dispatch) \<times> queue_db" where
  "claim_schedule_dispatch gap db did worker at lease_seconds detail =
     (let db0 = gap 0 db in
      case claim_in_session did worker at lease_seconds detail db0 of
        Inl e \<Rightarrow> (Inl e, db0)
      | Inr (_, db1) \<Rightarrow> let db2 = gap 1 db1 in (get_schedule_dispatch db2 did, db2))"

definition next_enqueued :: "queue_db \<Rightarrow> dispatch option" where
  \<comment> \<open>\<open>ORDER BY enqueued_at, dispatch_id LIMIT 1\<close>\<close>
  "next_enqueued db =
     (case sort_key dp_enqueued_at (sort_key dp_dispatch_id
         (filter (\<lambda>d. dp_status d = ''enqueued'') (q_dispatches db))) of
        [] \<Rightarrow> None | d # _ \<Rightarrow> Some d)"

definition claim_next_in_session :: "string \<Rightarrow> int \<Rightarrow> int \<Rightarrow> string option \<Rightarrow> queue_db \<Rightarrow> string option \<times> queue_db" where
  \<comment> \<open>the claimed id, \<open>None\<close> when the call returns \<open>None\<close>\<close>
  "claim_next_in_session worker at lease_seconds detail db =
     (case next_enqueued db of
        None \<Rightarrow> (None, db)
      | Some existing \<Rightarrow>
          let (n, db1) = claim_enqueued_dispatch worker at (lease_end at lease_seconds) detail existing db
          in if n = 0 then (None, db1) else (Some (dp_dispatch_id existing), db1))"

definition claim_next_schedule_dispatch :: "(nat \<Rightarrow> queue_db \<Rightarrow> queue_db) \<Rightarrow> queue_db \<Rightarrow> string \<Rightarrow> int \<Rightarrow> int \<Rightarrow>
    string option \<Rightarrow> (queue_error + dispatch option) \<times> queue_db" where
  "claim_next_schedule_dispatch gap db worker at lease_seconds detail =
     (case claim_next_in_session worker at lease_seconds detail (gap 0 db) of
        (None, db1) \<Rightarrow> (Inr None, db1)
      | (Some did, db1) \<Rightarrow>
          let db2 = gap 1 db1
          in (case get_schedule_dispatch db2 did of Inl e \<Rightarrow> Inl e | Inr d \<Rightarrow> Inr (Some d), db2))"

definition renew_in_session :: "string \<Rightarrow> string \<Rightarrow> int \<Rightarrow> int \<Rightarrow> string option \<Rightarrow> queue_db \<Rightarrow>
    queue_error + (unit \<times> queue_db)" where
  "renew_in_session did worker at lease_seconds detail db =
     (case find_dispatch db did of
        None \<Rightarrow> Inl (Key_error (''Unknown schedule dispatch: '' @ did))
      | Some existing \<Rightarrow>
          if dp_status existing \<noteq> ''running''
          then Inl (Value_error (''Schedule dispatch must be running before lease renewal: '' @ did))
          else if dp_claimed_by existing \<noteq> Some worker
          then Inl (Value_error (''Schedule dispatch lease can only be renewed by the claiming worker: '' @ did))
          else
            let (n, db1) = set_dispatches
                  (\<lambda>d. dp_dispatch_id d = did \<and> dp_status d = ''running'' \<and> dp_claimed_by d = Some worker)
                  (\<lambda>d. d\<lparr>dp_worker_detail := option_or detail (dp_worker_detail existing),
                     dp_claimed_at := Some at, dp_claim_expires_at := Some (lease_end at lease_seconds)\<rparr>) db
            in if n = 0 then Inl (Value_error (''Schedule dispatch lease could not be renewed: '' @ did))
               else Inr ((), db1))"

definition renew_schedule_dispatch_claim :: "(nat \<Rightarrow> queue_db \<Rightarrow> queue_db) \<Rightarrow> queue_db \<Rightarrow> string \<Rightarrow> string \<Rightarrow> int \<Rightarrow>
    int \<Rightarrow> string option \<Rightarrow> (queue_error + dispatch) \<times> queue_db" where
  "renew_schedule_dispatch_claim gap db did worker at lease_seconds detail =
     (let db0 = gap 0 db in
      case renew_in_session did worker at lease_seconds detail db0 of
        Inl e \<Rightarrow> (Inl e, db0)
      | Inr (_, db1) \<Rightarrow> let db2 = gap 1 db1 in (get_schedule_dispatch db2 did, db2))"

section \<open>Recovery of expired claims\<close>

definition stale_failure_reason :: "dispatch \<Rightarrow> int \<Rightarrow> string option \<Rightarrow> string" where
  "stale_failure_reason d at by_worker =
     ''Dispatch claim expired at '' @ (case dp_claim_expires_at d of Some t \<Rightarrow> iso_text t | None \<Rightarrow> ''unknown'')
     @ '' and was requeued at '' @ iso_text at
     @ (if text_or by_worker [] \<noteq> [] then '' by worker '' @ text_or by_worker [] else [])"

definition stale_worker_detail :: "dispatch \<Rightarrow> int \<Rightarrow> string option \<Rightarrow> string" where
  "stale_worker_detail d at by_worker = dumps (JObj
     [(''dispatch_id'', JStr (dp_dispatch_id d)), (''schedule_id'', JStr (dp_schedule_id d)),
      (''target_kind'', JStr (dp_target_kind d)), (''target_ref'', JStr (dp_target_ref d)),
      (''state'', JStr ''failed''), (''recovery_state'', JStr ''requeued''),
      (''recovered_at'', JStr (iso_text at)), (''recovered_by_worker_id'', j_opt by_worker),
      (''previous_worker_id'', j_opt (dp_claimed_by d)),
      (''previous_claimed_at'', j_opt (map_option iso_text (dp_claimed_at d))),
      (''previous_claim_expires_at'', j_opt (map_option iso_text (dp_claim_expires_at d)))])"

definition requeued_worker_detail :: "dispatch \<Rightarrow> int \<Rightarrow> string option \<Rightarrow> string" where
  "requeued_worker_detail d at by_worker = dumps (JObj
     [(''state'', JStr ''enqueued''), (''recovery_state'', JStr ''requeued''),
      (''recovered_from_dispatch_id'', JStr (dp_dispatch_id d)), (''recovered_at'', JStr (iso_text at)),
      (''recovered_by_worker_id'', j_opt by_worker), (''previous_worker_id'', j_opt (dp_claimed_by d))])"

definition expired :: "int \<Rightarrow> dispatch \<Rightarrow> bool" where
  "expired as_of d \<longleftrightarrow> dp_status d = ''running'' \<and>
     (case dp_claim_expires_at d of None \<Rightarrow> False | Some t \<Rightarrow> t < as_of)"

definition expired_dispatches :: "queue_db \<Rightarrow> int \<Rightarrow> int option \<Rightarrow> dispatch list" where
  \<comment> \<open>SQLite reads a negative limit as no limit\<close>
  "expired_dispatches db as_of limit =
     (let rows = sort_key (\<lambda>d. the (dp_claim_expires_at d)) (sort_key dp_dispatch_id
            (filter (expired as_of) (q_dispatches db)))
      in case limit of None \<Rightarrow> rows | Some n \<Rightarrow> if n < 0 then rows else take (nat n) rows)"

definition failed_row :: "int \<Rightarrow> string \<Rightarrow> string \<Rightarrow> dispatch \<Rightarrow> dispatch" where
  "failed_row as_of reason detail d =
     d\<lparr>dp_status := ''failed'', dp_completed_at := Some as_of, dp_failure_reason := Some reason,
       dp_worker_detail := Some detail, dp_claim_expires_at := None\<rparr>"

definition has_room :: "queue_db \<Rightarrow> schedule \<Rightarrow> bool" where
  "has_room db s \<longleftrightarrow> \<not> sc_archived s \<and> sc_enabled s \<and> active_count db (sc_schedule_id s) < sc_max_concurrency s"

definition replace_dispatch :: "string \<Rightarrow> int \<Rightarrow> string option \<Rightarrow> dispatch \<Rightarrow> queue_db \<Rightarrow>
    queue_error + (dispatch option \<times> queue_db)" where
  "replace_dispatch uid as_of by_worker existing db =
     (case find_schedule db (dp_schedule_id existing) of
        None \<Rightarrow> Inr (None, db)
      | Some s \<Rightarrow>
          if has_room db s then
            and_then (insert_enqueued_dispatch uid s as_of (Some (requeued_worker_detail existing as_of by_worker)) db)
              (\<lambda>(d, db1). Inr (Some d, snd (set_schedule (dp_schedule_id existing)
                 (\<lambda>r. r\<lparr>sc_last_enqueued_at := Some as_of\<rparr>) db1)))
          else Inr (None, db))"

definition recover_row :: "string \<Rightarrow> int \<Rightarrow> string option \<Rightarrow> dispatch \<Rightarrow> queue_db \<Rightarrow>
    queue_error + (recovery option \<times> queue_db)" where
  "recover_row uid as_of by_worker existing db =
     (let reason = stale_failure_reason existing as_of by_worker;
          detail = stale_worker_detail existing as_of by_worker;
          (n, db1) = set_dispatches (\<lambda>d. dp_dispatch_id d = dp_dispatch_id existing \<and> expired as_of d)
            (failed_row as_of reason detail) db
      in if n = 0 then Inr (None, db1)
         else and_then (replace_dispatch uid as_of by_worker existing db1) (\<lambda>(replacement, db2).
           Inr (Some \<lparr>rc_stale_dispatch = failed_row as_of reason detail existing,
                  rc_replacement_dispatch = replacement, rc_recovered_at = as_of, rc_recovered_by = by_worker\<rparr>, db2)))"

fun recover_rows :: "(nat \<Rightarrow> string) \<Rightarrow> int \<Rightarrow> string option \<Rightarrow> dispatch list \<Rightarrow> recovery list \<Rightarrow> queue_db \<Rightarrow>
    queue_error + (recovery list \<times> queue_db)" where
  "recover_rows uids as_of by_worker [] recoveries db = Inr (recoveries, db)"
| "recover_rows uids as_of by_worker (d # rows) recoveries db =
     and_then (recover_row (uids (length recoveries)) as_of by_worker d db) (\<lambda>(r, db1).
       recover_rows uids as_of by_worker rows (recoveries @ (case r of None \<Rightarrow> [] | Some x \<Rightarrow> [x])) db1)"

definition requeue_expired_schedule_dispatches :: "(nat \<Rightarrow> string) \<Rightarrow> int \<Rightarrow> int option \<Rightarrow> string option \<Rightarrow>
    queue_db \<Rightarrow> (queue_error + recovery list) \<times> queue_db" where
  "requeue_expired_schedule_dispatches uids as_of limit by_worker db =
     transaction db (recover_rows uids as_of by_worker (expired_dispatches db as_of limit) [] db)"

section \<open>Status changes\<close>

record status_change =
  sg_status :: string
  sg_started_at :: "int option"
  sg_completed_at :: "int option"
  sg_run_ids :: "string list option"
  sg_failure_reason :: "string option"
  sg_worker_detail :: "string option"
  sg_expected_status :: "string option"
  sg_expected_worker_id :: "string option"

definition resolved_row :: "status_change \<Rightarrow> dispatch \<Rightarrow> dispatch \<Rightarrow> dispatch" where
  "resolved_row g existing d =
     (let base = d\<lparr>dp_status := sg_status g, dp_started_at := option_or (sg_started_at g) (dp_started_at existing),
            dp_completed_at := sg_completed_at g,
            dp_run_ids := (case sg_run_ids g of None \<Rightarrow> dp_run_ids existing | Some ids \<Rightarrow> ids),
            dp_failure_reason := None,
            dp_worker_detail := option_or (sg_worker_detail g) (dp_worker_detail existing),
            dp_claimed_by := dp_claimed_by existing, dp_claimed_at := dp_claimed_at existing,
            dp_claim_expires_at := None\<rparr>
      in if sg_status g = ''enqueued'' then
           base\<lparr>dp_started_at := None, dp_completed_at := None, dp_run_ids := [],
             dp_worker_detail := sg_worker_detail g, dp_claimed_by := None, dp_claimed_at := None\<rparr>
         else if sg_status g = ''running'' then
           base\<lparr>dp_completed_at := None,
             dp_run_ids := (case sg_run_ids g of None \<Rightarrow> [] | Some ids \<Rightarrow> ids),
             dp_claim_expires_at := dp_claim_expires_at existing\<rparr>
         else if sg_status g = ''failed'' then
           base\<lparr>dp_failure_reason := option_or (sg_failure_reason g) (dp_failure_reason existing)\<rparr>
         else base)"

definition mark_schedule_dispatch_status :: "(nat \<Rightarrow> queue_db \<Rightarrow> queue_db) \<Rightarrow> queue_db \<Rightarrow> string \<Rightarrow> status_change \<Rightarrow>
    (queue_error + dispatch) \<times> queue_db" where
  "mark_schedule_dispatch_status gap db did g =
     (let db0 = gap 0 db in
      case get_schedule_dispatch db0 did of
        Inl e \<Rightarrow> (Inl e, db0)
      | Inr existing \<Rightarrow>
          if sg_expected_status g \<noteq> None \<and> Some (dp_status existing) \<noteq> sg_expected_status g
          then (Inl (Value_error (''Schedule dispatch status changed before update: '' @ did)), db0)
          else if sg_expected_worker_id g \<noteq> None \<and> dp_claimed_by existing \<noteq> sg_expected_worker_id g
          then (Inl (Value_error (''Schedule dispatch claim changed before update: '' @ did)), db0)
          else
            let (n, db1) = set_dispatches
                  (\<lambda>d. dp_dispatch_id d = did \<and>
                     (sg_expected_status g = None \<or> sg_expected_status g = Some (dp_status d)) \<and>
                     (sg_expected_worker_id g = None \<or> sg_expected_worker_id g = dp_claimed_by d))
                  (resolved_row g existing) (gap 1 db0)
            in if n = 0 then (Inl (Value_error (''Schedule dispatch could not be updated: '' @ did)), db1)
               else let db2 = gap 2 db1 in (get_schedule_dispatch db2 did, db2))"

section \<open>Heartbeats\<close>

definition record_worker_heartbeat :: "queue_db \<Rightarrow> heartbeat \<Rightarrow> heartbeat \<times> queue_db" where
  "record_worker_heartbeat db h =
     (h, db\<lparr>q_heartbeats :=
       (if list_ex (\<lambda>x. hb_worker_id x = hb_worker_id h) (q_heartbeats db)
        then map (\<lambda>x. if hb_worker_id x = hb_worker_id h then h else x) (q_heartbeats db)
        else q_heartbeats db @ [h])\<rparr>)"

definition list_worker_heartbeats :: "queue_db \<Rightarrow> heartbeat list" where
  "list_worker_heartbeats db = sort_key (\<lambda>h. - hb_observed_at h) (sort_key hb_worker_id (q_heartbeats db))"

end
