(* ===== verification/DispatchSafety.thy ===== *)
theory DispatchSafety
  imports DispatchQueue
begin

text \<open>
  The invariant of the dispatch queue's tables, what each statement does to it, and the lemmas on
  concurrency limits, claims and recovery.
\<close>

section \<open>The invariant\<close>

definition queue_inv :: "queue_db \<Rightarrow> bool" where
  "queue_inv db \<longleftrightarrow> distinct (map sc_schedule_id (q_schedules db)) \<and>
     distinct (map dp_dispatch_id (q_dispatches db)) \<and>
     dp_schedule_id ` set (q_dispatches db) \<subseteq> sc_schedule_id ` set (q_schedules db) \<and>
     distinct (map hb_worker_id (q_heartbeats db))"

lemma find_key_iff: "distinct (map key xs) \<Longrightarrow> List.find (\<lambda>x. key x = k) xs = Some y \<longleftrightarrow> y \<in> set xs \<and> key y = k"
  by (induction xs) (auto split: if_splits)

lemma find_key_None: "List.find (\<lambda>x. key x = k) xs = None \<longleftrightarrow> k \<notin> key ` set xs"
  by (induction xs) auto

lemma find_schedule_iff: "queue_inv db \<Longrightarrow> find_schedule db sid = Some s \<longleftrightarrow> s \<in> set (q_schedules db) \<and> sc_schedule_id s = sid"
  unfolding queue_inv_def find_schedule_def by (intro find_key_iff) simp

lemma find_dispatch_iff: "queue_inv db \<Longrightarrow> find_dispatch db did = Some d \<longleftrightarrow> d \<in> set (q_dispatches db) \<and> dp_dispatch_id d = did"
  unfolding queue_inv_def find_dispatch_def by (intro find_key_iff) simp

lemma find_schedule_None: "find_schedule db sid = None \<longleftrightarrow> sid \<notin> sc_schedule_id ` set (q_schedules db)"
  by (simp add: find_schedule_def find_key_None)

lemma find_dispatch_None: "find_dispatch db did = None \<longleftrightarrow> did \<notin> dp_dispatch_id ` set (q_dispatches db)"
  by (simp add: find_dispatch_def find_key_None)

lemma map_if_key: "(\<And>x. key (f x) = key x) \<Longrightarrow> map key (map (\<lambda>x. if hit x then f x else x) xs) = map key xs"
  by (induction xs) auto

lemma set_schedule_simps [queue_simps]:
  "q_dispatches (snd (set_schedule sid f db)) = q_dispatches db"
  "q_heartbeats (snd (set_schedule sid f db)) = q_heartbeats db"
  "q_definitions (snd (set_schedule sid f db)) = q_definitions db"
  "q_schedules (snd (set_schedule sid f db)) = map (\<lambda>s. if sc_schedule_id s = sid then f s else s) (q_schedules db)"
  "active_count (snd (set_schedule sid f db)) = active_count db"
  by (simp_all add: set_schedule_def update_where_def active_count_def fun_eq_iff)

lemma set_dispatches_simps [queue_simps]:
  "q_schedules (snd (set_dispatches hit g db)) = q_schedules db"
  "q_heartbeats (snd (set_dispatches hit g db)) = q_heartbeats db"
  "q_definitions (snd (set_dispatches hit g db)) = q_definitions db"
  "q_dispatches (snd (set_dispatches hit g db)) = map (\<lambda>d. if hit d then g d else d) (q_dispatches db)"
  "fst (set_dispatches hit g db) = length (filter hit (q_dispatches db))"
  by (simp_all add: set_dispatches_def update_where_def)

lemma set_schedule_inv:
  assumes "queue_inv db" and "\<And>s. sc_schedule_id (f s) = sc_schedule_id s"
  shows "queue_inv (snd (set_schedule sid f db))"
proof -
  have keys: "map sc_schedule_id (q_schedules (snd (set_schedule sid f db))) = map sc_schedule_id (q_schedules db)"
    unfolding queue_simps by (rule map_if_key) (rule assms(2))
  show ?thesis
    using assms(1) unfolding queue_inv_def queue_simps(1,2) set_map [symmetric] keys by simp
qed

lemma set_dispatches_inv:
  assumes "queue_inv db" and "\<And>d. dp_dispatch_id (g d) = dp_dispatch_id d"
    and "\<And>d. dp_schedule_id (g d) = dp_schedule_id d"
  shows "queue_inv (snd (set_dispatches hit g db))"
proof -
  have keys: "map dp_dispatch_id (q_dispatches (snd (set_dispatches hit g db))) = map dp_dispatch_id (q_dispatches db)"
    "map dp_schedule_id (q_dispatches (snd (set_dispatches hit g db))) = map dp_schedule_id (q_dispatches db)"
    unfolding queue_simps by (rule map_if_key, rule assms)+
  show ?thesis
    using assms(1) unfolding queue_inv_def queue_simps(6,7) set_map [symmetric] keys by simp
qed

lemma insert_dispatch_Inr:
  assumes "insert_enqueued_dispatch uid s at detail db = Inr (d, db')"
  shows "d = enqueued_dispatch uid s at detail" "db' = db\<lparr>q_dispatches := q_dispatches db @ [d]\<rparr>"
    "uid \<notin> dp_dispatch_id ` set (q_dispatches db)" "sc_schedule_id s \<in> sc_schedule_id ` set (q_schedules db)"
  using assms by (auto simp: insert_enqueued_dispatch_def Let_def find_dispatch_None find_schedule_None split: if_split_asm)

lemma insert_dispatch_inv:
  assumes "insert_enqueued_dispatch uid s at detail db = Inr (d, db')" and "queue_inv db"
  shows "queue_inv db'"
  using insert_dispatch_Inr [OF assms(1)] assms(2) by (auto simp: queue_inv_def enqueued_dispatch_def)

lemma insert_dispatch_active:
  assumes "insert_enqueued_dispatch uid s at detail db = Inr (d, db')"
  shows "active_count db' sid = active_count db sid + (if sid = sc_schedule_id s then 1 else 0)"
  using insert_dispatch_Inr [OF assms] by (simp add: active_count_def enqueued_dispatch_def active_status_def)

lemma transaction_cases:
  assumes "transaction db r = (x, db')"
  obtains (failed) e where "r = Inl e" "x = Inl e" "db' = db" | (returned) y where "r = Inr (y, db')" "x = Inr y"
  using assms by (auto simp: transaction_def split: sum.split_asm)

section \<open>Enqueueing respects the limits\<close>

text \<open>
  \<open>grown db db'\<close>: from \<open>db\<close> to \<open>db'\<close> dispatches were only added or changed where they were active,
  schedules kept their ids and limits, and no schedule went beyond its limit by it.
\<close>

definition grown :: "queue_db \<Rightarrow> queue_db \<Rightarrow> bool" where
  "grown db db' \<longleftrightarrow> map (\<lambda>s. (sc_schedule_id s, sc_max_concurrency s)) (q_schedules db') =
       map (\<lambda>s. (sc_schedule_id s, sc_max_concurrency s)) (q_schedules db) \<and>
     (\<forall>s\<in>set (q_schedules db). active_count db' (sc_schedule_id s) \<le>
        max (active_count db (sc_schedule_id s)) (sc_max_concurrency s)) \<and>
     (\<forall>d\<in>set (q_dispatches db). \<not> active_status (dp_status d) \<longrightarrow> d \<in> set (q_dispatches db'))"

lemma grown_refl [simp]: "grown db db"
  by (auto simp: grown_def)

lemma grown_limit: "grown db db' \<Longrightarrow> s' \<in> set (q_schedules db') \<Longrightarrow>
    \<exists>s\<in>set (q_schedules db). sc_schedule_id s = sc_schedule_id s' \<and> sc_max_concurrency s = sc_max_concurrency s'"
proof -
  assume g: "grown db db'" and s': "s' \<in> set (q_schedules db')"
  then have "(sc_schedule_id s', sc_max_concurrency s') \<in>
      set (map (\<lambda>s. (sc_schedule_id s, sc_max_concurrency s)) (q_schedules db))"
    unfolding grown_def by (metis (no_types, lifting) image_eqI set_map)
  then show ?thesis by auto
qed

lemma grown_limit': "grown db db' \<Longrightarrow> s \<in> set (q_schedules db) \<Longrightarrow>
    \<exists>s'\<in>set (q_schedules db'). sc_schedule_id s' = sc_schedule_id s \<and> sc_max_concurrency s' = sc_max_concurrency s"
proof -
  assume g: "grown db db'" and s: "s \<in> set (q_schedules db)"
  then have "(sc_schedule_id s, sc_max_concurrency s) \<in>
      set (map (\<lambda>s. (sc_schedule_id s, sc_max_concurrency s)) (q_schedules db'))"
    unfolding grown_def by (metis (no_types, lifting) image_eqI set_map)
  then show ?thesis by auto
qed

lemma grown_trans:
  assumes g: "grown db1 db2" and h: "grown db2 db3"
  shows "grown db1 db3"
  unfolding grown_def
proof (intro conjI ballI impI)
  show "map (\<lambda>s. (sc_schedule_id s, sc_max_concurrency s)) (q_schedules db3) =
      map (\<lambda>s. (sc_schedule_id s, sc_max_concurrency s)) (q_schedules db1)"
    using g h by (simp add: grown_def)
  show "active_count db3 (sc_schedule_id s) \<le> max (active_count db1 (sc_schedule_id s)) (sc_max_concurrency s)"
    if s: "s \<in> set (q_schedules db1)" for s
  proof -
    obtain s' where s': "s' \<in> set (q_schedules db2)" "sc_schedule_id s' = sc_schedule_id s"
      "sc_max_concurrency s' = sc_max_concurrency s"
      using grown_limit' [OF g s] by blast
    have "active_count db3 (sc_schedule_id s) \<le> max (active_count db2 (sc_schedule_id s)) (sc_max_concurrency s)"
      using h s' unfolding grown_def by metis
    moreover have "active_count db2 (sc_schedule_id s) \<le> max (active_count db1 (sc_schedule_id s)) (sc_max_concurrency s)"
      using g s unfolding grown_def by blast
    ultimately show ?thesis by linarith
  qed
  show "d \<in> set (q_dispatches db3)" if "d \<in> set (q_dispatches db1)" "\<not> active_status (dp_status d)" for d
    using g h that unfolding grown_def by blast
qed

lemma grown_set_schedule:
  assumes "\<And>s. sc_schedule_id (f s) = sc_schedule_id s" and "\<And>s. sc_max_concurrency (f s) = sc_max_concurrency s"
  shows "grown db (snd (set_schedule sid f db))"
proof -
  have "map (\<lambda>s. (sc_schedule_id s, sc_max_concurrency s)) (q_schedules (snd (set_schedule sid f db))) =
      map (\<lambda>s. (sc_schedule_id s, sc_max_concurrency s)) (q_schedules db)"
    unfolding queue_simps by (rule map_if_key) (simp add: assms)
  then show ?thesis by (simp add: grown_def queue_simps)
qed

lemma grown_insert:
  assumes "insert_enqueued_dispatch uid s at detail db = Inr (d, db')" and "queue_inv db"
    and "s' \<in> set (q_schedules db)" "sc_schedule_id s' = sc_schedule_id s"
    and "active_count db (sc_schedule_id s) < sc_max_concurrency s'"
  shows "grown db db'"
  unfolding grown_def
proof (intro conjI ballI impI)
  note ins = insert_dispatch_Inr [OF assms(1)]
  show "map (\<lambda>s. (sc_schedule_id s, sc_max_concurrency s)) (q_schedules db') =
      map (\<lambda>s. (sc_schedule_id s, sc_max_concurrency s)) (q_schedules db)"
    using ins by simp
  show "active_count db' (sc_schedule_id r) \<le> max (active_count db (sc_schedule_id r)) (sc_max_concurrency r)"
    if "r \<in> set (q_schedules db)" for r
  proof (cases "sc_schedule_id r = sc_schedule_id s")
    case True
    with that assms(2-4) have "r = s'"
      using find_schedule_iff [OF assms(2)] by (metis option.inject)
    with assms(5) True show ?thesis by (simp add: insert_dispatch_active [OF assms(1)])
  next
    case False
    then show ?thesis by (simp add: insert_dispatch_active [OF assms(1)])
  qed
  show "e \<in> set (q_dispatches db')" if "e \<in> set (q_dispatches db)" for e
    using ins that by simp
qed

lemma enqueue_row_step:
  assumes "enqueue_row tz uid as_of s db = Inr (d, db')" and "queue_inv db"
    and "s' \<in> set (q_schedules db)" "sc_schedule_id s' = sc_schedule_id s"
    and "active_count db (sc_schedule_id s) < sc_max_concurrency s'"
  shows "queue_inv db' \<and> grown db db'"
proof -
  obtain db1 due where i: "insert_enqueued_dispatch uid s as_of None db = Inr (d, db1)"
    and db': "db' = snd (set_schedule (sc_schedule_id s)
      (\<lambda>r. r\<lparr>sc_last_enqueued_at := Some as_of, sc_next_due_at := Some due\<rparr>) db1)"
    using assms(1) by (cases "next_cron_occurrence tz (sc_cron_expression s) (sc_timezone s) as_of")
      (auto simp: enqueue_row_def and_then_Inr_iff)
  have "queue_inv db'"
    unfolding db' by (rule set_schedule_inv [OF insert_dispatch_inv [OF i assms(2)]]) simp
  moreover have "grown db1 db'"
    unfolding db' by (rule grown_set_schedule) simp_all
  ultimately show ?thesis
    using grown_trans [OF grown_insert [OF i assms(2-5)]] by blast
qed

lemma enqueue_rows_step:
  assumes "enqueue_rows tz uids as_of limit rows ds db = Inr (es, db')" and "queue_inv db"
    and "\<forall>s\<in>set rows. \<exists>s'\<in>set (q_schedules db). sc_schedule_id s' = sc_schedule_id s \<and> sc_max_concurrency s' = sc_max_concurrency s"
  shows "queue_inv db' \<and> grown db db'"
  using assms
proof (induction rows arbitrary: ds db)
  case Nil
  then show ?case by simp
next
  case (Cons s rows)
  obtain s' where s': "s' \<in> set (q_schedules db)" "sc_schedule_id s' = sc_schedule_id s"
    "sc_max_concurrency s' = sc_max_concurrency s"
    using Cons.prems(3) by auto
  consider (stop) "limit_reached limit (length ds)"
    | (full) "\<not> limit_reached limit (length ds)" "active_count db (sc_schedule_id s) \<ge> sc_max_concurrency s"
    | (go) "\<not> limit_reached limit (length ds)" "active_count db (sc_schedule_id s) < sc_max_concurrency s"
    by linarith
  then show ?case
  proof cases
    case stop
    with Cons.prems show ?thesis by simp
  next
    case full
    with Cons.prems(1) have "enqueue_rows tz uids as_of limit rows ds db = Inr (es, db')" by simp
    with Cons.IH Cons.prems(2,3) show ?thesis by simp
  next
    case go
    with Cons.prems(1) have "and_then (enqueue_row tz (uids (length ds)) as_of s db) (\<lambda>(d, db1).
        enqueue_rows tz uids as_of limit rows (ds @ [d]) db1) = Inr (es, db')"
      by (simp add: not_le)
    then obtain d db1 where d: "enqueue_row tz (uids (length ds)) as_of s db = Inr (d, db1)"
      "enqueue_rows tz uids as_of limit rows (ds @ [d]) db1 = Inr (es, db')"
      by (auto simp: and_then_Inr_iff)
    have step: "queue_inv db1 \<and> grown db db1"
      using enqueue_row_step [OF d(1) Cons.prems(2) s'(1,2)] go(2) s'(3) by simp
    have "\<forall>s\<in>set rows. \<exists>s'\<in>set (q_schedules db1). sc_schedule_id s' = sc_schedule_id s \<and> sc_max_concurrency s' = sc_max_concurrency s"
    proof
      fix r assume "r \<in> set rows"
      then obtain r' where r': "r' \<in> set (q_schedules db)" "sc_schedule_id r' = sc_schedule_id r"
        "sc_max_concurrency r' = sc_max_concurrency r"
        using Cons.prems(3) by auto
      from grown_limit' [OF conjunct2 [OF step] r'(1)] r'(2,3)
      show "\<exists>s'\<in>set (q_schedules db1). sc_schedule_id s' = sc_schedule_id r \<and> sc_max_concurrency s' = sc_max_concurrency r"
        by auto
    qed
    from Cons.IH [OF d(2) _ this] step grown_trans show ?thesis by blast
  qed
qed

lemma set_due_schedules: "set (due_schedules db as_of) \<subseteq> set (q_schedules db)"
  by (auto simp: due_schedules_def)

section \<open>Calls of several steps\<close>

definition steady :: "(nat \<Rightarrow> queue_db \<Rightarrow> queue_db) \<Rightarrow> bool" where
  \<comment> \<open>what other workers do between the steps of a call keeps the invariant\<close>
  "steady gap \<longleftrightarrow> (\<forall>i db. queue_inv db \<longrightarrow> queue_inv (gap i db))"

lemma steady_gap: "steady gap \<Longrightarrow> queue_inv db \<Longrightarrow> queue_inv (gap i db)"
  by (simp add: steady_def)

definition undisturbed :: "(nat \<Rightarrow> queue_db \<Rightarrow> queue_db) \<Rightarrow> bool" where
  \<comment> \<open>no other worker writes between the steps of a call\<close>
  "undisturbed gap \<longleftrightarrow> (\<forall>i db. gap i db = db)"

lemma undisturbed_gap [simp]: "undisturbed gap \<Longrightarrow> gap i db = db"
  by (simp add: undisturbed_def)

lemma enqueue_row_inv:
  assumes "enqueue_row tz uid as_of s db = Inr (d, db')" and "queue_inv db"
  shows "queue_inv db'"
proof -
  obtain db1 due where i: "insert_enqueued_dispatch uid s as_of None db = Inr (d, db1)"
    and db': "db' = snd (set_schedule (sc_schedule_id s)
      (\<lambda>r. r\<lparr>sc_last_enqueued_at := Some as_of, sc_next_due_at := Some due\<rparr>) db1)"
    using assms(1) by (cases "next_cron_occurrence tz (sc_cron_expression s) (sc_timezone s) as_of")
      (auto simp: enqueue_row_def and_then_Inr_iff)
  show ?thesis
    unfolding db' by (rule set_schedule_inv [OF insert_dispatch_inv [OF i assms(2)]]) simp
qed

lemma enqueue_rows_inv: "enqueue_rows tz uids as_of limit rows ds db = Inr (es, db') \<Longrightarrow> queue_inv db \<Longrightarrow> queue_inv db'"
  by (induction rows arbitrary: ds db) (auto simp: and_then_Inr_iff dest: enqueue_row_inv split: if_split_asm)

lemma transaction_keeps: "P db \<Longrightarrow> (\<And>x db'. r = Inr (x, db') \<Longrightarrow> P db') \<Longrightarrow> P (snd (transaction db r))"
  by (auto simp: transaction_def split: sum.split)

lemmas transaction_inv = transaction_keeps [where P = queue_inv]

lemma enqueue_search_inv:
  assumes "steady gap"
  shows "queue_inv db \<Longrightarrow> queue_inv (snd (enqueue_search tz uids as_of limit gap n rows db))"
proof (induction rows arbitrary: n db)
  case (Cons s rows)
  let ?db1 = "gap n db" and ?db2 = "gap (Suc n) (gap n db)"
  have i: "queue_inv ?db1" "queue_inv ?db2" using Cons.prems by (simp_all add: steady_gap [OF assms])
  have "queue_inv (snd (transaction ?db2 (and_then (enqueue_row tz (uids 0) as_of s ?db2)
      (\<lambda>(d, db3). enqueue_rows tz uids as_of limit rows [d] db3))))"
  proof (rule transaction_inv [OF i(2)])
    fix es db'
    assume "and_then (enqueue_row tz (uids 0) as_of s ?db2) (\<lambda>(d, db3). enqueue_rows tz uids as_of limit rows [d] db3) = Inr (es, db')"
    then obtain d db3 where "enqueue_row tz (uids 0) as_of s ?db2 = Inr (d, db3)" "enqueue_rows tz uids as_of limit rows [d] db3 = Inr (es, db')"
      by (auto simp: and_then_Inr_iff)
    with i(2) show "queue_inv db'" by (metis enqueue_row_inv enqueue_rows_inv)
  qed
  with Cons.IH [OF i(1)] Cons.prems show ?case by (simp add: Let_def)
qed simp

lemma enqueue_due_inv: "steady gap \<Longrightarrow> queue_inv db \<Longrightarrow> queue_inv (snd (enqueue_due_execution_schedules tz uids as_of limit gap db))"
  by (simp add: enqueue_due_execution_schedules_def Let_def enqueue_search_inv steady_gap)

lemma enqueue_search_undisturbed:
  "undisturbed gap \<Longrightarrow> enqueue_search tz uids as_of limit gap n rows db = transaction db (enqueue_rows tz uids as_of limit rows [] db)"
  by (induction rows arbitrary: n) (simp_all add: Let_def transaction_def)

lemma enqueue_due_undisturbed:
  "undisturbed gap \<Longrightarrow> enqueue_due_execution_schedules tz uids as_of limit gap db =
     transaction db (enqueue_rows tz uids as_of limit (due_schedules db as_of) [] db)"
  by (simp add: enqueue_due_execution_schedules_def enqueue_search_undisturbed)

lemma enqueue_due_step:
  assumes "queue_inv db" and "undisturbed gap"
  shows "grown db (snd (enqueue_due_execution_schedules tz uids as_of limit gap db))"
  unfolding enqueue_due_undisturbed [OF assms(2)]
proof (rule transaction_keeps)
  fix es db' assume r: "enqueue_rows tz uids as_of limit (due_schedules db as_of) [] db = Inr (es, db')"
  have "\<forall>s\<in>set (due_schedules db as_of). \<exists>s'\<in>set (q_schedules db).
      sc_schedule_id s' = sc_schedule_id s \<and> sc_max_concurrency s' = sc_max_concurrency s"
    using set_due_schedules by blast
  from enqueue_rows_step [OF r assms(1) this] show "grown db db'" by simp
qed simp

lemma created_inv:
  assumes "queue_inv db" and "and_then (insert_enqueued_dispatch uid s at None db) (\<lambda>(d, db3).
      Inr (d, snd (set_schedule sid (\<lambda>r. r\<lparr>sc_last_enqueued_at := Some at\<rparr>) db3))) = Inr (y, db')"
  shows "queue_inv db'"
proof -
  obtain db3 where i: "insert_enqueued_dispatch uid s at None db = Inr (y, db3)"
    and db': "db' = snd (set_schedule sid (\<lambda>r. r\<lparr>sc_last_enqueued_at := Some at\<rparr>) db3)"
    using assms(2) by (auto simp: and_then_Inr_iff)
  show ?thesis unfolding db' by (rule set_schedule_inv [OF insert_dispatch_inv [OF i assms(1)]]) simp
qed

lemma create_dispatch_inv:
  assumes "steady gap" and "queue_inv db"
  shows "queue_inv (snd (create_schedule_dispatch uid at gap db sid))"
proof -
  have i: "queue_inv (gap 0 db)" "queue_inv (gap 1 (gap 0 db))" "queue_inv (gap 2 (gap 1 (gap 0 db)))"
    using assms by (simp_all add: steady_gap)
  have "queue_inv (snd (transaction (gap 2 (gap 1 (gap 0 db))) (and_then (insert_enqueued_dispatch uid s at None (gap 2 (gap 1 (gap 0 db))))
      (\<lambda>(d, db3). Inr (d, snd (set_schedule sid (\<lambda>r. r\<lparr>sc_last_enqueued_at := Some at\<rparr>) db3))))))" for s
    using i(3) by (intro transaction_inv) (rule i(3), erule created_inv [OF i(3)])
  with i show ?thesis by (simp add: create_schedule_dispatch_def Let_def split: option.split)
qed

lemma create_dispatch_step:
  assumes "queue_inv db" and "undisturbed gap"
  shows "grown db (snd (create_schedule_dispatch uid at gap db sid))"
proof (cases "find_schedule db sid")
  case None
  with assms(2) show ?thesis by (simp add: create_schedule_dispatch_def)
next
  case (Some s)
  note m = Some [unfolded find_schedule_iff [OF assms(1)]]
  let ?r = "and_then (insert_enqueued_dispatch uid s at None db) (\<lambda>(d, db3).
      Inr (d, snd (set_schedule sid (\<lambda>r. r\<lparr>sc_last_enqueued_at := Some at\<rparr>) db3)))"
  have "grown db (snd (transaction db ?r))" if room: "active_count db sid < sc_max_concurrency s"
  proof (rule transaction_keeps)
    fix y db' assume "?r = Inr (y, db')"
    then obtain db3 where i: "insert_enqueued_dispatch uid s at None db = Inr (y, db3)"
      and db': "db' = snd (set_schedule sid (\<lambda>r. r\<lparr>sc_last_enqueued_at := Some at\<rparr>) db3)"
      by (auto simp: and_then_Inr_iff)
    have "grown db db3" by (rule grown_insert [OF i assms(1)]) (use m room in auto)
    moreover have "grown db3 db'" unfolding db' by (rule grown_set_schedule) simp_all
    ultimately show "grown db db'" by (rule grown_trans)
  qed simp
  with Some assms(2) show ?thesis by (simp add: create_schedule_dispatch_def Let_def)
qed

end
