(* ===== verification/DispatchLeases.thy ===== *)
theory DispatchLeases
  imports DispatchSafety
begin

text \<open>
  Claims hand out the oldest enqueued dispatches one by one, and recovery fails every expired claim
  and re-enqueues within the limits.
\<close>

section \<open>Claims\<close>

lemma claimed_row_simps [simp]:
  "dp_dispatch_id (claimed_row w at x detail e d) = dp_dispatch_id d"
  "dp_schedule_id (claimed_row w at x detail e d) = dp_schedule_id d"
  "dp_status (claimed_row w at x detail e d) = ''running''"
  "dp_claimed_by (claimed_row w at x detail e d) = Some w"
  "dp_claim_expires_at (claimed_row w at x detail e d) = Some x"
  by (simp_all add: claimed_row_def)

definition enqueued_order :: "queue_db \<Rightarrow> dispatch list" where
  "enqueued_order db = sort_key dp_enqueued_at (sort_key dp_dispatch_id
     (filter (\<lambda>d. dp_status d = ''enqueued'') (q_dispatches db)))"

lemma enqueued_order_mem: "d \<in> set (enqueued_order db) \<longleftrightarrow> d \<in> set (q_dispatches db) \<and> dp_status d = ''enqueued''"
  by (auto simp: enqueued_order_def)

lemma enqueued_order_distinct:
  assumes "queue_inv db"
  shows "distinct (map dp_dispatch_id (enqueued_order db))"
proof -
  have "distinct (map dp_dispatch_id (filter (\<lambda>d. dp_status d = ''enqueued'') (q_dispatches db)))"
    using assms by (simp add: queue_inv_def distinct_map_filter)
  then show ?thesis by (simp add: enqueued_order_def distinct_map)
qed

lemma claim_enqueued_inv:
  "queue_inv db \<Longrightarrow> queue_inv (snd (claim_enqueued_dispatch w at x detail e db))"
  unfolding claim_enqueued_dispatch_def by (rule set_dispatches_inv) simp_all

lemma filter_claimed:
  "filter (\<lambda>d. dp_status d = ''enqueued'')
     (map (\<lambda>d. if dp_dispatch_id d = i \<and> dp_status d = ''enqueued'' then claimed_row w at x detail e d else d) ds) =
   filter (\<lambda>d. dp_dispatch_id d \<noteq> i) (filter (\<lambda>d. dp_status d = ''enqueued'') ds)"
  by (induction ds) auto

lemma claim_enqueued_order:
  "enqueued_order (snd (claim_enqueued_dispatch w at x detail e db)) =
    filter (\<lambda>d. dp_dispatch_id d \<noteq> dp_dispatch_id e) (enqueued_order db)"
  by (simp add: enqueued_order_def claim_enqueued_dispatch_def queue_simps filter_claimed filter_sort)

lemma claim_next_step:
  assumes "queue_inv db" and "enqueued_order db = d # ds"
  shows "\<exists>db'. claim_next_schedule_dispatch (\<lambda>_ x. x) db w at ls detail =
      (Inr (Some (claimed_row w at (lease_end at ls) detail d d)), db') \<and>
    queue_inv db' \<and> enqueued_order db' = ds"
proof -
  define db1 where "db1 = snd (claim_enqueued_dispatch w at (lease_end at ls) detail d db)"
  have d: "d \<in> set (q_dispatches db)" "dp_status d = ''enqueued''"
    using enqueued_order_mem [of d db] assms(2) by auto
  have "fst (claim_enqueued_dispatch w at (lease_end at ls) detail d db) \<noteq> 0"
    using d by (auto simp: claim_enqueued_dispatch_def queue_simps filter_empty_conv)
  then have claim: "claim_next_in_session w at ls detail db = (Some (dp_dispatch_id d), db1)"
    using assms(2) by (cases "claim_enqueued_dispatch w at (lease_end at ls) detail d db")
      (simp add: claim_next_in_session_def next_enqueued_def enqueued_order_def [symmetric] db1_def)
  have inv1: "queue_inv db1"
    unfolding db1_def by (rule claim_enqueued_inv) (rule assms(1))
  have "claimed_row w at (lease_end at ls) detail d d \<in> set (q_dispatches db1)"
    using d by (force simp: db1_def claim_enqueued_dispatch_def queue_simps)
  then have "find_dispatch db1 (dp_dispatch_id d) = Some (claimed_row w at (lease_end at ls) detail d d)"
    by (simp add: find_dispatch_iff [OF inv1])
  moreover have "enqueued_order db1 = ds"
  proof -
    have "dp_dispatch_id d \<notin> dp_dispatch_id ` set ds"
      using enqueued_order_distinct [OF assms(1)] assms(2) by simp
    then have "filter (\<lambda>e. dp_dispatch_id e \<noteq> dp_dispatch_id d) ds = ds"
      by (intro filter_True) (metis image_eqI)
    then show ?thesis by (simp add: db1_def claim_enqueued_order assms(2))
  qed
  ultimately show ?thesis
    using claim inv1 by (simp add: claim_next_schedule_dispatch_def get_schedule_dispatch_def)
qed

lemma claim_next_none:
  assumes "enqueued_order db = []"
  shows "claim_next_schedule_dispatch (\<lambda>_ x. x) db w at ls detail = (Inr None, db)"
  using assms by (simp add: claim_next_schedule_dispatch_def claim_next_in_session_def next_enqueued_def
      enqueued_order_def [symmetric])

type_synonym claim_request = "string \<times> int \<times> int \<times> string option"

fun claim_run :: "claim_request list \<Rightarrow> queue_db \<Rightarrow> (queue_error + dispatch option) list" where
  \<comment> \<open>one claim after another, each by its worker\<close>
  "claim_run [] db = []"
| "claim_run ((w, at, ls, detail) # rs) db =
     (let (r, db') = claim_next_schedule_dispatch (\<lambda>_ x. x) db w at ls detail in r # claim_run rs db')"

definition handed_out :: "claim_request \<Rightarrow> dispatch \<Rightarrow> dispatch" where
  "handed_out r d = (case r of (w, at, ls, detail) \<Rightarrow> claimed_row w at (lease_end at ls) detail d d)"

lemma claim_run_spec:
  assumes "queue_inv db"
  shows "claim_run rs db = map (\<lambda>(r, d). Inr (Some (handed_out r d))) (zip rs (enqueued_order db)) @
    replicate (length rs - length (enqueued_order db)) (Inr None)"
  using assms
proof (induction rs db rule: claim_run.induct)
  case (1 db)
  then show ?case by simp
next
  case (2 w at ls detail rs db)
  show ?case
  proof (cases "enqueued_order db")
    case Nil
    with 2 show ?thesis by (simp add: claim_next_none)
  next
    case (Cons d ds)
    from claim_next_step [OF "2.prems" Cons] obtain db' where
      c: "claim_next_schedule_dispatch (\<lambda>_ x. x) db w at ls detail =
        (Inr (Some (claimed_row w at (lease_end at ls) detail d d)), db')"
      and db': "queue_inv db'" "enqueued_order db' = ds" by blast
    from "2.IH" [OF c [symmetric] refl db'(1)] c Cons db'(2) show ?thesis
      by (simp add: handed_out_def)
  qed
qed

section \<open>Recovery\<close>

lemma failed_row_simps [simp]:
  "dp_dispatch_id (failed_row t r x d) = dp_dispatch_id d"
  "dp_schedule_id (failed_row t r x d) = dp_schedule_id d"
  "dp_status (failed_row t r x d) = ''failed''"
  "\<not> expired t' (failed_row t r x d)"
  by (simp_all add: failed_row_def expired_def)

definition recovered_row :: "int \<Rightarrow> string option \<Rightarrow> dispatch \<Rightarrow> dispatch" where
  "recovered_row as_of who d = failed_row as_of (stale_failure_reason d as_of who) (stale_worker_detail d as_of who) d"

lemma recovered_row_simps [simp]:
  "dp_dispatch_id (recovered_row t who d) = dp_dispatch_id d"
  "dp_schedule_id (recovered_row t who d) = dp_schedule_id d"
  "dp_status (recovered_row t who d) = ''failed''"
  "\<not> expired t' (recovered_row t who d)"
  by (simp_all add: recovered_row_def)

definition fail_db :: "int \<Rightarrow> string option \<Rightarrow> dispatch \<Rightarrow> queue_db \<Rightarrow> queue_db" where
  "fail_db as_of who e db = snd (set_dispatches (\<lambda>d. dp_dispatch_id d = dp_dispatch_id e \<and> expired as_of d)
     (failed_row as_of (stale_failure_reason e as_of who) (stale_worker_detail e as_of who)) db)"

lemma fail_db_inv: "queue_inv db \<Longrightarrow> queue_inv (fail_db as_of who e db)"
  unfolding fail_db_def by (rule set_dispatches_inv) simp_all

lemma fail_db_rows:
  assumes "queue_inv db" and "e \<in> set (q_dispatches db)" and "expired as_of e"
  shows "set (q_dispatches (fail_db as_of who e db)) =
    insert (recovered_row as_of who e) {d \<in> set (q_dispatches db). dp_dispatch_id d \<noteq> dp_dispatch_id e}"
proof -
  have "d = e" if "d \<in> set (q_dispatches db)" "dp_dispatch_id d = dp_dispatch_id e" for d
    using that find_dispatch_iff [OF assms(1)] assms(2) by (metis option.inject)
  then show ?thesis
    using assms(2,3) by (auto simp: fail_db_def queue_simps recovered_row_def image_iff)
qed

lemma fail_db_active: "active_count (fail_db as_of who e db) sid \<le> active_count db sid"
proof -
  have "length (filter (\<lambda>d. dp_schedule_id d = sid \<and> active_status (dp_status d))
      (map (\<lambda>d. if dp_dispatch_id d = i \<and> expired as_of d then failed_row as_of r x d else d) ds)) \<le>
      length (filter (\<lambda>d. dp_schedule_id d = sid \<and> active_status (dp_status d)) ds)" for i r x ds
    by (induction ds) (auto simp: active_status_def)
  then show ?thesis by (simp add: active_count_def fail_db_def queue_simps)
qed

lemma expired_active: "expired as_of d \<Longrightarrow> active_status (dp_status d)"
  by (simp add: expired_def active_status_def)

lemma fail_db_grown:
  assumes "queue_inv db" and "e \<in> set (q_dispatches db)" and "expired as_of e"
  shows "grown db (fail_db as_of who e db)"
proof -
  have "d \<in> set (q_dispatches (fail_db as_of who e db))"
    if "d \<in> set (q_dispatches db)" "\<not> active_status (dp_status d)" for d
  proof -
    have "dp_dispatch_id d \<noteq> dp_dispatch_id e"
      using that assms expired_active [OF assms(3)] find_dispatch_iff [OF assms(1)] by (metis option.inject)
    with that(1) show ?thesis by (simp add: fail_db_rows [OF assms])
  qed
  moreover have "active_count (fail_db as_of who e db) sid \<le> max (active_count db sid) n" for sid n
    using fail_db_active [of as_of who e db sid] by simp
  ultimately show ?thesis by (simp add: grown_def fail_db_def queue_simps)
qed

lemma replace_dispatch_step:
  assumes "replace_dispatch uid as_of who e db = Inr (rep, db')" and "queue_inv db"
  shows "queue_inv db' \<and> grown db db' \<and> set (q_dispatches db) \<subseteq> set (q_dispatches db') \<and>
    (\<forall>x\<in>set (q_dispatches db'). x \<in> set (q_dispatches db) \<or>
       rep = Some x \<and> dp_status x = ''enqueued'' \<and> dp_dispatch_id x \<notin> dp_dispatch_id ` set (q_dispatches db))"
proof (cases "find_schedule db (dp_schedule_id e)")
  case None
  with assms show ?thesis by (simp add: replace_dispatch_def)
next
  case (Some s)
  show ?thesis
  proof (cases "has_room db s")
    case False
    with Some assms show ?thesis by (simp add: replace_dispatch_def)
  next
    case True
    with Some assms(1) obtain d db1 where
      i: "insert_enqueued_dispatch uid s as_of (Some (requeued_worker_detail e as_of who)) db = Inr (d, db1)"
      and db': "db' = snd (set_schedule (dp_schedule_id e) (\<lambda>r. r\<lparr>sc_last_enqueued_at := Some as_of\<rparr>) db1)"
      and rep: "rep = Some d"
      by (auto simp: replace_dispatch_def and_then_Inr_iff)
    have s: "s \<in> set (q_schedules db)" using Some find_schedule_iff [OF assms(2)] by simp
    have "queue_inv db'"
      unfolding db' by (rule set_schedule_inv [OF insert_dispatch_inv [OF i assms(2)]]) simp
    moreover have "grown db db1"
      using True by (intro grown_insert [OF i assms(2) s refl]) (simp add: has_room_def)
    moreover have "grown db1 db'" unfolding db' by (rule grown_set_schedule) simp_all
    moreover have "q_dispatches db' = q_dispatches db @ [d]"
      using insert_dispatch_Inr(2) [OF i] by (simp add: db' queue_simps)
    moreover have "dp_status d = ''enqueued''" "dp_dispatch_id d \<notin> dp_dispatch_id ` set (q_dispatches db)"
      using insert_dispatch_Inr(1,3) [OF i] by (simp_all add: enqueued_dispatch_def)
    ultimately show ?thesis using rep grown_trans by auto
  qed
qed

lemma recover_row_step:
  assumes "recover_row uid as_of who e db = Inr (r, db')" and inv: "queue_inv db"
    and e: "e \<in> set (q_dispatches db)" "expired as_of e"
  obtains rep where "r = Some \<lparr>rc_stale_dispatch = recovered_row as_of who e, rc_replacement_dispatch = rep,
      rc_recovered_at = as_of, rc_recovered_by = who\<rparr>"
    "queue_inv db'" "grown db db'" "recovered_row as_of who e \<in> set (q_dispatches db')"
    "\<forall>d\<in>set (q_dispatches db). dp_dispatch_id d \<noteq> dp_dispatch_id e \<longrightarrow> d \<in> set (q_dispatches db')"
    "\<forall>x\<in>set (q_dispatches db'). x = recovered_row as_of who e \<or>
      x \<in> set (q_dispatches db) \<and> dp_dispatch_id x \<noteq> dp_dispatch_id e \<or>
      dp_status x = ''enqueued'' \<and> dp_dispatch_id x \<notin> dp_dispatch_id ` set (q_dispatches db)"
proof -
  let ?set = "set_dispatches (\<lambda>d. dp_dispatch_id d = dp_dispatch_id e \<and> expired as_of d)
      (failed_row as_of (stale_failure_reason e as_of who) (stale_worker_detail e as_of who)) db"
  have hit: "fst ?set \<noteq> 0"
    using e by (auto simp: queue_simps filter_empty_conv)
  have "and_then (replace_dispatch uid as_of who e (snd ?set)) (\<lambda>(replacement, db2).
      Inr (Some \<lparr>rc_stale_dispatch = recovered_row as_of who e, rc_replacement_dispatch = replacement,
        rc_recovered_at = as_of, rc_recovered_by = who\<rparr>, db2)) = Inr (r, db')"
    using assms(1) unfolding recover_row_def Let_def case_prod_beta recovered_row_def if_not_P [OF hit] .
  then obtain rep where rep: "replace_dispatch uid as_of who e (fail_db as_of who e db) = Inr (rep, db')"
    and r: "r = Some \<lparr>rc_stale_dispatch = recovered_row as_of who e, rc_replacement_dispatch = rep,
      rc_recovered_at = as_of, rc_recovered_by = who\<rparr>"
    by (auto simp: fail_db_def and_then_Inr_iff)
  note rows = fail_db_rows [OF inv e, of who]
  note step = replace_dispatch_step [OF rep fail_db_inv [OF inv]]
  have ids: "dp_dispatch_id ` set (q_dispatches (fail_db as_of who e db)) = dp_dispatch_id ` set (q_dispatches db)"
    using e(1) by (auto simp: rows)
  show thesis
  proof (rule that [OF r])
    show "queue_inv db'" "grown db db'"
      using step grown_trans [OF fail_db_grown [OF inv e]] by blast+
    show "recovered_row as_of who e \<in> set (q_dispatches db')"
      "\<forall>d\<in>set (q_dispatches db). dp_dispatch_id d \<noteq> dp_dispatch_id e \<longrightarrow> d \<in> set (q_dispatches db')"
      using step unfolding rows by auto
    show "\<forall>x\<in>set (q_dispatches db'). x = recovered_row as_of who e \<or>
      x \<in> set (q_dispatches db) \<and> dp_dispatch_id x \<noteq> dp_dispatch_id e \<or>
      dp_status x = ''enqueued'' \<and> dp_dispatch_id x \<notin> dp_dispatch_id ` set (q_dispatches db)"
      using step unfolding ids rows by auto
  qed
qed

lemma recover_rows_step:
  assumes "recover_rows uids as_of who rows rs db = Inr (rs', db')" and "queue_inv db"
    and "\<forall>d\<in>set rows. d \<in> set (q_dispatches db) \<and> expired as_of d" and "distinct (map dp_dispatch_id rows)"
  shows "queue_inv db' \<and> grown db db' \<and>
    map rc_stale_dispatch rs' = map rc_stale_dispatch rs @ map (recovered_row as_of who) rows \<and>
    recovered_row as_of who ` set rows \<subseteq> set (q_dispatches db') \<and>
    (\<forall>d\<in>set (q_dispatches db). dp_dispatch_id d \<notin> dp_dispatch_id ` set rows \<longrightarrow> d \<in> set (q_dispatches db')) \<and>
    (\<forall>x\<in>set (q_dispatches db'). x \<in> recovered_row as_of who ` set rows \<or>
       x \<in> set (q_dispatches db) \<and> dp_dispatch_id x \<notin> dp_dispatch_id ` set rows \<or> dp_status x = ''enqueued'')"
  using assms
proof (induction rows arbitrary: rs db)
  case Nil
  then show ?case by auto
next
  case (Cons e rows)
  obtain r db1 where r: "recover_row (uids (length rs)) as_of who e db = Inr (r, db1)"
    "recover_rows uids as_of who rows (rs @ (case r of None \<Rightarrow> [] | Some x \<Rightarrow> [x])) db1 = Inr (rs', db')"
    using Cons.prems(1) by (auto simp: and_then_Inr_iff)
  have e: "e \<in> set (q_dispatches db)" "expired as_of e" using Cons.prems(3) by simp_all
  obtain rep where s: "r = Some \<lparr>rc_stale_dispatch = recovered_row as_of who e, rc_replacement_dispatch = rep,
      rc_recovered_at = as_of, rc_recovered_by = who\<rparr>"
    "queue_inv db1" "grown db db1" "recovered_row as_of who e \<in> set (q_dispatches db1)"
    "\<forall>d\<in>set (q_dispatches db). dp_dispatch_id d \<noteq> dp_dispatch_id e \<longrightarrow> d \<in> set (q_dispatches db1)"
    "\<forall>x\<in>set (q_dispatches db1). x = recovered_row as_of who e \<or>
      x \<in> set (q_dispatches db) \<and> dp_dispatch_id x \<noteq> dp_dispatch_id e \<or>
      dp_status x = ''enqueued'' \<and> dp_dispatch_id x \<notin> dp_dispatch_id ` set (q_dispatches db)"
    by (rule recover_row_step [OF r(1) Cons.prems(2) e])
  have new: "dp_dispatch_id e \<notin> dp_dispatch_id ` set rows" using Cons.prems(4) by simp
  have "\<forall>d\<in>set rows. d \<in> set (q_dispatches db1) \<and> expired as_of d"
    using s(5) Cons.prems(3) new by (metis image_eqI list.set_intros(2))
  with Cons.IH [OF r(2) s(2)] Cons.prems(4) have ih: "queue_inv db'" "grown db1 db'"
    "map rc_stale_dispatch rs' = map rc_stale_dispatch (rs @ (case r of None \<Rightarrow> [] | Some x \<Rightarrow> [x])) @
      map (recovered_row as_of who) rows"
    "recovered_row as_of who ` set rows \<subseteq> set (q_dispatches db')"
    "\<forall>d\<in>set (q_dispatches db1). dp_dispatch_id d \<notin> dp_dispatch_id ` set rows \<longrightarrow> d \<in> set (q_dispatches db')"
    "\<forall>x\<in>set (q_dispatches db'). x \<in> recovered_row as_of who ` set rows \<or>
       x \<in> set (q_dispatches db1) \<and> dp_dispatch_id x \<notin> dp_dispatch_id ` set rows \<or> dp_status x = ''enqueued''"
    by simp_all
  have "recovered_row as_of who e \<in> set (q_dispatches db')"
    using ih(5) s(4) new by auto
  moreover have "\<forall>x\<in>set (q_dispatches db'). x \<in> recovered_row as_of who ` set (e # rows) \<or>
       x \<in> set (q_dispatches db) \<and> dp_dispatch_id x \<notin> dp_dispatch_id ` set (e # rows) \<or> dp_status x = ''enqueued''"
  proof
    fix x assume "x \<in> set (q_dispatches db')"
    with ih(6) s(6) show "x \<in> recovered_row as_of who ` set (e # rows) \<or>
       x \<in> set (q_dispatches db) \<and> dp_dispatch_id x \<notin> dp_dispatch_id ` set (e # rows) \<or> dp_status x = ''enqueued''"
      by auto
  qed
  ultimately show ?case
    using ih(1-5) s(1,5) grown_trans [OF s(3) ih(2)] by simp
qed

lemma expired_dispatches_rows:
  assumes "queue_inv db"
  shows "\<forall>d\<in>set (expired_dispatches db as_of limit). d \<in> set (q_dispatches db) \<and> expired as_of d"
    and "distinct (map dp_dispatch_id (expired_dispatches db as_of limit))"
    and "set (expired_dispatches db as_of None) = {d \<in> set (q_dispatches db). expired as_of d}"
proof -
  define rows where "rows = sort_key (\<lambda>d. the (dp_claim_expires_at d)) (sort_key dp_dispatch_id
    (filter (expired as_of) (q_dispatches db)))"
  have eq: "expired_dispatches db as_of limit = (case limit of None \<Rightarrow> rows | Some n \<Rightarrow> if n < 0 then rows else take (nat n) rows)"
    for limit by (simp add: expired_dispatches_def Let_def rows_def [symmetric])
  have all: "set rows = {d \<in> set (q_dispatches db). expired as_of d}" by (auto simp: rows_def)
  have "distinct (map dp_dispatch_id (filter (expired as_of) (q_dispatches db)))"
    using assms by (simp add: queue_inv_def distinct_map_filter)
  then have dist: "distinct (map dp_dispatch_id rows)" by (simp add: rows_def distinct_map)
  show "\<forall>d\<in>set (expired_dispatches db as_of limit). d \<in> set (q_dispatches db) \<and> expired as_of d"
    using all by (auto simp: eq split: option.splits if_splits dest!: in_set_takeD)
  show "distinct (map dp_dispatch_id (expired_dispatches db as_of limit))"
    using dist by (auto simp: eq take_map [symmetric] split: option.splits)
  show "set (expired_dispatches db as_of None) = {d \<in> set (q_dispatches db). expired as_of d}"
    by (simp add: eq all)
qed

lemma expired_dispatches_first:
  assumes "queue_inv db"
  shows "card (set (expired_dispatches db as_of limit)) = (let n = card {d \<in> set (q_dispatches db). expired as_of d} in
      case limit of None \<Rightarrow> n | Some k \<Rightarrow> if k < 0 then n else min (nat k) n)"
    and "d \<in> set (expired_dispatches db as_of limit) \<Longrightarrow> e \<in> set (q_dispatches db) \<Longrightarrow> expired as_of e \<Longrightarrow>
      e \<notin> set (expired_dispatches db as_of limit) \<Longrightarrow> the (dp_claim_expires_at d) \<le> the (dp_claim_expires_at e)"
proof -
  define rows where "rows = expired_dispatches db as_of None"
  have eq: "expired_dispatches db as_of limit = (case limit of None \<Rightarrow> rows | Some n \<Rightarrow> if n < 0 then rows else take (nat n) rows)"
    by (simp add: expired_dispatches_def Let_def rows_def split: option.split)
  have all: "set rows = {d \<in> set (q_dispatches db). expired as_of d}"
    unfolding rows_def by (rule expired_dispatches_rows(3) [OF assms])
  have dist: "distinct rows" using expired_dispatches_rows(2) [OF assms, of as_of None] by (simp add: rows_def distinct_map)
  have sorted: "sorted (map (\<lambda>d. the (dp_claim_expires_at d)) rows)" by (simp add: rows_def expired_dispatches_def Let_def)
  have "card (set rows) = length rows" using dist by (rule distinct_card)
  then show "card (set (expired_dispatches db as_of limit)) = (let n = card {d \<in> set (q_dispatches db). expired as_of d} in
      case limit of None \<Rightarrow> n | Some k \<Rightarrow> if k < 0 then n else min (nat k) n)"
    using dist by (simp add: eq all [symmetric] distinct_card min.commute Let_def split: option.split)
  assume d: "d \<in> set (expired_dispatches db as_of limit)" and e: "e \<in> set (q_dispatches db)" "expired as_of e"
    "e \<notin> set (expired_dispatches db as_of limit)"
  obtain k where k: "expired_dispatches db as_of limit = take k rows"
    by (metis (mono_tags, lifting) eq option.case_eq_if take_all_iff order_refl)
  have "e \<in> set (drop k rows)"
    using e all unfolding k by (metis (mono_tags, lifting) Un_iff append_take_drop_id mem_Collect_eq set_append)
  moreover have "sorted (map (\<lambda>d. the (dp_claim_expires_at d)) (take k rows @ drop k rows))" using sorted by simp
  ultimately show "the (dp_claim_expires_at d) \<le> the (dp_claim_expires_at e)"
    using d unfolding k map_append sorted_append by auto
qed

lemma requeue_step:
  assumes "queue_inv db"
  shows "queue_inv (snd (requeue_expired_schedule_dispatches uids as_of limit who db)) \<and>
    grown db (snd (requeue_expired_schedule_dispatches uids as_of limit who db))"
proof (cases "recover_rows uids as_of who (expired_dispatches db as_of limit) [] db")
  case (Inl e)
  with assms show ?thesis by (simp add: requeue_expired_schedule_dispatches_def transaction_def)
next
  case (Inr r)
  obtain rs db' where r: "r = (rs, db')" by (cases r)
  from recover_rows_step [OF Inr [unfolded r] assms expired_dispatches_rows(1,2) [OF assms]] Inr r show ?thesis
    by (simp add: requeue_expired_schedule_dispatches_def transaction_def)
qed

end
