(* ===== verification/CronClaims.thy ===== *)
theory CronClaims
  imports Cron
begin

text \<open>
  What the cron search promises: the first matching minute, and that there is one within its 366
  days for every expression that admits a day of every month; and where it gives up.
\<close>

section \<open>A date of every year within 366 days\<close>

lemma days_before_month_shift: "days_before_month y m =
    days_before_month z m + (if 2 \<le> m then of_bool (is_leap y) - of_bool (is_leap z) else 0)"
  by (induction m) (auto simp: days_in_month_def)

lemma next_year_gap:
  "ordinal (Date (y + 1) m k) \<le> ordinal (Date y m k) + 366"
  using days_before_month_shift [of "y + 1" "nat (m - 1)" y]
  by (simp add: ordinal_def days_before_year_Suc days_in_year_def)

definition minute_of :: "date \<Rightarrow> int \<Rightarrow> int" where
  "minute_of d t = (ordinal d - 1) * 1440 + t"

lemma minute_of_parts:
  assumes "0 \<le> t" and "t < 1440"
  shows "minute_of d t div 1440 + 1 = ordinal d" "minute_of d t mod 60 = t mod 60"
    "minute_of d t div 60 mod 24 = t div 60"
proof -
  have "((ordinal d - 1) * 1440 + t) div 1440 = ordinal d - 1" using assms by simp
  then show "minute_of d t div 1440 + 1 = ordinal d" by (simp add: minute_of_def)
  have split: "minute_of d t = t + 60 * (24 * (ordinal d - 1))" by (simp add: minute_of_def)
  show "minute_of d t mod 60 = t mod 60" unfolding split by (rule mod_mult_self2)
  have "minute_of d t div 60 = t div 60 + 24 * (ordinal d - 1)" unfolding split by simp
  then have "minute_of d t div 60 mod 24 = t div 60 mod 24" by (simp only: mod_mult_self2)
  also have "t div 60 mod 24 = t div 60"
    using assms by (intro mod_pos_pos_trivial) auto
  finally show "minute_of d t div 60 mod 24 = t div 60" .
qed

lemma matching_minute:
  assumes "valid_date (Date y m k)" and "m \<in> set (cf_month f)" and "k \<in> set (cf_day f)"
    and "h \<in> set (cf_hour f)" and "i \<in> set (cf_minute f)" and "{0..6} \<subseteq> set (cf_weekday f)"
    and "0 \<le> h" and "h < 24" and "0 \<le> i" and "i < 60"
  shows "cron_matches f (minute_of (Date y m k) (h * 60 + i))"
proof -
  have t: "0 \<le> h * 60 + i" "h * 60 + i < 1440"
    using assms(7-10) by linarith+
  have "(h * 60 + i) mod 60 = i mod 60" by (rule mod_mult_self3)
  moreover have "(h * 60 + i) div 60 = h + i div 60" by (rule div_mult_self3) simp
  ultimately have parts: "(h * 60 + i) mod 60 = i" "(h * 60 + i) div 60 = h"
    using assms(9,10) by (simp_all only: mod_pos_pos_trivial div_pos_pos_trivial)
  have "x mod 7 \<in> set (cf_weekday f)" for x :: int
  proof (rule subsetD [OF assms(6)])
    show "x mod 7 \<in> {0..6}" using pos_mod_bound [of 7 x] pos_mod_sign [of 7 x] by simp
  qed
  then show ?thesis
    using assms(1-5,9,10) of_ordinal_ordinal [OF assms(1)]
    by (simp add: cron_matches_def minute_of_parts [OF t] parts)
qed

lemma day_28_valid: "1 \<le> y \<Longrightarrow> y \<le> 9999 \<Longrightarrow> 1 \<le> m \<Longrightarrow> m \<le> 12 \<Longrightarrow> 1 \<le> k \<Longrightarrow> k \<le> 28 \<Longrightarrow> valid_date (Date y m k)"
  using days_in_month_bounds(1) [of y m] by (simp add: valid_date_def)

lemma minute_within:
  assumes c: "0 \<le> c" "c + 366 * 1440 < last_minute"
    and m: "1 \<le> m" "m \<le> 12" and k: "1 \<le> k" "k \<le> 28" and t: "0 \<le> t" "t < 1440"
  shows "\<exists>y. valid_date (Date y m k) \<and> c \<le> minute_of (Date y m k) t \<and> minute_of (Date y m k) t \<le> c + 366 * 1440"
proof -
  define n where "n = c div 1440 + 1"
  have n: "1 \<le> n" "(n - 1) * 1440 \<le> c" "c < n * 1440"
    using c(1) by (auto simp: n_def)
  have top: "days_before_year 10000 = 3652059" by (simp add: days_before_year_def)
  have "n \<le> days_before_year 10000" using n(2) c(2) top by (simp add: last_minute_def)
  from of_ordinal_total [OF n(1) this] obtain d where "of_ordinal n = Some d" ..
  from of_ordinal_spec [OF this] have d: "valid_date d" "ordinal d = n" by simp_all
  have yr: "days_before_year (year d) < n" "n \<le> days_before_year (year d + 1)"
    using ordinal_in_year [OF d(1)] d(2) by simp_all
  have y9: "year d \<le> 9998"
  proof (rule ccontr)
    assume "\<not> year d \<le> 9998"
    with d(1) have "year d = 9999" by (simp add: valid_date_def)
    with yr(1) have "3652059 - 365 < n" using days_before_year_Suc [of 9999] top by (simp add: days_in_year_def is_leap_def)
    with n(2) c(2) show False by (simp add: last_minute_def)
  qed
  have v: "valid_date (Date (year d) m k)" "valid_date (Date (year d + 1) m k)"
    using d(1) y9 m k unfolding valid_date_def [of d] by (simp_all add: day_28_valid)
  show ?thesis
  proof (cases "c \<le> minute_of (Date (year d) m k) t")
    case True
    have "ordinal (Date (year d) m k) \<le> n + 365"
      using ordinal_in_year(2) [OF v(1)] yr(1) days_before_year_Suc [of "year d"] days_in_year_bounds(2) [of "year d"]
      by simp
    then have "minute_of (Date (year d) m k) t \<le> c + 366 * 1440"
      using n t by (simp add: minute_of_def)
    with True v(1) show ?thesis by blast
  next
    case False
    have "n + 1 \<le> ordinal (Date (year d + 1) m k)"
      using ordinal_in_year(1) [OF v(2)] yr(2) by simp
    then have "c \<le> minute_of (Date (year d + 1) m k) t"
      using n t by (simp add: minute_of_def)
    moreover have "minute_of (Date (year d + 1) m k) t \<le> c + 366 * 1440"
      using next_year_gap [of "year d" m k] False by (simp add: minute_of_def)
    ultimately show ?thesis using v(2) by blast
  qed
qed

section \<open>Claims\<close>

definition utc_only :: tz_database where
  \<comment> \<open>a database that knows UTC; 719162 days lie before 1970\<close>
  "utc_only = \<lparr>tz_known = (\<lambda>z. z = ''UTC''), tz_wall = (\<lambda>_ t. t + 719162 * 86400000000),
     tz_utc = (\<lambda>_ w. w - 719162 * 86400000000)\<rparr>"

lemma demo_next: "next_cron_occurrence utc_only ''*/15 6 * * *'' ''UTC'' 1700028000000000 = Inr 1700028900000000"
  by code_simp

text \<open>C17: what the search returns is the first wall-clock minute of the zone after the given instant
  that every field of the expression admits, and every parsed field holds values within its
  bounds, at least one.\<close>
theorem cron_first_match:
  assumes "next_cron_occurrence tz expression zone after = Inr t"
  shows "\<exists>f c. parse_cron expression = Inr f \<and> fields_ok f \<and> t = tz_utc tz zone (c * minute_us) \<and>
    tz_wall tz zone after < c * minute_us \<and> cron_matches f c \<and>
    (\<forall>x. tz_wall tz zone after < x * minute_us \<and> x < c \<longrightarrow> \<not> cron_matches f x)"
proof -
  let ?c = "tz_wall tz zone after div minute_us + 1"
  have later: "tz_wall tz zone after < x * minute_us \<longleftrightarrow> ?c \<le> x" for x
    by (simp add: minute_us_def) linarith
  obtain f c where f: "parse_cron expression = Inr f" "first_match f ?c (?c + 366 * 1440) = Some c"
    "t = tz_utc tz zone (c * minute_us)"
    using assms by (auto simp: next_cron_occurrence_def Let_def and_then_Inr_iff split: if_split_asm option.split_asm)
  from first_match_Some [OF f(2)] parse_cron_ok [OF f(1)] f(1,3) show ?thesis
    unfolding later by blast
qed

theorem cron_first_match_witness:
  "\<exists>f c. parse_cron ''*/15 6 * * *'' = Inr f \<and> cron_matches f c \<and> 1700028900000000 = tz_utc utc_only ''UTC'' (c * minute_us)"
  using cron_first_match [OF demo_next] by blast

text \<open>C18: an expression that parses, admits a day up to the 28th and every weekday has a next occurrence
  from every instant (up to the last 366 days of the calendar): the search does not give up.\<close>
theorem cron_always_occurs:
  assumes "parse_cron expression = Inr f" and "k \<in> set (cf_day f)" and "k \<le> 28"
    and "{0..6} \<subseteq> set (cf_weekday f)" and "tz_known tz zone" and "0 \<le> tz_wall tz zone after"
    and "tz_wall tz zone after div minute_us + 1 + 366 * 1440 < last_minute"
  shows "\<exists>t. next_cron_occurrence tz expression zone after = Inr t"
proof -
  let ?c = "tz_wall tz zone after div minute_us + 1"
  have c: "1 \<le> ?c" using assms(6) by (simp add: minute_us_def)
  have ok: "cf_minute f \<noteq> []" "cf_hour f \<noteq> []" "cf_month f \<noteq> []" "set (cf_minute f) \<subseteq> {0..59}"
      "set (cf_hour f) \<subseteq> {0..23}" "set (cf_month f) \<subseteq> {1..12}" "set (cf_day f) \<subseteq> {1..31}"
    using parse_cron_ok [OF assms(1)] by (simp_all add: fields_ok_def field_ok_def)
  obtain i h m where f: "i \<in> set (cf_minute f)" "h \<in> set (cf_hour f)" "m \<in> set (cf_month f)"
    using ok(1-3) by (meson hd_in_set)
  have b: "0 \<le> i" "i < 60" "0 \<le> h" "h < 24" "1 \<le> m" "m \<le> 12" "1 \<le> k"
    using subsetD [OF ok(4) f(1)] subsetD [OF ok(5) f(2)] subsetD [OF ok(6) f(3)] subsetD [OF ok(7) assms(2)]
    by simp_all
  obtain y where y: "valid_date (Date y m k)" "?c \<le> minute_of (Date y m k) (h * 60 + i)"
    "minute_of (Date y m k) (h * 60 + i) \<le> ?c + 366 * 1440"
    using minute_within [of ?c m k "h * 60 + i"] c assms(3,7) b by auto
  have "cron_matches f (minute_of (Date y m k) (h * 60 + i))"
    using matching_minute [OF y(1) f(3) assms(2) f(2,1) assms(4)] b by simp
  with y have "first_match f ?c (?c + 366 * 1440) \<noteq> None"
    unfolding first_match_None by blast
  with c assms(1,5,7) show ?thesis by (auto simp: next_cron_occurrence_def Let_def)
qed

theorem cron_always_occurs_witness:
  "\<exists>t. next_cron_occurrence utc_only ''30 5 1 */6 *'' ''UTC'' 1700028000000000 = Inr t"
proof -
  have p: "parse_cron ''30 5 1 */6 *'' = Inr \<lparr>cf_minute = [30], cf_hour = [5], cf_day = [1], cf_month = [1, 7],
      cf_weekday = [0, 1, 2, 3, 4, 5, 6]\<rparr>"
    by code_simp
  have "{0..6} \<subseteq> {0, 1, 2, 3, 4, 5, 6::int}" by auto
  then show ?thesis
    by (intro cron_always_occurs [OF p, of 1]) (simp_all add: utc_only_def minute_us_def last_minute_def)
qed

lemma leap_day_gap:
  assumes "parse_cron expression = Inr f" and "set (cf_day f) \<subseteq> {29}" and "set (cf_month f) \<subseteq> {2}"
    and "ordinal (Date 2024 2 29) \<le> n" and "n < ordinal (Date 2028 2 29)" and "cron_matches f ((n - 1) * 1440 + t)"
    and "0 \<le> t" and "t < 1440"
  shows "n = ordinal (Date 2024 2 29)"
proof -
  have "((n - 1) * 1440 + t) div 1440 + 1 = n" using assms(7,8) by simp
  then obtain d where d: "of_ordinal n = Some d" "day d = 29" "month d = 2"
    using assms(2,3,6) unfolding cron_matches_def by (auto split: option.split_asm)
  from of_ordinal_spec [OF d(1)] have v: "valid_date d" "ordinal d = n" by simp_all
  have leap: "is_leap (year d)"
    using v(1) d(2,3) by (auto simp: valid_date_def days_in_month_def split: if_split_asm)
  have vs: "valid_date (Date 2024 2 29)" "valid_date (Date 2028 2 29)" by code_simp+
  have "\<not> d < Date 2024 2 29" using ordinal_less [OF v(1) vs(1)] v(2) assms(4) by auto
  moreover have "d < Date 2028 2 29"
    using ordinal_less [OF vs(2) v(1)] v(2) assms(5) by (cases d "Date 2028 2 29" rule: linorder_cases) auto
  ultimately have "2024 \<le> year d" "year d < 2028"
    using d by (auto simp: less_date_def)
  then have "year d = 2024 \<or> year d = 2025 \<or> year d = 2026 \<or> year d = 2027" by linarith
  with leap have "year d = 2024" by (auto simp: is_leap_def)
  with d v(2) show ?thesis by (cases d) simp
qed

lemma leap_window:
  fixes c x n r :: int
  assumes "c \<le> x" and "x \<le> c + 366 * 1440" and "738945 * 1440 < c" and "c \<le> 740037 * 1440"
    and "x = (n - 1) * 1440 + r" and "0 \<le> r" and "r < 1440"
  shows "738946 \<le> n" and "n < 740406"
  using assms by auto

lemma leap_day_raises:
  assumes "parse_cron expression = Inr f" and "set (cf_day f) \<subseteq> {29}" and "set (cf_month f) \<subseteq> {2}"
    and "tz_known tz zone"
    and "minute_of (Date 2024 3 1) 0 * minute_us \<le> tz_wall tz zone after"
    and "tz_wall tz zone after < minute_of (Date 2027 2 26) 0 * minute_us"
  shows "\<exists>m. next_cron_occurrence tz expression zone after = Inl (Bad_cron m)"
proof -
  let ?c = "tz_wall tz zone after div minute_us + 1"
  have ords: "ordinal (Date 2024 2 29) = 738945" "ordinal (Date 2024 3 1) = 738946"
      "ordinal (Date 2027 2 26) = 740038" "ordinal (Date 2028 2 29) = 740406"
    by code_simp+
  have c: "738945 * 1440 < ?c" "?c \<le> 740037 * 1440"
    using assms(5,6) ords by (simp_all add: minute_of_def minute_us_def)
  have "first_match f ?c (?c + 366 * 1440) = None"
    unfolding first_match_None
  proof (intro allI impI notI)
    fix x assume x: "?c \<le> x \<and> x \<le> ?c + 366 * 1440" "cron_matches f x"
    define n where "n = x div 1440 + 1"
    have split: "x = (n - 1) * 1440 + x mod 1440" "0 \<le> x mod 1440" "x mod 1440 < 1440"
      by (simp_all add: n_def)
    note n = leap_window [OF conjunct1 [OF x(1)] conjunct2 [OF x(1)] c split]
    have "n = ordinal (Date 2024 2 29)"
      using leap_day_gap [OF assms(1-3), of n "x mod 1440"] x(2) split n ords by simp
    with n ords show False by simp
  qed
  moreover have "1 \<le> ?c" "?c + 366 * 1440 < last_minute"
    using c by (simp_all add: last_minute_def)
  ultimately show ?thesis
    using assms(1,4) by (simp add: next_cron_occurrence_def Let_def)
qed

lemma demo_leap_day: "parse_cron ''0 0 29 2 *'' = Inr \<lparr>cf_minute = [0], cf_hour = [0], cf_day = [29], cf_month = [2],
    cf_weekday = [0, 1, 2, 3, 4, 5, 6]\<rparr>"
  by code_simp

lemma cron_leap_day_raises_case:
  "\<exists>m. next_cron_occurrence utc_only ''0 0 29 2 *'' ''UTC'' 1709251200000000 = Inl (Bad_cron m)"
proof -
  have "minute_of (Date 2024 3 1) 0 * minute_us \<le> tz_wall utc_only ''UTC'' 1709251200000000 \<and>
      tz_wall utc_only ''UTC'' 1709251200000000 < minute_of (Date 2027 2 26) 0 * minute_us"
    by code_simp
  then show ?thesis
    by (intro leap_day_raises [OF demo_leap_day]) (simp_all add: utc_only_def)
qed

text \<open>a schedule for the 29th of February only has no next occurrence from any instant between that
  day of 2024 and a year before that day of 2028: the search raises, whatever the zone.\<close>
theorem cron_leap_day_raises:
  assumes "parse_cron expression = Inr f" and "set (cf_day f) \<subseteq> {29}" and "set (cf_month f) \<subseteq> {2}"
    and "tz_known tz zone"
    and "minute_of (Date 2024 3 1) 0 * minute_us \<le> tz_wall tz zone after"
    and "tz_wall tz zone after < minute_of (Date 2027 2 26) 0 * minute_us"
  shows "\<exists>m. next_cron_occurrence tz expression zone after = Inl (Bad_cron m)"
  using assms by (rule leap_day_raises)

theorem cron_leap_day_raises_witness:
  "\<exists>m. next_cron_occurrence utc_only ''0 0 29 2 *'' ''UTC'' 1709251200000000 = Inl (Bad_cron m)"
proof -
  have "minute_of (Date 2024 3 1) 0 * minute_us \<le> tz_wall utc_only ''UTC'' 1709251200000000 \<and>
      tz_wall utc_only ''UTC'' 1709251200000000 < minute_of (Date 2027 2 26) 0 * minute_us"
    by code_simp
  then show ?thesis
    by (intro cron_leap_day_raises [OF demo_leap_day]) (simp_all add: utc_only_def)
qed

section \<open>The hour that is repeated\<close>

definition summer_time :: tz_database where
  \<comment> \<open>two hours ahead of UTC until 2024-10-27 01:00 UTC, one hour after it; a repeated wall-clock
    time is read as its first occurrence\<close>
  "summer_time = \<lparr>tz_known = (\<lambda>z. z = ''Europe/Oslo''),
     tz_wall = (\<lambda>_ t. t + 719162 * 86400000000 + (if t < 1729990800000000 then 7200000000 else 3600000000)),
     tz_utc = (\<lambda>_ w. let t = w - 719162 * 86400000000 in
       if t < 1729990800000000 + 7200000000 then t - 7200000000 else t - 3600000000)\<rparr>"

text \<open>in the hour that the end of summer time repeats, the next occurrence may lie before the instant
  asked about: at 02:00 of the second pass a quarter-hourly schedule gets 02:15 of the first.\<close>
theorem cron_fold_goes_back:
  "\<exists>t. next_cron_occurrence summer_time ''*/15 * * * *'' ''Europe/Oslo'' 1729990800000000 = Inr t \<and> t < 1729990800000000"
proof -
  have "next_cron_occurrence summer_time ''*/15 * * * *'' ''Europe/Oslo'' 1729990800000000 = Inr 1729988100000000"
    by code_simp
  then show ?thesis by simp
qed

end
