(* ===== verification/DispatchClaims.thy ===== *)
theory DispatchClaims
  imports DispatchLeases CronClaims
begin

text \<open>What the dispatch queue guarantees, each with a run on a small database.\<close>

section \<open>The other operations keep the invariant\<close>

lemma create_schedule_inv:
  assumes "queue_inv db" and "steady gap"
  shows "queue_inv (snd (create_execution_schedule tz gap db s))"
proof (cases "and_then (validate_target (gap 0 db) (sc_target_kind s) (sc_target_ref s)) (\<lambda>_. due_or_next tz s (sc_created_at s))")
  case (Inl e)
  with assms show ?thesis by (simp add: create_execution_schedule_def steady_gap)
next
  case (Inr due)
  let ?db1 = "gap 1 (gap 0 db)"
  have i: "queue_inv ?db1" using assms by (simp add: steady_gap)
  show ?thesis
  proof (cases "find_schedule ?db1 (sc_schedule_id s)")
    case None
    then have "queue_inv (?db1\<lparr>q_schedules := q_schedules ?db1 @ [s\<lparr>sc_next_due_at := Some due\<rparr>]\<rparr>)"
      using i by (auto simp: queue_inv_def find_schedule_None)
    with None Inr assms(2) show ?thesis by (simp add: create_execution_schedule_def Let_def steady_gap)
  next
    case (Some r)
    with Inr i show ?thesis by (simp add: create_execution_schedule_def Let_def)
  qed
qed

lemma update_schedule_inv:
  assumes "queue_inv db" and "steady gap"
  shows "queue_inv (snd (update_execution_schedule tz gap db s))"
proof (cases "and_then (validate_target (gap 0 db) (sc_target_kind s) (sc_target_ref s))
    (\<lambda>_. due_or_next tz s (case sc_last_enqueued_at s of Some t \<Rightarrow> t | None \<Rightarrow> sc_created_at s))")
  case (Inl e)
  with assms show ?thesis by (simp add: update_execution_schedule_def steady_gap)
next
  case (Inr due)
  have "queue_inv (snd (set_schedule (sc_schedule_id s) (rewritten_schedule s due) (gap 1 (gap 0 db))))"
    using assms by (intro set_schedule_inv) (simp_all add: steady_gap rewritten_schedule_def)
  with Inr assms(2) show ?thesis
    by (simp add: update_execution_schedule_def case_prod_beta Let_def steady_gap)
qed

lemma archive_schedule_inv:
  assumes "queue_inv db" and "steady gap"
  shows "queue_inv (snd (set_execution_schedule_archived_state gap db sid archived))"
proof -
  have "queue_inv (snd (set_schedule sid
      (\<lambda>s. s\<lparr>sc_archived := archived, sc_enabled := (if archived then False else sc_enabled s)\<rparr>) (gap 0 db)))"
    using assms by (intro set_schedule_inv) (simp_all add: steady_gap)
  with assms(2) show ?thesis
    by (simp add: set_execution_schedule_archived_state_def case_prod_beta Let_def steady_gap)
qed

lemma delete_schedule_inv:
  assumes "queue_inv db" and "steady gap"
  shows "queue_inv (snd (delete_execution_schedule gap db sid))"
proof -
  let ?db2 = "gap 2 (gap 1 (gap 0 db))"
  have i: "queue_inv ?db2" using assms by (simp add: steady_gap)
  have "queue_inv (?db2\<lparr>q_schedules := filter (\<lambda>s. sc_schedule_id s \<noteq> sid) (q_schedules ?db2)\<rparr>)"
    if "\<not> list_ex (\<lambda>d. dp_schedule_id d = sid) (q_dispatches ?db2)"
    using i that by (force simp: queue_inv_def list_ex_iff distinct_map_filter)
  with i assms show ?thesis
    by (simp add: delete_execution_schedule_def Let_def steady_gap split: sum.split)
qed

lemma claim_session_inv:
  "claim_in_session did w at ls detail db = Inr (u, db') \<Longrightarrow> queue_inv db \<Longrightarrow> queue_inv db'"
  by (auto simp: claim_in_session_def case_prod_beta Let_def claim_enqueued_inv split: option.split_asm if_split_asm)

lemma claim_dispatch_inv:
  assumes "queue_inv db" and "steady gap"
  shows "queue_inv (snd (claim_schedule_dispatch gap db did w at ls detail))"
  using assms claim_session_inv [of did w at ls detail "gap 0 db"]
  by (auto simp: claim_schedule_dispatch_def Let_def steady_gap split: sum.split)

lemma claim_next_inv:
  assumes "queue_inv db" and "steady gap"
  shows "queue_inv (snd (claim_next_schedule_dispatch gap db w at ls detail))"
proof -
  have "queue_inv (snd (claim_next_in_session w at ls detail db0))" if "queue_inv db0" for db0
    using that by (auto simp: claim_next_in_session_def case_prod_beta Let_def claim_enqueued_inv split: option.split)
  from this [OF steady_gap [OF assms(2,1), of 0]] assms(2) show ?thesis
    by (auto simp: claim_next_schedule_dispatch_def Let_def steady_gap split: prod.split option.split)
qed

lemma renew_session_inv:
  "renew_in_session did w at ls detail db = Inr (u, db') \<Longrightarrow> queue_inv db \<Longrightarrow> queue_inv db'"
  by (auto simp: renew_in_session_def case_prod_beta Let_def set_dispatches_inv split: option.split_asm if_split_asm)

lemma renew_claim_inv:
  assumes "queue_inv db" and "steady gap"
  shows "queue_inv (snd (renew_schedule_dispatch_claim gap db did w at ls detail))"
  using assms renew_session_inv [of did w at ls detail "gap 0 db"]
  by (auto simp: renew_schedule_dispatch_claim_def Let_def steady_gap split: sum.split)

lemma resolved_row_keys [simp]:
  "dp_dispatch_id (resolved_row g e d) = dp_dispatch_id d"
  "dp_schedule_id (resolved_row g e d) = dp_schedule_id d"
  by (simp_all add: resolved_row_def Let_def)

lemma mark_status_inv:
  assumes "queue_inv db" and "steady gap"
  shows "queue_inv (snd (mark_schedule_dispatch_status gap db did g))"
proof -
  have "queue_inv (snd (set_dispatches hit (resolved_row g e) (gap 1 (gap 0 db))))" for hit e
    using assms by (intro set_dispatches_inv) (simp_all add: steady_gap)
  with assms show ?thesis
    by (auto simp: mark_schedule_dispatch_status_def case_prod_beta Let_def steady_gap split: sum.split)
qed

lemma heartbeat_inv: "queue_inv db \<Longrightarrow> queue_inv (snd (record_worker_heartbeat db h))"
proof -
  assume i: "queue_inv db"
  have "map hb_worker_id (map (\<lambda>x. if hb_worker_id x = hb_worker_id h then h else x) xs) = map hb_worker_id xs" for xs
    by (induction xs) auto
  with i show ?thesis
    by (auto simp: record_worker_heartbeat_def queue_inv_def list_ex_iff simp del: map_map)
qed

section \<open>A small queue\<close>

definition demo_schedule :: "string \<Rightarrow> string \<Rightarrow> int \<Rightarrow> schedule" where
  "demo_schedule sid cron n = \<lparr>sc_schedule_id = sid, sc_target_kind = ''job'', sc_target_ref = ''j'',
     sc_cron_expression = cron, sc_timezone = ''UTC'', sc_enabled = True, sc_archived = False,
     sc_max_concurrency = n, sc_next_due_at = Some 1700000000000000, sc_last_enqueued_at = None, sc_created_at = 0\<rparr>"

definition demo_running :: dispatch where
  "demo_running = claimed_row ''w1'' 100 200 None (enqueued_dispatch ''d1'' (demo_schedule ''a'' ''*/15 6 * * *'' 2) 50 None)
     (enqueued_dispatch ''d1'' (demo_schedule ''a'' ''*/15 6 * * *'' 2) 50 None)"

definition demo_queue :: queue_db where
  "demo_queue = \<lparr>q_definitions = [], q_schedules = [demo_schedule ''a'' ''*/15 6 * * *'' 2],
     q_dispatches = [demo_running, enqueued_dispatch ''d2'' (demo_schedule ''a'' ''*/15 6 * * *'' 2) 60 None],
     q_heartbeats = []\<rparr>"

definition demo_poisoned :: queue_db where
  "demo_poisoned = \<lparr>q_definitions = [], q_schedules = [demo_schedule ''a'' ''*/15 6 * * *'' 2, demo_schedule ''b'' ''0 0 29 2 *'' 1],
     q_dispatches = [], q_heartbeats = []\<rparr>"

lemma demo_dispatches_inv: "queue_inv demo_queue"
  by (simp add: queue_inv_def demo_queue_def demo_schedule_def demo_running_def enqueued_dispatch_def)

lemma demo_steady: "steady (\<lambda>_ db. db)"
  by (simp add: steady_def)

section \<open>Claims\<close>

text \<open>Every operation of the control plane keeps its tables sound, with any steady writers between the
  steps of a call.\<close>

lemma queue_tables_sound:
  assumes "queue_inv db" and "steady gap"
  shows "queue_inv (snd (create_execution_schedule tz gap db s)) \<and>
    queue_inv (snd (update_execution_schedule tz gap db s)) \<and>
    queue_inv (snd (set_execution_schedule_archived_state gap db sid archived)) \<and>
    queue_inv (snd (delete_execution_schedule gap db sid)) \<and>
    queue_inv (snd (enqueue_due_execution_schedules tz uids as_of limit gap db)) \<and>
    queue_inv (snd (create_schedule_dispatch uid as_of gap db sid)) \<and>
    queue_inv (snd (claim_schedule_dispatch gap db did w as_of ls detail)) \<and>
    queue_inv (snd (claim_next_schedule_dispatch gap db w as_of ls detail)) \<and>
    queue_inv (snd (renew_schedule_dispatch_claim gap db did w as_of ls detail)) \<and>
    queue_inv (snd (requeue_expired_schedule_dispatches uids as_of limit who db)) \<and>
    queue_inv (snd (mark_schedule_dispatch_status gap db did g)) \<and>
    queue_inv (snd (record_worker_heartbeat db h))"
  by (intro conjI create_schedule_inv update_schedule_inv archive_schedule_inv delete_schedule_inv
      enqueue_due_inv create_dispatch_inv claim_dispatch_inv claim_next_inv
      renew_claim_inv conjunct1 [OF requeue_step] mark_status_inv heartbeat_inv assms)

text \<open>Two enqueueings by hand that both count before either writes go past the limit: the count is not
  under the write lock.\<close>

definition single_queue :: queue_db where
  "single_queue = \<lparr>q_definitions = [], q_schedules = [demo_schedule ''a'' ''0 6 * * *'' 1], q_dispatches = [], q_heartbeats = []\<rparr>"

definition rival_enqueues :: "nat \<Rightarrow> queue_db \<Rightarrow> queue_db" where
  \<comment> \<open>another worker enqueues between the count and the write\<close>
  "rival_enqueues i db = (if i = 2 then snd (create_schedule_dispatch ''d2'' 70 (\<lambda>_ db. db) db ''a'') else db)"

lemma racing_enqueues_pass_limit:
  "active_count single_queue ''a'' = 0"
  "active_count (snd (create_schedule_dispatch ''d1'' 70 rival_enqueues single_queue ''a'')) ''a'' = 2"
  by code_simp+



text \<open>C13: a sequence of claims by any workers hands out the enqueued dispatches oldest first (ties by
  id), each to exactly one claim, running and leased to its claimer, and nothing once the queue is
  empty.\<close>
theorem claims_hand_out_once:
  assumes "queue_inv db"
  shows "claim_run rs db = map (\<lambda>(r, d). Inr (Some (handed_out r d))) (zip rs (enqueued_order db)) @
      replicate (length rs - length (enqueued_order db)) (Inr None) \<and>
    distinct (map dp_dispatch_id (enqueued_order db)) \<and>
    set (enqueued_order db) = {d \<in> set (q_dispatches db). dp_status d = ''enqueued''}"
  using claim_run_spec [OF assms] enqueued_order_distinct [OF assms] by (auto simp: enqueued_order_mem)

theorem claims_hand_out_once_witness:
  "\<exists>d. claim_run [(''w2'', 300, 60, None), (''w3'', 301, 60, None)] demo_queue = [Inr (Some d), Inr None] \<and>
    dp_dispatch_id d = ''d2'' \<and> dp_claimed_by d = Some ''w2''"
proof -
  have "enqueued_order demo_queue = [enqueued_dispatch ''d2'' (demo_schedule ''a'' ''*/15 6 * * *'' 2) 60 None]"
    by (simp add: enqueued_order_def demo_queue_def demo_running_def enqueued_dispatch_def)
  with claims_hand_out_once [OF demo_dispatches_inv, of "[(''w2'', 300, 60, None), (''w3'', 301, 60, None)]"]
  show ?thesis by (simp add: handed_out_def enqueued_dispatch_def)
qed

text \<open>C15: a recovery that returns has failed running dispatches with an expired claim, those longest
  expired first and as many as its limit allows (all of them without one, or with a negative one);
  it reports exactly those, every other expired claim is still there, and no other dispatch changed.
  The tables hold unique ids and every dispatch has its schedule.\<close>
theorem recovery_is_complete:
  assumes "queue_inv db" and "requeue_expired_schedule_dispatches uids as_of limit who db = (Inr rs, db')"
  shows "\<exists>R. R \<subseteq> {d \<in> set (q_dispatches db). expired as_of d} \<and>
    card R = (let n = card {d \<in> set (q_dispatches db). expired as_of d} in
      case limit of None \<Rightarrow> n | Some k \<Rightarrow> if k < 0 then n else min (nat k) n) \<and>
    (\<forall>d\<in>R. \<forall>e\<in>{d \<in> set (q_dispatches db). expired as_of d} - R. the (dp_claim_expires_at d) \<le> the (dp_claim_expires_at e)) \<and>
    set (map rc_stale_dispatch rs) = recovered_row as_of who ` R \<and>
    set (map rc_stale_dispatch rs) \<subseteq> set (q_dispatches db') \<and>
    {d \<in> set (q_dispatches db'). expired as_of d} = {d \<in> set (q_dispatches db). expired as_of d} - R \<and>
    set (q_dispatches db) - R \<subseteq> set (q_dispatches db')"
proof -
  let ?rows = "expired_dispatches db as_of limit" and ?E = "{d \<in> set (q_dispatches db). expired as_of d}"
  note rows = expired_dispatches_rows(1,2) [OF assms(1), of as_of limit]
  have r: "recover_rows uids as_of who ?rows [] db = Inr (rs, db')"
    using assms(2) by (auto simp: requeue_expired_schedule_dispatches_def transaction_def split: sum.split_asm)
  have same: "d = e" if "d \<in> set (q_dispatches db)" "e \<in> set (q_dispatches db)" "dp_dispatch_id d = dp_dispatch_id e" for d e
    using that find_dispatch_iff [OF assms(1)] by (metis option.inject)
  note parts = recover_rows_step [OF r assms(1) rows(1,2), THEN conjunct2, THEN conjunct2]
  note step = conjunct1 [OF parts] conjunct1 [OF conjunct2 [OF parts]]
    conjunct1 [OF conjunct2 [OF conjunct2 [OF parts]]] conjunct2 [OF conjunct2 [OF conjunct2 [OF parts]]]
  have ids: "dp_dispatch_id d \<in> dp_dispatch_id ` set ?rows \<longleftrightarrow> d \<in> set ?rows" if "d \<in> set (q_dispatches db)" for d
    using that same rows(1) by blast
  have kept: "set (q_dispatches db) - set ?rows \<subseteq> set (q_dispatches db')" using step(3) ids by blast
  have "expired as_of d \<longleftrightarrow> d \<in> ?E - set ?rows" if d: "d \<in> set (q_dispatches db')" for d
  proof -
    have new: "\<not> expired as_of x" if "x \<in> recovered_row as_of who ` set ?rows \<or> dp_status x = ''enqueued''" for x
      using that by (auto simp: expired_def recovered_row_def failed_row_def)
    consider "d \<in> recovered_row as_of who ` set ?rows \<or> dp_status d = ''enqueued''"
      | "d \<in> set (q_dispatches db)" "dp_dispatch_id d \<notin> dp_dispatch_id ` set ?rows"
      using bspec [OF step(4) d] by (elim disjE conjE) simp_all
    then show ?thesis
    proof cases
      case 1
      from new [OF this] show ?thesis by blast
    next
      case 2
      then show ?thesis using ids [OF 2(1)] by simp
    qed
  qed
  then have "{d \<in> set (q_dispatches db'). expired as_of d} = ?E - set ?rows" using kept by blast
  moreover have "set (map rc_stale_dispatch rs) = recovered_row as_of who ` set ?rows" using step(1) by simp
  ultimately show ?thesis
    using step(2) kept rows(1) expired_dispatches_first [OF assms(1), where as_of = as_of and limit = limit] by (intro exI [of _ "set ?rows"]) auto
qed

theorem recovery_is_complete_witness:
  "\<exists>rs db'. requeue_expired_schedule_dispatches (\<lambda>_. ''d9'') 1000 (Some 1) None demo_queue = (Inr rs, db') \<and>
    (\<forall>d\<in>set (q_dispatches db'). \<not> expired 1000 d)"
proof -
  have "\<exists>rs db'. requeue_expired_schedule_dispatches (\<lambda>_. ''d9'') 1000 (Some 1) None demo_queue = (Inr rs, db')"
    by (simp add: requeue_expired_schedule_dispatches_def transaction_def expired_dispatches_def demo_queue_def
        demo_running_def enqueued_dispatch_def claimed_row_def expired_def recover_row_def set_dispatches_def
        update_where_def replace_dispatch_def find_schedule_def has_room_def active_count_def active_status_def
        insert_enqueued_dispatch_def find_dispatch_def demo_schedule_def failed_row_def Let_def)
  then obtain rs db' where r: "requeue_expired_schedule_dispatches (\<lambda>_. ''d9'') 1000 (Some 1) None demo_queue = (Inr rs, db')"
    by blast
  have E: "{d \<in> set (q_dispatches demo_queue). expired 1000 d} = {demo_running}"
    by (auto simp: demo_queue_def expired_def demo_running_def enqueued_dispatch_def claimed_row_def)
  obtain R where "R \<subseteq> {demo_running}" "card R = 1" "{d \<in> set (q_dispatches db'). expired 1000 d} = {demo_running} - R"
    using recovery_is_complete [OF demo_dispatches_inv r] unfolding E by auto
  then have "{d \<in> set (q_dispatches db'). expired 1000 d} = {}" by (metis Diff_cancel card.empty subset_singleton_iff zero_neq_one)
  then show ?thesis using r by blast
qed

text \<open>C16: a lease is renewed only for the worker that holds it while the dispatch is running: the call
  changes nothing but this dispatch's detail, claim time and expiry, and any call that raises
  before its commit leaves the queue as it found it; other workers may write before the call and
  after its commit.\<close>
theorem lease_renewed_by_owner_only:
  assumes "queue_inv (gap 0 db)" and "renew_schedule_dispatch_claim gap db did w at ls detail = (r, db')"
  shows "(\<exists>d. find_dispatch (gap 0 db) did = Some d \<and> dp_status d = ''running'' \<and> dp_claimed_by d = Some w \<and>
      db' = gap 1 ((gap 0 db)\<lparr>q_dispatches := map (\<lambda>x. if dp_dispatch_id x = did
        then x\<lparr>dp_worker_detail := option_or detail (dp_worker_detail d), dp_claimed_at := Some at,
          dp_claim_expires_at := Some (at + ls * 1000000)\<rparr> else x) (q_dispatches (gap 0 db))\<rparr>)) \<or>
    (\<exists>e. r = Inl e) \<and> db' = gap 0 db"
proof (cases "renew_in_session did w at ls detail (gap 0 db)")
  case (Inl e)
  with assms(2) show ?thesis by (auto simp: renew_schedule_dispatch_claim_def)
next
  case (Inr p)
  then obtain d where d: "find_dispatch (gap 0 db) did = Some d" "dp_status d = ''running''" "dp_claimed_by d = Some w"
    and p: "snd p = snd (set_dispatches (\<lambda>x. dp_dispatch_id x = did \<and> dp_status x = ''running'' \<and> dp_claimed_by x = Some w)
      (\<lambda>x. x\<lparr>dp_worker_detail := option_or detail (dp_worker_detail d), dp_claimed_at := Some at,
         dp_claim_expires_at := Some (lease_end at ls)\<rparr>) (gap 0 db))"
    by (auto simp: renew_in_session_def case_prod_beta Let_def split: option.split_asm if_split_asm)
  have m: "d \<in> set (q_dispatches (gap 0 db))" "dp_dispatch_id d = did"
    using d(1) find_dispatch_iff [OF assms(1)] by simp_all
  have only: "x = d" if "x \<in> set (q_dispatches (gap 0 db))" "dp_dispatch_id x = did" for x
    using that m find_dispatch_iff [OF assms(1)] by (metis option.inject)
  have "map (\<lambda>x. if dp_dispatch_id x = did \<and> dp_status x = ''running'' \<and> dp_claimed_by x = Some w then f x else x)
      (q_dispatches (gap 0 db)) = map (\<lambda>x. if dp_dispatch_id x = did then f x else x) (q_dispatches (gap 0 db))" for f
    using only d(2,3) by (intro map_cong [OF refl]) auto
  with p have "snd p = (gap 0 db)\<lparr>q_dispatches := map (\<lambda>x. if dp_dispatch_id x = did
        then x\<lparr>dp_worker_detail := option_or detail (dp_worker_detail d), dp_claimed_at := Some at,
          dp_claim_expires_at := Some (at + ls * 1000000)\<rparr> else x) (q_dispatches (gap 0 db))\<rparr>"
    by (simp add: set_dispatches_def update_where_def lease_end_def)
  moreover have "db' = gap 1 (snd p)"
    using assms(2) Inr by (cases p) (auto simp: renew_schedule_dispatch_claim_def Let_def)
  ultimately show ?thesis using d by auto
qed

theorem lease_renewed_by_owner_only_witness:
  "snd (renew_schedule_dispatch_claim (\<lambda>_ db. db) demo_queue ''d1'' ''w2'' 150 60 None) = demo_queue"
proof -
  obtain r db' where r: "renew_schedule_dispatch_claim (\<lambda>_ db. db) demo_queue ''d1'' ''w2'' 150 60 None = (r, db')"
    by fastforce
  have "find_dispatch demo_queue ''d1'' = Some demo_running"
    by (simp add: find_dispatch_def demo_queue_def demo_running_def enqueued_dispatch_def)
  moreover have "dp_claimed_by demo_running = Some ''w1''" by (simp add: demo_running_def)
  ultimately show ?thesis
    using lease_renewed_by_owner_only [OF _ r] demo_dispatches_inv r by auto
qed

text \<open>a status change with an expected status and worker is a compare-and-set: when it is applied, the
  row it rewrote still had that status and worker at the write, whatever other workers did since
  the call read it; otherwise the call changes nothing.\<close>
theorem status_change_is_compare_and_set:
  assumes "mark_schedule_dispatch_status gap db did g = (r, db')" and "sg_expected_status g = Some x"
    and "sg_expected_worker_id g = Some w"
  shows "db' = gap 0 db \<and> (\<exists>e. r = Inl e) \<or> db' = gap 1 (gap 0 db) \<and> (\<exists>e. r = Inl e) \<or>
    (\<exists>d\<in>set (q_dispatches (gap 1 (gap 0 db))). dp_dispatch_id d = did \<and> dp_status d = x \<and> dp_claimed_by d = Some w)"
proof (cases "get_schedule_dispatch (gap 0 db) did")
  case (Inl e)
  with assms(1) have "r = Inl e \<and> db' = gap 0 db" by (auto simp: mark_schedule_dispatch_status_def)
  then show ?thesis by blast
next
  case (Inr existing)
  let ?hit = "\<lambda>d. dp_dispatch_id d = did \<and> dp_status d = x \<and> dp_claimed_by d = Some w"
  have hit: "(\<lambda>d. dp_dispatch_id d = did \<and> (sg_expected_status g = None \<or> sg_expected_status g = Some (dp_status d)) \<and>
      (sg_expected_worker_id g = None \<or> sg_expected_worker_id g = dp_claimed_by d)) = ?hit"
    using assms(2,3) by (auto simp: fun_eq_iff)
  show ?thesis
  proof (cases "\<exists>d\<in>set (q_dispatches (gap 1 (gap 0 db))). ?hit d")
    case True
    then show ?thesis by blast
  next
    case False
    then have none: "filter ?hit (q_dispatches (gap 1 (gap 0 db))) = []" by (auto simp: filter_empty_conv)
    have "map (\<lambda>d. if ?hit d then f d else d) (q_dispatches (gap 1 (gap 0 db))) = q_dispatches (gap 1 (gap 0 db))" for f
      using False by (intro map_idI) auto
    then have "set_dispatches ?hit f (gap 1 (gap 0 db)) = (0, gap 1 (gap 0 db))" for f
      using none by (simp add: set_dispatches_def update_where_def)
    with assms(1) Inr show ?thesis
      unfolding mark_schedule_dispatch_status_def hit by (auto simp: Let_def split: if_split_asm)
  qed
qed

theorem status_change_is_compare_and_set_witness:
  "\<exists>d\<in>set (q_dispatches demo_queue). dp_dispatch_id d = ''d1'' \<and> dp_status d = ''running'' \<and> dp_claimed_by d = Some ''w1''"
proof -
  let ?g = "\<lparr>sg_status = ''completed'', sg_started_at = None, sg_completed_at = Some 180, sg_run_ids = Some [''r''],
      sg_failure_reason = None, sg_worker_detail = None, sg_expected_status = Some ''running'',
      sg_expected_worker_id = Some ''w1''\<rparr>"
  obtain r db' where r: "mark_schedule_dispatch_status (\<lambda>_ db. db) demo_queue ''d1'' ?g = (r, db')" by fastforce
  have "case fst (mark_schedule_dispatch_status (\<lambda>_ db. db) demo_queue ''d1'' ?g) of Inl _ \<Rightarrow> False | Inr _ \<Rightarrow> True"
    by code_simp
  with r have "\<not> (\<exists>e. r = Inl e)" by auto
  with status_change_is_compare_and_set [OF r] show ?thesis by simp
qed

section \<open>One schedule can stop all\<close>

lemma enqueue_rows_raises:
  assumes "s \<in> set rows" and "distinct (map sc_schedule_id rows)"
    and "active_count db (sc_schedule_id s) < sc_max_concurrency s"
    and "next_cron_occurrence tz (sc_cron_expression s) (sc_timezone s) as_of = Inl e"
  shows "\<exists>err. enqueue_rows tz uids as_of None rows ds db = Inl err"
  using assms(1-3)
proof (induction rows arbitrary: ds db)
  case Nil
  then show ?case by simp
next
  case (Cons r rows)
  show ?case
  proof (cases "r = s")
    case True
    have "\<exists>err. enqueue_row tz uid as_of s db = Inl err" for uid
      using assms(4) by (cases "insert_enqueued_dispatch uid s as_of None db") (auto simp: enqueue_row_def)
    then obtain err where "enqueue_row tz (uids (length ds)) as_of s db = Inl err" by blast
    with True Cons.prems(3) show ?thesis by (simp add: limit_reached_def)
  next
    case False
    with Cons.prems have s: "s \<in> set rows" "distinct (map sc_schedule_id rows)"
      and "sc_schedule_id r \<notin> sc_schedule_id ` set rows" by auto
    then have other: "sc_schedule_id s \<noteq> sc_schedule_id r" by (metis image_eqI)
    show ?thesis
    proof (cases "active_count db (sc_schedule_id r) \<ge> sc_max_concurrency r")
      case True
      with Cons.IH [OF s(1,2) Cons.prems(3)] show ?thesis by (simp add: limit_reached_def)
    next
      case go: False
      show ?thesis
      proof (cases "enqueue_row tz (uids (length ds)) as_of r db")
        case (Inl err)
        with go show ?thesis by (simp add: limit_reached_def)
      next
        case (Inr p)
        obtain d db1 where p: "p = (d, db1)" by (cases p)
        obtain db0 due where i: "insert_enqueued_dispatch (uids (length ds)) r as_of None db = Inr (d, db0)"
          and db1: "db1 = snd (set_schedule (sc_schedule_id r)
            (\<lambda>r. r\<lparr>sc_last_enqueued_at := Some as_of, sc_next_due_at := Some due\<rparr>) db0)"
          using Inr p by (cases "next_cron_occurrence tz (sc_cron_expression r) (sc_timezone r) as_of")
            (auto simp: enqueue_row_def and_then_Inr_iff)
        have "active_count db1 (sc_schedule_id s) = active_count db (sc_schedule_id s)"
          using other insert_dispatch_active [OF i] by (simp add: db1 queue_simps)
        with Cons.IH [OF s(1,2), of db1] Cons.prems(3) Inr p go show ?thesis
          by (simp add: limit_reached_def)
      qed
    qed
  qed
qed

text \<open>one due schedule with free slots whose expression has no next occurrence makes the whole
  enqueueing raise, and none of the due schedules is enqueued.\<close>
theorem schedule_without_next_blocks_all:
  assumes "queue_inv db" and "s \<in> set (due_schedules db as_of)"
    and "active_count db (sc_schedule_id s) < sc_max_concurrency s"
    and "next_cron_occurrence tz (sc_cron_expression s) (sc_timezone s) as_of = Inl e"
    and "undisturbed gap"
  shows "\<exists>err. enqueue_due_execution_schedules tz uids as_of None gap db = (Inl err, db)"
proof -
  have "distinct (map sc_schedule_id (filter P (q_schedules db)))" for P
    using assms(1) by (simp add: queue_inv_def distinct_map_filter)
  then have "distinct (map sc_schedule_id (due_schedules db as_of))"
    by (simp add: due_schedules_def distinct_map)
  from enqueue_rows_raises [OF assms(2) this assms(3,4)]
  obtain err where "enqueue_rows tz uids as_of None (due_schedules db as_of) [] db = Inl err" by blast
  then show ?thesis by (simp add: enqueue_due_undisturbed [OF assms(5)] transaction_def)
qed

theorem schedule_without_next_blocks_all_witness:
  "\<exists>err. enqueue_due_execution_schedules utc_only (\<lambda>n. nat_text n) 1709251200000000 None (\<lambda>_ db. db) demo_poisoned = (Inl err, demo_poisoned)"
proof -
  obtain m where m: "next_cron_occurrence utc_only ''0 0 29 2 *'' ''UTC'' 1709251200000000 = Inl (Bad_cron m)"
    by (rule exE [OF cron_leap_day_raises_case])
  have "queue_inv demo_poisoned" by (simp add: queue_inv_def demo_poisoned_def demo_schedule_def)
  moreover have "demo_schedule ''b'' ''0 0 29 2 *'' 1 \<in> set (due_schedules demo_poisoned 1709251200000000)"
    by (simp add: due_schedules_def demo_poisoned_def demo_schedule_def)
  moreover have "active_count demo_poisoned (sc_schedule_id (demo_schedule ''b'' ''0 0 29 2 *'' 1)) <
      sc_max_concurrency (demo_schedule ''b'' ''0 0 29 2 *'' 1)"
    by (simp add: active_count_def demo_poisoned_def demo_schedule_def)
  moreover have "next_cron_occurrence utc_only (sc_cron_expression (demo_schedule ''b'' ''0 0 29 2 *'' 1))
      (sc_timezone (demo_schedule ''b'' ''0 0 29 2 *'' 1)) 1709251200000000 = Inl (Bad_cron m)"
    using m by (simp add: demo_schedule_def)
  moreover have "undisturbed (\<lambda>_ db. db)" by (simp add: undisturbed_def)
  ultimately show ?thesis by (rule schedule_without_next_blocks_all)
qed

end
