(* ===== verification/Freshness.thy ===== *)
theory Freshness
  imports Calendar
begin

text \<open>
  Source freshness (\<open>packages/platform/source_freshness.py\<close>): the period a landed run covers,
  the state of a source on a day and the next expected landing.  A \<open>datetime\<close> is its wall clock
  in microseconds since 1970 and, when it is aware, its offset from UTC; \<open>None\<close> as a result is an
  exception (\<open>ValueError\<close>, \<open>OverflowError\<close> or \<open>TypeError\<close>).
\<close>

section \<open>Data\<close>

datatype freshness_state = Current | Due_Soon | Overdue | Missing_Period | Parse_Failed | Unconfigured

datatype stamp = Stamp (wall: int) (utcoffset: "int option")

datatype as_of = On date | At stamp

record freshness_config =
  fc_source_asset_id :: string
  fc_acquisition_mode :: string
  fc_expected_frequency :: string
  fc_coverage_kind :: string
  fc_due_day_of_month :: "int option"
  fc_expected_window_days :: int
  fc_freshness_sla_days :: int
  fc_sensitivity_class :: string
  fc_reminder_channel :: string
  fc_requires_human_action :: bool

record run_observed =
  ob_status :: string
  ob_observed_at :: stamp
  ob_covered_from :: "date option"
  ob_covered_through :: "date option"
  ob_dataset_name :: "string option"

record assessment =
  am_state :: freshness_state
  am_last_ingest_at :: "stamp option"
  am_next_expected_at :: "stamp option"
  am_covered_from :: "date option"
  am_covered_through :: "date option"
  am_detail :: "string option"

section \<open>Datetimes\<close>

definition wall_date :: "stamp \<Rightarrow> date option" where
  \<comment> \<open>\<open>value.date()\<close>\<close>
  "wall_date s = date_of_instant (wall s)"

definition utc_date :: "stamp \<Rightarrow> date option" where
  "utc_date s = (case utcoffset s of
     None \<Rightarrow> date_of_instant (wall s)
   | Some z \<Rightarrow> date_of_instant (wall s - z))"

definition instant :: "stamp \<Rightarrow> int" where
  \<comment> \<open>what two datetimes of one kind are compared by\<close>
  "instant s = (case utcoffset s of None \<Rightarrow> wall s | Some z \<Rightarrow> wall s - z)"

definition comparable :: "stamp list \<Rightarrow> bool" where
  \<comment> \<open>comparing a naive with an aware datetime raises\<close>
  "comparable ss \<longleftrightarrow> list_all (\<lambda>s. utcoffset s = None) ss \<or> list_all (\<lambda>s. utcoffset s \<noteq> None) ss"

definition midnight :: "date \<Rightarrow> stamp" where
  \<comment> \<open>\<open>datetime.combine(d, datetime.min.time())\<close>\<close>
  "midnight d = Stamp ((ordinal d - 719163) * 86400000000) None"

section \<open>Schedule\<close>

definition is_success_status :: "string \<Rightarrow> bool" where
  "is_success_status s \<longleftrightarrow> s \<in> {''landed'', ''passed'', ''success'', ''completed''}"

definition is_failure_status :: "string \<Rightarrow> bool" where
  "is_failure_status s \<longleftrightarrow> s \<in> {''rejected'', ''failed''}"

definition last_day_of_previous_month :: "date \<Rightarrow> date option" where
  "last_day_of_previous_month d =
     (if month d = 1 then make_date (year d - 1) 12 31
      else make_date (year d) (month d - 1) (days_in_month (year d) (month d - 1)))"

definition add_months :: "date \<Rightarrow> int \<Rightarrow> date option" where
  "add_months d k = (let m0 = month d - 1 + k; y = year d + m0 div 12; m = m0 mod 12 + 1
     in make_date y m (min (day d) (days_in_month y m)))"

definition quarter_of :: "date \<Rightarrow> int" where
  "quarter_of d = (month d - 1) div 3"

definition expected_covered_through :: "freshness_config \<Rightarrow> date \<Rightarrow> date option" where
  "expected_covered_through c d =
     (if fc_expected_frequency c = ''weekly'' then plus_days d (- 7)
      else if fc_expected_frequency c = ''quarterly'' then
        (let m0 = quarter_of d * 3;
             (y, m) = (if m0 = 0 then (year d - 1, 12) else (year d, m0))
         in make_date y m (days_in_month y m))
      else if fc_expected_frequency c = ''annual'' then make_date (year d - 1) 12 31
      else last_day_of_previous_month d)"

definition due_day_or :: "freshness_config \<Rightarrow> int \<Rightarrow> int" where
  \<comment> \<open>\<open>config.due_day_of_month or last_day\<close>\<close>
  "due_day_or c l = (case fc_due_day_of_month c of None \<Rightarrow> l | Some k \<Rightarrow> if k = 0 then l else k)"

definition due_date_for_cycle :: "freshness_config \<Rightarrow> date \<Rightarrow> date option" where
  "due_date_for_cycle c d =
     (if fc_expected_frequency c = ''weekly'' then Some d
      else if fc_expected_frequency c = ''quarterly'' then
        (let m = (quarter_of d + 1) * 3; l = days_in_month (year d) m
         in make_date (year d) m (min (due_day_or c l) l))
      else if fc_expected_frequency c = ''annual'' then
        (let l = days_in_month (year d) 12 in make_date (year d) 12 (min (due_day_or c l) l))
      else (case fc_due_day_of_month c of
        None \<Rightarrow> Some d
      | Some k \<Rightarrow> make_date (year d) (month d) (min k (days_in_month (year d) (month d)))))"

definition next_expected_at :: "freshness_config \<Rightarrow> date \<Rightarrow> run_observed option \<Rightarrow> stamp option" where
  "next_expected_at c d latest = (case due_date_for_cycle c d of
     None \<Rightarrow> None
   | Some due \<Rightarrow>
       if latest = None then Some (midnight due)
       else map_option midnight
         (if fc_expected_frequency c = ''monthly'' then add_months due 1
          else if fc_expected_frequency c = ''quarterly'' then add_months due 3
          else if fc_expected_frequency c = ''annual'' then
            make_date (year due + 1) (month due) (min (day due) (days_in_month (year due + 1) (month due)))
          else plus_days due (fc_freshness_sla_days c)))"

definition schedule_based_state :: "freshness_config \<Rightarrow> date \<Rightarrow> run_observed option \<Rightarrow> freshness_state option" where
  "schedule_based_state c d latest =
     (if fc_expected_frequency c = ''ad_hoc'' then Some Current
      else (case expected_covered_through c d of
        None \<Rightarrow> None
      | Some expected \<Rightarrow>
          if (case latest of None \<Rightarrow> False
              | Some o' \<Rightarrow> (case ob_covered_through o' of None \<Rightarrow> False | Some t \<Rightarrow> expected \<le> t))
          then Some Current
          else (case due_date_for_cycle c d of
            None \<Rightarrow> None
          | Some due \<Rightarrow> map_option (\<lambda>window_end. if d \<le> window_end then Due_Soon else Overdue)
                (plus_days due (fc_expected_window_days c)))))"

section \<open>Coverage gaps\<close>

definition covered_spans :: "run_observed list \<Rightarrow> (date \<times> date) list" where
  "covered_spans os = concat (map (\<lambda>o'. case (ob_covered_from o', ob_covered_through o') of
       (Some f, Some t) \<Rightarrow> if is_success_status (ob_status o') then [(f, t)] else []
     | _ \<Rightarrow> []) os)"

fun gap_after :: "date \<Rightarrow> (date \<times> date) list \<Rightarrow> bool option" where
  \<comment> \<open>the loop: \<open>p\<close> is the end of the observation that reaches furthest\<close>
  "gap_after p [] = Some False"
| "gap_after p ((f, t) # rest) = (case plus_days p 1 of
     None \<Rightarrow> None
   | Some n \<Rightarrow> if n < f then Some True else gap_after (if p < t then t else p) rest)"

definition has_coverage_gap :: "run_observed list \<Rightarrow> bool option" where
  "has_coverage_gap os = (let spans = covered_spans os in
     if length spans < 2 then Some False
     else (case sort_key fst spans of
       [] \<Rightarrow> Some False
     | (f, t) # rest \<Rightarrow> gap_after t rest))"

section \<open>Assessment\<close>

definition latest_successful :: "run_observed list \<Rightarrow> run_observed option" where
  "latest_successful os = List.find (\<lambda>o'. is_success_status (ob_status o')) os"

definition observed_newest_first :: "run_observed list \<Rightarrow> run_observed list option" where
  \<comment> \<open>\<open>sorted(.., key=observed_at, reverse=True)\<close> keeps the order of equal keys\<close>
  "observed_newest_first os = (if comparable (map ob_observed_at os)
     then Some (sort_key (\<lambda>o'. - instant (ob_observed_at o')) os) else None)"

definition as_of_day :: "as_of \<Rightarrow> date option" where
  "as_of_day a = (case a of On d \<Rightarrow> Some d | At s \<Rightarrow> wall_date s)"

definition assess_failed :: "freshness_config \<Rightarrow> date \<Rightarrow> run_observed \<Rightarrow> run_observed option \<Rightarrow> assessment option" where
  "assess_failed c d latest success =
     map_option (\<lambda>n. \<lparr> am_state = Parse_Failed, am_last_ingest_at = Some (ob_observed_at latest),
         am_next_expected_at = Some n,
         am_covered_from = Option.bind success ob_covered_from,
         am_covered_through = Option.bind success ob_covered_through,
         am_detail = Some (''latest run status is '' @ ob_status latest) \<rparr>)
       (next_expected_at c d success)"

definition assess_no_success :: "freshness_config \<Rightarrow> date \<Rightarrow> run_observed option \<Rightarrow> assessment option" where
  "assess_no_success c d latest = (case schedule_based_state c d None of
     None \<Rightarrow> None
   | Some st \<Rightarrow> map_option (\<lambda>n. \<lparr> am_state = st, am_last_ingest_at = map_option ob_observed_at latest,
         am_next_expected_at = Some n, am_covered_from = None, am_covered_through = None,
         am_detail = Some ''no successful ingest recorded'' \<rparr>)
       (next_expected_at c d None))"

definition assess_success :: "freshness_config \<Rightarrow> date \<Rightarrow> run_observed list \<Rightarrow> run_observed \<Rightarrow> assessment option" where
  "assess_success c d ordered success = (case has_coverage_gap ordered of
     None \<Rightarrow> None
   | Some gap \<Rightarrow> (case (if gap then Some Missing_Period else schedule_based_state c d (Some success)) of
       None \<Rightarrow> None
     | Some st \<Rightarrow> map_option (\<lambda>n. \<lparr> am_state = st, am_last_ingest_at = Some (ob_observed_at success),
           am_next_expected_at = Some n, am_covered_from = ob_covered_from success,
           am_covered_through = ob_covered_through success,
           am_detail = (if gap then Some ''coverage gap detected between successful ingests'' else None) \<rparr>)
         (next_expected_at c d (Some success))))"

definition unconfigured_assessment :: assessment where
  "unconfigured_assessment = \<lparr> am_state = Unconfigured, am_last_ingest_at = None,
     am_next_expected_at = None, am_covered_from = None, am_covered_through = None,
     am_detail = Some ''source asset has no freshness config'' \<rparr>"

definition evaluate_source_freshness ::
  "freshness_config option \<Rightarrow> run_observed list \<Rightarrow> as_of \<Rightarrow> assessment option" where
  "evaluate_source_freshness config os a = (case config of
     None \<Rightarrow> Some unconfigured_assessment
   | Some c \<Rightarrow> (case (as_of_day a, observed_newest_first os) of
       (Some d, Some ordered) \<Rightarrow>
         let latest = (case ordered of [] \<Rightarrow> None | o' # _ \<Rightarrow> Some o');
             success = latest_successful ordered in
         (case latest of
            Some l \<Rightarrow>
              if is_failure_status (ob_status l) then assess_failed c d l success
              else (case success of
                None \<Rightarrow> assess_no_success c d latest
              | Some s \<Rightarrow> assess_success c d ordered s)
          | None \<Rightarrow> assess_no_success c d None)
     | _ \<Rightarrow> None))"

section \<open>Observations of runs\<close>

definition derive_run_covered_through ::
  "freshness_config option \<Rightarrow> string \<Rightarrow> stamp \<Rightarrow> as_of option \<Rightarrow> date option option" where
  "derive_run_covered_through config status observed_at a = (case config of
     None \<Rightarrow> Some None
   | Some c \<Rightarrow>
       if fc_expected_frequency c = ''ad_hoc'' then Some None
       else if \<not> is_success_status status then Some None
       else (case utc_date observed_at of
         None \<Rightarrow> None
       | Some observed \<Rightarrow>
         (case (case a of None \<Rightarrow> Some False
                | Some (On d) \<Rightarrow> Some (d < observed)
                | Some (At s) \<Rightarrow> map_option (\<lambda>d. d < observed) (utc_date s)) of
            None \<Rightarrow> None
          | Some late \<Rightarrow>
              if late then Some None
              else if fc_expected_frequency c = ''weekly'' then Some (Some observed)
              else if fc_expected_frequency c \<notin> {''monthly'', ''quarterly'', ''annual''} then Some None
              else map_option Some (expected_covered_through c observed))))"

definition run_observation ::
  "freshness_config option \<Rightarrow> string \<Rightarrow> stamp \<Rightarrow> string option \<Rightarrow> as_of option \<Rightarrow> run_observed option" where
  "run_observation config status observed_at dataset_name a =
     map_option (\<lambda>t. \<lparr> ob_status = status, ob_observed_at = observed_at, ob_covered_from = None,
         ob_covered_through = t, ob_dataset_name = dataset_name \<rparr>)
       (derive_run_covered_through config status observed_at a)"

end
