(* ===== verification/FreshnessFacts.thy ===== *)
theory FreshnessFacts
  imports Freshness
begin

text \<open>
  Facts on the freshness model: the start of a schedule's period as the reference for the expected
  coverage, the order of dates and ordinals, the days a set of coverage spans leaves out and the
  states an assessment can reach.
\<close>

section \<open>Dates and ordinals\<close>

lemma plus_days_in_range:
  assumes "valid_date d" and "year d \<le> 9997" and "0 \<le> k" and "k \<le> 365"
  shows "\<exists>e. plus_days d k = Some e"
proof -
  have "days_before_year (year d + 1) + 365 \<le> days_before_year (year d + 1 + 1)"
    unfolding days_before_year_Suc [of "year d + 1"] using days_in_year_bounds(1) [of "year d + 1"] by simp
  also have "\<dots> \<le> days_before_year 10000"
    using assms(2) by (intro days_before_year_mono) simp
  finally show ?thesis
    using assms valid_ordinal_bounds [OF assms(1)] unfolding plus_days_def
    by (intro of_ordinal_total) linarith+
qed

lemma plus_days_zero: "valid_date d \<Longrightarrow> plus_days d 0 = Some d"
  by (simp add: plus_days_def of_ordinal_ordinal)

lemma month_end:
  assumes "1 \<le> m"
  shows "ordinal (Date y m (days_in_month y m)) = days_before_year y + days_before_month y (nat m)"
proof -
  have "nat m = Suc (nat (m - 1))" using assms by simp
  with assms show ?thesis by (simp add: ordinal_def)
qed

lemma plus_one_day:
  assumes "valid_date b" and "ordinal c + 1 = ordinal b"
  shows "plus_days c 1 = Some b"
  using assms by (simp add: plus_days_def of_ordinal_ordinal)

section \<open>The period of a schedule\<close>

definition period_start :: "string \<Rightarrow> date \<Rightarrow> date" where
  \<comment> \<open>the first day of the month, quarter or year of \<open>d\<close>\<close>
  "period_start freq d =
     (if freq = ''quarterly'' then Date (year d) (3 * quarter_of d + 1) 1
      else if freq = ''annual'' then Date (year d) 1 1
      else Date (year d) (month d) 1)"

definition calendar_schedule :: "string \<Rightarrow> bool" where
  "calendar_schedule freq \<longleftrightarrow> freq \<in> {''monthly'', ''quarterly'', ''annual''}"

lemma quarter_bounds:
  assumes "valid_date d"
  shows "0 \<le> quarter_of d" "quarter_of d \<le> 3"
  using assms by (auto simp: quarter_of_def valid_date_def)

lemma first_of_month_valid:
  "1 \<le> y \<Longrightarrow> y \<le> 9999 \<Longrightarrow> 1 \<le> m \<Longrightarrow> m \<le> 12 \<Longrightarrow> valid_date (Date y m 1)"
  using days_in_month_bounds(1) [of y m] by (simp add: valid_date_def)

lemma valid_year_month: "valid_date d \<Longrightarrow> 1 \<le> year d \<and> year d \<le> 9999 \<and> 1 \<le> month d \<and> month d \<le> 12"
  by (simp add: valid_date_def)

lemma period_start_valid: "valid_date d \<Longrightarrow> valid_date (period_start freq d)"
  using quarter_bounds [of d] by (simp add: period_start_def first_of_month_valid valid_year_month)

lemma period_start_le:
  assumes "valid_date d"
  shows "period_start freq d \<le> d"
proof -
  have "3 * quarter_of d + 1 \<le> month d" by (simp add: quarter_of_def)
  with assms show ?thesis by (auto simp: period_start_def less_eq_date_def valid_date_def)
qed

lemma period_start_mono:
  assumes "valid_date a" and "a \<le> b"
  shows "period_start freq a \<le> period_start freq b"
proof -
  have "quarter_of a \<le> quarter_of b" if "month a \<le> month b"
    using that by (simp add: quarter_of_def zdiv_mono1)
  with assms(2) show ?thesis by (auto simp: period_start_def less_eq_date_def)
qed


lemma expected_ends_before_period:
  assumes "valid_date d" and "2 \<le> year d" and "calendar_schedule (fc_expected_frequency c)"
  shows "\<exists>e. expected_covered_through c d = Some e \<and> valid_date e \<and>
    ordinal e + 1 = ordinal (period_start (fc_expected_frequency c) d)"
proof -
  have month_before: "valid_date (Date y m (days_in_month y m)) \<and>
      ordinal (Date y m (days_in_month y m)) + 1 = ordinal (Date y (m + 1) 1)"
    if "1 \<le> y" "y \<le> 9999" "1 \<le> m" "m \<le> 12" for y m
    using month_end [OF that(3), of y] that days_in_month_bounds(1) [of y m]
    by (simp add: valid_date_def ordinal_def)
  have year_before: "valid_date (Date (y - 1) 12 31) \<and> ordinal (Date (y - 1) 12 31) + 1 = ordinal (Date y 1 1)"
    if "2 \<le> y" "y \<le> 9999" for y
    using month_end [of 12 "y - 1"] that days_before_month_12 [of "y - 1"] days_before_year_Suc [of "y - 1"]
    by (simp add: valid_date_def ordinal_def days_in_month_def)
  note yd = valid_year_month [OF assms(1)]
  consider (month) "fc_expected_frequency c = ''monthly''" | (quarter) "fc_expected_frequency c = ''quarterly''"
    | (annual) "fc_expected_frequency c = ''annual''"
    using assms(3) by (auto simp: calendar_schedule_def)
  then show ?thesis
  proof cases
    case month
    then show ?thesis
      using year_before [of "year d"] month_before [of "year d" "month d - 1"] yd assms(2)
      by (auto simp: expected_covered_through_def last_day_of_previous_month_def make_date_def period_start_def)
  next
    case quarter
    have december: "days_in_month y 12 = 31" for y by (simp add: days_in_month_def)
    show ?thesis
    proof (cases "quarter_of d = 0")
      case True
      with quarter show ?thesis
        using year_before [of "year d"] yd assms(2)
        by (simp add: expected_covered_through_def make_date_def period_start_def december)
    next
      case False
      with quarter_bounds [OF assms(1)] have "1 \<le> 3 * quarter_of d" "3 * quarter_of d \<le> 12" by auto
      with False quarter show ?thesis
        using month_before [of "year d" "3 * quarter_of d"] yd
        by (simp add: expected_covered_through_def make_date_def period_start_def mult.commute Let_def)
    qed
  next
    case annual
    then show ?thesis
      using year_before [of "year d"] yd assms(2)
      by (auto simp: expected_covered_through_def make_date_def period_start_def)
  qed
qed

lemma expected_le_iff_same_period:
  assumes "valid_date a" "valid_date d" "2 \<le> year d" "d \<le> a"
    and "calendar_schedule (fc_expected_frequency c)"
    and "expected_covered_through c a = Some ea" "expected_covered_through c d = Some ed"
  shows "ea \<le> ed \<longleftrightarrow> period_start (fc_expected_frequency c) a = period_start (fc_expected_frequency c) d"
proof -
  let ?f = "fc_expected_frequency c"
  have "2 \<le> year a" using assms(3,4) by (auto simp: less_eq_date_def)
  with expected_ends_before_period [OF assms(1) _ assms(5)] expected_ends_before_period [OF assms(2,3,5)] assms(6,7)
  have e: "valid_date ea" "valid_date ed" "ordinal ea + 1 = ordinal (period_start ?f a)"
      "ordinal ed + 1 = ordinal (period_start ?f d)" by auto
  have "ea \<le> ed \<longleftrightarrow> ordinal (period_start ?f a) \<le> ordinal (period_start ?f d)"
    using ordinal_le_iff [OF e(1,2)] e(3,4) by linarith
  also have "\<dots> \<longleftrightarrow> period_start ?f a \<le> period_start ?f d"
    by (intro ordinal_le_iff period_start_valid assms)
  finally show ?thesis
    using period_start_mono [OF assms(2,4), of ?f] by auto
qed

section \<open>Coverage gaps\<close>

definition left_out :: "(date \<times> date) set \<Rightarrow> date \<Rightarrow> bool" where
  \<comment> \<open>a day after the first covered one that no span covers although a later span begins after it\<close>
  "left_out spans x \<longleftrightarrow> (\<exists>s\<in>spans. fst s \<le> x) \<and> (\<exists>s\<in>spans. x < fst s) \<and>
     (\<forall>s\<in>spans. \<not> (fst s \<le> x \<and> x \<le> snd s))"

lemma gap_after_spec:
  assumes "gap_after p spans = Some g" and "valid_date p" and "sorted (map fst spans)"
    and "\<forall>s\<in>set spans. valid_date (fst s) \<and> valid_date (snd s) \<and> fst s \<le> snd s"
  shows "g \<longleftrightarrow> (\<exists>x. valid_date x \<and> p < x \<and> (\<exists>s\<in>set spans. x < fst s) \<and>
    (\<forall>s\<in>set spans. \<not> (fst s \<le> x \<and> x \<le> snd s)))"
  using assms
proof (induction p spans rule: gap_after.induct)
  case (2 p f t rest)
  from "2.prems"(1) obtain n where n: "plus_days p 1 = Some n" by (auto split: option.split_asm)
  from plus_days_valid [OF n] have vn: "valid_date n" "ordinal n = ordinal p + 1" by simp_all
  have pn: "p < n" using ordinal_less_iff [OF "2.prems"(2) vn(1)] vn(2) by simp
  have next_day: "n \<le> x" if "valid_date x" "p < x" for x
    using ordinal_less_iff [OF "2.prems"(2) that(1)] ordinal_le_iff [OF vn(1) that(1)] vn(2) that(2) by linarith
  from "2.prems"(3,4) have ft: "f \<le> t" "valid_date t" "valid_date f" "sorted (map fst rest)" and later: "\<forall>s\<in>set rest. f \<le> fst s"
    and ok: "\<forall>s\<in>set rest. valid_date (fst s) \<and> valid_date (snd s) \<and> fst s \<le> snd s" by auto
  show ?case
  proof (cases "n < f")
    case True
    with "2.prems"(1) n have "g" by simp
    moreover have "\<forall>s\<in>set ((f, t) # rest). \<not> (fst s \<le> n \<and> n \<le> snd s)"
      using True later by (auto dest: less_le_trans)
    ultimately show ?thesis using True pn vn(1) by (intro iffI exI [of _ n]) auto
  next
    case False
    let ?q = "if p < t then t else p"
    have g: "gap_after ?q rest = Some g" using "2.prems"(1) n False by simp
    have q: "valid_date ?q" using "2.prems"(2) ft(2) by simp
    from "2.IH" [OF n False g q ft(4) ok]
    have g_iff: "g \<longleftrightarrow> (\<exists>x. valid_date x \<and> ?q < x \<and> (\<exists>s\<in>set rest. x < fst s) \<and>
      (\<forall>s\<in>set rest. \<not> (fst s \<le> x \<and> x \<le> snd s)))" .
    have "?q < x \<longleftrightarrow> p < x \<and> \<not> (f \<le> x \<and> x \<le> t)" if x: "valid_date x" for x
    proof -
      have "f \<le> x" if "p < x" using next_day [OF x that] False by auto
      then show ?thesis by (auto split: if_splits)
    qed
    moreover have "\<not> x < f" if "valid_date x" "p < x" for x
      using next_day [OF that] False by auto
    ultimately show ?thesis unfolding g_iff by auto
  qed
qed simp

lemma covered_spans_set:
  "s \<in> set (covered_spans os) \<longleftrightarrow> (\<exists>o'\<in>set os. is_success_status (ob_status o') \<and>
     ob_covered_from o' = Some (fst s) \<and> ob_covered_through o' = Some (snd s))"
proof -
  have member: "s \<in> set (case (ob_covered_from o', ob_covered_through o') of
       (Some f, Some t) \<Rightarrow> if is_success_status (ob_status o') then [(f, t)] else [] | _ \<Rightarrow> []) \<longleftrightarrow>
     is_success_status (ob_status o') \<and> ob_covered_from o' = Some (fst s) \<and> ob_covered_through o' = Some (snd s)" for o'
    by (cases s) (auto split: option.splits)
  show ?thesis by (simp only: covered_spans_def set_concat set_map UN_iff image_image member)
qed


lemma spans_sorted:
  assumes "sort_key fst spans = (f, t) # rest"
  shows "set spans = insert (f, t) (set rest)" "\<forall>s\<in>set rest. f \<le> fst s" "sorted (map fst rest)"
proof -
  have "set (sort_key fst spans) = set spans" by simp
  with assms show "set spans = insert (f, t) (set rest)" by simp
  have "sorted (map fst (sort_key fst spans))" by (rule sorted_sort_key)
  with assms show "\<forall>s\<in>set rest. f \<le> fst s" "sorted (map fst rest)" by auto
qed

lemma gap_iff_left_out:
  assumes "has_coverage_gap os = Some g"
    and "\<forall>s\<in>set (covered_spans os). valid_date (fst s) \<and> valid_date (snd s) \<and> fst s \<le> snd s"
  shows "g \<longleftrightarrow> (\<exists>x. valid_date x \<and> left_out (set (covered_spans os)) x)"
proof (cases "length (covered_spans os) < 2")
  case True
  then consider (none) "covered_spans os = []" | (one) s where "covered_spans os = [s]"
    by (cases "covered_spans os" rule: remdups_adj.cases) auto
  then have "\<not> left_out (set (covered_spans os)) x" for x
    by cases (auto simp: left_out_def)
  with assms(1) True show ?thesis by (simp add: has_coverage_gap_def)
next
  case False
  then obtain f t rest where st: "sort_key fst (covered_spans os) = (f, t) # rest"
    by (cases "sort_key fst (covered_spans os)") (auto dest!: arg_cong [where f = length])
  note spans = spans_sorted [OF st]
  from assms(1) False st have "gap_after t rest = Some g" by (simp add: has_coverage_gap_def)
  moreover have "valid_date t" "f \<le> t" "\<forall>s\<in>set rest. valid_date (fst s) \<and> valid_date (snd s) \<and> fst s \<le> snd s"
    using assms(2) unfolding spans(1) by auto
  ultimately have "g \<longleftrightarrow> (\<exists>x. valid_date x \<and> t < x \<and> (\<exists>s\<in>set rest. x < fst s) \<and>
      (\<forall>s\<in>set rest. \<not> (fst s \<le> x \<and> x \<le> snd s)))"
    using gap_after_spec spans(3) by blast
  moreover have "left_out (insert (f, t) (set rest)) x \<longleftrightarrow> t < x \<and> (\<exists>s\<in>set rest. x < fst s) \<and>
      (\<forall>s\<in>set rest. \<not> (fst s \<le> x \<and> x \<le> snd s))" for x
    using spans(2) \<open>f \<le> t\<close> by (auto simp: left_out_def intro: order_trans dest: order_trans)
  ultimately show ?thesis by (simp only: spans(1))
qed

section \<open>States\<close>

lemma due_not_before:
  assumes "due_date_for_cycle c d = Some due" and "valid_date d"
    and "fc_expected_frequency c = ''weekly'' \<or> fc_due_day_of_month c = None"
  shows "valid_date due \<and> d \<le> due"
proof -
  have q: "month d \<le> 3 * (quarter_of d + 1)" by (simp add: quarter_of_def)
  have dd: "day d \<le> days_in_month (year d) (month d)" "month d \<le> 12"
    using assms(2) by (simp_all add: valid_date_def)
  consider (same) "due = d" | (quarter) m where "due = Date (year d) m (days_in_month (year d) m)" "m = 3 * (quarter_of d + 1)" "valid_date due"
    | (annual) "due = Date (year d) 12 (days_in_month (year d) 12)" "valid_date due"
  proof (cases "fc_expected_frequency c = ''weekly''")
    case True
    with assms(1) same show thesis by (simp add: due_date_for_cycle_def)
  next
    case False
    with assms(3) have none: "fc_due_day_of_month c = None" by simp
    show thesis
    proof (cases "fc_expected_frequency c = ''quarterly''")
      case True
      with assms(1) none have "make_date (year d) (3 * (quarter_of d + 1)) (days_in_month (year d) (3 * (quarter_of d + 1))) = Some due"
        by (simp add: due_date_for_cycle_def due_day_or_def Let_def mult.commute)
      then show thesis unfolding make_date_Some using quarter [OF _ refl] by blast
    next
      case False
      with assms(1) none annual same \<open>fc_expected_frequency c \<noteq> ''weekly''\<close> show thesis
        by (auto simp: due_date_for_cycle_def due_day_or_def Let_def make_date_Some split: if_split_asm)
    qed
  qed
  then show ?thesis
  proof cases
    case same
    with assms(2) show ?thesis by simp
  next
    case quarter
    with q dd show ?thesis by (auto simp: less_eq_date_def)
  next
    case annual
    with dd show ?thesis by (auto simp: less_eq_date_def)
  qed
qed

lemma never_overdue_state:
  assumes "schedule_based_state c d latest = Some st" and "valid_date d" and "0 \<le> fc_expected_window_days c"
    and "fc_expected_frequency c = ''weekly'' \<or> fc_due_day_of_month c = None"
  shows "st \<noteq> Overdue"
proof
  assume "st = Overdue"
  with assms(1) obtain due w where due: "due_date_for_cycle c d = Some due" and
    w: "plus_days due (fc_expected_window_days c) = Some w" "w < d"
    by (auto simp: schedule_based_state_def split: if_splits option.splits)
  from due_not_before [OF due assms(2,4)] have d: "valid_date due" "d \<le> due" by simp_all
  have "due \<le> w"
    using plus_days_valid [OF w(1)] assms(3) ordinal_le_iff [OF d(1), of w] by simp
  with d(2) w(2) show False by simp
qed

lemma find_newest:
  assumes "observed_newest_first os = Some ordered"
  shows "set ordered = set os"
  using assms by (auto simp: observed_newest_first_def split: if_splits)

lemma assess_failed_state: "assess_failed c d l s = Some am \<Longrightarrow> am_state am = Parse_Failed"
  by (auto simp: assess_failed_def)

lemma assess_no_success_state:
  "assess_no_success c d l = Some am \<Longrightarrow> schedule_based_state c d None = Some (am_state am)"
  by (auto simp: assess_no_success_def split: option.split_asm)

lemma assess_success_state:
  assumes "assess_success c d os s = Some am"
  obtains gap where "has_coverage_gap os = Some gap"
    "if gap then am_state am = Missing_Period else schedule_based_state c d (Some s) = Some (am_state am)"
proof -
  from assms obtain gap st where g: "has_coverage_gap os = Some gap"
    "(if gap then Some Missing_Period else schedule_based_state c d (Some s)) = Some st" "am_state am = st"
    unfolding assess_success_def by (fastforce split: option.split_asm)
  then show thesis by (intro that [of gap]) (auto split: if_splits)
qed

lemma evaluate_Some_cases:
  assumes "evaluate_source_freshness (Some c) os a = Some am"
  obtains d ordered where "as_of_day a = Some d" "observed_newest_first os = Some ordered"
    and "am_state am = Parse_Failed \<or> schedule_based_state c d None = Some (am_state am) \<or>
      (\<exists>s gap. latest_successful ordered = Some s \<and> has_coverage_gap ordered = Some gap \<and>
        (if gap then am_state am = Missing_Period else schedule_based_state c d (Some s) = Some (am_state am)))"
proof -
  from assms obtain d ordered where d: "as_of_day a = Some d" "observed_newest_first os = Some ordered"
    by (auto simp: evaluate_source_freshness_def split: option.splits)
  with assms consider (failed) l s where "assess_failed c d l s = Some am"
    | (none) l where "assess_no_success c d l = Some am"
    | (success) s where "latest_successful ordered = Some s" "assess_success c d ordered s = Some am"
    by (auto simp: evaluate_source_freshness_def Let_def split: option.split_asm list.split_asm if_split_asm)
  then show thesis
  proof cases
    case failed
    from that [OF d disjI1 [OF assess_failed_state [OF failed]]] show thesis .
  next
    case none
    from that [OF d disjI2 [OF disjI1 [OF assess_no_success_state [OF none]]]] show thesis .
  next
    case success
    from assess_success_state [OF success(2)] success(1) that [OF d] show thesis by blast
  qed
qed

end
