(* ===== verification/FreshnessClaims.thy ===== *)
theory FreshnessClaims
  imports FreshnessFacts
begin

text \<open>
  The properties of source freshness: when a landed run makes its source current, what the gap
  detection finds, and the sources that are never overdue.
\<close>

section \<open>Calls that return\<close>

definition usable_schedule :: "freshness_config \<Rightarrow> bool" where
  \<comment> \<open>a due day from the 1st and a window of at most a year, so that no date leaves the calendar\<close>
  "usable_schedule c \<longleftrightarrow> 0 \<le> fc_expected_window_days c \<and> fc_expected_window_days c \<le> 365 \<and>
     (case fc_due_day_of_month c of None \<Rightarrow> True | Some k \<Rightarrow> 1 \<le> k)"

lemma clipped_day_valid:
  "1 \<le> y \<Longrightarrow> y \<le> 9999 \<Longrightarrow> 1 \<le> m \<Longrightarrow> m \<le> 12 \<Longrightarrow> 1 \<le> k \<Longrightarrow> valid_date (Date y m (min k (days_in_month y m)))"
  using days_in_month_bounds(1) [of y m] by (simp add: valid_date_def)

lemma due_date_exists:
  assumes "usable_schedule c" and "valid_date d"
  obtains due where "due_date_for_cycle c d = Some due" "valid_date due" "year due = year d"
proof -
  have k: "1 \<le> due_day_or c l" if "1 \<le> l" for l
    using assms(1) that by (auto simp: usable_schedule_def due_day_or_def split: option.splits)
  have l: "1 \<le> days_in_month y m" for y m using days_in_month_bounds(1) [of y m] by simp
  note clip = clipped_day_valid [of "year d"] valid_year_month [OF assms(2)] quarter_bounds [OF assms(2)]
  show thesis
  proof (cases "fc_expected_frequency c \<in> {''weekly'', ''quarterly'', ''annual''}")
    case True
    then show thesis
      using that [of d] that [of "Date (year d) ((quarter_of d + 1) * 3) (min (due_day_or c (days_in_month (year d) ((quarter_of d + 1) * 3))) (days_in_month (year d) ((quarter_of d + 1) * 3)))"]
        that [of "Date (year d) 12 (min (due_day_or c (days_in_month (year d) 12)) (days_in_month (year d) 12))"]
        clip k [OF l] assms(2)
      by (auto simp: due_date_for_cycle_def make_date_Some Let_def)
  next
    case False
    then show thesis
      using that [of d] that [of "Date (year d) (month d) (min (the (fc_due_day_of_month c)) (days_in_month (year d) (month d)))"]
        clip assms
      by (cases "fc_due_day_of_month c") (auto simp: due_date_for_cycle_def make_date_Some usable_schedule_def)
  qed
qed

lemma add_months_exists:
  assumes "valid_date d" and "year d \<le> 9998" and "0 \<le> k" and "k \<le> 12"
  shows "\<exists>e. add_months d k = Some e"
proof -
  let ?m = "month d - 1 + k"
  have "0 \<le> ?m" "?m < 24" using valid_year_month [OF assms(1)] assms(3,4) by auto
  then have "0 \<le> ?m div 12" "?m div 12 \<le> 1" "0 \<le> ?m mod 12" "?m mod 12 < 12" by auto
  moreover have "1 \<le> day d" using assms(1) by (simp add: valid_date_def)
  ultimately show ?thesis
    using valid_year_month [OF assms(1)] assms(2)
    by (simp add: add_months_def Let_def make_date_Some clipped_day_valid)
qed

lemma next_expected_exists:
  assumes "usable_schedule c" and "valid_date d" and "year d \<le> 9998" and "calendar_schedule (fc_expected_frequency c)"
  shows "\<exists>n. next_expected_at c d s = Some n"
proof -
  from due_date_exists [OF assms(1,2)] obtain due
    where due: "due_date_for_cycle c d = Some due" "valid_date due" "year due = year d" .
  have "1 \<le> day due" using due(2) by (simp add: valid_date_def)
  then have "make_date (year due + 1) (month due) (min (day due) (days_in_month (year due + 1) (month due))) \<noteq> None"
    using valid_year_month [OF due(2)] due(3) assms(3) by (simp add: make_date_def clipped_day_valid)
  then show ?thesis
    using add_months_exists [OF due(2), of 1] add_months_exists [OF due(2), of 3] assms(3,4) due(1,3)
    by (auto simp: next_expected_at_def calendar_schedule_def)
qed

lemma schedule_state_exists:
  assumes "usable_schedule c" and "valid_date d" and "2 \<le> year d" "year d \<le> 9997"
    and "calendar_schedule (fc_expected_frequency c)"
  shows "\<exists>st. schedule_based_state c d s = Some st"
proof -
  from due_date_exists [OF assms(1,2)] obtain due
    where due: "due_date_for_cycle c d = Some due" "valid_date due" "year due = year d" .
  from plus_days_in_range [OF due(2)] assms(1,4) due(3)
  have "\<exists>e. plus_days due (fc_expected_window_days c) = Some e" by (simp add: usable_schedule_def)
  with expected_ends_before_period [OF assms(2,3,5)] due(1) show ?thesis
    by (auto simp: schedule_based_state_def)
qed

section \<open>One landed run\<close>

lemma run_observation_of_success:
  assumes "calendar_schedule (fc_expected_frequency c)" and "is_success_status status"
    and "utc_date t = Some d" and "d \<le> a" and "expected_covered_through c d = Some e"
  shows "run_observation (Some c) status t ds (Some (On a)) = Some \<lparr> ob_status = status,
    ob_observed_at = t, ob_covered_from = None, ob_covered_through = Some e, ob_dataset_name = ds \<rparr>"
  using assms by (auto simp: run_observation_def derive_run_covered_through_def calendar_schedule_def)

lemma success_not_failure: "is_success_status s \<Longrightarrow> \<not> is_failure_status s"
  by (auto simp: is_success_status_def is_failure_status_def)

lemma no_gap_without_start: "\<forall>o'\<in>set os. ob_covered_from o' = None \<Longrightarrow> has_coverage_gap os = Some False"
proof -
  assume "\<forall>o'\<in>set os. ob_covered_from o' = None"
  then have "covered_spans os = []" by (auto simp: covered_spans_def)
  then show ?thesis by (simp add: has_coverage_gap_def)
qed

lemma evaluate_single:
  assumes "is_success_status (ob_status ob)" and "ob_covered_from ob = None"
  shows "evaluate_source_freshness (Some c) [ob] (On a) = assess_success c a [ob] ob"
proof -
  have "comparable [ob_observed_at ob]" by (cases "utcoffset (ob_observed_at ob)") (simp_all add: comparable_def)
  then have "observed_newest_first [ob] = Some [ob]" by (simp add: observed_newest_first_def)
  with assms(1) show ?thesis
    by (simp add: evaluate_source_freshness_def as_of_day_def latest_successful_def success_not_failure)
qed

text \<open>C19: on a calendar schedule (monthly, quarterly or annual) a run that landed successfully is taken
  to cover exactly up to the day before its own period begins, and evaluating it on any later day
  succeeds and reports the source current on the days of that same period and on no other.\<close>
theorem run_current_within_its_period:
  assumes "calendar_schedule (fc_expected_frequency c)" and "usable_schedule c" and "is_success_status status"
    and "utc_date t = Some d" and "valid_date a" and "2 \<le> year d" and "d \<le> a" and "year a \<le> 9997"
  shows "\<exists>ob am. run_observation (Some c) status t ds (Some (On a)) = Some ob \<and>
    Option.bind (ob_covered_through ob) (\<lambda>e. plus_days e 1) = Some (period_start (fc_expected_frequency c) d) \<and>
    evaluate_source_freshness (Some c) [ob] (On a) = Some am \<and> am_last_ingest_at am = Some t \<and>
    (am_state am = Current \<longleftrightarrow> period_start (fc_expected_frequency c) a = period_start (fc_expected_frequency c) d)"
proof -
  let ?f = "fc_expected_frequency c"
  have vd: "valid_date d"
    using assms(4) of_ordinal_spec by (auto simp: utc_date_def date_of_instant_def split: option.split_asm)
  have ya: "2 \<le> year a" using assms(6,7) by (auto simp: less_eq_date_def)
  from expected_ends_before_period [OF vd assms(6,1)] obtain ed
    where ed: "expected_covered_through c d = Some ed" "ordinal ed + 1 = ordinal (period_start ?f d)" by blast
  from expected_ends_before_period [OF assms(5) ya assms(1)] obtain ea
    where ea: "expected_covered_through c a = Some ea" by blast
  from run_observation_of_success [OF assms(1,3,4,7) ed(1)] obtain ob
    where ob: "run_observation (Some c) status t ds (Some (On a)) = Some ob" "ob_status ob = status"
      "ob_observed_at ob = t" "ob_covered_from ob = None" "ob_covered_through ob = Some ed" by auto
  from schedule_state_exists [OF assms(2,5) ya assms(8,1)] obtain st where st: "schedule_based_state c a (Some ob) = Some st" ..
  from next_expected_exists [OF assms(2,5) _ assms(1)] assms(8) obtain n where n: "next_expected_at c a (Some ob) = Some n" by force
  obtain am where am: "assess_success c a [ob] ob = Some am" "am_state am = st" "am_last_ingest_at am = Some t"
    using st n ob no_gap_without_start [of "[ob]"] by (simp add: assess_success_def)
  have "st = Current \<longleftrightarrow> ea \<le> ed"
    using st ea ob(5) assms(1) by (auto simp: schedule_based_state_def calendar_schedule_def split: option.splits if_splits)
  moreover have "plus_days ed 1 = Some (period_start ?f d)"
    by (rule plus_one_day [OF period_start_valid [OF vd] ed(2)])
  ultimately show ?thesis
    using evaluate_single [of ob c a] am ob assms(3) expected_le_iff_same_period [OF assms(5) vd assms(6,7,1) ea ed(1)]
    by auto
qed

definition monthly_source :: freshness_config where
  "monthly_source = \<lparr> fc_source_asset_id = ''op-common-account'', fc_acquisition_mode = ''manual_export'',
     fc_expected_frequency = ''monthly'', fc_coverage_kind = ''rolling_period'', fc_due_day_of_month = Some 5,
     fc_expected_window_days = 5, fc_freshness_sla_days = 40, fc_sensitivity_class = ''financial'',
     fc_reminder_channel = ''dashboard'', fc_requires_human_action = True \<rparr>"

lemma demo_day: "utc_date (Stamp 1790899200000000 (Some 0)) = Some (Date 2026 10 2)"
  by code_simp

theorem run_current_within_its_period_witness:
  "\<exists>ob am. run_observation (Some monthly_source) ''landed'' (Stamp 1790899200000000 (Some 0)) None (Some (On (Date 2026 10 18))) = Some ob \<and>
    evaluate_source_freshness (Some monthly_source) [ob] (On (Date 2026 10 18)) = Some am \<and> am_state am = Current"
proof -
  have "calendar_schedule (fc_expected_frequency monthly_source)" "usable_schedule monthly_source"
    "is_success_status ''landed''" "valid_date (Date 2026 10 18)" "Date 2026 10 2 \<le> Date 2026 10 18"
    by code_simp+
  moreover have "period_start (fc_expected_frequency monthly_source) (Date 2026 10 18) =
      period_start (fc_expected_frequency monthly_source) (Date 2026 10 2)" by code_simp
  ultimately show ?thesis
    using run_current_within_its_period [OF _ _ _ demo_day, of monthly_source "''landed''" "Date 2026 10 18" None] by auto
qed

section \<open>Gaps\<close>

text \<open>C20: the sweep over the successful observations, sorted by the first day they cover, reports a
  coverage gap exactly when some day at or after the start of one of them and before the start of
  another is covered by none, however the observations overlap or nest, provided that each of them
  covers valid dates and does not end before it begins.  Days before the first or after the last
  covered day are never a gap.\<close>
theorem gap_is_uncovered_day:
  assumes "\<forall>s\<in>set (covered_spans os). valid_date (fst s) \<and> valid_date (snd s) \<and> fst s \<le> snd s"
    and "has_coverage_gap os = Some g"
  shows "g \<longleftrightarrow> (\<exists>x. valid_date x \<and> left_out (set (covered_spans os)) x)"
  by (rule gap_iff_left_out [OF assms(2,1)])

definition covering :: "date \<Rightarrow> date \<Rightarrow> run_observed" where
  "covering f t = \<lparr> ob_status = ''landed'', ob_observed_at = midnight t, ob_covered_from = Some f,
     ob_covered_through = Some t, ob_dataset_name = None \<rparr>"

theorem gap_is_uncovered_day_witness:
  "\<exists>x. valid_date x \<and> left_out (set (covered_spans
     [covering (Date 2026 3 1) (Date 2026 3 31), covering (Date 2026 1 1) (Date 2026 1 31)])) x"
proof -
  let ?os = "[covering (Date 2026 3 1) (Date 2026 3 31), covering (Date 2026 1 1) (Date 2026 1 31)]"
  have "\<forall>s\<in>set (covered_spans ?os). valid_date (fst s) \<and> valid_date (snd s) \<and> fst s \<le> snd s"
    by code_simp
  moreover have "has_coverage_gap ?os = Some True" by code_simp
  ultimately show ?thesis using gap_is_uncovered_day by blast
qed

section \<open>States that cannot be reached\<close>

text \<open>a weekly source, and any source without a due day, is never reported overdue, however long
  ago its last run landed: its due date is the day itself or the last day of its period.\<close>
theorem never_overdue_without_due_day:
  assumes "fc_expected_frequency c = ''weekly'' \<or> fc_due_day_of_month c = None"
    and "0 \<le> fc_expected_window_days c" and "as_of_day a = Some d" and "valid_date d"
    and "evaluate_source_freshness (Some c) os a = Some am"
  shows "am_state am \<noteq> Overdue"
proof -
  have none: "st \<noteq> Overdue" if "schedule_based_state c d s = Some st" for s st
    by (rule never_overdue_state [OF that assms(4,2,1)])
  show ?thesis
    by (rule evaluate_Some_cases [OF assms(5)]) (use none assms(3) in \<open>auto split: if_split_asm\<close>)
qed

definition weekly_source :: freshness_config where
  "weekly_source = monthly_source \<lparr> fc_expected_frequency := ''weekly'', fc_due_day_of_month := None,
     fc_expected_window_days := 3, fc_freshness_sla_days := 14 \<rparr>"

theorem never_overdue_without_due_day_witness:
  "\<exists>am. evaluate_source_freshness (Some weekly_source) [covering (Date 2020 1 1) (Date 2020 1 7)] (On (Date 2026 10 18)) = Some am \<and>
     am_state am \<noteq> Overdue"
proof -
  have "evaluate_source_freshness (Some weekly_source) [covering (Date 2020 1 1) (Date 2020 1 7)] (On (Date 2026 10 18)) \<noteq> None"
    by code_simp
  then obtain am where am: "evaluate_source_freshness (Some weekly_source)
      [covering (Date 2020 1 1) (Date 2020 1 7)] (On (Date 2026 10 18)) = Some am" by blast
  have "fc_expected_frequency weekly_source = ''weekly''" "0 \<le> fc_expected_window_days weekly_source"
    "valid_date (Date 2026 10 18)" by code_simp+
  with never_overdue_without_due_day [OF _ _ _ _ am] am show ?thesis by (simp add: as_of_day_def)
qed

text \<open>
  Observations built from runs record no first covered day, so among them the gap detection is
  silent and no source is ever reported with a missing period.
\<close>

lemma runs_never_miss_a_period:
  assumes "\<forall>ob\<in>set os. \<exists>status t ds a. run_observation (Some c) status t ds a = Some ob"
    and "evaluate_source_freshness (Some c) os now = Some am"
  shows "am_state am \<noteq> Missing_Period"
proof -
  obtain d ordered where o: "observed_newest_first os = Some ordered"
    "am_state am = Parse_Failed \<or> schedule_based_state c d None = Some (am_state am) \<or>
      (\<exists>s gap. latest_successful ordered = Some s \<and> has_coverage_gap ordered = Some gap \<and>
        (if gap then am_state am = Missing_Period else schedule_based_state c d (Some s) = Some (am_state am)))"
    by (rule evaluate_Some_cases [OF assms(2)])
  have "\<forall>ob\<in>set ordered. ob_covered_from ob = None"
    using assms(1) find_newest [OF o(1)] by (fastforce simp: run_observation_def)
  from no_gap_without_start [OF this] o(2) show ?thesis
    by (auto simp: schedule_based_state_def split: option.splits if_splits)
qed

end
