(* ===== verification/Confidence.thy ===== *)
theory Confidence
  imports Complex_Main Freshness
begin

text \<open>
  Publication confidence (\<open>packages/platform/publication_confidence.py\<close>): signal states, the verdict
  and the publication's freshness, and the keys snapshots are stored under
  (\<open>packages/platform/publication_keys.py\<close>).  Percentages the code computes as floats are exact
  rationals; the only comparison made of them, with 50, agrees with the float for any realistic
  number of sources.
\<close>

section \<open>Signals\<close>

datatype verdict = Trustworthy | Degraded | Unreliable | Unavailable
datatype signal_state = Known | Partial | Unknown
datatype pub_freshness = Pub_Current | Pub_Due_Soon | Pub_Stale | Pub_Unavailable

type_synonym flags = "(string \<times> int) list"

record source_snapshot =
  ss_source_asset_id :: string
  ss_freshness_state :: freshness_state
  ss_last_ingest_at :: "stamp option"
  ss_covered_through :: "string option"

record snapshot =
  sn_snapshot_id :: string
  sn_publication_key :: string
  sn_assessed_at :: int
  sn_freshness_state :: pub_freshness
  sn_completeness_pct :: int
  sn_source_freshness_states :: "(string \<times> source_snapshot) list"
  sn_contributing_run_ids :: "string list"
  sn_quality_flags :: flags
  sn_confidence_verdict :: verdict

definition verdict_text :: "verdict \<Rightarrow> string" where
  "verdict_text v = (case v of Trustworthy \<Rightarrow> ''trustworthy'' | Degraded \<Rightarrow> ''degraded''
     | Unreliable \<Rightarrow> ''unreliable'' | Unavailable \<Rightarrow> ''unavailable'')"

definition parse_verdict :: "string \<Rightarrow> verdict option" where
  "parse_verdict t = List.find (\<lambda>v. verdict_text v = t) [Trustworthy, Degraded, Unreliable, Unavailable]"

definition pub_freshness_text :: "pub_freshness \<Rightarrow> string" where
  "pub_freshness_text s = (case s of Pub_Current \<Rightarrow> ''current'' | Pub_Due_Soon \<Rightarrow> ''due_soon''
     | Pub_Stale \<Rightarrow> ''stale'' | Pub_Unavailable \<Rightarrow> ''unavailable'')"

definition parse_pub_freshness :: "string \<Rightarrow> pub_freshness option" where
  "parse_pub_freshness t = List.find (\<lambda>s. pub_freshness_text s = t) [Pub_Current, Pub_Due_Soon, Pub_Stale, Pub_Unavailable]"

definition flag_or :: "flags \<Rightarrow> string \<Rightarrow> int \<Rightarrow> int" where
  "flag_or f k d = (case map_of f k of None \<Rightarrow> d | Some n \<Rightarrow> n)"

definition validation_signal_state :: "flags \<Rightarrow> signal_state" where
  "validation_signal_state f =
     (if map_of f ''validation_errors'' = None then Unknown
      else if 0 < flag_or f ''validation_unknown_runs'' 0 then Partial
      else Known)"

definition completeness_signal_state :: "flags \<Rightarrow> signal_state" where
  "completeness_signal_state f = (let unknown = flag_or f ''completeness_unknown_sources'' 0 in
     if unknown \<le> 0 then Known
     else if flag_or f ''completeness_expected_sources'' unknown \<le> unknown then Unknown
     else Partial)"

definition has_validation_errors :: "flags \<Rightarrow> bool" where
  "has_validation_errors f \<longleftrightarrow> 0 < flag_or f ''validation_errors'' 0 \<or> 0 < flag_or f ''rejected_runs'' 0"

definition completeness_upper_bound :: "int \<Rightarrow> flags \<Rightarrow> rat" where
  "completeness_upper_bound pct f =
     (let unknown = flag_or f ''completeness_unknown_sources'' 0;
          expected = flag_or f ''completeness_expected_sources'' 0
      in if unknown \<le> 0 \<or> expected \<le> 0 then of_int pct
         else min 100 (of_int pct + 100 * of_int unknown / of_int expected))"

section \<open>Verdict\<close>

definition compute_verdict :: "(string \<times> source_snapshot) list \<Rightarrow> int \<Rightarrow> flags \<Rightarrow> verdict" where
  "compute_verdict snaps pct f =
     (if snaps = [] then Unavailable
      else let states = map (\<lambda>(_, s). ss_freshness_state s) snaps in
        if list_all (\<lambda>s. s = Unconfigured) states then Unavailable
        else if list_all (\<lambda>s. s = Current) states \<and> pct = 100 \<and> completeness_signal_state f = Known \<and>
             validation_signal_state f = Known \<and> \<not> has_validation_errors f then Trustworthy
        else if list_ex (\<lambda>s. s = Overdue \<or> s = Missing_Period) states \<or> has_validation_errors f then
          (if completeness_upper_bound pct f < 50 then Unreliable else Degraded)
        else Degraded)"

definition compute_publication_freshness_state :: "(string \<times> source_snapshot) list \<Rightarrow> pub_freshness" where
  "compute_publication_freshness_state snaps =
     (if snaps = [] then Pub_Unavailable
      else let states = map (\<lambda>(_, s). ss_freshness_state s) snaps in
        if list_ex (\<lambda>s. s = Overdue \<or> s = Missing_Period) states then Pub_Stale
        else if list_ex (\<lambda>s. s = Due_Soon) states then Pub_Due_Soon
        else if list_all (\<lambda>s. s = Current) states then Pub_Current
        else Pub_Unavailable)"

definition create_snapshot ::
  "string \<Rightarrow> string \<Rightarrow> int \<Rightarrow> pub_freshness \<Rightarrow> int \<Rightarrow> (string \<times> source_snapshot) list \<Rightarrow> string list \<Rightarrow> flags \<Rightarrow> snapshot" where
  \<comment> \<open>\<open>PublicationConfidenceSnapshot.create\<close>; the first argument is the fresh \<open>uuid4\<close>\<close>
  "create_snapshot uuid key assessed_at fresh pct snaps run_ids f =
     \<lparr> sn_snapshot_id = uuid, sn_publication_key = key, sn_assessed_at = assessed_at,
       sn_freshness_state = fresh, sn_completeness_pct = pct, sn_source_freshness_states = snaps,
       sn_contributing_run_ids = run_ids, sn_quality_flags = f,
       sn_confidence_verdict = compute_verdict snaps pct f \<rparr>"

section \<open>Keys\<close>

record key_resolver =
  kr_relation_by_contract_key :: "(string \<times> string) list"
  kr_contract_key_by_relation :: "(string \<times> string) list"

definition make_key_resolver :: "(string \<times> string) list \<Rightarrow> key_resolver" where
  \<comment> \<open>both tables are dicts: of equal keys the last entry counts\<close>
  "make_key_resolver relations = (let d = dict_of relations in
     \<lparr> kr_relation_by_contract_key = d, kr_contract_key_by_relation = dict_of (map (\<lambda>(k, r). (r, k)) d) \<rparr>)"

definition from_capability_packs :: "(string \<times> string) list list \<Rightarrow> key_resolver" where
  \<comment> \<open>a pack is given by the keys and schema names of its publications\<close>
  "from_capability_packs packs = make_key_resolver
     (concat (map (map (\<lambda>(key, schema_name). (key, ''mart_'' @ schema_name))) packs))"

definition snapshot_key :: "key_resolver \<Rightarrow> string \<Rightarrow> string" where
  "snapshot_key kr k = (case map_of (kr_relation_by_contract_key kr) k of None \<Rightarrow> k | Some r \<Rightarrow> r)"

definition contract_key :: "key_resolver \<Rightarrow> string \<Rightarrow> string" where
  "contract_key kr k = (if map_of (kr_relation_by_contract_key kr) k \<noteq> None then k
     else (case map_of (kr_contract_key_by_relation kr) k of None \<Rightarrow> k | Some c \<Rightarrow> c))"

definition snapshot_lookup_keys :: "key_resolver \<Rightarrow> string \<Rightarrow> string list" where
  "snapshot_lookup_keys kr k = (let canonical = snapshot_key kr k; legacy = contract_key kr canonical
     in if legacy = canonical then [canonical] else [canonical, legacy])"

section \<open>Stored snapshots\<close>

record snapshot_row =
  sw_snapshot_id :: string
  sw_publication_key :: string
  sw_assessed_at :: int
  sw_freshness_state :: string
  sw_completeness_pct :: int
  sw_confidence_verdict :: string
  sw_quality_flags :: "flags option"
  sw_contributing_run_ids :: "string list"
  sw_created_at :: int

definition record_publication_confidence_snapshot ::
  "snapshot_row list \<Rightarrow> snapshot_row list \<Rightarrow> snapshot_row list option" where
  \<comment> \<open>all rows or, on a duplicate id, none\<close>
  "record_publication_confidence_snapshot entries table =
     (if distinct (map sw_snapshot_id entries) \<and> list_all (\<lambda>e. sw_snapshot_id e \<notin> sw_snapshot_id ` set table) entries
      then Some (table @ entries) else None)"

definition list_publication_confidence_snapshots ::
  "snapshot_row list \<Rightarrow> string option \<Rightarrow> nat option \<Rightarrow> snapshot_row list" where
  \<comment> \<open>\<open>ORDER BY assessed_at DESC, snapshot_id LIMIT ?\<close>\<close>
  "list_publication_confidence_snapshots table key limit =
     (let rows = sort_key (\<lambda>r. - sw_assessed_at r) (sort_key sw_snapshot_id
            (filter (\<lambda>r. case key of None \<Rightarrow> True | Some k \<Rightarrow> sw_publication_key r = k) table))
      in case limit of None \<Rightarrow> rows | Some n \<Rightarrow> take n rows)"

fun newest_row :: "snapshot_row \<Rightarrow> snapshot_row list \<Rightarrow> snapshot_row" where
  \<comment> \<open>\<open>max(records, key=assessed_at)\<close>: the first of the greatest\<close>
  "newest_row r [] = r"
| "newest_row r (x # xs) = newest_row (if sw_assessed_at r < sw_assessed_at x then x else r) xs"

definition get_latest_publication_confidence ::
  "string \<Rightarrow> snapshot_row list \<Rightarrow> key_resolver option \<Rightarrow> snapshot option option" where
  \<comment> \<open>the outer \<open>None\<close> is the \<open>ValueError\<close> of an unknown state in a row\<close>
  "get_latest_publication_confidence key table kr =
     (let keys = (case kr of None \<Rightarrow> [key] | Some k \<Rightarrow> snapshot_lookup_keys k key);
          records = concat (map (\<lambda>k. list_publication_confidence_snapshots table (Some k) (Some 1)) keys)
      in case records of
           [] \<Rightarrow> Some None
         | r # rs \<Rightarrow>
             let best = newest_row r rs in
             (case (parse_pub_freshness (sw_freshness_state best), parse_verdict (sw_confidence_verdict best)) of
                (Some fresh, Some v) \<Rightarrow> Some (Some \<lparr> sn_snapshot_id = sw_snapshot_id best,
                  sn_publication_key = hd keys, sn_assessed_at = sw_assessed_at best, sn_freshness_state = fresh,
                  sn_completeness_pct = sw_completeness_pct best, sn_source_freshness_states = [],
                  sn_contributing_run_ids = sw_contributing_run_ids best,
                  sn_quality_flags = (case sw_quality_flags best of None \<Rightarrow> [] | Some f \<Rightarrow> f),
                  sn_confidence_verdict = v \<rparr>)
              | _ \<Rightarrow> None))"

end
