(* ===== verification/RunMetadata.thy ===== *)
theory RunMetadata
  imports PyText
begin

text \<open>
  The run metadata repository (\<open>packages/storage/run_metadata.py\<close>): ingestion runs and their
  validation issues in two tables.  A transaction is one step; times are UTC instants in
  microseconds, whose texts order as the instants do.
\<close>

section \<open>Records and tables\<close>

datatype run_status = Run_Received | Run_Landed | Run_Rejected | Run_Failed

definition run_status_text :: "run_status \<Rightarrow> string" where
  "run_status_text s = (case s of Run_Received \<Rightarrow> ''received'' | Run_Landed \<Rightarrow> ''landed''
     | Run_Rejected \<Rightarrow> ''rejected'' | Run_Failed \<Rightarrow> ''failed'')"

definition parse_run_status :: "string \<Rightarrow> run_status option" where
  "parse_run_status t = List.find (\<lambda>s. run_status_text s = t) [Run_Received, Run_Landed, Run_Rejected, Run_Failed]"

record issue =
  is_code :: string
  is_message :: string
  is_column :: "string option"
  is_row_number :: "int option"

record run =
  ru_run_id :: string
  ru_source_name :: string
  ru_dataset_name :: string
  ru_file_name :: string
  ru_raw_path :: string
  ru_manifest_path :: string
  ru_sha256 :: string
  ru_row_count :: int
  ru_header :: "string list"
  ru_status :: run_status
  ru_passed :: bool
  ru_issues :: "issue list"
  ru_created_at :: int

record run_row =
  rr_run_id :: string
  rr_source_name :: string
  rr_dataset_name :: string
  rr_file_name :: string
  rr_raw_path :: string
  rr_manifest_path :: string
  rr_sha256 :: string
  rr_row_count :: int
  rr_header :: "string list"
  rr_status :: string
  rr_passed :: int
  rr_created_at :: int

record run_db =
  rd_runs :: "run_row list"
  rd_issues :: "(string \<times> nat \<times> issue) list"

datatype run_error = Duplicate_Run | Unknown_Run string | Bad_Run_Status string

section \<open>Reading\<close>

definition issues_of :: "run_db \<Rightarrow> string \<Rightarrow> issue list" where
  \<comment> \<open>\<open>WHERE run_id = ? ORDER BY issue_order\<close>\<close>
  "issues_of db i = map (\<lambda>(_, _, x). x) (sort_key (\<lambda>(_, n, _). n) (filter (\<lambda>(j, _). j = i) (rd_issues db)))"

definition read_run :: "run_row \<Rightarrow> issue list \<Rightarrow> run_error + run" where
  "read_run r xs = (case parse_run_status (rr_status r) of
     None \<Rightarrow> Inl (Bad_Run_Status (rr_status r))
   | Some st \<Rightarrow> Inr \<lparr> ru_run_id = rr_run_id r, ru_source_name = rr_source_name r, ru_dataset_name = rr_dataset_name r,
       ru_file_name = rr_file_name r, ru_raw_path = rr_raw_path r, ru_manifest_path = rr_manifest_path r,
       ru_sha256 = rr_sha256 r, ru_row_count = rr_row_count r, ru_header = rr_header r, ru_status = st,
       ru_passed = (rr_passed r \<noteq> 0), ru_issues = xs, ru_created_at = rr_created_at r \<rparr>)"

definition get_run :: "run_db \<Rightarrow> string \<Rightarrow> run_error + run" where
  "get_run db i = (case List.find (\<lambda>r. rr_run_id r = i) (rd_runs db) of
     None \<Rightarrow> Inl (Unknown_Run i)
   | Some r \<Rightarrow> read_run r (issues_of db i))"

definition run_filter :: "string option \<Rightarrow> run_status option \<Rightarrow> int option \<Rightarrow> int option \<Rightarrow> run_row \<Rightarrow> bool" where
  "run_filter dataset_name status from_date to_date r \<longleftrightarrow>
     (case dataset_name of None \<Rightarrow> True | Some d \<Rightarrow> rr_dataset_name r = d) \<and>
     (case status of None \<Rightarrow> True | Some s \<Rightarrow> rr_status r = run_status_text s) \<and>
     (case from_date of None \<Rightarrow> True | Some t \<Rightarrow> t \<le> rr_created_at r) \<and>
     (case to_date of None \<Rightarrow> True | Some t \<Rightarrow> rr_created_at r \<le> t)"

definition newest_runs :: "run_row list \<Rightarrow> run_row list" where
  \<comment> \<open>\<open>ORDER BY created_at DESC, run_id DESC\<close>\<close>
  "newest_runs rs = rev (sort_key rr_created_at (sort_key rr_run_id rs))"

definition sql_page :: "int option \<Rightarrow> int \<Rightarrow> 'a list \<Rightarrow> 'a list" where
  \<comment> \<open>\<open>LIMIT ? OFFSET ?\<close>; a negative limit is none, a negative offset is zero\<close>
  "sql_page limit offset xs = (case limit of
     None \<Rightarrow> xs
   | Some n \<Rightarrow> let ys = drop (nat offset) xs in if n < 0 then ys else take (nat n) ys)"

definition load_issues_for_run_ids :: "run_db \<Rightarrow> string list \<Rightarrow> (string \<times> issue list) list" where
  "load_issues_for_run_ids db ids = (let
     rows = sort_key (\<lambda>(i, _, _). i) (sort_key (\<lambda>(_, n, _). n) (filter (\<lambda>(i, _). i \<in> set ids) (rd_issues db)))
   in fold (\<lambda>(i, _, x) d. AList.update i (the (map_of d i) @ [x]) d) rows
        (fold (\<lambda>i d. AList.update i [] d) ids []))"

definition list_runs ::
  "run_db \<Rightarrow> string option \<Rightarrow> run_status option \<Rightarrow> int option \<Rightarrow> int option \<Rightarrow> int option \<Rightarrow> int \<Rightarrow>
     run_error + run list" where
  "list_runs db dataset_name status from_date to_date limit offset =
     (let rows = sql_page limit offset
            (newest_runs (filter (run_filter dataset_name status from_date to_date) (rd_runs db)));
          issues = load_issues_for_run_ids db (map rr_run_id rows)
      in fold_result (\<lambda>r out. and_then (read_run r (the (map_of issues (rr_run_id r)))) (\<lambda>x. Inr (out @ [x]))) rows [])"

definition count_runs ::
  "run_db \<Rightarrow> string option \<Rightarrow> run_status option \<Rightarrow> int option \<Rightarrow> int option \<Rightarrow> int" where
  "count_runs db dataset_name status from_date to_date =
     int (length (filter (run_filter dataset_name status from_date to_date) (rd_runs db)))"

definition find_run_by_sha256 :: "run_db \<Rightarrow> string \<Rightarrow> string option \<Rightarrow> run_error + run option" where
  "find_run_by_sha256 db sha dataset_name =
     (case sort_key rr_created_at (filter (\<lambda>r. rr_sha256 r = sha \<and> rr_passed r = 1 \<and>
        (case dataset_name of None \<Rightarrow> True | Some d \<Rightarrow> rr_dataset_name r = d)) (rd_runs db)) of
       [] \<Rightarrow> Inr None
     | r # _ \<Rightarrow> and_then (get_run db (rr_run_id r)) (\<lambda>x. Inr (Some x)))"

section \<open>Creating a run\<close>

definition row_of_run :: "run \<Rightarrow> run_row" where
  "row_of_run r = \<lparr> rr_run_id = ru_run_id r, rr_source_name = ru_source_name r, rr_dataset_name = ru_dataset_name r,
     rr_file_name = ru_file_name r, rr_raw_path = ru_raw_path r, rr_manifest_path = ru_manifest_path r,
     rr_sha256 = ru_sha256 r, rr_row_count = ru_row_count r, rr_header = ru_header r,
     rr_status = run_status_text (ru_status r), rr_passed = (if ru_passed r then 1 else 0),
     rr_created_at = ru_created_at r \<rparr>"

definition issue_rows :: "run \<Rightarrow> (string \<times> nat \<times> issue) list" where
  "issue_rows r = map (\<lambda>(n, x). (ru_run_id r, n, x)) (List.enumerate 0 (ru_issues r))"

definition create_run :: "run \<Rightarrow> run_db \<Rightarrow> (run_error + run) \<times> run_db" where
  \<comment> \<open>both inserts commit together; a violated primary key rolls both back\<close>
  "create_run r db =
     (if ru_run_id r \<in> rr_run_id ` set (rd_runs db) \<or>
         (\<exists>x\<in>set (issue_rows r). \<exists>y\<in>set (rd_issues db). fst x = fst y \<and> fst (snd x) = fst (snd y))
      then (Inl Duplicate_Run, db)
      else let db' = \<lparr> rd_runs = rd_runs db @ [row_of_run r], rd_issues = rd_issues db @ issue_rows r \<rparr>
           in (get_run db' (ru_run_id r), db'))"

end
