(* ===== verification/ConfidenceService.thy ===== *)
theory ConfidenceService
  imports Confidence RunMetadata
begin

text \<open>
  The confidence service (\<open>packages/pipelines/publication_confidence_service.py\<close>) over the control
  plane's lineage, freshness configurations and snapshots (\<open>packages/storage/sqlite_provenance_control_plane.py\<close>)
  and a lookup of run metadata.  Times are UTC instants; the run metadata does not change while one
  snapshot is computed, so the service's cache of runs is the lookup itself.
\<close>

section \<open>Lineage\<close>

record lineage =
  ln_lineage_id :: string
  ln_input_run_id :: "string option"
  ln_target_layer :: string
  ln_target_name :: string
  ln_target_kind :: string
  ln_row_count :: "int option"
  ln_source_system :: "string option"
  ln_source_run_id :: "string option"
  ln_recorded_at :: int

record publication_audit =
  pa_publication_audit_id :: string
  pa_run_id :: "string option"
  pa_publication_key :: string
  pa_relation_name :: string
  pa_status :: string
  pa_published_at :: int

record control_plane =
  cp_lineage :: "lineage list"
  cp_audit :: "publication_audit list"
  cp_freshness_configs :: "freshness_config list"
  cp_snapshots :: "snapshot_row list"

definition record_source_lineage :: "lineage list \<Rightarrow> control_plane \<Rightarrow> control_plane option" where
  "record_source_lineage entries cp =
     (if distinct (map ln_lineage_id entries) \<and> list_all (\<lambda>e. ln_lineage_id e \<notin> ln_lineage_id ` set (cp_lineage cp)) entries
      then Some (cp \<lparr> cp_lineage := cp_lineage cp @ entries \<rparr>) else None)"

definition list_source_lineage ::
  "control_plane \<Rightarrow> string option \<Rightarrow> string option \<Rightarrow> string option \<Rightarrow> string option \<Rightarrow> lineage list" where
  \<comment> \<open>\<open>ORDER BY recorded_at, lineage_id\<close>\<close>
  "list_source_lineage cp input_run_id target_layer target_name source_asset_id =
     sort_key ln_recorded_at (sort_key ln_lineage_id (filter (\<lambda>l.
       (case input_run_id of None \<Rightarrow> True | Some i \<Rightarrow> ln_input_run_id l = Some i) \<and>
       (case target_layer of None \<Rightarrow> True | Some t \<Rightarrow> ln_target_layer l = t) \<and>
       (case target_name of None \<Rightarrow> True | Some n \<Rightarrow> ln_target_name l = n) \<and>
       (case source_asset_id of None \<Rightarrow> True | Some s \<Rightarrow> ln_source_system l = Some s)) (cp_lineage cp)))"

definition record_publication_audit :: "publication_audit list \<Rightarrow> control_plane \<Rightarrow> control_plane option" where
  "record_publication_audit entries cp =
     (if distinct (map pa_publication_audit_id entries) \<and>
         list_all (\<lambda>e. pa_publication_audit_id e \<notin> pa_publication_audit_id ` set (cp_audit cp)) entries
      then Some (cp \<lparr> cp_audit := cp_audit cp @ entries \<rparr>) else None)"

definition list_publication_audit :: "control_plane \<Rightarrow> string option \<Rightarrow> string option \<Rightarrow> publication_audit list" where
  \<comment> \<open>\<open>ORDER BY published_at, publication_audit_id\<close>\<close>
  "list_publication_audit cp run_id publication_key =
     sort_key pa_published_at (sort_key pa_publication_audit_id (filter (\<lambda>a.
       (case run_id of None \<Rightarrow> True | Some i \<Rightarrow> pa_run_id a = Some i) \<and>
       (case publication_key of None \<Rightarrow> True | Some k \<Rightarrow> pa_publication_key a = k)) (cp_audit cp)))"

section \<open>Runs\<close>

record run_lookup_ops =
  lk_get_run :: "string \<Rightarrow> run option"
  lk_list_runs :: "string \<Rightarrow> int \<Rightarrow> run list"

definition resolve_run :: "run_lookup_ops option \<Rightarrow> string \<Rightarrow> run option" where
  \<comment> \<open>\<open>_RunResolver.get\<close>\<close>
  "resolve_run lookup i = (case lookup of None \<Rightarrow> None | Some lk \<Rightarrow> lk_get_run lk i)"

definition failed_run :: "run \<Rightarrow> bool" where
  "failed_run r \<longleftrightarrow> run_status_text (ru_status r) \<in> {''rejected'', ''failed''}"

definition later_failed_runs :: "run_lookup_ops option \<Rightarrow> run \<Rightarrow> int \<Rightarrow> bool \<Rightarrow> run list" where
  "later_failed_runs lookup r as_of match_source_name = (case lookup of
     None \<Rightarrow> []
   | Some lk \<Rightarrow> filter (\<lambda>c. ru_run_id c \<noteq> ru_run_id r \<and>
         (\<not> match_source_name \<or> ru_source_name c = ru_source_name r) \<and> failed_run c \<and>
         ru_created_at r < ru_created_at c \<and> ru_created_at c \<le> as_of)
       (lk_list_runs lk (ru_dataset_name r) (ru_created_at r)))"

definition asset_of_run :: "control_plane \<Rightarrow> string \<Rightarrow> string option" where
  \<comment> \<open>\<open>_RunAssetResolver.get\<close>: the last landing row that names a source asset\<close>
  "asset_of_run cp i = (let assets = map ln_target_name
       (filter (\<lambda>l. ln_target_kind l = ''source_asset'' \<and> ln_target_name l \<noteq> [])
          (list_source_lineage cp (Some i) (Some ''landing'') None None))
     in if assets = [] then None else Some (last assets))"

section \<open>Contributing sources\<close>

record contributing =
  cs_source_key :: string
  cs_run_id :: string
  cs_lineage_row_count :: "int option"
  cs_declared :: bool
  cs_source_asset_id :: "string option"

definition lineage_run_id :: "lineage \<Rightarrow> string" where
  \<comment> \<open>\<open>record.source_run_id or record.input_run_id\<close>, the empty text when there is none\<close>
  "lineage_run_id l = text_or (ln_source_run_id l) (text_or (ln_input_run_id l) [])"

definition source_of_lineage :: "control_plane \<Rightarrow> run_lookup_ops option \<Rightarrow> lineage \<Rightarrow> (string \<times> bool) option" where
  \<comment> \<open>the source a row is attributed to and whether the row declares it\<close>
  "source_of_lineage cp lookup l =
     (case asset_of_run cp (lineage_run_id l) of
        Some a \<Rightarrow> Some (a, False)
      | None \<Rightarrow>
          if text_or (ln_source_system l) [] \<noteq> [] then Some (text_or (ln_source_system l) [], True)
          else (case resolve_run lookup (lineage_run_id l) of
            None \<Rightarrow> None
          | Some r \<Rightarrow> if ru_source_name r = [] then None else Some (ru_source_name r, False)))"

definition add_contribution ::
  "control_plane \<Rightarrow> run_lookup_ops option \<Rightarrow> lineage \<Rightarrow> (string \<times> contributing) list \<Rightarrow> (string \<times> contributing) list" where
  "add_contribution cp lookup l sources =
     (if lineage_run_id l = [] then sources
      else (case source_of_lineage cp lookup l of
        None \<Rightarrow> sources
      | Some (k, declared) \<Rightarrow> AList.update k
          \<lparr> cs_source_key = k, cs_run_id = lineage_run_id l, cs_lineage_row_count = ln_row_count l,
            cs_declared = (declared \<or> (case map_of sources k of None \<Rightarrow> False | Some p \<Rightarrow> cs_declared p)),
            cs_source_asset_id = asset_of_run cp (lineage_run_id l) \<rparr> sources))"

definition resolve_contributing_sources ::
  "control_plane \<Rightarrow> run_lookup_ops option \<Rightarrow> lineage list \<Rightarrow> (string \<times> contributing) list" where
  "resolve_contributing_sources cp lookup ls = fold (add_contribution cp lookup) ls []"

section \<open>Validation and completeness\<close>

record validation_counts =
  vc_errors :: int
  vc_rejected :: int
  vc_unknown :: int
  vc_checked :: int

definition count_validation ::
  "run_lookup_ops option \<Rightarrow> int \<Rightarrow> contributing \<Rightarrow> validation_counts \<Rightarrow> validation_counts" where
  "count_validation lookup as_of s v = (case resolve_run lookup (cs_run_id s) of
     None \<Rightarrow> v \<lparr> vc_unknown := vc_unknown v + 1 \<rparr>
   | Some r \<Rightarrow>
       let later = later_failed_runs lookup r as_of (cs_source_asset_id s = None)
       in v \<lparr> vc_checked := vc_checked v + 1,
             vc_errors := vc_errors v + int (length (ru_issues r)) + sum_list (map (\<lambda>x. int (length (ru_issues x))) later),
             vc_rejected := vc_rejected v + (if \<not> ru_passed r \<or> failed_run r then 1 else 0) + int (length later) \<rparr>)"

definition validation_flags :: "run_lookup_ops option \<Rightarrow> int \<Rightarrow> (string \<times> contributing) list \<Rightarrow> flags" where
  "validation_flags lookup as_of sources =
     (let v = fold (count_validation lookup as_of) (map snd sources)
            \<lparr> vc_errors = 0, vc_rejected = 0, vc_unknown = 0, vc_checked = 0 \<rparr>
      in [(''rejected_runs'', vc_rejected v), (''validation_unknown_runs'', vc_unknown v)] @
         (if vc_checked v = 0 then [] else [(''validation_errors'', vc_errors v)]))"

definition verifiably_present :: "run_lookup_ops option \<Rightarrow> contributing \<Rightarrow> bool" where
  "verifiably_present lookup s = (case resolve_run lookup (cs_run_id s) of
     None \<Rightarrow> False
   | Some r \<Rightarrow> ru_passed r \<and> 0 < ru_row_count r \<and>
       (case cs_lineage_row_count s of None \<Rightarrow> True | Some n \<Rightarrow> 0 < n))"

definition completeness :: "run_lookup_ops option \<Rightarrow> (string \<times> contributing) list \<Rightarrow> int \<times> flags" where
  "completeness lookup sources =
     (let expected = int (length sources);
          covered = int (length (filter (\<lambda>(_, s). verifiably_present lookup s) sources));
          unknown = int (length (filter (\<lambda>(_, s). resolve_run lookup (cs_run_id s) = None) sources))
      in (if expected = 0 then 0 else 100 * covered div expected,
          [(''completeness_expected_sources'', expected), (''completeness_covered_sources'', covered),
           (''completeness_unknown_sources'', unknown)]))"

section \<open>Freshness of the sources\<close>

definition date_text :: "date \<Rightarrow> string" where
  "date_text d = padded 4 (year d) @ ''-'' @ padded 2 (month d) @ ''-'' @ padded 2 (day d)"

definition utc :: "int \<Rightarrow> stamp" where
  "utc t = Stamp t (Some 0)"

definition config_of_source :: "control_plane \<Rightarrow> string \<Rightarrow> contributing \<Rightarrow> freshness_config option" where
  "config_of_source cp k s =
     (if cs_source_asset_id s \<noteq> None \<or> cs_declared s
      then map_of (dict_of (map (\<lambda>c. (fc_source_asset_id c, c)) (cp_freshness_configs cp))) k else None)"

definition defaulted :: "control_plane \<Rightarrow> string \<Rightarrow> contributing \<Rightarrow> bool" where
  \<comment> \<open>a declared source without configuration keeps the historical default\<close>
  "defaulted cp k s \<longleftrightarrow> config_of_source cp k s = None \<and> cs_declared s \<and> cs_source_asset_id s = None"

definition source_snapshot_of ::
  "control_plane \<Rightarrow> run_lookup_ops option \<Rightarrow> int \<Rightarrow> string \<Rightarrow> contributing \<Rightarrow> source_snapshot option" where
  "source_snapshot_of cp lookup as_of k s = (case config_of_source cp k s of
     None \<Rightarrow> Some (if defaulted cp k s
       then \<lparr> ss_source_asset_id = k, ss_freshness_state = Current, ss_last_ingest_at = Some (utc as_of), ss_covered_through = None \<rparr>
       else \<lparr> ss_source_asset_id = k, ss_freshness_state = Unconfigured, ss_last_ingest_at = None, ss_covered_through = None \<rparr>)
   | Some c \<Rightarrow>
       (case (case resolve_run lookup (cs_run_id s) of
            None \<Rightarrow> Some []
          | Some r \<Rightarrow> map_option (\<lambda>ob. [ob]) (run_observation (Some c) (run_status_text (ru_status r))
              (utc (ru_created_at r)) None (Some (At (utc as_of))))) of
          None \<Rightarrow> None
        | Some obs \<Rightarrow> (case date_of_instant as_of of
            None \<Rightarrow> None
          | Some today \<Rightarrow> map_option (\<lambda>am. \<lparr> ss_source_asset_id = k, ss_freshness_state = am_state am,
                ss_last_ingest_at = am_last_ingest_at am,
                ss_covered_through = map_option date_text (am_covered_through am) \<rparr>)
              (evaluate_source_freshness (Some c) obs (On today)))))"

fun source_snapshots ::
  "control_plane \<Rightarrow> run_lookup_ops option \<Rightarrow> int \<Rightarrow> (string \<times> contributing) list \<Rightarrow> (string \<times> source_snapshot) list option" where
  "source_snapshots cp lookup as_of [] = Some []"
| "source_snapshots cp lookup as_of ((k, s) # rest) =
     (case (source_snapshot_of cp lookup as_of k s, source_snapshots cp lookup as_of rest) of
        (Some x, Some xs) \<Rightarrow> Some ((k, x) # xs)
      | _ \<Rightarrow> None)"

section \<open>The snapshot\<close>

definition snapshot_entry :: "snapshot \<Rightarrow> int \<Rightarrow> snapshot_row" where
  \<comment> \<open>the \<open>PublicationConfidenceSnapshotCreate\<close> as its insert writes it\<close>
  "snapshot_entry s now = \<lparr> sw_snapshot_id = sn_snapshot_id s, sw_publication_key = sn_publication_key s,
     sw_assessed_at = sn_assessed_at s, sw_freshness_state = pub_freshness_text (sn_freshness_state s),
     sw_completeness_pct = sn_completeness_pct s, sw_confidence_verdict = verdict_text (sn_confidence_verdict s),
     sw_quality_flags = (if sn_quality_flags s = [] then None else Some (sn_quality_flags s)),
     sw_contributing_run_ids = sn_contributing_run_ids s, sw_created_at = now \<rparr>"

definition run_ids_in_order :: "string list \<Rightarrow> string list" where
  "run_ids_in_order ids = fold (\<lambda>i out. if i \<in> set out then out else out @ [i]) ids []"

definition assessed_snapshot ::
  "string \<Rightarrow> control_plane \<Rightarrow> int \<Rightarrow> run_lookup_ops option \<Rightarrow> string \<Rightarrow> snapshot option" where
  "assessed_snapshot key cp as_of lookup uuid =
     (let sources = resolve_contributing_sources cp lookup (list_source_lineage cp None None (Some key) None)
      in case source_snapshots cp lookup as_of sources of
           None \<Rightarrow> None
         | Some snaps \<Rightarrow>
             let (pct, completeness_flags) = completeness lookup sources;
                 quality = validation_flags lookup as_of sources @ completeness_flags @
                   [(''freshness_unconfigured_sources'', int (length (filter (\<lambda>(k, s). defaulted cp k s) sources)))]
             in Some (create_snapshot uuid key as_of (compute_publication_freshness_state snaps) pct snaps
                  (run_ids_in_order (map (\<lambda>(_, s). cs_run_id s) sources)) quality))"

definition compute_and_record_publication_confidence ::
  "string \<Rightarrow> control_plane \<Rightarrow> int \<Rightarrow> run_lookup_ops option \<Rightarrow> key_resolver option \<Rightarrow> string \<Rightarrow> int \<Rightarrow>
     (snapshot \<times> control_plane) option" where
  \<comment> \<open>\<open>uuid\<close> is the fresh snapshot id, \<open>now\<close> the clock's \<open>created_at\<close>; \<open>None\<close> when a call raises\<close>
  "compute_and_record_publication_confidence key cp as_of lookup kr uuid now =
     (let k = (case kr of None \<Rightarrow> key | Some r \<Rightarrow> snapshot_key r key)
      in case assessed_snapshot k cp as_of lookup uuid of
           None \<Rightarrow> None
         | Some s \<Rightarrow>
             (case record_publication_confidence_snapshot [snapshot_entry s now] (cp_snapshots cp) of
                None \<Rightarrow> None
              | Some table \<Rightarrow> Some (s, cp \<lparr> cp_snapshots := table \<rparr>)))"

definition lookup_of :: "run_db \<Rightarrow> run_lookup_ops" where
  \<comment> \<open>the run metadata repository as the service's lookup; a \<open>KeyError\<close> reads as no run\<close>
  "lookup_of db = \<lparr> lk_get_run = (\<lambda>i. case get_run db i of Inr r \<Rightarrow> Some r | Inl _ \<Rightarrow> None),
     lk_list_runs = (\<lambda>d t. case list_runs db (Some d) None (Some t) None None 0 of Inr rs \<Rightarrow> rs | Inl _ \<Rightarrow> []) \<rparr>"

end
