(* ===== verification/RunMetadataFacts.thy ===== *)
theory RunMetadataFacts
  imports RunMetadata
begin

text \<open>
  Facts on the run metadata repository: its tables' invariant, the issues a bulk read collects, and
  what a listing returns.
\<close>

section \<open>Invariant\<close>

definition run_db_inv :: "run_db \<Rightarrow> bool" where
  \<comment> \<open>primary keys, every issue belongs to a run, every stored status is one of the enum\<close>
  "run_db_inv db \<longleftrightarrow> distinct (map rr_run_id (rd_runs db)) \<and>
     distinct (map (\<lambda>(i, n, _). (i, n)) (rd_issues db)) \<and>
     fst ` set (rd_issues db) \<subseteq> rr_run_id ` set (rd_runs db) \<and>
     (\<forall>r\<in>set (rd_runs db). parse_run_status (rr_status r) \<noteq> None)"

lemma parse_run_status_text [simp]: "parse_run_status (run_status_text s) = Some s"
  by (cases s) (simp_all add: parse_run_status_def run_status_text_def)

lemma run_db_inv_empty [simp]: "run_db_inv \<lparr> rd_runs = [], rd_issues = [] \<rparr>"
  by (simp add: run_db_inv_def)

lemma issue_row_id: "x \<in> set (issue_rows r) \<Longrightarrow> fst x = ru_run_id r"
  by (auto simp: issue_rows_def)

lemma issue_rows_keys: "map (\<lambda>(i, n, _). (i, n)) (issue_rows r) = map (Pair (ru_run_id r)) [0..<length (ru_issues r)]"
  by (rule nth_equalityI) (auto simp: issue_rows_def nth_enumerate_eq)

lemma find_distinct:
  "distinct (map f xs) \<Longrightarrow> x \<in> set xs \<Longrightarrow> List.find (\<lambda>y. f y = f x) xs = Some x"
  by (induction xs) auto

section \<open>Bulk read of issues\<close>

lemma map_of_fold_blank:
  "map_of (fold (\<lambda>i d. AList.update i [] d) ids d) i = (if i \<in> set ids then Some [] else map_of d i)"
  by (induction ids arbitrary: d) (auto simp: map_of_update)

lemma map_of_fold_append:
  assumes "\<forall>x\<in>set rows. map_of d (fst x) \<noteq> None" and "map_of d i = Some ys"
  shows "map_of (fold (\<lambda>(i, _, x) d. AList.update i (the (map_of d i) @ [x]) d) rows d) i =
    Some (ys @ map (\<lambda>(_, _, x). x) (filter (\<lambda>(j, _). j = i) rows))"
  using assms
proof (induction rows arbitrary: d ys)
  case (Cons r rows)
  obtain j n x where r: "r = (j, n, x)" by (cases r)
  let ?d = "AList.update j (the (map_of d j) @ [x]) d"
  have "\<forall>x\<in>set rows. map_of ?d (fst x) \<noteq> None"
    using Cons.prems(1) by (auto simp: map_of_update)
  from Cons.IH [OF this] Cons.prems(2) show ?case
    by (cases "j = i") (auto simp: r map_of_update)
qed simp

lemma sort_key_const: "(\<And>x. x \<in> set xs \<Longrightarrow> f x = c) \<Longrightarrow> sort_key f xs = xs"
  by (induction xs) (auto simp: insort_is_Cons)

lemma loaded_issues:
  assumes "i \<in> set ids"
  shows "map_of (load_issues_for_run_ids db ids) i = Some (issues_of db i)"
proof -
  let ?rows = "sort_key (\<lambda>(i, _, _). i) (sort_key (\<lambda>(_, n, _). n) (filter (\<lambda>(i, _). i \<in> set ids) (rd_issues db)))"
  let ?d = "fold (\<lambda>i d. AList.update i [] d) ids []"
  have dom: "\<forall>x\<in>set ?rows. map_of ?d (fst x) \<noteq> None" by (auto simp: map_of_fold_blank)
  have i: "map_of ?d i = Some []" using assms by (simp add: map_of_fold_blank)
  have mine: "filter (\<lambda>(j, _). j = i) (filter (\<lambda>(i, _). i \<in> set ids) (rd_issues db)) = filter (\<lambda>(j, _). j = i) (rd_issues db)"
    using assms by (auto simp: split_def intro: filter_cong)
  have "filter (\<lambda>(j, _). j = i) ?rows = sort_key (\<lambda>(_, n, _). n) (filter (\<lambda>(j, _). j = i) (rd_issues db))"
    unfolding filter_sort mine by (rule sort_key_const [where c = i]) auto
  then show ?thesis
    unfolding load_issues_for_run_ids_def Let_def map_of_fold_append [OF dom i] issues_of_def by simp
qed

section \<open>Listing\<close>

definition run_of_row :: "run_db \<Rightarrow> run_row \<Rightarrow> run" where
  "run_of_row db r = projr (read_run r (issues_of db (rr_run_id r)))"

lemma read_run_ok: "parse_run_status (rr_status r) \<noteq> None \<Longrightarrow> \<exists>x. read_run r xs = Inr x"
  by (auto simp: read_run_def)

lemma get_run_of_row:
  assumes "run_db_inv db" and "r \<in> set (rd_runs db)"
  shows "get_run db (rr_run_id r) = Inr (run_of_row db r)"
  using assms find_distinct [of rr_run_id "rd_runs db" r] read_run_ok [of r "issues_of db (rr_run_id r)"]
  by (auto simp: get_run_def run_of_row_def run_db_inv_def)

lemma get_run_SomeD:
  assumes "get_run db i = Inr x"
  shows "ru_run_id x = i \<and> (\<exists>r\<in>set (rd_runs db). rr_run_id r = i \<and> read_run r (issues_of db i) = Inr x)"
  using assms find_Some_member by (fastforce simp: get_run_def read_run_def split: option.split_asm)

lemma set_newest_runs [simp]: "set (newest_runs rs) = set rs"
  by (simp add: newest_runs_def)

lemma sorted_newest_runs: "sorted (map (\<lambda>x. - rr_created_at x) (newest_runs rs))"
  using sorted_sort_key [of rr_created_at "sort_key rr_run_id rs"]
  by (simp only: newest_runs_def sorted_map sorted_wrt_rev neg_le_iff_le)

lemma sql_page_subset: "set (sql_page l k xs) \<subseteq> set xs"
  by (auto simp: sql_page_def Let_def dest: in_set_takeD in_set_dropD split: option.splits if_splits)

lemma fold_result_map:
  assumes "\<And>x. x \<in> set xs \<Longrightarrow> f x = Inr (g x)"
  shows "fold_result (\<lambda>x out. and_then (f x) (\<lambda>y. Inr (out @ [y]))) xs acc = Inr (acc @ map g xs)"
  using assms by (induction xs arbitrary: acc) simp_all

lemma list_runs_rows:
  assumes "run_db_inv db"
  shows "list_runs db d s f t l k = Inr (map (run_of_row db)
    (sql_page l k (newest_runs (filter (run_filter d s f t) (rd_runs db)))))"
proof -
  let ?rows = "sql_page l k (newest_runs (filter (run_filter d s f t) (rd_runs db)))"
  let ?iss = "load_issues_for_run_ids db (map rr_run_id ?rows)"
  have "read_run r (the (map_of ?iss (rr_run_id r))) = Inr (run_of_row db r)" if "r \<in> set ?rows" for r
  proof -
    have "r \<in> set (rd_runs db)" using that sql_page_subset [of l k] by fastforce
    moreover have "map_of ?iss (rr_run_id r) = Some (issues_of db (rr_run_id r))"
      using that by (intro loaded_issues) simp
    ultimately show ?thesis
      using assms read_run_ok [of r "issues_of db (rr_run_id r)"] by (auto simp: run_of_row_def run_db_inv_def)
  qed
  from fold_result_map [of ?rows "\<lambda>r. read_run r (the (map_of ?iss (rr_run_id r)))", OF this]
  show ?thesis by (simp add: list_runs_def Let_def)
qed


section \<open>Creating\<close>

lemma issues_of_unrelated: "\<forall>x\<in>set ys. fst x \<noteq> i \<Longrightarrow>
  issues_of \<lparr> rd_runs = rs, rd_issues = rd_issues db @ ys \<rparr> i = issues_of db i"
  by (simp add: issues_of_def filter_empty_conv split_def)

lemma issues_of_new:
  assumes "i \<notin> fst ` set (rd_issues db)" and "i = ru_run_id r"
  shows "issues_of \<lparr> rd_runs = rs, rd_issues = rd_issues db @ issue_rows r \<rparr> i = ru_issues r"
proof -
  have "filter (\<lambda>(j, _). j = i) (rd_issues db) = []"
    using assms(1) by (auto simp: filter_empty_conv image_iff)
  moreover have "filter (\<lambda>(j, _). j = i) (issue_rows r) = issue_rows r"
    using issue_row_id assms(2) by (fastforce simp: filter_id_conv)
  moreover have "map (\<lambda>(_, n, _). n) (issue_rows r) = [0..<length (ru_issues r)]"
    by (rule nth_equalityI) (auto simp: issue_rows_def nth_enumerate_eq)
  then have "sort_key (\<lambda>(_, n, _). n) (issue_rows r) = issue_rows r"
    by (intro sort_key_id_if_sorted) simp
  moreover have "map (\<lambda>(_, _, x). x) (issue_rows r) = ru_issues r"
    by (rule nth_equalityI) (auto simp: issue_rows_def nth_enumerate_eq)
  ultimately show ?thesis by (simp add: issues_of_def)
qed

lemma read_row_of_run: "read_run (row_of_run r) (ru_issues r) = Inr r"
  by (simp add: read_run_def row_of_run_def)

lemma create_run_fresh:
  assumes inv: "run_db_inv db" and fresh: "ru_run_id r \<notin> rr_run_id ` set (rd_runs db)"
  shows "create_run r db = (Inr r, \<lparr> rd_runs = rd_runs db @ [row_of_run r], rd_issues = rd_issues db @ issue_rows r \<rparr>)"
proof -
  have ids: "ru_run_id r \<notin> fst ` set (rd_issues db)" using inv fresh by (auto simp: run_db_inv_def)
  have "\<not> (\<exists>x\<in>set (issue_rows r). \<exists>y\<in>set (rd_issues db). fst x = fst y \<and> fst (snd x) = fst (snd y))"
    using issue_row_id ids by (metis image_eqI)
  moreover have "List.find (\<lambda>x. rr_run_id x = ru_run_id r) (rd_runs db @ [row_of_run r]) = Some (row_of_run r)"
  proof -
    have "List.find (\<lambda>x. rr_run_id x = ru_run_id r) (rd_runs db) = None"
      using fresh by (force simp: find_None_iff)
    then show ?thesis by (simp add: find_append row_of_run_def)
  qed
  ultimately show ?thesis
    using fresh issues_of_new [OF ids refl] by (simp add: create_run_def get_run_def read_row_of_run)
qed

lemma create_run_inv:
  assumes "run_db_inv db"
  shows "run_db_inv (snd (create_run r db))"
proof (cases "ru_run_id r \<in> rr_run_id ` set (rd_runs db)")
  case True
  with assms show ?thesis by (simp add: create_run_def)
next
  case False
  have old: "\<And>x. x \<in> set (rd_issues db) \<Longrightarrow> fst x \<noteq> ru_run_id r" using assms False by (auto simp: run_db_inv_def)
  have "distinct (map (\<lambda>(i, n, _). (i, n)) (rd_issues db @ issue_rows r))"
    using assms by (force simp: run_db_inv_def issue_rows_keys distinct_map inj_on_def dest: old)
  with assms False show ?thesis
    by (auto simp: create_run_fresh [OF assms False] run_db_inv_def row_of_run_def dest: issue_row_id)
qed

end
