(* ===== verification/ConfidenceFacts.thy ===== *)
theory ConfidenceFacts
  imports ConfidenceService RunMetadataFacts
begin

text \<open>
  Facts on the confidence service: its counts as sums over the contributing sources, the flags they
  are read back from, and the interface to the run metadata, which the repository provides.
\<close>

section \<open>The run lookup the service relies on\<close>

locale run_lookup =
  fixes inv :: "'db \<Rightarrow> bool" and ops :: "'db \<Rightarrow> run_lookup_ops"
  assumes get_names_run: "inv db \<Longrightarrow> lk_get_run (ops db) i = Some r \<Longrightarrow> ru_run_id r = i"
    and list_complete: "inv db \<Longrightarrow> set (lk_list_runs (ops db) d t) =
      {r. lk_get_run (ops db) (ru_run_id r) = Some r \<and> ru_dataset_name r = d \<and> t \<le> ru_created_at r}"
begin

lemma later_failed_runs_set:
  assumes "inv db"
  shows "set (later_failed_runs (Some (ops db)) r as_of m) =
    {c. lk_get_run (ops db) (ru_run_id c) = Some c \<and> ru_dataset_name c = ru_dataset_name r \<and> failed_run c \<and>
      (m \<longrightarrow> ru_source_name c = ru_source_name r) \<and> ru_run_id c \<noteq> ru_run_id r \<and>
      ru_created_at r < ru_created_at c \<and> ru_created_at c \<le> as_of}"
  by (auto simp: later_failed_runs_def list_complete [OF assms])

lemma no_later_failure:
  assumes "inv db" and "lk_get_run (ops db) i = Some r" and "later_failed_runs (Some (ops db)) r as_of m = []"
    and "lk_get_run (ops db) j = Some c" and "ru_dataset_name c = ru_dataset_name r" and "failed_run c"
    and "ru_created_at r < ru_created_at c" and "ru_created_at c \<le> as_of"
  shows "m \<and> ru_source_name c \<noteq> ru_source_name r"
proof (rule ccontr)
  assume a: "\<not> (m \<and> ru_source_name c \<noteq> ru_source_name r)"
  have "ru_run_id c = j" by (rule get_names_run [OF assms(1,4)])
  moreover have "ru_run_id c \<noteq> ru_run_id r"
    using assms(2,4,7) get_names_run [OF assms(1)] by force
  ultimately have "c \<in> set (later_failed_runs (Some (ops db)) r as_of m)"
    unfolding later_failed_runs_set [OF assms(1)] using a assms(4-8) by auto
  with assms(3) show False by simp
qed

end

lemma lookup_get: "lk_get_run (lookup_of db) i = Some r \<longleftrightarrow> get_run db i = Inr r"
  by (auto simp: lookup_of_def split: sum.splits)

lemma run_of_row_fields:
  assumes "run_db_inv db" and "x \<in> set (rd_runs db)"
  shows "ru_run_id (run_of_row db x) = rr_run_id x" "ru_dataset_name (run_of_row db x) = rr_dataset_name x"
    "ru_created_at (run_of_row db x) = rr_created_at x"
  using assms by (auto simp: run_of_row_def read_run_def run_db_inv_def split: option.splits)

interpretation repository: run_lookup run_db_inv lookup_of
proof
  fix db i r
  assume "run_db_inv db" "lk_get_run (lookup_of db) i = Some r"
  then show "ru_run_id r = i" by (simp add: lookup_get get_run_SomeD)
next
  fix db d t
  assume inv: "run_db_inv db"
  have "set (lk_list_runs (lookup_of db) d t) =
      run_of_row db ` {x \<in> set (rd_runs db). rr_dataset_name x = d \<and> t \<le> rr_created_at x}"
    by (auto simp: lookup_of_def list_runs_rows [OF inv] sql_page_def run_filter_def)
  also have "\<dots> = {r. get_run db (ru_run_id r) = Inr r \<and> ru_dataset_name r = d \<and> t \<le> ru_created_at r}"
    (is "?a = ?b")
  proof
    show "?a \<subseteq> ?b" using get_run_of_row [OF inv] run_of_row_fields [OF inv] by auto
    show "?b \<subseteq> ?a"
    proof
      fix r
      assume r: "r \<in> ?b"
      then obtain x where x: "x \<in> set (rd_runs db)" "rr_run_id x = ru_run_id r"
        using get_run_SomeD by blast
      with r get_run_of_row [OF inv x(1)] have "r = run_of_row db x" by simp
      with x r run_of_row_fields [OF inv x(1)] show "r \<in> ?a" by auto
    qed
  qed
  finally show "set (lk_list_runs (lookup_of db) d t) =
      {r. lk_get_run (lookup_of db) (ru_run_id r) = Some r \<and> ru_dataset_name r = d \<and> t \<le> ru_created_at r}"
    by (simp add: lookup_get)
qed

section \<open>Counts\<close>

definition source_errors :: "run_lookup_ops option \<Rightarrow> int \<Rightarrow> contributing \<Rightarrow> nat" where
  "source_errors lookup as_of s = (case resolve_run lookup (cs_run_id s) of
     None \<Rightarrow> 0
   | Some r \<Rightarrow> length (ru_issues r) + sum_list (map (\<lambda>x. length (ru_issues x))
       (later_failed_runs lookup r as_of (cs_source_asset_id s = None))))"

definition source_rejections :: "run_lookup_ops option \<Rightarrow> int \<Rightarrow> contributing \<Rightarrow> nat" where
  "source_rejections lookup as_of s = (case resolve_run lookup (cs_run_id s) of
     None \<Rightarrow> 0
   | Some r \<Rightarrow> (if \<not> ru_passed r \<or> failed_run r then 1 else 0) +
       length (later_failed_runs lookup r as_of (cs_source_asset_id s = None)))"

definition unresolved :: "run_lookup_ops option \<Rightarrow> contributing \<Rightarrow> bool" where
  "unresolved lookup s \<longleftrightarrow> resolve_run lookup (cs_run_id s) = None"

lemma int_sum_list: "sum_list (map (\<lambda>x. int (f x)) xs) = int (sum_list (map f xs))"
  by (induction xs) simp_all

lemma count_validation_eq:
  "count_validation lookup as_of s v =
    \<lparr> vc_errors = vc_errors v + int (source_errors lookup as_of s),
      vc_rejected = vc_rejected v + int (source_rejections lookup as_of s),
      vc_unknown = vc_unknown v + (if unresolved lookup s then 1 else 0),
      vc_checked = vc_checked v + (if unresolved lookup s then 0 else 1) \<rparr>"
  by (cases "resolve_run lookup (cs_run_id s)")
    (simp_all add: count_validation_def source_errors_def source_rejections_def unresolved_def Let_def int_sum_list)

lemma fold_count_validation:
  "fold (count_validation lookup as_of) ss v =
    \<lparr> vc_errors = vc_errors v + int (sum_list (map (source_errors lookup as_of) ss)),
      vc_rejected = vc_rejected v + int (sum_list (map (source_rejections lookup as_of) ss)),
      vc_unknown = vc_unknown v + int (length (filter (unresolved lookup) ss)),
      vc_checked = vc_checked v + int (length (filter (\<lambda>s. \<not> unresolved lookup s) ss)) \<rparr>"
  by (induction ss arbitrary: v) (simp_all add: count_validation_eq)

lemma validation_flags_eq:
  "validation_flags lookup as_of sources =
    [(''rejected_runs'', int (sum_list (map (source_rejections lookup as_of) (map snd sources)))),
     (''validation_unknown_runs'', int (length (filter (unresolved lookup) (map snd sources))))] @
    (if \<forall>s\<in>set (map snd sources). unresolved lookup s then []
     else [(''validation_errors'', int (sum_list (map (source_errors lookup as_of) (map snd sources))))])"
  by (auto simp: validation_flags_def fold_count_validation Let_def filter_empty_conv)


lemma completeness_eq:
  "completeness lookup sources =
    ((if sources = [] then 0 else 100 * int (length (filter (verifiably_present lookup) (map snd sources))) div int (length sources)),
     [(''completeness_expected_sources'', int (length sources)),
      (''completeness_covered_sources'', int (length (filter (verifiably_present lookup) (map snd sources)))),
      (''completeness_unknown_sources'', int (length (filter (unresolved lookup) (map snd sources))))])"
proof -
  have "length (filter (\<lambda>(_, s). P s) sources) = length (filter P (map snd sources))" for P
    by (induction sources) auto
  moreover have "(\<lambda>s. resolve_run lookup (cs_run_id s) = None) = unresolved lookup"
    by (simp add: unresolved_def fun_eq_iff)
  ultimately show ?thesis by (simp add: completeness_def Let_def)
qed

lemma full_percentage:
  assumes "c \<le> e" and "0 < e" and "100 * int c div int e = 100"
  shows "c = e"
proof -
  have "100 * int c = 100 * int e + 100 * int c mod int e"
    using div_mult_mod_eq [of "100 * int c" "int e"] assms(3) by simp
  moreover have "0 \<le> 100 * int c mod int e" using assms(2) by simp
  ultimately have "100 * int e \<le> 100 * int c" by linarith
  with assms(1) show ?thesis by simp
qed

lemma full_filter: "length (filter P xs) = length xs \<Longrightarrow> \<forall>x\<in>set xs. P x"
  by (metis filter_True length_filter_less less_irrefl)

section \<open>A computed snapshot\<close>

definition sources_of :: "string \<Rightarrow> control_plane \<Rightarrow> run_lookup_ops option \<Rightarrow> (string \<times> contributing) list" where
  "sources_of key cp lookup =
     resolve_contributing_sources cp lookup (list_source_lineage cp None None (Some key) None)"

definition quality_of :: "control_plane \<Rightarrow> int \<Rightarrow> run_lookup_ops option \<Rightarrow> (string \<times> contributing) list \<Rightarrow> flags" where
  "quality_of cp as_of lookup sources = validation_flags lookup as_of sources @ snd (completeness lookup sources) @
     [(''freshness_unconfigured_sources'', int (length (filter (\<lambda>(k, s). defaulted cp k s) sources)))]"

lemma quality_flags:
  assumes "sources \<noteq> []"
  shows "flag_or (quality_of cp as_of lookup sources) ''rejected_runs'' d = int (sum_list (map (source_rejections lookup as_of) (map snd sources)))"
    "flag_or (quality_of cp as_of lookup sources) ''validation_unknown_runs'' d = int (length (filter (unresolved lookup) (map snd sources)))"
    "flag_or (quality_of cp as_of lookup sources) ''completeness_unknown_sources'' d = int (length (filter (unresolved lookup) (map snd sources)))"
    "flag_or (quality_of cp as_of lookup sources) ''completeness_expected_sources'' d = int (length sources)"
    "\<exists>s\<in>set (map snd sources). \<not> unresolved lookup s \<Longrightarrow>
      flag_or (quality_of cp as_of lookup sources) ''validation_errors'' d = int (sum_list (map (source_errors lookup as_of) (map snd sources)))"
  by (auto simp: quality_of_def validation_flags_eq completeness_eq flag_or_def)

lemma assessed_snapshot_eq:
  "assessed_snapshot key cp as_of lookup uuid =
    (let sources = sources_of key cp lookup in
     map_option (\<lambda>snaps. create_snapshot uuid key as_of (compute_publication_freshness_state snaps)
         (fst (completeness lookup sources)) snaps (run_ids_in_order (map (\<lambda>(_, s). cs_run_id s) sources))
         (quality_of cp as_of lookup sources))
       (source_snapshots cp lookup as_of sources))"
  by (simp add: assessed_snapshot_def sources_of_def quality_of_def Let_def split: option.split prod.split)

lemma source_snapshots_spec:
  "source_snapshots cp lookup as_of ss = Some xs \<Longrightarrow>
    list_all2 (\<lambda>(k, s) (k', x). k' = k \<and> source_snapshot_of cp lookup as_of k s = Some x) ss xs"
proof (induction ss arbitrary: xs)
  case (Cons p ss)
  then show ?case
    by (cases p) (auto split: option.split_asm)
qed simp

end
