(* ===== verification/ConfidenceClaims.thy ===== *)
theory ConfidenceClaims
  imports ConfidenceFacts FreshnessFacts
begin

text \<open>
  The properties of publication confidence: what a trustworthy verdict guarantees about the
  recorded runs, when a verdict is unreliable, that a recorded snapshot is read back under every
  name of the publication, and the round trip of the run metadata it rests on.
\<close>

section \<open>Trustworthy\<close>

lemma trustworthy_conditions:
  assumes "compute_verdict snaps pct f = Trustworthy"
  shows "snaps \<noteq> []" "\<forall>(k, s)\<in>set snaps. ss_freshness_state s = Current" "pct = 100"
    "completeness_signal_state f = Known" "validation_signal_state f = Known" "\<not> has_validation_errors f"
  using assms by (auto simp: compute_verdict_def Let_def list_all_iff split: if_split_asm)

definition clean_run :: "run_db \<Rightarrow> int \<Rightarrow> contributing \<Rightarrow> run \<Rightarrow> bool" where
  \<comment> \<open>the contributing run passed, and nothing of its dataset failed after it\<close>
  "clean_run db as_of c r \<longleftrightarrow> get_run db (cs_run_id c) = Inr r \<and> ru_passed r \<and> \<not> failed_run r \<and> ru_issues r = [] \<and>
     (\<forall>j x. get_run db j = Inr x \<and> ru_dataset_name x = ru_dataset_name r \<and> failed_run x \<and>
       ru_created_at r < ru_created_at x \<and> ru_created_at x \<le> as_of \<longrightarrow>
       cs_source_asset_id c = None \<and> ru_source_name x \<noteq> ru_source_name r)"

definition landed_rows :: "contributing \<Rightarrow> run \<Rightarrow> bool" where
  "landed_rows c r \<longleftrightarrow> 0 < ru_row_count r \<and> (case cs_lineage_row_count c of None \<Rightarrow> True | Some n \<Rightarrow> 0 < n)"

definition reads_current :: "control_plane \<Rightarrow> int \<Rightarrow> string \<Rightarrow> contributing \<Rightarrow> run \<Rightarrow> bool" where
  "reads_current cp as_of k c r \<longleftrightarrow> (\<exists>f ob today am. config_of_source cp k c = Some f \<and>
     run_observation (Some f) (run_status_text (ru_status r)) (utc (ru_created_at r)) None (Some (At (utc as_of))) = Some ob \<and>
     date_of_instant as_of = Some today \<and> evaluate_source_freshness (Some f) [ob] (On today) = Some am \<and> am_state am = Current)"

lemma no_source_errors:
  assumes "run_db_inv db" and "source_errors (Some (lookup_of db)) as_of s = 0"
    and "source_rejections (Some (lookup_of db)) as_of s = 0" and "\<not> unresolved (Some (lookup_of db)) s"
  shows "\<exists>r. clean_run db as_of s r"
proof -
  from assms(4) obtain r where r: "get_run db (cs_run_id s) = Inr r"
    by (auto simp: unresolved_def resolve_run_def lookup_get)
  then have rr: "resolve_run (Some (lookup_of db)) (cs_run_id s) = Some r" by (simp add: resolve_run_def lookup_get)
  from assms(2,3) rr have ok: "ru_issues r = []" "ru_passed r" "\<not> failed_run r"
    and later: "later_failed_runs (Some (lookup_of db)) r as_of (cs_source_asset_id s = None) = []"
    by (auto simp: source_errors_def source_rejections_def split: if_splits)
  have "clean_run db as_of s r"
    using repository.no_later_failure [OF assms(1) _ later, unfolded lookup_get, OF r] r ok
    by (auto simp: clean_run_def)
  then show ?thesis ..
qed



lemma present_run:
  assumes "get_run db (cs_run_id c) = Inr r" and "verifiably_present (Some (lookup_of db)) c"
  shows "landed_rows c r"
  using assms lookup_get [of db "cs_run_id c" r]
  by (auto simp: verifiably_present_def landed_rows_def resolve_run_def split: option.split_asm)

lemma current_snapshot:
  assumes "get_run db (cs_run_id c) = Inr r" and "source_snapshot_of cp (Some (lookup_of db)) as_of k c = Some x"
    and "ss_freshness_state x = Current"
  shows "defaulted cp k c \<or> reads_current cp as_of k c r"
proof -
  have "resolve_run (Some (lookup_of db)) (cs_run_id c) = Some r" using assms(1) by (simp add: resolve_run_def lookup_get)
  with assms(2,3) show ?thesis
    by (fastforce simp: source_snapshot_of_def reads_current_def split: option.split_asm if_split_asm)
qed

lemma trustworthy_sources:
  assumes "compute_verdict snaps (fst (completeness lk ss)) (quality_of cp as_of lk ss) = Trustworthy" and ne: "ss \<noteq> []"
    and c: "c \<in> set (map snd ss)"
  shows "\<not> unresolved lk c" "source_errors lk as_of c = 0" "source_rejections lk as_of c = 0" "verifiably_present lk c"
proof -
  note t = trustworthy_conditions [OF assms(1)]
  have resolved: "\<forall>x\<in>set (map snd ss). \<not> unresolved lk x"
    using t(5) by (auto simp: validation_signal_state_def quality_flags(2) [OF ne] filter_empty_conv split: if_split_asm)
  then have some: "\<exists>x\<in>set (map snd ss). \<not> unresolved lk x" using c by blast
  show "\<not> unresolved lk c" using resolved c by blast
  show "source_errors lk as_of c = 0" "source_rejections lk as_of c = 0"
    using t(6) c by (auto simp: has_validation_errors_def quality_flags(1) [OF ne] quality_flags(5) [OF ne some])
  have "length (filter (verifiably_present lk) (map snd ss)) = length ss"
    using t(3) ne length_filter_le [of "verifiably_present lk" "map snd ss"]
    by (intro full_percentage) (auto simp: completeness_eq)
  then have "\<forall>x\<in>set (map snd ss). verifiably_present lk x" by (intro full_filter) simp
  with c show "verifiably_present lk c" by blast
qed

text \<open>C21: a publication that the service finds trustworthy has contributing sources, and for each of
  them the contributing run exists in the run metadata, passed validation without issues, landed
  rows (and loaded some where lineage counts them), was not rejected, and no later landing of the
  same dataset up to the assessment failed; for a source not attributed to an asset only the later
  landings under the run's own source name count; its freshness reads current, or it is a declared source
  without configuration.  The run tables have unique keys and only known statuses.\<close>
theorem trustworthy_is_earned:
  assumes "run_db_inv db"
    and "compute_and_record_publication_confidence key cp as_of (Some (lookup_of db)) None uuid now = Some (s, cp')"
    and "sn_confidence_verdict s = Trustworthy"
  shows "sources_of key cp (Some (lookup_of db)) \<noteq> [] \<and>
    (\<forall>(k, c)\<in>set (sources_of key cp (Some (lookup_of db))).
      \<exists>r. clean_run db as_of c r \<and> landed_rows c r \<and> (defaulted cp k c \<or> reads_current cp as_of k c r))"
proof -
  let ?lk = "Some (lookup_of db)" let ?ss = "sources_of key cp ?lk"
  from assms(2) obtain snaps where snaps: "source_snapshots cp ?lk as_of ?ss = Some snaps"
    and s: "s = create_snapshot uuid key as_of (compute_publication_freshness_state snaps)
      (fst (completeness ?lk ?ss)) snaps (run_ids_in_order (map (\<lambda>(_, s). cs_run_id s) ?ss)) (quality_of cp as_of ?lk ?ss)"
    by (auto simp: compute_and_record_publication_confidence_def assessed_snapshot_eq Let_def split: option.split_asm)
  have v: "compute_verdict snaps (fst (completeness ?lk ?ss)) (quality_of cp as_of ?lk ?ss) = Trustworthy"
    using assms(3) by (simp add: s create_snapshot_def)
  note t = trustworthy_conditions [OF v] and paired = source_snapshots_spec [OF snaps]
  from t(1) paired have ne: "?ss \<noteq> []" by auto
  have "\<exists>r. clean_run db as_of c r \<and> landed_rows c r \<and> (defaulted cp k c \<or> reads_current cp as_of k c r)"
    if kc: "(k, c) \<in> set ?ss" for k c
  proof -
    have c: "c \<in> set (map snd ?ss)" using kc by force
    note src = trustworthy_sources [OF v ne c]
    from no_source_errors [OF assms(1) src(2,3,1)] obtain r where r: "clean_run db as_of c r" ..
    then have g: "get_run db (cs_run_id c) = Inr r" by (simp add: clean_run_def)
    from paired kc obtain x where x: "(k, x) \<in> set snaps" "source_snapshot_of cp ?lk as_of k c = Some x"
      by (fastforce simp: list_all2_conv_all_nth in_set_conv_nth)
    with t(2) have "ss_freshness_state x = Current" by auto
    with r present_run [OF g src(4)] current_snapshot [OF g x(2)] show ?thesis by blast
  qed
  with ne show ?thesis by blast
qed

definition bank_asset :: freshness_config where
  "bank_asset = \<lparr> fc_source_asset_id = ''bank'', fc_acquisition_mode = ''manual_export'',
     fc_expected_frequency = ''monthly'', fc_coverage_kind = ''rolling_period'', fc_due_day_of_month = Some 5,
     fc_expected_window_days = 5, fc_freshness_sla_days = 40, fc_sensitivity_class = ''financial'',
     fc_reminder_channel = ''dashboard'', fc_requires_human_action = True \<rparr>"

definition bank_run :: run where
  "bank_run = \<lparr> ru_run_id = ''r1'', ru_source_name = ''upload'', ru_dataset_name = ''accounts'', ru_file_name = ''a.csv'',
     ru_raw_path = ''raw'', ru_manifest_path = ''manifest'', ru_sha256 = ''00'', ru_row_count = 12, ru_header = [''date''],
     ru_status = Run_Landed, ru_passed = True, ru_issues = [], ru_created_at = 1790899200000000 \<rparr>"

definition bank_runs :: run_db where
  "bank_runs = snd (create_run bank_run \<lparr> rd_runs = [], rd_issues = [] \<rparr>)"

definition bank_lineage :: "lineage list" where
  "bank_lineage =
     [\<lparr> ln_lineage_id = ''l1'', ln_input_run_id = Some ''r1'', ln_target_layer = ''landing'', ln_target_name = ''bank'',
        ln_target_kind = ''source_asset'', ln_row_count = Some 12, ln_source_system = None, ln_source_run_id = None,
        ln_recorded_at = 1790899200000000 \<rparr>,
      \<lparr> ln_lineage_id = ''l2'', ln_input_run_id = Some ''r1'', ln_target_layer = ''reporting'', ln_target_name = ''mart_cashflow'',
        ln_target_kind = ''publication'', ln_row_count = Some 12, ln_source_system = None, ln_source_run_id = None,
        ln_recorded_at = 1790899200000001 \<rparr>]"

definition bank_plane :: control_plane where
  "bank_plane = \<lparr> cp_lineage = bank_lineage, cp_audit = [], cp_freshness_configs = [bank_asset], cp_snapshots = [] \<rparr>"

lemma bank_inv: "run_db_inv bank_runs"
  unfolding bank_runs_def by (rule create_run_inv) simp

lemma bank_trustworthy:
  "(case compute_and_record_publication_confidence ''mart_cashflow'' bank_plane 1790999200000000
      (Some (lookup_of bank_runs)) None ''u1'' 1790999200000001 of
    None \<Rightarrow> False | Some (s, cp') \<Rightarrow> sn_confidence_verdict s = Trustworthy)"
  by code_simp

theorem trustworthy_is_earned_witness:
  "\<exists>k c r. (k, c) \<in> set (sources_of ''mart_cashflow'' bank_plane (Some (lookup_of bank_runs))) \<and>
     clean_run bank_runs 1790999200000000 c r \<and> landed_rows c r"
proof -
  from bank_trustworthy obtain s cp' where "compute_and_record_publication_confidence ''mart_cashflow'' bank_plane
      1790999200000000 (Some (lookup_of bank_runs)) None ''u1'' 1790999200000001 = Some (s, cp')"
    "sn_confidence_verdict s = Trustworthy"
    by (auto split: option.split_asm)
  note earned = trustworthy_is_earned [OF bank_inv this]
  obtain k c where kc: "(k, c) \<in> set (sources_of ''mart_cashflow'' bank_plane (Some (lookup_of bank_runs)))"
    using conjunct1 [OF earned] by (cases "sources_of ''mart_cashflow'' bank_plane (Some (lookup_of bank_runs))") auto
  with bspec [OF conjunct2 [OF earned] kc] show ?thesis by auto
qed

section \<open>Reading a snapshot back\<close>

definition canonical_key :: "key_resolver option \<Rightarrow> string \<Rightarrow> string" where
  "canonical_key kr k = (case kr of None \<Rightarrow> k | Some r \<Rightarrow> snapshot_key r k)"

definition lookup_keys :: "key_resolver option \<Rightarrow> string \<Rightarrow> string list" where
  "lookup_keys kr k = (case kr of None \<Rightarrow> [k] | Some r \<Rightarrow> snapshot_lookup_keys r k)"

lemma lookup_keys_canonical:
  "canonical_key kr k' = canonical_key kr k \<Longrightarrow> lookup_keys kr k' = lookup_keys kr k"
  by (auto simp: canonical_key_def lookup_keys_def snapshot_lookup_keys_def Let_def split: option.split_asm)

lemma lookup_keys_cases:
  obtains "lookup_keys kr k = [canonical_key kr k]"
  | l where "lookup_keys kr k = [canonical_key kr k, l]" "l \<noteq> canonical_key kr k"
proof (cases kr)
  case None
  with that(1) show thesis by (simp add: canonical_key_def lookup_keys_def)
next
  case (Some r)
  with that show thesis
    by (cases "contract_key r (snapshot_key r k) = snapshot_key r k")
      (auto simp: canonical_key_def lookup_keys_def snapshot_lookup_keys_def Let_def)
qed

lemma newest_listed:
  assumes "\<forall>r\<in>set table. sw_assessed_at r < sw_assessed_at x"
  shows "list_publication_confidence_snapshots (table @ [x]) (Some (sw_publication_key x)) (Some 1) = [x]"
proof -
  let ?rows = "sort_key (\<lambda>r. - sw_assessed_at r) (sort_key sw_snapshot_id
    (filter (\<lambda>r. sw_publication_key r = sw_publication_key x) (table @ [x])))"
  have "x \<in> set ?rows" by simp
  then obtain y ys where rows: "?rows = y # ys" by (meson list.set_cases)
  have "sorted (map (\<lambda>r. - sw_assessed_at r) ?rows)" by (rule sorted_sort_key)
  then have "sw_assessed_at x \<le> sw_assessed_at y" using \<open>x \<in> set ?rows\<close> unfolding rows by auto
  moreover have "y \<in> set ?rows" unfolding rows by simp
  ultimately have "y = x" using assms by auto
  with rows show ?thesis by (simp add: list_publication_confidence_snapshots_def)
qed

lemma listed_members:
  "r \<in> set (list_publication_confidence_snapshots table (Some k) n) \<Longrightarrow> r \<in> set table \<and> sw_publication_key r = k"
  by (auto simp: list_publication_confidence_snapshots_def Let_def split: option.split_asm dest: in_set_takeD)

lemma newest_row_first: "\<forall>x\<in>set xs. sw_assessed_at x < sw_assessed_at r \<Longrightarrow> newest_row r xs = r"
  by (induction xs) auto

lemma latest_is_row:
  assumes older: "\<forall>r\<in>set table. sw_assessed_at r < sw_assessed_at x"
    and key: "sw_publication_key x = canonical_key kr k"
  shows "\<exists>rest. concat (map (\<lambda>k. list_publication_confidence_snapshots (table @ [x]) (Some k) (Some 1)) (lookup_keys kr k)) = x # rest \<and>
    newest_row x rest = x \<and> hd (lookup_keys kr k) = canonical_key kr k"
proof (rule lookup_keys_cases [of kr k])
  assume "lookup_keys kr k = [canonical_key kr k]"
  with newest_listed [OF older] key show ?thesis by simp
next
  fix l assume l: "lookup_keys kr k = [canonical_key kr k, l]" "l \<noteq> canonical_key kr k"
  let ?rest = "list_publication_confidence_snapshots (table @ [x]) (Some l) (Some 1)"
  have "\<forall>r\<in>set ?rest. sw_assessed_at r < sw_assessed_at x"
    using listed_members [of _ "table @ [x]" l] older key l(2) by fastforce
  with newest_row_first [OF this] newest_listed [OF older] key l(1) show ?thesis by simp
qed

lemma parse_texts [simp]:
  "parse_pub_freshness (pub_freshness_text s) = Some s" "parse_verdict (verdict_text v) = Some v"
  by (cases s, simp_all add: parse_pub_freshness_def pub_freshness_text_def)
    (cases v, simp_all add: parse_verdict_def verdict_text_def)

text \<open>a snapshot computed and recorded for a publication is read back, under whichever of the
  publication's names resolves to the same key, with the verdict, freshness, percentage, run ids
  and flags it was recorded with, as long as no stored snapshot is as recent; only the states of
  the single sources are not stored.\<close>
theorem recorded_snapshot_is_read_back:
  assumes "compute_and_record_publication_confidence key cp as_of lookup kr uuid now = Some (s, cp')"
    and "\<forall>r\<in>set (cp_snapshots cp). sw_assessed_at r < as_of"
    and "canonical_key kr key' = canonical_key kr key"
  shows "get_latest_publication_confidence key' (cp_snapshots cp') kr =
    Some (Some (s \<lparr> sn_source_freshness_states := [] \<rparr>))"
proof -
  let ?x = "snapshot_entry s now"
  from assms(1) obtain t where a: "assessed_snapshot (canonical_key kr key) cp as_of lookup uuid = Some s"
    and t: "record_publication_confidence_snapshot [?x] (cp_snapshots cp) = Some t" "cp' = cp \<lparr> cp_snapshots := t \<rparr>"
    by (auto simp: compute_and_record_publication_confidence_def canonical_key_def Let_def split: option.split_asm)
  from t have table: "cp_snapshots cp' = cp_snapshots cp @ [?x]"
    by (auto simp: record_publication_confidence_snapshot_def split: if_split_asm)
  from a have s: "sn_publication_key s = canonical_key kr key" "sn_assessed_at s = as_of"
    by (auto simp: assessed_snapshot_eq create_snapshot_def Let_def)
  have key: "sw_publication_key ?x = canonical_key kr key'" "sw_assessed_at ?x = as_of"
    using s assms(3) by (simp_all add: snapshot_entry_def)
  from latest_is_row [OF _ key(1), of "cp_snapshots cp"] assms(2) key(2) obtain rest where r:
    "concat (map (\<lambda>k. list_publication_confidence_snapshots (cp_snapshots cp') (Some k) (Some 1)) (lookup_keys kr key')) = ?x # rest"
    "newest_row ?x rest = ?x" "hd (lookup_keys kr key') = canonical_key kr key'"
    unfolding table by auto
  show ?thesis
    using r s assms(3) unfolding get_latest_publication_confidence_def lookup_keys_def [symmetric] Let_def
    by (simp add: snapshot_entry_def)
qed

definition bank_keys :: key_resolver where
  "bank_keys = from_capability_packs [[(''cashflow'', ''cashflow'')]]"

lemma bank_recorded:
  "compute_and_record_publication_confidence ''cashflow'' bank_plane 1790999200000000
     (Some (lookup_of bank_runs)) (Some bank_keys) ''u1'' 1790999200000001 \<noteq> None"
  by code_simp

theorem recorded_snapshot_is_read_back_witness:
  "\<exists>s cp'. compute_and_record_publication_confidence ''cashflow'' bank_plane 1790999200000000
      (Some (lookup_of bank_runs)) (Some bank_keys) ''u1'' 1790999200000001 = Some (s, cp') \<and>
    get_latest_publication_confidence ''mart_cashflow'' (cp_snapshots cp') (Some bank_keys) =
      Some (Some (s \<lparr> sn_source_freshness_states := [] \<rparr>))"
proof -
  from bank_recorded obtain s cp' where r: "compute_and_record_publication_confidence ''cashflow'' bank_plane
      1790999200000000 (Some (lookup_of bank_runs)) (Some bank_keys) ''u1'' 1790999200000001 = Some (s, cp')"
    by auto
  have "canonical_key (Some bank_keys) ''mart_cashflow'' = canonical_key (Some bank_keys) ''cashflow''" by code_simp
  with recorded_snapshot_is_read_back [OF r, of "''mart_cashflow''"] r show ?thesis
    by (simp add: bank_plane_def)
qed

section \<open>Unreliable\<close>








text \<open>
  The percentage is rounded down before the unresolved sources are added, so the verdict can be
  unreliable although one half of the sources would be present: of six sources one is present, two
  are unresolved and three are missing.
\<close>

lemma half_present_unreliable:
  assumes "snaps = [(''a'', \<lparr> ss_source_asset_id = ''a'', ss_freshness_state = Overdue, ss_last_ingest_at = None, ss_covered_through = None \<rparr>)]"
    and "f = [(''completeness_expected_sources'', 6), (''completeness_covered_sources'', 1), (''completeness_unknown_sources'', 2)]"
  shows "compute_verdict snaps (100 * 1 div 6) f = Unreliable"
  unfolding assms by (simp add: compute_verdict_def completeness_upper_bound_def flag_or_def completeness_signal_state_def)

section \<open>The run metadata\<close>

text \<open>a run created under a fresh id is read back with every field and its issues in order, the
  other runs read as before, the tables stay sound, and any listing is a page of the matching runs
  of the database, newest first, each as the single read returns it, with the count agreeing with
  the unlimited listing.\<close>
theorem run_is_read_back:
  assumes "run_db_inv db" and "ru_run_id r \<notin> rr_run_id ` set (rd_runs db)"
  shows "\<exists>db'. create_run r db = (Inr r, db') \<and> run_db_inv db' \<and> get_run db' (ru_run_id r) = Inr r \<and>
    (\<forall>j. j \<noteq> ru_run_id r \<longrightarrow> get_run db' j = get_run db j) \<and>
    (\<exists>all. list_runs db' d st t1 t2 None 0 = Inr all \<and> count_runs db' d st t1 t2 = int (length all) \<and>
       list_runs db' d st t1 t2 l k = Inr (sql_page l k all) \<and>
       (\<forall>x\<in>set all. get_run db' (ru_run_id x) = Inr x) \<and>
       sorted (map (\<lambda>x. - ru_created_at x) all))"
proof -
  let ?db = "\<lparr> rd_runs = rd_runs db @ [row_of_run r], rd_issues = rd_issues db @ issue_rows r \<rparr>"
  note c = create_run_fresh [OF assms]
  have inv: "run_db_inv ?db" using create_run_inv [OF assms(1), of r] by (simp add: c)
  have own: "get_run ?db (ru_run_id r) = Inr r"
    using c by (auto simp: create_run_def Let_def split: if_split_asm)
  have other: "get_run ?db j = get_run db j" if "j \<noteq> ru_run_id r" for j
  proof -
    have "\<forall>x\<in>set (issue_rows r). fst x \<noteq> j" using issue_row_id that by blast
    with that show ?thesis
      by (simp add: get_run_def find_append row_of_run_def issues_of_unrelated split: option.split)
  qed
  let ?rows = "newest_runs (filter (run_filter d st t1 t2) (rd_runs ?db))"
  let ?all = "map (run_of_row ?db) ?rows"
  have sub: "set ?rows \<subseteq> set (rd_runs ?db)" by auto
  have "sorted (map (\<lambda>x. - ru_created_at x) ?all)"
  proof -
    have "map (\<lambda>x. - ru_created_at x) ?all = map (\<lambda>x. - rr_created_at x) ?rows"
      using sub run_of_row_fields(3) [OF inv] by (simp add: subset_iff)
    then show ?thesis using sorted_newest_runs by metis
  qed
  moreover have "\<forall>x\<in>set ?all. get_run ?db (ru_run_id x) = Inr x"
    using sub get_run_of_row [OF inv] run_of_row_fields(1) [OF inv] by (auto simp: subset_iff)
  moreover have "count_runs ?db d st t1 t2 = int (length ?all)"
    by (simp add: count_runs_def newest_runs_def)
  moreover have "list_runs ?db d st t1 t2 None 0 = Inr ?all" "list_runs ?db d st t1 t2 l k = Inr (sql_page l k ?all)"
    unfolding list_runs_rows [OF inv] by (simp_all add: sql_page_def Let_def take_map drop_map split: option.split)
  ultimately have "\<exists>all. list_runs ?db d st t1 t2 None 0 = Inr all \<and> count_runs ?db d st t1 t2 = int (length all) \<and>
       list_runs ?db d st t1 t2 l k = Inr (sql_page l k all) \<and>
       (\<forall>x\<in>set all. get_run ?db (ru_run_id x) = Inr x) \<and> sorted (map (\<lambda>x. - ru_created_at x) all)"
    by (intro exI [of _ ?all] conjI)
  with inv own other show ?thesis by (intro exI [of _ ?db] conjI allI impI c)
qed

theorem run_is_read_back_witness:
  "\<exists>db'. create_run bank_run \<lparr> rd_runs = [], rd_issues = [] \<rparr> = (Inr bank_run, db') \<and> get_run db' ''r1'' = Inr bank_run"
proof -
  have id: "ru_run_id bank_run = ''r1''" by (simp add: bank_run_def)
  have "ru_run_id bank_run \<notin> rr_run_id ` set (rd_runs \<lparr> rd_runs = [], rd_issues = [] \<rparr>)" by simp
  from run_is_read_back [OF run_db_inv_empty this, of None None None None None 0]
  obtain db' where d: "create_run bank_run \<lparr> rd_runs = [], rd_issues = [] \<rparr> = (Inr bank_run, db')"
    "get_run db' (ru_run_id bank_run) = Inr bank_run" by (elim exE conjE) (rule that)
  show ?thesis by (intro exI [of _ db'] conjI d(1) d(2) [unfolded id])
qed

end
