(* ===== verification/LineageGraph.thy ===== *)
theory LineageGraph
  imports ConfidenceService Json Calendar
begin

text \<open>
  The lineage graph of a publication (\<open>packages/platform/lineage_graph.py\<close>): the runs behind it, most
  recent first and at most \<open>run_limit\<close> of them, the relations they produced and the sources they
  landed, assembled from the publication audit and the source lineage of the control plane.  The
  dictionaries of nodes and edges are association lists in insertion order.
\<close>

definition set_default :: "'k \<Rightarrow> 'v \<Rightarrow> ('k \<times> 'v) list \<Rightarrow> ('k \<times> 'v) list" where
  \<comment> \<open>\<open>if k not in d: d[k] = v\<close>\<close>
  "set_default k v d = (if k \<in> fst ` set d then d else d @ [(k, v)])"

section \<open>Nodes and edges\<close>

record lineage_node =
  nd_id :: string
  nd_type :: string
  nd_attributes :: "(string \<times> json) list"

record lineage_edge =
  ed_from_id :: string
  ed_to_id :: string
  ed_type :: string
  ed_attributes :: "(string \<times> json) list"

record lineage_graph =
  lg_publication_key :: string
  lg_nodes :: "lineage_node list"
  lg_edges :: "lineage_edge list"
  lg_total_runs :: nat
  lg_run_limit :: "int option"
  lg_truncated :: bool

definition node_as_dict :: "lineage_node \<Rightarrow> json" where
  "node_as_dict n = JObj [(''id'', JStr (nd_id n)), (''type'', JStr (nd_type n)), (''attributes'', JObj (nd_attributes n))]"

definition edge_as_dict :: "lineage_edge \<Rightarrow> json" where
  "edge_as_dict e = JObj [(''from'', JStr (ed_from_id e)), (''to'', JStr (ed_to_id e)), (''type'', JStr (ed_type e)),
     (''attributes'', JObj (ed_attributes e))]"

definition graph_as_dict :: "lineage_graph \<Rightarrow> json" where
  "graph_as_dict g = JObj [(''publication_key'', JStr (lg_publication_key g)), (''nodes'', JArr (map node_as_dict (lg_nodes g))),
     (''edges'', JArr (map edge_as_dict (lg_edges g))), (''total_runs'', JNum (int (lg_total_runs g))),
     (''run_limit'', case lg_run_limit g of None \<Rightarrow> JNull | Some n \<Rightarrow> JNum n), (''truncated'', JBool (lg_truncated g))]"

definition publication_node_id :: "string \<Rightarrow> string" where
  "publication_node_id k = ''publication:'' @ k"

definition run_node_id :: "string \<Rightarrow> string" where
  "run_node_id i = ''run:'' @ i"

definition relation_node_id :: "string \<Rightarrow> string \<Rightarrow> string" where
  "relation_node_id layer n = ''relation:'' @ layer @ '':'' @ n"

definition source_node_id :: "string \<Rightarrow> string" where
  "source_node_id s = ''source:'' @ s"

section \<open>The runs that are walked\<close>

definition given_text :: "string option \<Rightarrow> bool" where
  \<comment> \<open>an optional text that is truthy\<close>
  "given_text x \<longleftrightarrow> x \<noteq> None \<and> x \<noteq> Some []"

definition note_latest :: "string option \<times> int \<Rightarrow> (string \<times> int) list \<Rightarrow> (string \<times> int) list" where
  "note_latest e latest = (case e of (x, stamp) \<Rightarrow>
     if \<not> given_text x then latest
     else (case map_of latest (the x) of
             None \<Rightarrow> AList.update (the x) stamp latest
           | Some t \<Rightarrow> if t < stamp then AList.update (the x) stamp latest else latest))"

definition run_stamps :: "publication_audit list \<Rightarrow> lineage list \<Rightarrow> (string option \<times> int) list" where
  "run_stamps audit rows = map (\<lambda>r. (pa_run_id r, pa_published_at r)) audit @ map (\<lambda>r. (ln_input_run_id r, ln_recorded_at r)) rows"

definition latest_runs :: "publication_audit list \<Rightarrow> lineage list \<Rightarrow> (string \<times> int) list" where
  "latest_runs audit rows = fold note_latest (run_stamps audit rows) []"

definition ordered_runs :: "(string \<times> int) list \<Rightarrow> string list" where
  \<comment> \<open>the keys by latest time and id, descending\<close>
  "ordered_runs latest = map fst (rev (sort_key snd (sort_key fst latest)))"

definition select_runs :: "publication_audit list \<Rightarrow> lineage list \<Rightarrow> int option \<Rightarrow> string list \<times> nat" where
  "select_runs audit rows run_limit = (let latest = latest_runs audit rows; ordered = ordered_runs latest in
     (case run_limit of None \<Rightarrow> ordered | Some n \<Rightarrow> take (nat n) ordered, length latest))"

fun unseen_records :: "string set \<Rightarrow> lineage list \<Rightarrow> lineage list" where
  \<comment> \<open>rows whose lineage id was not met before\<close>
  "unseen_records seen [] = []"
| "unseen_records seen (r # rs) = (if ln_lineage_id r \<in> seen then unseen_records seen rs
     else r # unseen_records (insert (ln_lineage_id r) seen) rs)"

definition collect_lineage_for_relations :: "control_plane \<Rightarrow> string list \<Rightarrow> lineage list" where
  "collect_lineage_for_relations cp relation_names =
     unseen_records {} (concat (map (\<lambda>n. list_source_lineage cp None None (Some n) None) (sorted_unique relation_names)))"

definition UPSTREAM_LAYERS :: "string list" where
  "UPSTREAM_LAYERS = [''landing'', ''transformation'']"

definition collect_upstream_lineage :: "control_plane \<Rightarrow> string list \<Rightarrow> lineage list" where
  "collect_upstream_lineage cp run_ids =
     unseen_records {} (concat (map (\<lambda>i. concat (map (\<lambda>layer. list_source_lineage cp (Some i) (Some layer) None None) UPSTREAM_LAYERS))
       (sorted_unique run_ids)))"

section \<open>Assembly\<close>

record graph_state =
  gs_nodes :: "(string \<times> lineage_node) list"
  gs_edges :: "((string \<times> string \<times> string) \<times> lineage_edge) list"
  gs_upstream_by_run :: "(string \<times> string list) list"
  gs_reporting_by_run :: "(string \<times> string list) list"

definition note_node :: "string \<Rightarrow> string \<Rightarrow> (string \<times> json) list \<Rightarrow> graph_state \<Rightarrow> graph_state" where
  "note_node i t attributes s =
     s \<lparr> gs_nodes := set_default i \<lparr> nd_id = i, nd_type = t, nd_attributes = attributes \<rparr> (gs_nodes s) \<rparr>"

definition note_edge :: "string \<Rightarrow> string \<Rightarrow> string \<Rightarrow> (string \<times> json) list \<Rightarrow> graph_state \<Rightarrow> graph_state" where
  "note_edge a b t attributes s =
     s \<lparr> gs_edges := set_default (a, b, t) \<lparr> ed_from_id = a, ed_to_id = b, ed_type = t, ed_attributes = attributes \<rparr> (gs_edges s) \<rparr>"

definition run_node :: "string \<Rightarrow> graph_state \<Rightarrow> graph_state" where
  "run_node i = note_node (run_node_id i) ''run'' [(''run_id'', JStr i)]"

definition append_under :: "'k \<Rightarrow> 'v \<Rightarrow> ('k \<times> 'v list) list \<Rightarrow> ('k \<times> 'v list) list" where
  \<comment> \<open>\<open>d.setdefault(k, []).append(v)\<close>\<close>
  "append_under k v d = AList.update k ((case map_of d k of None \<Rightarrow> [] | Some vs \<Rightarrow> vs) @ [v]) d"

definition add_audit_row :: "string \<Rightarrow> publication_audit \<Rightarrow> graph_state \<Rightarrow> graph_state" where
  "add_audit_row publication_id r s = (case pa_run_id r of
     None \<Rightarrow> s
   | Some i \<Rightarrow> if i = [] then s
       else note_edge (run_node_id i) publication_id ''publishes''
              [(''status'', JStr (pa_status r)), (''relation_name'', JStr (pa_relation_name r)), (''published_at'', JStr (iso_text (pa_published_at r)))]
              (run_node i s))"

definition j_int_opt :: "int option \<Rightarrow> json" where
  "j_int_opt x = (case x of None \<Rightarrow> JNull | Some n \<Rightarrow> JNum n)"

definition add_source :: "string \<Rightarrow> lineage \<Rightarrow> graph_state \<Rightarrow> graph_state" where
  "add_source run_id r s = (case ln_source_system r of
     None \<Rightarrow> s
   | Some src \<Rightarrow> if src = [] then s
       else note_edge (source_node_id src) run_id ''sources'' [(''source_run_id'', j_opt (ln_source_run_id r))]
              (note_node (source_node_id src) ''source'' [(''source_system'', JStr src)] s))"

definition file_relation :: "string list \<Rightarrow> string \<Rightarrow> string \<Rightarrow> lineage \<Rightarrow> graph_state \<Rightarrow> graph_state" where
  "file_relation relation_names run_id relation_id r s =
     (if ln_target_layer r = ''transformation'' then s \<lparr> gs_upstream_by_run := append_under run_id relation_id (gs_upstream_by_run s) \<rparr>
      else if ln_target_name r \<in> set relation_names then s \<lparr> gs_reporting_by_run := append_under run_id relation_id (gs_reporting_by_run s) \<rparr>
      else s)"

definition add_lineage_row :: "string list \<Rightarrow> lineage \<Rightarrow> graph_state \<Rightarrow> graph_state" where
  "add_lineage_row relation_names r s = (case ln_input_run_id r of
     None \<Rightarrow> s
   | Some i \<Rightarrow> if i = [] then s
       else (let run_id = run_node_id i; relation_id = relation_node_id (ln_target_layer r) (ln_target_name r) in
         add_source run_id r (file_relation relation_names run_id relation_id r
           (note_edge run_id relation_id ''produces''
              [(''row_count'', j_int_opt (ln_row_count r)), (''target_kind'', JStr (ln_target_kind r)), (''recorded_at'', JStr (iso_text (ln_recorded_at r)))]
              (note_node relation_id ''relation''
                 [(''layer'', JStr (ln_target_layer r)), (''name'', JStr (ln_target_name r)), (''kind'', JStr (ln_target_kind r))]
                 (run_node i s))))))"

definition run_id_of_node :: "string \<Rightarrow> graph_state \<Rightarrow> json" where
  \<comment> \<open>\<open>nodes[run_id].attributes.get("run_id")\<close>\<close>
  "run_id_of_node run_id s = (case map_of (gs_nodes s) run_id of
     None \<Rightarrow> JNull
   | Some n \<Rightarrow> (case map_of (nd_attributes n) ''run_id'' of None \<Rightarrow> JNull | Some v \<Rightarrow> v))"

definition feed_targets :: "string \<Rightarrow> string \<Rightarrow> graph_state \<Rightarrow> string list" where
  "feed_targets publication_id run_id s = (case map_of (gs_reporting_by_run s) run_id of
     Some ts \<Rightarrow> ts
   | None \<Rightarrow> if (run_id, publication_id, ''publishes'') \<in> fst ` set (gs_edges s) then [publication_id] else [])"

definition add_feeds :: "string \<Rightarrow> string \<times> string list \<Rightarrow> graph_state \<Rightarrow> graph_state" where
  "add_feeds publication_id entry s = (case entry of (run_id, upstream_ids) \<Rightarrow>
     let targets = feed_targets publication_id run_id s in
     fold (\<lambda>u. fold (\<lambda>t s'. note_edge u t ''feeds'' [(''run_id'', run_id_of_node run_id s')] s') targets) upstream_ids s)"

definition publication_state :: "string \<Rightarrow> graph_state" where
  "publication_state key = note_node (publication_node_id key) ''publication'' [(''key'', JStr key)]
     \<lparr> gs_nodes = [], gs_edges = [], gs_upstream_by_run = [], gs_reporting_by_run = [] \<rparr>"

definition sorted_nodes :: "graph_state \<Rightarrow> lineage_node list" where
  "sorted_nodes s = sort_key nd_type (sort_key nd_id (map snd (gs_nodes s)))"

definition sorted_edges :: "graph_state \<Rightarrow> lineage_edge list" where
  "sorted_edges s = sort_key ed_type (sort_key ed_from_id (sort_key ed_to_id (map snd (gs_edges s))))"

definition publication_rows :: "control_plane \<Rightarrow> string \<Rightarrow> publication_audit list \<times> string list \<times> lineage list" where
  \<comment> \<open>the audit rows, their relations and the lineage rows behind a publication\<close>
  "publication_rows cp key = (let audit = list_publication_audit cp None (Some key); names = map pa_relation_name audit in
     (audit, names, collect_lineage_for_relations cp names))"

definition assemble_graph :: "control_plane \<Rightarrow> string \<Rightarrow> string list \<Rightarrow> graph_state" where
  \<comment> \<open>nodes and edges over the runs that were kept\<close>
  "assemble_graph cp key kept = (case publication_rows cp key of (all_audit, relation_names, all_lineage) \<Rightarrow>
     let audit = filter (\<lambda>r. \<not> given_text (pa_run_id r) \<or> the (pa_run_id r) \<in> set kept) all_audit;
         lineage = filter (\<lambda>r. \<not> given_text (ln_input_run_id r) \<or> the (ln_input_run_id r) \<in> set kept) all_lineage;
         upstream = filter (\<lambda>r. ln_lineage_id r \<notin> ln_lineage_id ` set lineage) (collect_upstream_lineage cp kept);
         s = fold (add_lineage_row relation_names) (lineage @ upstream)
               (fold (add_audit_row (publication_node_id key)) audit (publication_state key))
     in fold (add_feeds (publication_node_id key)) (gs_upstream_by_run s) s)"

definition build_publication_lineage_graph :: "control_plane \<Rightarrow> string \<Rightarrow> int option \<Rightarrow> string + lineage_graph" where
  "build_publication_lineage_graph cp key run_limit =
     (if run_limit \<noteq> None \<and> the run_limit < 1 then Inl ''run_limit must be at least 1''
      else (case publication_rows cp key of (audit, _, rows) \<Rightarrow>
        case select_runs audit rows run_limit of (kept, total_runs) \<Rightarrow>
        let s = assemble_graph cp key kept in
        Inr \<lparr> lg_publication_key = key, lg_nodes = sorted_nodes s, lg_edges = sorted_edges s,
              lg_total_runs = total_runs, lg_run_limit = run_limit, lg_truncated = (length kept < total_runs) \<rparr>))"


section \<open>The route\<close>

definition DEFAULT_RUN_LIMIT :: int where
  "DEFAULT_RUN_LIMIT = 50"

definition MAX_RUN_LIMIT :: int where
  "MAX_RUN_LIMIT = 500"

definition get_publication_lineage :: "control_plane \<Rightarrow> string \<Rightarrow> int option \<Rightarrow> nat + json" where
  \<comment> \<open>\<open>GET /api/lineage/publication/{publication_key}\<close>: an error status or the body\<close>
  "get_publication_lineage cp key run_limit = (let n = (case run_limit of None \<Rightarrow> DEFAULT_RUN_LIMIT | Some n \<Rightarrow> n) in
     if n < 1 \<or> MAX_RUN_LIMIT < n then Inl 422
     else (case build_publication_lineage_graph cp key (Some n) of Inl e \<Rightarrow> Inl 500 | Inr g \<Rightarrow> Inr (graph_as_dict g)))"

lemma lineage_route_total: "get_publication_lineage cp key run_limit \<noteq> Inl 500"
  by (auto simp: get_publication_lineage_def build_publication_lineage_graph_def Let_def split: sum.splits prod.splits if_splits)

end
