(* ===== verification/LineageFacts.thy ===== *)
theory LineageFacts
  imports LineageGraph
begin

text \<open>
  What the assembly keeps: every edge joins nodes of the kinds its type stands for, nodes and edges are
  unique, and the runs of the graph are the runs that were kept, each with an edge towards the
  publication.
\<close>

section \<open>Insertion into the dictionaries\<close>

lemma dom_set_default [simp]: "fst ` set (set_default k v d) = insert k (fst ` set d)"
  by (auto simp: set_default_def image_iff)

lemma set_default_member: "(k', v') \<in> set (set_default k v d) \<Longrightarrow> (k', v') \<in> set d \<or> k' = k \<and> v' = v"
  by (auto simp: set_default_def split: if_splits)

lemma distinct_set_default: "distinct (map fst d) \<Longrightarrow> distinct (map fst (set_default k v d))"
  by (auto simp: set_default_def)

lemma map_of_append_under:
  "map_of (append_under k v d) = (map_of d)(k \<mapsto> (case map_of d k of None \<Rightarrow> [] | Some vs \<Rightarrow> vs) @ [v])"
  by (simp add: append_under_def map_of_update)

section \<open>Kinds of nodes and edges\<close>

definition kind_of_id :: "string \<Rightarrow> string" where
  "kind_of_id k = takeWhile (\<lambda>c. c \<noteq> CHR '':'') k"

lemma kind_of_ids [simp]:
  "kind_of_id (publication_node_id k) = ''publication''" "kind_of_id (run_node_id k) = ''run''"
  "kind_of_id (relation_node_id l n) = ''relation''" "kind_of_id (source_node_id k) = ''source''"
  by (simp_all add: kind_of_id_def publication_node_id_def run_node_id_def relation_node_id_def source_node_id_def)

lemma run_node_id_eq [simp]: "run_node_id i = run_node_id j \<longleftrightarrow> i = j"
  by (simp add: run_node_id_def)

definition edge_kinds :: "(string \<times> string \<times> string) set" where
  "edge_kinds = {(''publishes'', ''run'', ''publication''), (''produces'', ''run'', ''relation''),
     (''sources'', ''source'', ''run''), (''feeds'', ''relation'', ''relation''), (''feeds'', ''relation'', ''publication'')}"

definition node_ids :: "graph_state \<Rightarrow> string set" where
  "node_ids s = fst ` set (gs_nodes s)"

definition edge_keys :: "graph_state \<Rightarrow> (string \<times> string \<times> string) set" where
  "edge_keys s = fst ` set (gs_edges s)"

definition filed :: "graph_state \<Rightarrow> string set" where
  \<comment> \<open>the relations filed under some run\<close>
  "filed s = (\<Union>(k, xs)\<in>set (gs_upstream_by_run s) \<union> set (gs_reporting_by_run s). set xs)"

definition graph_ok :: "string list \<Rightarrow> string \<Rightarrow> graph_state \<Rightarrow> bool" where
  "graph_ok kept publication_id s \<longleftrightarrow>
     distinct (map fst (gs_nodes s)) \<and> (\<forall>(k, n)\<in>set (gs_nodes s). nd_id n = k \<and> nd_type n = kind_of_id k) \<and>
     distinct (map fst (gs_edges s)) \<and>
     (\<forall>((a, b, t), e)\<in>set (gs_edges s). ed_from_id e = a \<and> ed_to_id e = b \<and> ed_type e = t \<and>
        a \<in> node_ids s \<and> b \<in> node_ids s \<and> (t, kind_of_id a, kind_of_id b) \<in> edge_kinds) \<and>
     (\<forall>x\<in>filed s. x \<in> node_ids s \<and> kind_of_id x = ''relation'') \<and>
     publication_id \<in> node_ids s \<and> kind_of_id publication_id = ''publication'' \<and>
     (\<forall>k\<in>node_ids s. kind_of_id k = ''run'' \<longrightarrow> k \<in> run_node_id ` set kept)"

lemma node_ids_note [simp]:
  "node_ids (note_node i t a s) = insert i (node_ids s)" "node_ids (note_edge x y t a s) = node_ids s"
  by (simp_all add: node_ids_def note_node_def note_edge_def)

lemma edge_keys_note [simp]:
  "edge_keys (note_node i t a s) = edge_keys s" "edge_keys (note_edge x y t a s) = insert (x, y, t) (edge_keys s)"
  by (simp_all add: edge_keys_def note_node_def note_edge_def)

lemma filed_note [simp]: "filed (note_node i t a s) = filed s" "filed (note_edge x y t a s) = filed s"
  by (simp_all add: filed_def note_node_def note_edge_def)

lemma graph_ok_note_node:
  assumes "graph_ok kept p s" and "t = kind_of_id i" and "t = ''run'' \<Longrightarrow> i \<in> run_node_id ` set kept"
  shows "graph_ok kept p (note_node i t a s)"
proof -
  have nodes: "nd_id n = k \<and> nd_type n = kind_of_id k" if "(k, n) \<in> set (gs_nodes (note_node i t a s))" for k n
    using that assms(1,2) by (auto simp: note_node_def graph_ok_def dest!: set_default_member)
  have rest: "gs_edges (note_node i t a s) = gs_edges s" "distinct (map fst (gs_nodes (note_node i t a s)))"
    using assms(1) by (simp_all add: note_node_def graph_ok_def distinct_set_default)
  show ?thesis
    using assms nodes rest unfolding graph_ok_def node_ids_note filed_note by auto
qed

lemma graph_ok_note_edge:
  assumes "graph_ok kept p s" and "x \<in> node_ids s" "y \<in> node_ids s" and "(t, kind_of_id x, kind_of_id y) \<in> edge_kinds"
  shows "graph_ok kept p (note_edge x y t a s)"
proof -
  have edges: "ed_from_id e = x' \<and> ed_to_id e = y' \<and> ed_type e = t' \<and> x' \<in> node_ids s \<and> y' \<in> node_ids s \<and>
      (t', kind_of_id x', kind_of_id y') \<in> edge_kinds" if "((x', y', t'), e) \<in> set (gs_edges (note_edge x y t a s))" for x' y' t' e
    using that assms by (auto simp: note_edge_def graph_ok_def dest!: set_default_member)
  have rest: "gs_nodes (note_edge x y t a s) = gs_nodes s" "distinct (map fst (gs_edges (note_edge x y t a s)))"
    using assms(1) by (simp_all add: note_edge_def graph_ok_def distinct_set_default)
  show ?thesis
    using assms(1) edges rest unfolding graph_ok_def node_ids_note filed_note by auto
qed


section \<open>Every step keeps the graph well-formed\<close>

lemma fold_keeps: "(\<And>x s. x \<in> set xs \<Longrightarrow> P s \<Longrightarrow> P (f x s)) \<Longrightarrow> P s \<Longrightarrow> P (fold f xs s)"
  by (induction xs arbitrary: s) auto

lemma fold_reaches:
  assumes "x \<in> set xs" and "\<And>s. P (f x s)" and "\<And>y s. P s \<Longrightarrow> P (f y s)"
  shows "P (fold f xs s)"
  using assms(1)
proof (induction xs arbitrary: s)
  case (Cons y ys)
  then show ?case using assms(2,3) by (cases "x = y") (auto intro: fold_keeps)
qed simp

lemma graph_ok_run_node: "graph_ok kept p s \<Longrightarrow> i \<in> set kept \<Longrightarrow> graph_ok kept p (run_node i s)"
  by (simp add: run_node_def graph_ok_note_node)

lemma node_ids_run_node [simp]:
  "node_ids (run_node i s) = insert (run_node_id i) (node_ids s)" "edge_keys (run_node i s) = edge_keys s"
  by (simp_all add: run_node_def)

lemma graph_ok_publication: "graph_ok kept (publication_node_id key) (publication_state key)"
  by (auto simp: publication_state_def graph_ok_def note_node_def node_ids_def set_default_def filed_def)

lemma graph_ok_audit:
  assumes "graph_ok kept p s" and "given_text (pa_run_id r) \<Longrightarrow> the (pa_run_id r) \<in> set kept"
  shows "graph_ok kept p (add_audit_row p r s)"
proof (cases "pa_run_id r")
  case (Some i)
  then show ?thesis
    using assms graph_ok_run_node [OF assms(1), of i]
    by (auto simp: add_audit_row_def given_text_def edge_kinds_def graph_ok_def [of _ _ s] intro!: graph_ok_note_edge)
qed (simp add: add_audit_row_def assms)

lemma filedI:
  "(k, xs) \<in> set (gs_upstream_by_run s) \<Longrightarrow> x \<in> set xs \<Longrightarrow> x \<in> filed s"
  "map_of (gs_reporting_by_run s) k = Some xs \<Longrightarrow> x \<in> set xs \<Longrightarrow> x \<in> filed s"
  by (auto simp: filed_def dest!: map_of_SomeD)

lemma append_under_member:
  assumes "(k', xs) \<in> set (append_under k v d)" and "x \<in> set xs"
  shows "x = v \<or> (\<exists>k ys. (k, ys) \<in> set d \<and> x \<in> set ys)"
proof -
  have "(k', xs) \<in> set d \<or> (k', xs) = (k, w)" if "(k', xs) \<in> set (AList.update k w d)" for w
    using that by (induction d) (auto split: if_splits)
  then show ?thesis using assms by (fastforce simp: append_under_def split: option.splits dest: map_of_SomeD)
qed

lemma filed_file: "x \<in> filed (file_relation names k v r s) \<Longrightarrow> x \<in> filed s \<or> x = v"
  by (fastforce simp: filed_def file_relation_def split: if_splits dest: append_under_member)

lemma file_relation_fields [simp]:
  "node_ids (file_relation names k v r s) = node_ids s" "edge_keys (file_relation names k v r s) = edge_keys s"
  "gs_nodes (file_relation names k v r s) = gs_nodes s" "gs_edges (file_relation names k v r s) = gs_edges s"
  by (auto simp: file_relation_def node_ids_def edge_keys_def)

lemma graph_ok_file:
  assumes "graph_ok kept p s" and "v \<in> node_ids s" and "kind_of_id v = ''relation''"
  shows "graph_ok kept p (file_relation names k v r s)"
proof -
  have "x \<in> node_ids s \<and> kind_of_id x = ''relation''" if "x \<in> filed (file_relation names k v r s)" for x
    using filed_file [OF that] assms by (auto simp: graph_ok_def)
  then show ?thesis
    using assms(1) unfolding graph_ok_def file_relation_fields by simp
qed

lemma graph_ok_source:
  assumes "graph_ok kept p s" and "k \<in> node_ids s" and "kind_of_id k = ''run''"
  shows "graph_ok kept p (add_source k r s)"
  using assms
  by (auto simp: add_source_def edge_kinds_def split: option.splits intro!: graph_ok_note_edge graph_ok_note_node)

lemma graph_ok_lineage:
  assumes "graph_ok kept p s" and "given_text (ln_input_run_id r) \<Longrightarrow> the (ln_input_run_id r) \<in> set kept"
  shows "graph_ok kept p (add_lineage_row names r s)"
proof (cases "ln_input_run_id r")
  case (Some i)
  show ?thesis
  proof (cases "i = []")
    case False
    then have "graph_ok kept p (run_node i s)" using assms Some by (simp add: given_text_def graph_ok_run_node)
    then show ?thesis
      using Some False
      by (auto simp: add_lineage_row_def Let_def edge_kinds_def
          intro!: graph_ok_source graph_ok_file graph_ok_note_edge graph_ok_note_node)
  qed (simp add: add_lineage_row_def Some assms)
qed (simp add: add_lineage_row_def assms)

lemma graph_ok_upstream:
  assumes "graph_ok kept p s" and "\<And>u. u \<in> set us \<Longrightarrow> u \<in> node_ids s \<and> kind_of_id u = ''relation''"
    and "\<And>t. t \<in> set ts \<Longrightarrow> t \<in> node_ids s \<and> kind_of_id t \<in> {''relation'', ''publication''}"
  shows "graph_ok kept p (fold (\<lambda>u. fold (\<lambda>t s'. note_edge u t ''feeds'' (a s') s') ts) us s) \<and>
    node_ids (fold (\<lambda>u. fold (\<lambda>t s'. note_edge u t ''feeds'' (a s') s') ts) us s) = node_ids s \<and>
    filed (fold (\<lambda>u. fold (\<lambda>t s'. note_edge u t ''feeds'' (a s') s') ts) us s) = filed s"
proof (rule fold_keeps [where P = "\<lambda>x. graph_ok kept p x \<and> node_ids x = node_ids s \<and> filed x = filed s"])
  fix u x assume u: "u \<in> set us" and x: "graph_ok kept p x \<and> node_ids x = node_ids s \<and> filed x = filed s"
  show "graph_ok kept p (fold (\<lambda>t s'. note_edge u t ''feeds'' (a s') s') ts x) \<and>
      node_ids (fold (\<lambda>t s'. note_edge u t ''feeds'' (a s') s') ts x) = node_ids s \<and>
      filed (fold (\<lambda>t s'. note_edge u t ''feeds'' (a s') s') ts x) = filed s"
  proof (rule fold_keeps [where P = "\<lambda>x. graph_ok kept p x \<and> node_ids x = node_ids s \<and> filed x = filed s"])
    fix t y assume t: "t \<in> set ts" and y: "graph_ok kept p y \<and> node_ids y = node_ids s \<and> filed y = filed s"
    have "(''feeds'', kind_of_id u, kind_of_id t) \<in> edge_kinds" using assms(2) [OF u] assms(3) [OF t] by (auto simp: edge_kinds_def)
    then have "graph_ok kept p (note_edge u t ''feeds'' (a y) y)"
      using y assms(2) [OF u] assms(3) [OF t] by (intro graph_ok_note_edge) auto
    then show "graph_ok kept p (note_edge u t ''feeds'' (a y) y) \<and> node_ids (note_edge u t ''feeds'' (a y) y) = node_ids s \<and>
        filed (note_edge u t ''feeds'' (a y) y) = filed s"
      using y by simp
  qed (use x in simp)
qed (use assms(1) in simp)


lemma feed_targets_ok:
  assumes "graph_ok kept p s" and "t \<in> set (feed_targets p k s)"
  shows "t \<in> node_ids s \<and> kind_of_id t \<in> {''relation'', ''publication''}"
proof (cases "map_of (gs_reporting_by_run s) k")
  case None
  then show ?thesis using assms by (auto simp: feed_targets_def graph_ok_def split: if_splits)
next
  case (Some ts)
  then show ?thesis using assms filedI(2) [OF Some, of t] by (auto simp: feed_targets_def graph_ok_def)
qed

lemma graph_ok_feeds:
  assumes "graph_ok kept p s" and "set us \<subseteq> filed s"
  shows "graph_ok kept p (add_feeds p (k, us) s) \<and> node_ids (add_feeds p (k, us) s) = node_ids s \<and> filed (add_feeds p (k, us) s) = filed s"
  unfolding add_feeds_def Let_def prod.case
  by (rule graph_ok_upstream [OF assms(1)])
    (use assms(1,2) in \<open>auto simp: graph_ok_def\<close>, auto dest: feed_targets_ok [OF assms(1)])

lemma append_under_distinct: "distinct (map fst d) \<Longrightarrow> distinct (map fst (append_under k v d))"
  by (simp add: append_under_def distinct_update)

section \<open>The most recent runs\<close>

lemma note_latest_spec:
  fixes es :: "(string option \<times> int) list"
  defines "l \<equiv> fold note_latest es []"
  shows "distinct (map fst l) \<and> (\<forall>i. i \<in> dom (map_of l) \<longleftrightarrow> i \<noteq> [] \<and> (\<exists>t. (Some i, t) \<in> set es)) \<and>
    (\<forall>i t. map_of l i = Some t \<longrightarrow> (Some i, t) \<in> set es \<and> (\<forall>t'. (Some i, t') \<in> set es \<longrightarrow> t' \<le> t))"
  unfolding l_def
proof (induction es rule: rev_induct)
  case (snoc e es)
  obtain x stamp where e: "e = (x, stamp)" by (cases e)
  define d where "d = fold note_latest es []"
  have IH: "distinct (map fst d)" "\<And>i. i \<in> dom (map_of d) \<longleftrightarrow> i \<noteq> [] \<and> (\<exists>t. (Some i, t) \<in> set es)"
    "\<And>i t. map_of d i = Some t \<Longrightarrow> (Some i, t) \<in> set es \<and> (\<forall>t'. (Some i, t') \<in> set es \<longrightarrow> t' \<le> t)"
    using snoc by (simp_all add: d_def)
  have step: "fold note_latest (es @ [e]) [] = note_latest (x, stamp) d" by (simp add: d_def e)
  show ?case
  proof (cases "given_text x")
    case False
    then have "note_latest (x, stamp) d = d" "\<And>i. i \<noteq> [] \<Longrightarrow> Some i \<noteq> x" by (auto simp: note_latest_def given_text_def)
    moreover have "map_of d [] = None" using IH(2) [of "[]"] by (simp add: domIff)
    ultimately show ?thesis using IH unfolding step by (auto simp: e simp del: map_of_eq_Some_iff map_of_eq_None_iff)
  next
    case True
    then obtain i where x: "x = Some i" "i \<noteq> []" by (cases x) (auto simp: given_text_def)
    obtain v where m: "map_of (note_latest (x, stamp) d) = (map_of d)(i \<mapsto> v)"
      and v: "v = stamp \<or> map_of d i = Some v" "stamp \<le> v" "\<And>t. (Some i, t) \<in> set es \<Longrightarrow> t \<le> v"
    proof (cases "map_of d i")
      case None
      then have none: "(Some i, t) \<notin> set es" for t using IH(2) [of i] x by auto
      have "map_of (note_latest (x, stamp) d) = (map_of d)(i \<mapsto> stamp)"
        using True None x by (simp add: note_latest_def map_of_update)
      then show thesis using that [of stamp] none by simp
    next
      case (Some t)
      then have "map_of (note_latest (x, stamp) d) = (map_of d)(i \<mapsto> max t stamp)"
        using True x by (auto simp: note_latest_def map_of_update max_def fun_eq_iff simp del: map_of_eq_Some_iff)
      then show thesis
      proof (rule that)
        show "max t stamp = stamp \<or> map_of d i = Some (max t stamp)" using Some by (simp add: max_def)
        show "\<And>t'. (Some i, t') \<in> set es \<Longrightarrow> t' \<le> max t stamp" using IH(3) [OF Some] by (meson max.coboundedI1)
      qed simp
    qed
    have "distinct (map fst (note_latest (x, stamp) d))"
      using IH(1) by (simp add: note_latest_def distinct_update split: option.split)
    moreover have "j \<in> dom (map_of (note_latest (x, stamp) d)) \<longleftrightarrow> j \<noteq> [] \<and> (\<exists>t. (Some j, t) \<in> set (es @ [e]))" for j
      unfolding m using IH(2) [of j] x by (auto simp: e)
    moreover have "(Some j, t) \<in> set (es @ [e]) \<and> (\<forall>t'. (Some j, t') \<in> set (es @ [e]) \<longrightarrow> t' \<le> t)"
      if "map_of (note_latest (x, stamp) d) j = Some t" for j t
    proof (cases "j = i")
      case True
      then have "t = v" using that by (simp add: m)
      then show ?thesis using True v x IH(3) [of i v] by (auto simp: e simp del: map_of_eq_Some_iff)
    next
      case False
      then have "map_of d j = Some t" using that by (simp add: m del: map_of_eq_Some_iff)
      from IH(3) [OF this] show ?thesis using False x by (simp add: e)
    qed
    ultimately show ?thesis unfolding step by blast
  qed
qed simp

lemma ordered_runs_set: "set (ordered_runs l) = fst ` set l"
  by (simp add: ordered_runs_def)

lemma ordered_runs_length: "length (ordered_runs l) = length l"
  by (simp add: ordered_runs_def)

lemma ordered_runs_distinct:
  assumes "distinct (map fst l)"
  shows "distinct (ordered_runs l)"
  by (rule card_distinct)
    (metis assms ordered_runs_length ordered_runs_set distinct_card length_map list.set_map)

lemma ordered_runs_descending:
  assumes "distinct (map fst l)" and "i \<in> set (take n (ordered_runs l))" and "j \<in> set (drop n (ordered_runs l))"
  shows "the (map_of l j) \<le> the (map_of l i)"
proof -
  define r where "r = rev (sort_key snd (sort_key fst l))"
  have r: "sorted (rev (map snd r))" by (simp add: r_def rev_map)
  have "map_of l (fst e) = Some (snd e)" if "e \<in> set r" for e
    using that assms(1) by (simp add: r_def)
  moreover obtain a where "a < n" "a < length r" "i = fst (r ! a)"
    using assms(2) by (auto simp: ordered_runs_def r_def [symmetric] in_set_conv_nth)
  moreover obtain b where "n + b < length r" "j = fst (r ! (n + b))"
  proof -
    obtain m where "m < length r - n" "j = fst (r ! (n + m))"
      using assms(3) by (auto simp: ordered_runs_def r_def [symmetric] in_set_conv_nth)
    then show thesis using that [of m] by simp
  qed
  moreover have "snd (r ! (n + b)) \<le> snd (r ! a)"
    using sorted_rev_nth_mono [OF r, of a "n + b"] calculation by simp
  ultimately show ?thesis by simp
qed


section \<open>The runs that are shown\<close>

definition towards :: "string list \<Rightarrow> string \<Rightarrow> string \<Rightarrow> graph_state \<Rightarrow> bool" where
  \<comment> \<open>a run has an edge to the publication or to one of its relations\<close>
  "towards names p i s \<longleftrightarrow> (run_node_id i, p, ''publishes'') \<in> edge_keys s \<or>
     (\<exists>layer n. n \<in> set names \<and> (run_node_id i, relation_node_id layer n, ''produces'') \<in> edge_keys s)"

lemma towards_mono: "towards names p i s \<Longrightarrow> edge_keys s \<subseteq> edge_keys s' \<Longrightarrow> towards names p i s'"
  by (auto simp: towards_def)

lemma edge_keys_audit: "edge_keys s \<subseteq> edge_keys (add_audit_row p r s)"
  by (auto simp: add_audit_row_def split: option.splits)

lemma edge_keys_source: "edge_keys s \<subseteq> edge_keys (add_source k r s)"
  by (auto simp: add_source_def split: option.splits)

lemma edge_keys_lineage: "edge_keys s \<subseteq> edge_keys (add_lineage_row names r s)"
  by (auto simp: add_lineage_row_def Let_def split: option.splits intro: subsetD [OF edge_keys_source])

lemma edge_keys_feeds: "edge_keys s \<subseteq> edge_keys (add_feeds p entry s)"
  unfolding add_feeds_def Let_def
  by (cases entry) (auto intro!: fold_keeps [where P = "\<lambda>x. _ \<in> edge_keys x"])

lemma towards_audit: "pa_run_id r = Some i \<Longrightarrow> i \<noteq> [] \<Longrightarrow> towards names p i (add_audit_row p r s)"
  by (simp add: add_audit_row_def towards_def)

lemma towards_lineage:
  assumes "ln_input_run_id r = Some i" and "i \<noteq> []" and "ln_target_name r \<in> set names"
  shows "towards names p i (add_lineage_row names r s)"
  unfolding towards_def
  by (rule disjI2, intro exI [of _ "ln_target_layer r"] exI [of _ "ln_target_name r"])
    (use assms in \<open>auto simp: add_lineage_row_def Let_def intro: subsetD [OF edge_keys_source]\<close>)

lemma unseen_records_subset: "set (unseen_records seen rs) \<subseteq> set rs"
  by (induction rs arbitrary: seen) auto

lemma unseen_records_complete:
  "inj_on ln_lineage_id (set rs) \<Longrightarrow> r \<in> set rs \<Longrightarrow> ln_lineage_id r \<notin> seen \<Longrightarrow> r \<in> set (unseen_records seen rs)"
proof (induction rs arbitrary: seen)
  case (Cons q qs)
  show ?case
  proof (cases "ln_lineage_id q = ln_lineage_id r")
    case True
    then show ?thesis using Cons.prems by (auto dest: inj_onD)
  next
    case False
    then show ?thesis using Cons by (auto simp: inj_on_def)
  qed
qed simp

lemma set_collect_lineage:
  assumes "distinct (map ln_lineage_id (cp_lineage cp))"
  shows "set (collect_lineage_for_relations cp names) = {l \<in> set (cp_lineage cp). ln_target_name l \<in> set names}"
proof -
  define rows where "rows = concat (map (\<lambda>n. list_source_lineage cp None None (Some n) None) (sorted_unique names))"
  have rows: "set rows = {l \<in> set (cp_lineage cp). ln_target_name l \<in> set names}"
    by (auto simp: rows_def list_source_lineage_def)
  have "inj_on ln_lineage_id (set rows)"
    using assms unfolding rows by (auto simp: distinct_map intro: inj_on_subset)
  then have "set (unseen_records {} rows) = set rows"
    using unseen_records_subset [of "{}" rows] unseen_records_complete [of rows _ "{}"] by auto
  then show ?thesis by (simp add: collect_lineage_for_relations_def rows_def [symmetric] rows)
qed

lemma collect_upstream_runs: "r \<in> set (collect_upstream_lineage cp kept) \<Longrightarrow> \<exists>i\<in>set kept. ln_input_run_id r = Some i"
  using unseen_records_subset by (fastforce simp: collect_upstream_lineage_def list_source_lineage_def)

end
