(* ===== verification/LineageClaims.thy ===== *)
theory LineageClaims
  imports LineageFacts
begin

text \<open>
  The properties of the lineage graph: which runs it shows, and that what it shows is a graph whose
  edges join nodes of the right kinds.
\<close>

section \<open>The runs behind a publication\<close>

definition active_at :: "control_plane \<Rightarrow> string \<Rightarrow> string \<Rightarrow> int \<Rightarrow> bool" where
  \<comment> \<open>run \<open>i\<close> published \<open>key\<close>, or recorded lineage of one of its relations, at \<open>t\<close>\<close>
  "active_at cp key i t \<longleftrightarrow>
     (\<exists>a\<in>set (cp_audit cp). pa_publication_key a = key \<and> pa_run_id a = Some i \<and> pa_published_at a = t) \<or>
     (\<exists>l\<in>set (cp_lineage cp). ln_input_run_id l = Some i \<and> ln_recorded_at l = t \<and>
        (\<exists>a\<in>set (cp_audit cp). pa_publication_key a = key \<and> pa_relation_name a = ln_target_name l))"

definition runs_behind :: "control_plane \<Rightarrow> string \<Rightarrow> string set" where
  "runs_behind cp key = {i. i \<noteq> [] \<and> (\<exists>t. active_at cp key i t)}"

definition shown_runs :: "lineage_graph \<Rightarrow> string set" where
  "shown_runs g = {i. \<exists>n\<in>set (lg_nodes g). nd_type n = ''run'' \<and> nd_id n = run_node_id i}"

definition edge_of :: "lineage_graph \<Rightarrow> string \<Rightarrow> string \<Rightarrow> string \<Rightarrow> bool" where
  "edge_of g a b t \<longleftrightarrow> (\<exists>e\<in>set (lg_edges g). ed_from_id e = a \<and> ed_to_id e = b \<and> ed_type e = t)"

lemma set_publication_audit:
  "set (list_publication_audit cp None (Some key)) = {a \<in> set (cp_audit cp). pa_publication_key a = key}"
  by (auto simp: list_publication_audit_def)

lemma set_run_stamps:
  assumes "distinct (map ln_lineage_id (cp_lineage cp))" and "publication_rows cp key = (audit, names, rows)"
  shows "(Some i, t) \<in> set (run_stamps audit rows) \<longleftrightarrow> active_at cp key i t"
proof -
  have audit: "set audit = {a \<in> set (cp_audit cp). pa_publication_key a = key}"
    and rows: "set rows = {l \<in> set (cp_lineage cp). ln_target_name l \<in> pa_relation_name ` set audit}"
    using assms(2) by (auto simp: publication_rows_def Let_def set_publication_audit set_collect_lineage [OF assms(1)])
  have "(Some i, t) \<in> set (run_stamps audit rows) \<longleftrightarrow> (\<exists>a\<in>set audit. pa_run_id a = Some i \<and> pa_published_at a = t) \<or>
      (\<exists>l\<in>set rows. ln_input_run_id l = Some i \<and> ln_recorded_at l = t)"
    unfolding run_stamps_def set_append set_map Un_iff image_iff by (simp add: eq_commute [of "Some i"] eq_commute [of t])
  also have "\<dots> \<longleftrightarrow> active_at cp key i t" unfolding active_at_def rows audit by (auto simp: image_iff) metis+
  finally show ?thesis .
qed

lemma selected_runs:
  assumes "distinct (map ln_lineage_id (cp_lineage cp))" and "publication_rows cp key = (audit, names, rows)"
    and "select_runs audit rows limit = (kept, n)"
  shows "set kept \<subseteq> runs_behind cp key" "distinct kept" "n = card (runs_behind cp key)" "finite (runs_behind cp key)"
    "length kept = (case limit of None \<Rightarrow> n | Some m \<Rightarrow> min (nat m) n)"
    "i \<in> set kept \<Longrightarrow> j \<in> runs_behind cp key - set kept \<Longrightarrow> active_at cp key j t \<Longrightarrow> \<exists>t'\<ge>t. active_at cp key i t'"
proof -
  define l where "l = latest_runs audit rows"
  note spec = note_latest_spec [of "run_stamps audit rows", folded latest_runs_def, folded l_def,
      unfolded set_run_stamps [OF assms(1,2)]]
  have dist: "distinct (map fst l)" using spec by blast
  have dom: "fst ` set l = runs_behind cp key" using spec by (auto simp: runs_behind_def dom_map_of_conv_image_fst)
  define m where "m = (case limit of None \<Rightarrow> length l | Some m \<Rightarrow> nat m)"
  have kept: "kept = take m (ordered_runs l)" and n: "n = length l"
    using assms(3) by (auto simp: select_runs_def Let_def l_def m_def ordered_runs_length split: option.splits)
  have all: "set (ordered_runs l) = runs_behind cp key" by (simp add: ordered_runs_set dom)
  show "set kept \<subseteq> runs_behind cp key" unfolding kept all [symmetric] by (rule set_take_subset)
  show "distinct kept" unfolding kept by (intro distinct_take ordered_runs_distinct dist)
  show "n = card (runs_behind cp key)" unfolding n dom [symmetric] using dist by (metis distinct_card length_map list.set_map)
  show "finite (runs_behind cp key)" unfolding dom [symmetric] by simp
  show "length kept = (case limit of None \<Rightarrow> n | Some m \<Rightarrow> min (nat m) n)"
    by (auto simp: kept n m_def ordered_runs_length split: option.split)
  assume i: "i \<in> set kept" and j: "j \<in> runs_behind cp key - set kept" and t: "active_at cp key j t"
  have "j \<in> set (drop m (ordered_runs l))"
    using j unfolding kept all [symmetric] by (metis Diff_iff Un_iff append_take_drop_id set_append)
  then have "the (map_of l j) \<le> the (map_of l i)" using ordered_runs_descending [OF dist] i by (simp add: kept)
  moreover have "i \<in> dom (map_of l)" "j \<in> dom (map_of l)"
    using i j \<open>set kept \<subseteq> runs_behind cp key\<close> by (auto simp: dom_map_of_conv_image_fst dom)
  moreover have "t \<le> the (map_of l j)" "active_at cp key i (the (map_of l i))"
    using spec t calculation(2,3) by (auto simp: domIff simp del: map_of_eq_Some_iff)
  ultimately show "\<exists>t'\<ge>t. active_at cp key i t'" by (meson order_trans)
qed

section \<open>The assembled graph\<close>

lemma assembled_ok:
  fixes key defines "p \<equiv> publication_node_id key"
  shows "graph_ok kept p (assemble_graph cp key kept)"
proof -
  obtain audit names rows where r: "publication_rows cp key = (audit, names, rows)" by (metis prod_cases3)
  define audit' where "audit' = filter (\<lambda>r. \<not> given_text (pa_run_id r) \<or> the (pa_run_id r) \<in> set kept) audit"
  define rows' where "rows' = filter (\<lambda>r. \<not> given_text (ln_input_run_id r) \<or> the (ln_input_run_id r) \<in> set kept) rows"
  define up where "up = filter (\<lambda>r. ln_lineage_id r \<notin> ln_lineage_id ` set rows') (collect_upstream_lineage cp kept)"
  define s where "s = fold (add_lineage_row names) (rows' @ up) (fold (add_audit_row p) audit' (publication_state key))"
  have "graph_ok kept p (fold (add_audit_row p) audit' (publication_state key))"
    by (rule fold_keeps [where P = "graph_ok kept p"])
      (auto simp: audit'_def p_def graph_ok_publication intro!: graph_ok_audit)
  then have s: "graph_ok kept p s"
    unfolding s_def
    by (rule fold_keeps [where P = "graph_ok kept p", rotated])
      (auto simp: rows'_def up_def given_text_def intro!: graph_ok_lineage dest!: collect_upstream_runs)
  have "graph_ok kept p (fold (add_feeds p) (gs_upstream_by_run s) s) \<and> filed (fold (add_feeds p) (gs_upstream_by_run s) s) = filed s"
  proof (rule fold_keeps [where P = "\<lambda>x. graph_ok kept p x \<and> filed x = filed s"])
    fix e x assume e: "e \<in> set (gs_upstream_by_run s)" and x: "graph_ok kept p x \<and> filed x = filed s"
    obtain k us where e': "e = (k, us)" by (cases e)
    have "set us \<subseteq> filed x" using e x filedI(1) [of k us s] by (auto simp: e')
    then show "graph_ok kept p (add_feeds p e x) \<and> filed (add_feeds p e x) = filed s"
      using graph_ok_feeds [of kept p x us k] x by (simp add: e')
  qed (simp add: s)
  then show ?thesis
    by (simp add: assemble_graph_def r Let_def p_def s_def audit'_def rows'_def up_def)
qed

lemma assembled_towards:
  assumes "publication_rows cp key = (audit, names, rows)" and "distinct (map ln_lineage_id (cp_lineage cp))"
    and "i \<in> set kept" and "i \<in> runs_behind cp key"
  shows "towards names (publication_node_id key) i (assemble_graph cp key kept)"
proof -
  define p where "p = publication_node_id key"
  define audit' where "audit' = filter (\<lambda>r. \<not> given_text (pa_run_id r) \<or> the (pa_run_id r) \<in> set kept) audit"
  define rows' where "rows' = filter (\<lambda>r. \<not> given_text (ln_input_run_id r) \<or> the (ln_input_run_id r) \<in> set kept) rows"
  define up where "up = filter (\<lambda>r. ln_lineage_id r \<notin> ln_lineage_id ` set rows') (collect_upstream_lineage cp kept)"
  define s0 where "s0 = fold (add_audit_row p) audit' (publication_state key)"
  define s where "s = fold (add_lineage_row names) (rows' @ up) s0"
  obtain t where "(Some i, t) \<in> set (run_stamps audit rows)" and i: "i \<noteq> []"
    using assms(4) set_run_stamps [OF assms(2,1)] by (auto simp: runs_behind_def)
  then consider r where "r \<in> set audit'" "pa_run_id r = Some i" | r where "r \<in> set rows'" "ln_input_run_id r = Some i"
    using assms(3) by (auto simp: run_stamps_def audit'_def rows'_def)
  then have "towards names p i s"
  proof cases
    case 1
    then have "towards names p i s0"
      unfolding s0_def using i
      by (intro fold_reaches [where P = "towards names p i" and x = r])
        (use 1 in \<open>auto intro: towards_audit towards_mono [OF _ edge_keys_audit]\<close>)
    then show ?thesis
      unfolding s_def by (rule fold_keeps [where P = "towards names p i", rotated]) (auto intro: towards_mono [OF _ edge_keys_lineage])
  next
    case 2
    have "ln_target_name r \<in> set names"
      using 2 assms(1) by (auto simp: rows'_def publication_rows_def Let_def set_collect_lineage [OF assms(2)])
    then show ?thesis
      unfolding s_def using i
      by (intro fold_reaches [where P = "towards names p i" and x = r])
        (use 2 in \<open>auto intro: towards_lineage towards_mono [OF _ edge_keys_lineage]\<close>)
  qed
  then have "towards names p i (fold (add_feeds p) (gs_upstream_by_run s) s)"
    by (rule fold_keeps [where P = "towards names p i", rotated]) (auto intro: towards_mono [OF _ edge_keys_feeds])
  then show ?thesis
    by (simp add: assemble_graph_def assms(1) Let_def p_def s_def s0_def audit'_def rows'_def up_def)
qed


lemma distinct_map_sort: "distinct (map f (sort_key k xs)) = distinct (map f xs)"
  by (simp add: distinct_map)

lemma graph_nodes:
  assumes "graph_ok kept p s"
  shows "set (map nd_id (sorted_nodes s)) = node_ids s" "distinct (map nd_id (sorted_nodes s))"
    "n \<in> set (sorted_nodes s) \<Longrightarrow> nd_type n = kind_of_id (nd_id n)"
proof -
  have ids: "map (nd_id \<circ> snd) (gs_nodes s) = map fst (gs_nodes s)" using assms by (auto simp: graph_ok_def)
  then show "set (map nd_id (sorted_nodes s)) = node_ids s"
    by (metis list.set_map map_map node_ids_def set_sort sorted_nodes_def)
  have "distinct (map nd_id (map snd (gs_nodes s)))" unfolding map_map ids using assms by (simp add: graph_ok_def)
  then show "distinct (map nd_id (sorted_nodes s))" by (simp add: sorted_nodes_def distinct_map_sort del: map_map)
  show "nd_type n = kind_of_id (nd_id n)" if "n \<in> set (sorted_nodes s)"
    using that assms by (auto simp: sorted_nodes_def graph_ok_def)
qed

lemma graph_edges:
  assumes "graph_ok kept p s"
  shows "(a, b, t) \<in> edge_keys s \<longleftrightarrow> (\<exists>e\<in>set (sorted_edges s). ed_from_id e = a \<and> ed_to_id e = b \<and> ed_type e = t)"
    and "distinct (map (\<lambda>e. (ed_from_id e, ed_to_id e, ed_type e)) (sorted_edges s))"
    and "e \<in> set (sorted_edges s) \<Longrightarrow> ed_from_id e \<in> node_ids s \<and> ed_to_id e \<in> node_ids s \<and>
      (ed_type e, kind_of_id (ed_from_id e), kind_of_id (ed_to_id e)) \<in> edge_kinds"
proof -
  let ?k = "\<lambda>e. (ed_from_id e, ed_to_id e, ed_type e)"
  have keys: "map (?k \<circ> snd) (gs_edges s) = map fst (gs_edges s)" using assms by (auto simp: graph_ok_def)
  have "edge_keys s = ?k ` set (sorted_edges s)"
    unfolding edge_keys_def sorted_edges_def set_sort list.set_map image_image
    using keys by (metis (no_types, lifting) comp_apply image_cong list.set_map)
  then show "(a, b, t) \<in> edge_keys s \<longleftrightarrow> (\<exists>e\<in>set (sorted_edges s). ed_from_id e = a \<and> ed_to_id e = b \<and> ed_type e = t)"
    by auto
  have "distinct (map ?k (map snd (gs_edges s)))" unfolding map_map keys using assms by (simp add: graph_ok_def)
  then show "distinct (map ?k (sorted_edges s))" by (simp add: sorted_edges_def distinct_map_sort del: map_map)
  show "ed_from_id e \<in> node_ids s \<and> ed_to_id e \<in> node_ids s \<and> (ed_type e, kind_of_id (ed_from_id e), kind_of_id (ed_to_id e)) \<in> edge_kinds"
    if "e \<in> set (sorted_edges s)"
    using that assms by (auto simp: sorted_edges_def graph_ok_def)
qed

lemma built_graph:
  assumes "build_publication_lineage_graph cp key limit = Inr g"
  obtains audit names rows kept where "publication_rows cp key = (audit, names, rows)"
    "select_runs audit rows limit = (kept, lg_total_runs g)" "lg_nodes g = sorted_nodes (assemble_graph cp key kept)"
    "lg_edges g = sorted_edges (assemble_graph cp key kept)" "lg_truncated g \<longleftrightarrow> length kept < lg_total_runs g"
proof -
  obtain audit names rows where r: "publication_rows cp key = (audit, names, rows)" by (metis prod_cases3)
  obtain kept n where k: "select_runs audit rows limit = (kept, n)" by (metis surj_pair)
  show thesis
    using assms by (intro that [OF r, of kept]) (auto simp: build_publication_lineage_graph_def r k Let_def not_less split: if_splits)
qed

lemma shown_runs_kept:
  assumes "graph_ok kept p s" and "lg_nodes g = sorted_nodes s" and "\<And>i. i \<in> set kept \<Longrightarrow> towards names p i s"
  shows "shown_runs g = set kept"
proof
  show "shown_runs g \<subseteq> set kept"
  proof
    fix i assume "i \<in> shown_runs g"
    then obtain n where n: "n \<in> set (sorted_nodes s)" "nd_id n = run_node_id i" by (auto simp: shown_runs_def assms(2))
    then have "run_node_id i \<in> node_ids s" using graph_nodes(1) [OF assms(1)] by force
    then show "i \<in> set kept" using assms(1) by (auto simp: graph_ok_def)
  qed
  show "set kept \<subseteq> shown_runs g"
  proof
    fix i assume "i \<in> set kept"
    then obtain b t where "(run_node_id i, b, t) \<in> edge_keys s" using assms(3) unfolding towards_def by blast
    then have "run_node_id i \<in> node_ids s" using graph_edges(1,3) [OF assms(1)] by metis
    then obtain n where "n \<in> set (sorted_nodes s)" "nd_id n = run_node_id i"
      using graph_nodes(1) [OF assms(1)] by (metis imageE list.set_map)
    then have "nd_type n = ''run''" using graph_nodes(3) [OF assms(1), of n] by simp
    with \<open>n \<in> set (sorted_nodes s)\<close> \<open>nd_id n = run_node_id i\<close> show "i \<in> shown_runs g"
      unfolding shown_runs_def assms(2) by blast
  qed
qed

section \<open>A sample\<close>

text \<open>Two refreshes of one mart: each lands a bank file, loads a fact and rebuilds the mart; the first
  one also left only an audit row of a third.\<close>

definition mart_row :: "string \<Rightarrow> string \<Rightarrow> string \<Rightarrow> string \<Rightarrow> int \<Rightarrow> lineage" where
  "mart_row i run layer target t = \<lparr> ln_lineage_id = i, ln_input_run_id = Some run, ln_target_layer = layer, ln_target_name = target,
     ln_target_kind = ''table'', ln_row_count = Some 12, ln_source_system = Some ''bank'', ln_source_run_id = None, ln_recorded_at = t \<rparr>"

definition mart_audit :: "string \<Rightarrow> string option \<Rightarrow> int \<Rightarrow> publication_audit" where
  "mart_audit i run t = \<lparr> pa_publication_audit_id = i, pa_run_id = run, pa_publication_key = ''cashflow'', pa_relation_name = ''mart_cashflow'',
     pa_status = ''published'', pa_published_at = t \<rparr>"

definition mart_plane :: control_plane where
  "mart_plane = \<lparr> cp_lineage = [mart_row ''l1'' ''r1'' ''landing'' ''bank_csv'' 1, mart_row ''l2'' ''r1'' ''transformation'' ''fact_tx'' 2,
       mart_row ''l3'' ''r1'' ''reporting'' ''mart_cashflow'' 3, mart_row ''l4'' ''r2'' ''transformation'' ''fact_tx'' 12,
       mart_row ''l5'' ''r2'' ''reporting'' ''mart_cashflow'' 13],
     cp_audit = [mart_audit ''a1'' (Some ''r1'') 4, mart_audit ''a2'' None 5, mart_audit ''a3'' (Some ''r2'') 14],
     cp_freshness_configs = [], cp_snapshots = [] \<rparr>"

lemma mart_ids: "distinct (map ln_lineage_id (cp_lineage mart_plane))"
  by code_simp

lemma mart_selected: "case publication_rows mart_plane ''cashflow'' of (audit, _, rows) \<Rightarrow> select_runs audit rows (Some 1) = ([''r2''], 2)"
  by code_simp

lemma mart_graph: "\<exists>g. build_publication_lineage_graph mart_plane ''cashflow'' (Some 1) = Inr g \<and> lg_truncated g"
  using mart_selected by (auto simp: build_publication_lineage_graph_def Let_def split: prod.splits)

section \<open>Properties\<close>

text \<open>C23: The lineage graph of a publication shows only runs behind it, as many as the limit allows,
  and the most recent ones: a run left out was last active no later than any run shown.  The graph is
  marked truncated exactly when a run behind the publication is not shown.\<close>
theorem lineage_shows_latest_runs:
  assumes "distinct (map ln_lineage_id (cp_lineage cp))"
    and "build_publication_lineage_graph cp key (Some limit) = Inr g"
  shows "shown_runs g \<subseteq> runs_behind cp key \<and> card (shown_runs g) = min (nat limit) (card (runs_behind cp key)) \<and>
    (lg_truncated g \<longleftrightarrow> shown_runs g \<noteq> runs_behind cp key) \<and>
    (\<forall>i\<in>shown_runs g. \<forall>j\<in>runs_behind cp key - shown_runs g. \<forall>t. active_at cp key j t \<longrightarrow> (\<exists>t'\<ge>t. active_at cp key i t'))"
proof -
  obtain audit names rows kept where g: "publication_rows cp key = (audit, names, rows)"
    "select_runs audit rows (Some limit) = (kept, lg_total_runs g)" "lg_nodes g = sorted_nodes (assemble_graph cp key kept)"
    "lg_truncated g \<longleftrightarrow> length kept < lg_total_runs g"
    using built_graph [OF assms(2)] by metis
  note sel = selected_runs [OF assms(1) g(1,2)]
  have shown: "shown_runs g = set kept"
    using assembled_towards [OF g(1) assms(1)] sel(1) by (intro shown_runs_kept [OF assembled_ok g(3)]) auto
  have card: "card (set kept) = length kept" using sel(2) by (rule distinct_card)
  have "length kept < card (runs_behind cp key) \<longleftrightarrow> set kept \<noteq> runs_behind cp key"
    using sel(1,4) card by (metis card_subset_eq nat_neq_iff psubsetI psubset_card_mono)
  then show ?thesis
    using sel(1,3,5,6) card unfolding shown g(4) by simp
qed

theorem lineage_shows_latest_runs_witness:
  "\<exists>g. build_publication_lineage_graph mart_plane ''cashflow'' (Some 1) = Inr g \<and> shown_runs g \<noteq> runs_behind mart_plane ''cashflow'' \<and>
    card (shown_runs g) = min 1 (card (runs_behind mart_plane ''cashflow''))"
  using mart_graph lineage_shows_latest_runs [OF mart_ids, of "''cashflow''" 1] by fastforce

text \<open>C24: The lineage graph of a publication is a graph: no two nodes share an id and no two edges their
  ends and type, every edge joins two nodes of the kinds its type stands for, and every run shown has an
  edge to the publication or to a relation the publication was made from.\<close>
theorem lineage_graph_sound:
  assumes "distinct (map ln_lineage_id (cp_lineage cp))"
    and "build_publication_lineage_graph cp key limit = Inr g"
  shows "distinct (map nd_id (lg_nodes g)) \<and> distinct (map (\<lambda>e. (ed_from_id e, ed_to_id e, ed_type e)) (lg_edges g)) \<and>
    (\<forall>e\<in>set (lg_edges g). \<exists>a\<in>set (lg_nodes g). \<exists>b\<in>set (lg_nodes g). nd_id a = ed_from_id e \<and> nd_id b = ed_to_id e \<and>
       (ed_type e, nd_type a, nd_type b) \<in> edge_kinds) \<and>
    (\<forall>i\<in>shown_runs g. edge_of g (run_node_id i) (publication_node_id key) ''publishes'' \<or>
       (\<exists>layer. \<exists>a\<in>set (cp_audit cp). pa_publication_key a = key \<and>
          edge_of g (run_node_id i) (relation_node_id layer (pa_relation_name a)) ''produces''))"
proof -
  obtain audit names rows kept where g: "publication_rows cp key = (audit, names, rows)"
    "select_runs audit rows limit = (kept, lg_total_runs g)" "lg_nodes g = sorted_nodes (assemble_graph cp key kept)"
    "lg_edges g = sorted_edges (assemble_graph cp key kept)"
    using built_graph [OF assms(2)] by metis
  note ok = assembled_ok [of kept key cp] and sel = selected_runs [OF assms(1) g(1,2)]
  have tow: "towards names (publication_node_id key) i (assemble_graph cp key kept)" if "i \<in> set kept" for i
    using assembled_towards [OF g(1) assms(1) that] sel(1) that by auto
  have names: "set names = pa_relation_name ` {a \<in> set (cp_audit cp). pa_publication_key a = key}"
    using g(1) by (auto simp: publication_rows_def Let_def set_publication_audit)
  have edges: "\<exists>a\<in>set (lg_nodes g). \<exists>b\<in>set (lg_nodes g). nd_id a = ed_from_id e \<and> nd_id b = ed_to_id e \<and>
      (ed_type e, nd_type a, nd_type b) \<in> edge_kinds" if "e \<in> set (lg_edges g)" for e
    using graph_edges(3) [OF ok, of e] that graph_nodes(3) [OF ok] unfolding graph_nodes(1) [OF ok, symmetric] g(3,4) by fastforce
  have runs: "edge_of g (run_node_id i) (publication_node_id key) ''publishes'' \<or>
      (\<exists>layer. \<exists>a\<in>set (cp_audit cp). pa_publication_key a = key \<and>
         edge_of g (run_node_id i) (relation_node_id layer (pa_relation_name a)) ''produces'')" if "i \<in> shown_runs g" for i
  proof -
    have "towards names (publication_node_id key) i (assemble_graph cp key kept)"
      using tow that by (simp add: shown_runs_kept [OF ok g(3) tow])
    moreover have "(a, b, t) \<in> edge_keys (assemble_graph cp key kept) \<longleftrightarrow> edge_of g a b t" for a b t
      unfolding edge_of_def g(4) by (rule graph_edges(1) [OF ok])
    ultimately show ?thesis unfolding towards_def names by blast
  qed
  show ?thesis
    using graph_nodes(2) [OF ok] graph_edges(2) [OF ok] edges runs by (simp add: g(3,4))
qed

theorem lineage_graph_sound_witness:
  "\<exists>g. build_publication_lineage_graph mart_plane ''cashflow'' (Some 1) = Inr g \<and> distinct (map nd_id (lg_nodes g)) \<and>
    (\<forall>e\<in>set (lg_edges g). \<exists>a\<in>set (lg_nodes g). nd_id a = ed_from_id e)"
  using mart_graph lineage_graph_sound [OF mart_ids, of "''cashflow''" "Some 1"] by fastforce

end
