(* ===== verification/Contracts.thy ===== *)
theory Contracts
  imports Json
begin

text \<open>
  The documents and changes of the contract compatibility check
  (\<open>packages/platform/contract_compat/models.py\<close>): JSON objects as dictionaries in insertion order,
  Python's equality and truth of JSON values, and the changes the comparisons report.  A value of an
  unexpected kind raises, which is \<open>Bad_Document\<close>; a recursion deeper than the interpreter allows is
  \<open>Too_Deep\<close>.  Numbers are integers.
\<close>

section \<open>Changes\<close>

record contract_change =
  ch_severity :: string
  ch_scope :: string
  ch_identifier :: string
  ch_detail :: string

record artifacts_snapshot =
  af_openapi :: "(string \<times> json) list"
  af_publication_contracts :: "(string \<times> json) list"

definition change :: "string \<Rightarrow> string \<Rightarrow> string \<Rightarrow> string \<Rightarrow> contract_change" where
  "change severity scope identifier detail =
     \<lparr> ch_severity = severity, ch_scope = scope, ch_identifier = identifier, ch_detail = detail \<rparr>"

lemma change_fields [simp, change_simps]:
  "ch_severity (change s a i d) = s" "ch_scope (change s a i d) = a"
  "ch_identifier (change s a i d) = i" "ch_detail (change s a i d) = d"
  by (simp_all add: change_def)

definition breaking :: "contract_change \<Rightarrow> bool" where
  "breaking c \<longleftrightarrow> ch_severity c = ''breaking''"

lemma breaking_change [simp]: "breaking (change s a i d) \<longleftrightarrow> s = ''breaking''"
  by (simp add: breaking_def)

section \<open>Documents\<close>

datatype compat_error = Bad_Document | Too_Deep

type_synonym dict = "(string \<times> json) list"

definition get_or :: "dict \<Rightarrow> string \<Rightarrow> json \<Rightarrow> json" where
  "get_or d k v = (case map_of d k of None \<Rightarrow> v | Some w \<Rightarrow> w)"

definition get :: "dict \<Rightarrow> string \<Rightarrow> json" where
  \<comment> \<open>\<open>d.get(k)\<close>: a missing key reads as \<open>None\<close>, like a null\<close>
  "get d k = get_or d k JNull"

definition has_key :: "dict \<Rightarrow> string \<Rightarrow> bool" where
  "has_key d k \<longleftrightarrow> map_of d k \<noteq> None"

fun truthy :: "json \<Rightarrow> bool" where
  "truthy JNull = False"
| "truthy (JBool b) = b"
| "truthy (JNum n) = (n \<noteq> 0)"
| "truthy (JStr s) = (s \<noteq> [])"
| "truthy (JArr xs) = (xs \<noteq> [])"
| "truthy (JObj d) = (d \<noteq> [])"

fun canonical :: "json \<Rightarrow> json" where
  \<comment> \<open>dictionaries are equal in any order, and \<open>True == 1\<close>\<close>
  "canonical (JBool b) = JNum (if b then 1 else 0)"
| "canonical (JArr xs) = JArr (map canonical xs)"
| "canonical (JObj d) = JObj (sort_key fst (map (\<lambda>(k, v). (k, canonical v)) d))"
| "canonical v = v"

definition py_eq :: "json \<Rightarrow> json \<Rightarrow> bool" where
  "py_eq a b \<longleftrightarrow> canonical a = canonical b"

lemma py_eq_refl [simp]: "py_eq a a" and py_eq_sym: "py_eq a b \<longleftrightarrow> py_eq b a"
  and py_eq_trans: "py_eq a b \<Longrightarrow> py_eq b c \<Longrightarrow> py_eq a c"
  by (auto simp: py_eq_def)

fun as_dict :: "json \<Rightarrow> compat_error + dict" where
  "as_dict (JObj d) = Inr d"
| "as_dict _ = Inl Bad_Document"

fun iterate :: "json \<Rightarrow> compat_error + json list" where
  \<comment> \<open>what a \<open>for\<close> loop runs over\<close>
  "iterate (JArr xs) = Inr xs"
| "iterate (JObj d) = Inr (map (\<lambda>(k, _). JStr k) d)"
| "iterate (JStr s) = Inr (map (\<lambda>c. JStr [c]) s)"
| "iterate _ = Inl Bad_Document"

fun as_text :: "json \<Rightarrow> compat_error + string" where
  "as_text (JStr s) = Inr s"
| "as_text _ = Inl Bad_Document"

definition collect :: "('e + 'a list) list \<Rightarrow> 'e + 'a list" where
  "collect rs = fold_result (\<lambda>r out. and_then r (\<lambda>xs. Inr (out @ xs))) rs []"

definition collect_map :: "('a \<Rightarrow> 'e + 'b list) \<Rightarrow> 'a list \<Rightarrow> 'e + 'b list" where
  "collect_map f xs = collect (map f xs)"

lemma fold_append_acc:
  "fold_result (\<lambda>r out. and_then r (\<lambda>xs. Inr (out @ xs))) rs acc =
    and_then (fold_result (\<lambda>r out. and_then r (\<lambda>xs. Inr (out @ xs))) rs []) (\<lambda>ys. Inr (acc @ ys))"
proof (induction rs arbitrary: acc)
  case (Cons r rs)
  show ?case
  proof (cases r)
    case (Inr xs)
    show ?thesis
      using Cons.IH [of "acc @ xs"] Cons.IH [of xs] by (simp add: Inr and_then_assoc)
  qed simp
qed simp

lemma collect_simps [simp]:
  "collect [] = Inr []"
  "collect (r # rs) = and_then r (\<lambda>xs. and_then (collect rs) (\<lambda>ys. Inr (xs @ ys)))"
proof -
  show "collect (r # rs) = and_then r (\<lambda>xs. and_then (collect rs) (\<lambda>ys. Inr (xs @ ys)))"
  proof (cases r)
    case (Inr xs)
    show ?thesis using fold_append_acc [of rs xs] by (simp add: collect_def Inr)
  qed (simp add: collect_def)
qed (simp add: collect_def)

lemma collect_map_simps [simp]:
  "collect_map f [] = Inr []"
  "collect_map f (x # xs) = and_then (f x) (\<lambda>ys. and_then (collect_map f xs) (\<lambda>zs. Inr (ys @ zs)))"
  by (simp_all add: collect_map_def)

lemma collect_map_set:
  "collect_map f xs = Inr ys \<Longrightarrow> set ys = (\<Union>x\<in>set xs. set (projr (f x)))"
  "collect_map f xs = Inr ys \<Longrightarrow> x \<in> set xs \<Longrightarrow> \<exists>zs. f x = Inr zs"
  by (induction xs arbitrary: ys) (auto simp: and_then_Inr_iff)

lemma collect_map_Nil:
  "(\<And>x. x \<in> set xs \<Longrightarrow> f x = Inr []) \<Longrightarrow> collect_map f xs = Inr []"
  by (induction xs) simp_all

definition texts_of :: "json \<Rightarrow> compat_error + string list" where
  \<comment> \<open>the elements of \<open>set(v)\<close>, all of them texts\<close>
  "texts_of v = and_then (iterate v) (collect_map (\<lambda>x. and_then (as_text x) (\<lambda>s. Inr [s])))"

definition texts_or_none :: "json \<Rightarrow> compat_error + string list" where
  \<comment> \<open>\<open>set(v or ())\<close>\<close>
  "texts_or_none v = (if truthy v then texts_of v else Inr [])"

definition mapping_or_none :: "json \<Rightarrow> compat_error + dict" where
  \<comment> \<open>\<open>dict(v or {})\<close>\<close>
  "mapping_or_none v = (if truthy v then as_dict v else Inr [])"

definition keyed :: "string \<Rightarrow> json \<Rightarrow> compat_error + (string \<times> dict) list" where
  \<comment> \<open>\<open>{c[key]: c for c in items}\<close>\<close>
  "keyed key items = and_then (iterate items) (\<lambda>cs. and_then
     (collect_map (\<lambda>c. and_then (as_dict c) (\<lambda>d. and_then (as_text (get d key)) (\<lambda>k. Inr [(k, d)]))) cs)
     (\<lambda>kvs. Inr (dict_of kvs)))"

definition missing_from :: "string list \<Rightarrow> string list \<Rightarrow> string list" where
  \<comment> \<open>\<open>sorted(set(xs) - set(ys))\<close>\<close>
  "missing_from xs ys = sorted_unique (filter (\<lambda>x. x \<notin> set ys) xs)"

lemma set_missing_from [simp]: "set (missing_from xs ys) = set xs - set ys"
  by (auto simp: missing_from_def)

lemma missing_from_self [simp]: "missing_from xs xs = []"
  using set_missing_from [of xs xs] by (metis Diff_cancel set_empty)

end
