(* ===== verification/PyRepr.thy ===== *)
theory PyRepr
  imports Json
begin

text \<open>
  Python's \<open>repr\<close> of a text and of an optional text, as the messages of the code show them, and \<open>repr\<close> and
  \<open>str\<close> of a decoded JSON value: containers show the \<open>repr\<close> of what they hold.
\<close>

definition repr_digit :: "nat \<Rightarrow> char" where
  "repr_digit n = ''0123456789abcdef'' ! n"

definition repr_char :: "char \<Rightarrow> char \<Rightarrow> string" where
  "repr_char quote c = (let n = (of_char c :: nat) in
     if c = quote \<or> n = 92 then [char_of (92::nat), c]
     else if n = 9 then [char_of (92::nat), CHR ''t'']
     else if n = 10 then [char_of (92::nat), CHR ''n'']
     else if n = 13 then [char_of (92::nat), CHR ''r'']
     else if n < 32 \<or> 127 \<le> n \<and> n \<le> 160 \<or> n = 173 then [char_of (92::nat), CHR ''x'', repr_digit (n div 16), repr_digit (n mod 16)]
     else [c])"

definition py_repr :: "string \<Rightarrow> string" where
  \<comment> \<open>\<open>repr\<close> of a Latin-1 text\<close>
  "py_repr s = (let single = char_of (39::nat); double = char_of (34::nat);
       quote = (if single \<in> set s \<and> double \<notin> set s then double else single) in
     quote # concat (map (repr_char quote) s) @ [quote])"

definition repr_opt :: "string option \<Rightarrow> string" where
  "repr_opt x = (case x of None \<Rightarrow> ''None'' | Some s \<Rightarrow> py_repr s)"

fun json_repr :: "json \<Rightarrow> string" where
  "json_repr JNull = ''None''"
| "json_repr (JBool b) = (if b then ''True'' else ''False'')"
| "json_repr (JNum n) = int_text n"
| "json_repr (JStr s) = py_repr s"
| "json_repr (JArr xs) = ''['' @ join_texts '', '' (map json_repr xs) @ '']''"
| "json_repr (JObj fields) = ''{'' @ join_texts '', '' (map (\<lambda>(k, t). py_repr k @ '': '' @ t)
     (map (\<lambda>(k, v). (k, json_repr v)) fields)) @ ''}''"

definition json_str :: "json \<Rightarrow> string" where
  "json_str v = (case v of JStr s \<Rightarrow> s | _ \<Rightarrow> json_repr v)"

end
