(* ===== verification/SchemaCompare.thy ===== *)
theory SchemaCompare
  imports Contracts PyRepr "HOL-Library.Product_Lexorder"
begin

text \<open>
  The comparison of JSON schemas (\<open>packages/platform/contract_compat/schema_compare.py\<close>): references
  and \<open>allOf\<close> are resolved, nullability is normalised, then unions, objects, arrays and plain values
  are compared.  The code recurses as deep as the documents do, through references too; the first
  argument is the depth the interpreter allows.
\<close>

section \<open>Resolving\<close>

fun py_text :: "json \<Rightarrow> string" where
  \<comment> \<open>\<open>str(v)\<close> of a scalar\<close>
  "py_text JNull = ''None''"
| "py_text (JBool b) = (if b then ''True'' else ''False'')"
| "py_text (JNum n) = int_text n"
| "py_text (JStr s) = s"
| "py_text _ = []"

definition scalar :: "json \<Rightarrow> bool" where
  "scalar v \<longleftrightarrow> (case v of JArr _ \<Rightarrow> False | JObj _ \<Rightarrow> False | _ \<Rightarrow> True)"

definition scalar_text :: "json \<Rightarrow> compat_error + string" where
  \<comment> \<open>\<open>str(v)\<close> where only a scalar is expected; the text of a container is not modelled\<close>
  "scalar_text v = (if scalar v then Inr (py_text v) else Inl Bad_Document)"

definition ref_name :: "string \<Rightarrow> string" where
  "ref_name s = last (split_on (CHR ''/'') s)"

definition component :: "string \<Rightarrow> dict \<Rightarrow> string \<Rightarrow> compat_error + json" where
  \<comment> \<open>\<open>spec.get('components', {}).get(kind, {}).get(name)\<close>\<close>
  "component kind spec name =
     and_then (as_dict (get_or spec ''components'' (JObj []))) (\<lambda>cs.
     and_then (as_dict (get_or cs kind (JObj []))) (\<lambda>ss. Inr (get ss name)))"

definition schema_kind :: "dict \<Rightarrow> compat_error + string" where
  "schema_kind d =
     (if has_key d ''properties'' then Inr ''object''
      else if get d ''type'' \<noteq> JNull then Inr (json_str (get d ''type''))
      else if has_key d ''items'' then Inr ''array''
      else Inr ''unknown'')"

fun merge_all :: "(dict \<Rightarrow> compat_error + dict) \<Rightarrow> json list \<Rightarrow> dict \<Rightarrow> string list \<Rightarrow> compat_error + dict" where
  \<comment> \<open>the loop over \<open>allOf\<close>\<close>
  "merge_all f [] props required = Inr
     [(''type'', JStr ''object''), (''properties'', JObj props), (''required'', JArr (map JStr (sorted_unique required)))]"
| "merge_all f (item # items) props required =
     and_then (as_dict item) (\<lambda>i. and_then (f i) (\<lambda>resolved. and_then (schema_kind resolved) (\<lambda>k.
       if k \<noteq> ''object'' then Inr resolved
       else and_then (as_dict (get_or resolved ''properties'' (JObj []))) (\<lambda>ps.
            and_then (texts_of (get_or resolved ''required'' (JArr []))) (\<lambda>rs.
            merge_all f items (fold (\<lambda>(k, v) d. AList.update k v d) ps props) (required @ rs))))))"

definition ref_target :: "dict \<Rightarrow> dict \<Rightarrow> compat_error + dict option" where
  \<comment> \<open>the object a \<open>$ref\<close> of the schema names, if there is one\<close>
  "ref_target spec d = (if has_key d ''$ref'' then
       and_then (scalar_text (get d ''$ref'')) (\<lambda>r. and_then (component ''schemas'' spec (ref_name r)) (\<lambda>t.
         Inr (case t of JObj e \<Rightarrow> Some e | _ \<Rightarrow> None)))
     else Inr None)"

fun resolve_schema :: "nat \<Rightarrow> dict \<Rightarrow> dict \<Rightarrow> compat_error + dict" where
  "resolve_schema 0 spec d = Inl Too_Deep"
| "resolve_schema (Suc n) spec d = and_then (ref_target spec d) (\<lambda>t. case t of
     Some e \<Rightarrow> resolve_schema n spec e
   | None \<Rightarrow> (case get d ''allOf'' of
       JArr items \<Rightarrow> merge_all (\<lambda>i. resolve_schema n spec i) items [] []
     | _ \<Rightarrow> Inr d))"

section \<open>Nullability and unions\<close>

fun is_null_type :: "json \<Rightarrow> bool" where
  "is_null_type (JObj m) = (get m ''type'' = JStr ''null'')"
| "is_null_type _ = False"

definition sole_non_null :: "json \<Rightarrow> json option" where
  \<comment> \<open>the one member of a union that is not null, when only nulls were beside it\<close>
  "sole_non_null u = (case u of
     JArr members \<Rightarrow> (case filter (\<lambda>m. \<not> is_null_type m) members of
       [m] \<Rightarrow> if length members \<noteq> 1 then Some m else None
     | _ \<Rightarrow> None)
   | _ \<Rightarrow> None)"

definition normalize_nullable_schema :: "dict \<Rightarrow> json \<times> bool" where
  "normalize_nullable_schema d =
     (if get d ''nullable'' = JBool True then (JObj (AList.delete ''nullable'' d), True)
      else (case get d ''type'' of
        JArr ts \<Rightarrow>
          if JStr ''null'' \<in> set ts
          then (JObj (AList.update ''type'' (case List.find (\<lambda>t. t \<noteq> JStr ''null'') ts of None \<Rightarrow> JStr ''string'' | Some t \<Rightarrow> t) d), True)
          else (case sole_non_null (get d ''anyOf'') of Some m \<Rightarrow> (m, True)
             | None \<Rightarrow> (case sole_non_null (get d ''oneOf'') of Some m \<Rightarrow> (m, True) | None \<Rightarrow> (JObj d, False)))
      | _ \<Rightarrow> (case sole_non_null (get d ''anyOf'') of Some m \<Rightarrow> (m, True)
           | None \<Rightarrow> (case sole_non_null (get d ''oneOf'') of Some m \<Rightarrow> (m, True) | None \<Rightarrow> (JObj d, False)))))"

definition union_kind :: "dict \<Rightarrow> string option" where
  "union_kind d = List.find (\<lambda>k. case get d k of JArr _ \<Rightarrow> True | _ \<Rightarrow> False) [''anyOf'', ''oneOf'']"

record union_member =
  um_identifier :: string
  um_member :: dict

fun compact :: "json \<Rightarrow> string" where
  \<comment> \<open>\<open>json.dumps(v, sort_keys=True, separators=(',', ':'))\<close>\<close>
  "compact (JArr xs) = ''['' @ join_texts '','' (map compact xs) @ '']''"
| "compact (JObj kvs) = ''{'' @ join_texts '',''
     (map (\<lambda>(k, t). quoted k @ '':'' @ t) (sort_key fst (map (\<lambda>(k, v). (k, compact v)) kvs))) @ ''}''"
| "compact v = dumps v"

definition union_member_identifier :: "nat \<Rightarrow> dict \<Rightarrow> dict \<Rightarrow> compat_error + string" where
  "union_member_identifier n spec m = (case get m ''$ref'' of
     JStr r \<Rightarrow> Inr (''ref:'' @ ref_name r)
   | _ \<Rightarrow> and_then (resolve_schema n spec m) (\<lambda>d. Inr (''inline:'' @ compact (JObj d))))"

definition collect_union_members :: "nat \<Rightarrow> dict \<Rightarrow> dict \<Rightarrow> string \<Rightarrow> compat_error + union_member list" where
  "collect_union_members n spec d kind =
     and_then (iterate (get_or d kind (JArr []))) (collect_map (\<lambda>m. case m of
       JObj e \<Rightarrow> and_then (union_member_identifier n spec e) (\<lambda>i. Inr [\<lparr> um_identifier = i, um_member = e \<rparr>])
     | _ \<Rightarrow> Inr []))"

definition union_member_match_identifier :: "union_member \<Rightarrow> union_member \<Rightarrow> string" where
  "union_member_match_identifier b c =
     (if um_identifier b = um_identifier c then um_identifier b
      else if prefix ''ref:'' (um_identifier b) then um_identifier b
      else if prefix ''ref:'' (um_identifier c) then um_identifier c
      else um_identifier b)"

section \<open>Matching the members of two unions\<close>

fun match_same :: "(nat \<times> union_member) list \<Rightarrow> (nat \<times> union_member) list \<Rightarrow> (nat \<times> nat) list \<Rightarrow> (nat \<times> nat) list" where
  \<comment> \<open>each baseline member takes the first free candidate of its identifier\<close>
  "match_same [] cs pairs = pairs"
| "match_same ((i, b) # bs) cs pairs =
     (case List.find (\<lambda>(j, c). um_identifier c = um_identifier b \<and> j \<notin> snd ` set pairs) cs of
        None \<Rightarrow> match_same bs cs pairs
      | Some (j, _) \<Rightarrow> match_same bs cs (pairs @ [(i, j)]))"

definition replacement_cost :: int where
  "replacement_cost = 101"

definition changes_cost :: "contract_change list \<Rightarrow> int" where
  "changes_cost xs = sum_list (map (\<lambda>c. if breaking c then 100 else 1) xs)"

definition candidate_matches ::
  "(json \<Rightarrow> json \<Rightarrow> compat_error + contract_change list) \<Rightarrow> (nat \<times> union_member) list \<Rightarrow> (nat \<times> union_member) list \<Rightarrow>
     (nat \<times> nat) list \<Rightarrow> compat_error + (int \<times> nat \<times> nat) list" where
  "candidate_matches cmp bs cs pairs =
     collect_map (\<lambda>(i, b). if i \<in> fst ` set pairs then Inr [] else
       collect_map (\<lambda>(j, c). if j \<in> snd ` set pairs then Inr [] else
         and_then (cmp (JObj (um_member b)) (JObj (um_member c))) (\<lambda>xs.
           if replacement_cost \<le> changes_cost xs then Inr [] else Inr [(changes_cost xs, i, j)])) cs) bs"

fun match_cheapest :: "(int \<times> nat \<times> nat) list \<Rightarrow> (nat \<times> nat) list \<Rightarrow> (nat \<times> nat) list" where
  "match_cheapest [] pairs = pairs"
| "match_cheapest ((_, i, j) # rest) pairs =
     (if i \<in> fst ` set pairs \<or> j \<in> snd ` set pairs then match_cheapest rest pairs
      else match_cheapest rest (pairs @ [(i, j)]))"

section \<open>Comparing\<close>

type_synonym comparer = "string \<Rightarrow> string \<Rightarrow> json \<Rightarrow> json \<Rightarrow> compat_error + contract_change list"

definition compare_members ::
  "comparer \<Rightarrow> string \<Rightarrow> string \<Rightarrow> string \<Rightarrow> union_member list \<Rightarrow> union_member list \<Rightarrow> compat_error + contract_change list" where
  \<comment> \<open>\<open>_compare_union_schema\<close> once both members are collected\<close>
  "compare_members cmp scope identifier kind bs cs =
     (let ibs = List.enumerate 0 bs; ics = List.enumerate 0 cs; same = match_same ibs ics [] in
      and_then (candidate_matches (cmp ''union-member'' ''<member>'') ibs ics same) (\<lambda>ms.
      let pairs = match_cheapest (sort ms) same in
      and_then (collect_map (\<lambda>(i, j). cmp scope
          (identifier @ ''<'' @ union_member_match_identifier (bs ! i) (cs ! j) @ ''>'')
          (JObj (um_member (bs ! i))) (JObj (um_member (cs ! j)))) pairs) (\<lambda>xs. Inr
        (xs @ map (\<lambda>(i, b). change ''breaking'' scope (identifier @ ''<'' @ um_identifier b @ ''>'') (kind @ '' member was removed''))
            (filter (\<lambda>(i, b). i \<notin> fst ` set pairs) ibs) @
          map (\<lambda>(j, c). change ''additive'' scope (identifier @ ''<'' @ um_identifier c @ ''>'') (''new '' @ kind @ '' member was added''))
            (filter (\<lambda>(j, c). j \<notin> snd ` set pairs) ics)))))"

definition compare_union_schema ::
  "nat \<Rightarrow> comparer \<Rightarrow> string \<Rightarrow> string \<Rightarrow> dict \<Rightarrow> dict \<Rightarrow> dict \<Rightarrow> dict \<Rightarrow> compat_error + contract_change list" where
  "compare_union_schema n cmp scope identifier bspec b cspec c =
     (if union_kind b \<noteq> union_kind c then Inr [change ''breaking'' scope identifier
        (''union schema kind changed from '' @ text_or (union_kind b) ''non-union'' @ '' to '' @ text_or (union_kind c) ''non-union'')]
      else and_then (collect_union_members n bspec b (the (union_kind b))) (\<lambda>bs.
           and_then (collect_union_members n cspec c (the (union_kind b))) (\<lambda>cs.
           compare_members cmp scope identifier (the (union_kind b)) bs cs)))"

definition property_changes :: "comparer \<Rightarrow> string \<Rightarrow> string \<Rightarrow> string \<Rightarrow> string list \<Rightarrow> string list \<Rightarrow> dict \<Rightarrow>
  string \<times> json \<Rightarrow> compat_error + contract_change list" where
  \<comment> \<open>one property of the baseline; the lists are the required properties of both sides\<close>
  "property_changes cmp scope identifier direction breq creq cprops p = (case p of (k, v) \<Rightarrow>
     (case map_of cprops k of
        None \<Rightarrow> Inr [change ''breaking'' scope (identifier @ ''.'' @ k) ''property was removed'']
      | Some w \<Rightarrow> and_then (cmp scope (identifier @ ''.'' @ k) v w) (\<lambda>xs. Inr
          ((if direction = ''request'' then
              (if k \<notin> set breq \<and> k \<in> set creq
               then [change ''breaking'' scope (identifier @ ''.'' @ k) ''property became required''] else [])
            else if k \<in> set breq \<and> k \<notin> set creq
              then [change ''breaking'' scope (identifier @ ''.'' @ k) ''response property became optional'']
            else []) @ xs))))"

definition new_property_change :: "string \<Rightarrow> string \<Rightarrow> string \<Rightarrow> string list \<Rightarrow> string \<Rightarrow> contract_change" where
  "new_property_change scope identifier direction creq k =
     (if direction = ''request'' then
        (if k \<in> set creq then change ''breaking'' scope (identifier @ ''.'' @ k) ''new required request property was added''
         else change ''additive'' scope (identifier @ ''.'' @ k) ''new optional request property was added'')
      else change ''additive'' scope (identifier @ ''.'' @ k) ''new response property was added'')"

definition compare_object_schema :: "comparer \<Rightarrow> string \<Rightarrow> string \<Rightarrow> string \<Rightarrow> dict \<Rightarrow> dict \<Rightarrow> compat_error + contract_change list" where
  "compare_object_schema cmp scope identifier direction b c =
     and_then (as_dict (get_or b ''properties'' (JObj []))) (\<lambda>bps.
     and_then (as_dict (get_or c ''properties'' (JObj []))) (\<lambda>cps.
     and_then (texts_of (get_or b ''required'' (JArr []))) (\<lambda>breq.
     and_then (texts_of (get_or c ''required'' (JArr []))) (\<lambda>creq.
     and_then (collect_map (property_changes cmp scope identifier direction breq creq cps) bps) (\<lambda>xs. Inr
       (xs @ map (new_property_change scope identifier direction creq) (missing_from (map fst cps) (map fst bps))))))))"

definition enum_values :: "json \<Rightarrow> compat_error + json list" where
  \<comment> \<open>\<open>set(v or ())\<close>: a list or dictionary among the values is not hashable\<close>
  "enum_values v = (if truthy v then and_then (iterate v) (\<lambda>xs. if list_all scalar xs then Inr xs else Inl Bad_Document) else Inr [])"

definition json_or :: "json \<Rightarrow> json \<Rightarrow> json" where
  "json_or a b = (if truthy a then a else b)"

definition compare_plain_schema :: "string \<Rightarrow> string \<Rightarrow> dict \<Rightarrow> dict \<Rightarrow> dict \<Rightarrow> dict \<Rightarrow> compat_error + contract_change list" where
  \<comment> \<open>values and formats; \<open>b0\<close> and \<open>c0\<close> are the schemas before they were resolved\<close>
  "compare_plain_schema scope identifier b0 b c0 c =
     (let be = json_or (get b0 ''enum'') (get b ''enum''); ce = json_or (get c0 ''enum'') (get c ''enum'') in
      and_then (if py_eq be ce then Inr [] else
        and_then (enum_values be) (\<lambda>bs. and_then (enum_values ce) (\<lambda>cs. Inr
          [if \<forall>x\<in>set bs. \<exists>y\<in>set cs. py_eq x y then change ''additive'' scope identifier ''enum values expanded''
           else change ''breaking'' scope identifier ''enum values changed incompatibly''])))
      (\<lambda>xs. Inr (xs @ (if py_eq (get b ''format'') (get c ''format'') then []
        else [change ''breaking'' scope identifier ''schema format changed'']))))"

definition nullability_changes :: "string \<Rightarrow> string \<Rightarrow> string \<Rightarrow> bool \<Rightarrow> bool \<Rightarrow> contract_change list" where
  "nullability_changes scope identifier direction bn cn =
     (if bn = cn then []
      else [change (if direction = ''request'' then (if bn \<and> \<not> cn then ''breaking'' else ''additive'')
                    else (if \<not> bn \<and> cn then ''breaking'' else ''additive'')) scope identifier ''nullability changed''])"

definition normalized_schema :: "nat \<Rightarrow> dict \<Rightarrow> dict \<Rightarrow> compat_error + (dict \<times> bool)" where
  \<comment> \<open>resolved, freed of nullability and resolved again\<close>
  "normalized_schema n spec d =
     and_then (resolve_schema n spec d) (\<lambda>r. let (m, nullable) = normalize_nullable_schema r in
     and_then (as_dict m) (\<lambda>e. and_then (resolve_schema n spec e) (\<lambda>f. Inr (f, nullable))))"

definition compare_resolved ::
  "nat \<Rightarrow> comparer \<Rightarrow> string \<Rightarrow> string \<Rightarrow> string \<Rightarrow> dict \<Rightarrow> dict \<Rightarrow> dict \<Rightarrow> dict \<Rightarrow> dict \<Rightarrow> dict \<Rightarrow> compat_error + contract_change list" where
  \<comment> \<open>\<open>b\<close> and \<open>c\<close> are normalised, \<open>b0\<close> and \<open>c0\<close> as given\<close>
  "compare_resolved n cmp scope identifier direction bspec b0 b cspec c0 c =
     (if union_kind b \<noteq> None \<or> union_kind c \<noteq> None
      then compare_union_schema n cmp scope identifier bspec b cspec c
      else and_then (schema_kind b) (\<lambda>bk. and_then (schema_kind c) (\<lambda>ck.
        if bk \<noteq> ck then Inr [change ''breaking'' scope identifier (''schema type changed from '' @ bk @ '' to '' @ ck)]
        else if bk = ''object'' then compare_object_schema cmp scope identifier direction b c
        else if bk = ''array'' then cmp scope (identifier @ ''[]'') (get b ''items'') (get c ''items'')
        else compare_plain_schema scope identifier b0 b c0 c)))"

fun compare_schema :: "nat \<Rightarrow> string \<Rightarrow> dict \<Rightarrow> dict \<Rightarrow> comparer" where
  "compare_schema 0 direction bspec cspec scope identifier bs cs = Inl Too_Deep"
| "compare_schema (Suc n) direction bspec cspec scope identifier bs cs =
     (if bs = JNull \<and> cs = JNull then Inr []
      else if bs = JNull then
        Inr [change (if direction = ''response'' then ''additive'' else ''breaking'') scope identifier ''schema was added'']
      else if cs = JNull then Inr [change ''breaking'' scope identifier ''schema was removed'']
      else and_then (as_dict bs) (\<lambda>b0. and_then (as_dict cs) (\<lambda>c0.
        and_then (normalized_schema n bspec b0) (\<lambda>(b, bn).
        and_then (normalized_schema n cspec c0) (\<lambda>(c, cn).
        and_then (compare_resolved n (\<lambda>s i x y. compare_schema n direction bspec cspec s i x y)
            scope identifier direction bspec b0 b cspec c0 c) (\<lambda>xs. Inr
          (nullability_changes scope identifier direction bn cn @ xs)))))))"

end
