(* ===== verification/SchemaDepth.thy ===== *)
theory SchemaDepth
  imports SchemaCompare
begin

text \<open>
  Depth of the schema comparison: more depth never changes a result that was reached, and schemas
  whose references can be ranked are compared within some depth.
\<close>

section \<open>Approximation by depth\<close>

definition reached :: "compat_error + 'a \<Rightarrow> bool" where
  "reached r \<longleftrightarrow> r \<noteq> Inl Too_Deep"

definition approx :: "compat_error + 'a \<Rightarrow> compat_error + 'a \<Rightarrow> bool" where
  \<comment> \<open>the second result was computed with at least the depth of the first\<close>
  "approx r r' \<longleftrightarrow> (reached r \<longrightarrow> r' = r)"

named_theorems approx_intros \<open>monotonicity in the depth\<close>

lemma approx_refl [approx_intros, simp]: "approx r r"
  by (simp add: approx_def)

lemma approx_deep [simp]: "approx (Inl Too_Deep) r"
  by (simp add: approx_def reached_def)

lemma approx_reached: "approx r r' \<Longrightarrow> reached r \<Longrightarrow> r' = r"
  by (simp add: approx_def)

lemma reached_Inr [simp]: "reached (Inr x)" and reached_bad [simp]: "reached (Inl Bad_Document)"
  by (simp_all add: reached_def)

lemma approx_and_then [approx_intros]:
  assumes "approx r r'" and "\<And>x. approx (f x) (f' x)"
  shows "approx (and_then r f) (and_then r' f')"
  using assms by (cases r) (auto simp: approx_def reached_def)

lemma approx_collect_map [approx_intros]:
  assumes "\<And>x. approx (f x) (f' x)"
  shows "approx (collect_map f xs) (collect_map f' xs)"
  by (induction xs) (auto intro!: approx_intros assms)

lemma approx_if [approx_intros]: "approx a a' \<Longrightarrow> approx b b' \<Longrightarrow> approx (if p then a else b) (if p then a' else b')"
  by simp

lemma approx_prod [approx_intros]: "(\<And>x y. approx (f x y) (f' x y)) \<Longrightarrow> approx (case p of (x, y) \<Rightarrow> f x y) (case p of (x, y) \<Rightarrow> f' x y)"
  by (cases p) simp

lemma approx_option [approx_intros]:
  "approx a a' \<Longrightarrow> (\<And>x. approx (f x) (f' x)) \<Longrightarrow> approx (case p of None \<Rightarrow> a | Some x \<Rightarrow> f x) (case p of None \<Rightarrow> a' | Some x \<Rightarrow> f' x)"
  by (cases p) simp_all

lemma approx_let [approx_intros]: "(\<And>x. approx (f x) (f' x)) \<Longrightarrow> approx (Let p f) (Let p f')"
  by (simp add: Let_def)

lemma reached_and_then: "reached r \<Longrightarrow> (\<And>x. r = Inr x \<Longrightarrow> reached (f x)) \<Longrightarrow> reached (and_then r f)"
  by (cases r) (auto simp: reached_def)

lemma reached_collect_map: "(\<And>x. x \<in> set xs \<Longrightarrow> reached (f x)) \<Longrightarrow> reached (collect_map f xs)"
  by (induction xs) (auto intro!: reached_and_then)

lemma reached_pure [simp]:
  "reached (as_dict v)" "reached (iterate v)" "reached (as_text v)" "reached (scalar_text v)"
  by (cases v; simp add: scalar_text_def)+

lemma reached_texts [simp]: "reached (texts_of v)" "reached (schema_kind d)" "reached (component k spec nm)" "reached (ref_target spec d)"
  by (auto simp: texts_of_def schema_kind_def component_def ref_target_def intro!: reached_and_then reached_collect_map)

section \<open>More depth\<close>

lemma approx_merge_all:
  assumes "\<And>i. approx (f i) (f' i)"
  shows "approx (merge_all f items ps rs) (merge_all f' items ps rs)"
  by (induction items arbitrary: ps rs) (auto intro!: approx_intros assms)

lemma resolve_more: "approx (resolve_schema n spec d) (resolve_schema (n + k) spec d)"
proof (induction n arbitrary: d)
  case (Suc n)
  show ?case
    by (auto intro!: approx_intros Suc approx_merge_all split: json.split)
qed simp

lemma member_identifier_more: "approx (union_member_identifier n spec m) (union_member_identifier (n + k) spec m)"
  by (auto simp: union_member_identifier_def intro!: approx_intros resolve_more split: json.split)

lemma members_more: "approx (collect_union_members n spec d u) (collect_union_members (n + k) spec d u)"
  by (auto simp: collect_union_members_def intro!: approx_intros member_identifier_more split: json.split)

lemma normalized_more: "approx (normalized_schema n spec d) (normalized_schema (n + k) spec d)"
  by (auto simp: normalized_schema_def intro!: approx_intros resolve_more)

definition approx_comparer :: "comparer \<Rightarrow> comparer \<Rightarrow> bool" where
  "approx_comparer cmp cmp' \<longleftrightarrow> (\<forall>s i x y. approx (cmp s i x y) (cmp' s i x y))"

lemma approx_comparerD: "approx_comparer cmp cmp' \<Longrightarrow> approx (cmp s i x y) (cmp' s i x y)"
  by (simp add: approx_comparer_def)

lemma approx_members:
  assumes "approx_comparer cmp cmp'"
  shows "approx (compare_members cmp s i u bs cs) (compare_members cmp' s i u bs cs)"
  unfolding compare_members_def candidate_matches_def
  by (intro approx_intros approx_comparerD [OF assms])

lemma approx_union:
  assumes "approx_comparer cmp cmp'"
  shows "approx (compare_union_schema n cmp s i bspec b cspec c) (compare_union_schema (n + k) cmp' s i bspec b cspec c)"
  unfolding compare_union_schema_def
  by (intro approx_intros members_more approx_members [OF assms])

lemma approx_object:
  assumes "approx_comparer cmp cmp'"
  shows "approx (compare_object_schema cmp s i dir b c) (compare_object_schema cmp' s i dir b c)"
  unfolding compare_object_schema_def property_changes_def
  by (intro approx_intros approx_comparerD [OF assms])

lemma approx_resolved:
  assumes "approx_comparer cmp cmp'"
  shows "approx (compare_resolved n cmp s i dir bspec b0 b cspec c0 c) (compare_resolved (n + k) cmp' s i dir bspec b0 b cspec c0 c)"
  unfolding compare_resolved_def
  by (intro approx_intros approx_union [OF assms] approx_object [OF assms] approx_comparerD [OF assms])

lemma compare_more: "approx (compare_schema n dir bspec cspec s i x y) (compare_schema (n + k) dir bspec cspec s i x y)"
proof (induction n arbitrary: s i x y)
  case (Suc n)
  have cmp: "approx_comparer (\<lambda>s i x y. compare_schema n dir bspec cspec s i x y) (\<lambda>s i x y. compare_schema (n + k) dir bspec cspec s i x y)"
    by (simp add: approx_comparer_def Suc)
  show ?case
    unfolding add_Suc compare_schema.simps
    by (intro approx_intros normalized_more approx_resolved [OF cmp])
qed simp

lemma reached_more:
  "reached (compare_schema n dir bspec cspec s i x y) \<Longrightarrow> n \<le> m \<Longrightarrow>
    compare_schema m dir bspec cspec s i x y = compare_schema n dir bspec cspec s i x y"
  using approx_reached [OF compare_more] by (metis le_add_diff_inverse)

lemma resolve_reached_more:
  "reached (resolve_schema n spec d) \<Longrightarrow> n \<le> m \<Longrightarrow> resolve_schema m spec d = resolve_schema n spec d"
  using approx_reached [OF resolve_more] by (metis le_add_diff_inverse)

end
