(* ===== verification/SchemaTermination.thy ===== *)
theory SchemaTermination
  imports SchemaDepth
begin

text \<open>
  Schemas whose references can be ranked: the parts of a resolved schema that the comparison descends
  into lie below the schema, so every comparison is reached at some depth.
\<close>

section \<open>The order\<close>

definition greatest :: "nat list \<Rightarrow> nat" where
  "greatest xs = foldr max xs 0"

lemma greatest_upper: "x \<in> set xs \<Longrightarrow> x \<le> greatest xs"
  by (induction xs) (auto simp: greatest_def)

fun level :: "(string \<Rightarrow> nat) \<Rightarrow> json \<Rightarrow> nat" where
  \<comment> \<open>above the rank of every reference in the document\<close>
  "level r (JObj d) = greatest (map (\<lambda>(k, v). max (level r v) (if k = ''$ref'' then Suc (r (ref_name (py_text v))) else 0)) d)"
| "level r (JArr xs) = greatest (map (level r) xs)"
| "level r _ = 0"

fun weight :: "json \<Rightarrow> nat" where
  "weight (JObj d) = Suc (sum_list (map (\<lambda>(_, v). weight v) d))"
| "weight (JArr xs) = Suc (sum_list (map weight xs))"
| "weight _ = 0"

definition below :: "(string \<Rightarrow> nat) \<Rightarrow> json \<Rightarrow> json \<Rightarrow> bool" where
  "below r x y \<longleftrightarrow> level r x < level r y \<or> level r x \<le> level r y \<and> weight x < weight y"

lemma below_trans: "below r x y \<Longrightarrow> below r y z \<Longrightarrow> below r x z"
  by (auto simp: below_def)

lemma wf_below: "wf {(x, y). below r x y}"
proof (rule wf_subset)
  show "wf (inv_image (less_than <*lex*> less_than) (\<lambda>x. (level r x, weight x)))" by auto
  show "{(x, y). below r x y} \<subseteq> inv_image (less_than <*lex*> less_than) (\<lambda>x. (level r x, weight x))"
    by (auto simp: below_def in_inv_image)
qed

lemma field_below: "(k, v) \<in> set d \<Longrightarrow> below r v (JObj d)"
proof -
  assume kv: "(k, v) \<in> set d"
  then have "max (level r v) (if k = ''$ref'' then Suc (r (ref_name (py_text v))) else 0) \<le> level r (JObj d)"
    unfolding level.simps by (intro greatest_upper) force
  moreover have "weight v \<le> sum_list (map (\<lambda>(_, v). weight v) d)"
    using kv by (intro member_le_sum_list) force+
  ultimately show ?thesis by (simp add: below_def)
qed

lemma element_below: "x \<in> set xs \<Longrightarrow> below r x (JArr xs)"
  using greatest_upper [of "level r x" "map (level r) xs"] member_le_sum_list [of "weight x" "map weight xs"]
  by (simp add: below_def)

lemma below_null: "below r JNull (JObj d)"
  by (simp add: below_def)

declare level.simps [simp del] weight.simps [simp del]

lemma get_member: "get d k \<noteq> JNull \<Longrightarrow> (k, get d k) \<in> set d"
  by (auto simp: get_def get_or_def split: option.splits dest: map_of_SomeD)

lemma get_below: "below r (get d k) (JObj d)"
proof (cases "get d k = JNull")
  case True
  then show ?thesis by (simp add: below_null)
next
  case False
  then show ?thesis by (rule field_below [OF get_member])
qed

definition parts :: "dict \<Rightarrow> json set" where
  \<comment> \<open>what a comparison of the resolved schema descends into\<close>
  "parts d = (case get_or d ''properties'' (JObj []) of JObj ps \<Rightarrow> snd ` set ps | _ \<Rightarrow> {}) \<union> {get d ''items''} \<union>
     (\<Union>k\<in>{''anyOf'', ''oneOf''}. case get d k of JArr ms \<Rightarrow> set ms | _ \<Rightarrow> {})"

lemma finite_parts [simp]: "finite (parts d)"
  by (auto simp: parts_def split: json.splits)

lemma field_parts_below:
  assumes "get_or d k (JObj []) = JObj ps" and "p \<in> snd ` set ps"
  shows "below r p (JObj d)"
proof -
  from assms(2) obtain j where p: "(j, p) \<in> set ps" by auto
  with assms(1) have "get d k = JObj ps" by (cases "map_of d k") (auto simp: get_def get_or_def)
  with get_below [of r d k] field_below [OF p, of r] show ?thesis by (auto intro: below_trans)
qed

lemma element_parts_below: "get d k = JArr ms \<Longrightarrow> p \<in> set ms \<Longrightarrow> below r p (JObj d)"
  using get_below [of r d k] element_below [of p ms r] below_trans by metis

lemma parts_below: "p \<in> parts d \<Longrightarrow> below r p (JObj d)"
  unfolding parts_def
proof (elim UnE UN_E)
  assume "p \<in> (case get_or d ''properties'' (JObj []) of JObj ps \<Rightarrow> snd ` set ps | _ \<Rightarrow> {})"
  then show ?thesis
    by (cases "get_or d ''properties'' (JObj [])") (simp_all add: field_parts_below)
next
  assume "p \<in> {get d ''items''}"
  then show ?thesis by (simp add: get_below)
next
  fix k assume "p \<in> (case get d k of JArr ms \<Rightarrow> set ms | _ \<Rightarrow> {})"
  then show ?thesis by (cases "get d k") (simp_all add: element_parts_below)
qed

section \<open>Ranked references\<close>

definition well_ranked :: "(string \<Rightarrow> nat) \<Rightarrow> dict \<Rightarrow> bool" where
  \<comment> \<open>a component only refers to components of smaller rank\<close>
  "well_ranked r spec \<longleftrightarrow> (\<forall>name t. component ''schemas'' spec name = Inr (JObj t) \<longrightarrow> level r (JObj t) \<le> r name)"

lemma target_below:
  assumes "well_ranked r spec" and "ref_target spec d = Inr (Some t)"
  shows "level r (JObj t) < level r (JObj d)"
proof -
  from assms(2) obtain tv where k: "has_key d ''$ref''" and tv: "component ''schemas'' spec (ref_name (py_text (get d ''$ref''))) = Inr tv"
    "(case tv of JObj e \<Rightarrow> Some e | _ \<Rightarrow> None) = Some t"
    by (auto simp: ref_target_def and_then_Inr_iff scalar_text_def split: if_split_asm)
  from tv(2) have "tv = JObj t" by (cases tv) auto
  with tv(1) have t: "component ''schemas'' spec (ref_name (py_text (get d ''$ref''))) = Inr (JObj t)" by simp
  from k obtain v where "map_of d ''$ref'' = Some v" by (auto simp: has_key_def)
  then have v: "(''$ref'', v) \<in> set d" "get d ''$ref'' = v"
    by (simp_all add: get_def get_or_def map_of_SomeD)
  have "Suc (r (ref_name (py_text v))) \<le> max (level r v) (Suc (r (ref_name (py_text v))))" by simp
  also have "\<dots> \<le> level r (JObj d)"
    unfolding level.simps using v(1) by (intro greatest_upper) force
  finally show ?thesis using assms(1) t v(2) by (fastforce simp: well_ranked_def)
qed

lemma set_update: "set (AList.update k v xs) \<subseteq> insert (k, v) (set xs)"
  by (induction xs) auto

lemma set_fold_update: "set (fold (\<lambda>(k, v) d. AList.update k v d) ps d) \<subseteq> set d \<union> set ps"
  using set_update by (induction ps arbitrary: d) (fastforce split: prod.splits)+

definition merged :: "dict \<Rightarrow> string list \<Rightarrow> dict" where
  "merged ps rs = [(''type'', JStr ''object''), (''properties'', JObj ps), (''required'', JArr (map JStr (sorted_unique rs)))]"

lemma merge_all_cases:
  assumes "merge_all f items ps rs = Inr e"
    and "\<And>i e p. JObj i \<in> set items \<Longrightarrow> f i = Inr e \<Longrightarrow> p \<in> parts e \<Longrightarrow> Q p" and "snd ` set ps \<subseteq> Collect Q"
  shows "(\<exists>i. JObj i \<in> set items \<and> f i = Inr e) \<or> (\<exists>ps rs. e = merged ps rs \<and> snd ` set ps \<subseteq> Collect Q)"
  using assms
proof (induction items arbitrary: ps rs)
  case Nil
  then show ?case by (auto simp: merged_def)
next
  case (Cons item items)
  from Cons.prems(1) obtain i x k where i: "item = JObj i" "f i = Inr x" "schema_kind x = Inr k"
    by (cases item) (auto simp: and_then_Inr_iff)
  show ?case
  proof (cases "k = ''object''")
    case False
    with Cons.prems(1) i have "f i = Inr e" by simp
    with i(1) show ?thesis by auto
  next
    case True
    with Cons.prems(1) i obtain qs qr where q: "as_dict (get_or x ''properties'' (JObj [])) = Inr qs"
      "merge_all f items (fold (\<lambda>(k, v) d. AList.update k v d) qs ps) (rs @ qr) = Inr e"
      by (auto simp: and_then_Inr_iff)
    have "snd ` set qs \<subseteq> parts x"
      using q(1) by (cases "get_or x ''properties'' (JObj [])") (auto simp: parts_def)
    then have "snd ` set qs \<subseteq> Collect Q" using Cons.prems(2) [of i x] i(1,2) by auto
    moreover have "set (fold (\<lambda>(k, v) d. AList.update k v d) qs ps) \<subseteq> set ps \<union> set qs" by (rule set_fold_update)
    ultimately have "snd ` set (fold (\<lambda>(k, v) d. AList.update k v d) qs ps) \<subseteq> Collect Q"
      using Cons.prems(3) by blast
    from Cons.IH [OF q(2) _ this] Cons.prems(2) show ?thesis by fastforce
  qed
qed

lemma merged_fields:
  "parts (merged ps rs) = insert JNull (snd ` set ps)" "ref_target spec (merged ps rs) = Inr None" "get (merged ps rs) ''allOf'' = JNull"
  by (auto simp: parts_def merged_def get_def get_or_def ref_target_def has_key_def)

lemma resolve_step:
  assumes "resolve_schema (Suc n) spec d = Inr e"
  obtains (target) t where "ref_target spec d = Inr (Some t)" "resolve_schema n spec t = Inr e"
  | (all_of) items where "get d ''allOf'' = JArr items" "merge_all (resolve_schema n spec) items [] [] = Inr e"
  | (self) "ref_target spec d = Inr None" "e = d" "\<forall>items. get d ''allOf'' \<noteq> JArr items"
proof -
  from assms obtain o' where o: "ref_target spec d = Inr o'"
    "(case o' of Some t \<Rightarrow> resolve_schema n spec t
      | None \<Rightarrow> (case get d ''allOf'' of JArr items \<Rightarrow> merge_all (resolve_schema n spec) items [] [] | _ \<Rightarrow> Inr d)) = Inr e"
    by (auto simp: and_then_Inr_iff)
  show thesis
  proof (cases o')
    case None
    show thesis
    proof (cases "\<exists>items. get d ''allOf'' = JArr items")
      case True
      with o(2) None all_of show thesis by auto
    next
      case False
      with o None have "e = d" by (auto split: json.split_asm)
      with False o(1) None self show thesis by blast
    qed
  next
    case (Some t)
    with o target show thesis by simp
  qed
qed

lemma resolve_parts:
  assumes "well_ranked r spec" and "resolve_schema n spec d = Inr e" and "p \<in> parts e"
  shows "below r p (JObj d)"
  using assms(2,3)
proof (induction n arbitrary: d e p)
  case (Suc n)
  from Suc.prems(1) show ?case
  proof (cases rule: resolve_step)
    case (target t)
    from Suc.IH [OF target(2) Suc.prems(2)] target_below [OF assms(1) target(1)] show ?thesis
      by (auto simp: below_def)
  next
    case (all_of items)
    have item: "below r (JObj i) (JObj d)" if "JObj i \<in> set items" for i
      using element_below [OF that, of r] get_below [of r d "''allOf''"] all_of(1) by (auto intro: below_trans)
    have parts: "below r q (JObj d)" if "JObj i \<in> set items" "resolve_schema n spec i = Inr x" "q \<in> parts x" for i x q
      using Suc.IH [OF that(2,3)] item [OF that(1)] by (rule below_trans)
    from merge_all_cases [OF all_of(2), of "\<lambda>q. below r q (JObj d)", OF parts]
    have "(\<exists>i. JObj i \<in> set items \<and> resolve_schema n spec i = Inr e) \<or>
        (\<exists>ps rs. e = merged ps rs \<and> snd ` set ps \<subseteq> {q. below r q (JObj d)})" by simp
    moreover have "below r JNull (JObj d)" by (rule below_null)
    ultimately show ?thesis using parts Suc.prems(2) by (auto simp: merged_fields image_subset_iff)
  next
    case self
    with Suc.prems(2) show ?thesis by (simp add: parts_below)
  qed
qed simp


section \<open>Depth of a resolution\<close>

lemma enough_for_all:
  fixes P :: "nat \<Rightarrow> 'a \<Rightarrow> bool"
  assumes "finite S" and "\<And>x. x \<in> S \<Longrightarrow> \<exists>n. P n x" and "\<And>n m x. P n x \<Longrightarrow> n \<le> m \<Longrightarrow> P m x"
  shows "\<exists>n. \<forall>x\<in>S. P n x"
  using assms(1,2)
proof (induction S)
  case (insert x S)
  from insert.IH insert.prems obtain n where n: "\<forall>y\<in>S. P n y" by auto
  from insert.prems obtain m where m: "P m x" by auto
  have "\<forall>y\<in>insert x S. P (max n m) y"
    using n assms(3) [OF _ max.cobounded1] assms(3) [OF m max.cobounded2] by blast
  then show ?case ..
qed simp

lemma reached_merge_all:
  assumes "\<And>i. JObj i \<in> set items \<Longrightarrow> reached (f i)"
  shows "reached (merge_all f items ps rs)"
  using assms
proof (induction items arbitrary: ps rs)
  case (Cons item items)
  show ?case
    using Cons.prems by (cases item) (auto intro!: reached_and_then Cons.IH)
qed simp

lemma resolve_reached_mono: "reached (resolve_schema n spec d) \<Longrightarrow> n \<le> m \<Longrightarrow> reached (resolve_schema m spec d)"
  using resolve_reached_more by metis

lemma resolve_reached:
  assumes "well_ranked r spec"
  shows "\<exists>n. reached (resolve_schema n spec d)"
proof -
  have "\<forall>d. x = JObj d \<longrightarrow> (\<exists>n. reached (resolve_schema n spec d))" for x
  proof (induction x rule: wf_induct_rule [OF wf_below [of r]])
    case (1 x)
    show ?case
    proof (intro allI impI)
      fix d assume x: "x = JObj d"
      show "\<exists>n. reached (resolve_schema n spec d)"
      proof (cases "\<exists>t. ref_target spec d = Inr (Some t)")
        case True
        then obtain t where t: "ref_target spec d = Inr (Some t)" ..
        from target_below [OF assms t] have "below r (JObj t) (JObj d)" unfolding below_def by (rule disjI1)
        with 1 [of "JObj t"] x obtain n where "reached (resolve_schema n spec t)" by auto
        with t have "reached (resolve_schema (Suc n) spec d)" by simp
        then show ?thesis ..
      next
        case False
        define items where "items = (case get d ''allOf'' of JArr items \<Rightarrow> items | _ \<Rightarrow> [])"
        have "below r y (JObj d)" if "y \<in> set items" for y
          using that element_below [of y items r] get_below [of r d "''allOf''"]
          by (auto simp: items_def split: json.split_asm intro: below_trans)
        then have "\<exists>n. \<forall>i. y = JObj i \<longrightarrow> reached (resolve_schema n spec i)" if "y \<in> set items" for y
          using that 1 [of y] x by (cases y) auto
        then have "\<exists>n. \<forall>y\<in>set items. \<forall>i. y = JObj i \<longrightarrow> reached (resolve_schema n spec i)"
          by (intro enough_for_all) (auto intro: resolve_reached_mono)
        then obtain n where n: "\<And>i. JObj i \<in> set items \<Longrightarrow> reached (resolve_schema n spec i)" by blast
        have "reached (resolve_schema (Suc n) spec d)"
        proof (cases "ref_target spec d")
          case (Inr t)
          with False have "t = None" by (cases t) auto
          with Inr reached_merge_all [OF n] show ?thesis by (auto simp: items_def split: json.split)
        next
          case (Inl e)
          with reached_texts(4) [of spec d] show ?thesis by (simp add: reached_def)
        qed
        then show ?thesis ..
      qed
    qed
  qed
  then show ?thesis by blast
qed

section \<open>Normalised schemas\<close>

lemma resolve_fixed:
  assumes "resolve_schema n spec d = Inr e"
  shows "ref_target spec e = Inr None \<and> (\<forall>items. get e ''allOf'' \<noteq> JArr items)"
  using assms
proof (induction n arbitrary: d e)
  case (Suc n)
  from Suc.prems show ?case
  proof (cases rule: resolve_step)
    case (all_of items)
    from merge_all_cases [OF all_of(2), of "\<lambda>_. True"] Suc.IH show ?thesis by (auto simp: merged_fields)
  qed (auto dest: Suc.IH)
qed simp

lemma resolve_self:
  "ref_target spec e = Inr None \<Longrightarrow> (\<forall>items. get e ''allOf'' \<noteq> JArr items) \<Longrightarrow> resolve_schema (Suc n) spec e = Inr e"
  by (auto split: json.split)

lemma get_or_update: "get_or (AList.update k v d) j w = (if j = k then v else get_or d j w)"
  by (simp add: get_or_def map_of_update)

lemma get_or_delete: "get_or (AList.delete k d) j w = (if j = k then w else get_or d j w)"
  by (simp add: get_or_def AList.delete_conv)

definition alike :: "dict \<Rightarrow> dict \<Rightarrow> bool" where
  \<comment> \<open>the same fields, as far as references and parts go\<close>
  "alike e d \<longleftrightarrow> (\<forall>k. k \<noteq> ''type'' \<longrightarrow> k \<noteq> ''nullable'' \<longrightarrow> map_of e k = map_of d k)"

lemma alike_get: "alike e d \<Longrightarrow> k \<noteq> ''type'' \<Longrightarrow> k \<noteq> ''nullable'' \<Longrightarrow> get_or e k v = get_or d k v"
  by (simp add: alike_def get_or_def)

lemma alike_fields:
  assumes "alike e d"
  shows "parts e = parts d" "ref_target spec e = ref_target spec d" "get e ''allOf'' = get d ''allOf''"
  using assms alike_get [OF assms] by (simp_all add: parts_def ref_target_def get_def has_key_def alike_def)

lemma sole_non_null_member: "sole_non_null u = Some m \<Longrightarrow> \<exists>ms. u = JArr ms \<and> m \<in> set ms"
proof -
  assume u: "sole_non_null u = Some m"
  then obtain ms where ms: "u = JArr ms" by (cases u) (auto simp: sole_non_null_def)
  with u have "filter (\<lambda>m. \<not> is_null_type m) ms = [m]"
    by (simp add: sole_non_null_def split: list.split_asm if_split_asm)
  then have "m \<in> set (filter (\<lambda>m. \<not> is_null_type m) ms)" by simp
  with ms show ?thesis by auto
qed

lemma sole_non_null_parts: "sole_non_null (get d k) = Some m \<Longrightarrow> k = ''anyOf'' \<or> k = ''oneOf'' \<Longrightarrow> m \<in> parts d"
  by (auto simp: parts_def dest: sole_non_null_member)

lemma normalize_cases:
  assumes "normalize_nullable_schema d = (m, b)"
  shows "(\<exists>e. m = JObj e \<and> alike e d) \<or> m \<in> parts d"
proof -
  have alike: "alike (AList.delete ''nullable'' d) d" "alike (AList.update ''type'' t d) d" "alike d d" for t
    by (simp_all add: alike_def AList.delete_conv map_of_update)
  show ?thesis
    using assms unfolding normalize_nullable_schema_def
    by (auto simp: alike sole_non_null_parts split: if_split_asm json.split_asm option.split_asm)
qed

lemma normalized_cases:
  assumes "normalized_schema n spec d = Inr (f, b)"
  obtains d' m e where "resolve_schema n spec d = Inr d'" "normalize_nullable_schema d' = (m, b)" "m = JObj e" "resolve_schema n spec e = Inr f"
proof -
  from assms obtain d' where d': "resolve_schema n spec d = Inr d'"
    "(let (m, b) = normalize_nullable_schema d' in and_then (as_dict m) (\<lambda>e. and_then (resolve_schema n spec e) (\<lambda>f. Inr (f, b)))) = Inr (f, b)"
    unfolding normalized_schema_def and_then_Inr_iff by blast
  obtain m b' where m: "normalize_nullable_schema d' = (m, b')" by fastforce
  with d'(2) have e: "as_dict m = Inr e \<Longrightarrow> and_then (resolve_schema n spec e) (\<lambda>f. Inr (f, b')) = Inr (f, b)" for e
    by simp
  from d'(2) m obtain e where "m = JObj e" by (cases m) auto
  with e [of e] m d'(1) that show thesis by (auto simp: and_then_Inr_iff)
qed

lemma normalized_parts:
  assumes "well_ranked r spec" and "normalized_schema n spec d = Inr (f, b)" and "p \<in> parts f"
  shows "below r p (JObj d)"
  using assms(2)
proof (cases rule: normalized_cases)
  case (1 d' m e)
  from normalize_cases [OF 1(2)] 1(3) consider "alike e d'" | "JObj e \<in> parts d'" by auto
  then show ?thesis
  proof cases
    case 1
    note fixed = resolve_fixed [OF \<open>resolve_schema n spec d = Inr d'\<close>]
    obtain k where "n = Suc k" using \<open>resolve_schema n spec d = Inr d'\<close> by (cases n) auto
    with fixed resolve_self [of spec e k] 1 have "resolve_schema n spec e = Inr e" by (simp add: alike_fields)
    with \<open>resolve_schema n spec e = Inr f\<close> assms(3) 1 have "p \<in> parts d'" by (simp add: alike_fields)
    with assms(1) \<open>resolve_schema n spec d = Inr d'\<close> show ?thesis by (intro resolve_parts)
  next
    case 2
    with assms(1) \<open>resolve_schema n spec d = Inr d'\<close> have "below r (JObj e) (JObj d)" by (intro resolve_parts)
    moreover from assms(1) \<open>resolve_schema n spec e = Inr f\<close> assms(3) have "below r p (JObj e)" by (intro resolve_parts)
    ultimately show ?thesis by (rule below_trans [rotated])
  qed
qed

lemma reached_normalized:
  assumes "well_ranked r spec"
  shows "\<exists>n. reached (normalized_schema n spec d)"
proof -
  from resolve_reached [OF assms] obtain n where n: "reached (resolve_schema n spec d)" by blast
  define e where "e = (case resolve_schema n spec d of Inr d' \<Rightarrow> (case fst (normalize_nullable_schema d') of JObj e \<Rightarrow> e | _ \<Rightarrow> []) | _ \<Rightarrow> [])"
  from resolve_reached [OF assms] obtain m where m: "reached (resolve_schema m spec e)" by blast
  have "reached (normalized_schema (max n m) spec d)"
    unfolding normalized_schema_def resolve_reached_more [OF n max.cobounded1]
  proof (rule reached_and_then [OF n])
    fix d' assume d': "resolve_schema n spec d = Inr d'"
    obtain v b where v: "normalize_nullable_schema d' = (v, b)" by fastforce
    have "reached (and_then (as_dict v) (\<lambda>e. and_then (resolve_schema (max n m) spec e) (\<lambda>f. Inr (f, b))))"
    proof (cases v)
      case (JObj e')
      with v d' have "e = e'" by (simp add: e_def)
      with JObj resolve_reached_mono [OF m max.cobounded2] show ?thesis by (auto intro: reached_and_then)
    qed simp_all
    with v show "reached (let (m', b) = normalize_nullable_schema d' in and_then (as_dict m') (\<lambda>e. and_then (resolve_schema (max n m) spec e) (\<lambda>f. Inr (f, b))))"
      by simp
  qed
  then show ?thesis ..
qed

end
