(* ===== verification/SchemaTotal.thy ===== *)
theory SchemaTotal
  imports SchemaTermination
begin

text \<open>
  Every comparison of schemas whose references can be ranked is reached at some depth: the matching of
  union members stays within both lists, and the comparison descends into parts only.
\<close>

section \<open>Ranges of a matching\<close>

definition pairs_within :: "nat \<Rightarrow> nat \<Rightarrow> (nat \<times> nat) list \<Rightarrow> bool" where
  "pairs_within n m ps \<longleftrightarrow> (\<forall>(i, j)\<in>set ps. i < n \<and> j < m)"

lemma match_same_within:
  assumes "\<forall>(i, b)\<in>set bs. i < n" and "\<forall>(j, c)\<in>set cs. j < m" and "pairs_within n m ps"
  shows "pairs_within n m (match_same bs cs ps)"
  using assms
proof (induction bs cs ps rule: match_same.induct)
  case (2 i b bs cs ps)
  show ?case
  proof (cases "List.find (\<lambda>(j, c). um_identifier c = um_identifier b \<and> j \<notin> snd ` set ps) cs")
    case (Some q)
    obtain j c where q: "q = (j, c)" by fastforce
    with Some have "(j, c) \<in> set cs" by (auto simp: find_Some_iff in_set_conv_nth)
    with "2.prems" have "pairs_within n m (ps @ [(i, j)])" by (auto simp: pairs_within_def)
    with 2 Some q show ?thesis by simp
  qed (use 2 in simp)
qed simp

lemma match_cheapest_within:
  assumes "\<forall>(k, i, j)\<in>set ms. i < n \<and> j < m" and "pairs_within n m ps"
  shows "pairs_within n m (match_cheapest ms ps)"
  using assms by (induction ms ps rule: match_cheapest.induct) (auto simp: pairs_within_def)

lemma enumerate_index: "(i, x) \<in> set (List.enumerate 0 xs) \<longleftrightarrow> i < length xs \<and> xs ! i = x"
  by (auto simp: in_set_enumerate_eq)

lemma candidate_matches_within:
  assumes "candidate_matches cmp (List.enumerate 0 bs) (List.enumerate 0 cs) ps = Inr ms"
  shows "\<forall>(k, i, j)\<in>set ms. i < length bs \<and> j < length cs"
proof (rule ballI, clarify)
  fix k i j assume kij: "(k, i, j) \<in> set ms"
  note sets = collect_map_set [OF assms [unfolded candidate_matches_def]]
  from kij sets(1) obtain i' b where ib: "(i', b) \<in> set (List.enumerate 0 bs)"
    and inner: "(k, i, j) \<in> set (projr (if i' \<in> fst ` set ps then Inr [] else
       collect_map (\<lambda>(j, c). if j \<in> snd ` set ps then Inr [] else
         and_then (cmp (JObj (um_member b)) (JObj (um_member c))) (\<lambda>xs.
           if replacement_cost \<le> changes_cost xs then Inr [] else Inr [(changes_cost xs, i', j)])) (List.enumerate 0 cs)))"
    by fastforce
  from inner have free: "i' \<notin> fst ` set ps" by (auto split: if_split_asm)
  from sets(2) [OF ib] free obtain zs where zs: "collect_map (\<lambda>(j, c). if j \<in> snd ` set ps then Inr [] else
         and_then (cmp (JObj (um_member b)) (JObj (um_member c))) (\<lambda>xs.
           if replacement_cost \<le> changes_cost xs then Inr [] else Inr [(changes_cost xs, i', j)])) (List.enumerate 0 cs) = Inr zs"
    by auto
  with inner free have "(k, i, j) \<in> set zs" by simp
  with collect_map_set(1) [OF zs] obtain j' c where jc: "(j', c) \<in> set (List.enumerate 0 cs)"
    and one: "(k, i, j) \<in> set (projr (if j' \<in> snd ` set ps then Inr [] else
         and_then (cmp (JObj (um_member b)) (JObj (um_member c))) (\<lambda>xs.
           if replacement_cost \<le> changes_cost xs then Inr [] else Inr [(changes_cost xs, i', j')])))"
    by fastforce
  from collect_map_set(2) [OF zs jc] one have "i = i' \<and> j = j'"
    by (auto simp: and_then_Inr_iff split: if_split_asm)
  with ib jc show "i < length bs \<and> j < length cs" by (simp add: enumerate_index)
qed

section \<open>Reaching a result\<close>

definition reaching :: "comparer \<Rightarrow> json set \<Rightarrow> json set \<Rightarrow> bool" where
  "reaching cmp X Y \<longleftrightarrow> (\<forall>s i. \<forall>x\<in>X. \<forall>y\<in>Y. reached (cmp s i x y))"

lemma reached_members:
  assumes "reaching cmp ((\<lambda>u. JObj (um_member u)) ` set bs) ((\<lambda>u. JObj (um_member u)) ` set cs)"
  shows "reached (compare_members cmp s i u bs cs)"
proof -
  have cmp: "reached (cmp s i (JObj (um_member x)) (JObj (um_member y)))" if "x \<in> set bs" "y \<in> set cs" for s i x y
    using assms that by (auto simp: reaching_def)
  define same where "same = match_same (List.enumerate 0 bs) (List.enumerate 0 cs) []"
  have same: "pairs_within (length bs) (length cs) same"
    unfolding same_def by (rule match_same_within) (auto simp: enumerate_index pairs_within_def)
  have cands: "reached (candidate_matches (cmp s i) (List.enumerate 0 bs) (List.enumerate 0 cs) same)" for s i
    unfolding candidate_matches_def
    by (intro reached_collect_map) (auto simp: enumerate_index intro!: reached_collect_map reached_and_then cmp)
  have nth: "reached (collect_map (\<lambda>(k, j). cmp s (f k j) (JObj (um_member (bs ! k))) (JObj (um_member (cs ! j)))) ps)"
    if "pairs_within (length bs) (length cs) ps" for ps f
    by (rule reached_collect_map) (use that cmp in \<open>auto simp: pairs_within_def\<close>)
  have "pairs_within (length bs) (length cs) (match_cheapest (sort ms) same)"
    if "candidate_matches (cmp s i) (List.enumerate 0 bs) (List.enumerate 0 cs) same = Inr ms" for s i ms
    using candidate_matches_within [OF that] same by (intro match_cheapest_within) simp_all
  then show ?thesis
    unfolding compare_members_def Let_def same_def [symmetric] by (auto intro!: reached_and_then cands nth)
qed

lemma members_in_parts:
  assumes "collect_union_members n spec d k = Inr us" and "u \<in> set us" and "k = ''anyOf'' \<or> k = ''oneOf''"
  shows "JObj (um_member u) \<in> parts d"
proof -
  from assms(1) obtain xs where xs: "iterate (get_or d k (JArr [])) = Inr xs"
    "collect_map (\<lambda>m. case m of
       JObj e \<Rightarrow> and_then (union_member_identifier n spec e) (\<lambda>i. Inr [\<lparr> um_identifier = i, um_member = e \<rparr>])
     | _ \<Rightarrow> Inr []) xs = Inr us"
    by (auto simp: collect_union_members_def and_then_Inr_iff)
  from collect_map_set(1) [OF xs(2)] assms(2) obtain m where m: "m \<in> set xs"
    "u \<in> set (projr (case m of JObj e \<Rightarrow> and_then (union_member_identifier n spec e) (\<lambda>i. Inr [\<lparr> um_identifier = i, um_member = e \<rparr>]) | _ \<Rightarrow> Inr []))"
    by auto
  from collect_map_set(2) [OF xs(2) m(1)] m(2) have e: "m = JObj (um_member u)"
    by (cases m) (auto simp: and_then_Inr_iff)
  with m(1) xs(1) have "get_or d k (JArr []) = JArr xs"
    by (cases "get_or d k (JArr [])") auto
  with m(1) e have "get d k = JArr xs" by (cases "map_of d k") (auto simp: get_def get_or_def)
  with m(1) e assms(3) show ?thesis by (auto simp: parts_def)
qed

definition resolving :: "nat \<Rightarrow> dict \<Rightarrow> json set \<Rightarrow> bool" where
  "resolving n spec X \<longleftrightarrow> (\<forall>d. JObj d \<in> X \<longrightarrow> reached (resolve_schema n spec d))"

lemma iterated_object: "iterate v = Inr xs \<Longrightarrow> JObj e \<in> set xs \<Longrightarrow> v = JArr xs"
  by (cases v) auto

lemma reached_collect_members:
  assumes "resolving n spec (parts d)" and "k = ''anyOf'' \<or> k = ''oneOf''"
  shows "reached (collect_union_members n spec d k)"
proof -
  have "reached (union_member_identifier n spec e)" if "iterate (get_or d k (JArr [])) = Inr xs" "JObj e \<in> set xs" for xs e
  proof -
    from iterated_object [OF that] that(2) have "get d k = JArr xs"
      by (cases "map_of d k") (auto simp: get_def get_or_def)
    with assms that(2) have "reached (resolve_schema n spec e)" by (auto simp: resolving_def parts_def)
    then show ?thesis by (auto simp: union_member_identifier_def intro!: reached_and_then split: json.split)
  qed
  then show ?thesis
    by (auto simp: collect_union_members_def intro!: reached_and_then reached_collect_map split: json.split)
qed

lemma reached_union:
  assumes "reaching cmp (parts b) (parts c)" and "union_kind b \<noteq> None"
    and "resolving n bspec (parts b)" and "resolving n cspec (parts c)"
  shows "reached (compare_union_schema n cmp s i bspec b cspec c)"
proof -
  from assms(2) obtain k where k: "union_kind b = Some k" "k = ''anyOf'' \<or> k = ''oneOf''"
    by (auto simp: union_kind_def split: if_split_asm)
  have "reached (compare_members cmp s i k bs cs)"
    if "collect_union_members n bspec b k = Inr bs" "collect_union_members n cspec c k = Inr cs" for bs cs
    using assms(1) members_in_parts [OF that(1) _ k(2)] members_in_parts [OF that(2) _ k(2)]
    by (intro reached_members) (auto simp: reaching_def)
  then have "reached (and_then (collect_union_members n bspec b k) (\<lambda>bs. and_then (collect_union_members n cspec c k) (compare_members cmp s i k bs)))"
    by (intro reached_and_then reached_collect_members assms(3,4) k(2))
  with k show ?thesis
    by (cases "union_kind c = Some k") (simp_all add: compare_union_schema_def)
qed

lemma field_in_parts:
  "as_dict (get_or d ''properties'' (JObj [])) = Inr ps \<Longrightarrow> (k, v) \<in> set ps \<Longrightarrow> v \<in> parts d"
  by (cases "get_or d ''properties'' (JObj [])") (auto simp: parts_def intro: rev_image_eqI)

lemma reached_object:
  assumes "reaching cmp (parts b) (parts c)"
  shows "reached (compare_object_schema cmp s i dir b c)"
proof -
  have "reached (property_changes cmp s i dir breq creq cps (k, v))"
    if "as_dict (get_or b ''properties'' (JObj [])) = Inr bps" "as_dict (get_or c ''properties'' (JObj [])) = Inr cps" "(k, v) \<in> set bps"
    for bps cps breq creq k v
    using assms field_in_parts [OF that(1,3)] field_in_parts [OF that(2) map_of_SomeD]
    by (auto simp: property_changes_def reaching_def intro!: reached_and_then split: option.split)
  then show ?thesis
    unfolding compare_object_schema_def by (auto intro!: reached_and_then reached_collect_map)
qed

lemma reached_plain: "reached (compare_plain_schema s i b0 b c0 c)"
  by (auto simp: compare_plain_schema_def Let_def enum_values_def intro!: reached_and_then)

lemma reached_resolved:
  assumes "reaching cmp (parts b) (parts c)" and "resolving n bspec (parts b)" and "resolving n cspec (parts c)"
  shows "reached (compare_resolved n cmp s i dir bspec b0 b cspec c0 c)"
proof (cases "union_kind b = None \<and> union_kind c \<noteq> None")
  case True
  then show ?thesis by (auto simp: compare_resolved_def compare_union_schema_def)
next
  case False
  have "reached (cmp s (i @ ''[]'') (get b ''items'') (get c ''items''))"
    using assms(1) by (simp add: reaching_def parts_def)
  with False show ?thesis
    unfolding compare_resolved_def
    by (auto intro!: reached_and_then reached_union reached_object reached_plain assms)
qed

section \<open>The comparison ends\<close>

lemma resolving_reached:
  assumes "well_ranked r spec" and "finite X"
  shows "\<exists>n. \<forall>m\<ge>n. resolving m spec X"
proof -
  have "\<exists>n. \<forall>x\<in>X. \<forall>d. x = JObj d \<longrightarrow> reached (resolve_schema n spec d)"
  proof (rule enough_for_all [OF assms(2)])
    show "\<exists>n. \<forall>d. x = JObj d \<longrightarrow> reached (resolve_schema n spec d)" for x
      using resolve_reached [OF assms(1)] by (cases x) auto
  qed (auto intro: resolve_reached_mono)
  then obtain n where "\<forall>d. JObj d \<in> X \<longrightarrow> reached (resolve_schema n spec d)" by blast
  then show ?thesis by (auto simp: resolving_def intro!: exI [of _ n] elim: resolve_reached_mono)
qed

lemma reached_mono: "reached (compare_schema n dir bspec cspec s i x y) \<Longrightarrow> n \<le> m \<Longrightarrow> reached (compare_schema m dir bspec cspec s i x y)"
  using reached_more [of n dir bspec cspec s i x y m] by simp

lemma reaching_all:
  assumes "finite X" and "finite Y"
    and "\<And>x y. x \<in> X \<Longrightarrow> y \<in> Y \<Longrightarrow> \<exists>n. \<forall>s i. reached (compare_schema n dir bspec cspec s i x y)"
  shows "\<exists>n. \<forall>m\<ge>n. reaching (\<lambda>s i x y. compare_schema m dir bspec cspec s i x y) X Y"
proof -
  from assms(1,2) have "finite (X \<times> Y)" by simp
  then have "\<exists>n. \<forall>p\<in>X \<times> Y. \<forall>s i. reached (compare_schema n dir bspec cspec s i (fst p) (snd p))"
    using assms(3) by (rule enough_for_all) (auto simp: mem_Times_iff intro: reached_mono)
  then obtain n where "\<forall>p\<in>X \<times> Y. \<forall>s i. reached (compare_schema n dir bspec cspec s i (fst p) (snd p))" ..
  then have "\<forall>m\<ge>n. reaching (\<lambda>s i x y. compare_schema m dir bspec cspec s i x y) X Y"
    unfolding reaching_def by (intro allI impI ballI) (rule reached_mono [of n], auto)
  then show ?thesis ..
qed

definition normal_form :: "nat \<Rightarrow> dict \<Rightarrow> dict \<Rightarrow> dict" where
  "normal_form n spec d = (case normalized_schema n spec d of Inr (f, _) \<Rightarrow> f | _ \<Rightarrow> [])"

lemma normal_form_parts:
  assumes "well_ranked r spec" and "p \<in> parts (normal_form n spec d)"
  shows "p = JNull \<or> below r p (JObj d)"
proof (cases "normalized_schema n spec d")
  case (Inr f)
  then show ?thesis
    using assms normalized_parts [OF assms(1), of n d "fst f" "snd f" p] by (cases f) (auto simp: normal_form_def)
next
  case (Inl e)
  with assms(2) show ?thesis by (auto simp: normal_form_def parts_def get_def get_or_def)
qed

lemma objects_end:
  assumes "well_ranked r bspec" and "well_ranked r' cspec"
    and "reached (normalized_schema n1 bspec b0)" and "reached (normalized_schema n2 cspec c0)"
    and "\<And>p q. p \<in> parts (normal_form n1 bspec b0) \<Longrightarrow> q \<in> parts (normal_form n2 cspec c0) \<Longrightarrow>
      \<exists>n. \<forall>s i. reached (compare_schema n dir bspec cspec s i p q)"
  shows "\<exists>n. \<forall>s i. reached (compare_schema n dir bspec cspec s i (JObj b0) (JObj c0))"
proof -
  let ?b = "normal_form n1 bspec b0" and ?c = "normal_form n2 cspec c0"
  from reaching_all [OF finite_parts finite_parts assms(5)] obtain n3 where
    n3: "\<forall>m\<ge>n3. reaching (\<lambda>s i x y. compare_schema m dir bspec cspec s i x y) (parts ?b) (parts ?c)" by blast
  from resolving_reached [OF assms(1) finite_parts] obtain n4 where n4: "\<forall>m\<ge>n4. resolving m bspec (parts ?b)" by blast
  from resolving_reached [OF assms(2) finite_parts] obtain n5 where n5: "\<forall>m\<ge>n5. resolving m cspec (parts ?c)" by blast
  define n where "n = n1 + n2 + n3 + n4 + n5"
  have norm: "normalized_schema n bspec b0 = normalized_schema n1 bspec b0" "normalized_schema n cspec c0 = normalized_schema n2 cspec c0"
    using approx_reached [OF normalized_more assms(3), of "n - n1"] approx_reached [OF normalized_more assms(4), of "n - n2"]
    by (simp_all add: n_def ac_simps)
  have resolved: "reached (compare_resolved n (\<lambda>s i x y. compare_schema n dir bspec cspec s i x y) s i dir bspec b0 ?b cspec c0 ?c)" for s i
    using n3 n4 n5 by (intro reached_resolved) (simp_all add: n_def)
  have "reached (compare_schema (Suc n) dir bspec cspec s i (JObj b0) (JObj c0))" for s i
    using assms(3,4) resolved by (auto intro!: reached_and_then simp: normal_form_def norm)
  then show ?thesis by blast
qed

lemma schema_comparison_ends:
  assumes "well_ranked r bspec" and "well_ranked r' cspec"
  shows "\<exists>n. \<forall>s i. reached (compare_schema n dir bspec cspec s i x y)"
proof (induction x arbitrary: y rule: wf_induct_rule [OF wf_below [of r]])
  case (1 x)
  have ends: "\<exists>n. \<forall>s i. reached (compare_schema n dir bspec cspec s i p q)" if "p = JNull \<or> below r p x" for p q
  proof (cases "p = JNull")
    case True
    then have "reached (compare_schema (Suc 0) dir bspec cspec s i p q)" for s i by simp
    then show ?thesis by blast
  next
    case False
    with that have "(p, x) \<in> {(x, y). below r x y}" by simp
    then show ?thesis by (rule 1)
  qed
  show ?case
  proof (cases "\<exists>b0 c0. x = JObj b0 \<and> y = JObj c0")
    case False
    then have "reached (compare_schema (Suc 0) dir bspec cspec s i x y)" for s i
      by (cases x; cases y) simp_all
    then show ?thesis by blast
  next
    case True
    then obtain b0 c0 where xy: "x = JObj b0" "y = JObj c0" by blast
    from reached_normalized [OF assms(1)] obtain n1 where n1: "reached (normalized_schema n1 bspec b0)" by blast
    from reached_normalized [OF assms(2)] obtain n2 where n2: "reached (normalized_schema n2 cspec c0)" by blast
    show ?thesis
      unfolding xy
    proof (rule objects_end [OF assms n1 n2])
      fix p q assume "p \<in> parts (normal_form n1 bspec b0)"
      from normal_form_parts [OF assms(1) this] xy(1) have "p = JNull \<or> below r p x" by simp
      then show "\<exists>n. \<forall>s i. reached (compare_schema n dir bspec cspec s i p q)" by (rule ends)
    qed
  qed
qed

end
