(* ===== verification/PublicationCompare.thy ===== *)
theory PublicationCompare
  imports Contracts
begin

text \<open>
  The comparison of publication contracts and UI descriptors
  (\<open>packages/platform/contract_compat/publication_compare.py\<close>).  Where the code appends to a list of
  changes, a function returns the changes it appends.
\<close>

section \<open>Single fields\<close>

definition compare_additive_text_metadata :: "string \<Rightarrow> string \<Rightarrow> string \<Rightarrow> json \<Rightarrow> json \<Rightarrow> contract_change list" where
  "compare_additive_text_metadata scope identifier field b c =
     (if py_eq b c then [] else [change ''additive'' scope identifier (field @ '' changed'')])"

definition compare_optional_metadata_field :: "string \<Rightarrow> string \<Rightarrow> string \<Rightarrow> json \<Rightarrow> json \<Rightarrow> contract_change list" where
  "compare_optional_metadata_field scope identifier field b c =
     (if py_eq b c then []
      else if b = JNull \<and> c \<noteq> JNull then [change ''additive'' scope identifier (field @ '' was added'')]
      else [change ''breaking'' scope identifier (if c \<noteq> JNull then field @ '' changed'' else field @ '' was removed'')])"

definition compare_boolean_capability :: "string \<Rightarrow> string \<Rightarrow> string \<Rightarrow> json \<Rightarrow> json \<Rightarrow> contract_change list" where
  "compare_boolean_capability scope identifier field b c =
     (if py_eq b c then []
      else [change (if truthy b \<and> \<not> truthy c then ''breaking'' else ''additive'') scope identifier
              (if truthy b \<and> \<not> truthy c then field @ '' was removed'' else field @ '' was added'')])"

definition compare_exact_field :: "string \<Rightarrow> string \<Rightarrow> string \<Rightarrow> json \<Rightarrow> json \<Rightarrow> contract_change list" where
  \<comment> \<open>the comparisons written in place: any difference is breaking\<close>
  "compare_exact_field scope identifier field b c =
     (if py_eq b c then [] else [change ''breaking'' scope identifier (field @ '' changed'')])"

definition compare_set_contract ::
  "string \<Rightarrow> string \<Rightarrow> string \<Rightarrow> json \<Rightarrow> json \<Rightarrow> string \<Rightarrow> string \<Rightarrow> compat_error + contract_change list" where
  "compare_set_contract scope identifier field b c removal addition =
     and_then (texts_or_none b) (\<lambda>bs. and_then (texts_or_none c) (\<lambda>cs. Inr
       (map (\<lambda>v. change ''breaking'' scope identifier (field @ '' `'' @ v @ ''` '' @ removal)) (missing_from bs cs) @
        map (\<lambda>v. change ''additive'' scope identifier (field @ '' `'' @ v @ ''` '' @ addition)) (missing_from cs bs))))"

definition compare_permission_contract :: "string \<Rightarrow> json \<Rightarrow> json \<Rightarrow> compat_error + contract_change list" where
  \<comment> \<open>a permission no longer required is additive, one newly required is breaking\<close>
  "compare_permission_contract key b c =
     and_then (texts_or_none b) (\<lambda>bs. and_then (texts_or_none c) (\<lambda>cs. Inr
       (map (\<lambda>v. change ''additive'' ''ui-descriptor'' key (''required permission `'' @ v @ ''` was removed'')) (missing_from bs cs) @
        map (\<lambda>v. change ''breaking'' ''ui-descriptor'' key (''required permission `'' @ v @ ''` was added'')) (missing_from cs bs))))"

definition compare_mapping_contract ::
  "string \<Rightarrow> string \<Rightarrow> string \<Rightarrow> json \<Rightarrow> json \<Rightarrow> string \<Rightarrow> string \<Rightarrow> string \<Rightarrow> string \<Rightarrow> string \<Rightarrow> string \<Rightarrow>
     compat_error + contract_change list" where
  "compare_mapping_contract scope identifier field b c addition removal changed
       changed_severity removed_severity added_severity =
     and_then (mapping_or_none b) (\<lambda>bd. and_then (mapping_or_none c) (\<lambda>cd. Inr
       (concat (map (\<lambda>(k, v). case map_of cd k of
            None \<Rightarrow> [change removed_severity scope identifier (field @ '' `'' @ k @ ''` '' @ removal)]
          | Some w \<Rightarrow> if py_eq w v then []
              else [change changed_severity scope identifier (field @ '' `'' @ k @ ''` '' @ changed)]) bd) @
        map (\<lambda>k. change added_severity scope identifier (field @ '' `'' @ k @ ''` '' @ addition))
          (missing_from (map fst cd) (map fst bd)))))"

section \<open>Versions\<close>

definition parse_major_version :: "json \<Rightarrow> int option" where
  \<comment> \<open>\<open>int(str(version).split('.', 1)[0])\<close>; the text of a boolean or container is no integer\<close>
  "parse_major_version v = (if \<not> truthy v then None
     else (case v of
       JStr s \<Rightarrow> py_int (before_first (CHR ''.'') s)
     | JNum n \<Rightarrow> py_int (int_text n)
     | _ \<Rightarrow> None))"

definition schema_version_major_bumped :: "json \<Rightarrow> json \<Rightarrow> bool" where
  "schema_version_major_bumped b c = (case (parse_major_version b, parse_major_version c) of
     (Some m, Some n) \<Rightarrow> m < n
   | _ \<Rightarrow> False)"

section \<open>Publications\<close>

definition compare_publication_metadata :: "string \<Rightarrow> dict \<Rightarrow> dict \<Rightarrow> compat_error + contract_change list" where
  "compare_publication_metadata key b c = collect
     [Inr (concat (map (\<lambda>f. compare_exact_field ''publication'' key f (get b f) (get c f))
        [''relation_name'', ''schema_name'', ''visibility'', ''retention_policy''])),
      Inr (if py_eq (get b ''lineage_required'') (get c ''lineage_required'') then []
        else if get b ''lineage_required'' = JBool False \<and> get c ''lineage_required'' = JBool True
          then [change ''breaking'' ''publication'' key ''lineage became required'']
        else [change ''additive'' ''publication'' key ''lineage is no longer required'']),
      Inr (compare_additive_text_metadata ''publication'' key ''display_name'' (get b ''display_name'') (get c ''display_name'')),
      Inr (compare_additive_text_metadata ''publication'' key ''description'' (get b ''description'') (get c ''description'')),
      compare_set_contract ''publication'' key ''supported_renderers''
        (get b ''supported_renderers'') (get c ''supported_renderers'')
        ''supported renderer was removed'' ''supported renderer was added'',
      compare_mapping_contract ''publication'' key ''renderer_hints'' (get b ''renderer_hints'') (get c ''renderer_hints'')
        ''renderer hint was added'' ''renderer hint was removed'' ''renderer hint changed''
        ''breaking'' ''breaking'' ''additive'']"

definition compare_column :: "string \<Rightarrow> dict \<Rightarrow> dict \<Rightarrow> contract_change list" where
  \<comment> \<open>one column present on both sides; \<open>i\<close> is its qualified name\<close>
  "compare_column i b c =
     compare_exact_field ''publication-column'' i ''storage_type'' (get b ''storage_type'') (get c ''storage_type'') @
     compare_exact_field ''publication-column'' i ''json_type'' (get b ''json_type'') (get c ''json_type'') @
     compare_additive_text_metadata ''publication-column'' i ''description'' (get b ''description'') (get c ''description'') @
     compare_exact_field ''publication-column'' i ''semantic_role'' (get b ''semantic_role'') (get c ''semantic_role'') @
     concat (map (\<lambda>f. compare_optional_metadata_field ''publication-column'' i f (get b f) (get c f))
       [''unit'', ''grain'', ''aggregation'']) @
     (if get b ''nullable'' = JBool True \<and> get c ''nullable'' = JBool False
        then [change ''breaking'' ''publication-column'' i ''column became non-nullable'']
      else if get b ''nullable'' = JBool False \<and> get c ''nullable'' = JBool True
        then [change ''additive'' ''publication-column'' i ''column became nullable'']
      else []) @
     concat (map (\<lambda>f. compare_boolean_capability ''publication-column'' i f (get b f) (get c f)) [''filterable'', ''sortable''])"

definition compare_publication_columns :: "string \<Rightarrow> dict \<Rightarrow> dict \<Rightarrow> compat_error + contract_change list" where
  "compare_publication_columns key b c =
     and_then (keyed ''name'' (get_or b ''columns'' (JArr []))) (\<lambda>bs.
     and_then (keyed ''name'' (get_or c ''columns'' (JArr []))) (\<lambda>cs. Inr
       (concat (map (\<lambda>(n, col). case map_of cs n of
            None \<Rightarrow> [change ''breaking'' ''publication-column'' (key @ ''.'' @ n) ''column was removed'']
          | Some col' \<Rightarrow> compare_column (key @ ''.'' @ n) col col') bs) @
        map (\<lambda>n. change ''additive'' ''publication-column'' (key @ ''.'' @ n) ''new column was added'')
          (missing_from (map fst cs) (map fst bs)))))"

definition compare_publication :: "string \<Rightarrow> dict \<Rightarrow> dict \<Rightarrow> compat_error + contract_change list" where
  "compare_publication key b c =
     and_then (compare_publication_metadata key b c) (\<lambda>xs.
     and_then (compare_publication_columns key b c) (\<lambda>ys. Inr (xs @ ys)))"

definition policy_warning :: "string \<Rightarrow> string" where
  "policy_warning key = ''Publication `'' @ key @
     ''` contains breaking contract changes without a major schema_version bump.''"

fun compare_publications ::
  "(string \<times> dict) list \<Rightarrow> (string \<times> dict) list \<Rightarrow> compat_error + (contract_change list \<times> string list)" where
  \<comment> \<open>the loop over the baseline's publications\<close>
  "compare_publications [] cands = Inr ([], [])"
| "compare_publications ((key, b) # rest) cands =
     and_then (case map_of cands key of
        None \<Rightarrow> Inr ([change ''breaking'' ''publication'' key ''publication contract was removed''], [])
      | Some c \<Rightarrow> and_then (compare_publication key b c) (\<lambda>xs. Inr (xs,
            if list_ex breaking xs \<and> \<not> schema_version_major_bumped (get b ''schema_version'') (get c ''schema_version'')
            then [policy_warning key] else [])))
     (\<lambda>(xs, ws). and_then (compare_publications rest cands) (\<lambda>(ys, vs). Inr (xs @ ys, ws @ vs)))"

section \<open>UI descriptors\<close>

definition compare_descriptor :: "string \<Rightarrow> dict \<Rightarrow> dict \<Rightarrow> compat_error + contract_change list" where
  "compare_descriptor key b c = collect
     [and_then (texts_of (get_or b ''publication_keys'' (JArr []))) (\<lambda>bs.
      and_then (texts_of (get_or c ''publication_keys'' (JArr []))) (\<lambda>cs. Inr
        (map (\<lambda>p. change ''breaking'' ''ui-descriptor'' key (''descriptor no longer references publication `'' @ p @ ''`'')) (missing_from bs cs) @
         map (\<lambda>p. change ''additive'' ''ui-descriptor'' key (''descriptor now references publication `'' @ p @ ''`'')) (missing_from cs bs)))),
      Inr (compare_exact_field ''ui-descriptor'' key ''nav_path'' (get b ''nav_path'') (get c ''nav_path'')),
      Inr (compare_exact_field ''ui-descriptor'' key ''kind'' (get b ''kind'') (get c ''kind'')),
      Inr (compare_additive_text_metadata ''ui-descriptor'' key ''nav_label'' (get b ''nav_label'') (get c ''nav_label'')),
      Inr (compare_additive_text_metadata ''ui-descriptor'' key ''icon'' (get b ''icon'') (get c ''icon'')),
      compare_set_contract ''ui-descriptor'' key ''supported_renderers''
        (get b ''supported_renderers'') (get c ''supported_renderers'')
        ''supported renderer was removed'' ''supported renderer was added'',
      compare_permission_contract key (get b ''required_permissions'') (get c ''required_permissions''),
      compare_mapping_contract ''ui-descriptor'' key ''renderer_hints'' (get b ''renderer_hints'') (get c ''renderer_hints'')
        ''renderer hint was added'' ''renderer hint was removed'' ''renderer hint changed''
        ''breaking'' ''breaking'' ''additive'',
      compare_mapping_contract ''ui-descriptor'' key ''default_filters'' (get b ''default_filters'') (get c ''default_filters'')
        ''default filter was added'' ''default filter was removed'' ''default filter changed''
        ''additive'' ''additive'' ''additive'']"

definition compare_ui_descriptors :: "json \<Rightarrow> json \<Rightarrow> compat_error + contract_change list" where
  "compare_ui_descriptors bs cs =
     and_then (keyed ''key'' bs) (\<lambda>base. and_then (keyed ''key'' cs) (\<lambda>cand.
     and_then (collect_map (\<lambda>(key, b). case map_of cand key of
          None \<Rightarrow> Inr [change ''breaking'' ''ui-descriptor'' key ''UI descriptor was removed'']
        | Some c \<Rightarrow> compare_descriptor key b c) base) (\<lambda>xs. Inr
       (xs @ map (\<lambda>key. change ''additive'' ''ui-descriptor'' key ''new UI descriptor was added'')
          (missing_from (map fst cand) (map fst base))))))"

section \<open>The comparison\<close>

definition compare_publication_contracts :: "dict \<Rightarrow> dict \<Rightarrow> compat_error + (contract_change list \<times> string list)" where
  "compare_publication_contracts baseline candidate =
     and_then (keyed ''publication_key'' (get_or baseline ''publication_contracts'' (JArr []))) (\<lambda>base.
     and_then (keyed ''publication_key'' (get_or candidate ''publication_contracts'' (JArr []))) (\<lambda>cand.
     and_then (compare_publications base cand) (\<lambda>(xs, ws).
     and_then (compare_ui_descriptors (get_or baseline ''ui_descriptors'' (JArr [])) (get_or candidate ''ui_descriptors'' (JArr []))) (\<lambda>ys. Inr
       (xs @ map (\<lambda>key. change ''additive'' ''publication'' key ''new publication contract was added'')
          (missing_from (map fst cand) (map fst base)) @ ys, ws)))))"

end
