(* ===== verification/OpenapiCompare.thy ===== *)
theory OpenapiCompare
  imports SchemaCompare PublicationCompare
begin

text \<open>
  The comparison of OpenAPI documents (\<open>packages/platform/contract_compat/openapi_compare.py\<close>) and
  the compatibility report (\<open>packages/platform/contract_compat/report.py\<close>).
\<close>

section \<open>Operations\<close>

definition HTTP_METHODS :: "string list" where
  "HTTP_METHODS = [''get'', ''put'', ''post'', ''patch'', ''delete'', ''options'', ''head'']"

definition upper_method :: "string \<Rightarrow> string" where
  \<comment> \<open>\<open>method.upper()\<close> of a method in the table, whose letters are ASCII\<close>
  "upper_method m = map upper_char m"

definition collect_operations :: "dict \<Rightarrow> compat_error + (string \<times> dict) list" where
  "collect_operations spec = and_then (as_dict (get_or spec ''paths'' (JObj []))) (\<lambda>paths. Inr (dict_of
     (concat (map (\<lambda>(path, item). case item of
        JObj methods \<Rightarrow> concat (map (\<lambda>(m, operation). case operation of
            JObj d \<Rightarrow> if lower m \<in> set HTTP_METHODS then [(upper_method m @ '' '' @ path, d)] else []
          | _ \<Rightarrow> []) methods)
      | _ \<Rightarrow> []) paths))))"

section \<open>References\<close>

definition resolve_component :: "string \<Rightarrow> dict \<Rightarrow> dict \<Rightarrow> compat_error + json" where
  \<comment> \<open>\<open>_resolve_parameter\<close>, \<open>_resolve_request_body\<close> and \<open>_resolve_response\<close> for their kind of component\<close>
  "resolve_component kind spec d = (if has_key d ''$ref'' then
       and_then (scalar_text (get d ''$ref'')) (\<lambda>r.
       and_then (as_dict (get_or spec ''components'' (JObj []))) (\<lambda>cs.
       and_then (as_dict (get_or cs kind (JObj []))) (\<lambda>ss. Inr (get_or ss (ref_name r) (JObj d)))))
     else Inr (JObj d))"

definition select_json_schema :: "json \<Rightarrow> compat_error + json" where
  "select_json_schema body = (if body = JNull then Inr JNull
     else and_then (as_dict body) (\<lambda>b. and_then (as_dict (get_or b ''content'' (JObj []))) (\<lambda>content. Inr
       (case List.find (\<lambda>m. case get content m of JObj mc \<Rightarrow> (case get mc ''schema'' of JObj _ \<Rightarrow> True | _ \<Rightarrow> False) | _ \<Rightarrow> False)
           [''application/json'', ''application/problem+json'', ''*/*''] of
          None \<Rightarrow> JNull
        | Some m \<Rightarrow> (case get content m of JObj mc \<Rightarrow> get mc ''schema'' | _ \<Rightarrow> JNull)))))"

section \<open>Parameters\<close>

definition parameter_map :: "dict \<Rightarrow> json \<Rightarrow> compat_error + ((string \<times> string) \<times> dict) list" where
  \<comment> \<open>parameters by name and place\<close>
  "parameter_map spec params = and_then (iterate params) (\<lambda>ps. and_then
     (collect_map (\<lambda>p. and_then (as_dict p) (\<lambda>d. and_then (resolve_component ''parameters'' spec d) (\<lambda>r.
        and_then (as_dict r) (\<lambda>e. and_then (as_text (get e ''name'')) (\<lambda>n. and_then (as_text (get e ''in'')) (\<lambda>i.
          Inr [((n, i), e)])))))) ps) (\<lambda>kvs. Inr (dict_of kvs)))"

definition parameter_identifier :: "string \<Rightarrow> string \<times> string \<Rightarrow> string" where
  "parameter_identifier operation key = operation @ '' parameter '' @ snd key @ '':'' @ fst key"

definition compare_parameters ::
  "nat \<Rightarrow> dict \<Rightarrow> dict \<Rightarrow> string \<Rightarrow> json \<Rightarrow> json \<Rightarrow> compat_error + contract_change list" where
  "compare_parameters n bspec cspec operation bps cps =
     and_then (parameter_map bspec bps) (\<lambda>bm. and_then (parameter_map cspec cps) (\<lambda>cm.
     and_then (collect_map (\<lambda>(key, b). case map_of cm key of
          None \<Rightarrow> Inr [change ''breaking'' ''route-parameter'' (parameter_identifier operation key) ''parameter was removed'']
        | Some c \<Rightarrow> and_then (compare_schema n ''request'' bspec cspec ''route-parameter'' (parameter_identifier operation key)
              (get b ''schema'') (get c ''schema'')) (\<lambda>xs. Inr
            ((if get b ''required'' = JBool False \<and> get c ''required'' = JBool True
              then [change ''breaking'' ''route-parameter'' (parameter_identifier operation key) ''parameter became required''] else []) @ xs)))
        bm) (\<lambda>xs. Inr
       (xs @ map (\<lambda>(key, c). if truthy (get c ''required'')
            then change ''breaking'' ''route-parameter'' (parameter_identifier operation key) ''new required parameter was added''
            else change ''additive'' ''route-parameter'' (parameter_identifier operation key) ''new optional parameter was added'')
          (filter (\<lambda>(key, c). map_of bm key = None) cm)))))"

section \<open>Request bodies and responses\<close>

definition resolve_optional :: "string \<Rightarrow> dict \<Rightarrow> json \<Rightarrow> compat_error + json" where
  "resolve_optional kind spec v = (if v = JNull then Inr JNull else and_then (as_dict v) (resolve_component kind spec))"

definition compare_request_bodies ::
  "nat \<Rightarrow> dict \<Rightarrow> dict \<Rightarrow> string \<Rightarrow> json \<Rightarrow> json \<Rightarrow> compat_error + contract_change list" where
  "compare_request_bodies n bspec cspec operation b c =
     and_then (resolve_optional ''requestBodies'' bspec b) (\<lambda>bb. and_then (resolve_optional ''requestBodies'' cspec c) (\<lambda>cb.
       if bb = JNull \<and> cb = JNull then Inr []
       else if bb = JNull then and_then (as_dict cb) (\<lambda>cd. Inr
         [change (if truthy (get cd ''required'') then ''breaking'' else ''additive'') ''route-request'' operation ''request body was added''])
       else if cb = JNull then Inr [change ''breaking'' ''route-request'' operation ''request body was removed'']
       else and_then (as_dict bb) (\<lambda>bd. and_then (as_dict cb) (\<lambda>cd.
            let br = truthy (get bd ''required''); cr = truthy (get cd ''required'') in
            and_then (select_json_schema bb) (\<lambda>bs. and_then (select_json_schema cb) (\<lambda>cs.
            and_then (compare_schema n ''request'' bspec cspec ''route-request'' operation bs cs) (\<lambda>xs. Inr
              ((if \<not> br \<and> cr then [change ''breaking'' ''route-request'' operation ''request body became required'']
                else if br \<and> \<not> cr then [change ''additive'' ''route-request'' operation ''request body became optional'']
                else []) @ xs))))))))"

definition success_responses :: "json \<Rightarrow> compat_error + dict" where
  "success_responses rs = and_then (as_dict rs) (\<lambda>d. Inr (filter (\<lambda>(code, _). prefix ''2'' code) d))"

definition response_schema :: "dict \<Rightarrow> json \<Rightarrow> compat_error + json" where
  "response_schema spec r = and_then (as_dict r) (\<lambda>d. and_then (resolve_component ''responses'' spec d) select_json_schema)"

definition compare_responses ::
  "nat \<Rightarrow> dict \<Rightarrow> dict \<Rightarrow> string \<Rightarrow> json \<Rightarrow> json \<Rightarrow> compat_error + contract_change list" where
  "compare_responses n bspec cspec operation b c =
     and_then (success_responses b) (\<lambda>bs. and_then (success_responses c) (\<lambda>cs.
     and_then (collect_map (\<lambda>(code, r). case map_of cs code of
          None \<Rightarrow> Inr [change ''breaking'' ''route-response'' (operation @ '' '' @ code) ''success response code was removed'']
        | Some q \<Rightarrow> and_then (response_schema bspec r) (\<lambda>x. and_then (response_schema cspec q) (\<lambda>y.
            compare_schema n ''response'' bspec cspec ''route-response'' (operation @ '' '' @ code) x y))) bs) (\<lambda>xs. Inr
       (xs @ map (\<lambda>(code, _). change ''additive'' ''route-response'' (operation @ '' '' @ code) ''new success response code was added'')
          (filter (\<lambda>(code, _). map_of bs code = None) cs)))))"

definition compare_operation ::
  "nat \<Rightarrow> dict \<Rightarrow> dict \<Rightarrow> string \<Rightarrow> dict \<Rightarrow> dict \<Rightarrow> compat_error + contract_change list" where
  "compare_operation n bspec cspec operation b c = collect
     [compare_parameters n bspec cspec operation (get_or b ''parameters'' (JArr [])) (get_or c ''parameters'' (JArr [])),
      compare_request_bodies n bspec cspec operation (get b ''requestBody'') (get c ''requestBody''),
      compare_responses n bspec cspec operation (get_or b ''responses'' (JObj [])) (get_or c ''responses'' (JObj []))]"

definition compare_openapi_contracts :: "nat \<Rightarrow> dict \<Rightarrow> dict \<Rightarrow> compat_error + contract_change list" where
  \<comment> \<open>\<open>n\<close> is the depth to which schemas are compared\<close>
  "compare_openapi_contracts n baseline candidate =
     and_then (collect_operations baseline) (\<lambda>bs. and_then (collect_operations candidate) (\<lambda>cs.
     and_then (collect_map (\<lambda>key. case map_of cs key of
          None \<Rightarrow> Inr [change ''breaking'' ''route'' key ''route operation was removed'']
        | Some c \<Rightarrow> compare_operation n baseline candidate key (the (map_of bs key)) c)
        (sorted_unique (map fst bs))) (\<lambda>xs. Inr
       (xs @ map (\<lambda>key. change ''additive'' ''route'' key ''new route operation was added'')
          (missing_from (map fst cs) (map fst bs))))))"

section \<open>The report\<close>

record compatibility_report =
  rp_status :: string
  rp_baseline :: string
  rp_candidate :: string
  rp_breaking_changes :: "contract_change list"
  rp_additive_changes :: "contract_change list"
  rp_policy_warnings :: "string list"
  rp_summary :: string

definition capitalize :: "string \<Rightarrow> string" where
  "capitalize s = (case s of [] \<Rightarrow> [] | c # cs \<Rightarrow> upper_char c # lower cs)"

definition build_summary :: "string \<Rightarrow> nat \<Rightarrow> nat \<Rightarrow> string" where
  "build_summary status breaking_count additive_count =
     (if status = ''unchanged'' then ''No contract changes detected.''
      else if status = ''initial'' then ''No baseline contract artifacts were available for comparison.''
      else capitalize status @ '' contract changes detected: '' @ int_text (int breaking_count) @ '' breaking, '' @
        int_text (int additive_count) @ '' additive.'')"

definition build_contract_compatibility_report ::
  "nat \<Rightarrow> artifacts_snapshot option \<Rightarrow> artifacts_snapshot \<Rightarrow> string \<Rightarrow> string \<Rightarrow> compat_error + compatibility_report" where
  "build_contract_compatibility_report n baseline candidate baseline_label candidate_label = (case baseline of
     None \<Rightarrow> Inr \<lparr> rp_status = ''initial'', rp_baseline = baseline_label, rp_candidate = candidate_label,
       rp_breaking_changes = [], rp_additive_changes = [], rp_policy_warnings = [],
       rp_summary = ''No baseline contract artifacts were available for comparison.'' \<rparr>
   | Some b \<Rightarrow>
       and_then (compare_openapi_contracts n (af_openapi b) (af_openapi candidate)) (\<lambda>xs.
       and_then (compare_publication_contracts (af_publication_contracts b) (af_publication_contracts candidate)) (\<lambda>(ys, ws).
       let changes = xs @ ys;
           bs = filter (\<lambda>c. ch_severity c = ''breaking'') changes;
           ads = filter (\<lambda>c. ch_severity c = ''additive'') changes;
           status = (if bs \<noteq> [] then ''breaking'' else if ads \<noteq> [] then ''additive'' else ''unchanged'')
       in Inr \<lparr> rp_status = status, rp_baseline = baseline_label, rp_candidate = candidate_label,
            rp_breaking_changes = bs, rp_additive_changes = ads, rp_policy_warnings = ws,
            rp_summary = build_summary status (length bs) (length ads) \<rparr>)))"

definition report_lines :: "contract_change list \<Rightarrow> string list" where
  "report_lines xs = (if xs = [] then [''- None'']
     else map (\<lambda>c. ''- `'' @ ch_scope c @ ''` `'' @ ch_identifier c @ ''`: '' @ ch_detail c) xs)"

definition build_markdown_summary :: "compatibility_report \<Rightarrow> string" where
  "build_markdown_summary r = join_texts [char_of (10 :: nat)]
     ([''# Contract Compatibility Summary'', [],
       ''- Status: `'' @ rp_status r @ ''`'', ''- Baseline: `'' @ rp_baseline r @ ''`'',
       ''- Candidate: `'' @ rp_candidate r @ ''`'', ''- Summary: '' @ rp_summary r, [], ''## Breaking Changes''] @
      report_lines (rp_breaking_changes r) @ [[], ''## Additive Changes''] @
      report_lines (rp_additive_changes r) @ [[], ''## Policy Warnings''] @
      (if rp_policy_warnings r = [] then [''- None''] else map (\<lambda>w. ''- '' @ w) (rp_policy_warnings r)) @ [[]])"

end
