(* ===== verification/ContractEnds.thy ===== *)
theory ContractEnds
  imports SchemaTotal OpenapiCompare
begin

text \<open>
  Depth of whole reports: a computation settles when its result no longer depends on the depth; the
  report of two documents with ranked references does, and a component that refers to itself is never
  compared with another.
\<close>

section \<open>Settling\<close>

definition settles :: "(nat \<Rightarrow> compat_error + 'a) \<Rightarrow> bool" where
  "settles f \<longleftrightarrow> (\<exists>n r. reached r \<and> (\<forall>m\<ge>n. f m = r))"

named_theorems settles_intros \<open>computations that settle\<close>

lemma settles_const [settles_intros]: "reached r \<Longrightarrow> settles (\<lambda>_. r)"
  by (auto simp: settles_def)

lemma settles_and_then [settles_intros]:
  assumes "settles f" and "\<And>x. settles (\<lambda>n. g n x)"
  shows "settles (\<lambda>n. and_then (f n) (g n))"
proof -
  from assms(1) obtain n r where f: "reached r" "\<forall>m\<ge>n. f m = r" by (auto simp: settles_def)
  show ?thesis
  proof (cases r)
    case (Inl e)
    with f show ?thesis by (auto simp: settles_def reached_def intro!: exI [of _ n] exI [of _ "Inl e"])
  next
    case (Inr x)
    from assms(2) [of x] obtain k q where g: "reached q" "\<forall>m\<ge>k. g m x = q" unfolding settles_def by blast
    have "\<forall>m\<ge>max n k. and_then (f m) (g m) = q" using f g Inr by simp
    with g(1) show ?thesis unfolding settles_def by blast
  qed
qed

lemma settles_collect_map [settles_intros]:
  assumes "\<And>x. settles (\<lambda>n. f n x)"
  shows "settles (\<lambda>n. collect_map (f n) xs)"
  by (induction xs) (auto intro!: settles_intros assms)

lemma settles_if [settles_intros]: "settles f \<Longrightarrow> settles g \<Longrightarrow> settles (\<lambda>n. if p then f n else g n)"
  by (cases p) simp_all

lemma settles_option [settles_intros]:
  "settles f \<Longrightarrow> (\<And>x. settles (\<lambda>n. g n x)) \<Longrightarrow> settles (\<lambda>n. case p of None \<Rightarrow> f n | Some x \<Rightarrow> g n x)"
  by (cases p) simp_all

lemma settles_prod [settles_intros]: "(\<And>x y. settles (\<lambda>n. f n x y)) \<Longrightarrow> settles (\<lambda>n. case p of (x, y) \<Rightarrow> f n x y)"
  by (cases p) simp

lemma settles_let [settles_intros]: "(\<And>x. settles (\<lambda>n. f n x)) \<Longrightarrow> settles (\<lambda>n. Let p (f n))"
  by (simp add: Let_def)

lemma settles_schema:
  assumes "well_ranked r bspec" and "well_ranked r' cspec"
  shows "settles (\<lambda>n. compare_schema n dir bspec cspec s i x y)"
proof -
  from schema_comparison_ends [OF assms] obtain n where "reached (compare_schema n dir bspec cspec s i x y)" by blast
  then show ?thesis unfolding settles_def using reached_more by blast
qed

section \<open>Documents\<close>

lemma reached_resolve_component [simp]: "reached (resolve_component kind spec d)"
  by (auto simp: resolve_component_def intro!: reached_and_then)

lemma reached_openapi_parts [simp]:
  "reached (select_json_schema v)" "reached (parameter_map spec ps)" "reached (resolve_optional kind spec v)"
  "reached (success_responses rs)" "reached (response_schema spec v)" "reached (collect_operations spec)"
  by (auto simp: select_json_schema_def parameter_map_def resolve_optional_def success_responses_def
      response_schema_def collect_operations_def intro!: reached_and_then reached_collect_map)

lemma settles_openapi:
  assumes "well_ranked r bspec" and "well_ranked r' cspec"
  shows "settles (\<lambda>n. compare_openapi_contracts n bspec cspec)"
  unfolding compare_openapi_contracts_def compare_operation_def collect_simps compare_parameters_def
    compare_request_bodies_def compare_responses_def
  by (intro settles_intros settles_schema [OF assms]) simp_all

lemma reached_keyed [simp]: "reached (keyed k v)"
  by (auto simp: keyed_def intro!: reached_and_then reached_collect_map)

lemma reached_contracts [simp]:
  "reached (compare_set_contract s i f b c rm ad)" "reached (compare_permission_contract k b c)"
  "reached (compare_mapping_contract s i f b c ad rm ch cs rs es)"
  by (auto simp: compare_set_contract_def compare_permission_contract_def compare_mapping_contract_def
      texts_or_none_def mapping_or_none_def intro!: reached_and_then)

lemma reached_publication [simp]: "reached (compare_publication k b c)"
  by (auto simp: compare_publication_def compare_publication_metadata_def compare_publication_columns_def intro!: reached_and_then)

lemma reached_publications [simp]: "reached (compare_publications bs cs)"
  by (induction bs cs rule: compare_publications.induct) (auto intro!: reached_and_then split: option.split)

lemma reached_publication_contracts [simp]: "reached (compare_publication_contracts b c)"
  by (auto simp: compare_publication_contracts_def compare_ui_descriptors_def compare_descriptor_def
      intro!: reached_and_then reached_collect_map split: option.split)

lemma settles_report:
  assumes "\<And>b. baseline = Some b \<Longrightarrow> well_ranked r (af_openapi b)" and "well_ranked r' (af_openapi candidate)"
  shows "settles (\<lambda>n. build_contract_compatibility_report n baseline candidate bl cl)"
proof (cases baseline)
  case (Some b)
  from settles_openapi [OF assms(1) [OF Some] assms(2)] show ?thesis
    unfolding build_contract_compatibility_report_def Some option.case by (intro settles_intros) (simp_all add: settles_const)
qed (simp add: build_contract_compatibility_report_def settles_const)

section \<open>Components that refer to themselves\<close>

definition refers_to :: "string \<Rightarrow> dict \<Rightarrow> bool" where
  "refers_to name d \<longleftrightarrow> (case get d ''$ref'' of JStr rf \<Rightarrow> ref_name rf = name | _ \<Rightarrow> False)"

definition plain_object :: "dict \<Rightarrow> bool" where
  \<comment> \<open>an object schema that is neither a reference nor a union nor nullable\<close>
  "plain_object t \<longleftrightarrow> has_key t ''properties'' \<and> (case get t ''type'' of JArr _ \<Rightarrow> False | _ \<Rightarrow> True) \<and>
     list_all (\<lambda>k. \<not> has_key t k) [''$ref'', ''allOf'', ''anyOf'', ''oneOf'', ''nullable'']"

definition self_reference :: "dict \<Rightarrow> string \<Rightarrow> string \<Rightarrow> bool" where
  \<comment> \<open>the component is an object one of whose properties is the component again\<close>
  "self_reference spec name k \<longleftrightarrow> (case component ''schemas'' spec name of
     Inr (JObj t) \<Rightarrow> plain_object t \<and> (case get t ''properties'' of
         JObj ps \<Rightarrow> (case map_of ps k of Some (JObj d) \<Rightarrow> refers_to name d | _ \<Rightarrow> False)
       | _ \<Rightarrow> False)
   | _ \<Rightarrow> False)"

lemma self_referenceE:
  assumes "self_reference spec name k"
  obtains t ps d where "component ''schemas'' spec name = Inr (JObj t)" "plain_object t"
    "get t ''properties'' = JObj ps" "map_of ps k = Some (JObj d)" "refers_to name d"
  using assms unfolding self_reference_def
  by (fastforce split: sum.split_asm json.split_asm option.split_asm)

lemma refers_to_target:
  assumes "refers_to name d" and "component ''schemas'' spec name = Inr (JObj t)"
  shows "ref_target spec d = Inr (Some t)"
proof -
  from assms(1) obtain rf where rf: "get d ''$ref'' = JStr rf" "ref_name rf = name"
    by (auto simp: refers_to_def split: json.split_asm)
  then have "has_key d ''$ref''" by (auto simp: get_def get_or_def has_key_def split: option.split_asm)
  with rf assms(2) show ?thesis by (simp add: ref_target_def scalar_text_def scalar_def)
qed

lemma plain_object_fixed:
  assumes "plain_object t"
  shows "ref_target spec t = Inr None" "get t ''allOf'' = JNull" "normalize_nullable_schema t = (JObj t, False)"
    "union_kind t = None" "schema_kind t = Inr ''object''" "get_or t ''properties'' v = get t ''properties''"
  using assms
  by (auto simp: plain_object_def has_key_def get_def get_or_def ref_target_def normalize_nullable_schema_def
      sole_non_null_def union_kind_def schema_kind_def split: json.split)

lemma normalized_reference:
  assumes "refers_to name d" and "component ''schemas'' spec name = Inr (JObj t)" and "plain_object t"
    and "normalized_schema n spec d = Inr (f, b)"
  shows "f = t"
proof -
  note fixed = plain_object_fixed [OF assms(3)]
  from assms(4) obtain m where n: "n = Suc m" unfolding normalized_schema_def by (cases n) auto
  note target = refers_to_target [OF assms(1,2)]
  have one: "resolve_schema m spec t = Inr e \<Longrightarrow> e = t" for e
    by (cases m) (use fixed in auto)
  have two: "resolve_schema n spec t = Inr t" unfolding n using fixed by (intro resolve_self) auto
  from assms(4) show ?thesis
  proof (cases rule: normalized_cases)
    case (1 d' m' e)
    from 1(1) target n have "resolve_schema m spec t = Inr d'" by simp
    with one have "d' = t" by blast
    with 1 fixed two show ?thesis by simp
  qed
qed

lemma self_reference_recurs:
  assumes "self_reference bspec name k" and "self_reference cspec name' k"
    and "refers_to name d" and "refers_to name' e"
  shows "compare_schema n dir bspec cspec s i (JObj d) (JObj e) \<noteq> Inr xs"
  using assms(3,4)
proof (induction n arbitrary: s i d e xs)
  case (Suc n)
  from assms(1) obtain t ps d1 where b: "component ''schemas'' bspec name = Inr (JObj t)" "plain_object t"
    "get t ''properties'' = JObj ps" "map_of ps k = Some (JObj d1)" "refers_to name d1" by (rule self_referenceE)
  from assms(2) obtain u qs e1 where c: "component ''schemas'' cspec name' = Inr (JObj u)" "plain_object u"
    "get u ''properties'' = JObj qs" "map_of qs k = Some (JObj e1)" "refers_to name' e1" by (rule self_referenceE)
  note fixed = plain_object_fixed [OF b(2)] plain_object_fixed [OF c(2)]
  show ?case
  proof
    assume "compare_schema (Suc n) dir bspec cspec s i (JObj d) (JObj e) = Inr xs"
    then obtain f bn g cn ys where n: "normalized_schema n bspec d = Inr (f, bn)" "normalized_schema n cspec e = Inr (g, cn)"
      "compare_resolved n (\<lambda>s i x y. compare_schema n dir bspec cspec s i x y) s i dir bspec d f cspec e g = Inr ys"
      by (auto simp: and_then_Inr_iff)
    from n(1,2) b(1,2) c(1,2) Suc.prems have "f = t" "g = u" by (auto intro: normalized_reference)
    with n(3) fixed b(3) c(3) obtain breq creq zs where
      "collect_map (property_changes (\<lambda>s i x y. compare_schema n dir bspec cspec s i x y) s i dir breq creq qs) ps = Inr zs"
      by (auto simp: compare_resolved_def compare_object_schema_def and_then_Inr_iff)
    from collect_map_set(2) [OF this map_of_SomeD [OF b(4)]] c(4) obtain ws where
      "compare_schema n dir bspec cspec s (i @ ''.'' @ k) (JObj d1) (JObj e1) = Inr ws"
      by (auto simp: property_changes_def and_then_Inr_iff)
    with Suc.IH [OF b(5) c(5)] show False by blast
  qed
qed simp

end
