(* ===== verification/SameRelease.thy ===== *)
theory SameRelease
  imports SchemaTotal OpenapiCompare
begin

text \<open>
  A release compared with itself: no comparison reports a change.  The documents are parsed JSON, so
  no object has a key twice.
\<close>

section \<open>Parsed documents\<close>

fun unique_keys :: "json \<Rightarrow> bool" where
  "unique_keys (JObj d) \<longleftrightarrow> distinct (map fst d) \<and> list_all (\<lambda>(k, v). unique_keys v) d"
| "unique_keys (JArr xs) \<longleftrightarrow> list_all unique_keys xs"
| "unique_keys _ \<longleftrightarrow> True"

declare unique_keys.simps(1, 2) [simp del]

lemma unique_keys_field: "unique_keys (JObj d) \<Longrightarrow> (k, v) \<in> set d \<Longrightarrow> unique_keys v"
  by (auto simp: unique_keys.simps list_all_iff)

lemma unique_keys_distinct: "unique_keys (JObj d) \<Longrightarrow> distinct (map fst d)"
  by (simp add: unique_keys.simps)

lemma unique_keys_element: "unique_keys (JArr xs) \<Longrightarrow> x \<in> set xs \<Longrightarrow> unique_keys x"
  by (simp add: unique_keys.simps list_all_iff)

lemma unique_keys_Nil [simp]: "unique_keys (JObj [])" "unique_keys (JArr [])"
  by (simp_all add: unique_keys.simps)

lemma unique_keys_get_or: "unique_keys (JObj d) \<Longrightarrow> unique_keys v \<Longrightarrow> unique_keys (get_or d k v)"
  by (auto simp: get_or_def split: option.split dest: map_of_SomeD unique_keys_field)

lemma unique_keys_get: "unique_keys (JObj d) \<Longrightarrow> unique_keys (get d k)"
  by (simp add: get_def unique_keys_get_or)

lemma unique_keys_as_dict: "unique_keys v \<Longrightarrow> as_dict v = Inr d \<Longrightarrow> unique_keys (JObj d)"
  by (cases v) auto

lemma unique_keys_iterate: "unique_keys v \<Longrightarrow> iterate v = Inr xs \<Longrightarrow> x \<in> set xs \<Longrightarrow> unique_keys x"
  by (cases v) (auto dest: unique_keys_element)

lemma unique_keys_update: "unique_keys (JObj d) \<Longrightarrow> unique_keys v \<Longrightarrow> unique_keys (JObj (AList.update k v d))"
  using set_update [of k v d] distinct_update [of d k v] by (fastforce simp: unique_keys.simps list_all_iff)

lemma unique_keys_delete: "unique_keys (JObj d) \<Longrightarrow> unique_keys (JObj (AList.delete k d))"
  by (auto simp: unique_keys.simps list_all_iff AList.delete_eq distinct_map_filter)

lemma unique_keys_fold_update:
  assumes "unique_keys (JObj ps)" and "unique_keys (JObj d)"
  shows "unique_keys (JObj (fold (\<lambda>(k, v) d. AList.update k v d) ps d))"
  using assms
proof (induction ps arbitrary: d)
  case (Cons p ps)
  obtain k v where p: "p = (k, v)" by fastforce
  from Cons.prems(1) p have "unique_keys v" "unique_keys (JObj ps)" by (auto simp: unique_keys.simps)
  with Cons p show ?case by (simp add: unique_keys_update)
qed simp

section \<open>Resolved schemas\<close>

lemma unique_keys_component:
  assumes "unique_keys (JObj spec)" and "component kind spec name = Inr v"
  shows "unique_keys v"
proof -
  from assms(2) obtain cs ss where c: "as_dict (get_or spec ''components'' (JObj [])) = Inr cs"
    "as_dict (get_or cs kind (JObj [])) = Inr ss" "v = get ss name"
    by (auto simp: component_def and_then_Inr_iff)
  from unique_keys_as_dict [OF _ c(1)] assms(1) have "unique_keys (JObj cs)" by (simp add: unique_keys_get_or)
  with unique_keys_as_dict [OF _ c(2)] have "unique_keys (JObj ss)" by (simp add: unique_keys_get_or)
  with c(3) show ?thesis by (simp add: unique_keys_get)
qed

lemma unique_keys_ref_target:
  assumes "unique_keys (JObj spec)" and "ref_target spec d = Inr (Some t)"
  shows "unique_keys (JObj t)"
proof -
  from assms(2) obtain tv nm where "component ''schemas'' spec nm = Inr tv" "(case tv of JObj e \<Rightarrow> Some e | _ \<Rightarrow> None) = Some t"
    by (auto simp: ref_target_def and_then_Inr_iff split: if_split_asm)
  with unique_keys_component [OF assms(1)] show ?thesis by (cases tv) auto
qed

lemma unique_keys_merge:
  assumes "merge_all f items ps rs = Inr e" and "unique_keys (JObj ps)"
    and "\<And>i d. JObj i \<in> set items \<Longrightarrow> f i = Inr d \<Longrightarrow> unique_keys (JObj d)"
  shows "unique_keys (JObj e)"
  using assms
proof (induction items arbitrary: ps rs)
  case Nil
  then show ?case by (auto simp: unique_keys.simps list_all_iff)
next
  case (Cons item items)
  from Cons.prems(1) obtain i x k where i: "item = JObj i" "f i = Inr x" "schema_kind x = Inr k"
    by (cases item) (auto simp: and_then_Inr_iff)
  with Cons.prems(3) [of i x] have x: "unique_keys (JObj x)" by simp
  show ?case
  proof (cases "k = ''object''")
    case True
    with Cons.prems(1) i obtain qs qr where q: "as_dict (get_or x ''properties'' (JObj [])) = Inr qs"
      "merge_all f items (fold (\<lambda>(k, v) d. AList.update k v d) qs ps) (rs @ qr) = Inr e"
      by (auto simp: and_then_Inr_iff)
    from unique_keys_as_dict [OF _ q(1)] x have "unique_keys (JObj qs)" by (simp add: unique_keys_get_or)
    with Cons.prems(2) have "unique_keys (JObj (fold (\<lambda>(k, v) d. AList.update k v d) qs ps))"
      by (rule unique_keys_fold_update [rotated])
    from Cons.IH [OF q(2) this] Cons.prems(3) show ?thesis by (meson list.set_intros(2))
  qed (use Cons.prems(1) i x in auto)
qed

lemma unique_keys_resolve:
  assumes "unique_keys (JObj spec)" and "resolve_schema n spec d = Inr e" and "unique_keys (JObj d)"
  shows "unique_keys (JObj e)"
  using assms(2,3)
proof (induction n arbitrary: d e)
  case (Suc n)
  from Suc.prems(1) show ?case
  proof (cases rule: resolve_step)
    case (target t)
    with Suc.IH unique_keys_ref_target [OF assms(1)] show ?thesis by blast
  next
    case (all_of items)
    have "unique_keys (JObj i)" if "JObj i \<in> set items" for i
      using unique_keys_get [OF Suc.prems(2), of "''allOf''"] that all_of(1) by (auto dest: unique_keys_element)
    with Suc.IH show ?thesis by (intro unique_keys_merge [OF all_of(2)]) auto
  qed (use Suc.prems in simp)
qed simp

lemma unique_keys_parts:
  assumes "unique_keys (JObj d)" and "p \<in> parts d"
  shows "unique_keys p"
  using assms(2) unfolding parts_def
proof (elim UnE UN_E)
  assume "p \<in> (case get_or d ''properties'' (JObj []) of JObj ps \<Rightarrow> snd ` set ps | _ \<Rightarrow> {})"
  with unique_keys_get_or [OF assms(1) unique_keys_Nil(1), of "''properties''"] show ?thesis
    by (cases "get_or d ''properties'' (JObj [])") (auto dest: unique_keys_field)
next
  fix k assume "p \<in> (case get d k of JArr ms \<Rightarrow> set ms | _ \<Rightarrow> {})"
  with unique_keys_get [OF assms(1), of k] show ?thesis
    by (cases "get d k") (auto dest: unique_keys_element)
qed (simp add: unique_keys_get assms(1))

lemma unique_keys_normalize:
  assumes "normalize_nullable_schema d = (m, b)" and "unique_keys (JObj d)"
  shows "unique_keys m"
proof -
  have type: "unique_keys (JObj (AList.update ''type'' (case List.find P ts of None \<Rightarrow> JStr ''string'' | Some t \<Rightarrow> t) d))"
    if "get d ''type'' = JArr ts" for P ts
    using assms(2) unique_keys_element [of ts] unique_keys_get [OF assms(2), of "''type''"] that
    by (intro unique_keys_update) (auto simp: find_Some_iff split: option.split)
  have part: "unique_keys m" if "sole_non_null (get d k) = Some m" "k = ''anyOf'' \<or> k = ''oneOf''" for k m
    using sole_non_null_parts [OF that] assms(2) by (auto dest: unique_keys_parts)
  show ?thesis
    using assms part type [of _ "\<lambda>t. t \<noteq> JStr ''null''"] unfolding normalize_nullable_schema_def
    by (auto simp: unique_keys_delete split: if_split_asm json.split_asm option.split_asm simp del: option.case)
qed

lemma unique_keys_normalized:
  assumes "unique_keys (JObj spec)" and "normalized_schema n spec d = Inr (f, b)" and "unique_keys (JObj d)"
  shows "unique_keys (JObj f)"
  using assms(2)
proof (cases rule: normalized_cases)
  case (1 d' m e)
  with unique_keys_resolve [OF assms(1)] unique_keys_normalize [of d' m b] assms(3) show ?thesis by blast
qed

section \<open>No changes\<close>

definition quiet :: "compat_error + 'a list \<Rightarrow> bool" where
  "quiet r \<longleftrightarrow> (\<forall>xs. r = Inr xs \<longrightarrow> xs = [])"

named_theorems quiet_intros \<open>comparisons that report nothing\<close>

lemma quiet_Nil [quiet_intros, simp]: "quiet (Inr [])" and quiet_Inl [simp]: "quiet (Inl e)"
  by (simp_all add: quiet_def)

lemma quiet_and_then: "quiet r \<Longrightarrow> quiet (f []) \<Longrightarrow> quiet (and_then r f)"
  by (cases r) (auto simp: quiet_def)

lemma quiet_bind [quiet_intros]: "(\<And>x. r = Inr x \<Longrightarrow> quiet (f x)) \<Longrightarrow> quiet (and_then r f)"
  by (cases r) (auto simp: quiet_def)

lemma quiet_collect_map: "(\<And>x. x \<in> set xs \<Longrightarrow> quiet (f x)) \<Longrightarrow> quiet (collect_map f xs)"
  by (induction xs) (auto intro!: quiet_and_then)

lemma quiet_collect: "list_all quiet rs \<Longrightarrow> quiet (collect rs)"
  using quiet_collect_map [of rs id] by (simp add: collect_map_def list_all_iff)

lemma match_same_pairs:
  assumes "k \<le> length us"
  shows "match_same (drop k (List.enumerate 0 us)) (List.enumerate 0 us) (map (\<lambda>i. (i, i)) [0..<k]) = map (\<lambda>i. (i, i)) [0..<length us]"
  using assms
proof (induction "length us - k" arbitrary: k)
  case (Suc d)
  then have k: "k < length us" by simp
  define cs where "cs = List.enumerate 0 us"
  have nth: "cs ! i = (i, us ! i)" if "i < length us" for i
    using that by (simp add: cs_def nth_enumerate_eq)
  have len: "length cs = length us" by (simp add: cs_def)
  have "List.find (\<lambda>(j, c). um_identifier c = um_identifier (us ! k) \<and> j \<notin> {0..<k}) cs = Some (k, us ! k)"
    unfolding find_Some_iff using k len by (intro exI [of _ k]) (simp add: nth)
  moreover have "drop k cs = (k, us ! k) # drop (Suc k) cs"
    using k len nth by (simp add: Cons_nth_drop_Suc [symmetric])
  ultimately have "match_same (drop k cs) cs (map (\<lambda>i. (i, i)) [0..<k]) = match_same (drop (Suc k) cs) cs (map (\<lambda>i. (i, i)) [0..<Suc k])"
    by (simp add: image_image)
  moreover have "match_same (drop (Suc k) cs) cs (map (\<lambda>i. (i, i)) [0..<Suc k]) = map (\<lambda>i. (i, i)) [0..<length us]"
    unfolding cs_def using Suc.hyps k by (intro Suc.hyps(1)) simp_all
  ultimately show ?case by (simp add: cs_def)
qed (simp add: enumerate_eq_zip)

lemma same_members:
  assumes "\<And>u s i. u \<in> set us \<Longrightarrow> quiet (cmp s i (JObj (um_member u)) (JObj (um_member u)))"
  shows "quiet (compare_members cmp s i k us us)"
proof -
  let ?es = "List.enumerate 0 us"
  define ps where "ps = map (\<lambda>i. (i, i)) [0..<length us]"
  have same: "match_same ?es ?es [] = ps" using match_same_pairs [of 0 us] by (simp add: ps_def)
  have all: "fst ` set ps = {0..<length us}" "snd ` set ps = {0..<length us}" by (simp_all add: ps_def image_image)
  have "candidate_matches (cmp ''union-member'' ''<member>'') ?es ?es ps = Inr []"
    unfolding candidate_matches_def all by (rule collect_map_Nil) (auto simp: in_set_enumerate_eq)
  moreover have "quiet (collect_map (\<lambda>(a, b). cmp s (f a b) (JObj (um_member (us ! a))) (JObj (um_member (us ! b)))) ps)" for f
    using assms by (auto simp: ps_def intro!: quiet_collect_map)
  moreover have "filter (\<lambda>(a, b). a \<notin> {0..<length us}) ?es = []"
    by (auto simp: filter_empty_conv in_set_enumerate_eq)
  ultimately show ?thesis
    unfolding compare_members_def Let_def same by (simp add: all) (rule quiet_and_then, simp_all)
qed

lemma same_union:
  assumes "\<And>p s i. p \<in> parts d \<Longrightarrow> quiet (cmp s i p p)" and "union_kind d \<noteq> None"
  shows "quiet (compare_union_schema n cmp s i spec d spec d)"
proof -
  from assms(2) obtain k where k: "union_kind d = Some k" "k = ''anyOf'' \<or> k = ''oneOf''"
    by (auto simp: union_kind_def split: if_split_asm)
  have "quiet (compare_members cmp s i k us us)" if "collect_union_members n spec d k = Inr us" for us
    using assms(1) members_in_parts [OF that _ k(2)] by (intro same_members) simp
  then show ?thesis
    using k(1) by (cases "collect_union_members n spec d k") (simp_all add: compare_union_schema_def)
qed

lemma same_object:
  assumes "\<And>p s i. p \<in> parts d \<Longrightarrow> quiet (cmp s i p p)" and "unique_keys (JObj d)"
  shows "quiet (compare_object_schema cmp s i dir d d)"
proof -
  have "quiet (property_changes cmp s i dir rq rq ps (k, v))"
    if ps: "as_dict (get_or d ''properties'' (JObj [])) = Inr ps" and kv: "(k, v) \<in> set ps" for ps rq k v
  proof -
    from unique_keys_as_dict [OF _ ps] assms(2) have "distinct (map fst ps)"
      by (simp add: unique_keys_get_or unique_keys_distinct)
    with kv have "map_of ps k = Some v" by simp
    with assms(1) field_in_parts [OF ps kv] show ?thesis
      by (auto simp: property_changes_def intro!: quiet_and_then)
  qed
  then show ?thesis
    unfolding compare_object_schema_def
    by (cases "texts_of (get_or d ''required'' (JArr []))"; cases "as_dict (get_or d ''properties'' (JObj []))")
      (auto intro!: quiet_and_then quiet_collect_map)
qed

lemma same_resolved:
  assumes "\<And>p s i. p \<in> parts d \<Longrightarrow> quiet (cmp s i p p)" and "unique_keys (JObj d)"
  shows "quiet (compare_resolved n cmp s i dir spec d0 d spec d0 d)"
proof -
  have "get d ''items'' \<in> parts d" by (simp add: parts_def)
  moreover have "union_kind d \<noteq> None \<Longrightarrow> quiet (compare_union_schema n cmp s i spec d spec d)"
    by (rule same_union) (simp_all add: assms(1))
  moreover have "quiet (compare_object_schema cmp s i dir d d)"
    by (rule same_object) (simp_all add: assms)
  ultimately show ?thesis
    using assms(1)
    by (cases "schema_kind d") (simp_all add: compare_resolved_def compare_plain_schema_def Let_def)
qed

lemma same_schema:
  assumes "unique_keys (JObj spec)" and "unique_keys x"
  shows "quiet (compare_schema n dir spec spec s i x x)"
  using assms(2)
proof (induction n arbitrary: s i x)
  case (Suc n)
  show ?case
  proof (cases x)
    case (JObj d)
    have "quiet (and_then (compare_resolved n (compare_schema n dir spec spec) s i dir spec d f spec d f) (\<lambda>xs. Inr (nullability_changes s i dir b b @ xs)))"
      if "normalized_schema n spec d = Inr (f, b)" for f b
    proof (rule quiet_and_then)
      have f: "unique_keys (JObj f)" using unique_keys_normalized [OF assms(1) that] Suc.prems JObj by simp
      show "quiet (compare_resolved n (compare_schema n dir spec spec) s i dir spec d f spec d f)"
        using Suc.IH unique_keys_parts [OF f] f by (intro same_resolved) auto
    qed (simp add: nullability_changes_def)
    then show ?thesis
      unfolding JObj by (cases "normalized_schema n spec d") (auto split: prod.split)
  qed simp_all
qed simp

section \<open>Operations\<close>

lemma unique_keys_resolve_component:
  assumes "unique_keys (JObj spec)" and "resolve_component kind spec d = Inr v" and "unique_keys (JObj d)"
  shows "unique_keys v"
proof (cases "has_key d ''$ref''")
  case True
  with assms(2) obtain cs ss nm where c: "as_dict (get_or spec ''components'' (JObj [])) = Inr cs"
    "as_dict (get_or cs kind (JObj [])) = Inr ss" "v = get_or ss nm (JObj d)"
    by (auto simp: resolve_component_def and_then_Inr_iff)
  from unique_keys_as_dict [OF _ c(1)] assms(1) have "unique_keys (JObj cs)" by (simp add: unique_keys_get_or)
  with unique_keys_as_dict [OF _ c(2)] have "unique_keys (JObj ss)" by (simp add: unique_keys_get_or)
  with c(3) assms(3) show ?thesis by (simp add: unique_keys_get_or)
qed (use assms in \<open>auto simp: resolve_component_def\<close>)

lemma unique_keys_select:
  assumes "select_json_schema v = Inr x" and "unique_keys v"
  shows "unique_keys x"
proof (cases "v = JNull")
  case False
  define media where "media content = List.find (\<lambda>m. case get content m of JObj mc \<Rightarrow> (case get mc ''schema'' of JObj _ \<Rightarrow> True | _ \<Rightarrow> False) | _ \<Rightarrow> False)
           [''application/json'', ''application/problem+json'', ''*/*'']" for content
  from assms(1) False obtain b content where c: "as_dict v = Inr b" "as_dict (get_or b ''content'' (JObj [])) = Inr content"
    "x = (case media content of None \<Rightarrow> JNull | Some m \<Rightarrow> (case get content m of JObj mc \<Rightarrow> get mc ''schema'' | _ \<Rightarrow> JNull))"
    unfolding select_json_schema_def media_def [symmetric] by (auto simp: and_then_Inr_iff)
  from unique_keys_as_dict [OF assms(2) c(1)] unique_keys_as_dict [OF _ c(2)] have "unique_keys (JObj content)"
    by (simp add: unique_keys_get_or)
  then have content: "unique_keys (get content m)" for m by (rule unique_keys_get)
  show ?thesis
  proof (cases "media content")
    case (Some m)
    with c(3) content [of m] show ?thesis by (cases "get content m") (simp_all add: unique_keys_get)
  qed (simp add: c(3))
qed (use assms in \<open>simp add: select_json_schema_def\<close>)

lemma filter_known [simp]: "filter (\<lambda>(k, v). map_of xs k = None) xs = []"
  by (force simp: filter_empty_conv map_of_eq_None_iff)

lemma quiet_entries:
  assumes "distinct (map fst m)" and "\<And>k v. (k, v) \<in> set m \<Longrightarrow> quiet (g k v v)"
  shows "quiet (collect_map (\<lambda>(k, v). case map_of m k of None \<Rightarrow> f k | Some w \<Rightarrow> g k v w) m)"
proof (rule quiet_collect_map, clarify)
  fix k v assume "(k, v) \<in> set m"
  moreover from this assms(1) have "map_of m k = Some v" by simp
  ultimately show "quiet (case map_of m k of None \<Rightarrow> f k | Some w \<Rightarrow> g k v w)" using assms(2) by simp
qed

lemma entries_Nil:
  assumes "distinct (map fst m)" and "\<And>k v. (k, v) \<in> set m \<Longrightarrow> g k v v = []"
  shows "concat (map (\<lambda>(k, v). case map_of m k of None \<Rightarrow> f k | Some w \<Rightarrow> g k v w) m) = []"
proof -
  have "(case map_of m k of None \<Rightarrow> f k | Some w \<Rightarrow> g k v w) = []" if "(k, v) \<in> set m" for k v
  proof -
    from assms(1) that have "map_of m k = Some v" by simp
    with that assms(2) show ?thesis by simp
  qed
  then show ?thesis by (auto simp: concat_eq_Nil_conv)
qed

lemma parameter_map_member:
  assumes "parameter_map spec ps = Inr pm" and "(key, b) \<in> set pm"
  obtains p d r where "\<And>xs. iterate ps = Inr xs \<Longrightarrow> p \<in> set xs" "as_dict p = Inr d"
    "resolve_component ''parameters'' spec d = Inr r" "as_dict r = Inr b"
proof -
  define entry where "entry p = and_then (as_dict p) (\<lambda>d. and_then (resolve_component ''parameters'' spec d) (\<lambda>r.
        and_then (as_dict r) (\<lambda>e. and_then (as_text (get e ''name'')) (\<lambda>n. and_then (as_text (get e ''in'')) (\<lambda>i.
          Inr [((n, i), e)])))))" for p
  from assms(1) obtain xs kvs where kvs: "iterate ps = Inr xs" "pm = dict_of kvs" "collect_map entry xs = Inr kvs"
    by (auto simp: parameter_map_def entry_def [abs_def] and_then_Inr_iff)
  from assms(2) kvs(2) have "(key, b) \<in> set kvs" by (simp add: dict_of_member)
  with collect_map_set(1) [OF kvs(3)] obtain p where p: "p \<in> set xs" "(key, b) \<in> set (projr (entry p))" by auto
  with collect_map_set(2) [OF kvs(3) p(1)] obtain d r where "as_dict p = Inr d"
      "resolve_component ''parameters'' spec d = Inr r" "as_dict r = Inr b"
    by (auto simp: entry_def and_then_Inr_iff)
  with p(1) kvs(1) that show thesis by simp
qed

lemma same_parameters:
  assumes "unique_keys (JObj spec)" and "unique_keys ps"
  shows "quiet (compare_parameters n spec spec op ps ps)"
proof (cases "parameter_map spec ps")
  case (Inr pm)
  then obtain xs where xs: "iterate ps = Inr xs" by (auto simp: parameter_map_def and_then_Inr_iff)
  have "quiet (compare_schema n dir spec spec s i (get b ''schema'') (get b ''schema''))" if "(key, b) \<in> set pm" for key b dir s i
    using Inr that
  proof (cases rule: parameter_map_member)
    case (1 p d r)
    have "unique_keys p" using unique_keys_iterate [OF assms(2) xs 1(1) [OF xs]] .
    from unique_keys_resolve_component [OF assms(1) 1(3) unique_keys_as_dict [OF this 1(2)]]
    have "unique_keys (JObj b)" using 1(4) by (rule unique_keys_as_dict)
    with assms(1) show ?thesis by (intro same_schema unique_keys_get)
  qed
  moreover have "distinct (map fst pm)" using Inr by (auto simp: parameter_map_def and_then_Inr_iff distinct_dict_of)
  ultimately show ?thesis
    unfolding compare_parameters_def Inr and_then.simps
    by (intro quiet_and_then quiet_entries) auto
qed (simp add: compare_parameters_def)

lemma same_request_bodies:
  assumes "unique_keys (JObj spec)" and "unique_keys b"
  shows "quiet (compare_request_bodies n spec spec op b b)"
proof (cases "resolve_optional ''requestBodies'' spec b")
  case (Inr bb)
  have bb: "unique_keys bb"
  proof (cases b)
    case (JObj d)
    with Inr assms unique_keys_resolve_component [of spec "''requestBodies''" d bb] show ?thesis
      by (simp add: resolve_optional_def)
  qed (use Inr in \<open>auto simp: resolve_optional_def\<close>)
  show ?thesis
  proof (cases "select_json_schema bb")
    case selected: (Inr x)
    with bb have "unique_keys x" by (auto intro: unique_keys_select)
    with assms(1) have "quiet (compare_schema n ''request'' spec spec ''route-request'' op x x)" by (rule same_schema)
    then show ?thesis
      using selected by (cases bb) (simp_all add: compare_request_bodies_def Inr quiet_and_then)
  qed (cases bb; simp add: compare_request_bodies_def Inr)
qed (simp add: compare_request_bodies_def)

lemma same_responses:
  assumes "unique_keys (JObj spec)" and "unique_keys rs"
  shows "quiet (compare_responses n spec spec op rs rs)"
proof (cases "success_responses rs")
  case (Inr d)
  then obtain e where e: "rs = JObj e" "d = filter (\<lambda>(code, _). prefix ''2'' code) e"
    by (cases rs) (auto simp: success_responses_def)
  have "quiet (and_then (response_schema spec r) (\<lambda>x. and_then (response_schema spec r) (\<lambda>y. compare_schema n dir spec spec s i x y)))"
    if "(code, r) \<in> set d" for code r dir s i
  proof (cases "response_schema spec r")
    case selected: (Inr x)
    then obtain f v where f: "as_dict r = Inr f" "resolve_component ''responses'' spec f = Inr v" "select_json_schema v = Inr x"
      by (auto simp: response_schema_def and_then_Inr_iff)
    from that e have "(code, r) \<in> set e" by simp
    with assms(2) e(1) have "unique_keys r" by (auto dest: unique_keys_field)
    from unique_keys_resolve_component [OF assms(1) f(2) unique_keys_as_dict [OF this f(1)]] f(3) have "unique_keys x"
      by (rule unique_keys_select [rotated])
    with selected assms(1) show ?thesis by (simp add: same_schema)
  qed simp
  moreover have "distinct (map fst d)"
    using assms(2) e by (auto simp: distinct_map_filter dest: unique_keys_distinct)
  ultimately show ?thesis
    unfolding compare_responses_def Inr and_then.simps
    by (intro quiet_and_then quiet_entries) simp_all
qed (simp add: compare_responses_def)

lemma same_operation:
  assumes "unique_keys (JObj spec)" and "unique_keys (JObj d)"
  shows "quiet (compare_operation n spec spec op d d)"
  unfolding compare_operation_def
  using assms same_parameters same_request_bodies same_responses
  by (intro quiet_collect) (simp add: unique_keys_get_or unique_keys_get)

lemma same_openapi:
  assumes "unique_keys (JObj spec)"
  shows "quiet (compare_openapi_contracts n spec spec)"
proof (cases "collect_operations spec")
  case (Inr ops)
  have "unique_keys (JObj d)" if "map_of ops key = Some d" for key d
  proof -
    from Inr obtain paths where paths: "as_dict (get_or spec ''paths'' (JObj [])) = Inr paths" and ops: "ops = dict_of
     (concat (map (\<lambda>(path, item). case item of
        JObj methods \<Rightarrow> concat (map (\<lambda>(m, operation). case operation of
            JObj d \<Rightarrow> if lower m \<in> set HTTP_METHODS then [(upper_method m @ '' '' @ path, d)] else []
          | _ \<Rightarrow> []) methods)
      | _ \<Rightarrow> []) paths))"
      by (auto simp: collect_operations_def and_then_Inr_iff)
    from that have "(key, d) \<in> set ops" by (rule map_of_SomeD)
    then obtain path methods m where pm: "(path, JObj methods) \<in> set paths" "(m, JObj d) \<in> set methods"
      unfolding ops by (auto dest!: dict_of_member split: json.split_asm if_split_asm)
    from unique_keys_as_dict [OF _ paths] assms have "unique_keys (JObj paths)" by (simp add: unique_keys_get_or)
    with pm show ?thesis by (blast dest: unique_keys_field)
  qed
  then have "quiet (case map_of ops key of
          None \<Rightarrow> Inr [change ''breaking'' ''route'' key ''route operation was removed'']
        | Some c \<Rightarrow> compare_operation n spec spec key (the (map_of ops key)) c)" if "key \<in> set (sorted_unique (map fst ops))" for key
    using that assms same_operation by (cases "map_of ops key") (auto simp: map_of_eq_None_iff)
  then show ?thesis
    unfolding compare_openapi_contracts_def Inr and_then.simps
    by (intro quiet_and_then quiet_collect_map) simp_all
qed (simp add: compare_openapi_contracts_def)

section \<open>Publications and descriptors\<close>

lemma quiet_pure:
  "compare_additive_text_metadata s i f v v = []" "compare_optional_metadata_field s i f v v = []"
  "compare_boolean_capability s i f v v = []" "compare_exact_field s i f v v = []"
  by (simp_all add: compare_additive_text_metadata_def compare_optional_metadata_field_def
      compare_boolean_capability_def compare_exact_field_def)

lemma same_set: "quiet (compare_set_contract s i f v v r a)" "quiet (compare_permission_contract k v v)"
  by (cases "texts_or_none v"; simp add: compare_set_contract_def compare_permission_contract_def)+

lemma same_mapping:
  assumes "unique_keys v"
  shows "quiet (compare_mapping_contract s i f v v ad rm ch cs rs as')"
proof (cases "mapping_or_none v")
  case (Inr d)
  with assms have "distinct (map fst d)"
    by (auto simp: mapping_or_none_def split: if_split_asm dest: unique_keys_as_dict unique_keys_distinct)
  then show ?thesis by (simp add: compare_mapping_contract_def Inr entries_Nil del: concat_eq_Nil_conv)
qed (simp add: compare_mapping_contract_def)

lemma keyed_entries:
  assumes "keyed k v = Inr m" and "unique_keys v"
  shows "distinct (map fst m)" and "\<And>n d. (n, d) \<in> set m \<Longrightarrow> unique_keys (JObj d)"
proof -
  define entry where "entry c = and_then (as_dict c) (\<lambda>d. and_then (as_text (get d k)) (\<lambda>n. Inr [(n, d)]))" for c
  from assms(1) obtain xs kvs where kvs: "iterate v = Inr xs" "m = dict_of kvs" "collect_map entry xs = Inr kvs"
    by (auto simp: keyed_def entry_def [abs_def] and_then_Inr_iff)
  show "distinct (map fst m)" by (simp add: kvs distinct_dict_of)
  fix n d assume "(n, d) \<in> set m"
  then have "(n, d) \<in> set kvs" unfolding kvs by (rule dict_of_member)
  with collect_map_set(1) [OF kvs(3)] obtain c where c: "c \<in> set xs" "(n, d) \<in> set (projr (entry c))" by auto
  with collect_map_set(2) [OF kvs(3) c(1)] have "as_dict c = Inr d" by (auto simp: entry_def and_then_Inr_iff)
  with unique_keys_iterate [OF assms(2) kvs(1) c(1)] show "unique_keys (JObj d)" by (rule unique_keys_as_dict)
qed

lemma same_columns:
  assumes "unique_keys (JObj b)"
  shows "quiet (compare_publication_columns key b b)"
proof (cases "keyed ''name'' (get_or b ''columns'' (JArr []))")
  case (Inr cols)
  with assms have "distinct (map fst cols)" by (simp add: keyed_entries unique_keys_get_or)
  moreover have "compare_column i c c = []" for i c by (simp add: compare_column_def quiet_pure)
  ultimately show ?thesis by (simp add: compare_publication_columns_def Inr entries_Nil del: concat_eq_Nil_conv)
qed (simp add: compare_publication_columns_def)

lemma same_publication:
  assumes "unique_keys (JObj b)"
  shows "quiet (compare_publication key b b)"
proof -
  have "quiet (compare_publication_metadata key b b)"
    using assms unfolding compare_publication_metadata_def
    by (intro quiet_collect) (simp add: quiet_pure same_set same_mapping unique_keys_get)
  then show ?thesis
    unfolding compare_publication_def by (intro quiet_and_then same_columns assms) simp_all
qed

lemma same_publications:
  assumes "distinct (map fst m)" and "\<And>n d. (n, d) \<in> set m \<Longrightarrow> unique_keys (JObj d)" and "set xs \<subseteq> set m"
    and "compare_publications xs m = Inr r"
  shows "r = ([], [])"
  using assms(3,4)
proof (induction xs arbitrary: r)
  case (Cons x xs)
  obtain key b where x: "x = (key, b)" by fastforce
  with Cons.prems(1) assms(1) have "map_of m key = Some b" by simp
  moreover have "quiet (compare_publication key b b)"
    using Cons.prems(1) x assms(2) by (intro same_publication) auto
  ultimately show ?case
    using Cons x by (auto simp: and_then_Inr_iff quiet_def)
qed simp

lemma same_descriptor:
  assumes "unique_keys (JObj b)"
  shows "quiet (compare_descriptor key b b)"
proof -
  have "quiet (and_then (texts_of v) (\<lambda>bs. and_then (texts_of v) (\<lambda>cs. Inr (map X (missing_from bs cs) @ map Y (missing_from cs bs)))))" for v X Y
    by (cases "texts_of v") simp_all
  with assms show ?thesis
    unfolding compare_descriptor_def
    by (intro quiet_collect) (simp add: quiet_pure same_set same_mapping unique_keys_get)
qed

lemma same_descriptors:
  assumes "unique_keys v"
  shows "quiet (compare_ui_descriptors v v)"
proof (cases "keyed ''key'' v")
  case (Inr m)
  with keyed_entries [OF Inr assms] show ?thesis
    unfolding compare_ui_descriptors_def Inr and_then.simps
    by (intro quiet_and_then quiet_entries) (simp_all add: same_descriptor)
qed (simp add: compare_ui_descriptors_def)

lemma same_publication_contracts:
  assumes "unique_keys (JObj d)" and "compare_publication_contracts d d = Inr r"
  shows "r = ([], [])"
proof -
  from assms(2) obtain m xs ws ys where m: "keyed ''publication_key'' (get_or d ''publication_contracts'' (JArr [])) = Inr m"
    "compare_publications m m = Inr (xs, ws)"
    "compare_ui_descriptors (get_or d ''ui_descriptors'' (JArr [])) (get_or d ''ui_descriptors'' (JArr [])) = Inr ys"
    "r = (xs @ ys, ws)"
    by (auto simp: compare_publication_contracts_def and_then_Inr_iff)
  have u: "unique_keys (get_or d k (JArr []))" for k using assms(1) by (simp add: unique_keys_get_or)
  have "(xs, ws) = ([], [])" by (rule same_publications [OF keyed_entries [OF m(1) u] _ m(2)]) simp_all
  with m(3,4) same_descriptors [OF u] show ?thesis by (auto simp: quiet_def)
qed

end
