(* ===== verification/PublicationOrder.thy ===== *)
theory PublicationOrder
  imports PublicationCompare
begin

text \<open>
  What a breaking change of the published contracts is: an order on releases, stated without the
  comparison, that the comparison decides.
\<close>

section \<open>The order\<close>

definition texts :: "json \<Rightarrow> string list" where
  "texts v = projr (texts_or_none v)"

definition entries :: "json \<Rightarrow> dict" where
  "entries v = projr (mapping_or_none v)"

definition keyed_by :: "string \<Rightarrow> json \<Rightarrow> (string \<times> dict) list" where
  "keyed_by k v = projr (keyed k v)"

definition keeps_hints :: "json \<Rightarrow> json \<Rightarrow> bool" where
  "keeps_hints b c \<longleftrightarrow> list_all (\<lambda>(k, v). case map_of (entries c) k of None \<Rightarrow> False | Some w \<Rightarrow> py_eq w v) (entries b)"

definition keeps_same :: "string list \<Rightarrow> dict \<Rightarrow> dict \<Rightarrow> bool" where
  "keeps_same fs b c \<longleftrightarrow> list_all (\<lambda>f. py_eq (get b f) (get c f)) fs"

definition keeps_given :: "string list \<Rightarrow> dict \<Rightarrow> dict \<Rightarrow> bool" where
  \<comment> \<open>fields that may be added, but neither changed nor dropped\<close>
  "keeps_given fs b c \<longleftrightarrow> list_all (\<lambda>f. get b f = JNull \<or> py_eq (get b f) (get c f)) fs"

definition keeps_capable :: "string list \<Rightarrow> dict \<Rightarrow> dict \<Rightarrow> bool" where
  "keeps_capable fs b c \<longleftrightarrow> list_all (\<lambda>f. truthy (get b f) \<longrightarrow> truthy (get c f)) fs"

definition keeps_column :: "dict \<Rightarrow> dict \<Rightarrow> bool" where
  "keeps_column b c \<longleftrightarrow> keeps_same [''storage_type'', ''json_type'', ''semantic_role''] b c \<and>
     keeps_given [''unit'', ''grain'', ''aggregation''] b c \<and> keeps_capable [''filterable'', ''sortable''] b c \<and>
     \<not> (get b ''nullable'' = JBool True \<and> get c ''nullable'' = JBool False)"

definition keeps_columns :: "json \<Rightarrow> json \<Rightarrow> bool" where
  "keeps_columns b c \<longleftrightarrow> list_all (\<lambda>(n, x). case map_of (keyed_by ''name'' c) n of None \<Rightarrow> False | Some y \<Rightarrow> keeps_column x y)
     (keyed_by ''name'' b)"

definition keeps_publication :: "dict \<Rightarrow> dict \<Rightarrow> bool" where
  "keeps_publication b c \<longleftrightarrow> keeps_same [''relation_name'', ''schema_name'', ''visibility'', ''retention_policy''] b c \<and>
     \<not> (get b ''lineage_required'' = JBool False \<and> get c ''lineage_required'' = JBool True) \<and>
     set (texts (get b ''supported_renderers'')) \<subseteq> set (texts (get c ''supported_renderers'')) \<and>
     keeps_hints (get b ''renderer_hints'') (get c ''renderer_hints'') \<and>
     keeps_columns (get_or b ''columns'' (JArr [])) (get_or c ''columns'' (JArr []))"

definition keeps_descriptor :: "dict \<Rightarrow> dict \<Rightarrow> bool" where
  "keeps_descriptor b c \<longleftrightarrow> keeps_same [''nav_path'', ''kind''] b c \<and>
     set (projr (texts_of (get_or b ''publication_keys'' (JArr [])))) \<subseteq> set (projr (texts_of (get_or c ''publication_keys'' (JArr [])))) \<and>
     set (texts (get b ''supported_renderers'')) \<subseteq> set (texts (get c ''supported_renderers'')) \<and>
     set (texts (get c ''required_permissions'')) \<subseteq> set (texts (get b ''required_permissions'')) \<and>
     keeps_hints (get b ''renderer_hints'') (get c ''renderer_hints'')"

definition keeps_all :: "(dict \<Rightarrow> dict \<Rightarrow> bool) \<Rightarrow> (string \<times> dict) list \<Rightarrow> (string \<times> dict) list \<Rightarrow> bool" where
  "keeps_all keeps bs cs \<longleftrightarrow> list_all (\<lambda>(k, b). case map_of cs k of None \<Rightarrow> False | Some c \<Rightarrow> keeps b c) bs"

definition publications_of :: "dict \<Rightarrow> (string \<times> dict) list" where
  "publications_of p = keyed_by ''publication_key'' (get_or p ''publication_contracts'' (JArr []))"

definition descriptors_of :: "dict \<Rightarrow> (string \<times> dict) list" where
  "descriptors_of p = keyed_by ''key'' (get_or p ''ui_descriptors'' (JArr []))"

definition backward_compatible :: "dict \<Rightarrow> dict \<Rightarrow> bool" where
  "backward_compatible b c \<longleftrightarrow> keeps_all keeps_publication (publications_of b) (publications_of c) \<and>
     keeps_all keeps_descriptor (descriptors_of b) (descriptors_of c)"

section \<open>Fields\<close>

definition calm :: "contract_change list \<Rightarrow> bool" where
  "calm xs \<longleftrightarrow> list_all (\<lambda>c. \<not> breaking c) xs"

lemma calm_simps [simp]:
  "calm []" "calm (x # xs) \<longleftrightarrow> \<not> breaking x \<and> calm xs" "calm (xs @ ys) \<longleftrightarrow> calm xs \<and> calm ys"
  "calm (concat xss) \<longleftrightarrow> list_all calm xss" "list_ex breaking xs \<longleftrightarrow> \<not> calm xs"
  by (auto simp: calm_def list_all_iff list_ex_iff)

lemma calm_map: "calm (map f xs) \<longleftrightarrow> list_all (\<lambda>x. \<not> breaking (f x)) xs"
  by (simp add: calm_def list_all_iff)

lemma calm_entries:
  assumes "\<And>k. \<not> calm (f k)" and "\<And>k v w. calm (g k v w) \<longleftrightarrow> K v w"
  shows "calm (concat (map (\<lambda>(k, v). case map_of m k of None \<Rightarrow> f k | Some w \<Rightarrow> g k v w) d)) \<longleftrightarrow>
    list_all (\<lambda>(k, v). case map_of m k of None \<Rightarrow> False | Some w \<Rightarrow> K v w) d"
proof -
  have "calm (case map_of m k of None \<Rightarrow> f k | Some w \<Rightarrow> g k v w) \<longleftrightarrow> (case map_of m k of None \<Rightarrow> False | Some w \<Rightarrow> K v w)" for k v
    using assms by (cases "map_of m k") simp_all
  then show ?thesis by (simp add: list_all_iff case_prod_beta)
qed

lemma list_all_True [simp]: "list_all (\<lambda>_. True) xs"
  by (simp add: list_all_iff)

lemma truthy_canonical: "truthy (canonical v) = truthy v"
proof (cases v)
  case (JObj d)
  have "sort_key fst (map (\<lambda>(k, v). (k, canonical v)) d) = [] \<longleftrightarrow> d = []"
    by (metis length_map length_sort length_0_conv)
  with JObj show ?thesis by simp
qed simp_all

lemma truthy_py_eq: "py_eq a b \<Longrightarrow> truthy a = truthy b"
  using truthy_canonical [of a] truthy_canonical [of b] by (simp add: py_eq_def)

lemma calm_fields:
  "calm (compare_additive_text_metadata s i f b c)"
  "calm (compare_optional_metadata_field s i f b c) \<longleftrightarrow> b = JNull \<or> py_eq b c"
  "calm (compare_boolean_capability s i f b c) \<longleftrightarrow> (truthy b \<longrightarrow> truthy c)"
  "calm (compare_exact_field s i f b c) \<longleftrightarrow> py_eq b c"
  using truthy_py_eq [of b c]
  by (auto simp: compare_additive_text_metadata_def compare_optional_metadata_field_def
      compare_boolean_capability_def compare_exact_field_def)

lemma list_all_missing: "list_all (\<lambda>_. False) (missing_from xs ys) \<longleftrightarrow> set xs \<subseteq> set ys"
proof -
  have "list_all (\<lambda>_. False) (missing_from xs ys) \<longleftrightarrow> set (missing_from xs ys) = {}" by (auto simp: list_all_iff)
  then show ?thesis by auto
qed

lemma calm_set:
  assumes "compare_set_contract s i f b c rm ad = Inr xs"
  shows "calm xs \<longleftrightarrow> set (texts b) \<subseteq> set (texts c)"
  using assms by (auto simp: compare_set_contract_def and_then_Inr_iff texts_def calm_map list_all_missing list_all_iff)

lemma calm_permission:
  assumes "compare_permission_contract k b c = Inr xs"
  shows "calm xs \<longleftrightarrow> set (texts c) \<subseteq> set (texts b)"
  using assms by (auto simp: compare_permission_contract_def and_then_Inr_iff texts_def calm_map list_all_missing list_all_iff)

lemma calm_hints:
  assumes "compare_mapping_contract s i f b c ad rm ch ''breaking'' ''breaking'' ''additive'' = Inr xs"
  shows "calm xs \<longleftrightarrow> keeps_hints b c"
proof -
  from assms obtain bd cd where d: "mapping_or_none b = Inr bd" "mapping_or_none c = Inr cd"
    and xs: "xs = concat (map (\<lambda>(k, v). case map_of cd k of
            None \<Rightarrow> [change ''breaking'' s i (f @ '' `'' @ k @ ''` '' @ rm)]
          | Some w \<Rightarrow> if py_eq w v then [] else [change ''breaking'' s i (f @ '' `'' @ k @ ''` '' @ ch)]) bd) @
        map (\<lambda>k. change ''additive'' s i (f @ '' `'' @ k @ ''` '' @ ad)) (missing_from (map fst cd) (map fst bd))"
    by (auto simp: compare_mapping_contract_def and_then_Inr_iff)
  show ?thesis
    unfolding xs calm_simps(3) by (subst calm_entries [where K = "\<lambda>v w. py_eq w v"]) (simp_all add: keeps_hints_def entries_def d calm_map)
qed

lemma calm_filters:
  assumes "compare_mapping_contract s i f b c ad rm ch ''additive'' ''additive'' ''additive'' = Inr xs"
  shows "calm xs"
  using assms
  by (auto simp: compare_mapping_contract_def and_then_Inr_iff calm_map list_all_iff split: option.split)

section \<open>Columns, publications and descriptors\<close>

lemma calm_column: "calm (compare_column i b c) \<longleftrightarrow> keeps_column b c"
  by (auto simp: compare_column_def keeps_column_def keeps_same_def keeps_given_def keeps_capable_def calm_fields)

lemma calm_columns:
  assumes "compare_publication_columns key b c = Inr xs"
  shows "calm xs \<longleftrightarrow> keeps_columns (get_or b ''columns'' (JArr [])) (get_or c ''columns'' (JArr []))"
proof -
  from assms obtain bs cs where d: "keyed ''name'' (get_or b ''columns'' (JArr [])) = Inr bs" "keyed ''name'' (get_or c ''columns'' (JArr [])) = Inr cs"
    and xs: "xs = concat (map (\<lambda>(n, col). case map_of cs n of
            None \<Rightarrow> [change ''breaking'' ''publication-column'' (key @ ''.'' @ n) ''column was removed'']
          | Some col' \<Rightarrow> compare_column (key @ ''.'' @ n) col col') bs) @
        map (\<lambda>n. change ''additive'' ''publication-column'' (key @ ''.'' @ n) ''new column was added'') (missing_from (map fst cs) (map fst bs))"
    by (auto simp: compare_publication_columns_def and_then_Inr_iff)
  show ?thesis
    unfolding xs calm_simps(3)
    by (subst calm_entries [where K = keeps_column]) (simp_all add: keeps_columns_def keyed_by_def d calm_map calm_column)
qed

lemma calm_metadata:
  assumes "compare_publication_metadata key b c = Inr xs"
  shows "calm xs \<longleftrightarrow> keeps_same [''relation_name'', ''schema_name'', ''visibility'', ''retention_policy''] b c \<and>
     \<not> (get b ''lineage_required'' = JBool False \<and> get c ''lineage_required'' = JBool True) \<and>
     set (texts (get b ''supported_renderers'')) \<subseteq> set (texts (get c ''supported_renderers'')) \<and>
     keeps_hints (get b ''renderer_hints'') (get c ''renderer_hints'')"
  using assms
  by (auto simp: compare_publication_metadata_def and_then_Inr_iff keeps_same_def calm_fields calm_set calm_hints py_eq_def)

lemma calm_publication:
  assumes "compare_publication key b c = Inr xs"
  shows "calm xs \<longleftrightarrow> keeps_publication b c"
  using assms calm_metadata calm_columns
  by (auto simp: compare_publication_def and_then_Inr_iff keeps_publication_def)

lemma calm_descriptor:
  assumes "compare_descriptor key b c = Inr xs"
  shows "calm xs \<longleftrightarrow> keeps_descriptor b c"
  using assms
  by (auto simp: compare_descriptor_def and_then_Inr_iff keeps_descriptor_def keeps_same_def calm_fields calm_set
      calm_permission calm_hints calm_filters calm_map list_all_missing list_all_iff)

section \<open>The comparison decides the order\<close>

lemma calm_publications:
  assumes "compare_publications bs cs = Inr (xs, ws)"
  shows "calm xs \<longleftrightarrow> keeps_all keeps_publication bs cs"
  using assms
proof (induction bs cs arbitrary: xs ws rule: compare_publications.induct)
  case (2 key b rest cands)
  then obtain ys vs where rest: "compare_publications rest cands = Inr (ys, vs)"
    by (auto simp: and_then_Inr_iff split: prod.split_asm)
  show ?case
  proof (cases "map_of cands key")
    case None
    with "2.prems" show ?thesis by (auto simp: and_then_Inr_iff keeps_all_def)
  next
    case (Some c)
    with "2.prems" rest obtain zs where zs: "compare_publication key b c = Inr zs" "xs = zs @ ys"
      by (auto simp: and_then_Inr_iff)
    with "2.IH" [OF rest] calm_publication [OF zs(1)] Some show ?thesis by (simp add: keeps_all_def)
  qed
qed (simp add: keeps_all_def)

lemma policy_warning_inj [simp]: "policy_warning k = policy_warning k' \<longleftrightarrow> k = k'"
  by (simp add: policy_warning_def)

lemma warned_publications:
  assumes "compare_publications bs cs = Inr (xs, ws)"
  shows "policy_warning k \<in> set ws \<longleftrightarrow> (\<exists>b c. (k, b) \<in> set bs \<and> map_of cs k = Some c \<and> \<not> keeps_publication b c \<and>
    \<not> schema_version_major_bumped (get b ''schema_version'') (get c ''schema_version''))"
  using assms
proof (induction bs cs arbitrary: xs ws rule: compare_publications.induct)
  case (2 key b rest cands)
  then obtain ys vs where rest: "compare_publications rest cands = Inr (ys, vs)"
    by (auto simp: and_then_Inr_iff split: prod.split_asm)
  show ?case
  proof (cases "map_of cands key")
    case None
    with "2.prems" rest have "ws = vs" by (auto simp: and_then_Inr_iff)
    with "2.IH" [OF rest] None show ?thesis by auto
  next
    case (Some c)
    with "2.prems" rest obtain zs where zs: "compare_publication key b c = Inr zs"
      "ws = (if list_ex breaking zs \<and> \<not> schema_version_major_bumped (get b ''schema_version'') (get c ''schema_version'')
         then [policy_warning key] else []) @ vs"
      by (auto simp: and_then_Inr_iff)
    with "2.IH" [OF rest] calm_publication [OF zs(1)] Some show ?thesis by auto
  qed
qed simp

lemma calm_descriptors:
  assumes "compare_ui_descriptors b c = Inr xs"
  shows "calm xs \<longleftrightarrow> keeps_all keeps_descriptor (keyed_by ''key'' b) (keyed_by ''key'' c)"
proof -
  define one where "one cand = (\<lambda>(key, x). case map_of cand key of
      None \<Rightarrow> Inr [change ''breaking'' ''ui-descriptor'' key ''UI descriptor was removed'']
    | Some y \<Rightarrow> compare_descriptor key x y)" for cand
  from assms obtain bm cm ys where d: "keyed ''key'' b = Inr bm" "keyed ''key'' c = Inr cm"
    and ys: "collect_map (one cm) bm = Inr ys"
    and xs: "xs = ys @ map (\<lambda>key. change ''additive'' ''ui-descriptor'' key ''new UI descriptor was added'') (missing_from (map fst cm) (map fst bm))"
    by (auto simp: compare_ui_descriptors_def one_def and_then_Inr_iff)
  have one: "calm (projr (one cm (k, x))) \<longleftrightarrow> (case map_of cm k of None \<Rightarrow> False | Some y \<Rightarrow> keeps_descriptor x y)"
    if "(k, x) \<in> set bm" for k x
  proof -
    from collect_map_set(2) [OF ys that] obtain zs where "one cm (k, x) = Inr zs" ..
    then show ?thesis by (auto simp: one_def calm_descriptor split: option.split_asm)
  qed
  have "calm ys \<longleftrightarrow> (\<forall>p\<in>set bm. calm (projr (one cm p)))"
    using collect_map_set(1) [OF ys] by (auto simp: calm_def list_all_iff)
  also have "\<dots> \<longleftrightarrow> keeps_all keeps_descriptor bm cm"
    using one by (auto simp: keeps_all_def list_all_iff)
  finally show ?thesis by (simp add: xs d keyed_by_def calm_map)
qed

lemma calm_publication_contracts:
  assumes "compare_publication_contracts b c = Inr (xs, ws)"
  shows "calm xs \<longleftrightarrow> backward_compatible b c"
    and "policy_warning k \<in> set ws \<longleftrightarrow> (\<exists>pb pc. map_of (publications_of b) k = Some pb \<and> map_of (publications_of c) k = Some pc \<and>
      \<not> keeps_publication pb pc \<and> \<not> schema_version_major_bumped (get pb ''schema_version'') (get pc ''schema_version''))"
proof -
  from assms obtain bm cm ys zs where d: "keyed ''publication_key'' (get_or b ''publication_contracts'' (JArr [])) = Inr bm"
    "keyed ''publication_key'' (get_or c ''publication_contracts'' (JArr [])) = Inr cm"
    and ys: "compare_publications bm cm = Inr (ys, ws)"
    and zs: "compare_ui_descriptors (get_or b ''ui_descriptors'' (JArr [])) (get_or c ''ui_descriptors'' (JArr [])) = Inr zs"
    and xs: "xs = ys @ map (\<lambda>key. change ''additive'' ''publication'' key ''new publication contract was added'')
          (missing_from (map fst cm) (map fst bm)) @ zs"
    by (auto simp: compare_publication_contracts_def and_then_Inr_iff)
  from calm_publications [OF ys] calm_descriptors [OF zs] show "calm xs \<longleftrightarrow> backward_compatible b c"
    by (simp add: xs calm_map backward_compatible_def publications_of_def descriptors_of_def keyed_by_def d)
  from d(1) have "distinct (map fst bm)" by (auto simp: keyed_def and_then_Inr_iff distinct_dict_of)
  with warned_publications [OF ys, of k] show "policy_warning k \<in> set ws \<longleftrightarrow> (\<exists>pb pc. map_of (publications_of b) k = Some pb \<and>
      map_of (publications_of c) k = Some pc \<and> \<not> keeps_publication pb pc \<and>
      \<not> schema_version_major_bumped (get pb ''schema_version'') (get pc ''schema_version''))"
    by (simp add: publications_of_def keyed_by_def d)
qed

lemma warned_only_broken: "compare_publications bs cs = Inr (xs, ws) \<Longrightarrow> w \<in> set ws \<Longrightarrow> \<exists>k. w = policy_warning k"
  by (induction bs cs arbitrary: xs ws rule: compare_publications.induct)
    (auto simp: and_then_Inr_iff split: prod.split_asm option.split_asm if_split_asm)

lemma no_warnings:
  assumes "compare_publication_contracts b c = Inr (xs, ws)" and "backward_compatible b c"
  shows "ws = []"
proof (rule ccontr)
  assume "ws \<noteq> []"
  then have "hd ws \<in> set ws" by simp
  then obtain w where w: "w \<in> set ws" ..
  from assms(1) obtain bm cm ys where "compare_publications bm cm = Inr (ys, ws)"
    by (auto simp: compare_publication_contracts_def and_then_Inr_iff)
  from warned_only_broken [OF this w] obtain k where k: "w = policy_warning k" ..
  with w calm_publication_contracts(2) [OF assms(1), of k] obtain pb pc where p: "map_of (publications_of b) k = Some pb"
    "map_of (publications_of c) k = Some pc" "\<not> keeps_publication pb pc" by blast
  from map_of_SomeD [OF p(1)] p(2,3) assms(2) show False
    by (fastforce simp: backward_compatible_def keeps_all_def list_all_iff)
qed

section \<open>Releases after one another\<close>

lemma keeps_all_trans:
  assumes "keeps_all P as bs" and "keeps_all P bs cs"
    and "\<And>k x y z. (k, y) \<in> set bs \<Longrightarrow> P x y \<Longrightarrow> P y z \<Longrightarrow> P x z"
  shows "keeps_all P as cs"
proof -
  have "\<exists>z. map_of cs k = Some z \<and> P x z" if kx: "(k, x) \<in> set as" for k x
  proof -
    from kx assms(1) obtain y where y: "map_of bs k = Some y" "P x y"
      by (fastforce simp: keeps_all_def list_all_iff split: option.split_asm)
    from map_of_SomeD [OF y(1)] assms(2) obtain z where "map_of cs k = Some z" "P y z"
      by (fastforce simp: keeps_all_def list_all_iff split: option.split_asm)
    with y assms(3) [OF map_of_SomeD [OF y(1)]] show ?thesis by blast
  qed
  then show ?thesis by (fastforce simp: keeps_all_def list_all_iff split: option.split)
qed

lemma py_eq_null: "py_eq v JNull \<longleftrightarrow> v = JNull"
  by (cases v) (simp_all add: py_eq_def)

definition boolean :: "json \<Rightarrow> bool" where
  "boolean v \<longleftrightarrow> (case v of JBool _ \<Rightarrow> True | _ \<Rightarrow> False)"

lemma boolean_cases: "boolean v \<Longrightarrow> v = JBool True \<or> v = JBool False"
  by (cases v) (auto simp: boolean_def)

definition flags_given :: "dict \<Rightarrow> bool" where
  \<comment> \<open>every publication says whether lineage is required, every column whether it is nullable\<close>
  "flags_given p \<longleftrightarrow> list_all (\<lambda>(k, d). boolean (get d ''lineage_required'') \<and>
     list_all (\<lambda>(n, c). boolean (get c ''nullable'')) (keyed_by ''name'' (get_or d ''columns'' (JArr [])))) (publications_of p)"

lemma keeps_fields_trans:
  "keeps_same fs a b \<Longrightarrow> keeps_same fs b c \<Longrightarrow> keeps_same fs a c"
  "keeps_given fs a b \<Longrightarrow> keeps_given fs b c \<Longrightarrow> keeps_given fs a c"
  "keeps_capable fs a b \<Longrightarrow> keeps_capable fs b c \<Longrightarrow> keeps_capable fs a c"
  using py_eq_trans py_eq_null unfolding keeps_same_def keeps_given_def keeps_capable_def list_all_iff by metis+

lemma keeps_column_trans:
  assumes "boolean (get b ''nullable'')" and "keeps_column a b" and "keeps_column b c"
  shows "keeps_column a c"
  using assms(2,3) boolean_cases [OF assms(1)]
  by (auto simp: keeps_column_def intro: keeps_fields_trans)

lemma keeps_columns_all: "keeps_columns b c \<longleftrightarrow> keeps_all keeps_column (keyed_by ''name'' b) (keyed_by ''name'' c)"
  by (simp add: keeps_columns_def keeps_all_def)

lemma keeps_hints_trans:
  assumes "keeps_hints a b" and "keeps_hints b c"
  shows "keeps_hints a c"
proof -
  have "\<exists>u. map_of (entries c) k = Some u \<and> py_eq u v" if kv: "(k, v) \<in> set (entries a)" for k v
  proof -
    from kv assms(1) obtain w where w: "map_of (entries b) k = Some w" "py_eq w v"
      by (fastforce simp: keeps_hints_def list_all_iff split: option.split_asm)
    from map_of_SomeD [OF w(1)] assms(2) obtain u where "map_of (entries c) k = Some u" "py_eq u w"
      by (fastforce simp: keeps_hints_def list_all_iff split: option.split_asm)
    with w(2) show ?thesis by (blast intro: py_eq_trans)
  qed
  then show ?thesis by (fastforce simp: keeps_hints_def list_all_iff split: option.split)
qed

lemma keeps_publication_trans:
  assumes "boolean (get b ''lineage_required'')"
    and "\<And>n c. (n, c) \<in> set (keyed_by ''name'' (get_or b ''columns'' (JArr []))) \<Longrightarrow> boolean (get c ''nullable'')"
    and "keeps_publication a b" and "keeps_publication b c"
  shows "keeps_publication a c"
proof -
  have "keeps_columns (get_or a ''columns'' (JArr [])) (get_or c ''columns'' (JArr []))"
    using assms(3,4) unfolding keeps_publication_def keeps_columns_all
    by (blast intro: keeps_all_trans keeps_column_trans [OF assms(2)])
  moreover have "\<not> (get a ''lineage_required'' = JBool False \<and> get c ''lineage_required'' = JBool True)"
    using assms(3,4) boolean_cases [OF assms(1)] by (auto simp: keeps_publication_def)
  ultimately show ?thesis
    using assms(3,4) unfolding keeps_publication_def by (blast intro: keeps_fields_trans keeps_hints_trans)
qed

lemma keeps_descriptor_trans: "keeps_descriptor a b \<Longrightarrow> keeps_descriptor b c \<Longrightarrow> keeps_descriptor a c"
  unfolding keeps_descriptor_def by (blast intro: keeps_fields_trans keeps_hints_trans)

lemma backward_compatible_trans:
  assumes "flags_given b" and "backward_compatible a b" and "backward_compatible b c"
  shows "backward_compatible a c"
proof -
  have "keeps_publication x z"
    if "(k, y) \<in> set (publications_of b)" "keeps_publication x y" "keeps_publication y z" for k x y z
    by (rule keeps_publication_trans [OF _ _ that(2,3)]) (use assms(1) that(1) in \<open>auto simp: flags_given_def list_all_iff\<close>)
  with assms(2,3) have "keeps_all keeps_publication (publications_of a) (publications_of c)"
    unfolding backward_compatible_def by (blast intro: keeps_all_trans)
  moreover have "keeps_all keeps_descriptor (descriptors_of a) (descriptors_of c)"
    using assms(2,3) unfolding backward_compatible_def by (blast intro: keeps_all_trans keeps_descriptor_trans)
  ultimately show ?thesis by (simp add: backward_compatible_def)
qed

end
