(* ===== verification/ContractClaims.thy ===== *)
theory ContractClaims
  imports ContractEnds SameRelease PublicationOrder
begin

text \<open>
  Properties of the contract compatibility check: the report of documents whose references can be
  ranked exists, a component that refers to itself is never compared, a release compared with itself
  is unchanged, and the breaking changes of published contracts are an order that composes.
\<close>

section \<open>Examples\<close>

definition ref_to :: "string \<Rightarrow> json" where
  "ref_to name = JObj [(''$ref'', JStr (''#/components/schemas/'' @ name))]"

definition spec_of :: "(string \<times> json) list \<Rightarrow> dict" where
  "spec_of schemas = [(''paths'', JObj [(''/runs'', JObj [(''get'', JObj [(''responses'',
       JObj [(''200'', JObj [(''content'', JObj [(''application/json'', JObj [(''schema'', ref_to ''Run'')])])])])])])]),
     (''components'', JObj [(''schemas'', JObj schemas)])]"

definition run_schemas :: "(string \<times> json) list" where
  "run_schemas =
     [(''Run'', JObj [(''type'', JStr ''object''), (''properties'', JObj [(''id'', JObj [(''type'', JStr ''string'')]), (''parent'', ref_to ''Issue'')])]),
      (''Issue'', JObj [(''anyOf'', JArr [JObj [(''type'', JStr ''integer'')], JObj [(''type'', JStr ''string'')]])])]"

definition run_rank :: "string \<Rightarrow> nat" where
  "run_rank name = (if name = ''Run'' then 1 else 0)"

definition column :: "string \<Rightarrow> json \<Rightarrow> json" where
  "column name unit = JObj [(''name'', JStr name), (''storage_type'', JStr ''TEXT''), (''nullable'', JBool False), (''unit'', unit)]"

definition contracts :: "string \<Rightarrow> json list \<Rightarrow> dict" where
  "contracts version cols = [(''publication_contracts'', JArr [JObj [(''publication_key'', JStr ''spend''), (''schema_version'', JStr version),
     (''lineage_required'', JBool True), (''columns'', JArr cols)]]), (''ui_descriptors'', JArr [])]"

section \<open>The report\<close>

text \<open>C25: Termination.  When the component schemas of both releases can be ranked so that each refers to
  components of smaller rank only, the report is computed within some depth of recursion, and its
  content does not depend on the depth beyond it.\<close>
theorem report_settles:
  assumes "well_ranked r (af_openapi b)" and "well_ranked r' (af_openapi candidate)"
  shows "\<exists>n rep. rep \<noteq> Inl Too_Deep \<and> (\<forall>m\<ge>n. build_contract_compatibility_report m (Some b) candidate bl cl = rep)"
  using settles_report [of "Some b" r r' candidate bl cl] assms by (simp add: settles_def reached_def)

lemma run_ranked: "well_ranked run_rank (spec_of run_schemas)"
proof -
  have "level run_rank (JObj t) \<le> run_rank name" if "component ''schemas'' (spec_of run_schemas) name = Inr (JObj t)" for name t
  proof -
    from that have "map_of run_schemas name = Some (JObj t)"
      by (auto simp: component_def spec_of_def get_or_def get_def split: option.split_asm)
    then show ?thesis
      by (auto simp: run_schemas_def run_rank_def ref_to_def level.simps greatest_def ref_name_def split: if_split_asm)
  qed
  then show ?thesis by (simp add: well_ranked_def)
qed

lemma report_settles_witness:
  "\<exists>n rep. rep \<noteq> Inl Too_Deep \<and> (\<forall>m\<ge>n. build_contract_compatibility_report m
     (Some \<lparr> af_openapi = spec_of run_schemas, af_publication_contracts = [] \<rparr>)
     \<lparr> af_openapi = spec_of run_schemas, af_publication_contracts = [] \<rparr> ''main'' ''next'' = rep)"
  by (rule report_settles [of run_rank _ run_rank]) (simp_all add: run_ranked)

text \<open>Errors.  Two releases with a component one of whose properties is the component itself, as a tree
  or a linked list has, are never compared: a schema that refers to it gets no result at any depth, so
  the check fails with a recursion error even when nothing changed.\<close>
theorem self_reference_never_compared:
  assumes "self_reference bspec name k" and "self_reference cspec name' k"
    and "refers_to name d" and "refers_to name' e"
  shows "\<forall>n xs. compare_schema n dir bspec cspec s i (JObj d) (JObj e) \<noteq> Inr xs"
  using self_reference_recurs [OF assms] by blast

definition tree_spec :: dict where
  "tree_spec = spec_of [(''Run'', JObj [(''type'', JStr ''object''), (''properties'', JObj [(''parent'', ref_to ''Run'')])])]"

lemma self_reference_never_compared_witness:
  "\<forall>n xs. compare_schema n ''response'' tree_spec tree_spec ''route-response'' ''GET /runs 200''
     (JObj [(''$ref'', JStr ''#/components/schemas/Run'')]) (JObj [(''$ref'', JStr ''#/components/schemas/Run'')]) \<noteq> Inr xs"
proof (rule self_reference_never_compared [of _ "''Run''" "''parent''" _ "''Run''"])
  show "self_reference tree_spec ''Run'' ''parent''" "self_reference tree_spec ''Run'' ''parent''" by code_simp+
  show "refers_to ''Run'' [(''$ref'', JStr ''#/components/schemas/Run'')]"
    "refers_to ''Run'' [(''$ref'', JStr ''#/components/schemas/Run'')]" by code_simp+
qed

text \<open>C26: Functional behaviour.  A release compared with itself, whatever unions and nullable types its
  documents hold: every report that is produced says unchanged and lists neither changes nor warnings,
  and when the release's references can be ranked the check never runs out of recursion from some depth
  on.  (A component that contains itself cannot be ranked, and the check of such a release fails.)\<close>
theorem unchanged_release:
  assumes "unique_keys (JObj (af_openapi a))" and "unique_keys (JObj (af_publication_contracts a))"
  shows "(\<forall>n rep. build_contract_compatibility_report n (Some a) a bl cl = Inr rep \<longrightarrow>
      rp_status rep = ''unchanged'' \<and> rp_breaking_changes rep = [] \<and> rp_additive_changes rep = [] \<and>
      rp_policy_warnings rep = [] \<and> rp_summary rep = ''No contract changes detected.'') \<and>
    (well_ranked r (af_openapi a) \<longrightarrow> (\<exists>k. \<forall>n\<ge>k. build_contract_compatibility_report n (Some a) a bl cl \<noteq> Inl Too_Deep))"
proof (intro conjI allI impI)
  show "\<exists>k. \<forall>n\<ge>k. build_contract_compatibility_report n (Some a) a bl cl \<noteq> Inl Too_Deep" if "well_ranked r (af_openapi a)"
    using settles_report [of "Some a" r r a bl cl] that by (auto simp: settles_def reached_def)
  fix n rep
  assume made: "build_contract_compatibility_report n (Some a) a bl cl = Inr rep"
  then obtain xs ys ws where c: "compare_openapi_contracts n (af_openapi a) (af_openapi a) = Inr xs"
    "compare_publication_contracts (af_publication_contracts a) (af_publication_contracts a) = Inr (ys, ws)"
    by (auto simp: build_contract_compatibility_report_def and_then_Inr_iff)
  from same_openapi [OF assms(1)] c(1) have "xs = []" by (simp add: quiet_def)
  with c made same_publication_contracts [OF assms(2) c(2)]
  show "rp_status rep = ''unchanged''" "rp_breaking_changes rep = []" "rp_additive_changes rep = []"
    "rp_policy_warnings rep = []" "rp_summary rep = ''No contract changes detected.''"
    by (auto simp: build_contract_compatibility_report_def build_summary_def)
qed

definition sample_release :: artifacts_snapshot where
  "sample_release = \<lparr> af_openapi = spec_of run_schemas, af_publication_contracts = contracts ''1.0'' [column ''day'' JNull] \<rparr>"

lemma sample_keys: "unique_keys (JObj (af_openapi sample_release))" "unique_keys (JObj (af_publication_contracts sample_release))"
  by (simp_all add: sample_release_def spec_of_def run_schemas_def ref_to_def contracts_def column_def unique_keys.simps)

lemma sample_report: "\<exists>rep. build_contract_compatibility_report 6 (Some sample_release) sample_release ''main'' ''next'' = Inr rep"
proof -
  have "\<not> (case build_contract_compatibility_report 6 (Some sample_release) sample_release ''main'' ''next'' of Inl _ \<Rightarrow> True | Inr _ \<Rightarrow> False)"
    by code_simp
  then show ?thesis by (auto split: sum.split_asm)
qed

lemma unchanged_release_witness:
  "(\<exists>rep. build_contract_compatibility_report 6 (Some sample_release) sample_release ''main'' ''next'' = Inr rep \<and>
      rp_status rep = ''unchanged'' \<and> rp_breaking_changes rep = []) \<and>
    (\<exists>k. \<forall>n\<ge>k. build_contract_compatibility_report n (Some sample_release) sample_release ''main'' ''next'' \<noteq> Inl Too_Deep)"
proof -
  have "well_ranked run_rank (af_openapi sample_release)" by (simp add: sample_release_def run_ranked)
  with sample_report unchanged_release [OF sample_keys, of "''main''" "''next''" run_rank] show ?thesis by blast
qed

section \<open>Published contracts\<close>

text \<open>C27: Equivalence.  The comparison of published contracts reports no breaking change exactly when the
  candidate keeps every publication, column and UI descriptor of the baseline with what their readers
  rely on; and it warns about a publication exactly when it is on both sides, is not kept and the major
  part of its schema version did not grow.\<close>
theorem breaking_changes_decide:
  assumes "compare_publication_contracts b c = Inr (changes, warnings)"
  shows "(list_all (\<lambda>x. \<not> breaking x) changes \<longleftrightarrow> backward_compatible b c) \<and>
    (policy_warning k \<in> set warnings \<longleftrightarrow> (\<exists>pb pc. map_of (publications_of b) k = Some pb \<and> map_of (publications_of c) k = Some pc \<and>
      \<not> keeps_publication pb pc \<and> \<not> schema_version_major_bumped (get pb ''schema_version'') (get pc ''schema_version'')))"
  using calm_publication_contracts [OF assms] by (simp add: calm_def)

definition dropped_unit :: "contract_change list \<times> string list" where
  "dropped_unit = ([change ''breaking'' ''publication-column'' ''spend.day'' ''unit was removed''], [policy_warning ''spend''])"

lemma breaking_changes_decide_witness:
  "compare_publication_contracts (contracts ''1.0'' [column ''day'' (JStr ''EUR'')]) (contracts ''1.4'' [column ''day'' JNull]) = Inr dropped_unit \<and>
    \<not> backward_compatible (contracts ''1.0'' [column ''day'' (JStr ''EUR'')]) (contracts ''1.4'' [column ''day'' JNull]) \<and>
    (\<exists>pb pc. map_of (publications_of (contracts ''1.0'' [column ''day'' (JStr ''EUR'')])) ''spend'' = Some pb \<and>
      map_of (publications_of (contracts ''1.4'' [column ''day'' JNull])) ''spend'' = Some pc \<and> \<not> keeps_publication pb pc)"
proof -
  have run: "compare_publication_contracts (contracts ''1.0'' [column ''day'' (JStr ''EUR'')]) (contracts ''1.4'' [column ''day'' JNull]) =
      Inr (fst dropped_unit, snd dropped_unit)"
    by code_simp
  from breaking_changes_decide [OF run, of "''spend''"] run show ?thesis by (auto simp: dropped_unit_def)
qed

text \<open>Safety.  Compatible releases compose: when neither step from one release over a second to a third
  reports a breaking change of the published contracts, comparing the first with the third directly
  reports none, provided the second states for every publication and column whether lineage is
  required and whether nulls occur.\<close>
theorem compatible_releases_compose:
  assumes "compare_publication_contracts a b = Inr (xs, us)" and "list_all (\<lambda>x. \<not> breaking x) xs"
    and "compare_publication_contracts b c = Inr (ys, vs)" and "list_all (\<lambda>x. \<not> breaking x) ys"
    and "flags_given b" and "compare_publication_contracts a c = Inr (zs, ws)"
  shows "list_all (\<lambda>x. \<not> breaking x) zs \<and> ws = []"
proof -
  from calm_publication_contracts(1) [OF assms(1)] calm_publication_contracts(1) [OF assms(3)] assms(2,4)
  have "backward_compatible a c"
    by (simp add: calm_def backward_compatible_trans [OF assms(5)])
  with calm_publication_contracts(1) [OF assms(6)] no_warnings [OF assms(6)] show ?thesis by (simp add: calm_def)
qed

lemma compatible_releases_compose_witness:
  "\<exists>zs ws. compare_publication_contracts (contracts ''1.0'' [column ''day'' JNull]) (contracts ''1.2'' [column ''amount'' JNull, column ''day'' (JStr ''EUR'')]) =
    Inr (zs, ws) \<and> length zs = 2 \<and> list_all (\<lambda>x. \<not> breaking x) zs \<and> ws = []"
proof -
  let ?a = "contracts ''1.0'' [column ''day'' JNull]" and ?b = "contracts ''1.1'' [column ''day'' (JStr ''EUR'')]"
    and ?c = "contracts ''1.2'' [column ''amount'' JNull, column ''day'' (JStr ''EUR'')]"
  define unit where "unit = [change ''additive'' ''publication-column'' ''spend.day'' ''unit was added'']"
  define new where "new = [change ''additive'' ''publication-column'' ''spend.amount'' ''new column was added'']"
  have ab: "compare_publication_contracts ?a ?b = Inr (unit, [])" unfolding unit_def by code_simp
  have bc: "compare_publication_contracts ?b ?c = Inr (new, [])" unfolding new_def by code_simp
  have ac: "compare_publication_contracts ?a ?c = Inr (unit @ new, [])" unfolding unit_def new_def by code_simp
  have b: "flags_given ?b" by code_simp
  from compatible_releases_compose [OF ab _ bc _ b ac] ac show ?thesis by (simp add: unit_def new_def)
qed

end
