(* ===== verification/AuthLogin.thy ===== *)
theory AuthLogin
  imports AuthGate
begin

text \<open>
  Signing in and out (\<open>packages/application/use_cases/auth_sessions.py\<close>, the issuing side of
  \<open>packages/platform/auth/session_manager.py\<close>).  Random values (CSRF token, session id, event ids) are
  arguments.
\<close>

section \<open>Issuing a session\<close>

record issued_session =
  is_cookie_value :: string
  is_csrf_token :: string

definition session_payload :: "auth_env \<Rightarrow> int \<Rightarrow> int \<Rightarrow> string \<Rightarrow> string \<Rightarrow> string option \<Rightarrow> principal \<Rightarrow> (string \<times> json) list" where
  "session_payload env now max_age csrf sid fingerprint p =
     [(''sub'', JStr (au_user_id p)), (''usr'', JStr (au_username p)), (''role'', JStr (role_value (au_role p))),
      (''provider'', JStr (au_auth_provider p)), (''csrf'', JStr csrf), (''sid'', JStr sid),
      (''iat'', JStr (en_iso env now)), (''exp'', JStr (en_iso env (now + max_age)))] @
     (if text_or fingerprint [] \<noteq> [] then [(''fp'', JStr (text_or fingerprint []))] else []) @
     (if au_scopes p \<noteq> [] then [(''scopes'', JArr (map JStr (au_scopes p)))] else []) @
     (if au_permissions p \<noteq> [] then [(''permissions'', JArr (map JStr (au_permissions p)))] else []) @
     (if au_permission_bound p then [(''pb'', JBool True)] else [])"

definition issue_session :: "auth_env \<Rightarrow> session_manager \<Rightarrow> int \<Rightarrow> string \<Rightarrow> string \<Rightarrow> principal \<Rightarrow> issued_session" where
  \<comment> \<open>for a principal of an identity provider, without a credential fingerprint\<close>
  "issue_session env sm now csrf sid p = \<lparr> is_cookie_value = en_sign env (session_payload env now (sm_max_age sm) csrf sid None p),
     is_csrf_token = csrf \<rparr>"

definition principal_from_user :: "local_user \<Rightarrow> string \<Rightarrow> principal" where
  "principal_from_user u csrf = \<lparr> au_user_id = lu_user_id u, au_username = lu_username u, au_role = lu_role u,
     au_auth_provider = ''local'', au_csrf_token = Some csrf, au_scopes = [], au_permissions = [], au_permission_bound = False \<rparr>"

definition issue_local_session :: "auth_env \<Rightarrow> session_manager \<Rightarrow> int \<Rightarrow> string \<Rightarrow> string \<Rightarrow> local_user \<Rightarrow> issued_session" where
  "issue_local_session env sm now csrf sid u = \<lparr> is_cookie_value = en_sign env
       (session_payload env now (sm_max_age sm) csrf sid (Some (en_hash env (lu_password_hash u))) (principal_from_user u csrf)),
     is_csrf_token = csrf \<rparr>"

section \<open>Local login\<close>

datatype login_status = Login_Success | Auth_Disabled | Break_Glass_Disabled | Break_Glass_Internal_Only | Locked_Out
  | Unknown_Login | Invalid_Credentials

record login_outcome =
  lo_status :: login_status
  lo_user :: "local_user option"
  lo_principal :: "principal option"
  lo_session :: "issued_session option"
  lo_active_until :: "int option"

definition login_failed :: "login_status \<Rightarrow> login_outcome" where
  "login_failed status = \<lparr> lo_status = status, lo_user = None, lo_principal = None, lo_session = None, lo_active_until = None \<rparr>"

record login_draws =
  ld_csrf :: string
  ld_sid :: string
  ld_second_event_id :: string

definition note_event :: "auth_env \<Rightarrow> request \<Rightarrow> int \<Rightarrow> string \<Rightarrow> bool \<Rightarrow> string option \<Rightarrow> string option \<Rightarrow> string option \<Rightarrow> gate_state \<Rightarrow> auth_error + gate_state" where
  "note_event env rq now event_type success subject_id subject_name detail s =
     and_then (record_event env rq now event_type success None subject_id subject_name detail (gs_db s)) (\<lambda>db. Inr (s\<lparr> gs_db := db \<rparr>))"

definition complete_login :: "auth_env \<Rightarrow> request \<Rightarrow> int \<Rightarrow> login_draws \<Rightarrow> session_manager \<Rightarrow> local_user \<Rightarrow> gate_state \<Rightarrow>
  auth_error + (login_outcome \<times> gate_state)" where
  \<comment> \<open>once the password was right\<close>
  "complete_login env rq now ld sm known s =
     and_then (record_local_user_login (lu_user_id known) now (gs_db s)) (\<lambda>(u, db). let s1 = s\<lparr> gs_db := db \<rparr> in
     and_then (if en_identity_mode env = ''local_single_user'' then
         (case en_break_glass env of
            None \<Rightarrow> Inr (None, s1)
          | Some bg \<Rightarrow> and_then (note_event env rq now ''break_glass_activated'' True (Some (lu_user_id u)) (Some (lu_username u))
                (Some (''Break-glass active until '' @ en_iso env (now + bg_ttl bg))) (activate_break_glass bg now s1)) (\<lambda>s2.
              Inr (Some (now + bg_ttl bg), s2)))
       else Inr (None, s1)) (\<lambda>(until, s2).
     and_then (note_event env (rq\<lparr> rq_event_id := ld_second_event_id ld \<rparr>) now ''login_succeeded'' True (Some (lu_user_id u)) (Some (lu_username u))
         (map_option (\<lambda>t. ''break_glass_active_until='' @ en_iso env t) until) s2) (\<lambda>s3. Inr
       (\<lparr> lo_status = Login_Success, lo_user = Some u, lo_principal = Some (principal_from_user u (ld_csrf ld)),
          lo_session = Some (issue_local_session env sm now (ld_csrf ld) (ld_sid ld) u), lo_active_until = until \<rparr>, s3))))"

definition attempt_login :: "auth_env \<Rightarrow> request \<Rightarrow> int \<Rightarrow> login_draws \<Rightarrow> session_manager \<Rightarrow> string \<Rightarrow> string \<Rightarrow> gate_state \<Rightarrow>
  auth_error + (login_outcome \<times> gate_state)" where
  \<comment> \<open>past the checks of the break-glass mode\<close>
  "attempt_login env rq now ld sm username password s =
     and_then (normalize_username username) (\<lambda>name.
     and_then (locked_out_until (en_failure_window env) (en_failure_threshold env) (en_lockout env) name now (gs_db s)) (\<lambda>locked.
       case locked of
         Some t \<Rightarrow> and_then (note_event env rq now ''login_blocked'' False None (Some name) (Some (''Locked out until '' @ en_iso env t)) s) (\<lambda>s'.
           Inr (login_failed Locked_Out, s'))
       | None \<Rightarrow> (case get_local_user_by_username name (gs_db s) of
           Inl e \<Rightarrow> if e = Unknown_User then
               and_then (note_event env rq now ''login_failed'' False None (Some name) (Some ''Unknown username.'') s) (\<lambda>s'.
                 Inr (login_failed Unknown_Login, s'))
             else Inl e
         | Inr u \<Rightarrow>
             if \<not> lu_enabled u \<or> \<not> (password \<noteq> [] \<and> en_check_password env password (lu_password_hash u)) then
               and_then (note_event env rq now ''login_failed'' False (Some (lu_user_id u)) (Some (lu_username u))
                 (Some ''Invalid password or disabled user.'') s) (\<lambda>s'. Inr ((login_failed Invalid_Credentials)\<lparr> lo_user := Some u \<rparr>, s'))
             else complete_login env rq now ld sm u s)))"

definition perform_local_login :: "auth_env \<Rightarrow> request \<Rightarrow> int \<Rightarrow> login_draws \<Rightarrow> session_manager \<Rightarrow> string \<Rightarrow> string \<Rightarrow> gate_state \<Rightarrow>
  auth_error + (login_outcome \<times> gate_state)" where
  "perform_local_login env rq now ld sm username password s =
     (let name_or_none = (let n = lower (strip username) in if n = [] then None else Some n) in
      if en_auth_mode env \<noteq> ''local'' then Inr (login_failed Auth_Disabled, s)
      else if en_identity_mode env = ''local_single_user'' then
        (case en_break_glass env of
           None \<Rightarrow> and_then (note_event env rq now ''break_glass_login_blocked'' False None name_or_none
             (Some ''Break-glass local login is disabled by configuration.'') s) (\<lambda>s'. Inr (login_failed Break_Glass_Disabled, s'))
         | Some bg \<Rightarrow>
             if \<not> bg_enabled bg then and_then (note_event env rq now ''break_glass_login_blocked'' False None name_or_none
               (Some ''Break-glass local login is disabled by configuration.'') s) (\<lambda>s'. Inr (login_failed Break_Glass_Disabled, s'))
             else if \<not> is_remote_address_allowed env bg (request_remote_addr env rq) then
               and_then (note_event env rq now ''break_glass_login_blocked'' False None name_or_none
                 (Some ''Break-glass local login requires an internal address.'') s) (\<lambda>s'. Inr (login_failed Break_Glass_Internal_Only, s'))
             else attempt_login env rq now ld sm username password s)
      else attempt_login env rq now ld sm username password s)"

section \<open>OIDC callback and logout\<close>

datatype callback_status = Callback_Success | Callback_Disabled | Missing_Code_Or_State | Callback_Unmapped | Callback_Failed

record callback_outcome =
  cb_status :: callback_status
  cb_principal :: "principal option"
  cb_session :: "issued_session option"

definition callback_failed :: "callback_status \<Rightarrow> callback_outcome" where
  "callback_failed status = \<lparr> cb_status = status, cb_principal = None, cb_session = None \<rparr>"

definition complete_oidc_callback :: "auth_env \<Rightarrow> request \<Rightarrow> int \<Rightarrow> login_draws \<Rightarrow> string option \<Rightarrow> string option \<Rightarrow> string option \<Rightarrow>
  string option \<Rightarrow> gate_state \<Rightarrow> auth_error + (callback_outcome \<times> gate_state)" where
  \<comment> \<open>where the answer redirects to is not modelled\<close>
  "complete_oidc_callback env rq now ld code state err state_cookie s = (case en_session_manager env of
     None \<Rightarrow> Inr (callback_failed Callback_Disabled, s)
   | Some sm \<Rightarrow>
       if en_auth_mode env \<noteq> ''oidc'' \<or> en_oidc env = None then Inr (callback_failed Callback_Disabled, s)
       else if text_or err [] \<noteq> [] \<or> text_or code [] = [] \<or> text_or state [] = [] then
         and_then (note_event env rq now ''login_failed'' False None None (Some (text_or err ''OIDC callback missing code or state.'')) s) (\<lambda>s'.
           Inr (callback_failed Missing_Code_Or_State, s'))
       else (case en_oidc_callback env (text_or code []) (text_or state []) state_cookie of
         Inl (Authorization_Error d) \<Rightarrow> and_then (note_event env rq now ''login_failed'' False None None (Some d) s) (\<lambda>s'.
           Inr (callback_failed Callback_Unmapped, s'))
       | Inl (Authentication_Error d) \<Rightarrow> and_then (note_event env rq now ''login_failed'' False None None (Some d) s) (\<lambda>s'.
           Inr (callback_failed Callback_Failed, s'))
       | Inr (p, return_to) \<Rightarrow> and_then (note_event env rq now ''login_succeeded'' True (Some (au_user_id p)) (Some (au_username p)) None s) (\<lambda>s'.
           Inr (\<lparr> cb_status = Callback_Success, cb_principal = Some p, cb_session = Some (issue_session env sm now (ld_csrf ld) (ld_sid ld) p) \<rparr>, s'))))"

definition perform_logout :: "auth_env \<Rightarrow> request \<Rightarrow> int \<Rightarrow> login_draws \<Rightarrow> principal option \<Rightarrow> gate_state \<Rightarrow> auth_error + (bool \<times> gate_state)" where
  \<comment> \<open>whether the break-glass window was cleared\<close>
  "perform_logout env rq now ld p s = (case p of
     None \<Rightarrow> Inr (False, s)
   | Some q \<Rightarrow> and_then (record_event env rq now ''logout'' True (Some q) (Some (au_user_id q)) (Some (au_username q)) None (gs_db s)) (\<lambda>db.
       let s1 = s\<lparr> gs_db := db \<rparr> in
       if en_identity_mode env = ''local_single_user'' \<and> au_auth_provider q = ''local'' \<and> en_break_glass env \<noteq> None then
         and_then (record_event env (rq\<lparr> rq_event_id := ld_second_event_id ld \<rparr>) now ''break_glass_cleared'' True (Some q) (Some (au_user_id q))
           (Some (au_username q)) (Some ''Break-glass window cleared by logout.'') (gs_db (clear_break_glass s1))) (\<lambda>db'.
           Inr (True, (clear_break_glass s1)\<lparr> gs_db := db' \<rparr>))
       else Inr (False, s1)))"

end
