(* ===== verification/AuthFacts.thy ===== *)
theory AuthFacts
  imports AuthLogin
begin

text \<open>
  Facts of the gate: what a passed request has gone through, which permissions a service token can
  hold, and what the catalog requires below the paths that decide about proposals, policies and
  decisions.
\<close>

section \<open>A passed request\<close>

lemma gate_passed:
  assumes "gate env rq now s = Inr (Some (Passed p), s')" and "en_auth_mode env \<noteq> ''disabled''"
  obtains oc db s2 where "authenticate_request env rq now (gs_db s) = Inr (Some oc, db)" and "oc_principal oc = p"
    and "enforce_break_glass_access env rq now p (s\<lparr> gs_db := db \<rparr>) = Inr (None, s2)"
    and "enforce_csrf_protection env rq p (oc_via_cookie oc) = None"
    and "authorize_request p (required_role_for_request (en_policies env) (rq_path rq) (Some (rq_method rq)))
       (required_scope_for_request (en_policies env) (rq_path rq) (Some (rq_method rq)))
       (required_permission_for_request (en_policies env) (rq_path rq) (rq_query rq) (Some (rq_method rq)))
       (en_unsafe_admin env) = None"
  using assms
  by (auto simp: gate_def Let_def and_then_Inr_iff split: option.splits prod.splits if_splits)

lemma authorized_machine:
  assumes "authorize_request (Some q) (Some role) scope permission unsafe = None"
    and "au_auth_provider q \<in> {''service_token'', ''machine_jwt''}"
  shows "has_required_service_token_scope (au_scopes q) scope" and "has_required_permission (context_of q) permission"
  using assms by (auto simp: authorize_request_def Let_def split: if_splits)

section \<open>Permissions of a service token\<close>

lemma token_permissions:
  "au_auth_provider q = ''service_token'' \<Longrightarrow> p \<in> set (permissions_for_principal (context_of q)) \<Longrightarrow>
     p \<in> set (permissions_for_role (au_role q)) \<and> p \<in> set (permissions_for_service_token_scopes (au_scopes q))"
  by (auto simp: permissions_for_principal_def context_of_def split: if_splits)

lemma scope_permissions:
  "p \<in> set (permissions_for_service_token_scopes scopes) \<longleftrightarrow>
     (\<exists>s \<in> set scopes. \<exists>ps. map_of SERVICE_SCOPE_PERMISSIONS s = Some ps \<and> p \<in> set ps)"
  by (force simp: permissions_for_service_token_scopes_def split: option.splits)

lemma required_scope_held:
  "has_required_service_token_scope scopes (Some s) \<Longrightarrow> s \<in> set scopes \<or> (s = SCOPE_PROPOSALS_DRAFT \<and> SCOPE_ADMIN_WRITE \<in> set scopes)"
  by (auto simp: has_required_service_token_scope_def scope_implications_def list_ex_iff split: if_splits)

definition scope_grants :: "string list" where
  \<comment> \<open>every permission some scope grants\<close>
  "scope_grants = concat (map snd SERVICE_SCOPE_PERMISSIONS)"

lemma token_grants:
  assumes "au_auth_provider q = ''service_token''" and "has_required_permission (context_of q) (Some r)"
  obtains g where "g \<in> set scope_grants" and "g \<in> set (permissions_for_role (au_role q))"
    and "g \<in> set (permissions_for_service_token_scopes (au_scopes q))"
    and "granted_permission_satisfies_required g (normalize_required_permission r)"
proof -
  obtain g where g: "g \<in> set (permissions_for_principal (context_of q))"
      "granted_permission_satisfies_required g (normalize_required_permission r)"
    using assms(2) by (auto simp: has_required_permission_def Let_def list_ex_iff)
  from token_permissions [OF assms(1) g(1)] have h: "g \<in> set (permissions_for_role (au_role q))"
      "g \<in> set (permissions_for_service_token_scopes (au_scopes q))" by auto
  from h(2) have "g \<in> set scope_grants"
    by (force simp: scope_permissions scope_grants_def dest: map_of_SomeD)
  with h g(2) that show ?thesis by blast
qed

definition decided_permissions :: "string list" where
  \<comment> \<open>reading and changing policies and decisions\<close>
  "decided_permissions = [PERMISSION_CONTROL_POLICY_READ, PERMISSION_CONTROL_POLICY_WRITE,
     PERMISSION_CONTROL_DECISIONS_READ, PERMISSION_CONTROL_DECISIONS_WRITE]"

definition exact_permissions :: "string list" where
  "exact_permissions = decided_permissions @ [PERMISSION_CONTROL_POLICY_DRAFT, PERMISSION_CONTROL_ACTION_PROPOSALS_WRITE]"

lemma exact_normal: "list_all (\<lambda>r. normalize_required_permission r = r) exact_permissions"
  by code_simp

lemma exact_granted: "list_all (\<lambda>r. list_all (\<lambda>g. granted_permission_satisfies_required g r \<longrightarrow> g = r) scope_grants) exact_permissions"
  by code_simp

lemma never_granted: "list_all (\<lambda>r. r \<notin> set scope_grants) decided_permissions"
  by code_simp

lemma token_grants_exactly:
  assumes "au_auth_provider q = ''service_token''" and "has_required_permission (context_of q) (Some r)" and "r \<in> set exact_permissions"
  shows "r \<in> set scope_grants" and "r \<in> set (permissions_for_role (au_role q))"
    and "r \<in> set (permissions_for_service_token_scopes (au_scopes q))"
proof -
  obtain g where g: "g \<in> set scope_grants" "g \<in> set (permissions_for_role (au_role q))"
      "g \<in> set (permissions_for_service_token_scopes (au_scopes q))"
      "granted_permission_satisfies_required g (normalize_required_permission r)"
    by (rule token_grants [OF assms(1,2)])
  have "g = r"
    using g(1,4) assms(3) exact_normal exact_granted by (simp add: list_all_iff)
  with g show "r \<in> set scope_grants" and "r \<in> set (permissions_for_role (au_role q))"
    and "r \<in> set (permissions_for_service_token_scopes (au_scopes q))" by simp_all
qed

section \<open>What the catalog requires\<close>

lemma lookup_append:
  "lookup_field f (ps @ qs) c = (case lookup_field f ps c of None \<Rightarrow> lookup_field f qs c | Some v \<Rightarrow> Some v)"
  by (induction ps) (auto split: option.splits)

lemma lookup_skips: "list_all (\<lambda>p. \<not> policy_matches p (rc_path c)) ps \<Longrightarrow> lookup_field f ps c = None"
  by (induction ps) auto

lemma upper_char_idem [simp]: "upper_char (upper_char c) = upper_char c"
proof -
  have "(of_char c :: nat) < 256"
    by (metis nat_of_char_less_256)
  then show ?thesis
    by (auto simp: upper_char_def Let_def of_char_of)
qed

lemma upper_ascii_idem [simp]: "upper_ascii (upper_ascii s) = upper_ascii s"
  by (simp add: upper_ascii_def)

lemma upper_ascii_Nil [simp]: "upper_ascii s = [] \<longleftrightarrow> s = []"
  by (simp add: upper_ascii_def)

lemma request_method_not_Nil [simp]: "request_method m \<noteq> []"
  by (auto simp: request_method_def text_or_def split: option.splits)

lemma request_context:
  "route_context_of path (Some (request_method m)) query = \<lparr> rc_path = path, rc_method = Some (request_method m), rc_query = query \<rparr>"
proof -
  have "text_or (Some (request_method m)) [] = request_method m"
    by (simp add: text_or_def)
  moreover have "upper_ascii (request_method m) = request_method m"
    by (simp add: request_method_def)
  ultimately show ?thesis
    by (simp add: route_context_of_def)
qed

lemma text_or_method [simp]: "text_or (Some (request_method m)) d = request_method m"
  by (simp add: text_or_def)

lemma request_method_upper [simp]: "upper_ascii (request_method m) = request_method m"
  by (simp add: request_method_def)

lemmas catalog_defs = API_ROUTE_POLICY_CATALOG_def session_policies_def audit_policies_def category_policies_def
  scenario_policies_def assistant_policies_def ha_policies_def household_policies_def agent_policies_def
  admin_policies_def control_policies_def ingest_policies_def report_policies_def

lemmas match_defs = policy_matches_def matches_prefix_def route_policy_of_def suffix_def

lemmas lookup_defs = required_role_for_request_def required_scope_for_request_def required_permission_for_request_def
  request_context decision_for_def route_decision_of_def static_route_decision_def

definition resolves_proposal :: "string \<Rightarrow> string \<Rightarrow> bool" where
  \<comment> \<open>the requests that approve, dismiss or otherwise move an existing proposal\<close>
  "resolves_proposal path method \<longleftrightarrow>
     prefix ''/api/actions/'' path \<and> path \<noteq> ACTIONS_DRAFT_PATH \<and> method \<notin> {''GET'', ''HEAD''} \<or>
     prefix ''/api/ha/actions/proposals/'' path \<and> method \<noteq> ''GET''"

lemma action_needs:
  assumes "''/api/actions/'' @ rest \<noteq> ACTIONS_DRAFT_PATH" and "request_method (Some m) \<notin> {''GET'', ''HEAD''}"
  shows "required_role_for_request API_ROUTE_POLICY_CATALOG (''/api/actions/'' @ rest) (Some m) = Some Operator"
    and "required_scope_for_request API_ROUTE_POLICY_CATALOG (''/api/actions/'' @ rest) (Some m) = Some SCOPE_ADMIN_WRITE"
    and "required_permission_for_request API_ROUTE_POLICY_CATALOG (''/api/actions/'' @ rest) query (Some m) =
       Some PERMISSION_CONTROL_ACTION_PROPOSALS_WRITE"
  using assms
  by (simp_all add: catalog_defs match_defs lookup_defs api_actions_request_role_def
      api_actions_request_scope_def api_actions_request_permission_def is_read_def)

lemma ha_needs:
  assumes "request_method (Some m) \<noteq> ''GET''"
  shows "required_role_for_request API_ROUTE_POLICY_CATALOG (''/api/ha/actions/proposals/'' @ rest) (Some m) = Some Operator"
    and "required_scope_for_request API_ROUTE_POLICY_CATALOG (''/api/ha/actions/proposals/'' @ rest) (Some m) = Some SCOPE_ADMIN_WRITE"
    and "required_permission_for_request API_ROUTE_POLICY_CATALOG (''/api/ha/actions/proposals/'' @ rest) query (Some m) =
       Some PERMISSION_CONTROL_ACTION_PROPOSALS_WRITE"
  using assms
  by (simp_all add: catalog_defs match_defs lookup_defs api_ha_request_role_def
      api_ha_request_scope_def api_ha_request_permission_def)

lemma resolving_needs:
  assumes "resolves_proposal path (request_method (Some m))"
  shows "required_role_for_request API_ROUTE_POLICY_CATALOG path (Some m) = Some Operator"
    and "required_scope_for_request API_ROUTE_POLICY_CATALOG path (Some m) = Some SCOPE_ADMIN_WRITE"
    and "required_permission_for_request API_ROUTE_POLICY_CATALOG path query (Some m) = Some PERMISSION_CONTROL_ACTION_PROPOSALS_WRITE"
  using assms unfolding resolves_proposal_def prefix_def by (metis action_needs ha_needs)+

definition below :: "string \<Rightarrow> string \<Rightarrow> bool" where
  "below path base \<longleftrightarrow> path = base \<or> prefix (base @ ''/'') path"

lemma below_cases:
  assumes "below path base"
  obtains "path = base" | rest where "path = (base @ ''/'') @ rest"
  using assms unfolding below_def prefix_def by blast

lemma policy_needs:
  assumes "below path ''/control/policies''"
  shows "required_role_for_request API_ROUTE_POLICY_CATALOG path (Some m) = Some Admin"
    and "required_scope_for_request API_ROUTE_POLICY_CATALOG path (Some m) =
       Some (if path = ''/control/policies'' \<and> request_method (Some m) = ''POST'' then SCOPE_POLICIES_DRAFT else SCOPE_ADMIN_WRITE)"
    and "required_permission_for_request API_ROUTE_POLICY_CATALOG path query (Some m) =
       Some (if request_method (Some m) \<in> {''GET'', ''HEAD''} then PERMISSION_CONTROL_POLICY_READ
         else if path = ''/control/policies'' \<and> request_method (Some m) = ''POST'' then PERMISSION_CONTROL_POLICY_DRAFT
         else PERMISSION_CONTROL_POLICY_WRITE)"
  by (cases rule: below_cases [OF assms]; simp add: catalog_defs match_defs lookup_defs control_policies_request_scope_def
      control_policies_request_permission_def creates_policy_def is_read_def)+

lemma decision_needs:
  assumes "below path ''/control/decisions''"
  shows "required_role_for_request API_ROUTE_POLICY_CATALOG path (Some m) \<noteq> None"
    and "required_permission_for_request API_ROUTE_POLICY_CATALOG path query (Some m) =
       Some (if request_method (Some m) \<in> {''GET'', ''HEAD''} then PERMISSION_CONTROL_DECISIONS_READ else PERMISSION_CONTROL_DECISIONS_WRITE)"
  by (cases rule: below_cases [OF assms]; simp add: catalog_defs match_defs lookup_defs decision_read_def)+

section \<open>Paths nobody guards\<close>

definition protects :: "route_policy \<Rightarrow> bool" where
  "protects p \<longleftrightarrow> rp_path_decision p \<noteq> None \<or> rp_request_decision p \<noteq> None"

definition covered :: "string \<Rightarrow> bool" where
  "covered path \<longleftrightarrow> list_ex (\<lambda>p. protects p \<and> policy_matches p path) API_ROUTE_POLICY_CATALOG"

lemma lookup_None_iff:
  "lookup_field f ps c = None \<longleftrightarrow>
     list_all (\<lambda>p. policy_matches p (rc_path c) \<longrightarrow> (case decision_for p c of None \<Rightarrow> True | Some d \<Rightarrow> f d c = None)) ps"
  by (induction ps) (auto split: option.splits)

definition decides_role :: "route_context \<Rightarrow> route_policy \<Rightarrow> bool" where
  "decides_role c p \<longleftrightarrow> (case decision_for p c of None \<Rightarrow> False | Some d \<Rightarrow> rd_role d c \<noteq> None)"

lemma protecting_decides:
  assumes "rc_method c \<noteq> None" and "protects p" and "p \<in> set API_ROUTE_POLICY_CATALOG"
  shows "decides_role c p \<or> p = hd report_policies"
proof -
  have "list_all (\<lambda>p. protects p \<longrightarrow> decides_role c p \<or> p = hd report_policies) API_ROUTE_POLICY_CATALOG"
    using assms(1)
    by (simp add: catalog_defs protects_def decides_role_def decision_for_def route_policy_of_def route_decision_of_def
        static_route_decision_def schedule_dispatches_request_role_def schedule_dispatch_item_role_def
        categories_request_role_def categories_rules_request_role_def categories_overrides_request_role_def
        config_request_role_def scenarios_request_role_def api_ha_request_role_def api_actions_request_role_def
        reports_read_role_def)
  with assms(2,3) show ?thesis by (simp add: list_all_iff)
qed

lemma some_policy_decides:
  assumes "rc_method c \<noteq> None" and "covered (rc_path c)"
  shows "\<exists>p \<in> set API_ROUTE_POLICY_CATALOG. policy_matches p (rc_path c) \<and> decides_role c p"
proof -
  obtain p where p: "p \<in> set API_ROUTE_POLICY_CATALOG" "protects p" "policy_matches p (rc_path c)"
    using assms(2) by (auto simp: covered_def list_ex_iff)
  show ?thesis
  proof (cases "p = hd report_policies")
    case False
    then show ?thesis using protecting_decides [OF assms(1) p(2,1)] p by blast
  next
    case True
    with p(3) have "rc_path c = ''/runs'' \<or> prefix ''/runs/'' (rc_path c)"
      by (auto simp: report_policies_def match_defs)
    then show ?thesis
    proof
      assume "rc_path c = ''/runs''"
      with True assms(1) have "decides_role c p"
        by (simp add: decides_role_def report_policies_def route_policy_of_def decision_for_def route_decision_of_def runs_read_role_def)
      with p show ?thesis by blast
    next
      assume "prefix ''/runs/'' (rc_path c)"
      then have "policy_matches (report_policies ! 1) (rc_path c) \<and> decides_role c (report_policies ! 1)"
        using assms(1) by (simp add: decides_role_def report_policies_def match_defs decision_for_def route_decision_of_def)
      moreover have "report_policies ! 1 \<in> set API_ROUTE_POLICY_CATALOG"
        by (simp add: API_ROUTE_POLICY_CATALOG_def report_policies_def)
      ultimately show ?thesis by blast
    qed
  qed
qed

lemma role_needed_iff_covered: "required_role_for_request API_ROUTE_POLICY_CATALOG path (Some m) = None \<longleftrightarrow> \<not> covered path"
proof
  assume none: "required_role_for_request API_ROUTE_POLICY_CATALOG path (Some m) = None"
  show "\<not> covered path"
  proof
    assume "covered path"
    from some_policy_decides [of "route_context_of path (Some (request_method (Some m))) []"] this none show False
      by (auto simp: required_role_for_request_def request_context lookup_None_iff list_all_iff decides_role_def split: option.splits)
  qed
next
  assume "\<not> covered path"
  then show "required_role_for_request API_ROUTE_POLICY_CATALOG path (Some m) = None"
    by (auto simp: required_role_for_request_def request_context lookup_None_iff list_all_iff covered_def list_ex_iff
        protects_def decision_for_def split: option.splits)
qed

end
