(* ===== verification/AuthTokens.thy ===== *)
theory AuthTokens
  imports AuthFacts
begin

text \<open>
  Service tokens over the life of the store: the operations of the store as steps, the soundness of
  the token table, and how a token's row evolves.
\<close>

section \<open>Steps of the store\<close>

inductive auth_step :: "auth_db \<Rightarrow> auth_db \<Rightarrow> bool" where
  user_created: "create_local_user u db = Inr (v, db') \<Longrightarrow> auth_step db db'"
| user_updated: "update_local_user user_id role enabled db = Inr (v, db') \<Longrightarrow> auth_step db db'"
| password_changed: "update_local_user_password user_id password_hash db = Inr (v, db') \<Longrightarrow> auth_step db db'"
| login_recorded: "record_local_user_login user_id logged_in_at db = Inr (v, db') \<Longrightarrow> auth_step db db'"
| token_created: "create_service_token t db = Inr (t', db') \<Longrightarrow> auth_step db db'"
| token_revoked: "revoke_service_token token_id revoked_at db = Inr (t', db') \<Longrightarrow> auth_step db db'"
| token_used: "record_service_token_use token_id used_at db = Inr (t', db') \<Longrightarrow> auth_step db db'"
| events_recorded: "record_auth_audit_events es db = Inr (fs, db') \<Longrightarrow> auth_step db db'"

definition empty_auth_db :: auth_db where
  "empty_auth_db = \<lparr> ab_users = [], ab_tokens = [], ab_events = [] \<rparr>"

abbreviation auth_steps :: "auth_db \<Rightarrow> auth_db \<Rightarrow> bool" where
  "auth_steps \<equiv> auth_step\<^sup>*\<^sup>*"

section \<open>Scopes\<close>

lemma known_scopes_normal: "list_all (\<lambda>s. strip s \<noteq> [] \<and> lower (strip s) = s) SERVICE_TOKEN_SCOPES"
  by code_simp

lemma normalized_scopes_normal:
  assumes "normalize_service_token_scopes xs = Some ys"
  shows "normalize_service_token_scopes ys = Some ys"
proof -
  let ?n = "map (\<lambda>s. lower (strip s)) (filter (\<lambda>s. strip s \<noteq> []) xs)"
  from assms have n: "?n \<noteq> []" "\<forall>s \<in> set ?n. s \<in> set SERVICE_TOKEN_SCOPES" and ys: "ys = filter (\<lambda>s. s \<in> set ?n) SERVICE_TOKEN_SCOPES"
    by (auto simp: normalize_service_token_scopes_def Let_def list_all_iff simp del: map_is_Nil_conv split: if_splits)
  have known: "\<forall>s \<in> set ys. strip s \<noteq> [] \<and> lower (strip s) = s"
    using known_scopes_normal by (auto simp: ys list_all_iff)
  then have "filter (\<lambda>s. strip s \<noteq> []) ys = ys" "map (\<lambda>s. lower (strip s)) ys = ys"
    by (simp_all add: filter_id_conv map_idI)
  moreover have "ys \<noteq> []"
    using n by (metis (no_types, lifting) ys filter_empty_conv hd_in_set)
  moreover have "filter (\<lambda>s. s \<in> set ys) SERVICE_TOKEN_SCOPES = ys"
    by (auto simp: ys intro: filter_cong)
  moreover have "\<forall>s \<in> set ys. s \<in> set SERVICE_TOKEN_SCOPES"
    by (auto simp: ys)
  ultimately show ?thesis
    by (simp add: normalize_service_token_scopes_def Let_def list_all_iff)
qed

section \<open>The token table\<close>

definition tokens_sound :: "auth_db \<Rightarrow> bool" where
  "tokens_sound db \<longleftrightarrow> distinct (map tk_token_id (ab_tokens db)) \<and>
     (\<forall>t \<in> set (ab_tokens db). normalize_service_token_scopes (tk_scopes t) = Some (tk_scopes t))"

definition token_evolves :: "service_token \<Rightarrow> service_token \<Rightarrow> bool" where
  \<comment> \<open>only the use may change, and a revocation appear\<close>
  "token_evolves t u \<longleftrightarrow> tk_token_id u = tk_token_id t \<and> tk_token_name u = tk_token_name t \<and> tk_secret_hash u = tk_secret_hash t \<and>
     tk_role u = tk_role t \<and> tk_scopes u = tk_scopes t \<and> tk_expires_at u = tk_expires_at t \<and> tk_created_at u = tk_created_at t \<and>
     (tk_revoked_at t \<noteq> None \<longrightarrow> tk_revoked_at u = tk_revoked_at t)"

lemma token_evolves_refl: "token_evolves t t"
  by (simp add: token_evolves_def)

lemma token_evolves_trans: "token_evolves t u \<Longrightarrow> token_evolves u v \<Longrightarrow> token_evolves t v"
  by (auto simp: token_evolves_def)

definition tokens_kept :: "auth_db \<Rightarrow> auth_db \<Rightarrow> bool" where
  "tokens_kept db db' \<longleftrightarrow> tokens_sound db' \<and> (\<forall>t \<in> set (ab_tokens db). \<exists>u \<in> set (ab_tokens db'). token_evolves t u)"

lemma same_tokens_kept: "tokens_sound db \<Longrightarrow> ab_tokens db' = ab_tokens db \<Longrightarrow> tokens_kept db db'"
  by (auto simp: tokens_kept_def tokens_sound_def intro: token_evolves_refl)

lemma write_user_tokens: "write_user user_id f db = Inr (u, db') \<Longrightarrow> ab_tokens db' = ab_tokens db"
  by (auto simp: write_user_def Let_def and_then_Inr_iff split: if_splits)

lemma insert_events_tokens: "insert_audit_events es db = Inr db' \<Longrightarrow> ab_tokens db' = ab_tokens db \<and> ab_users db' = ab_users db"
  by (induction es arbitrary: db) (force split: if_splits)+

lemma tokens_keptI:
  assumes "map tk_token_id (ab_tokens db') = map tk_token_id (ab_tokens db)" and "tokens_sound db"
    and "list_all2 token_evolves (ab_tokens db) (ab_tokens db')"
  shows "tokens_kept db db'"
proof -
  have "tk_scopes u = tk_scopes t" if "token_evolves t u" for t u
    using that by (simp add: token_evolves_def)
  then have "\<forall>u \<in> set (ab_tokens db'). \<exists>t \<in> set (ab_tokens db). tk_scopes u = tk_scopes t"
    by (metis assms(3) in_set_conv_nth list_all2_conv_all_nth)
  then have "tokens_sound db'"
    using assms(1,2) unfolding tokens_sound_def by metis
  moreover have "\<forall>t \<in> set (ab_tokens db). \<exists>u \<in> set (ab_tokens db'). token_evolves t u"
    by (metis assms(3) in_set_conv_nth list_all2_conv_all_nth)
  ultimately show ?thesis by (simp add: tokens_kept_def)
qed

lemma map_tokens_kept:
  assumes "tokens_sound db" and f: "\<And>t. token_evolves t (f t)"
    and db': "ab_tokens db' = map (\<lambda>t. if tk_token_id t = token_id then f t else t) (ab_tokens db)"
  shows "tokens_kept db db'"
proof (rule tokens_keptI)
  let ?g = "\<lambda>t. if tk_token_id t = token_id then f t else t"
  have g: "token_evolves t (?g t)" for t
    using f token_evolves_refl by simp
  then show "list_all2 token_evolves (ab_tokens db) (ab_tokens db')"
    unfolding db' by (simp add: list_all2_conv_all_nth)
  have "tk_token_id (?g t) = tk_token_id t" for t
    using g [of t] unfolding token_evolves_def by blast
  then show "map tk_token_id (ab_tokens db') = map tk_token_id (ab_tokens db)"
    unfolding db' map_map by (intro map_cong) (simp_all only: comp_apply)
qed (rule assms(1))

lemma write_token_kept:
  assumes "tokens_sound db" and "write_token token_id f db = Inr (t', db')" and "\<And>t. token_evolves t (f t)"
  shows "tokens_kept db db'"
  using assms by (intro map_tokens_kept [of db f _ token_id]) (auto simp: write_token_def Let_def and_then_Inr_iff split: if_splits)

lemma create_token_kept:
  assumes "tokens_sound db" and "create_service_token t db = Inr (t', db')"
  obtains scopes name where "normalize_service_token_scopes (tk_scopes t) = Some scopes" and "tokens_kept db db'"
    and "normalize_service_token_name (tk_token_name t) = Inr name"
    and "ab_tokens db' = ab_tokens db @ [t\<lparr> tk_token_name := name, tk_scopes := scopes \<rparr>]"
proof -
  from assms(2) obtain scopes name where n: "normalize_service_token_scopes (tk_scopes t) = Some scopes"
      and named: "normalize_service_token_name (tk_token_name t) = Inr name"
      and fresh: "\<forall>u \<in> set (ab_tokens db). tk_token_id u \<noteq> tk_token_id t"
      and db': "ab_tokens db' = ab_tokens db @ [t\<lparr> tk_token_name := name, tk_scopes := scopes \<rparr>]"
    by (auto simp: create_service_token_def Let_def and_then_Inr_iff list_ex_iff split: option.splits if_splits)
  have "tokens_sound db'"
    using assms(1) fresh normalized_scopes_normal [OF n] by (auto simp: tokens_sound_def db')
  then have "tokens_kept db db'"
    by (auto simp: tokens_kept_def db' intro: token_evolves_refl)
  with n named db' that show ?thesis by blast
qed

lemma step_tokens_kept: "auth_step db db' \<Longrightarrow> tokens_sound db \<Longrightarrow> tokens_kept db db'"
proof (induction rule: auth_step.induct)
  case (user_created u db v db')
  then show ?case by (auto simp: create_local_user_def Let_def and_then_Inr_iff intro!: same_tokens_kept split: if_splits)
next
  case (user_updated user_id role enabled db v db')
  then show ?case by (auto simp: update_local_user_def and_then_Inr_iff intro!: same_tokens_kept dest: write_user_tokens split: if_splits)
next
  case (password_changed user_id password_hash db v db')
  then show ?case by (auto simp: update_local_user_password_def intro!: same_tokens_kept dest: write_user_tokens)
next
  case (login_recorded user_id logged_in_at db v db')
  then show ?case by (auto simp: record_local_user_login_def intro!: same_tokens_kept dest: write_user_tokens)
next
  case (token_created t db t' db')
  then show ?case by (auto elim: create_token_kept)
next
  case (token_revoked token_id revoked_at db t' db')
  then show ?case
    unfolding revoke_service_token_def
    by (elim write_token_kept [rotated]) (auto simp: token_evolves_def split: option.splits)
next
  case (token_used token_id used_at db t' db')
  then show ?case
    unfolding record_service_token_use_def
    by (elim write_token_kept [rotated]) (auto simp: token_evolves_def)
next
  case (events_recorded es db fs db')
  then show ?case
    by (auto simp: record_auth_audit_events_def and_then_Inr_iff intro!: same_tokens_kept dest: insert_events_tokens split: if_splits)
qed

lemma steps_tokens_kept: "auth_steps db db' \<Longrightarrow> tokens_sound db \<Longrightarrow> tokens_kept db db'"
proof (induction rule: rtranclp_induct)
  case base
  then show ?case by (simp add: same_tokens_kept)
next
  case (step y z)
  then have "tokens_kept db y" "tokens_kept y z"
    using step_tokens_kept by (auto simp: tokens_kept_def)
  then show ?case
    unfolding tokens_kept_def by (meson token_evolves_trans)
qed

lemma reachable_tokens_sound: "auth_steps empty_auth_db db \<Longrightarrow> tokens_sound db"
  using steps_tokens_kept [of empty_auth_db db] by (simp add: tokens_kept_def tokens_sound_def empty_auth_db_def)

lemma find_by_key: "distinct (map key xs) \<Longrightarrow> x \<in> set xs \<Longrightarrow> List.find (\<lambda>y. key y = key x) xs = Some x"
  by (induction xs) (auto simp: image_iff)

lemma find_token:
  assumes "tokens_sound db" and "t \<in> set (ab_tokens db)"
  shows "get_service_token (tk_token_id t) db = Inr t"
  using assms by (simp add: get_service_token_def read_service_token_def tokens_sound_def find_by_key)

end
