(* ===== verification/AuthLockout.thy ===== *)
theory AuthLockout
  imports AuthFacts "HOL-Library.Multiset"
begin

text \<open>
  The lockout of a user name: how the failures at the end of the audit log are counted, and what one
  further attempt adds to the log.
\<close>

section \<open>Failures at the end of the log\<close>

definition failure_of :: "string \<Rightarrow> int \<Rightarrow> audit_event \<Rightarrow> bool" where
  "failure_of name t e \<longleftrightarrow> ae_event_type e \<in> {''login_failed'', ''login_blocked''} \<and> \<not> ae_success e \<and>
     ae_subject_name e = Some name \<and> ae_occurred_at e = t"

lemma count_failures_from:
  "count_failures es (n, latest) = (m, l) \<Longrightarrow> n \<le> m \<and> (latest \<noteq> None \<longrightarrow> l = latest)"
  by (induction es "(n, latest)" arbitrary: n latest rule: count_failures.induct) (fastforce split: if_splits option.splits)+

lemma count_failures_prefix:
  assumes "list_all2 (failure_of name) ts es"
  shows "count_failures (es @ xs) (n, latest) =
    count_failures xs (n + length ts, if latest = None \<and> ts \<noteq> [] then Some (hd ts) else latest)"
  using assms
  by (induction arbitrary: n latest rule: list_all2_induct) (auto simp: failure_of_def split: option.splits)

lemma sort_key_after:
  assumes "sorted (map k ys)" and "\<forall>x \<in> set xs. \<forall>y \<in> set ys. k x < k y"
  shows "sort_key k (xs @ ys) = sort_key k xs @ ys"
proof (rule properties_for_sort_key)
  show "mset (sort_key k xs @ ys) = mset (xs @ ys)" by simp
  show "filter (\<lambda>x. k z = k x) (sort_key k xs @ ys) = filter (\<lambda>x. k z = k x) (xs @ ys)" if "z \<in> set (sort_key k xs @ ys)" for z
    using sort_key_stable [of k "k z" xs] by (simp add: eq_commute)
  show "sorted (map k (sort_key k xs @ ys))"
    using assms by (auto simp: sorted_append intro: less_imp_le)
qed

lemma failures_lock:
  assumes log: "ab_events db = old @ news" and news: "list_all2 (failure_of name) ts news"
    and name: "normalize_username name = Inr name" and ts: "sorted_wrt (<) ts" "length ts = threshold" "0 < threshold"
    and old: "\<forall>e \<in> set old. ae_occurred_at e < hd ts" and window: "now - window \<le> hd ts" and now: "now < last ts + lockout"
  shows "locked_out_until window threshold lockout name now db = Inr (Some (last ts + lockout))"
proof -
  let ?k = "\<lambda>e. (ae_occurred_at e, ae_event_id e)"
  let ?m = "\<lambda>e. ae_subject_name e = Some name \<and> now - window \<le> ae_occurred_at e"
  have times: "map ae_occurred_at news = ts"
    using news by (induction rule: list_all2_induct) (auto simp: failure_of_def)
  have from_first: "hd ts \<le> t" if "t \<in> set ts" for t
    using that ts(1) by (cases ts) auto
  have later: "\<forall>e \<in> set news. hd ts \<le> ae_occurred_at e"
    using from_first by (auto simp: times [symmetric])
  have "\<forall>e \<in> set news. ae_subject_name e = Some name"
    using news by (induction rule: list_all2_induct) (auto simp: failure_of_def)
  with later window have matching: "filter ?m (old @ news) = filter ?m old @ news"
    by (auto simp: filter_id_conv)
  have "sorted_wrt (<) (map ae_occurred_at news)"
    using ts(1) times by simp
  then have "sorted (map ?k news)"
    by (auto simp: sorted_wrt_map less_eq_prod_def elim: sorted_wrt_mono_rel [rotated])
  then have sorted: "rev (sort_key ?k (filter ?m old @ news)) = rev news @ rev (sort_key ?k (filter ?m old))"
    using old later by (subst sort_key_after) (force simp: less_prod_def)+
  obtain rest where recent: "list_auth_audit_events (no_filter\<lparr> ef_subject_name := Some name, ef_since := Some (now - window),
      ef_limit := Some (max (threshold * 4) 20) \<rparr>) db = Inr (rev news @ rest)"
    using ts(2) list_all2_lengthD [OF news]
    by (simp add: list_auth_audit_events_def no_filter_def name given_def log matching sorted Let_def del: filter_append)
  have "list_all2 (failure_of name) (rev ts) (rev news)"
    using news by simp
  from count_failures_prefix [OF this, of rest 0 None]
  have "count_failures (rev news @ rest) (0, None) = count_failures rest (threshold, Some (last ts))"
    using ts(2,3) by (auto simp: hd_rev)
  moreover obtain m l where "count_failures rest (threshold, Some (last ts)) = (m, l)"
    by (cases "count_failures rest (threshold, Some (last ts))")
  moreover from count_failures_from [OF this] have "threshold \<le> m" "l = Some (last ts)"
    by auto
  ultimately show ?thesis
    using now by (simp add: locked_out_until_def recent Let_def)
qed

section \<open>A blocked attempt\<close>

lemma blocked_attempt:
  assumes "locked_out_until (en_failure_window env) (en_failure_threshold env) (en_lockout env) name now (gs_db s) = Inr (Some t)"
    and "normalize_username username = Inr name" and "normalize_username name = Inr name" and "name \<noteq> []"
    and "rq_event_id rq \<notin> ae_event_id ` set (ab_events (gs_db s))"
  obtains e where "attempt_login env rq now ld sm username password s =
      Inr (login_failed Locked_Out, s\<lparr> gs_db := (gs_db s)\<lparr> ab_events := ab_events (gs_db s) @ [e] \<rparr> \<rparr>)"
    and "failure_of name now e" and "ae_event_id e = rq_event_id rq"
proof -
  have "\<not> list_ex (\<lambda>x. ae_event_id x = rq_event_id rq) (ab_events (gs_db s))"
    using assms(5) by (force simp: list_ex_iff)
  then show ?thesis
    using assms(1-4)
    by (intro that) (auto simp: attempt_login_def note_event_def record_event_def record_auth_audit_events_def
        stored_event_def list_auth_audit_events_def no_filter_def failure_of_def)
qed

section \<open>A run of attempts\<close>

record attempt =
  at_request :: request
  at_time :: int
  at_draws :: login_draws
  at_password :: string

fun attempt_all :: "auth_env \<Rightarrow> session_manager \<Rightarrow> string \<Rightarrow> attempt list \<Rightarrow> gate_state \<Rightarrow> auth_error + (login_outcome list \<times> gate_state)" where
  "attempt_all env sm username [] s = Inr ([], s)"
| "attempt_all env sm username (a # as) s =
     and_then (perform_local_login env (at_request a) (at_time a) (at_draws a) sm username (at_password a) s) (\<lambda>(out, s').
     and_then (attempt_all env sm username as s') (\<lambda>(outs, s''). Inr (out # outs, s'')))"

definition spaced :: "int \<Rightarrow> int list \<Rightarrow> bool" where
  \<comment> \<open>instants that go up by at most \<open>d\<close> at a time\<close>
  "spaced d ts = successively (\<lambda>a b. a < b \<and> b \<le> a + d) ts"

lemma spaced_sorted: "spaced d ts \<Longrightarrow> sorted_wrt (<) ts"
  unfolding spaced_def by (auto simp: successively_conv_sorted_wrt [symmetric] elim: successively_mono)

lemma spaced_Cons: "ts \<noteq> [] \<Longrightarrow> spaced d (t # ts) \<longleftrightarrow> t < hd ts \<and> hd ts \<le> t + d \<and> spaced d ts"
  by (cases ts) (auto simp: spaced_def)

lemma spaced_span: "spaced d (ts @ [u]) \<Longrightarrow> u \<le> hd (ts @ [u]) + int (length ts) * d"
proof (induction ts)
  case (Cons t ts)
  then have "t < hd (ts @ [u])" "hd (ts @ [u]) \<le> t + d" "spaced d (ts @ [u])"
    using spaced_Cons [of "ts @ [u]" d t] by simp_all
  with Cons.IH show ?case by (simp add: algebra_simps)
qed simp

lemma spaced_take: "spaced d (xs @ ys) \<Longrightarrow> spaced d xs"
  by (simp add: spaced_def successively_append_iff)

lemma spaced_step: "spaced d (ts @ [u]) \<Longrightarrow> ts \<noteq> [] \<Longrightarrow> last ts < u \<and> u \<le> last ts + d"
  by (simp add: spaced_def successively_append_iff)

lemma hammered:
  assumes mode: "en_auth_mode env = ''local''" "en_identity_mode env \<noteq> ''local_single_user''"
    and name: "normalize_username username = Inr name" "normalize_username name = Inr name" "name \<noteq> []"
    and d: "int (en_failure_threshold env) * d \<le> en_failure_window env" "d < en_lockout env"
    and threshold: "0 < en_failure_threshold env"
    and log: "ab_events (gs_db s) = old @ news" "list_all2 (failure_of name) ts news" "length ts = en_failure_threshold env"
      "\<forall>e \<in> set old. ae_occurred_at e < hd ts"
    and run: "spaced d (ts @ map at_time as)"
    and ids: "distinct (map ae_event_id (ab_events (gs_db s)) @ map (\<lambda>a. rq_event_id (at_request a)) as)"
  shows "\<exists>s'. attempt_all env sm username as s = Inr (map (\<lambda>a. login_failed Locked_Out) as, s') \<and> ab_users (gs_db s') = ab_users (gs_db s)"
  using log run ids
proof (induction as arbitrary: s old news ts)
  case Nil
  then show ?case by simp
next
  case (Cons a as)
  from Cons.prems(3) threshold have "ts \<noteq> []" by auto
  then obtain t rest where ts: "ts = t # rest" by (cases ts) auto
  let ?u = "at_time a"
  have run: "spaced d ((ts @ [?u]) @ map at_time as)" using Cons.prems(5) by simp
  then have first: "spaced d (ts @ [?u])" by (rule spaced_take)
  then have "?u - en_failure_window env \<le> hd ts" "?u < last ts + en_lockout env" "last ts < ?u"
    using spaced_span [OF first] spaced_step [OF first \<open>ts \<noteq> []\<close>] d Cons.prems(3) by (simp_all add: ts del: of_nat_Suc)
  moreover have "sorted_wrt (<) ts"
    using spaced_sorted [OF spaced_take [OF first]] .
  ultimately have locked: "locked_out_until (en_failure_window env) (en_failure_threshold env) (en_lockout env) name ?u (gs_db s) =
      Inr (Some (last ts + en_lockout env))"
    using failures_lock [OF Cons.prems(1,2) name(2)] Cons.prems(3,4) threshold by blast
  have fresh: "rq_event_id (at_request a) \<notin> ae_event_id ` set (ab_events (gs_db s))"
    using Cons.prems(6) by auto
  obtain e where e: "attempt_login env (at_request a) ?u (at_draws a) sm username (at_password a) s =
      Inr (login_failed Locked_Out, s\<lparr> gs_db := (gs_db s)\<lparr> ab_events := ab_events (gs_db s) @ [e] \<rparr> \<rparr>)"
    "failure_of name ?u e" "ae_event_id e = rq_event_id (at_request a)"
    by (rule blocked_attempt [OF locked name fresh])
  let ?s = "s\<lparr> gs_db := (gs_db s)\<lparr> ab_events := ab_events (gs_db s) @ [e] \<rparr> \<rparr>"
  from Cons.prems(2) ts obtain n ns where news: "news = n # ns" "failure_of name t n" "list_all2 (failure_of name) rest ns"
    by (auto simp: list_all2_Cons1)
  have "\<exists>s'. attempt_all env sm username as ?s = Inr (map (\<lambda>a. login_failed Locked_Out) as, s') \<and> ab_users (gs_db s') = ab_users (gs_db ?s)"
  proof (rule Cons.IH [of _ "old @ [n]" "ns @ [e]" "rest @ [?u]"])
    show "ab_events (gs_db ?s) = (old @ [n]) @ ns @ [e]" using Cons.prems(1) news(1) by simp
    show "list_all2 (failure_of name) (rest @ [?u]) (ns @ [e])" using news(3) e(2) by (simp add: list_all2_appendI)
    show "length (rest @ [?u]) = en_failure_threshold env" using Cons.prems(3) ts by simp
    have "t < hd (rest @ [?u])" using first spaced_Cons [of "rest @ [?u]" d t] ts by simp
    moreover have "ae_occurred_at n = t" using news(2) by (simp add: failure_of_def)
    ultimately show "\<forall>e \<in> set (old @ [n]). ae_occurred_at e < hd (rest @ [?u])"
      using Cons.prems(4) ts by fastforce
    show "spaced d ((rest @ [?u]) @ map at_time as)"
      using run ts spaced_Cons [of "(rest @ [?u]) @ map at_time as" d t] by simp
    show "distinct (map ae_event_id (ab_events (gs_db ?s)) @ map (\<lambda>a. rq_event_id (at_request a)) as)"
      using Cons.prems(6) e(3) by auto
  qed
  then show ?case
    using e(1) mode by (auto simp: perform_local_login_def)
qed

end
