(* ===== verification/AuthClaims.thy ===== *)
theory AuthClaims
  imports AuthTokens AuthLockout
begin

text \<open>
  The properties of authentication and authorization: what service tokens can never do, which paths
  are open, the life of service tokens and sessions, and the lockout.
\<close>

section \<open>An environment to try the gate in\<close>

definition sample_env :: auth_env where
  \<comment> \<open>local accounts; a secret is stored with a mark in front, one signed cookie is known\<close>
  "sample_env = \<lparr> en_auth_mode = ''local'', en_identity_mode = ''local'',
     en_session_manager = Some \<lparr> sm_cookie_name = ''session'', sm_csrf_cookie_name = ''csrf'', sm_max_age = 100 \<rparr>,
     en_proxy = None, en_break_glass = None, en_unsafe_admin = False, en_forwarders = [], en_policies = API_ROUTE_POLICY_CATALOG,
     en_machine_jwt = None, en_oidc = None, en_hash = (\<lambda>s. CHR ''#'' # s), en_check_password = (\<lambda>p h. CHR ''#'' # p = h),
     en_valid_ip = (\<lambda>a. True), en_internal_ip = (\<lambda>a. a = ''10.0.0.7''), en_in_network = (\<lambda>a n. a = n),
     en_verified_payload = (\<lambda>v. None), en_parse_instant = (\<lambda>v. if v = ''t110'' then Some 110 else None), en_sign = (\<lambda>p. ''p.s''), en_iso = (\<lambda>t. ''t110''),
     en_oidc_callback = (\<lambda>a b c. Inl (Authentication_Error [])), en_failure_window = 900, en_failure_threshold = 2, en_lockout = 900 \<rparr>"

definition sample_token :: service_token where
  "sample_token = \<lparr> tk_token_id = ''t1'', tk_token_name = ''bot'', tk_secret_hash = ''#key'', tk_role = Operator,
     tk_scopes = [SCOPE_ADMIN_WRITE], tk_expires_at = Some 100, tk_created_at = 1, tk_last_used_at = None, tk_revoked_at = None \<rparr>"

definition sample_state :: "service_token list \<Rightarrow> gate_state" where
  "sample_state ts = \<lparr> gs_db = \<lparr> ab_users = [], ab_tokens = ts, ab_events = [] \<rparr>, gs_active_until = None \<rparr>"

definition sample_request :: "string \<Rightarrow> string \<Rightarrow> string option \<Rightarrow> request" where
  "sample_request path method token = \<lparr> rq_path = path, rq_method = method, rq_query = [],
     rq_headers = (case token of None \<Rightarrow> [] | Some t \<Rightarrow> [(''authorization'', ''Bearer '' @ t)]), rq_cookies = [],
     rq_client = Some ''10.0.0.7'', rq_event_id = ''e1'' \<rparr>"

section \<open>What a machine may never do\<close>

text \<open>A request that moves an existing action proposal (approving or dismissing it under
  \<open>/api/actions/\<close> or \<open>/api/ha/actions/proposals/\<close>) passes the gate for a service token or a machine JWT
  only if it carries the scope \<open>admin:write\<close>; a service token must also have a role above reader.  A
  token without that scope, such as one for drafting, can therefore approve nothing.\<close>
theorem drafting_never_resolves:
  assumes "gate env rq now s = Inr (Some (Passed (Some p)), s')" and "en_auth_mode env \<noteq> ''disabled''"
    and "en_policies env = API_ROUTE_POLICY_CATALOG" and "au_auth_provider p \<in> {''service_token'', ''machine_jwt''}"
    and "resolves_proposal (rq_path rq) (request_method (Some (rq_method rq)))"
  shows "SCOPE_ADMIN_WRITE \<in> set (au_scopes p) \<and> (au_auth_provider p = ''service_token'' \<longrightarrow> au_role p \<noteq> Reader)"
proof -
  from gate_passed [OF assms(1,2)]
  have ok: "authorize_request (Some p) (Some Operator) (Some SCOPE_ADMIN_WRITE) (Some PERMISSION_CONTROL_ACTION_PROPOSALS_WRITE)
      (en_unsafe_admin env) = None"
    using assms(3) resolving_needs [OF assms(5)] by metis
  have "SCOPE_ADMIN_WRITE \<noteq> SCOPE_PROPOSALS_DRAFT" by (simp add: perm_simps)
  with authorized_machine(1) [OF ok assms(4)] required_scope_held have "SCOPE_ADMIN_WRITE \<in> set (au_scopes p)" by blast
  moreover have "PERMISSION_CONTROL_ACTION_PROPOSALS_WRITE \<notin> set (permissions_for_role Reader)" by code_simp
  then have "au_role p \<noteq> Reader" if "au_auth_provider p = ''service_token''"
    using token_grants_exactly(2) [OF that authorized_machine(2) [OF ok assms(4)]] by (auto simp: exact_permissions_def)
  ultimately show ?thesis by blast
qed

theorem drafting_never_resolves_witness:
  "\<exists>p s'. gate sample_env (sample_request ''/api/actions/proposals/7/approve'' ''POST'' (Some ''hst_t1.key'')) 50 (sample_state [sample_token]) =
     Inr (Some (Passed (Some p)), s') \<and> SCOPE_ADMIN_WRITE \<in> set (au_scopes p)"
proof -
  let ?rq = "sample_request ''/api/actions/proposals/7/approve'' ''POST'' (Some ''hst_t1.key'')"
  let ?p = "\<lparr> au_user_id = ''t1'', au_username = ''bot'', au_role = Operator, au_auth_provider = ''service_token'', au_csrf_token = None,
     au_scopes = [SCOPE_ADMIN_WRITE], au_permissions = [], au_permission_bound = False \<rparr>"
  let ?s = "sample_state [sample_token\<lparr> tk_last_used_at := Some 50 \<rparr>]"
  have g: "gate sample_env ?rq 50 (sample_state [sample_token]) = Inr (Some (Passed (Some ?p)), ?s)"
    by code_simp
  have "en_auth_mode sample_env \<noteq> ''disabled''" "en_policies sample_env = API_ROUTE_POLICY_CATALOG"
    by (simp_all add: sample_env_def)
  moreover have "resolves_proposal (rq_path ?rq) (request_method (Some (rq_method ?rq)))"
    by code_simp
  ultimately have "SCOPE_ADMIN_WRITE \<in> set (au_scopes ?p)"
    using drafting_never_resolves [OF g] by simp
  with g show ?thesis by blast
qed

text \<open>C28: Below \<open>/control/policies\<close> and \<open>/control/decisions\<close> a service token passes the gate for one
  request only, the creation of a policy draft, and only with the scope \<open>policies:draft\<close> and the role
  admin; whatever scopes it has, it reads, changes and deletes no policy and no decision.\<close>
theorem tokens_decide_nothing:
  assumes "gate env rq now s = Inr (Some (Passed (Some p)), s')" and "en_auth_mode env \<noteq> ''disabled''"
    and "en_policies env = API_ROUTE_POLICY_CATALOG" and token: "au_auth_provider p = ''service_token''"
    and "below (rq_path rq) ''/control/policies'' \<or> below (rq_path rq) ''/control/decisions''"
  shows "rq_path rq = ''/control/policies'' \<and> request_method (Some (rq_method rq)) = ''POST'' \<and>
    SCOPE_POLICIES_DRAFT \<in> set (au_scopes p) \<and> au_role p = Admin"
proof -
  let ?role = "required_role_for_request API_ROUTE_POLICY_CATALOG (rq_path rq) (Some (rq_method rq))"
  let ?scope = "required_scope_for_request API_ROUTE_POLICY_CATALOG (rq_path rq) (Some (rq_method rq))"
  let ?permission = "required_permission_for_request API_ROUTE_POLICY_CATALOG (rq_path rq) (rq_query rq) (Some (rq_method rq))"
  from gate_passed [OF assms(1,2)] have ok: "authorize_request (Some p) ?role ?scope ?permission (en_unsafe_admin env) = None"
    using assms(3) by metis
  have "?role \<noteq> None" using assms(5) policy_needs(1) decision_needs(1) by auto
  then obtain role where role: "?role = Some role" by blast
  note held = authorized_machine [OF ok [unfolded role]]
  have permitted: "has_required_permission (context_of p) ?permission" and scoped: "has_required_service_token_scope (au_scopes p) ?scope"
    using held token by auto
  have never: "\<not> has_required_permission (context_of p) (Some r)" if "r \<in> set decided_permissions" for r
    using token_grants_exactly(1) [OF token, of r] never_granted that by (auto simp: exact_permissions_def list_all_iff)
  then have "below (rq_path rq) ''/control/policies''"
    using assms(5) permitted decision_needs(2) by (auto simp: decided_permissions_def split: if_splits)
  note needs = policy_needs [OF this]
  have post: "rq_path rq = ''/control/policies'' \<and> request_method (Some (rq_method rq)) = ''POST''"
    using permitted never unfolding needs(3) by (auto simp: decided_permissions_def split: if_splits)
  then have "has_required_permission (context_of p) (Some PERMISSION_CONTROL_POLICY_DRAFT)"
    using permitted unfolding needs(3) by simp
  from token_grants_exactly(2) [OF token this] have "PERMISSION_CONTROL_POLICY_DRAFT \<in> set (permissions_for_role (au_role p))"
    by (simp add: exact_permissions_def)
  moreover have "PERMISSION_CONTROL_POLICY_DRAFT \<notin> set (permissions_for_role Reader) \<union> set (permissions_for_role Operator)"
    by code_simp
  ultimately have "au_role p = Admin" by (cases "au_role p") auto
  moreover have "SCOPE_POLICIES_DRAFT \<noteq> SCOPE_PROPOSALS_DRAFT" by (simp add: perm_simps)
  then have "SCOPE_POLICIES_DRAFT \<in> set (au_scopes p)"
    using required_scope_held scoped post unfolding needs(2) by auto
  ultimately show ?thesis using post by simp
qed

theorem tokens_decide_nothing_witness:
  "\<exists>p s'. gate sample_env (sample_request ''/control/policies'' ''POST'' (Some ''hst_t1.key'')) 50
       (sample_state [sample_token\<lparr> tk_role := Admin, tk_scopes := [SCOPE_POLICIES_DRAFT] \<rparr>]) =
     Inr (Some (Passed (Some p)), s') \<and> au_role p = Admin"
proof -
  let ?rq = "sample_request ''/control/policies'' ''POST'' (Some ''hst_t1.key'')"
  let ?t = "sample_token\<lparr> tk_role := Admin, tk_scopes := [SCOPE_POLICIES_DRAFT] \<rparr>"
  let ?p = "\<lparr> au_user_id = ''t1'', au_username = ''bot'', au_role = Admin, au_auth_provider = ''service_token'', au_csrf_token = None,
     au_scopes = [SCOPE_POLICIES_DRAFT], au_permissions = [], au_permission_bound = False \<rparr>"
  have g: "gate sample_env ?rq 50 (sample_state [?t]) = Inr (Some (Passed (Some ?p)), sample_state [?t\<lparr> tk_last_used_at := Some 50 \<rparr>])"
    by code_simp
  have "en_auth_mode sample_env \<noteq> ''disabled''" "en_policies sample_env = API_ROUTE_POLICY_CATALOG"
    by (simp_all add: sample_env_def)
  moreover have "below (rq_path ?rq) ''/control/policies''"
    by (simp add: sample_request_def below_def)
  ultimately have "au_role ?p = Admin"
    using tokens_decide_nothing [OF g] by simp
  with g show ?thesis by blast
qed

section \<open>Open paths\<close>

text \<open>C29: Where authentication is on (a mode other than disabled and proxy, a session manager, no unsafe
  administrator, the API's own catalog of policies), a request without credentials (no bearer value, no session cookie) is answered 401
  exactly when some policy of the catalog with a decision matches its path; every other path is served
  to anybody.  Nothing else about the request, its method or query, or the state matters, and the state
  is kept.\<close>
theorem anonymous_requests:
  assumes "en_auth_mode env \<notin> {''disabled'', ''proxy''}" and "\<not> en_unsafe_admin env" and "en_policies env = API_ROUTE_POLICY_CATALOG"
    and "en_session_manager env = Some sm" and "bearer_token_from_request rq = None"
    and "map_of (rq_cookies rq) (sm_cookie_name sm) = None"
  shows "gate env rq now s =
    Inr (Some (if covered (rq_path rq) then Stopped (response_of 401 ''Authentication required.'') else Passed None), s)"
proof -
  have "authenticate_request env rq now (gs_db s) = Inr (Some (authenticated None False), gs_db s)"
    using assms by (simp add: authenticate_request_def authenticate_cookie_or_proxy_def authenticate_session_def decode_signed_payload_def)
  moreover have "authorize_request None (required_role_for_request API_ROUTE_POLICY_CATALOG (rq_path rq) (Some (rq_method rq))) scope permission False =
      (if covered (rq_path rq) then Some (response_of 401 ''Authentication required.'') else None)" for scope permission
    using role_needed_iff_covered [of "rq_path rq" "rq_method rq"] by (auto simp: authorize_request_def split: option.splits)
  ultimately show ?thesis
    using assms by (simp add: gate_def Let_def authenticated_def enforce_break_glass_access_def enforce_csrf_protection_def split: option.splits)
qed

theorem anonymous_requests_witness:
  "gate sample_env (sample_request ''/control/policies/p1'' ''DELETE'' None) 50 (sample_state []) =
     Inr (Some (Stopped (response_of 401 ''Authentication required.'')), sample_state []) \<and>
   gate sample_env (sample_request ''/health'' ''GET'' None) 50 (sample_state []) = Inr (Some (Passed None), sample_state [])"
proof -
  have "covered ''/control/policies/p1''" "\<not> covered ''/health''" by code_simp+
  moreover have env: "en_auth_mode sample_env \<notin> {''disabled'', ''proxy''}" "\<not> en_unsafe_admin sample_env"
      "en_policies sample_env = API_ROUTE_POLICY_CATALOG"
      "en_session_manager sample_env = Some \<lparr> sm_cookie_name = ''session'', sm_csrf_cookie_name = ''csrf'', sm_max_age = 100 \<rparr>"
    by (simp_all add: sample_env_def)
  moreover have "bearer_token_from_request (sample_request path verb None) = None" "map_of (rq_cookies (sample_request path verb None)) ''session'' = None"
      "rq_path (sample_request path verb None) = path" for path verb
    by (simp_all add: sample_request_def bearer_token_from_request_def header_def)
  ultimately show ?thesis
    using anonymous_requests [OF env] by simp
qed

section \<open>Sessions\<close>

text \<open>C30: A request that passes the gate on its session cookie either has a reading method or carries the
  session's CSRF token both in the header and in the cookie of that name.  Where local accounts are a
  break-glass mode, it also comes from an allowed address, with the mode enabled, and inside the window
  that the last login opened.\<close>
theorem session_requests_guarded:
  assumes "gate env rq now s = Inr (Some (Passed (Some p)), s')" and "en_auth_mode env \<notin> {''disabled'', ''proxy''}"
    and "bearer_token_from_request rq = None"
  shows "(upper_ascii (rq_method rq) \<in> set SAFE_METHODS \<or>
      (\<exists>sm csrf. en_session_manager env = Some sm \<and> au_csrf_token p = Some csrf \<and> header rq ''x-csrf-token'' = Some csrf \<and>
        map_of (rq_cookies rq) (sm_csrf_cookie_name sm) = Some csrf)) \<and>
    (en_identity_mode env = ''local_single_user'' \<and> au_auth_provider p = ''local'' \<longrightarrow>
      (case en_break_glass env of None \<Rightarrow> True | Some bg \<Rightarrow> bg_enabled bg \<and>
        is_remote_address_allowed env bg (request_remote_addr env rq) \<and> (\<exists>t. gs_active_until s = Some t \<and> now < t)))"
proof -
  from assms(2) have "en_auth_mode env \<noteq> ''disabled''" by simp
  from gate_passed [OF assms(1) this] obtain oc db s2 where auth: "authenticate_request env rq now (gs_db s) = Inr (Some oc, db)"
      "oc_principal oc = Some p" and glass: "enforce_break_glass_access env rq now (Some p) (s\<lparr> gs_db := db \<rparr>) = Inr (None, s2)"
      and csrf: "enforce_csrf_protection env rq (Some p) (oc_via_cookie oc) = None" by metis
  have "oc_via_cookie oc"
    using auth assms(2,3) by (auto simp: authenticate_request_def authenticate_cookie_or_proxy_def authenticated_def and_then_Inr_iff split: option.splits)
  then have "upper_ascii (rq_method rq) \<in> set SAFE_METHODS \<or> (\<exists>sm csrf. en_session_manager env = Some sm \<and> au_csrf_token p = Some csrf \<and>
      header rq ''x-csrf-token'' = Some csrf \<and> map_of (rq_cookies rq) (sm_csrf_cookie_name sm) = Some csrf)"
    using csrf by (auto simp: enforce_csrf_protection_def validate_csrf_token_def split: option.splits if_splits)
  moreover have "case en_break_glass env of None \<Rightarrow> True | Some bg \<Rightarrow> bg_enabled bg \<and>
      is_remote_address_allowed env bg (request_remote_addr env rq) \<and> (\<exists>t. gs_active_until s = Some t \<and> now < t)"
    if "en_identity_mode env = ''local_single_user'' \<and> au_auth_provider p = ''local''"
    using that glass by (auto simp: enforce_break_glass_access_def break_glass_active_def and_then_Inr_iff split: option.splits if_splits prod.splits)
  ultimately show ?thesis by blast
qed

definition sample_user :: local_user where
  "sample_user = \<lparr> lu_user_id = ''u1'', lu_username = ''ann'', lu_password_hash = ''#pw'', lu_role = Admin, lu_enabled = True,
     lu_created_at = 1, lu_last_login_at = None \<rparr>"

definition sample_payload :: "(string \<times> json) list" where
  "sample_payload = session_payload sample_env 10 100 ''x1'' ''s1'' (Some ''##pw'') (principal_from_user sample_user ''x1'')"

definition signed_env :: auth_env where
  "signed_env = sample_env\<lparr> en_verified_payload := (\<lambda>v. if v = ''p.s'' then Some sample_payload else None) \<rparr>"

definition glass_env :: auth_env where
  "glass_env = signed_env\<lparr> en_identity_mode := ''local_single_user'',
     en_break_glass := Some \<lparr> bg_enabled = True, bg_internal_only = True, bg_ttl = 60, bg_allowed_cidrs = [] \<rparr> \<rparr>"

definition session_request :: request where
  "session_request = (sample_request ''/config/sources'' ''POST'' None)\<lparr> rq_headers := [(''x-csrf-token'', ''x1'')],
     rq_cookies := [(''session'', ''p.s''), (''csrf'', ''x1'')] \<rparr>"

definition session_state :: gate_state where
  "session_state = \<lparr> gs_db = \<lparr> ab_users = [sample_user], ab_tokens = [], ab_events = [] \<rparr>, gs_active_until = Some 70 \<rparr>"

theorem session_requests_guarded_witness:
  "gate glass_env session_request 50 session_state = Inr (Some (Passed (Some (principal_from_user sample_user ''x1''))), session_state) \<and>
   is_remote_address_allowed glass_env (the (en_break_glass glass_env)) (request_remote_addr glass_env session_request)"
proof -
  have g: "gate glass_env session_request 50 session_state = Inr (Some (Passed (Some (principal_from_user sample_user ''x1''))), session_state)"
    by code_simp
  have "en_auth_mode glass_env \<notin> {''disabled'', ''proxy''}" "bearer_token_from_request session_request = None"
    by (simp_all add: glass_env_def signed_env_def sample_env_def session_request_def sample_request_def bearer_token_from_request_def header_def lower_def)
  from session_requests_guarded [OF g this] show ?thesis
    using g by (simp add: glass_env_def principal_from_user_def)
qed

text \<open>C31: The cookie of a local session, read back: it authenticates exactly until its lifetime is over, and
  only while the account exists, is enabled and has the name and the password it had at login; the role is
  the account's present one.  What the code relies on is that a signed payload is ASCII and is verified, and that an
  instant is read back from its text.\<close>
theorem local_session_valid_exactly:
  assumes "sp = session_payload env now (sm_max_age sm) csrf sid (Some (en_hash env (lu_password_hash u))) (principal_from_user u csrf)"
    and "CHR ''.'' \<in> set (en_sign env sp)" and "ascii (en_sign env sp)" and "en_verified_payload env (en_sign env sp) = Some sp"
    and "en_parse_instant env (en_iso env (now + sm_max_age sm)) = Some (now + sm_max_age sm)"
  shows "authenticate_session env later (Some (is_cookie_value (issue_local_session env sm now csrf sid u))) db =
    Inr (case get_local_user (lu_user_id u) db of
       Inl _ \<Rightarrow> None
     | Inr w \<Rightarrow> if later < now + sm_max_age sm \<and> lu_enabled w \<and> lu_username w = lu_username u \<and>
           en_hash env (lu_password_hash w) = en_hash env (lu_password_hash u)
         then Some (principal_from_user w csrf) else None)"
proof -
  have field: "map_of sp ''sub'' = Some (JStr (lu_user_id u))" "map_of sp ''usr'' = Some (JStr (lu_username u))"
      "map_of sp ''role'' = Some (JStr (role_value (lu_role u)))" "map_of sp ''provider'' = Some (JStr ''local'')"
      "map_of sp ''csrf'' = Some (JStr csrf)" "map_of sp ''exp'' = Some (JStr (en_iso env (now + sm_max_age sm)))"
    by (simp_all add: assms(1) session_payload_def principal_from_user_def)
  have fp: "text_or (payload_string sp ''fp'') [] = en_hash env (lu_password_hash u)"
    by (auto simp: assms(1) session_payload_def principal_from_user_def text_or_def)
  have "is_cookie_value (issue_local_session env sm now csrf sid u) = en_sign env sp"
    by (simp add: issue_local_session_def assms(1))
  moreover from assms(2) have "en_sign env sp \<noteq> []" by auto
  ultimately have "decode_signed_payload env later (Some (is_cookie_value (issue_local_session env sm now csrf sid u)))
      [''sub'', ''usr'', ''role'', ''provider'', ''csrf'', ''exp''] = Inr (if now + sm_max_age sm \<le> later then None else Some sp)"
    using assms(2-5) by (simp add: decode_signed_payload_def field)
  then show ?thesis
    using fp by (auto simp: authenticate_session_def field principal_from_user_def get_local_user_def split: sum.splits option.splits)
qed

theorem local_session_valid_exactly_witness:
  "authenticate_session signed_env 109 (Some (is_cookie_value (issue_local_session signed_env
      \<lparr> sm_cookie_name = ''session'', sm_csrf_cookie_name = ''csrf'', sm_max_age = 100 \<rparr> 10 ''x1'' ''s1'' sample_user))) (gs_db session_state) =
   Inr (Some (principal_from_user sample_user ''x1''))"
proof -
  let ?sm = "\<lparr> sm_cookie_name = ''session'', sm_csrf_cookie_name = ''csrf'', sm_max_age = 100 \<rparr>"
  have sp: "sample_payload = session_payload signed_env 10 (sm_max_age ?sm) ''x1'' ''s1'' (Some (en_hash signed_env (lu_password_hash sample_user)))
      (principal_from_user sample_user ''x1'')"
    by (simp add: sample_payload_def session_payload_def signed_env_def sample_env_def sample_user_def)
  have "get_local_user (lu_user_id sample_user) (gs_db session_state) = Inr sample_user" "lu_enabled sample_user"
    by (simp_all add: get_local_user_def session_state_def sample_user_def)
  then show ?thesis
    using local_session_valid_exactly [OF sp, of 109] by (simp add: signed_env_def sample_env_def ascii_def)
qed

section \<open>Service tokens\<close>

lemma parse_issued:
  assumes "CHR ''.'' \<notin> set i" and "strip i = i" and "i \<noteq> []" and "secret \<noteq> []"
  shows "parse_service_token (Some (issued_token i secret)) = Some (i, secret)"
proof -
  have "\<forall>x \<in> set i. x \<noteq> CHR ''.''" using assms(1) by metis
  then have "before_first (CHR ''.'') (issued_token i secret) = TOKEN_PREFIX @ i"
    by (simp add: before_first_def issued_token_def TOKEN_PREFIX_def takeWhile_tail)
  then show ?thesis
    using assms by (simp add: parse_service_token_def Let_def issued_token_def)
qed

lemma use_recorded:
  assumes "tokens_sound db" and "t \<in> set (ab_tokens db)"
  shows "\<exists>db'. record_service_token_use (tk_token_id t) now db = Inr (t\<lparr> tk_last_used_at := Some now \<rparr>, db')"
proof -
  let ?f = "\<lambda>t. t\<lparr> tk_last_used_at := Some now \<rparr>"
  let ?db = "db\<lparr> ab_tokens := map (\<lambda>u. if tk_token_id u = tk_token_id t then ?f u else u) (ab_tokens db) \<rparr>"
  have ex: "list_ex (\<lambda>u. tk_token_id u = tk_token_id t) (ab_tokens db)"
    using assms(2) by (auto simp: list_ex_iff)
  have "tokens_sound ?db"
    using map_tokens_kept [OF assms(1), of ?f ?db "tk_token_id t"] unfolding tokens_kept_def by (simp add: token_evolves_def)
  moreover have "?f t \<in> set (ab_tokens ?db)"
    using assms(2) by (auto simp: image_iff)
  ultimately have "get_service_token (tk_token_id t) ?db = Inr (?f t)"
    using find_token [of ?db "?f t"] by simp
  then show ?thesis
    using ex by (simp add: record_service_token_use_def write_token_def Let_def)
qed

lemma authenticate_stored:
  assumes "tokens_sound db" and "t \<in> set (ab_tokens db)" and "parse_service_token v = Some (tk_token_id t, secret)"
  shows "map_sum id fst (authenticate_service_token env now v db) =
    Inr (if tk_revoked_at t = None \<and> (case tk_expires_at t of None \<Rightarrow> True | Some e \<Rightarrow> now < e) \<and> secret \<noteq> [] \<and>
        en_hash env secret = tk_secret_hash t then Some (principal_from_service_token t) else None)"
  using use_recorded [OF assms(1,2), of now]
  by (auto simp: authenticate_service_token_def assms(3) find_token [OF assms(1,2)] verify_service_token_secret_def
      principal_from_service_token_def split: option.splits)

text \<open>C32: The value handed out for a new service token, whatever the store does afterwards: it
  authenticates exactly while the token is neither revoked nor expired, and always with the name, the role
  and the scopes the token was created with.  Ids come without a dot and without outer space.\<close>
theorem issued_token_accepted:
  assumes "auth_steps empty_auth_db db" and "create_service_token t db = Inr (t', db1)" and "auth_steps db1 db2"
    and "CHR ''.'' \<notin> set (tk_token_id t)" and "strip (tk_token_id t) = tk_token_id t" and "tk_token_id t \<noteq> []" and "secret \<noteq> []"
    and "tk_secret_hash t = en_hash env secret"
  shows "\<exists>u. get_service_token (tk_token_id t) db2 = Inr u \<and>
    map_sum id fst (authenticate_service_token env now (Some (issued_token (tk_token_id t) secret)) db2) =
      Inr (if tk_revoked_at u = None \<and> (case tk_expires_at t of None \<Rightarrow> True | Some e \<Rightarrow> now < e)
        then Some (principal_from_service_token u) else None) \<and>
    tk_role u = tk_role t \<and> tk_token_name u = strip (tk_token_name t) \<and> normalize_service_token_scopes (tk_scopes t) = Some (tk_scopes u)"
proof -
  from create_token_kept [OF reachable_tokens_sound [OF assms(1)] assms(2)]
  obtain scopes name where scopes: "normalize_service_token_scopes (tk_scopes t) = Some scopes" and kept: "tokens_kept db db1"
    and named: "normalize_service_token_name (tk_token_name t) = Inr name" and row: "ab_tokens db1 = ab_tokens db @ [t\<lparr> tk_token_name := name, tk_scopes := scopes \<rparr>]" by metis
  have name: "name = strip (tk_token_name t)"
    using named by (simp add: normalize_service_token_name_def Let_def split: if_splits)
  let ?t = "t\<lparr> tk_token_name := name, tk_scopes := scopes \<rparr>"
  from kept have "tokens_kept db1 db2"
    using steps_tokens_kept [OF assms(3)] by (simp add: tokens_kept_def)
  then obtain u where u: "u \<in> set (ab_tokens db2)" "token_evolves ?t u" and sound: "tokens_sound db2"
    by (auto simp: tokens_kept_def row)
  have parse: "parse_service_token (Some (issued_token (tk_token_id t) secret)) = Some (tk_token_id u, secret)"
    using parse_issued [OF assms(4-7)] u(2) by (simp add: token_evolves_def)
  show ?thesis
    using find_token [OF sound u(1)] authenticate_stored [OF sound u(1) parse] u(2) scopes assms(7,8) name
    by (intro exI [of _ u]) (simp add: token_evolves_def)
qed

definition token_steps :: "auth_db list" where
  \<comment> \<open>a store with one token, and the same after its revocation\<close>
  "token_steps = [\<lparr> ab_users = [], ab_tokens = [sample_token], ab_events = [] \<rparr>,
     \<lparr> ab_users = [], ab_tokens = [sample_token\<lparr> tk_revoked_at := Some 60 \<rparr>], ab_events = [] \<rparr>]"

lemma sample_token_created: "create_service_token sample_token empty_auth_db = Inr (sample_token, hd token_steps)"
  by code_simp

lemma sample_token_revoked: "revoke_service_token ''t1'' 60 (hd token_steps) = Inr (sample_token\<lparr> tk_revoked_at := Some 60 \<rparr>, last token_steps)"
  by code_simp

theorem issued_token_accepted_witness:
  "map_sum id fst (authenticate_service_token sample_env 50 (Some ''hst_t1.key'') (hd token_steps)) =
     Inr (Some (principal_from_service_token sample_token))"
proof -
  have "tk_secret_hash sample_token = en_hash sample_env ''key''" "strip (tk_token_id sample_token) = tk_token_id sample_token"
    by code_simp+
  moreover have "issued_token (tk_token_id sample_token) ''key'' = ''hst_t1.key''" "get_service_token ''t1'' (hd token_steps) = Inr sample_token"
    by code_simp+
  ultimately show ?thesis
    using issued_token_accepted [OF rtranclp.rtrancl_refl sample_token_created rtranclp.rtrancl_refl, of "''key''" sample_env 50]
    by (simp add: sample_token_def)
qed

text \<open>C33: A revoked service token never authenticates again: after its revocation, whatever operations of
  the store follow (uses, further revocations, new tokens, changes of users, audit events), no value that
  names it is accepted, no error is raised and nothing is written.\<close>
theorem revoked_token_stays_out:
  assumes "auth_steps empty_auth_db db" and "revoke_service_token token_id revoked_at db = Inr (t, db1)" and "auth_steps db1 db2"
    and "parse_service_token v = Some (token_id, secret)"
  shows "authenticate_service_token env now v db2 = Inr (None, db2)"
proof -
  have sound: "tokens_sound db" by (rule reachable_tokens_sound [OF assms(1)])
  have kept: "tokens_kept db1 db2"
    using steps_tokens_kept [OF assms(3)] step_tokens_kept [OF token_revoked [OF assms(2)] sound] by (simp add: tokens_kept_def)
  obtain t1 where t1: "t1 \<in> set (ab_tokens db1)" "tk_token_id t1 = token_id" "tk_revoked_at t1 \<noteq> None"
    using assms(2) by (fastforce simp: revoke_service_token_def write_token_def Let_def and_then_Inr_iff list_ex_iff
        split: if_splits option.splits)
  then obtain u where u: "u \<in> set (ab_tokens db2)" "token_evolves t1 u" and sound: "tokens_sound db2"
    using kept by (auto simp: tokens_kept_def)
  then have "tk_revoked_at u \<noteq> None" "tk_token_id u = token_id" using t1 by (auto simp: token_evolves_def)
  then show ?thesis
    using find_token [OF sound u(1)] by (simp add: authenticate_service_token_def assms(4))
qed

theorem revoked_token_stays_out_witness:
  "authenticate_service_token sample_env 70 (Some ''hst_t1.key'') (last token_steps) = Inr (None, last token_steps)"
proof -
  have "auth_steps empty_auth_db (hd token_steps)"
    using token_created [OF sample_token_created] by blast
  moreover have "parse_service_token (Some ''hst_t1.key'') = Some (''t1'', ''key'')" by code_simp
  ultimately show ?thesis
    using revoked_token_stays_out [OF _ sample_token_revoked rtranclp.rtrancl_refl] by blast
qed

section \<open>Lockout\<close>

text \<open>Once a user name is locked, attempts that come often enough keep it locked for ever: if the last
  failures of the log, as many as the threshold, and the attempts that follow are at most \<open>d\<close> apart, with
  the threshold times \<open>d\<close> within the failure window and \<open>d\<close> below the lockout time, then every attempt is
  answered locked out, whatever password it has, the right one included.\<close>
theorem attempts_keep_the_lock:
  assumes "en_auth_mode env = ''local''" and "en_identity_mode env \<noteq> ''local_single_user''"
    and "normalize_username username = Inr name" and "normalize_username name = Inr name" and "name \<noteq> []"
    and "int (en_failure_threshold env) * d \<le> en_failure_window env" and "d < en_lockout env" and "0 < en_failure_threshold env"
    and "ab_events (gs_db s) = old @ news" and "list_all2 (failure_of name) ts news" and "length ts = en_failure_threshold env"
    and "\<forall>e \<in> set old. ae_occurred_at e < hd ts" and "spaced d (ts @ map at_time as)"
    and "distinct (map ae_event_id (ab_events (gs_db s)) @ map (\<lambda>a. rq_event_id (at_request a)) as)"
  shows "\<exists>s'. attempt_all env sm username as s = Inr (map (\<lambda>a. login_failed Locked_Out) as, s') \<and> ab_users (gs_db s') = ab_users (gs_db s)"
  by (rule hammered [OF assms])

definition failed_event :: "string \<Rightarrow> int \<Rightarrow> audit_event" where
  "failed_event i t = \<lparr> ae_event_id = i, ae_event_type = ''login_failed'', ae_success = False, ae_actor_id = None, ae_actor_name = None,
     ae_subject_id = None, ae_subject_name = Some ''ann'', ae_remote_addr = None, ae_user_agent = None, ae_detail = None, ae_occurred_at = t \<rparr>"

definition guess :: "string \<Rightarrow> int \<Rightarrow> attempt" where
  "guess i t = \<lparr> at_request = (sample_request ''/auth/login'' ''POST'' None)\<lparr> rq_event_id := i \<rparr>, at_time = t,
     at_draws = \<lparr> ld_csrf = [], ld_sid = [], ld_second_event_id = [] \<rparr>, at_password = ''pw'' \<rparr>"

theorem attempts_keep_the_lock_witness:
  "\<exists>s'. attempt_all sample_env \<lparr> sm_cookie_name = ''session'', sm_csrf_cookie_name = ''csrf'', sm_max_age = 100 \<rparr> ''Ann''
      [guess ''c'' 500, guess ''d'' 900, guess ''e'' 1300]
      \<lparr> gs_db = \<lparr> ab_users = [sample_user], ab_tokens = [], ab_events = [failed_event ''a'' 100, failed_event ''b'' 101] \<rparr>, gs_active_until = None \<rparr> =
    Inr (replicate 3 (login_failed Locked_Out), s')"
proof -
  let ?s = "\<lparr> gs_db = \<lparr> ab_users = [sample_user], ab_tokens = [], ab_events = [failed_event ''a'' 100, failed_event ''b'' 101] \<rparr>, gs_active_until = None \<rparr>"
  let ?as = "[guess ''c'' 500, guess ''d'' 900, guess ''e'' 1300]"
  have "normalize_username ''Ann'' = Inr ''ann''" "normalize_username ''ann'' = Inr ''ann''"
    by code_simp+
  moreover have "list_all2 (failure_of ''ann'') [100, 101] [failed_event ''a'' 100, failed_event ''b'' 101]"
    by (simp add: failure_of_def failed_event_def)
  moreover have "spaced 400 ([100, 101] @ map at_time ?as)"
    by (simp add: spaced_def guess_def)
  moreover have "distinct (map ae_event_id (ab_events (gs_db ?s)) @ map (\<lambda>a. rq_event_id (at_request a)) ?as)"
    by (simp add: failed_event_def guess_def)
  ultimately show ?thesis
    using attempts_keep_the_lock [of sample_env "''Ann''" "''ann''" 400 ?s "[]" "[failed_event ''a'' 100, failed_event ''b'' 101]" "[100, 101]" ?as
      "\<lparr> sm_cookie_name = ''session'', sm_csrf_cookie_name = ''csrf'', sm_max_age = 100 \<rparr>"]
    by (auto simp: sample_env_def numeral_3_eq_3 simp del: attempt_all.simps)
qed

end
