(* ===== verification/ProposalReview.thy ===== *)
theory ProposalReview
  imports Proposals Confidence PyRepr
begin

text \<open>
  What the platform says about the evidence of a proposal: the guidance an agent must follow
  (\<open>packages/application/use_cases/agent_trust.py\<close>) and the operator's review of a proposal
  (\<open>packages/application/use_cases/agent_proposal_review.py\<close>).  A lookup that raises reads as no
  snapshot, so a lookup is a function to \<open>option\<close>; \<open>shown\<close> is \<open>str\<close> of a
  metadata value, nothing for null.
\<close>

section \<open>Guidance\<close>

datatype answer_guidance = State_As_Current | State_With_Caveat | Trust_Unknown | Do_Not_State_As_Current

fun guidance_rank :: "answer_guidance \<Rightarrow> nat" where
  "guidance_rank State_As_Current = 0"
| "guidance_rank State_With_Caveat = 1"
| "guidance_rank Trust_Unknown = 2"
| "guidance_rank Do_Not_State_As_Current = 3"

fun guidance_detail :: "answer_guidance \<Rightarrow> string" where
  "guidance_detail State_As_Current = ''Sources are current and complete; figures may be stated as current.''"
| "guidance_detail State_With_Caveat = ''Usable but degraded, due for refresh, or with a validation or completeness signal that is not fully known; state figures with the assessed_at date and the caveat.''"
| "guidance_detail Do_Not_State_As_Current = ''Stale, unreliable, or unavailable; do not present figures as current. Say the data is out of date and cite assessed_at.''"
| "guidance_detail Trust_Unknown = ''No confidence snapshot exists for this publication; do not claim the figures are current. Say freshness is unknown.''"

record publication_trust =
  pt_publication_key :: string
  pt_confidence_verdict :: "string option"
  pt_freshness_state :: "string option"
  pt_completeness_pct :: "int option"
  pt_assessed_at :: "string option"
  pt_guidance :: answer_guidance
  pt_guidance_detail :: string
  pt_validation_state :: "signal_state option"
  pt_completeness_state :: "signal_state option"

definition guidance_for :: "snapshot \<Rightarrow> answer_guidance" where
  "guidance_for s =
     (if sn_confidence_verdict s \<in> {Unreliable, Unavailable} then Do_Not_State_As_Current
      else if sn_freshness_state s \<in> {Pub_Stale, Pub_Unavailable} then Do_Not_State_As_Current
      else if sn_confidence_verdict s = Degraded \<or> sn_freshness_state s = Pub_Due_Soon then State_With_Caveat
      else if validation_signal_state (sn_quality_flags s) \<noteq> Known \<or> completeness_signal_state (sn_quality_flags s) \<noteq> Known then State_With_Caveat
      else State_As_Current)"

definition assess_publication_trust :: "string \<Rightarrow> snapshot option \<Rightarrow> publication_trust" where
  "assess_publication_trust key snapshot = (case snapshot of
     None \<Rightarrow> \<lparr> pt_publication_key = key, pt_confidence_verdict = None, pt_freshness_state = None, pt_completeness_pct = None,
       pt_assessed_at = None, pt_guidance = Trust_Unknown, pt_guidance_detail = guidance_detail Trust_Unknown,
       pt_validation_state = None, pt_completeness_state = None \<rparr>
   | Some s \<Rightarrow> \<lparr> pt_publication_key = key, pt_confidence_verdict = Some (verdict_text (sn_confidence_verdict s)),
       pt_freshness_state = Some (pub_freshness_text (sn_freshness_state s)), pt_completeness_pct = Some (sn_completeness_pct s),
       pt_assessed_at = Some (iso_text (sn_assessed_at s)), pt_guidance = guidance_for s, pt_guidance_detail = guidance_detail (guidance_for s),
       pt_validation_state = Some (validation_signal_state (sn_quality_flags s)),
       pt_completeness_state = Some (completeness_signal_state (sn_quality_flags s)) \<rparr>)"

type_synonym confidence_lookup = "(string \<Rightarrow> snapshot option) option"

definition safe_confidence_lookup :: "confidence_lookup \<Rightarrow> string \<Rightarrow> snapshot option" where
  "safe_confidence_lookup lookup key = (case lookup of None \<Rightarrow> None | Some f \<Rightarrow> f key)"

fun first_max :: "answer_guidance \<Rightarrow> answer_guidance list \<Rightarrow> answer_guidance" where
  \<comment> \<open>\<open>max\<close> by rank\<close>
  "first_max g [] = g"
| "first_max g (h # hs) = first_max (if guidance_rank g < guidance_rank h then h else g) hs"

definition worst_guidance :: "answer_guidance list \<Rightarrow> answer_guidance" where
  "worst_guidance gs = (case gs of [] \<Rightarrow> Trust_Unknown | g # hs \<Rightarrow> first_max g hs)"

record trust_stamp =
  tp_confidence_verdict :: "string option"
  tp_freshness_state :: "string option"
  tp_assessed_at :: "string option"

definition stamp_provenance_trust :: "string list \<Rightarrow> confidence_lookup \<Rightarrow> trust_stamp" where
  "stamp_provenance_trust keys lookup =
     (let trusts = map (\<lambda>k. assess_publication_trust k (safe_confidence_lookup lookup k)) keys;
          worst_kind = worst_guidance (map pt_guidance trusts) in
      case List.find (\<lambda>t. pt_guidance t = worst_kind) trusts of
        None \<Rightarrow> \<lparr> tp_confidence_verdict = None, tp_freshness_state = None, tp_assessed_at = None \<rparr>
      | Some worst \<Rightarrow> \<lparr> tp_confidence_verdict = pt_confidence_verdict worst, tp_freshness_state = pt_freshness_state worst,
          tp_assessed_at = pt_assessed_at worst \<rparr>)"

section \<open>The review of a proposal\<close>

datatype effect_kind = In_Registry_Only | Release_Ha_Approval | Adapter_Release

record proposal_effect =
  pf_adapter :: string
  pf_kind :: effect_kind
  pf_summary :: string
  pf_external_effect :: bool

definition effect_of :: "'v proposal \<Rightarrow> proposal_effect" where
  "effect_of p =
     (if adapter p = ADAPTER_HOME_ASSISTANT then \<lparr> pf_adapter = adapter p, pf_kind = Release_Ha_Approval,
        pf_summary = ''Approving releases the pending Home Assistant approval notification '' @ py_repr (notification_id p) @
          ''. The platform does not actuate devices; Home Assistant automations act on the released notification.'', pf_external_effect = True \<rparr>
      else if adapter p = ADAPTER_PLATFORM then \<lparr> pf_adapter = adapter p, pf_kind = In_Registry_Only,
        pf_summary = ''Approving records the decision in the proposal queue only. No external system is called and no canonical state changes.'',
        pf_external_effect = False \<rparr>
      else \<lparr> pf_adapter = adapter p, pf_kind = Adapter_Release,
        pf_summary = ''Approving hands the decision to the '' @ py_repr (adapter p) @
          '' adapter. This adapter has no release path in this deployment, so the decision is recorded in-registry only.'',
        pf_external_effect = False \<rparr>)"

record change_row =
  cw_field :: string
  cw_label :: string
  cw_before :: "string option"
  cw_after :: string
  cw_changes :: bool

definition change_preview :: "('v \<Rightarrow> string option) \<Rightarrow> 'v proposal \<Rightarrow> change_row list" where
  "change_preview shown p =
     (let resolved = (status p \<noteq> Pending); previous = Option.bind (prop_metadata p ''previous_verdict'') shown in
      [\<lparr> cw_field = ''status'', cw_label = ''Status'', cw_before = Some (if \<not> resolved then ''pending'' else status_text (status p)),
         cw_after = (if \<not> resolved then ''approved'' else status_text (status p)), cw_changes = (\<not> resolved) \<rparr>,
       \<lparr> cw_field = ''verdict'', cw_label = ''Verdict'', cw_before = previous, cw_after = verdict p,
         cw_changes = (previous \<noteq> None \<and> previous \<noteq> Some (verdict p)) \<rparr>] @
      (case prop_value p of None \<Rightarrow> []
       | Some v \<Rightarrow> [\<lparr> cw_field = ''value'', cw_label = ''Proposed value'', cw_before = None, cw_after = v, cw_changes = True \<rparr>]))"

record evidence =
  vd_publication_key :: string
  vd_display_name :: "string option"
  vd_known :: bool
  vd_at_draft :: trust_stamp
  vd_now :: "publication_trust option"
  vd_contract_path :: "string option"
  vd_lineage_path :: "string option"

record proposal_review =
  rw_effect :: proposal_effect
  rw_change_preview :: "change_row list"
  rw_evidence :: "evidence list"
  rw_guidance :: answer_guidance
  rw_guidance_detail :: string
  rw_caveats :: "string list"

definition cited_publications :: "'v proposal \<Rightarrow> string list" where
  "cited_publications p = (case prop_provenance p of None \<Rightarrow> [] | Some v \<Rightarrow> publication_keys v)"

definition drafted_stamp :: "'v proposal \<Rightarrow> trust_stamp" where
  "drafted_stamp p = (case prop_provenance p of
     None \<Rightarrow> \<lparr> tp_confidence_verdict = None, tp_freshness_state = None, tp_assessed_at = None \<rparr>
   | Some v \<Rightarrow> \<lparr> tp_confidence_verdict = confidence_verdict_at_draft v, tp_freshness_state = freshness_state_at_draft v,
       tp_assessed_at = assessed_at v \<rparr>)"

definition trust_now :: "(string \<times> string) list \<Rightarrow> confidence_lookup \<Rightarrow> string \<Rightarrow> publication_trust option" where
  "trust_now names lookup key =
     (if map_of names key \<noteq> None then Some (assess_publication_trust key (safe_confidence_lookup lookup key)) else None)"

definition evidence_row :: "(string \<times> string) list \<Rightarrow> confidence_lookup \<Rightarrow> trust_stamp \<Rightarrow> string \<Rightarrow> evidence" where
  "evidence_row names lookup at_draft key =
     (let known = (map_of names key \<noteq> None) in
      \<lparr> vd_publication_key = key, vd_display_name = map_of names key, vd_known = known, vd_at_draft = at_draft,
        vd_now = trust_now names lookup key,
        vd_contract_path = (if known then Some (''/contracts/publications/'' @ key) else None),
        vd_lineage_path = (if known then Some (''/api/lineage/publication/'' @ key) else None) \<rparr>)"

definition build_proposal_review :: "('v \<Rightarrow> string option) \<Rightarrow> (string \<times> string) list \<Rightarrow> confidence_lookup \<Rightarrow>
  'v proposal \<Rightarrow> proposal_review" where
  "build_proposal_review shown names lookup p =
     (let cited = cited_publications p;
          rows = map (evidence_row names lookup (drafted_stamp p)) cited;
          overall = worst_guidance (map pt_guidance (List.map_filter (trust_now names lookup) cited));
          unknown = map (\<lambda>k. ''Cited publication '' @ py_repr k @ '' is not in the publication catalog; the proposer may have invented or mistyped it.'')
            (filter (\<lambda>k. map_of names k = None) cited);
          uncited = (if cited = [] then [''The proposer cited no publications; there is no evidence trail to check this proposal against.''] else []);
          stale = (if overall = Do_Not_State_As_Current
            then [''At least one cited publication is stale or unreliable now; the proposal may rest on out-of-date figures.'']
            else if overall = Trust_Unknown \<and> cited \<noteq> []
              then [''No confidence snapshot exists for the cited evidence; freshness cannot be confirmed.''] else []);
          drafted = (case tp_confidence_verdict (drafted_stamp p) of None \<Rightarrow> []
            | Some v \<Rightarrow> if v = ''trustworthy'' then [] else [''The proposer drafted this while its evidence was '' @ v @ ''.'']) in
      \<lparr> rw_effect = effect_of p, rw_change_preview = change_preview shown p, rw_evidence = rows, rw_guidance = overall,
        rw_guidance_detail = guidance_detail overall, rw_caveats = unknown @ uncited @ stale @ drafted \<rparr>)"

section \<open>Agents seen in the queue\<close>

record agent_summary =
  ag_created_by :: string
  ag_origin :: string
  ag_source_kind :: source_kind
  ag_proposal_count :: nat
  ag_pending :: nat
  ag_approved :: nat
  ag_dismissed :: nat
  ag_first_seen_at :: int
  ag_last_seen_at :: int
  ag_cited_publications :: "string list"

definition new_group :: "'v proposal \<Rightarrow> agent_summary" where
  "new_group p = \<lparr> ag_created_by = text_or (created_by p) ''unknown'', ag_origin = policy_id p, ag_source_kind = prop_source_kind p,
     ag_proposal_count = 0, ag_pending = 0, ag_approved = 0, ag_dismissed = 0, ag_first_seen_at = created_at p,
     ag_last_seen_at = created_at p, ag_cited_publications = [] \<rparr>"

definition add_to_group :: "'v proposal \<Rightarrow> agent_summary \<Rightarrow> agent_summary" where
  "add_to_group p g = g\<lparr> ag_proposal_count := Suc (ag_proposal_count g),
     ag_pending := ag_pending g + (if status p = Pending then 1 else 0),
     ag_approved := ag_approved g + (if status p = Approved then 1 else 0),
     ag_dismissed := ag_dismissed g + (if status p = Dismissed then 1 else 0),
     ag_first_seen_at := min (ag_first_seen_at g) (created_at p), ag_last_seen_at := max (ag_last_seen_at g) (created_at p),
     ag_cited_publications := ag_cited_publications g @ cited_publications p \<rparr>"

fun group_agents :: "'v proposal list \<Rightarrow> ((string \<times> string) \<times> agent_summary) list \<Rightarrow> ((string \<times> string) \<times> agent_summary) list" where
  "group_agents [] groups = groups"
| "group_agents (p # ps) groups =
     (if prop_source_kind p \<notin> {From_agent, From_assistant} then group_agents ps groups
      else let key = (text_or (created_by p) ''unknown'', policy_id p);
               g = (case map_of groups key of None \<Rightarrow> new_group p | Some g \<Rightarrow> g) in
        group_agents ps (AList.update key (add_to_group p g) groups))"

definition summarize_agent_principals :: "'v proposal list \<Rightarrow> agent_summary list" where
  \<comment> \<open>newest first; a reversed stable sort keeps the order of equals\<close>
  "summarize_agent_principals ps = sort_key (\<lambda>g. - ag_last_seen_at g)
     (map (\<lambda>(_, g). g\<lparr> ag_cited_publications := sorted_unique (ag_cited_publications g) \<rparr>) (group_agents ps []))"

end
