(* ===== verification/ProposalRoutes.thy ===== *)
theory ProposalRoutes
  imports ProposalFeed ProposalReview AuthGate
begin

text \<open>
  The HTTP layer of the proposal queue (\<open>apps/api/routes/action_proposal_routes.py\<close> and the proposal
  routes of \<open>apps/api/routes/ha_routes.py\<close>): who acts, how errors become answers, the release of an
  approved proposal, the drafts, and the listings.  An answer is a status and a detail on the left, the
  body on the right; an exception no handler expects is the answer 500.  The dispatcher of Home
  Assistant is a function that says whether the release failed.
\<close>

section \<open>Actors and errors\<close>

record proposal_actor =
  act_name :: "string option"
  act_auth_provider :: "string option"

definition request_actor :: "principal option \<Rightarrow> proposal_actor" where
  "request_actor p = (case p of None \<Rightarrow> \<lparr> act_name = None, act_auth_provider = None \<rparr>
     | Some q \<Rightarrow> \<lparr> act_name = Some (au_username q), act_auth_provider = Some (au_auth_provider q) \<rparr>)"

definition resolver_identity :: "principal option \<Rightarrow> response + proposal_actor" where
  "resolver_identity p = (let actor = request_actor p in
     if act_auth_provider actor \<in> set (map Some MACHINE_AUTH_PROVIDERS)
     then Inl (response_of 403 ''Machine principals cannot approve or dismiss proposals; an operator must resolve them from the control surface.'')
     else Inr actor)"

definition server_error :: response where
  "server_error = response_of 500 ''Internal Server Error''"

definition unknown_action :: response where
  "unknown_action = response_of 404 ''Unknown approval action.''"

fun resolution_answer :: "registry_error \<Rightarrow> response" where
  "resolution_answer (Unknown_action _) = unknown_action"
| "resolution_answer (Already _ detail) = response_of 409 detail"
| "resolution_answer (Conflict _) = server_error"

fun draft_answer :: "registry_error \<Rightarrow> response" where
  "draft_answer (Conflict detail) = response_of 409 detail"
| "draft_answer (Already _ detail) = response_of 409 detail"
| "draft_answer (Unknown_action _) = server_error"

definition answer_with :: "('e \<Rightarrow> response) \<Rightarrow> ('e + 'a) \<Rightarrow> response + 'a" where
  "answer_with f r = map_sum f id r"

section \<open>Resolving over HTTP\<close>

definition RELEASE_FAILED_REASON :: string where
  "RELEASE_FAILED_REASON = ''Releasing through the adapter failed; returned to pending for retry.''"

definition MAX_RESOLUTION_REASON_LENGTH :: nat where
  "MAX_RESOLUTION_REASON_LENGTH = 500"

definition require_pending_proposal :: "('s, 'v) store_ops \<Rightarrow> 's \<Rightarrow> string \<Rightarrow> response + 'v proposal" where
  "require_pending_proposal ops s aid = (case st_get ops s aid of
     None \<Rightarrow> Inl unknown_action
   | Some p \<Rightarrow> if status p \<noteq> Pending then Inl (resolution_answer (ProposalTransitionError aid (status p))) else Inr p)"

definition resolve_proposal :: "('s, 'v) store_ops \<Rightarrow> 's gaps \<Rightarrow> int \<Rightarrow> 's \<Rightarrow> string \<Rightarrow> proposal_status \<Rightarrow> proposal_actor \<Rightarrow>
  string option \<Rightarrow> (response + 'v proposal) \<times> 's" where
  "resolve_proposal ops gap now s aid kind resolver reason =
     map_prod (answer_with resolution_answer) id
       (resolve ops gap now s aid kind (act_name resolver) reason (act_auth_provider resolver))"

definition later :: "nat \<Rightarrow> 's gaps \<Rightarrow> 's gaps" where
  \<comment> \<open>the gaps that are left after \<open>n\<close> store calls\<close>
  "later n gap i = gap (n + i)"

type_synonym 'v dispatcher = "('v proposal \<Rightarrow> proposal_status \<Rightarrow> bool) option"

definition resolve_and_release :: "('s, 'v) store_ops \<Rightarrow> 's gaps \<Rightarrow> int \<Rightarrow> int \<Rightarrow> 'v dispatcher \<Rightarrow> 's \<Rightarrow> string \<Rightarrow> proposal_status \<Rightarrow>
  proposal_actor \<Rightarrow> string option \<Rightarrow> (response + 'v proposal) \<times> 's" where
  "resolve_and_release ops gap now now2 dispatcher s aid kind resolver reason =
     (let s0 = gap 0 s in
      case require_pending_proposal ops s0 aid of
        Inl r \<Rightarrow> (Inl r, s0)
      | Inr _ \<Rightarrow>
          (case resolve_proposal ops (later 1 gap) now s0 aid kind resolver reason of
             (Inl r, s1) \<Rightarrow> (Inl r, s1)
           | (Inr p, s1) \<Rightarrow>
               if adapter p \<noteq> ADAPTER_HOME_ASSISTANT then (Inr p, s1)
               else (case dispatcher of
                 None \<Rightarrow> (Inr p, s1)
               | Some release_failed \<Rightarrow>
                   if \<not> release_failed p kind then (Inr p, s1)
                   else let (ignored, s2) = revert_failed_release ops (later 4 gap) now2 s1 aid kind RELEASE_FAILED_REASON in
                     (Inl (response_of 502 ''Failed to release approval notification.''), s2))))"

definition resolution_route :: "('s, 'v) store_ops \<Rightarrow> 's gaps \<Rightarrow> int \<Rightarrow> int \<Rightarrow> 'v dispatcher \<Rightarrow> 's \<Rightarrow> string \<Rightarrow> proposal_status \<Rightarrow>
  principal option \<Rightarrow> string option \<Rightarrow> (response + 'v proposal) \<times> 's" where
  \<comment> \<open>the approve and dismiss handlers, after the validation of the body\<close>
  "resolution_route ops gap now now2 dispatcher s aid kind p reason =
     (if (case reason of None \<Rightarrow> False | Some t \<Rightarrow> MAX_RESOLUTION_REASON_LENGTH < length t) then (Inl (response_of 422 ''Unprocessable Content''), s)
      else (case resolver_identity p of
        Inl r \<Rightarrow> (Inl r, s)
      | Inr resolver \<Rightarrow> resolve_and_release ops gap now now2 dispatcher s aid kind resolver reason))"

section \<open>Drafting over HTTP\<close>

fun source_kind_text :: "source_kind \<Rightarrow> string" where
  "source_kind_text From_policy = ''policy''"
| "source_kind_text From_assistant = ''assistant''"
| "source_kind_text From_operator = ''operator''"
| "source_kind_text From_agent = ''agent''"

record provenance_input =
  pi_publication_keys :: "string list"
  pi_stamp :: trust_stamp

record 'v draft_body =
  db_source_policy_id :: "string option"
  db_policy_id :: "string option"
  db_source_policy_name :: "string option"
  db_policy_name :: "string option"
  db_delivery_ref :: "string option"
  db_notification_id :: "string option"
  db_verdict :: string
  db_value :: "string option"
  db_adapter :: string
  db_source_kind :: source_kind
  db_source_key :: "string option"
  db_source_summary :: "string option"
  db_created_by :: "string option"
  db_action_id :: "string option"
  db_idempotency_key :: "string option"
  db_metadata :: "string \<rightharpoonup> 'v"
  db_provenance :: "provenance_input option"

definition reconciled :: "string option \<Rightarrow> string option \<Rightarrow> string option option" where
  \<comment> \<open>one pair of spellings, \<open>None\<close> when they disagree\<close>
  "reconciled neutral legacy =
     (if neutral \<noteq> None \<and> legacy \<noteq> None \<and> neutral \<noteq> legacy then None
      else Some (if neutral \<noteq> None then neutral else legacy))"

definition key_char :: "char \<Rightarrow> bool" where
  "key_char c \<longleftrightarrow> (let n = (of_char c :: nat) in 65 \<le> n \<and> n \<le> 90 \<or> 97 \<le> n \<and> n \<le> 122 \<or> 48 \<le> n \<and> n \<le> 57 \<or> c \<in> set ''._:-'')"

definition idempotency_key_ok :: "string option \<Rightarrow> bool" where
  "idempotency_key_ok key = (case key of None \<Rightarrow> True | Some k \<Rightarrow> 8 \<le> length k \<and> length k \<le> 128 \<and> list_all key_char k)"

definition stamped_provenance :: "confidence_lookup \<Rightarrow> provenance_input \<Rightarrow> provenance" where
  "stamped_provenance lookup v =
     (let keys = pi_publication_keys v in
      if keys \<noteq> [] \<and> lookup \<noteq> None then
        let t = stamp_provenance_trust keys lookup in
        \<lparr> publication_keys = keys, confidence_verdict_at_draft = tp_confidence_verdict t, freshness_state_at_draft = tp_freshness_state t,
          assessed_at = tp_assessed_at t, prov_trust_source = Some Server_stamped \<rparr>
      else \<lparr> publication_keys = keys, confidence_verdict_at_draft = tp_confidence_verdict (pi_stamp v),
          freshness_state_at_draft = tp_freshness_state (pi_stamp v), assessed_at = tp_assessed_at (pi_stamp v),
          prov_trust_source = Some Proposer_supplied \<rparr>)"

definition register_draft :: "('s, 'v) store_ops \<Rightarrow> 's gaps \<Rightarrow> int \<Rightarrow> int \<Rightarrow> string \<Rightarrow> 's \<Rightarrow> 'v draft \<Rightarrow> (response + 'v proposal) \<times> 's" where
  "register_draft ops gap now now2 uid s d =
     map_prod (answer_with draft_answer) id (register ops gap now now2 uid s (d\<lparr> d_reopen_resolved := False \<rparr>))"

definition draft_of_body :: "confidence_lookup \<Rightarrow> principal option \<Rightarrow> 'v draft_body \<Rightarrow> 'v draft option" where
  \<comment> \<open>\<open>None\<close> where the validation of the body refuses it\<close>
  "draft_of_body lookup p b =
     (let actor = request_actor p;
          creator = text_or (act_name actor) (text_or (db_created_by b) (source_kind_text (db_source_kind b))) in
      case (reconciled (db_source_policy_id b) (db_policy_id b), reconciled (db_source_policy_name b) (db_policy_name b),
            reconciled (db_delivery_ref b) (db_notification_id b)) of
        (Some i, Some n, Some r) \<Rightarrow>
          if text_or i [] = [] \<or> text_or n [] = [] \<or> \<not> idempotency_key_ok (db_idempotency_key b) then None
          else Some \<lparr> d_policy_id = text_or i [], d_policy_name = text_or n [], d_verdict = db_verdict b, d_value = db_value b,
            d_notification_id = r, d_adapter = db_adapter b, d_source_kind = db_source_kind b, d_source_key = db_source_key b,
            d_source_summary = db_source_summary b, d_created_by = Some creator, d_metadata = Some (db_metadata b),
            d_action_id = db_action_id b, d_provenance = map_option (stamped_provenance lookup) (db_provenance b),
            d_idempotency_key = db_idempotency_key b, d_actor_auth_provider = act_auth_provider actor, d_reopen_resolved = False \<rparr>
      | _ \<Rightarrow> None)"

definition draft_route :: "('s, 'v) store_ops \<Rightarrow> 's gaps \<Rightarrow> int \<Rightarrow> int \<Rightarrow> string \<Rightarrow> confidence_lookup \<Rightarrow> 's \<Rightarrow> principal option \<Rightarrow> 'v draft_body \<Rightarrow>
  (response + 'v proposal) \<times> 's" where
  "draft_route ops gap now now2 uid lookup s p b = (case draft_of_body lookup p b of
     None \<Rightarrow> (Inl (response_of 422 ''Unprocessable Content''), s)
   | Some d \<Rightarrow> register_draft ops gap now now2 uid s d)"

text \<open>The routes of Home Assistant, which may run without a registry.\<close>

definition no_registry :: response where
  "no_registry = response_of 503 ''HA approval proposal registry is unavailable.''"

definition ha_resolution_route :: "bool \<Rightarrow> ('s, 'v) store_ops \<Rightarrow> 's gaps \<Rightarrow> int \<Rightarrow> int \<Rightarrow> 'v dispatcher \<Rightarrow> 's \<Rightarrow> string \<Rightarrow> proposal_status \<Rightarrow>
  principal option \<Rightarrow> string option \<Rightarrow> (response + 'v proposal) \<times> 's" where
  "ha_resolution_route available ops gap now now2 dispatcher s aid kind p reason =
     (if (case reason of None \<Rightarrow> False | Some t \<Rightarrow> MAX_RESOLUTION_REASON_LENGTH < length t) then (Inl (response_of 422 ''Unprocessable Content''), s)
      else if \<not> available then (Inl no_registry, s)
      else resolution_route ops gap now now2 dispatcher s aid kind p reason)"

record 'v ha_draft_body =
  hb_policy_id :: string
  hb_policy_name :: string
  hb_verdict :: string
  hb_value :: "string option"
  hb_notification_id :: "string option"
  hb_source_kind :: source_kind
  hb_source_key :: "string option"
  hb_source_summary :: "string option"
  hb_created_by :: "string option"
  hb_action_id :: "string option"
  hb_metadata :: "string \<rightharpoonup> 'v"

definition ha_draft_route :: "bool \<Rightarrow> ('s, 'v) store_ops \<Rightarrow> 's gaps \<Rightarrow> int \<Rightarrow> int \<Rightarrow> string \<Rightarrow> 's \<Rightarrow> principal option \<Rightarrow> 'v ha_draft_body \<Rightarrow>
  (response + 'v proposal) \<times> 's" where
  "ha_draft_route available ops gap now now2 uid s p b =
     (let actor = request_actor p in
      if hb_source_kind b = From_agent then (Inl (response_of 422 ''Unprocessable Content''), s)
      else if \<not> available then (Inl no_registry, s)
      else register_draft ops gap now now2 uid s \<lparr> d_policy_id = hb_policy_id b, d_policy_name = hb_policy_name b, d_verdict = hb_verdict b,
        d_value = hb_value b, d_notification_id = hb_notification_id b, d_adapter = ADAPTER_HOME_ASSISTANT, d_source_kind = hb_source_kind b,
        d_source_key = hb_source_key b, d_source_summary = hb_source_summary b,
        d_created_by = Some (text_or (act_name actor) (text_or (hb_created_by b) (source_kind_text (hb_source_kind b)))),
        d_metadata = Some (hb_metadata b), d_action_id = hb_action_id b, d_provenance = None, d_idempotency_key = None,
        d_actor_auth_provider = act_auth_provider actor, d_reopen_resolved = False \<rparr>)"

section \<open>Reading over HTTP\<close>

definition list_action_proposals :: "('s, 'v) store_ops \<Rightarrow> 's \<Rightarrow> proposal_status option \<Rightarrow> source_kind option \<Rightarrow> 'v proposal list" where
  "list_action_proposals ops s wanted kind =
     filter (\<lambda>p. kind = None \<or> kind = Some (prop_source_kind p)) (filter (\<lambda>p. wanted = None \<or> wanted = Some (status p)) (st_list ops s))"

definition list_action_proposal_changes :: "('s, 'v) store_ops \<Rightarrow> 's \<Rightarrow> string option \<Rightarrow> int \<Rightarrow> string option \<Rightarrow> response + feed_page" where
  "list_action_proposal_changes ops s cursor limit aid =
     (if limit < 1 \<or> MAX_LIMIT < limit then Inl (response_of 422 ''Unprocessable Content'')
      else answer_with (\<lambda>e. case e of InvalidCursorError d \<Rightarrow> response_of 400 d) (proposal_changes_feed ops s cursor limit aid))"

definition require_proposal :: "('s, 'v) store_ops \<Rightarrow> 's \<Rightarrow> string \<Rightarrow> response + 'v proposal" where
  "require_proposal ops s aid = (case st_get ops s aid of None \<Rightarrow> Inl unknown_action | Some p \<Rightarrow> Inr p)"

definition review_route :: "('s, 'v) store_ops \<Rightarrow> ('v \<Rightarrow> string option) \<Rightarrow> (string \<times> string) list \<Rightarrow> confidence_lookup \<Rightarrow> 's \<Rightarrow> string \<Rightarrow>
  response + proposal_review" where
  "review_route ops shown names lookup s aid = map_sum id (build_proposal_review shown names lookup) (require_proposal ops s aid)"

end
