(* ===== verification/QueueAccess.thy ===== *)
theory QueueAccess
  imports ProposalRoutes ProposalClaims AuthClaims
begin

text \<open>
  The queue behind the gate: a request to approve or dismiss, from its credentials to the stored
  proposal, and what an operator is shown before deciding.
\<close>

section \<open>A request to resolve\<close>

definition resolve_over_http :: "auth_env \<Rightarrow> request \<Rightarrow> int \<Rightarrow> gate_state \<Rightarrow> ('s, 'v) store_ops \<Rightarrow> 's gaps \<Rightarrow> int \<Rightarrow> int \<Rightarrow> 'v dispatcher \<Rightarrow> 's \<Rightarrow>
  string \<Rightarrow> proposal_status \<Rightarrow> string option \<Rightarrow> (response + 'v proposal) \<times> 's" where
  \<comment> \<open>the middleware, then the handler of approve or dismiss\<close>
  "resolve_over_http env rq now gs ops gap t t2 dispatcher s aid kind reason =
     (case gate env rq now gs of
        Inl _ \<Rightarrow> (Inl server_error, s)
      | Inr (None, _) \<Rightarrow> (Inl server_error, s)
      | Inr (Some (Stopped r), _) \<Rightarrow> (Inl r, s)
      | Inr (Some (Passed p), _) \<Rightarrow> resolution_route ops gap t t2 dispatcher s aid kind p reason)"

lemma calm_later: "calm ops sinv gap \<Longrightarrow> calm ops sinv (later n gap)"
  by (simp add: calm_def later_def)

lemma map_sum_Inr: "map_sum f id a = Inr q \<longleftrightarrow> a = Inr q"
  by (cases a) simp_all

lemma released_won:
  assumes "resolve_and_release ops gap now now2 dispatcher s aid kind resolver reason = (Inr q, s')"
  shows "resolve ops (later 1 gap) now (gap 0 s) aid kind (act_name resolver) reason (act_auth_provider resolver) = (Inr q, s')"
  using assms
  by (cases "resolve ops (later 1 gap) now (gap 0 s) aid kind (act_name resolver) reason (act_auth_provider resolver)")
    (auto simp: resolve_and_release_def resolve_proposal_def answer_with_def map_sum_Inr Let_def split: sum.splits if_splits option.splits prod.splits)

lemma resolution_routeE:
  assumes "resolution_route ops gap now now2 dispatcher s aid kind p reason = (Inr q, s')"
  shows "act_auth_provider (request_actor p) \<notin> set (map Some MACHINE_AUTH_PROVIDERS)"
    and "resolve ops (later 1 gap) now (gap 0 s) aid kind (act_name (request_actor p)) reason (act_auth_provider (request_actor p)) = (Inr q, s')"
proof -
  obtain resolver where r: "resolver_identity p = Inr resolver"
    and q: "resolve_and_release ops gap now now2 dispatcher s aid kind resolver reason = (Inr q, s')"
    using assms by (auto simp: resolution_route_def split: sum.splits if_splits)
  from r have "resolver = request_actor p" "act_auth_provider (request_actor p) \<notin> set (map Some MACHINE_AUTH_PROVIDERS)"
    by (auto simp: resolver_identity_def Let_def split: if_splits)
  with released_won [OF q] show "act_auth_provider (request_actor p) \<notin> set (map Some MACHINE_AUTH_PROVIDERS)"
    and "resolve ops (later 1 gap) now (gap 0 s) aid kind (act_name (request_actor p)) reason (act_auth_provider (request_actor p)) = (Inr q, s')"
    by simp_all
qed

lemma authorized_person:
  assumes "authorize_request p (Some role) scope (Some permission) unsafe = None" and "role \<noteq> Admin"
  obtains q where "p = Some q" and "has_required_permission (context_of q) (Some permission)"
  using assms by (cases p) (auto simp: authorize_request_def Let_def split: if_splits)

section \<open>A release that fails\<close>

lemma no_gap_later: "later n no_gap = no_gap"
  by (auto simp: later_def no_gap_def fun_eq_iff)

lemma released_calmly:
  assumes "st_get ops s aid = Some p" and "status p = Pending"
    and "resolve ops no_gap now s aid kind (act_name resolver) reason (act_auth_provider resolver) = (Inr q, t)"
  shows "resolve_and_release ops no_gap now now2 dispatcher s aid kind resolver reason =
    (case dispatcher of None \<Rightarrow> (Inr q, t)
     | Some release_failed \<Rightarrow> if adapter q \<noteq> ADAPTER_HOME_ASSISTANT \<or> \<not> release_failed q kind then (Inr q, t)
         else (Inl (response_of 502 ''Failed to release approval notification.''),
           snd (revert_failed_release ops no_gap now2 t aid kind RELEASE_FAILED_REASON)))"
proof -
  have "require_pending_proposal ops (no_gap 0 s) aid = Inr p"
    using assms(1,2) by (simp add: require_pending_proposal_def no_gap_def)
  moreover have "resolve_proposal ops no_gap now (no_gap 0 s) aid kind resolver reason = (Inr q, t)"
    using assms(3) by (simp add: resolve_proposal_def answer_with_def no_gap_def)
  ultimately show ?thesis
    by (simp add: resolve_and_release_def no_gap_later Let_def split: option.split prod.split)
qed

context proposal_store begin

lemma released_or_reverted:
  assumes "sinv s" and "st_get ops s aid = Some p" and "status p = Pending" and "kind \<noteq> Pending"
    and "adapter p = ADAPTER_HOME_ASSISTANT"
  obtains q t where "resolve_and_release ops no_gap now now2 (Some release_failed) s aid kind resolver reason =
      (if release_failed q kind then Inl (response_of 502 ''Failed to release approval notification.'') else Inr q, t)"
    and "history q = history p @ [resolution_event now kind (act_name resolver) (clean_reason reason) (act_auth_provider resolver)]"
    and "status q = kind" and "sinv t"
    and "\<exists>r. st_get ops t = (st_get ops s)(aid \<mapsto> r) \<and> (if release_failed q kind
       then status r = Pending \<and> map ev_kind (history r) = map ev_kind (history q) @ [Release_failed] else r = q)"
proof -
  obtain q t where q: "resolve ops no_gap now s aid kind (act_name resolver) reason (act_auth_provider resolver) = (Inr q, t)" "sinv t"
    "q = committed p (resolved_copy now kind (act_name resolver) (clean_reason reason) p)
       (Some (resolution_event now kind (act_name resolver) (clean_reason reason) (act_auth_provider resolver)))"
    "st_get ops t = (st_get ops s)(aid \<mapsto> q)"
    by (rule resolve_fresh [OF assms(1-3)])
  have kind: "status q = kind" "adapter q = ADAPTER_HOME_ASSISTANT"
      "history q = history p @ [resolution_event now kind (act_name resolver) (clean_reason reason) (act_auth_provider resolver)]"
    using assms(5) by (simp_all add: q(3) resolved_copy_def Let_def committed_def)
  obtain r u where r: "revert_failed_release ops no_gap now2 t aid kind RELEASE_FAILED_REASON = (Inr r, u)" "sinv u" "status r = Pending"
      "map ev_kind (history r) = map ev_kind (history q) @ [Release_failed]" "st_get ops u = (st_get ops t)(aid \<mapsto> r)"
  proof (rule revert_fresh [OF q(2) _ kind(1)])
    show "st_get ops t aid = Some q" by (simp add: q(4))
  qed
  have "resolve_and_release ops no_gap now now2 (Some release_failed) s aid kind resolver reason =
      (if release_failed q kind then Inl (response_of 502 ''Failed to release approval notification.'') else Inr q, if release_failed q kind then u else t)"
    using released_calmly [OF assms(2,3) q(1)] r(1) kind(2) by simp
  then show ?thesis
    by (rule that [of q _, OF _ kind(3,1)]) (use q(2,4) r in auto)
qed

end

section \<open>Caveats\<close>

lemma first_max_at_most: "guidance_rank (first_max g gs) \<le> n \<longleftrightarrow> guidance_rank g \<le> n \<and> (\<forall>h \<in> set gs. guidance_rank h \<le> n)"
  by (induction gs arbitrary: g) auto

lemma worst_at_most: "gs \<noteq> [] \<Longrightarrow> guidance_rank (worst_guidance gs) \<le> n \<longleftrightarrow> (\<forall>g \<in> set gs. guidance_rank g \<le> n)"
  by (cases gs) (simp_all add: worst_guidance_def first_max_at_most)

definition sound_now :: "snapshot \<Rightarrow> bool" where
  "sound_now s \<longleftrightarrow> sn_confidence_verdict s \<in> {Trustworthy, Degraded} \<and> sn_freshness_state s \<in> {Pub_Current, Pub_Due_Soon}"

lemma guidance_sound: "guidance_rank (guidance_for s) \<le> Suc 0 \<longleftrightarrow> sound_now s"
  by (cases "sn_confidence_verdict s"; cases "sn_freshness_state s") (simp_all add: guidance_for_def sound_now_def)

lemma trust_sound:
  "guidance_rank (pt_guidance (assess_publication_trust k (safe_confidence_lookup lookup k))) \<le> Suc 0 \<longleftrightarrow>
     (\<exists>f s. lookup = Some f \<and> f k = Some s \<and> sound_now s)"
  by (auto simp: assess_publication_trust_def safe_confidence_lookup_def guidance_sound split: option.splits)

section \<open>Properties\<close>

text \<open>C34: Unless authentication is disabled, an approval or dismissal that succeeds over HTTP under the API's
  catalog of policies was made by a person: the gate let the request pass for a principal that is no service token and no machine JWT and holds the permission to write
  action proposals, and the stored proposal's history names that person and how they signed in; this in a
  well-formed store, with any writers between the store calls that keep it so and only move proposals
  on.\<close>
theorem only_people_resolve:
  assumes "en_auth_mode env \<noteq> ''disabled''" and "en_policies env = API_ROUTE_POLICY_CATALOG"
    and "resolves_proposal (rq_path rq) (request_method (Some (rq_method rq)))"
    and "sql_inv s" and "wf_store sql_ops s" and "calm sql_ops sql_inv gap" and "kind \<noteq> Pending"
    and "resolve_over_http env rq now gs sql_ops gap t t2 dispatcher s aid kind reason = (Inr (q :: 'v proposal), s')"
  shows "\<exists>p gs'. gate env rq now gs = Inr (Some (Passed (Some p)), gs') \<and> au_auth_provider p \<notin> set MACHINE_AUTH_PROVIDERS \<and>
    has_required_permission (context_of p) (Some PERMISSION_CONTROL_ACTION_PROPOSALS_WRITE) \<and> sql_get s' aid = Some q \<and>
    resolution_event t kind (Some (au_username p)) (clean_reason reason) (Some (au_auth_provider p)) \<in> set (history q)"
proof -
  obtain p gs' where g: "gate env rq now gs = Inr (Some (Passed p), gs')"
    and route: "resolution_route sql_ops gap t t2 dispatcher s aid kind p reason = (Inr q, s')"
    using assms(8) unfolding resolve_over_http_def
    by (force split: sum.split_asm prod.split_asm option.split_asm verdict_of_gate.split_asm)
  have "authorize_request p (Some Operator) (Some SCOPE_ADMIN_WRITE) (Some PERMISSION_CONTROL_ACTION_PROPOSALS_WRITE) (en_unsafe_admin env) = None"
    by (rule gate_passed [OF g assms(1)]) (simp only: assms(2) resolving_needs [OF assms(3)])
  then obtain person where person: "p = Some person"
      "has_required_permission (context_of person) (Some PERMISSION_CONTROL_ACTION_PROPOSALS_WRITE)"
    by (rule authorized_person) simp
  note made = resolution_routeE [OF route]
  have "kept sql_ops sql_inv s (gap 0 s)" by (rule calmD [OF assms(6,4,5)])
  then have at: "sql_inv (gap 0 s)" "wf_store sql_ops (gap 0 s)" by (rule keptD)+
  obtain p0 r where stored: "st_get sql_ops s' aid = Some q" "prefix (history (r :: 'v proposal)) (history q)"
    and made_r: "history r = history (p0 :: 'v proposal) @ [resolution_event t kind (act_name (request_actor p)) (clean_reason reason)
      (act_auth_provider (request_actor p))]"
    by (rule sql.resolve_won [OF at calm_later [OF assms(6)] assms(7) made(2)]) blast
  from stored(2) made_r have "resolution_event t kind (Some (au_username person)) (clean_reason reason)
      (Some (au_auth_provider person)) \<in> set (history q)"
    by (auto simp: request_actor_def person(1) prefix_def)
  moreover have "sql_get s' aid = Some q" using stored(1) by simp
  moreover have "au_auth_provider person \<notin> set MACHINE_AUTH_PROVIDERS"
    using made(1) by (auto simp: request_actor_def person(1))
  ultimately show ?thesis
    using g person(2) unfolding person(1) by blast
qed

definition approve_request :: request where
  "approve_request = (sample_request ''/api/actions/proposals/agent_k/approve'' ''POST'' None)\<lparr> rq_headers := [(''x-csrf-token'', ''x1'')],
     rq_cookies := [(''session'', ''p.s''), (''csrf'', ''x1'')] \<rparr>"

lemma demo_pending: obtains p where "sql_get demo_db ''agent_k'' = Some p" and "status p = Pending"
  using demo_status by (cases "sql_get demo_db ''agent_k''") auto

theorem only_people_resolve_witness:
  "\<exists>q s'. resolve_over_http signed_env approve_request 50 session_state sql_ops no_gap 20 21 None demo_db ''agent_k'' Approved None = (Inr q, s') \<and>
     resolution_event 20 Approved (Some ''ann'') None (Some ''local'') \<in> set (history q)"
proof -
  let ?p = "principal_from_user sample_user ''x1''"
  have g: "gate signed_env approve_request 50 session_state = Inr (Some (Passed (Some ?p)), session_state)"
    by code_simp
  obtain p where p: "st_get sql_ops demo_db ''agent_k'' = Some p" "status p = Pending"
    using demo_pending by auto
  obtain q t where q: "resolve sql_ops no_gap 20 demo_db ''agent_k'' Approved (Some ''ann'') None (Some ''local'') = (Inr q, t)"
    by (rule sql.resolve_fresh [OF conjunct1 [OF demo_queue_inv] p])
  have "resolution_route sql_ops no_gap 20 21 None demo_db ''agent_k'' Approved (Some ?p) None = (Inr q, t)"
    using released_calmly [OF p, of 20 Approved "request_actor (Some ?p)" None q t 21 None] q
    by (simp add: resolution_route_def resolver_identity_def request_actor_def principal_from_user_def sample_user_def
      MACHINE_AUTH_PROVIDERS_def)
  then have result: "resolve_over_http signed_env approve_request 50 session_state sql_ops no_gap 20 21 None demo_db ''agent_k'' Approved None = (Inr q, t)"
    by (simp add: resolve_over_http_def g)
  have "en_auth_mode signed_env \<noteq> ''disabled''" "en_policies signed_env = API_ROUTE_POLICY_CATALOG"
    by (simp_all add: signed_env_def sample_env_def)
  moreover have "resolves_proposal (rq_path approve_request) (request_method (Some (rq_method approve_request)))"
    by code_simp
  ultimately have "resolution_event 20 Approved (Some ''ann'') None (Some ''local'') \<in> set (history q)"
    using only_people_resolve [OF _ _ _ _ _ calm_no_gap _ result] demo_queue_inv g
    by (auto simp: principal_from_user_def sample_user_def)
  with result show ?thesis by blast
qed

text \<open>C35: Resolving a pending Home Assistant proposal while no other session writes, also not during the
  awaited release, in a store with unique ids: when the release succeeds the answer is
  the resolved proposal; when it fails the answer is 502 and the proposal is pending again, with the
  resolution and the failure in its history and every other proposal as it was, so that it can be resolved
  again.\<close>
theorem failed_release_returns:
  assumes "sql_inv s" and "sql_get s aid = Some p" and "status p = Pending" and "kind \<noteq> Pending"
    and "adapter p = ADAPTER_HOME_ASSISTANT"
  shows "\<exists>(q :: 'v proposal) t. resolve_and_release sql_ops no_gap now now2 (Some release_failed) s aid kind resolver reason =
      (if release_failed q kind then Inl (response_of 502 ''Failed to release approval notification.'') else Inr q, t) \<and>
    history q = history p @ [resolution_event now kind (act_name resolver) (clean_reason reason) (act_auth_provider resolver)] \<and>
    status q = kind \<and> sql_inv t \<and> (\<exists>r. sql_get t = (sql_get s)(aid \<mapsto> r) \<and> (if release_failed q kind
      then status r = Pending \<and> map ev_kind (history r) = map ev_kind (history q) @ [Release_failed] else r = q))"
proof -
  have "st_get sql_ops s aid = Some p" using assms(2) by simp
  then obtain q t where "resolve_and_release sql_ops no_gap now now2 (Some release_failed) s aid kind resolver reason =
      (if release_failed q kind then Inl (response_of 502 ''Failed to release approval notification.'') else Inr q, t)"
    "history q = history p @ [resolution_event now kind (act_name resolver) (clean_reason reason) (act_auth_provider resolver)]"
    "status q = kind" "sql_inv t" "\<exists>r. st_get sql_ops t = (st_get sql_ops s)(aid \<mapsto> r) \<and> (if release_failed q kind
       then status r = Pending \<and> map ev_kind (history r) = map ev_kind (history q) @ [Release_failed] else r = q)"
    by (rule sql.released_or_reverted [OF assms(1) _ assms(3-5)])
  then show ?thesis unfolding sql_ops_simps by blast
qed

definition ha_db :: "nat sql_db" where
  "ha_db = snd (register sql_ops no_gap 10 11 ''x'' empty_db ((demo_draft (Some ''k''))\<lparr> d_adapter := ADAPTER_HOME_ASSISTANT \<rparr>))"

theorem failed_release_returns_witness:
  "\<exists>r t s'. resolve_and_release sql_ops no_gap 20 21 (Some (\<lambda>_ _. True)) ha_db ''agent_k'' Approved
      \<lparr> act_name = Some ''ann'', act_auth_provider = Some ''local'' \<rparr> None = (Inl r, t) \<and> re_status r = 502 \<and>
     sql_get t ''agent_k'' = Some s' \<and> status s' = Pending"
proof -
  have "sql_inv ha_db"
    using sql.register_kept [OF sql_inv_empty _ calm_no_gap, of _ _ _ "(demo_draft (Some ''k''))\<lparr> d_adapter := ADAPTER_HOME_ASSISTANT \<rparr>"]
    by (simp add: ha_db_def kept_def wf_store_def sql_get_def load_action_proposals_def first_of_def empty_db_def)
  moreover have "map_option (\<lambda>p. (status p, adapter p)) (sql_get ha_db ''agent_k'') = Some (Pending, ADAPTER_HOME_ASSISTANT)"
    by code_simp
  then obtain p where "sql_get ha_db ''agent_k'' = Some p" "status p = Pending" "adapter p = ADAPTER_HOME_ASSISTANT"
    by auto
  ultimately show ?thesis
    using failed_release_returns [of ha_db "''agent_k''" p Approved 20 21 "\<lambda>_ _. True" "\<lparr> act_name = Some ''ann'', act_auth_provider = Some ''local'' \<rparr>" None]
    by (auto simp: response_of_def)
qed

text \<open>The review an operator reads has no caveat exactly when the proposal cites publications, all of
  them in the catalog and each with a present snapshot that is neither unreliable nor stale, and the
  evidence was not recorded as less than trustworthy at draft time.\<close>
theorem review_without_caveats:
  "rw_caveats (build_proposal_review shown names lookup p) = [] \<longleftrightarrow>
     cited_publications p \<noteq> [] \<and> tp_confidence_verdict (drafted_stamp p) \<in> {None, Some ''trustworthy''} \<and>
     (\<forall>k \<in> set (cited_publications p). map_of names k \<noteq> None \<and> (\<exists>f s. lookup = Some f \<and> f k = Some s \<and> sound_now s))"
proof -
  let ?cited = "cited_publications p"
  let ?overall = "worst_guidance (map pt_guidance (List.map_filter (trust_now names lookup) ?cited))"
  have "rw_caveats (build_proposal_review shown names lookup p) = [] \<longleftrightarrow> (\<forall>k \<in> set ?cited. map_of names k \<noteq> None) \<and>
      ?cited \<noteq> [] \<and> guidance_rank ?overall \<le> Suc 0 \<and> tp_confidence_verdict (drafted_stamp p) \<in> {None, Some ''trustworthy''}"
    by (cases ?overall) (auto simp: build_proposal_review_def Let_def filter_empty_conv split: option.splits)
  moreover have "guidance_rank ?overall \<le> Suc 0 \<longleftrightarrow> (\<forall>k \<in> set ?cited. \<exists>f s. lookup = Some f \<and> f k = Some s \<and> sound_now s)"
    if "\<forall>k \<in> set ?cited. map_of names k \<noteq> None" and "?cited \<noteq> []"
  proof -
    have "List.map_filter (trust_now names lookup) ?cited =
        map (\<lambda>k. assess_publication_trust k (safe_confidence_lookup lookup k)) ?cited"
      using that(1) by (simp add: trust_now_def map_filter_def)
    then show ?thesis
      using that(2) by (simp add: worst_at_most trust_sound)
  qed
  ultimately show ?thesis
    unfolding ball_conj_distrib by (elim iffE) (metis (full_types))+
qed

theorem review_without_caveats_witness:
  "\<exists>p. rw_caveats (build_proposal_review (\<lambda>_. None) [] None p) \<noteq> [] \<and> sql_get demo_db ''agent_k'' = Some p"
proof -
  obtain p where p: "sql_get demo_db ''agent_k'' = Some p" by (rule demo_pending)
  have "map_option cited_publications (sql_get demo_db ''agent_k'') = Some []" by code_simp
  with p have "cited_publications p = []" by simp
  then have "rw_caveats (build_proposal_review (\<lambda>_. None) [] None p) \<noteq> []"
    using review_without_caveats [of "\<lambda>_. None" "[]" None p] by simp
  with p show ?thesis by blast
qed

end
