(* ===== verification/DecisionTerms.thy ===== *)
theory DecisionTerms
  imports Calendar Json
begin

text \<open>
  Declared decisions (\<open>packages/platform/decision_definitions.py\<close>): the terms a recorded decision is
  held to, with their checks, observation windows, success measures, review triggers and stop
  conditions.  A \<open>Decimal\<close> is a coefficient and a power of ten, compared by value; infinities and NaN,
  which the request models refuse, are left out.  A document is a \<open>json\<close>, and \<open>json_same\<close> is Python's
  equality of documents, which ignores the order of an object's keys.
\<close>

section \<open>Decimals\<close>

datatype decimal = Dec (coefficient: int) (exponent: int)

definition scaled :: "decimal \<Rightarrow> int \<Rightarrow> int" where
  "scaled d e = coefficient d * 10 ^ nat (exponent d - e)"

definition dec_le :: "decimal \<Rightarrow> decimal \<Rightarrow> bool" where
  "dec_le a b \<longleftrightarrow> (let e = min (exponent a) (exponent b) in scaled a e \<le> scaled b e)"

definition signed :: "string \<Rightarrow> bool \<times> string" where
  "signed s = (case s of c # cs \<Rightarrow> if c = CHR ''-'' then (True, cs) else if c = CHR ''+'' then (False, cs) else (False, s) | [] \<Rightarrow> (False, s))"

definition cut_at :: "char set \<Rightarrow> string \<Rightarrow> string \<times> string option" where
  "cut_at C s = (let a = takeWhile (\<lambda>c. c \<notin> C) s; b = dropWhile (\<lambda>c. c \<notin> C) s in (a, if b = [] then None else Some (tl b)))"

definition decimal_of_text :: "string \<Rightarrow> decimal option" where
  \<comment> \<open>\<open>Decimal(text)\<close> of a finite number\<close>
  "decimal_of_text s =
     (let body = filter (\<lambda>c. c \<noteq> CHR ''_'') (strip s); (negative, rest) = signed body; (number, exp) = cut_at {CHR ''e'', CHR ''E''} rest;
          (whole, fraction) = cut_at {CHR ''.''} number; frac = (case fraction of None \<Rightarrow> [] | Some f \<Rightarrow> f) in
      case (digits_value 0 False (whole @ frac), (case exp of None \<Rightarrow> Some 0 | Some t \<Rightarrow>
          (let (down, digits) = signed t in map_option (\<lambda>n. if down then - n else n) (digits_value 0 False digits)))) of
        (Some n, Some e) \<Rightarrow> Some (Dec (if negative then - n else n) (e - int (length frac)))
      | _ \<Rightarrow> None)"

section \<open>Documents\<close>

fun norm_json :: "json \<Rightarrow> json" where
  \<comment> \<open>keys in order, and a truth value as the number it equals\<close>
  "norm_json (JObj fields) = JObj (sort_key fst (map (\<lambda>(k, v). (k, norm_json v)) fields))"
| "norm_json (JArr xs) = JArr (map norm_json xs)"
| "norm_json (JBool b) = JNum (if b then 1 else 0)"
| "norm_json j = j"

fun compact_json :: "json \<Rightarrow> string" where
  \<comment> \<open>\<open>json.dumps(.., sort_keys=True, separators=(",", ":"))\<close>\<close>
  "compact_json (JArr xs) = ''['' @ join_texts '','' (map compact_json xs) @ '']''"
| "compact_json (JObj fields) = ''{'' @ join_texts '',''
     (map (\<lambda>(k, t). quoted k @ '':'' @ t) (sort_key fst (map (\<lambda>(k, v). (k, compact_json v)) fields))) @ ''}''"
| "compact_json j = dumps j"

definition json_same :: "json \<Rightarrow> json \<Rightarrow> bool" where
  "json_same a b \<longleftrightarrow> norm_json a = norm_json b"

definition get_or_null :: "(string \<times> json) list \<Rightarrow> string \<Rightarrow> json" where
  "get_or_null d k = (case map_of d k of None \<Rightarrow> JNull | Some v \<Rightarrow> v)"

definition decimal_of_json :: "json \<Rightarrow> decimal option" where
  \<comment> \<open>\<open>Decimal(str(value))\<close>\<close>
  "decimal_of_json j = (case j of JNum n \<Rightarrow> Some (Dec n 0) | JStr s \<Rightarrow> decimal_of_text s | _ \<Rightarrow> None)"

section \<open>Terms\<close>

record outcome_option =
  oo_key :: string
  oo_label :: string
  oo_is_non_decision :: bool

record decision_owner =
  ow_role :: string
  ow_principal :: "string option"
  ow_description :: string

datatype window_kind = Calendar_months_after_decision | Days_after_decision

record observation_window =
  wn_description :: string
  wn_kind :: window_kind
  wn_length :: int
  wn_review_grace_days :: int
  wn_review_cadence_days :: int

definition window_ok :: "observation_window \<Rightarrow> bool" where
  "window_ok w \<longleftrightarrow> \<not> (wn_length w < 1 \<or> wn_review_grace_days w < 0 \<or> wn_review_cadence_days w < 1)"

definition months_later :: "date \<Rightarrow> int \<Rightarrow> date option" where
  "months_later d months =
     (let month_index = month d - 1 + months; y = year d + month_index div 12; m = month_index mod 12 + 1 in
      make_date y m (min (day d) (days_in_month y m)))"

definition last_of_month :: "date \<Rightarrow> date" where
  "last_of_month d = Date (year d) (month d) (days_in_month (year d) (month d))"

definition window_for :: "observation_window \<Rightarrow> date \<Rightarrow> (date \<times> date) option" where
  \<comment> \<open>\<open>None\<close> past the year 9999, where Python raises\<close>
  "window_for w decided_on = (case wn_kind w of
     Days_after_decision \<Rightarrow>
       (case (plus_days decided_on 1, plus_days decided_on (wn_length w)) of (Some a, Some b) \<Rightarrow> Some (a, b) | _ \<Rightarrow> None)
   | Calendar_months_after_decision \<Rightarrow>
       Option.bind (months_later (Date (year decided_on) (month decided_on) 1) 1) (\<lambda>start.
         map_option (\<lambda>last_month. (start, last_of_month last_month)) (months_later start (wn_length w - 1))))"

definition review_due_on :: "observation_window \<Rightarrow> date \<Rightarrow> date option" where
  "review_due_on w decided_on = Option.bind (window_for w decided_on) (\<lambda>(_, end). plus_days end (wn_review_grace_days w))"

record decision_baseline =
  bl_description :: string
  bl_value_keys :: "string list"

datatype comparison = At_least | At_most

record success_measure =
  sm_key :: string
  sm_description :: string
  sm_unit :: string
  sm_comparison :: comparison
  sm_threshold :: decimal
  sm_accepted_value_statuses :: "string list"

datatype success = Met | Not_met | Unmeasured

definition evaluate :: "success_measure \<Rightarrow> decimal option \<Rightarrow> string option \<Rightarrow> success" where
  "evaluate m v value_status = (case v of
     None \<Rightarrow> Unmeasured
   | Some x \<Rightarrow>
       if value_status \<notin> set (map Some (sm_accepted_value_statuses m)) then Unmeasured
       else (case sm_comparison m of
           At_least \<Rightarrow> if dec_le (sm_threshold m) x then Met else Not_met
         | At_most \<Rightarrow> if dec_le x (sm_threshold m) then Met else Not_met))"

record evidence_component =
  vc_key :: string
  vc_label :: string
  vc_correction_kind :: string

definition CORRECTION_KINDS :: "string list" where
  "CORRECTION_KINDS = [''source_window'', ''tariff_snapshot'', ''entity_mapping'', ''cost_basis'', ''contract_terms'', ''market_reference'', ''usage_basis'']"

datatype trigger_kind = Timed | Evidence_change | Verdict_change

record review_trigger =
  rt_key :: string
  rt_description :: string
  rt_kind :: trigger_kind
  rt_evidence_components :: "string list"

record stop_condition =
  sp_key :: string
  sp_description :: string
  sp_outcome_keys :: "string list"
  sp_reason_codes :: "string list"

definition met_by :: "stop_condition \<Rightarrow> string \<Rightarrow> string list \<Rightarrow> bool" where
  "met_by c outcome reason_codes \<longleftrightarrow> outcome \<in> set (sp_outcome_keys c) \<or> list_ex (\<lambda>code. code \<in> set (sp_reason_codes c)) reason_codes"

section \<open>Definitions\<close>

record decision_definition =
  df_decision_key :: string
  df_version :: string
  df_question :: string
  df_subject_publication_key :: string
  df_evidence_window :: string
  df_evidence_that_could_change_decision :: "string list"
  df_insufficient_evidence_criteria :: "string list"
  df_outcome_options :: "outcome_option list"
  df_authorization_boundary :: string
  df_supporting_publication_keys :: "string list"
  df_subject_period_label :: string
  df_purpose :: string
  df_owner :: decision_owner
  df_baseline :: decision_baseline
  df_success_measure :: success_measure
  df_observation_window :: observation_window
  df_evidence_components :: "evidence_component list"
  df_review_triggers :: "review_trigger list"
  df_stop_conditions :: "stop_condition list"

definition definition_ok :: "decision_definition \<Rightarrow> bool" where
  \<comment> \<open>the checks of the constructors\<close>
  "definition_ok d \<longleftrightarrow> (let keys = map oo_key (df_outcome_options d) in
     window_ok (df_observation_window d) \<and>
     list_all (\<lambda>c. vc_correction_kind c \<in> set CORRECTION_KINDS) (df_evidence_components d) \<and>
     distinct keys \<and> list_ex oo_is_non_decision (df_outcome_options d) \<and> strip (df_purpose d) \<noteq> [] \<and>
     list_all (\<lambda>t. set (rt_evidence_components t) \<subseteq> set (map vc_key (df_evidence_components d))) (df_review_triggers d) \<and>
     list_ex (\<lambda>t. rt_kind t = Timed) (df_review_triggers d) \<and> df_stop_conditions d \<noteq> [] \<and>
     list_all (\<lambda>c. set (sp_outcome_keys c) \<subseteq> set keys) (df_stop_conditions d))"

definition find_outcome :: "decision_definition \<Rightarrow> string \<Rightarrow> outcome_option option" where
  "find_outcome d key = List.find (\<lambda>o'. oo_key o' = key) (df_outcome_options d)"

definition find_component :: "decision_definition \<Rightarrow> string \<Rightarrow> evidence_component option" where
  "find_component d key = List.find (\<lambda>c. vc_key c = key) (df_evidence_components d)"

definition triggers_for_components :: "decision_definition \<Rightarrow> string list \<Rightarrow> string list" where
  "triggers_for_components d changed =
     map rt_key (filter (\<lambda>t. rt_kind t = Evidence_change \<and> list_ex (\<lambda>c. c \<in> set changed) (rt_evidence_components t)) (df_review_triggers d))"

section \<open>The subject of a decision\<close>

record baseline_value =
  bv_value :: json
  bv_status :: "string option"
  bv_unit :: "string option"
  bv_is_missing :: bool

definition missing_value :: baseline_value where
  "missing_value = \<lparr> bv_value = JNull, bv_status = None, bv_unit = None, bv_is_missing = True \<rparr>"

record subject_evidence =
  sj_publication_key :: string
  sj_schema_version :: string
  sj_period :: string
  sj_row_ref :: string
  sj_verdict :: string
  sj_reason_codes :: "string list"
  sj_lineage_reference :: "(string \<times> json) list"
  sj_snapshot :: json
  sj_baseline :: "(string \<times> baseline_value) list"
  sj_evidence_components :: "(string \<times> json) list"

definition evidence_fingerprint :: "(string \<Rightarrow> string) \<Rightarrow> (string \<times> json) list \<Rightarrow> string" where
  \<comment> \<open>\<open>digest\<close> is the hexadecimal SHA-256 of a text\<close>
  "evidence_fingerprint digest components = ''evf_'' @ take 24 (digest (compact_json (JObj components)))"

end
