(* ===== verification/DecisionStore.thy ===== *)
theory DecisionStore
  imports DecisionTerms "HOL-Library.Product_Lexorder"
begin

text \<open>
  The decision ledger's records (\<open>packages/storage/decision_ledger.py\<close>) and its append-only tables
  (\<open>packages/storage/sqlite_decision_ledger.py\<close>).  Instants are UTC microseconds, which their stored
  texts order; a JSON column holds the document it encodes.  Every session is one atomic step, and
  \<open>others i\<close> is what other sessions do before the \<open>i\<close>-th session of a call.
\<close>

section \<open>Records\<close>

record decision_actor =
  ac_actor :: string
  ac_role :: "string option"
  ac_auth_provider :: string
  ac_authenticated :: bool

record commitment =
  cm_decision_id :: string
  cm_purpose :: string
  cm_owner_role :: string
  cm_owner_principal :: "string option"
  cm_owner_verified :: bool
  cm_baseline_description :: string
  cm_baseline_values :: "(string \<times> baseline_value) list"
  cm_success_measure :: success_measure
  cm_observation_window_start :: date
  cm_observation_window_end :: date
  cm_next_review_due_on :: date
  cm_review_cadence_days :: int
  cm_review_triggers :: "review_trigger list"
  cm_stop_conditions :: "stop_condition list"
  cm_stop_conditions_met :: "string list"
  cm_evidence_fingerprint :: string
  cm_evidence_components :: "(string \<times> json) list"
  cm_created_at :: int

record decision =
  dn_decision_id :: string
  dn_decision_key :: string
  dn_decision_version :: string
  dn_subject_publication_key :: string
  dn_subject_schema_version :: string
  dn_subject_period :: string
  dn_subject_row_ref :: string
  dn_subject_verdict :: string
  dn_lineage_reference :: "(string \<times> json) list"
  dn_evidence_snapshot :: json
  dn_outcome :: string
  dn_is_non_decision :: bool
  dn_rationale :: string
  dn_evidence_gaps_acknowledged :: "string list"
  dn_uncertainty :: "string option"
  dn_actor :: decision_actor
  dn_follow_up_due_on :: date
  dn_created_at :: int
  dn_commitment :: "commitment option"
  dn_decided_at :: "int option"
  dn_retrospective_basis :: "string option"

definition effective_decided_at :: "decision \<Rightarrow> int" where
  "effective_decided_at r = (case dn_decided_at r of None \<Rightarrow> dn_created_at r | Some t \<Rightarrow> t)"

definition is_retrospective :: "decision \<Rightarrow> bool" where
  "is_retrospective r = (case dn_decided_at r of None \<Rightarrow> False | Some t \<Rightarrow> t < dn_created_at r)"

datatype evidence_effect = Confirmed_decision | Changed_decision | Preserved_non_decision | Exposed_source_defect
  | Exposed_model_defect | Inconclusive

record follow_up =
  fu_follow_up_id :: string
  fu_decision_id :: string
  fu_observed_at :: int
  fu_observation_period :: "string option"
  fu_realized_result :: string
  fu_realized_value :: "decimal option"
  fu_realized_value_status :: "string option"
  fu_evidence_effect :: evidence_effect
  fu_notes :: "string option"
  fu_actor :: decision_actor
  fu_created_at :: int
  fu_estimated_baseline :: "decimal option"
  fu_estimated_baseline_basis :: "string option"
  fu_attribution_hypothesis :: "string option"
  fu_confounders :: "string list"
  fu_attribution_uncertainty :: "string option"
  fu_missing_evidence :: "string list"
  fu_attention_minutes :: "int option"

datatype lifecycle_kind = Evidence_superseded | Stopped_by_owner | Reopened_by_owner

fun lifecycle_kind_text :: "lifecycle_kind \<Rightarrow> string" where
  "lifecycle_kind_text Evidence_superseded = ''evidence_superseded''"
| "lifecycle_kind_text Stopped_by_owner = ''stopped''"
| "lifecycle_kind_text Reopened_by_owner = ''reopened''"

record supersession =
  su_superseded_row_ref :: string
  su_superseded_fingerprint :: string
  su_superseding_row_ref :: string
  su_superseding_fingerprint :: string
  su_superseding_publication_key :: string
  su_superseding_schema_version :: string
  su_affected_publication_keys :: "string list"
  su_changed_components :: "string list"
  su_correction_kinds :: "string list"
  su_triggered_reviews :: "string list"
  su_verdict_before :: string
  su_verdict_after :: string
  su_source_version :: "(string \<times> json) list"
  su_traced_at :: int

datatype event_details = Stop_details string | Reopen_details | Supersession_details supersession

record lifecycle_event =
  le_event_id :: string
  le_decision_id :: string
  le_kind :: lifecycle_kind
  le_dedupe_key :: string
  le_reason_code :: string
  le_reason :: string
  le_details :: event_details
  le_actor :: decision_actor
  le_occurred_at :: int
  le_created_at :: int

datatype decision_error = Key_error string | Lookup_error string | Validation_error string | Subject_conflict string
  | Authorization_error string | State_conflict string | Integrity_error | Range_error

section \<open>Tables\<close>

record ledger =
  lg_records :: "decision list"
  lg_commitments :: "commitment list"
  lg_follow_ups :: "follow_up list"
  lg_events :: "lifecycle_event list"

definition empty_ledger :: ledger where
  "empty_ledger = \<lparr> lg_records = [], lg_commitments = [], lg_follow_ups = [], lg_events = [] \<rparr>"

type_synonym others = "nat \<Rightarrow> ledger \<Rightarrow> ledger"

definition undisturbed :: others where
  "undisturbed i s = s"

definition joined :: "ledger \<Rightarrow> decision \<Rightarrow> decision" where
  \<comment> \<open>the left join of a record with its commitment\<close>
  "joined s r = r\<lparr> dn_commitment := List.find (\<lambda>c. cm_decision_id c = dn_decision_id r) (lg_commitments s) \<rparr>"

definition get_decision_record :: "ledger \<Rightarrow> string \<Rightarrow> decision_error + decision" where
  "get_decision_record s id' = (case List.find (\<lambda>r. dn_decision_id r = id') (lg_records s) of
     None \<Rightarrow> Inl (Key_error (''Unknown decision record: '' @ id'))
   | Some r \<Rightarrow> Inr (joined s r))"

definition insert_decision :: "ledger \<Rightarrow> decision \<Rightarrow> decision_error + ledger" where
  \<comment> \<open>one transaction: a refused row rolls both back\<close>
  "insert_decision s r =
     (if list_ex (\<lambda>q. dn_decision_id q = dn_decision_id r) (lg_records s) then Inl Integrity_error
      else let s1 = s\<lparr> lg_records := lg_records s @ [r\<lparr> dn_commitment := None \<rparr>] \<rparr> in
        (case dn_commitment r of
           None \<Rightarrow> Inr s1
         | Some c \<Rightarrow> if list_ex (\<lambda>d. cm_decision_id d = cm_decision_id c) (lg_commitments s) then Inl Integrity_error
             else Inr (s1\<lparr> lg_commitments := lg_commitments s @ [c] \<rparr>)))"

definition create_decision_record :: "others \<Rightarrow> ledger \<Rightarrow> decision \<Rightarrow> (decision_error + decision) \<times> ledger" where
  "create_decision_record others s r =
     (let s0 = others 0 s in
      case insert_decision s0 r of
        Inl e \<Rightarrow> (Inl e, s0)
      | Inr s1 \<Rightarrow> let s2 = others 1 s1 in (get_decision_record s2 (dn_decision_id r), s2))"

definition list_decision_records :: "ledger \<Rightarrow> string option \<Rightarrow> string option \<Rightarrow> decision list" where
  "list_decision_records s decision_key subject_period =
     map (joined s) (sort_key (\<lambda>r. (- dn_created_at r, dn_decision_id r))
       (filter (\<lambda>r. (decision_key = None \<or> decision_key = Some (dn_decision_key r)) \<and>
          (subject_period = None \<or> subject_period = Some (dn_subject_period r))) (lg_records s)))"

definition insert_follow_up :: "ledger \<Rightarrow> follow_up \<Rightarrow> decision_error + ledger" where
  "insert_follow_up s f =
     (if list_ex (\<lambda>g. fu_follow_up_id g = fu_follow_up_id f) (lg_follow_ups s) then Inl Integrity_error
      else Inr (s\<lparr> lg_follow_ups := lg_follow_ups s @ [f] \<rparr>))"

definition add_decision_follow_up :: "others \<Rightarrow> ledger \<Rightarrow> follow_up \<Rightarrow> (decision_error + follow_up) \<times> ledger" where
  "add_decision_follow_up others s f =
     (let s0 = others 0 s in
      case get_decision_record s0 (fu_decision_id f) of
        Inl e \<Rightarrow> (Inl e, s0)
      | Inr _ \<Rightarrow> let s1 = others 1 s0 in
          (case insert_follow_up s1 f of Inl e \<Rightarrow> (Inl e, s1) | Inr s2 \<Rightarrow> (Inr f, s2)))"

definition list_decision_follow_ups :: "ledger \<Rightarrow> string \<Rightarrow> follow_up list" where
  "list_decision_follow_ups s id' =
     sort_key (\<lambda>f. (fu_observed_at f, fu_follow_up_id f)) (filter (\<lambda>f. fu_decision_id f = id') (lg_follow_ups s))"

definition insert_lifecycle_event :: "ledger \<Rightarrow> lifecycle_event \<Rightarrow> decision_error + ((lifecycle_event \<times> bool) \<times> ledger)" where
  \<comment> \<open>a present dedupe key inserts nothing and answers with the stored event\<close>
  "insert_lifecycle_event s e = (case List.find (\<lambda>d. le_dedupe_key d = le_dedupe_key e) (lg_events s) of
     Some stored \<Rightarrow> Inr ((stored, False), s)
   | None \<Rightarrow> if list_ex (\<lambda>d. le_event_id d = le_event_id e) (lg_events s) then Inl Integrity_error
       else Inr ((e, True), s\<lparr> lg_events := lg_events s @ [e] \<rparr>))"

definition append_decision_lifecycle_event :: "others \<Rightarrow> ledger \<Rightarrow> lifecycle_event \<Rightarrow>
  (decision_error + (lifecycle_event \<times> bool)) \<times> ledger" where
  "append_decision_lifecycle_event others s e =
     (let s0 = others 0 s in
      case get_decision_record s0 (le_decision_id e) of
        Inl err \<Rightarrow> (Inl err, s0)
      | Inr _ \<Rightarrow> let s1 = others 1 s0 in
          (case insert_lifecycle_event s1 e of Inl err \<Rightarrow> (Inl err, s1) | Inr (r, s2) \<Rightarrow> (Inr r, s2)))"

definition list_decision_lifecycle_events :: "ledger \<Rightarrow> string \<Rightarrow> lifecycle_event list" where
  "list_decision_lifecycle_events s id' =
     sort_key (\<lambda>e. (le_occurred_at e, le_created_at e, le_event_id e)) (filter (\<lambda>e. le_decision_id e = id') (lg_events s))"

section \<open>What sessions do to the tables\<close>

text \<open>Rows are only added: every table of the earlier state is a prefix of the later one's.\<close>

definition grows :: "ledger \<Rightarrow> ledger \<Rightarrow> bool" where
  "grows s t \<longleftrightarrow> prefix (lg_records s) (lg_records t) \<and> prefix (lg_commitments s) (lg_commitments t) \<and>
     prefix (lg_follow_ups s) (lg_follow_ups t) \<and> prefix (lg_events s) (lg_events t)"

definition ledger_inv :: "ledger \<Rightarrow> bool" where
  "ledger_inv s \<longleftrightarrow> distinct (map dn_decision_id (lg_records s)) \<and> distinct (map cm_decision_id (lg_commitments s)) \<and>
     distinct (map fu_follow_up_id (lg_follow_ups s)) \<and> distinct (map le_event_id (lg_events s)) \<and>
     distinct (map le_dedupe_key (lg_events s)) \<and>
     cm_decision_id ` set (lg_commitments s) \<subseteq> dn_decision_id ` set (lg_records s) \<and>
     fu_decision_id ` set (lg_follow_ups s) \<subseteq> dn_decision_id ` set (lg_records s) \<and>
     le_decision_id ` set (lg_events s) \<subseteq> dn_decision_id ` set (lg_records s)"

lemma grows_refl [simp]: "grows s s"
  by (simp add: grows_def)

lemma grows_trans [trans]: "grows s t \<Longrightarrow> grows t u \<Longrightarrow> grows s u"
  unfolding grows_def by (meson prefix_order.trans)

lemma find_prefix: "prefix xs ys \<Longrightarrow> List.find P xs = Some x \<Longrightarrow> List.find P ys = Some x"
  by (auto simp: prefix_def find_append)

end
