(* ===== verification/DecisionLedger.thy ===== *)
theory DecisionLedger
  imports DecisionStore PyRepr AuthGate
begin

text \<open>
  Recording household decisions and their follow-ups, stopping and reopening commitments, and the state
  derived from the history (\<open>packages/application/use_cases/decision_ledger.py\<close>).  A moment is the
  instant and the offset a caller gave, or a time without an offset.
\<close>

section \<open>Requests\<close>

datatype moment = Naive int | Aware (instant: int) (offset: int)

record decision_request =
  rd_decision_key :: string
  rd_subject_period :: string
  rd_outcome :: string
  rd_rationale :: string
  rd_evidence_gaps_acknowledged :: "string list"
  rd_uncertainty :: "string option"
  rd_subject_row_ref :: "string option"
  rd_follow_up_due_on :: "date option"
  rd_decided_at :: "moment option"
  rd_retrospective_basis :: "string option"

record follow_up_request =
  rf_observed_at :: moment
  rf_realized_result :: string
  rf_evidence_effect :: "evidence_effect option"
  rf_observation_period :: "string option"
  rf_realized_value :: "decimal option"
  rf_realized_value_status :: "string option"
  rf_notes :: "string option"
  rf_baseline_value_key :: "string option"
  rf_estimated_baseline :: "decimal option"
  rf_estimated_baseline_basis :: "string option"
  rf_attribution_hypothesis :: "string option"
  rf_confounders :: "string list"
  rf_attribution_uncertainty :: "string option"
  rf_missing_evidence :: "string list"
  rf_attention_minutes :: "int option"

definition REALIZED_VALUE_STATUSES :: "string list" where
  "REALIZED_VALUE_STATUSES = [''observed'', ''user_entered'']"

definition LEGACY_REVIEW_CADENCE_DAYS :: int where
  "LEGACY_REVIEW_CADENCE_DAYS = 30"

definition optional_text :: "string option \<Rightarrow> string option" where
  "optional_text x = (let t = strip (text_or x []) in if t = [] then None else Some t)"

fun text_list :: "string list \<Rightarrow> string list \<Rightarrow> string list" where
  \<comment> \<open>stripped, without blanks and repetitions, behind those seen\<close>
  "text_list seen [] = seen"
| "text_list seen (v # vs) = (let t = strip v in text_list (if t \<noteq> [] \<and> t \<notin> set seen then seen @ [t] else seen) vs)"

definition iso_date :: "date \<Rightarrow> string" where
  "iso_date d = padded 4 (year d) @ ''-'' @ padded 2 (month d) @ ''-'' @ padded 2 (day d)"

section \<open>Actors and owners\<close>

definition actor_from_principal :: "principal option \<Rightarrow> decision_actor" where
  "actor_from_principal p = (case p of
     None \<Rightarrow> \<lparr> ac_actor = ''unauthenticated'', ac_role = None, ac_auth_provider = ''disabled'', ac_authenticated = False \<rparr>
   | Some q \<Rightarrow> \<lparr> ac_actor = (if au_username q = [] then au_user_id q else au_username q), ac_role = Some (role_value (au_role q)),
       ac_auth_provider = (if au_auth_provider q = [] then ''unknown'' else au_auth_provider q), ac_authenticated = True \<rparr>)"

definition role_of_text :: "string \<Rightarrow> user_role option" where
  "role_of_text t = List.find (\<lambda>r. role_value r = t) [Reader, Operator, Admin]"

definition check_owner :: "string \<Rightarrow> string option \<Rightarrow> decision_actor \<Rightarrow> decision_error + bool" where
  "check_owner owner_role owner_principal actor =
     (if \<not> ac_authenticated actor then Inr False
      else (case (role_of_text (text_or (ac_role actor) []), role_of_text owner_role) of
        (Some actor_role, Some required) \<Rightarrow>
          if \<not> has_required_role actor_role required
          then Inl (Authorization_error (''Only the '' @ owner_role @ '' role may own this commitment.''))
          else if owner_principal \<noteq> None \<and> owner_principal \<noteq> Some (ac_actor actor)
          then Inl (Authorization_error (''This commitment is owned by '' @ text_or owner_principal [] @ ''; '' @ ac_actor actor @ '' cannot act on it.''))
          else Inr True
      | _ \<Rightarrow> Inl (Authorization_error (''Actor role '' @ repr_opt (ac_role actor) @ '' cannot own this commitment.''))))"

section \<open>Recording a decision\<close>

definition local_date :: "int \<Rightarrow> int \<Rightarrow> decision_error + date" where
  "local_date t off = (case date_of_instant (t + off) of None \<Rightarrow> Inl Range_error | Some d \<Rightarrow> Inr d)"

definition decision_time :: "decision_request \<Rightarrow> int \<Rightarrow> decision_error + (moment option \<times> string option)" where
  "decision_time request created_at =
     (let basis = optional_text (rd_retrospective_basis request) in
      case rd_decided_at request of
        None \<Rightarrow> if basis \<noteq> None then Inl (Validation_error ''retrospective_basis requires decided_at.'') else Inr (None, None)
      | Some (Naive t) \<Rightarrow> Inl (Validation_error ''decided_at must include a timezone offset.'')
      | Some (Aware t off) \<Rightarrow>
          if created_at < t then Inl (Validation_error ''decided_at cannot be in the future.'')
          else if basis = None
          then Inl (Validation_error ''A retrospective decision needs retrospective_basis: what shows it was decided then.'')
          else Inr (Some (Aware t off), basis))"

definition decided_on_date :: "moment option \<Rightarrow> int \<Rightarrow> decision_error + date" where
  "decided_on_date decided_at created_at = (case decided_at of Some (Aware t off) \<Rightarrow> local_date t off | _ \<Rightarrow> local_date created_at 0)"

definition evidence_gap_missing :: "subject_evidence \<Rightarrow> string list \<Rightarrow> bool" where
  "evidence_gap_missing subject gaps \<longleftrightarrow> (sj_reason_codes subject \<noteq> [] \<or> sj_verdict subject = ''insufficient_evidence'') \<and> gaps = []"

definition clean_gaps :: "string list \<Rightarrow> string list" where
  "clean_gaps gaps = filter (\<lambda>g. g \<noteq> []) (map strip gaps)"

definition review_dates :: "decision_definition \<Rightarrow> date option \<Rightarrow> date \<Rightarrow> decision_error + (date \<times> date \<times> date)" where
  \<comment> \<open>the window's ends and the day the follow-up is due\<close>
  "review_dates d requested decided_on = (case window_for (df_observation_window d) decided_on of
     None \<Rightarrow> Inl Range_error
   | Some (window_start, window_end) \<Rightarrow>
       (case (case requested of Some due \<Rightarrow> Some due | None \<Rightarrow> review_due_on (df_observation_window d) decided_on) of
          None \<Rightarrow> Inl Range_error
        | Some due \<Rightarrow>
            if due \<le> decided_on then Inl (Validation_error ''follow_up_due_on must be after the decision date.'')
            else if due < window_end then Inl (Validation_error (''follow_up_due_on falls before the observation window closes ('' @
              iso_date window_end @ ''); the realized result cannot be reviewed yet.''))
            else Inr (window_start, window_end, due)))"

definition new_commitment :: "(string \<Rightarrow> string) \<Rightarrow> decision_definition \<Rightarrow> outcome_option \<Rightarrow> subject_evidence \<Rightarrow> string \<Rightarrow> bool \<Rightarrow>
  date \<times> date \<times> date \<Rightarrow> int \<Rightarrow> commitment" where
  "new_commitment digest d option subject id' owner_verified = (\<lambda>(window_start, window_end, due) created_at.
     \<lparr> cm_decision_id = id', cm_purpose = df_purpose d, cm_owner_role = ow_role (df_owner d), cm_owner_principal = ow_principal (df_owner d),
       cm_owner_verified = owner_verified, cm_baseline_description = bl_description (df_baseline d),
       cm_baseline_values = dict_of (map (\<lambda>k. (k, case map_of (sj_baseline subject) k of None \<Rightarrow> missing_value | Some v \<Rightarrow> v))
         (bl_value_keys (df_baseline d))),
       cm_success_measure = df_success_measure d, cm_observation_window_start = window_start, cm_observation_window_end = window_end,
       cm_next_review_due_on = due, cm_review_cadence_days = wn_review_cadence_days (df_observation_window d),
       cm_review_triggers = df_review_triggers d, cm_stop_conditions = df_stop_conditions d,
       cm_stop_conditions_met = map sp_key (filter (\<lambda>c. met_by c (oo_key option) (sj_reason_codes subject)) (df_stop_conditions d)),
       cm_evidence_fingerprint = evidence_fingerprint digest (sj_evidence_components subject),
       cm_evidence_components = sj_evidence_components subject, cm_created_at = created_at \<rparr>)"

definition new_decision :: "(string \<Rightarrow> string) \<Rightarrow> decision_definition \<Rightarrow> outcome_option \<Rightarrow> subject_evidence \<Rightarrow> string \<Rightarrow> int \<Rightarrow> bool \<Rightarrow>
  decision_request \<Rightarrow> decision_actor \<Rightarrow> moment option \<times> string option \<Rightarrow> date \<times> date \<times> date \<Rightarrow> decision" where
  "new_decision digest d option subject uid created_at owner_verified request actor timing dates =
     \<lparr> dn_decision_id = ''dec_'' @ uid, dn_decision_key = df_decision_key d, dn_decision_version = df_version d,
       dn_subject_publication_key = sj_publication_key subject, dn_subject_schema_version = sj_schema_version subject,
       dn_subject_period = sj_period subject, dn_subject_row_ref = sj_row_ref subject, dn_subject_verdict = sj_verdict subject,
       dn_lineage_reference = AList.update ''evidence_fingerprint''
         (JStr (evidence_fingerprint digest (sj_evidence_components subject))) (sj_lineage_reference subject),
       dn_evidence_snapshot = sj_snapshot subject, dn_outcome = oo_key option, dn_is_non_decision = oo_is_non_decision option,
       dn_rationale = strip (rd_rationale request), dn_evidence_gaps_acknowledged = clean_gaps (rd_evidence_gaps_acknowledged request),
       dn_uncertainty = optional_text (rd_uncertainty request), dn_actor = actor, dn_follow_up_due_on = snd (snd dates),
       dn_created_at = created_at,
       dn_commitment = Some (new_commitment digest d option subject (''dec_'' @ uid) owner_verified dates created_at),
       dn_decided_at = map_option instant (fst timing), dn_retrospective_basis = snd timing \<rparr>"

type_synonym definition_lookup = "string \<Rightarrow> decision_definition option"
type_synonym subject_reader = "string \<Rightarrow> string \<Rightarrow> subject_evidence option"

definition prepare_decision :: "(string \<Rightarrow> string) \<Rightarrow> definition_lookup \<Rightarrow> subject_reader \<Rightarrow> string \<Rightarrow> int \<Rightarrow> decision_request \<Rightarrow>
  decision_actor \<Rightarrow> decision_error + decision" where
  \<comment> \<open>everything before the write\<close>
  "prepare_decision digest definitions subjects uid created_at request actor =
     (case definitions (rd_decision_key request) of
        None \<Rightarrow> Inl (Lookup_error (''Unknown decision: '' @ rd_decision_key request))
      | Some d \<Rightarrow>
     (case find_outcome d (rd_outcome request) of
        None \<Rightarrow> Inl (Validation_error (''Unknown outcome '' @ py_repr (rd_outcome request) @ ''; allowed: '' @
          join_texts '', '' (map oo_key (df_outcome_options d))))
      | Some option \<Rightarrow>
      if strip (rd_rationale request) = [] then Inl (Validation_error ''A rationale is required.'')
      else and_then (check_owner (ow_role (df_owner d)) (ow_principal (df_owner d)) actor) (\<lambda>owner_verified.
     (case subjects (rd_decision_key request) (rd_subject_period request) of
        None \<Rightarrow> Inl (Lookup_error (''No published '' @ df_subject_publication_key d @ '' row for '' @ rd_subject_period request))
      | Some subject \<Rightarrow>
      if rd_subject_row_ref request \<noteq> None \<and> rd_subject_row_ref request \<noteq> Some (sj_row_ref subject)
      then Inl (Subject_conflict (''The publication changed since it was reviewed (reviewed '' @ text_or (rd_subject_row_ref request) [] @
        '', current '' @ sj_row_ref subject @ ''); re-review it.''))
      else let gaps = clean_gaps (rd_evidence_gaps_acknowledged request) in
      if evidence_gap_missing subject gaps
      then Inl (Validation_error (''The evidence is insufficient ('' @
        text_or (Some (join_texts '', '' (sj_reason_codes subject))) (sj_verdict subject) @
        ''); acknowledge the evidence gaps to record a decision or non-decision.''))
      else and_then (decision_time request created_at) (\<lambda>(decided_at, basis).
           and_then (decided_on_date decided_at created_at) (\<lambda>decided_on.
           and_then (review_dates d (rd_follow_up_due_on request) decided_on) (\<lambda>dates.
             Inr (new_decision digest d option subject uid created_at owner_verified request actor (decided_at, basis) dates))))))))"

definition record_decision :: "(string \<Rightarrow> string) \<Rightarrow> others \<Rightarrow> definition_lookup \<Rightarrow> subject_reader \<Rightarrow> string \<Rightarrow> int \<Rightarrow> ledger \<Rightarrow>
  decision_request \<Rightarrow> decision_actor \<Rightarrow> (decision_error + decision) \<times> ledger" where
  "record_decision digest others definitions subjects uid now s request actor =
     (case prepare_decision digest definitions subjects uid now request actor of
        Inl e \<Rightarrow> (Inl e, s)
      | Inr r \<Rightarrow> create_decision_record others s r)"

section \<open>Follow-ups\<close>

definition pinned_baseline :: "decision \<Rightarrow> string \<Rightarrow> decision_error + (decimal \<times> string)" where
  "pinned_baseline decision key = (case dn_commitment decision of
     None \<Rightarrow> Inl (Validation_error ''This decision has no pinned commitment baseline to compare with.'')
   | Some c \<Rightarrow>
       (case map_of (cm_baseline_values c) key of
          None \<Rightarrow> Inl (Validation_error (''Unknown baseline_value_key; pinned baseline values: '' @
            text_or (Some (join_texts '', '' (sort (map fst (cm_baseline_values c))))) ''none''))
        | Some pinned \<Rightarrow>
            if bv_value pinned = JNull
            then Inl (Validation_error ''The pinned baseline value is missing; record the gap in missing_evidence.'')
            else (case decimal_of_json (bv_value pinned) of
              None \<Rightarrow> Inl Range_error
            | Some x \<Rightarrow> Inr (x, ''Decision baseline '' @ key @ '' ('' @ text_or (bv_status pinned) ''estimated'' @ '', '' @
                text_or (bv_unit pinned) ''unit unknown'' @ '').''))))"

definition estimated_baseline :: "decision \<Rightarrow> follow_up_request \<Rightarrow> decision_error + (decimal option \<times> string option)" where
  "estimated_baseline decision request =
     (let explicit_basis = optional_text (rf_estimated_baseline_basis request) in
      case rf_baseline_value_key request of
        Some key \<Rightarrow>
          if rf_estimated_baseline request \<noteq> None \<or> explicit_basis \<noteq> None
          then Inl (Validation_error ''Give either baseline_value_key or an explicit estimated baseline, not both.'')
          else map_sum id (\<lambda>(x, basis). (Some x, Some basis)) (pinned_baseline decision key)
      | None \<Rightarrow>
          (case rf_estimated_baseline request of
             Some x \<Rightarrow> if explicit_basis = None
               then Inl (Validation_error ''An estimated baseline needs estimated_baseline_basis stating where it came from.'')
               else Inr (Some x, explicit_basis)
           | None \<Rightarrow> if explicit_basis \<noteq> None then Inl (Validation_error ''estimated_baseline_basis requires estimated_baseline_eur.'')
               else Inr (None, None)))"

definition observation_refused :: "decision \<Rightarrow> int \<Rightarrow> moment \<Rightarrow> string option" where
  "observation_refused decision created_at observed = (case observed of
     Naive t \<Rightarrow> Some ''observed_at must include a timezone offset.''
   | Aware t off \<Rightarrow>
       if t < effective_decided_at decision then Some ''A follow-up cannot be observed before the decision.''
       else if created_at < t then Some ''observed_at cannot be in the future.'' else None)"

definition value_refused :: "follow_up_request \<Rightarrow> string option" where
  "value_refused request =
     (if rf_realized_value request \<noteq> None then
        if rf_realized_value_status request \<notin> set (map Some REALIZED_VALUE_STATUSES)
        then Some ''A realized value needs realized_value_status of observed or user_entered.'' else None
      else if rf_realized_value_status request \<noteq> None then Some ''realized_value_status requires realized_value_eur.'' else None)"

definition refuse :: "string option \<Rightarrow> decision_error + unit" where
  "refuse x = (case x of None \<Rightarrow> Inr () | Some t \<Rightarrow> Inl (Validation_error t))"

definition prepare_follow_up :: "decision \<Rightarrow> string \<Rightarrow> int \<Rightarrow> follow_up_request \<Rightarrow> decision_actor \<Rightarrow> decision_error + follow_up" where
  "prepare_follow_up decision uid created_at request actor =
     (case rf_evidence_effect request of
        None \<Rightarrow> Inl (Validation_error ''Unknown evidence_effect; allowed: changed_decision, confirmed_decision, exposed_model_defect, exposed_source_defect, inconclusive, preserved_non_decision'')
      | Some effect \<Rightarrow>
      if effect = Preserved_non_decision \<and> \<not> dn_is_non_decision decision
      then Inl (Validation_error ''preserved_non_decision applies only to an explicit non-decision.'')
      else and_then (refuse (observation_refused decision created_at (rf_observed_at request))) (\<lambda>_.
      if strip (rf_realized_result request) = [] then Inl (Validation_error ''realized_result is required.'')
      else and_then (refuse (value_refused request)) (\<lambda>_.
           and_then (estimated_baseline decision request) (\<lambda>(estimate, basis).
      if (case rf_attention_minutes request of None \<Rightarrow> False | Some n \<Rightarrow> n < 0) then Inl (Validation_error ''attention_minutes cannot be negative.'')
      else Inr \<lparr> fu_follow_up_id = ''fup_'' @ uid, fu_decision_id = dn_decision_id decision, fu_observed_at = instant (rf_observed_at request),
        fu_observation_period = rf_observation_period request, fu_realized_result = strip (rf_realized_result request),
        fu_realized_value = rf_realized_value request, fu_realized_value_status = rf_realized_value_status request,
        fu_evidence_effect = effect, fu_notes = optional_text (rf_notes request), fu_actor = actor, fu_created_at = created_at,
        fu_estimated_baseline = estimate, fu_estimated_baseline_basis = basis,
        fu_attribution_hypothesis = optional_text (rf_attribution_hypothesis request), fu_confounders = text_list [] (rf_confounders request),
        fu_attribution_uncertainty = optional_text (rf_attribution_uncertainty request),
        fu_missing_evidence = text_list [] (rf_missing_evidence request), fu_attention_minutes = rf_attention_minutes request \<rparr>))))"

definition later_others :: "nat \<Rightarrow> others \<Rightarrow> others" where
  "later_others n others i = others (n + i)"

definition record_follow_up :: "others \<Rightarrow> string \<Rightarrow> int \<Rightarrow> ledger \<Rightarrow> string \<Rightarrow> follow_up_request \<Rightarrow> decision_actor \<Rightarrow>
  (decision_error + follow_up) \<times> ledger" where
  "record_follow_up others uid now s id' request actor =
     (let s0 = others 0 s in
      case and_then (get_decision_record s0 id') (\<lambda>d. prepare_follow_up d uid now request actor) of
        Inl e \<Rightarrow> (Inl e, s0)
      | Inr f \<Rightarrow> add_decision_follow_up (later_others 1 others) s0 f)"

section \<open>Stopping and reopening\<close>

definition commitment_owner :: "definition_lookup \<Rightarrow> decision \<Rightarrow> string \<times> string option" where
  "commitment_owner definitions r = (case dn_commitment r of
     Some c \<Rightarrow> (cm_owner_role c, cm_owner_principal c)
   | None \<Rightarrow> (case definitions (dn_decision_key r) of
       Some d \<Rightarrow> (ow_role (df_owner d), ow_principal (df_owner d)) | None \<Rightarrow> (''operator'', None)))"

definition check_owner_of :: "definition_lookup \<Rightarrow> decision \<Rightarrow> decision_actor \<Rightarrow> decision_error + bool" where
  "check_owner_of definitions r actor = (case commitment_owner definitions r of (role, person) \<Rightarrow> check_owner role person actor)"

definition pinned_stop_condition_keys :: "definition_lookup \<Rightarrow> decision \<Rightarrow> string list" where
  "pinned_stop_condition_keys definitions r = (case dn_commitment r of
     Some c \<Rightarrow> map sp_key (cm_stop_conditions c)
   | None \<Rightarrow> (case definitions (dn_decision_key r) of Some d \<Rightarrow> map sp_key (df_stop_conditions d) | None \<Rightarrow> []))"

definition is_stopped :: "lifecycle_event list \<Rightarrow> bool" where
  "is_stopped events = fold (\<lambda>e b. case le_kind e of Stopped_by_owner \<Rightarrow> True | Reopened_by_owner \<Rightarrow> False | Evidence_superseded \<Rightarrow> b) events False"

definition count_kind :: "lifecycle_kind \<Rightarrow> lifecycle_event list \<Rightarrow> nat" where
  "count_kind k events = length (filter (\<lambda>e. le_kind e = k) events)"

definition sequence_key :: "string \<Rightarrow> lifecycle_kind \<Rightarrow> nat \<Rightarrow> string" where
  "sequence_key id' k n = id' @ '':'' @ lifecycle_kind_text k @ '':'' @ nat_text n"

definition owner_event :: "string \<Rightarrow> string \<Rightarrow> lifecycle_kind \<Rightarrow> nat \<Rightarrow> string \<Rightarrow> string \<Rightarrow> event_details \<Rightarrow> decision_actor \<Rightarrow> int \<Rightarrow> lifecycle_event" where
  "owner_event uid id' k n code reason details actor now =
     \<lparr> le_event_id = ''dle_'' @ uid, le_decision_id = id', le_kind = k, le_dedupe_key = sequence_key id' k n, le_reason_code = code,
       le_reason = strip reason, le_details = details, le_actor = actor, le_occurred_at = now, le_created_at = now \<rparr>"

definition append_owner_event :: "others \<Rightarrow> ledger \<Rightarrow> lifecycle_event \<Rightarrow> (decision_error + lifecycle_event) \<times> ledger" where
  "append_owner_event others s e = map_prod (map_sum id fst) id (append_decision_lifecycle_event others s e)"

definition stop_commitment :: "others \<Rightarrow> definition_lookup \<Rightarrow> string \<Rightarrow> int \<Rightarrow> ledger \<Rightarrow> string \<Rightarrow> string \<Rightarrow> string \<Rightarrow> decision_actor \<Rightarrow>
  (decision_error + lifecycle_event) \<times> ledger" where
  "stop_commitment others definitions uid now s id' stop_condition_key reason actor =
     (let s0 = others 0 s in
      case and_then (get_decision_record s0 id') (\<lambda>r.
        and_then (check_owner_of definitions r actor) (\<lambda>_.
        let allowed = pinned_stop_condition_keys definitions r in
        if stop_condition_key \<notin> set allowed
        then Inl (Validation_error (''Unknown stop condition '' @ py_repr stop_condition_key @ ''; allowed: '' @ join_texts '', '' allowed))
        else if strip reason = [] then Inl (Validation_error ''A stop reason is required.'') else Inr ())) of
        Inl e \<Rightarrow> (Inl e, s0)
      | Inr _ \<Rightarrow>
          let s1 = others 1 s0; events = list_decision_lifecycle_events s1 id' in
          if is_stopped events then (Inl (State_conflict ''The commitment is already stopped.''), s1)
          else append_owner_event (later_others 2 others) s1 (owner_event uid id' Stopped_by_owner (Suc (count_kind Stopped_by_owner events))
            stop_condition_key reason (Stop_details stop_condition_key) actor now))"

definition reopen_commitment :: "others \<Rightarrow> definition_lookup \<Rightarrow> string \<Rightarrow> int \<Rightarrow> ledger \<Rightarrow> string \<Rightarrow> string \<Rightarrow> decision_actor \<Rightarrow>
  (decision_error + lifecycle_event) \<times> ledger" where
  "reopen_commitment others definitions uid now s id' reason actor =
     (let s0 = others 0 s in
      case and_then (get_decision_record s0 id') (\<lambda>r.
        and_then (check_owner_of definitions r actor) (\<lambda>_.
        if strip reason = [] then Inl (Validation_error ''A reopen reason is required.'') else Inr ())) of
        Inl e \<Rightarrow> (Inl e, s0)
      | Inr _ \<Rightarrow>
          let s1 = others 1 s0; events = list_decision_lifecycle_events s1 id' in
          if \<not> is_stopped events then (Inl (State_conflict ''Only a stopped commitment can be reopened.''), s1)
          else append_owner_event (later_others 2 others) s1 (owner_event uid id' Reopened_by_owner (Suc (count_kind Reopened_by_owner events))
            ''owner_reopened'' reason Reopen_details actor now))"

section \<open>Derived state\<close>

datatype ledger_entry = Observed follow_up | Happened lifecycle_event

fun entry_time :: "ledger_entry \<Rightarrow> int" where
  "entry_time (Observed f) = fu_observed_at f"
| "entry_time (Happened e) = le_occurred_at e"

definition timeline :: "follow_up list \<Rightarrow> lifecycle_event list \<Rightarrow> ledger_entry list" where
  "timeline follow_ups events = sort_key entry_time (map Observed follow_ups @ map Happened events)"

record progress =
  pg_stop_event :: "lifecycle_event option"
  pg_open_supersessions :: "lifecycle_event list"
  pg_next_review :: date

definition pushed_review :: "int \<Rightarrow> int \<Rightarrow> date \<Rightarrow> date option" where
  \<comment> \<open>\<open>None\<close> past the year 9999\<close>
  "pushed_review cadence t next = Option.bind (date_of_instant t) (\<lambda>d. map_option (max next) (plus_days d cadence))"

fun progress_step :: "int \<Rightarrow> ledger_entry \<Rightarrow> progress \<Rightarrow> progress option" where
  "progress_step cadence (Observed f) g = map_option (\<lambda>next. g\<lparr> pg_open_supersessions := [], pg_next_review := next \<rparr>)
     (pushed_review cadence (fu_observed_at f) (pg_next_review g))"
| "progress_step cadence (Happened e) g = (case le_kind e of
     Evidence_superseded \<Rightarrow> Some (g\<lparr> pg_open_supersessions := pg_open_supersessions g @ [e] \<rparr>)
   | Stopped_by_owner \<Rightarrow> Some (g\<lparr> pg_stop_event := Some e \<rparr>)
   | Reopened_by_owner \<Rightarrow> map_option (\<lambda>next. g\<lparr> pg_stop_event := None, pg_next_review := next \<rparr>)
       (pushed_review cadence (le_occurred_at e) (pg_next_review g)))"

fun progress_run :: "int \<Rightarrow> ledger_entry list \<Rightarrow> progress \<Rightarrow> progress option" where
  "progress_run cadence [] g = Some g"
| "progress_run cadence (x # xs) g = Option.bind (progress_step cadence x g) (progress_run cadence xs)"

datatype commitment_state = In_force | Review_due | Review_required | Stopped_now

datatype evidence_status = Insufficient | As_recorded | Superseded

record lifecycle_view =
  lv_state :: commitment_state
  lv_evidence_status :: evidence_status
  lv_next_review_due_on :: "date option"
  lv_stop_recommended :: bool
  lv_stop_conditions_met :: "string list"
  lv_reasons :: "string list"
  lv_open_supersessions :: "event_details list"
  lv_superseded_by :: "event_details option"
  lv_proactive_review :: bool

definition review_terms :: "decision \<Rightarrow> int \<times> date" where
  "review_terms r = (case dn_commitment r of
     Some c \<Rightarrow> (cm_review_cadence_days c, cm_next_review_due_on c)
   | None \<Rightarrow> (LEGACY_REVIEW_CADENCE_DAYS, dn_follow_up_due_on r))"

definition conditions_met :: "decision \<Rightarrow> string list" where
  "conditions_met r = (case dn_commitment r of Some c \<Rightarrow> cm_stop_conditions_met c | None \<Rightarrow> [])"

definition progress_state :: "progress \<Rightarrow> date \<Rightarrow> commitment_state" where
  "progress_state g today = (if pg_stop_event g \<noteq> None then Stopped_now else if pg_open_supersessions g \<noteq> [] then Review_required
     else if pg_next_review g \<le> today then Review_due else In_force)"

definition state_reasons :: "progress \<Rightarrow> commitment_state \<Rightarrow> string list" where
  "state_reasons g state = (case (state, pg_stop_event g) of
     (Stopped_now, Some e) \<Rightarrow> [''Stopped ('' @ le_reason_code e @ ''): '' @ le_reason e]
   | (Review_required, _) \<Rightarrow> map le_reason (pg_open_supersessions g)
   | (Review_due, _) \<Rightarrow> [''The review was due on '' @ iso_date (pg_next_review g) @ '' (observation window closed).'']
   | _ \<Rightarrow> [''Active until a stop condition is met; next review on '' @ iso_date (pg_next_review g) @ ''.''])"

definition supersessions :: "lifecycle_event list \<Rightarrow> event_details list" where
  "supersessions events = map le_details (filter (\<lambda>e. le_kind e = Evidence_superseded) events)"

definition evidence_status_of :: "decision \<Rightarrow> lifecycle_event list \<Rightarrow> evidence_status" where
  "evidence_status_of r events = (if supersessions events \<noteq> [] then Superseded
     else if dn_subject_verdict r = ''insufficient_evidence'' \<or> dn_evidence_gaps_acknowledged r \<noteq> [] then Insufficient else As_recorded)"

definition derive_commitment_state :: "decision \<Rightarrow> follow_up list \<Rightarrow> lifecycle_event list \<Rightarrow> date \<Rightarrow> lifecycle_view option" where
  "derive_commitment_state r follow_ups events today =
     (case review_terms r of (cadence, next_review) \<Rightarrow>
      map_option (\<lambda>g.
        let state = progress_state g today; status = evidence_status_of r events; met = conditions_met r; stopped = (pg_stop_event g \<noteq> None);
            superseded_by = supersessions events in
        \<lparr> lv_state = state, lv_evidence_status = status, lv_next_review_due_on = (if stopped then None else Some (pg_next_review g)),
          lv_stop_recommended = (met \<noteq> [] \<and> \<not> stopped), lv_stop_conditions_met = met,
          lv_reasons = state_reasons g state @
            (if status = Insufficient then [''The decision was recorded on insufficient evidence (gaps acknowledged).''] else []) @
            (if met \<noteq> [] \<and> state \<noteq> Stopped_now then [''Stop condition(s) met at record time: '' @ join_texts '', '' met @
               ''; the owner may stop the commitment.''] else []),
          lv_open_supersessions = map le_details (pg_open_supersessions g),
          lv_superseded_by = (if superseded_by = [] then None else Some (last superseded_by)),
          lv_proactive_review = (state = Review_due \<or> state = Review_required) \<rparr>)
        (progress_run cadence (timeline follow_ups events)
          \<lparr> pg_stop_event = None, pg_open_supersessions = [], pg_next_review = next_review \<rparr>))"

definition evaluate_follow_up_success :: "decision \<Rightarrow> follow_up \<Rightarrow> success" where
  "evaluate_follow_up_success r f = (case dn_commitment r of
     None \<Rightarrow> Unmeasured
   | Some c \<Rightarrow> evaluate (cm_success_measure c) (fu_realized_value f) (fu_realized_value_status f))"

definition load_lifecycle :: "ledger \<Rightarrow> decision \<Rightarrow> date \<Rightarrow> lifecycle_view option" where
  "load_lifecycle s r today = derive_commitment_state r (list_decision_follow_ups s (dn_decision_id r))
     (list_decision_lifecycle_events s (dn_decision_id r)) today"

record review_row =
  rr_decision_id :: string
  rr_decision_key :: string
  rr_subject_period :: string
  rr_state :: commitment_state
  rr_next_review_due_on :: "date option"
  rr_reasons :: "string list"
  rr_evidence_status :: evidence_status

definition review_row_of :: "decision \<Rightarrow> lifecycle_view \<Rightarrow> review_row option" where
  "review_row_of r v = (if lv_state v \<in> {Review_due, Review_required}
     then Some \<lparr> rr_decision_id = dn_decision_id r, rr_decision_key = dn_decision_key r, rr_subject_period = dn_subject_period r,
       rr_state = lv_state v, rr_next_review_due_on = lv_next_review_due_on v, rr_reasons = lv_reasons v, rr_evidence_status = lv_evidence_status v \<rparr>
     else None)"

definition list_commitment_reviews :: "ledger \<Rightarrow> date \<Rightarrow> string option \<Rightarrow> review_row list option" where
  \<comment> \<open>\<open>None\<close> where one decision's state cannot be derived\<close>
  "list_commitment_reviews s today decision_key =
     (let views = map (\<lambda>r. map_option (Pair r) (load_lifecycle s r today)) (list_decision_records s decision_key None) in
      if None \<in> set views then None else Some (List.map_filter (\<lambda>(r, v). review_row_of r v) (map the views)))"

definition attribution_not_recorded :: "follow_up \<Rightarrow> string list" where
  "attribution_not_recorded f = map fst (filter (\<lambda>(_, present). \<not> present)
     [(''measured_result'', fu_realized_value f \<noteq> None), (''estimated_baseline'', fu_estimated_baseline f \<noteq> None),
      (''attribution_hypothesis'', fu_attribution_hypothesis f \<noteq> None), (''confounders'', fu_confounders f \<noteq> []),
      (''uncertainty'', fu_attribution_uncertainty f \<noteq> None)])"

end
