(* ===== verification/DecisionTrace.thy ===== *)
theory DecisionTrace
  imports DecisionLedger
begin

text \<open>
  Tracing evidence corrections to the decisions made on that evidence
  (\<open>packages/application/use_cases/decision_evidence_trace.py\<close>), and the portable outcome references of a
  decision (\<open>decision_outcome_reference.py\<close>).  The reading of a stored snapshot's components is a
  parameter, as is the hexadecimal SHA-256 of a text and of an envelope's JSON text.
\<close>

section \<open>Evidence traces\<close>

definition TRACE_ACTOR :: decision_actor where
  "TRACE_ACTOR = \<lparr> ac_actor = ''hla-evidence-trace'', ac_role = None, ac_auth_provider = ''system'', ac_authenticated = False \<rparr>"

datatype trace_status = Unchanged_evidence | Superseded_evidence | Already_recorded | Subject_unpublished | Untraceable

record trace_result =
  tz_decision_id :: string
  tz_decision_key :: string
  tz_subject_period :: string
  tz_status :: trace_status
  tz_changed_components :: "string list"
  tz_correction_kinds :: "string list"
  tz_superseding_row_ref :: "string option"
  tz_event_id :: "string option"

definition trace_base :: "decision \<Rightarrow> trace_status \<Rightarrow> trace_result" where
  "trace_base r st = \<lparr> tz_decision_id = dn_decision_id r, tz_decision_key = dn_decision_key r, tz_subject_period = dn_subject_period r,
     tz_status = st, tz_changed_components = [], tz_correction_kinds = [], tz_superseding_row_ref = None, tz_event_id = None \<rparr>"

type_synonym snapshot_components = "string \<Rightarrow> json \<Rightarrow> (string \<times> json) list option"

definition pinned_evidence_components :: "snapshot_components \<Rightarrow> decision \<Rightarrow> (string \<times> json) list option" where
  "pinned_evidence_components snapshots r = (case dn_commitment r of
     Some c \<Rightarrow> Some (cm_evidence_components c) | None \<Rightarrow> snapshots (dn_decision_key r) (dn_evidence_snapshot r))"

definition changed_components :: "(string \<times> json) list \<Rightarrow> (string \<times> json) list \<Rightarrow> string list" where
  "changed_components pinned current =
     sorted_unique (filter (\<lambda>c. \<not> json_same (get_or_null pinned c) (get_or_null current c)) (map fst pinned @ map fst current))"

definition component_label :: "decision_definition \<Rightarrow> string \<Rightarrow> string" where
  "component_label d c = (case find_component d c of Some declared \<Rightarrow> vc_label declared | None \<Rightarrow> c)"

definition correction_kinds :: "decision_definition \<Rightarrow> string list \<Rightarrow> string list" where
  "correction_kinds d changed = sorted_unique (map vc_correction_kind (List.map_filter (find_component d) changed))"

definition lineage_publication_keys :: "decision \<Rightarrow> string list" where
  \<comment> \<open>iterating a text gives its characters, iterating an object its keys; an empty or absent value gives the
     subject's publication, as a number or \<open>true\<close> does here, which Python cannot iterate and no reader stores\<close>
  "lineage_publication_keys r = (case get_or_null (dn_lineage_reference r) ''publication_keys'' of
     JArr (k # ks) \<Rightarrow> map json_str (k # ks)
   | JStr (c # cs) \<Rightarrow> map (\<lambda>x. [x]) (c # cs)
   | JObj (f # fs) \<Rightarrow> map fst (f # fs)
   | _ \<Rightarrow> [dn_subject_publication_key r])"

definition lineage_fingerprint :: "decision \<Rightarrow> string option" where
  "lineage_fingerprint r = (case get_or_null (dn_lineage_reference r) ''evidence_fingerprint'' of
     JStr s \<Rightarrow> Some s | _ \<Rightarrow> None)"

definition SOURCE_VERSION_KEYS :: "string list" where
  "SOURCE_VERSION_KEYS = [''assessment_id'', ''assessed_at'', ''source_run_ids'', ''tariff_snapshot_id'', ''source_report_ingested_at'']"

definition triggered_reviews :: "decision_definition \<Rightarrow> string list \<Rightarrow> string \<Rightarrow> string \<Rightarrow> string list" where
  "triggered_reviews d changed before after = triggers_for_components d changed @
     (if after \<noteq> before then map rt_key (filter (\<lambda>t. rt_kind t = Verdict_change) (df_review_triggers d)) else [])"

definition supersession_event :: "(string \<Rightarrow> string) \<Rightarrow> string \<Rightarrow> int \<Rightarrow> decision_definition \<Rightarrow> decision \<Rightarrow> (string \<times> json) list \<Rightarrow>
  subject_evidence \<Rightarrow> lifecycle_event" where
  "supersession_event digest uid traced_at d r pinned current =
     (let changed = changed_components pinned (sj_evidence_components current);
          fingerprint = evidence_fingerprint digest (sj_evidence_components current) in
      \<lparr> le_event_id = ''dle_'' @ uid, le_decision_id = dn_decision_id r, le_kind = Evidence_superseded,
        le_dedupe_key = dn_decision_id r @ '':evidence_superseded:'' @ fingerprint, le_reason_code = ''evidence_superseded'',
        le_reason = ''Evidence superseded by a newer assessment ('' @ sj_row_ref current @ ''): '' @
          join_texts '', '' (map (component_label d) changed) @ '' changed.'',
        le_details = Supersession_details \<lparr> su_superseded_row_ref = dn_subject_row_ref r,
          su_superseded_fingerprint = text_or (lineage_fingerprint r) (evidence_fingerprint digest pinned),
          su_superseding_row_ref = sj_row_ref current, su_superseding_fingerprint = fingerprint,
          su_superseding_publication_key = sj_publication_key current, su_superseding_schema_version = sj_schema_version current,
          su_affected_publication_keys = sorted_unique (lineage_publication_keys r @ [sj_publication_key current]),
          su_changed_components = changed, su_correction_kinds = correction_kinds d changed,
          su_triggered_reviews = triggered_reviews d changed (dn_subject_verdict r) (sj_verdict current),
          su_verdict_before = dn_subject_verdict r, su_verdict_after = sj_verdict current,
          su_source_version = List.map_filter (\<lambda>k. map_option (Pair k) (map_of (sj_lineage_reference current) k)) SOURCE_VERSION_KEYS,
          su_traced_at = traced_at \<rparr>,
        le_actor = TRACE_ACTOR, le_occurred_at = traced_at, le_created_at = traced_at \<rparr>)"

definition trace_one :: "(string \<Rightarrow> string) \<Rightarrow> others \<Rightarrow> snapshot_components \<Rightarrow> string \<Rightarrow> int \<Rightarrow> ledger \<Rightarrow> decision \<Rightarrow>
  subject_evidence option \<Rightarrow> decision_definition option \<Rightarrow> (decision_error + (trace_result \<times> string list)) \<times> ledger" where
  "trace_one digest others snapshots uid traced_at s r current def = (case current of
     None \<Rightarrow> (Inr (trace_base r Subject_unpublished, []), s)
   | Some subject \<Rightarrow>
       (case (pinned_evidence_components snapshots r, def) of
          (Some pinned, Some d) \<Rightarrow>
            let changed = changed_components pinned (sj_evidence_components subject) in
            if changed = [] then (Inr (trace_base r Unchanged_evidence, []), s)
            else (case append_decision_lifecycle_event others s (supersession_event digest uid traced_at d r pinned subject) of
                (Inl e, t) \<Rightarrow> (Inl e, t)
              | (Inr (event, created), t) \<Rightarrow>
                  (Inr ((trace_base r (if created then Superseded_evidence else Already_recorded))
                     \<lparr> tz_changed_components := changed, tz_correction_kinds := correction_kinds d changed,
                       tz_superseding_row_ref := Some (sj_row_ref subject), tz_event_id := Some (le_event_id event) \<rparr>,
                     sorted_unique (lineage_publication_keys r @ [sj_publication_key subject])), t))
        | _ \<Rightarrow> (Inr (trace_base r Untraceable, []), s)))"

fun trace_records :: "(string \<Rightarrow> string) \<Rightarrow> others \<Rightarrow> definition_lookup \<Rightarrow> subject_reader \<Rightarrow> snapshot_components \<Rightarrow> (nat \<Rightarrow> string) \<Rightarrow>
  int \<Rightarrow> ledger \<Rightarrow> decision list \<Rightarrow> trace_result list \<times> string list \<Rightarrow> (decision_error + (trace_result list \<times> string list)) \<times> ledger" where
  "trace_records digest others definitions subjects snapshots uids traced_at s [] (results, affected) =
     (Inr (results, sorted_unique affected), s)"
| "trace_records digest others definitions subjects snapshots uids traced_at s (r # rs) (results, affected) =
     (case trace_one digest others snapshots (uids (length results)) traced_at s r
        (subjects (dn_decision_key r) (dn_subject_period r)) (definitions (dn_decision_key r)) of
        (Inl e, t) \<Rightarrow> (Inl e, t)
      | (Inr (result, publications), t) \<Rightarrow>
          trace_records digest (later_others 2 others) definitions subjects snapshots uids traced_at t rs
            (results @ [result], affected @ publications))"

definition trace_evidence_corrections :: "(string \<Rightarrow> string) \<Rightarrow> others \<Rightarrow> definition_lookup \<Rightarrow> subject_reader \<Rightarrow> snapshot_components \<Rightarrow>
  (nat \<Rightarrow> string) \<Rightarrow> int \<Rightarrow> ledger \<Rightarrow> string option \<Rightarrow> (decision_error + (trace_result list \<times> string list)) \<times> ledger" where
  "trace_evidence_corrections digest others definitions subjects snapshots uids traced_at s decision_key =
     (let s0 = others 0 s in
      trace_records digest (later_others 1 others) definitions subjects snapshots uids traced_at s0
        (list_decision_records s0 decision_key None) ([], []))"

section \<open>Outcome references\<close>

datatype outcome_result = Accepted | Rejected | Insufficient_evidence | Result_pending

definition result_of :: "follow_up option \<Rightarrow> success option \<Rightarrow> outcome_result" where
  "result_of latest success = (case latest of
     None \<Rightarrow> Result_pending
   | Some f \<Rightarrow>
       if fu_evidence_effect f = Exposed_source_defect \<or> fu_evidence_effect f = Exposed_model_defect then Insufficient_evidence
       else (case success of Some Met \<Rightarrow> Accepted | Some Not_met \<Rightarrow> Rejected | _ \<Rightarrow> Insufficient_evidence))"

datatype coverage = Not_captured | Partial_capture | Captured

definition attention :: "follow_up list \<Rightarrow> int option \<times> coverage" where
  "attention follow_ups =
     (let known = List.map_filter fu_attention_minutes follow_ups in
      (if known = [] then None else Some (sum_list known),
       if known = [] then Not_captured else if length known = length follow_ups then Captured else Partial_capture))"

record outcome_body =
  ob_outcome_ref :: string
  ob_revision :: nat
  ob_supersedes :: "string option"
  ob_decision_key :: string
  ob_decision_version :: string
  ob_decision_id :: string
  ob_outcome :: string
  ob_is_non_decision :: bool
  ob_decided_at :: int
  ob_publication_key :: string
  ob_schema_version :: string
  ob_period :: string
  ob_row_ref :: string
  ob_evidence_fingerprint :: "string option"
  ob_observation_window :: "(date \<times> date) option"
  ob_result :: outcome_result
  ob_verdict_at_decision :: string
  ob_lifecycle_state :: commitment_state
  ob_evidence_status :: evidence_status
  ob_evidence_effect :: "evidence_effect option"
  ob_attention :: "int option \<times> coverage"
  ob_realized_value :: "decimal option"
  ob_value_status :: "string option"
  ob_cost_coverage :: coverage
  ob_href :: string
  ob_lineage_publication_keys :: "string list"
  ob_follow_up_ids :: "string list"
  ob_lifecycle_event_ids :: "string list"
  ob_superseded_by :: "event_details option"

record envelope =
  en_body :: outcome_body
  en_event_id :: string
  en_idempotency_key :: string

definition last_option :: "'a list \<Rightarrow> 'a option" where
  "last_option xs = (if xs = [] then None else Some (last xs))"

definition outcome_body_of :: "decision \<Rightarrow> follow_up list \<Rightarrow> lifecycle_event list \<Rightarrow> nat \<Rightarrow> string option \<Rightarrow> lifecycle_view \<Rightarrow> outcome_body" where
  "outcome_body_of r follow_ups events revision supersedes v =
     (let latest = last_option follow_ups; fingerprint = (case dn_commitment r of
            Some c \<Rightarrow> Some (cm_evidence_fingerprint c) | None \<Rightarrow> lineage_fingerprint r) in
      \<lparr> ob_outcome_ref = ''hla:decision:'' @ dn_decision_id r, ob_revision = revision, ob_supersedes = supersedes,
        ob_decision_key = dn_decision_key r, ob_decision_version = dn_decision_version r, ob_decision_id = dn_decision_id r,
        ob_outcome = dn_outcome r, ob_is_non_decision = dn_is_non_decision r, ob_decided_at = effective_decided_at r,
        ob_publication_key = dn_subject_publication_key r, ob_schema_version = dn_subject_schema_version r,
        ob_period = dn_subject_period r, ob_row_ref = dn_subject_row_ref r, ob_evidence_fingerprint = fingerprint,
        ob_observation_window = map_option (\<lambda>c. (cm_observation_window_start c, cm_observation_window_end c)) (dn_commitment r),
        ob_result = result_of latest (map_option (evaluate_follow_up_success r) latest), ob_verdict_at_decision = dn_subject_verdict r,
        ob_lifecycle_state = lv_state v, ob_evidence_status = lv_evidence_status v, ob_evidence_effect = map_option fu_evidence_effect latest,
        ob_attention = attention follow_ups, ob_realized_value = Option.bind latest fu_realized_value,
        ob_value_status = Option.bind latest fu_realized_value_status,
        ob_cost_coverage = (if Option.bind latest fu_realized_value \<noteq> None then Captured else Not_captured),
        ob_href = ''/control/decisions/'' @ dn_decision_id r, ob_lineage_publication_keys = lineage_publication_keys r,
        ob_follow_up_ids = map fu_follow_up_id follow_ups, ob_lifecycle_event_ids = map le_event_id events,
        ob_superseded_by = lv_superseded_by v \<rparr>)"

definition envelope_of :: "(outcome_body \<Rightarrow> string) \<Rightarrow> decision \<Rightarrow> follow_up list \<Rightarrow> lifecycle_event list \<Rightarrow> nat \<Rightarrow> string option \<Rightarrow>
  date \<Rightarrow> envelope option" where
  "envelope_of body_digest r follow_ups events revision supersedes as_of =
     map_option (\<lambda>v. let body = outcome_body_of r follow_ups events revision supersedes v in
       \<lparr> en_body = body, en_event_id = ''hla_outref_'' @ take 26 (body_digest body),
         en_idempotency_key = ''hla:outcome:'' @ dn_decision_id r @ '':r'' @ nat_text revision \<rparr>)
       (derive_commitment_state r follow_ups events as_of)"

fun entry_rank :: "ledger_entry \<Rightarrow> int \<times> nat" where
  "entry_rank (Observed f) = (fu_observed_at f, 0)"
| "entry_rank (Happened e) = (le_occurred_at e, 1)"

fun seen_states :: "follow_up list \<Rightarrow> lifecycle_event list \<Rightarrow> ledger_entry list \<Rightarrow> (follow_up list \<times> lifecycle_event list \<times> int) list" where
  "seen_states fs es [] = []"
| "seen_states fs es (Observed f # xs) = (fs @ [f], es, fu_observed_at f) # seen_states (fs @ [f]) es xs"
| "seen_states fs es (Happened e # xs) = (fs, es @ [e], le_occurred_at e) # seen_states fs (es @ [e]) xs"

fun chain :: "(outcome_body \<Rightarrow> string) \<Rightarrow> decision \<Rightarrow> nat \<Rightarrow> string option \<Rightarrow> (follow_up list \<times> lifecycle_event list \<times> int) list \<Rightarrow>
  envelope list option" where
  "chain body_digest r n prev [] = Some []"
| "chain body_digest r n prev ((fs, es, t) # rest) =
     Option.bind (date_of_instant t) (\<lambda>as_of. Option.bind (envelope_of body_digest r fs es n prev as_of) (\<lambda>e.
       map_option ((#) e) (chain body_digest r (Suc n) (Some (en_event_id e)) rest)))"

definition build_outcome_references :: "(outcome_body \<Rightarrow> string) \<Rightarrow> decision \<Rightarrow> follow_up list \<Rightarrow> lifecycle_event list \<Rightarrow> envelope list option" where
  \<comment> \<open>oldest first; \<open>None\<close> past the year 9999\<close>
  "build_outcome_references body_digest r follow_ups events =
     chain body_digest r 1 None (([], [], dn_created_at r) #
       seen_states [] [] (sort_key entry_rank (map Observed follow_ups @ map Happened events)))"

definition references_of :: "(outcome_body \<Rightarrow> string) \<Rightarrow> ledger \<Rightarrow> decision \<Rightarrow> envelope list option" where
  "references_of body_digest s r = build_outcome_references body_digest r (list_decision_follow_ups s (dn_decision_id r))
     (list_decision_lifecycle_events s (dn_decision_id r))"

definition latest_outcome_reference :: "(outcome_body \<Rightarrow> string) \<Rightarrow> ledger \<Rightarrow> string \<Rightarrow> decision_error + (envelope \<times> envelope list)" where
  "latest_outcome_reference body_digest s id' = and_then (get_decision_record s id') (\<lambda>r.
     case references_of body_digest s r of None \<Rightarrow> Inl Range_error | Some revisions \<Rightarrow> Inr (last revisions, revisions))"

definition outcome_reference_feed :: "(outcome_body \<Rightarrow> string) \<Rightarrow> ledger \<Rightarrow> string option \<Rightarrow> bool \<Rightarrow> (envelope \<times> bool) list option" where
  \<comment> \<open>every envelope with its terminal flag\<close>
  "outcome_reference_feed body_digest s decision_key include_history =
     (let lists = map (references_of body_digest s)
            (sort_key (\<lambda>r. (dn_created_at r, dn_decision_id r)) (list_decision_records s decision_key None)) in
      if None \<in> set lists then None
      else Some (map (\<lambda>e. (e, ob_lifecycle_state (en_body e) = Stopped_now))
        (concat (map (\<lambda>l. if include_history then the l else [last (the l)]) lists))))"

end
