(* ===== verification/DecisionFacts.thy ===== *)
theory DecisionFacts
  imports DecisionTrace
begin

text \<open>
  What every call of the decision ledger keeps: the invariant of its tables and every row written before,
  with other sessions of the same kind in between.  The contract is the locale \<open>ledger_call\<close>; each
  operation of the ledger is an instance.
\<close>

section \<open>Growth\<close>

definition ledger_kept :: "ledger \<Rightarrow> ledger \<Rightarrow> bool" where
  "ledger_kept s t \<longleftrightarrow> ledger_inv t \<and> grows s t \<and>
     (\<forall>a r. get_decision_record s a = Inr r \<longrightarrow> get_decision_record t a = Inr r)"

definition calm_others :: "others \<Rightarrow> bool" where
  "calm_others others \<longleftrightarrow> (\<forall>i s. ledger_inv s \<longrightarrow> ledger_kept s (others i s))"

lemma ledger_kept_refl: "ledger_inv s \<Longrightarrow> ledger_kept s s"
  by (simp add: ledger_kept_def)

lemma ledger_kept_trans [trans]: "ledger_kept s t \<Longrightarrow> ledger_kept t u \<Longrightarrow> ledger_kept s u"
  unfolding ledger_kept_def using grows_trans by blast

lemma ledger_keptD: "ledger_kept s t \<Longrightarrow> ledger_inv t" "ledger_kept s t \<Longrightarrow> grows s t"
    "ledger_kept s t \<Longrightarrow> get_decision_record s a = Inr r \<Longrightarrow> get_decision_record t a = Inr r"
  by (simp_all add: ledger_kept_def)

lemma calm_undisturbed [simp]: "calm_others undisturbed"
  by (simp add: calm_others_def undisturbed_def ledger_kept_refl)

lemma undisturbed_same [simp]: "undisturbed i s = s" "later_others n undisturbed = undisturbed"
  by (simp_all add: undisturbed_def later_others_def fun_eq_iff)

lemma calm_later_others: "calm_others others \<Longrightarrow> calm_others (later_others n others)"
  by (simp add: calm_others_def later_others_def)

lemma kept_others: "ledger_kept s t \<Longrightarrow> calm_others others \<Longrightarrow> ledger_kept s (others i t)"
  by (meson calm_others_def ledger_keptD(1) ledger_kept_trans)

lemma others_kept: "calm_others others \<Longrightarrow> ledger_inv s \<Longrightarrow> ledger_kept s (others i s)"
  by (simp add: calm_others_def)

lemma ledger_inv_empty: "ledger_inv empty_ledger"
  by (simp add: ledger_inv_def empty_ledger_def)

section \<open>Single sessions\<close>

lemma get_Inr: "get_decision_record s a = Inr r \<longleftrightarrow> (\<exists>q. List.find (\<lambda>r. dn_decision_id r = a) (lg_records s) = Some q \<and> r = joined s q)"
  by (auto simp: get_decision_record_def split: option.splits)

lemma get_known: "get_decision_record s a = Inr r \<Longrightarrow> a \<in> dn_decision_id ` set (lg_records s) \<and> dn_decision_id r = a"
  by (auto simp: get_Inr joined_def dest!: find_Some_member)

lemma find_None_iff_ex: "List.find P xs = None \<longleftrightarrow> \<not> list_ex P xs"
  by (induction xs) auto

lemma find_snoc_other: "\<not> P y \<Longrightarrow> List.find P (xs @ [y]) = List.find P xs"
  by (simp add: find_append split: option.splits)

lemma find_id_None: "List.find (\<lambda>x. f x = k) xs = None \<longleftrightarrow> k \<notin> f ` set xs"
  by (induction xs) auto

lemma insert_decision_kept:
  assumes "insert_decision s r = Inr t" and "ledger_inv s"
    and "\<And>c. dn_commitment r = Some c \<Longrightarrow> cm_decision_id c = dn_decision_id r"
  shows "ledger_kept s t \<and> get_decision_record t (dn_decision_id r) = Inr r"
proof -
  have fresh: "dn_decision_id r \<notin> dn_decision_id ` set (lg_records s)"
    and t: "lg_records t = lg_records s @ [r\<lparr> dn_commitment := None \<rparr>]" "lg_follow_ups t = lg_follow_ups s" "lg_events t = lg_events s"
      "lg_commitments t = lg_commitments s @ (case dn_commitment r of None \<Rightarrow> [] | Some c \<Rightarrow> [c])"
    using assms(1) by (auto simp: insert_decision_def Let_def list_ex_iff split: if_splits option.splits)
  have no: "dn_decision_id r \<notin> cm_decision_id ` set (lg_commitments s)"
    using fresh assms(2) by (auto simp: ledger_inv_def)
  have "ledger_inv t"
    using assms(2,3) fresh no by (auto simp: ledger_inv_def t split: option.splits)
  moreover have "grows s t" by (simp add: grows_def t)
  moreover have "get_decision_record t a = Inr q" if "get_decision_record s a = Inr q" for a q
  proof -
    have "a \<noteq> dn_decision_id r" using get_known [OF that] fresh by auto
    with that show ?thesis
      using assms(3) get_known [OF that]
      by (auto simp: get_Inr t find_append joined_def find_snoc_other split: option.splits)
  qed
  moreover have "get_decision_record t (dn_decision_id r) = Inr r"
  proof -
    have "List.find (\<lambda>q. dn_decision_id q = dn_decision_id r) (lg_records s) = None"
      using fresh by (simp add: find_id_None)
    moreover have "List.find (\<lambda>c. cm_decision_id c = dn_decision_id r) (lg_commitments s) = None"
      using no by (simp add: find_id_None)
    ultimately show ?thesis
      using assms(3) by (cases "dn_commitment r") (auto simp: get_Inr t find_append joined_def)
  qed
  ultimately show ?thesis by (simp add: ledger_kept_def)
qed

lemma insert_follow_up_kept:
  assumes "insert_follow_up s f = Inr t" and "ledger_inv s" and "fu_decision_id f \<in> dn_decision_id ` set (lg_records s)"
  shows "ledger_kept s t \<and> lg_follow_ups t = lg_follow_ups s @ [f]"
proof -
  have t: "t = s\<lparr> lg_follow_ups := lg_follow_ups s @ [f] \<rparr>" and fresh: "fu_follow_up_id f \<notin> fu_follow_up_id ` set (lg_follow_ups s)"
    using assms(1) by (auto simp: insert_follow_up_def list_ex_iff split: if_splits)
  have "ledger_inv t" using assms(2,3) fresh by (auto simp: ledger_inv_def t)
  then show ?thesis by (simp add: ledger_kept_def grows_def get_Inr joined_def t)
qed

lemma insert_lifecycle_event_kept:
  assumes "insert_lifecycle_event s e = Inr (r, t)" and "ledger_inv s" and "le_decision_id e \<in> dn_decision_id ` set (lg_records s)"
  shows "ledger_kept s t" and "fst r \<in> set (lg_events t)" and "le_dedupe_key (fst r) = le_dedupe_key e"
    and "lg_events t = lg_events s @ (if snd r then [e] else [])" and "snd r \<Longrightarrow> fst r = e"
    and "snd r \<longleftrightarrow> le_dedupe_key e \<notin> le_dedupe_key ` set (lg_events s)"
    and "\<not> snd r \<Longrightarrow> t = s"
proof -
  consider (old) stored where "List.find (\<lambda>d. le_dedupe_key d = le_dedupe_key e) (lg_events s) = Some stored" "r = (stored, False)" "t = s"
    | (new) "List.find (\<lambda>d. le_dedupe_key d = le_dedupe_key e) (lg_events s) = None" "le_event_id e \<notin> le_event_id ` set (lg_events s)"
        "r = (e, True)" "t = s\<lparr> lg_events := lg_events s @ [e] \<rparr>"
  proof (cases "List.find (\<lambda>d. le_dedupe_key d = le_dedupe_key e) (lg_events s)")
    case None
    moreover have "le_event_id e \<notin> le_event_id ` set (lg_events s)" "r = (e, True)" "t = s\<lparr> lg_events := lg_events s @ [e] \<rparr>"
      using assms(1) None by (auto simp: insert_lifecycle_event_def list_ex_iff split: if_splits)
    ultimately show ?thesis by (rule that(2))
  next
    case (Some stored)
    with assms(1) show ?thesis by (intro that(1)) (auto simp: insert_lifecycle_event_def)
  qed
  then have "ledger_kept s t \<and> fst r \<in> set (lg_events t) \<and> le_dedupe_key (fst r) = le_dedupe_key e \<and>
      lg_events t = lg_events s @ (if snd r then [e] else []) \<and> (snd r \<longrightarrow> fst r = e) \<and>
      (snd r \<longleftrightarrow> le_dedupe_key e \<notin> le_dedupe_key ` set (lg_events s)) \<and> (\<not> snd r \<longrightarrow> t = s)"
  proof cases
    case old
    have "stored \<in> set (lg_events s)" "le_dedupe_key e = le_dedupe_key stored"
      using find_Some_member [OF old(1)] by simp_all
    with old assms(2) show ?thesis by (simp add: ledger_kept_refl)
  next
    case new
    have fresh: "le_dedupe_key e \<notin> le_dedupe_key ` set (lg_events s)"
      using new(1) by (simp add: find_id_None)
    have "ledger_inv t" using assms(2,3) new(2,4) fresh by (auto simp: ledger_inv_def)
    with new fresh show ?thesis by (simp add: ledger_kept_def grows_def get_Inr joined_def)
  qed
  then show "ledger_kept s t" and "fst r \<in> set (lg_events t)" and "le_dedupe_key (fst r) = le_dedupe_key e"
    and "lg_events t = lg_events s @ (if snd r then [e] else [])" and "snd r \<Longrightarrow> fst r = e"
    and "snd r \<longleftrightarrow> le_dedupe_key e \<notin> le_dedupe_key ` set (lg_events s)" and "\<not> snd r \<Longrightarrow> t = s"
    by blast+
qed

section \<open>Calls of the store\<close>

lemma create_kept:
  assumes "ledger_inv s" and "calm_others others" and "\<And>c. dn_commitment r = Some c \<Longrightarrow> cm_decision_id c = dn_decision_id r"
  shows "ledger_kept s (snd (create_decision_record others s r))"
    and "fst (create_decision_record others s r) = Inr q \<Longrightarrow>
      q = r \<and> get_decision_record (snd (create_decision_record others s r)) (dn_decision_id r) = Inr r"
proof -
  let ?s0 = "others 0 s"
  have s0: "ledger_kept s ?s0" by (rule others_kept [OF assms(2,1)])
  show "ledger_kept s (snd (create_decision_record others s r))"
  proof (cases "insert_decision ?s0 r")
    case (Inl e)
    with s0 show ?thesis by (simp add: create_decision_record_def)
  next
    case (Inr t)
    note k = insert_decision_kept [OF Inr ledger_keptD(1) [OF s0] assms(3)]
    have "ledger_kept s t" by (rule ledger_kept_trans [OF s0 conjunct1 [OF k]])
    then have "ledger_kept s (others 1 t)" by (rule kept_others [OF _ assms(2)])
    with Inr show ?thesis by (simp add: create_decision_record_def Let_def)
  qed
  assume done': "fst (create_decision_record others s r) = Inr q"
  then obtain t where t: "insert_decision ?s0 r = Inr t"
    by (cases "insert_decision ?s0 r") (simp_all add: create_decision_record_def)
  note k = insert_decision_kept [OF t ledger_keptD(1) [OF s0] assms(3)]
  have "ledger_kept t (others 1 t)" by (rule others_kept [OF assms(2)]) (use k in \<open>auto dest: ledger_keptD\<close>)
  then have "get_decision_record (others 1 t) (dn_decision_id r) = Inr r" using k ledger_keptD(3) by blast
  with t done' show "q = r \<and> get_decision_record (snd (create_decision_record others s r)) (dn_decision_id r) = Inr r"
    by (simp add: create_decision_record_def Let_def)
qed

lemma add_follow_up_kept:
  assumes "ledger_inv s" and "calm_others others"
  shows "ledger_kept s (snd (add_decision_follow_up others s f))"
proof -
  let ?s0 = "others 0 s" and ?s1 = "others 1 (others 0 s)"
  have s0: "ledger_kept s ?s0" by (rule others_kept [OF assms(2,1)])
  have s1: "ledger_kept ?s0 ?s1" by (rule others_kept [OF assms(2) ledger_keptD(1) [OF s0]])
  show ?thesis
  proof (cases "get_decision_record ?s0 (fu_decision_id f)")
    case (Inl e)
    with s0 show ?thesis by (simp add: add_decision_follow_up_def)
  next
    case (Inr q)
    have at: "fu_decision_id f \<in> dn_decision_id ` set (lg_records ?s1)"
      using get_known [OF ledger_keptD(3) [OF s1 Inr]] by simp
    show ?thesis
    proof (cases "insert_follow_up ?s1 f")
      case (Inl e)
      with s0 s1 Inr show ?thesis using ledger_kept_trans by (simp add: add_decision_follow_up_def Let_def)
    next
      case (Inr t)
      have "ledger_kept ?s1 t" using insert_follow_up_kept [OF Inr ledger_keptD(1) [OF s1] at] by blast
      with s0 s1 have "ledger_kept s t" using ledger_kept_trans by blast
      with Inr \<open>get_decision_record ?s0 (fu_decision_id f) = Inr q\<close> show ?thesis
        by (simp add: add_decision_follow_up_def Let_def)
    qed
  qed
qed

lemma append_event_kept:
  assumes "ledger_inv s" and "calm_others others"
  shows "ledger_kept s (snd (append_decision_lifecycle_event others s e))"
proof -
  let ?s0 = "others 0 s" and ?s1 = "others 1 (others 0 s)"
  have s0: "ledger_kept s ?s0" by (rule others_kept [OF assms(2,1)])
  have s1: "ledger_kept ?s0 ?s1" by (rule others_kept [OF assms(2) ledger_keptD(1) [OF s0]])
  show ?thesis
  proof (cases "get_decision_record ?s0 (le_decision_id e)")
    case (Inl err)
    with s0 show ?thesis by (simp add: append_decision_lifecycle_event_def)
  next
    case get: (Inr q)
    have at: "le_decision_id e \<in> dn_decision_id ` set (lg_records ?s1)"
      using get_known [OF ledger_keptD(3) [OF s1 get]] by simp
    show ?thesis
    proof (cases "insert_lifecycle_event ?s1 e")
      case (Inl err)
      with s0 s1 get show ?thesis using ledger_kept_trans by (simp add: append_decision_lifecycle_event_def Let_def)
    next
      case (Inr p)
      obtain r t where p: "p = (r, t)" by fastforce
      have "ledger_kept ?s1 t" by (rule insert_lifecycle_event_kept(1) [OF Inr [unfolded p] ledger_keptD(1) [OF s1] at])
      with s0 s1 have "ledger_kept s t" using ledger_kept_trans by blast
      with Inr get p show ?thesis by (simp add: append_decision_lifecycle_event_def Let_def)
    qed
  qed
qed

section \<open>The contract of a call\<close>

text \<open>A call of the ledger, whatever its result, keeps the tables' invariant and every row.\<close>

locale ledger_call =
  fixes call :: "others \<Rightarrow> ledger \<Rightarrow> (decision_error + 'a) \<times> ledger"
  assumes kept: "calm_others others \<Longrightarrow> ledger_inv s \<Longrightarrow> ledger_kept s (snd (call others s))"
begin

lemma record_stays: "calm_others others \<Longrightarrow> ledger_inv s \<Longrightarrow> get_decision_record s a = Inr r \<Longrightarrow>
    get_decision_record (snd (call others s)) a = Inr r"
  using kept ledger_keptD(3) by blast

lemma follow_ups_stay: "calm_others others \<Longrightarrow> ledger_inv s \<Longrightarrow> set (list_decision_follow_ups s a) \<subseteq> set (list_decision_follow_ups (snd (call others s)) a)"
  using ledger_keptD(2) [OF kept, of others s] by (auto simp: list_decision_follow_ups_def grows_def prefix_def)

lemma events_stay: "calm_others others \<Longrightarrow> ledger_inv s \<Longrightarrow> set (list_decision_lifecycle_events s a) \<subseteq> set (list_decision_lifecycle_events (snd (call others s)) a)"
  using ledger_keptD(2) [OF kept, of others s] by (auto simp: list_decision_lifecycle_events_def grows_def prefix_def)

lemma stays_calm: "calm_others others \<Longrightarrow> calm_others (\<lambda>i s. snd (call (others' i) s))"
    if "\<And>i. calm_others (others' i)"
  using kept that by (simp add: calm_others_def)

end

lemma prepare_decisionE:
  assumes "prepare_decision digest definitions subjects uid now request actor = Inr r"
  obtains d option subject verified timing decided_on dates where
    "definitions (rd_decision_key request) = Some d" and "find_outcome d (rd_outcome request) = Some option"
    and "strip (rd_rationale request) \<noteq> []"
    and "check_owner (ow_role (df_owner d)) (ow_principal (df_owner d)) actor = Inr verified"
    and "subjects (rd_decision_key request) (rd_subject_period request) = Some subject"
    and "rd_subject_row_ref request \<in> {None, Some (sj_row_ref subject)}"
    and "\<not> evidence_gap_missing subject (clean_gaps (rd_evidence_gaps_acknowledged request))"
    and "decision_time request now = Inr timing" and "decided_on_date (fst timing) now = Inr decided_on"
    and "review_dates d (rd_follow_up_due_on request) decided_on = Inr dates"
    and "r = new_decision digest d option subject uid now verified request actor timing dates"
proof -
  obtain d option where d: "definitions (rd_decision_key request) = Some d" "find_outcome d (rd_outcome request) = Some option"
      "strip (rd_rationale request) \<noteq> []"
    using assms by (auto simp: prepare_decision_def split: option.split_asm if_split_asm)
  then obtain verified where v: "check_owner (ow_role (df_owner d)) (ow_principal (df_owner d)) actor = Inr verified"
    using assms by (auto simp: prepare_decision_def and_then_Inr_iff)
  then obtain subject where j: "subjects (rd_decision_key request) (rd_subject_period request) = Some subject"
    using assms d by (auto simp: prepare_decision_def split: option.split_asm)
  then have ref: "rd_subject_row_ref request \<in> {None, Some (sj_row_ref subject)}"
    using assms d v by (auto simp: prepare_decision_def split: if_split_asm)
  then have gap: "\<not> evidence_gap_missing subject (clean_gaps (rd_evidence_gaps_acknowledged request))"
    using assms d v j by (auto simp: prepare_decision_def Let_def split: if_split_asm)
  from assms d v j ref gap obtain timing where t: "decision_time request now = Inr timing"
    and rest: "and_then (decided_on_date (fst timing) now) (\<lambda>decided_on.
      and_then (review_dates d (rd_follow_up_due_on request) decided_on) (\<lambda>dates.
        Inr (new_decision digest d option subject uid now verified request actor timing dates))) = Inr (r :: decision)"
    by (auto simp: prepare_decision_def Let_def and_then_Inr_iff split: if_split_asm prod.split_asm)
  from rest obtain decided_on dates where "decided_on_date (fst timing) now = Inr decided_on"
    "review_dates d (rd_follow_up_due_on request) decided_on = Inr dates"
    "r = new_decision digest d option subject uid now verified request actor timing dates"
    by (auto simp: and_then_Inr_iff)
  with d v j ref gap t show ?thesis by (rule that)
qed

lemma prepared_commitment: "prepare_decision digest definitions subjects uid now request actor = Inr r \<Longrightarrow>
    dn_commitment r = Some c \<Longrightarrow> cm_decision_id c = dn_decision_id r"
  by (erule prepare_decisionE) (auto simp: new_decision_def new_commitment_def split: prod.split)

interpretation recording: ledger_call "\<lambda>others s. record_decision digest others definitions subjects uid now s request actor"
  for digest definitions subjects uid now request actor
proof
  fix others s
  assume "calm_others others" "ledger_inv s"
  then show "ledger_kept s (snd (record_decision digest others definitions subjects uid now s request actor))"
    unfolding record_decision_def
    by (cases "prepare_decision digest definitions subjects uid now request actor")
      (auto simp: ledger_kept_refl intro: create_kept(1) dest: prepared_commitment)
qed

interpretation following: ledger_call "\<lambda>others s. record_follow_up others uid now s a request actor"
  for uid now a request actor
proof
  fix others s
  assume calm: "calm_others others" and "ledger_inv s"
  then have s0: "ledger_kept s (others 0 s)" by (simp add: others_kept)
  then show "ledger_kept s (snd (record_follow_up others uid now s a request actor))"
    using ledger_kept_trans [OF s0 add_follow_up_kept [OF ledger_keptD(1) [OF s0] calm_later_others [OF calm]]]
    by (auto simp: record_follow_up_def Let_def split: sum.split)
qed

lemma owner_event_kept:
  assumes "calm_others others" and "ledger_inv s"
  shows "ledger_kept s (snd (append_owner_event others s e))"
  using append_event_kept [OF assms(2,1), of e] by (simp add: append_owner_event_def)

interpretation stopping: ledger_call "\<lambda>others s. stop_commitment others definitions uid now s a key reason actor"
  for definitions uid now a key reason actor
proof
  fix others s
  assume calm: "calm_others others" and "ledger_inv s"
  then have s0: "ledger_kept s (others 0 s)" by (simp add: others_kept)
  then have s1: "ledger_kept s (others 1 (others 0 s))" by (rule kept_others [OF _ calm])
  then show "ledger_kept s (snd (stop_commitment others definitions uid now s a key reason actor))"
    using s0 ledger_kept_trans [OF s1 owner_event_kept [OF calm_later_others [OF calm] ledger_keptD(1) [OF s1]]]
    by (auto simp: stop_commitment_def Let_def split: sum.split)
qed

interpretation reopening: ledger_call "\<lambda>others s. reopen_commitment others definitions uid now s a reason actor"
  for definitions uid now a reason actor
proof
  fix others s
  assume calm: "calm_others others" and "ledger_inv s"
  then have s0: "ledger_kept s (others 0 s)" by (simp add: others_kept)
  then have s1: "ledger_kept s (others 1 (others 0 s))" by (rule kept_others [OF _ calm])
  then show "ledger_kept s (snd (reopen_commitment others definitions uid now s a reason actor))"
    using s0 ledger_kept_trans [OF s1 owner_event_kept [OF calm_later_others [OF calm] ledger_keptD(1) [OF s1]]]
    by (auto simp: reopen_commitment_def Let_def split: sum.split)
qed

lemma trace_one_kept:
  assumes "calm_others others" and "ledger_inv s"
  shows "ledger_kept s (snd (trace_one digest others snapshots uid now s r current d))"
proof -
  have "ledger_kept s t" if "append_decision_lifecycle_event others s e = (x, t)" for e x t
    using append_event_kept [OF assms(2,1), of e] that by simp
  with assms(2) show ?thesis
    by (auto simp: trace_one_def Let_def ledger_kept_refl split: option.split sum.split prod.split)
qed

lemma trace_records_kept:
  "calm_others others \<Longrightarrow> ledger_inv s \<Longrightarrow>
     ledger_kept s (snd (trace_records digest others definitions subjects snapshots uids now s rs acc))"
proof (induction rs arbitrary: others s acc)
  case Nil
  then show ?case by (cases acc) (simp add: ledger_kept_refl)
next
  case (Cons r rs)
  obtain results affected where acc: "acc = (results, affected)" by fastforce
  obtain x t where one: "trace_one digest others snapshots (uids (length results)) now s r
      (subjects (dn_decision_key r) (dn_subject_period r)) (definitions (dn_decision_key r)) = (x, t)" by fastforce
  have st: "ledger_kept s t"
    using trace_one_kept [OF Cons.prems, of digest snapshots "uids (length results)" now r] one by (metis snd_conv)
  show ?case
  proof (cases x)
    case (Inl e)
    with st one show ?thesis by (simp add: acc)
  next
    case (Inr p)
    with ledger_kept_trans [OF st Cons.IH [OF calm_later_others [OF Cons.prems(1)] ledger_keptD(1) [OF st]]] one
    show ?thesis by (simp add: acc split: prod.split)
  qed
qed

interpretation tracing: ledger_call "\<lambda>others s. trace_evidence_corrections digest others definitions subjects snapshots uids now s key"
  for digest definitions subjects snapshots uids now key
proof
  fix others s
  assume calm: "calm_others others" and "ledger_inv s"
  then have s0: "ledger_kept s (others 0 s)" by (simp add: others_kept)
  show "ledger_kept s (snd (trace_evidence_corrections digest others definitions subjects snapshots uids now s key))"
    using ledger_kept_trans [OF s0 trace_records_kept [OF calm_later_others [OF calm] ledger_keptD(1) [OF s0]]]
    by (simp add: trace_evidence_corrections_def Let_def)
qed

end
