(* ===== verification/DecisionState.thy ===== *)
theory DecisionState
  imports DecisionFacts "HOL-Library.Multiset"
begin

text \<open>
  The derived state of a commitment in closed form, the order of its history, and what stopping,
  reopening and repeated traces do to it.
\<close>

section \<open>The timeline\<close>

lemma rank_mono: "entry_rank x \<le> entry_rank y \<Longrightarrow> entry_time x \<le> entry_time y"
  by (cases x; cases y) (auto simp: less_eq_prod_def)

lemma sorted_by_rank: "sorted (map entry_rank xs) \<Longrightarrow> sorted (map entry_time xs)"
  by (induction xs) (auto intro: rank_mono)

lemma same_time_in_order:
  "sorted (map entry_rank (filter (\<lambda>x. entry_time x = k) (map Observed fs @ map Happened es)))"
  by (induction fs; induction es) (auto simp: less_eq_prod_def sorted_append)

lemma timeline_by_rank: "timeline fs es = sort_key entry_rank (map Observed fs @ map Happened es)"
proof -
  let ?xs = "map Observed fs @ map Happened es"
  let ?ys = "sort_key entry_rank ?xs"
  have "filter (\<lambda>x. entry_time k = entry_time x) ?ys = filter (\<lambda>x. entry_time k = entry_time x) ?xs" for k
  proof -
    have "filter (\<lambda>x. entry_time x = entry_time k) ?ys = sort_key entry_rank (filter (\<lambda>x. entry_time x = entry_time k) ?xs)"
      by (rule filter_sort)
    also have "\<dots> = filter (\<lambda>x. entry_time x = entry_time k) ?xs"
      by (rule sort_key_id_if_sorted [OF same_time_in_order])
    finally show ?thesis by (simp add: eq_commute [of "entry_time k"])
  qed
  moreover have "sorted (map entry_time ?ys)" by (rule sorted_by_rank) simp
  ultimately have "sort_key entry_time ?xs = ?ys" by (intro properties_for_sort_key) simp_all
  then show ?thesis by (simp add: timeline_def)
qed

fun happened :: "ledger_entry list \<Rightarrow> lifecycle_event list" where
  "happened [] = []"
| "happened (Observed f # xs) = happened xs"
| "happened (Happened e # xs) = e # happened xs"

fun observed :: "ledger_entry list \<Rightarrow> follow_up list" where
  "observed [] = []"
| "observed (Observed f # xs) = f # observed xs"
| "observed (Happened e # xs) = observed xs"

lemma happened_simps [simp]: "happened (xs @ ys) = happened xs @ happened ys" "happened (map Happened es) = es" "happened (map Observed fs) = []"
  "observed (xs @ ys) = observed xs @ observed ys" "observed (map Happened es) = []" "observed (map Observed fs) = fs"
proof -
  show "happened (xs @ ys) = happened xs @ happened ys" "observed (xs @ ys) = observed xs @ observed ys"
    by (induction xs rule: happened.induct) auto
  show "happened (map Happened es) = es" "observed (map Happened es) = []" by (induction es) auto
  show "happened (map Observed fs) = []" "observed (map Observed fs) = fs" by (induction fs) auto
qed

lemma set_happened: "e \<in> set (happened xs) \<longleftrightarrow> Happened e \<in> set xs" "f \<in> set (observed xs) \<longleftrightarrow> Observed f \<in> set xs"
  by (induction xs rule: happened.induct) auto

definition is_event :: "ledger_entry \<Rightarrow> bool" where
  "is_event x = (case x of Observed _ \<Rightarrow> False | Happened _ \<Rightarrow> True)"

lemma happened_filter: "happened xs = happened (filter is_event xs)"
  by (induction xs rule: happened.induct) (auto simp: is_event_def)

lemma events_in_order:
  assumes "sorted (map le_occurred_at es)"
  shows "happened (timeline fs es) = es"
proof -
  have "filter is_event (timeline fs es) = sort_key entry_time (filter is_event (map Observed fs @ map Happened es))"
    unfolding timeline_def by (rule filter_sort)
  also have "filter is_event (map Observed fs @ map Happened es) = map Happened es"
    by (simp add: is_event_def filter_empty_conv filter_id_conv)
  also have "sort_key entry_time (map Happened es) = map Happened es"
    using assms by (intro sort_key_id_if_sorted) (simp add: comp_def)
  finally show ?thesis by (simp add: happened_filter [of "timeline fs es"])
qed

lemma timeline_sets: "set (happened (timeline fs es)) = set es" "set (observed (timeline fs es)) = set fs"
  by (auto simp: set_happened timeline_def)

section \<open>What the run over the timeline computes\<close>

lemma run_snoc: "progress_run c (xs @ [x]) g = Option.bind (progress_run c xs g) (progress_step c x)"
  by (induction xs arbitrary: g) (auto split: Option.bind_split)

lemma is_stopped_snoc: "is_stopped (es @ [e]) = (case le_kind e of Stopped_by_owner \<Rightarrow> True | Reopened_by_owner \<Rightarrow> False | Evidence_superseded \<Rightarrow> is_stopped es)"
  by (cases "le_kind e") (simp_all add: is_stopped_def)

definition fresh_progress :: "date \<Rightarrow> progress" where
  "fresh_progress due = \<lparr> pg_stop_event = None, pg_open_supersessions = [], pg_next_review = due \<rparr>"

lemma run_stopped: "progress_run c xs (fresh_progress due) = Some g \<Longrightarrow> pg_stop_event g \<noteq> None \<longleftrightarrow> is_stopped (happened xs)"
proof (induction xs arbitrary: g rule: rev_induct)
  case Nil
  then show ?case by (auto simp: fresh_progress_def is_stopped_def)
next
  case (snoc x xs)
  from snoc.prems obtain h where h: "progress_run c xs (fresh_progress due) = Some h" "progress_step c x h = Some g"
    by (auto simp: run_snoc bind_eq_Some_conv)
  note IH = snoc.IH [OF h(1)]
  show ?case
  proof (cases x)
    case (Observed f)
    with h(2) IH show ?thesis by auto
  next
    case (Happened e)
    with h(2) IH show ?thesis by (cases "le_kind e") (auto simp: is_stopped_snoc)
  qed
qed

definition unreviewed :: "follow_up list \<Rightarrow> lifecycle_event list \<Rightarrow> bool" where
  "unreviewed fs es \<longleftrightarrow> (\<exists>e \<in> set es. le_kind e = Evidence_superseded \<and> (\<forall>f \<in> set fs. fu_observed_at f \<le> le_occurred_at e))"

lemma run_open:
  "progress_run c xs (fresh_progress due) = Some g \<Longrightarrow> sorted (map entry_rank xs) \<Longrightarrow>
     pg_open_supersessions g \<noteq> [] \<longleftrightarrow> unreviewed (observed xs) (happened xs)"
proof (induction xs arbitrary: g rule: rev_induct)
  case Nil
  then show ?case by (auto simp: fresh_progress_def unreviewed_def)
next
  case (snoc x xs)
  from snoc.prems(1) obtain h where h: "progress_run c xs (fresh_progress due) = Some h" "progress_step c x h = Some g"
    by (auto simp: run_snoc bind_eq_Some_conv)
  have before: "\<forall>y \<in> set xs. entry_rank y \<le> entry_rank x" and "sorted (map entry_rank xs)"
    using snoc.prems(2) by (auto simp: sorted_append)
  then have IH: "pg_open_supersessions h \<noteq> [] \<longleftrightarrow> unreviewed (observed xs) (happened xs)" using snoc.IH h(1) by blast
  show ?case
  proof (cases x)
    case (Observed f)
    have "le_occurred_at e < fu_observed_at f" if "e \<in> set (happened xs)" for e
      using before that by (force simp: Observed set_happened less_eq_prod_def)
    then have "\<not> unreviewed (observed xs @ [f]) (happened xs)" by (force simp: unreviewed_def)
    with h(2) show ?thesis by (auto simp: Observed)
  next
    case (Happened e)
    have "fu_observed_at f \<le> le_occurred_at e" if "f \<in> set (observed xs)" for f
      using before that by (force simp: Happened set_happened less_eq_prod_def)
    then have "unreviewed (observed xs) (happened xs @ [e]) \<longleftrightarrow>
        (if le_kind e = Evidence_superseded then True else unreviewed (observed xs) (happened xs))"
      by (auto simp: unreviewed_def)
    with h(2) IH show ?thesis by (auto simp: Happened split: lifecycle_kind.splits)
  qed
qed

definition day_after :: "int \<Rightarrow> int \<Rightarrow> date" where
  "day_after c t = the (Option.bind (date_of_instant t) (\<lambda>d. plus_days d c))"

definition reopenings :: "lifecycle_event list \<Rightarrow> lifecycle_event list" where
  "reopenings es = filter (\<lambda>e. le_kind e = Reopened_by_owner) es"

definition review_days :: "int \<Rightarrow> date \<Rightarrow> follow_up list \<Rightarrow> lifecycle_event list \<Rightarrow> date set" where
  "review_days c due fs es = insert due (day_after c ` (fu_observed_at ` set fs \<union> le_occurred_at ` set (reopenings es)))"

lemma pushed: "pushed_review c t next = Some n \<Longrightarrow> n = max next (day_after c t)"
  by (auto simp: pushed_review_def day_after_def bind_eq_Some_conv)

lemma run_next:
  "progress_run c xs (fresh_progress due) = Some g \<Longrightarrow> pg_next_review g = Max (review_days c due (observed xs) (happened xs))"
proof (induction xs arbitrary: g rule: rev_induct)
  case Nil
  then show ?case by (auto simp: fresh_progress_def review_days_def reopenings_def)
next
  case (snoc x xs)
  from snoc.prems obtain h where h: "progress_run c xs (fresh_progress due) = Some h" "progress_step c x h = Some g"
    by (auto simp: run_snoc bind_eq_Some_conv)
  let ?S = "review_days c due (observed xs) (happened xs)"
  note IH = snoc.IH [OF h(1)]
  have S: "finite ?S" "?S \<noteq> {}" by (simp_all add: review_days_def)
  have push: "Max (insert (day_after c t) ?S) = max (Max ?S) (day_after c t)" for t
    using S by (simp add: max.commute)
  show ?case
  proof (cases x)
    case (Observed f)
    have "review_days c due (observed xs @ [f]) (happened xs) = insert (day_after c (fu_observed_at f)) ?S"
      by (auto simp: review_days_def)
    with h(2) IH push show ?thesis by (auto simp: Observed dest: pushed)
  next
    case (Happened e)
    show ?thesis
    proof (cases "le_kind e = Reopened_by_owner")
      case True
      then have "review_days c due (observed xs) (happened xs @ [e]) = insert (day_after c (le_occurred_at e)) ?S"
        by (auto simp: review_days_def reopenings_def)
      with h(2) IH push True show ?thesis by (auto simp: Happened dest: pushed)
    next
      case False
      then have "review_days c due (observed xs) (happened xs @ [e]) = ?S"
        by (auto simp: review_days_def reopenings_def)
      with h(2) IH False show ?thesis by (auto simp: Happened split: lifecycle_kind.splits)
    qed
  qed
qed

lemma run_total:
  assumes "\<And>f. f \<in> set (observed xs) \<Longrightarrow> Option.bind (date_of_instant (fu_observed_at f)) (\<lambda>d. plus_days d c) \<noteq> None"
    and "\<And>e. e \<in> set (happened xs) \<Longrightarrow> Option.bind (date_of_instant (le_occurred_at e)) (\<lambda>d. plus_days d c) \<noteq> None"
  shows "progress_run c xs g \<noteq> None"
  using assms
proof (induction xs arbitrary: g)
  case Nil
  then show ?case by simp
next
  case (Cons x xs)
  have ok: "pushed_review c t n \<noteq> None" if "Option.bind (date_of_instant t) (\<lambda>d. plus_days d c) \<noteq> None" for t n
    using that by (auto simp: pushed_review_def bind_eq_Some_conv)
  have "progress_step c x g \<noteq> None"
  proof (cases x)
    case (Observed f)
    then have "pushed_review c (fu_observed_at f) (pg_next_review g) \<noteq> None" using Cons.prems(1) by (intro ok) simp
    with Observed show ?thesis by simp
  next
    case (Happened e)
    then have "pushed_review c (le_occurred_at e) (pg_next_review g) \<noteq> None" using Cons.prems(2) by (intro ok) simp
    with Happened show ?thesis by (simp split: lifecycle_kind.split)
  qed
  moreover have "progress_run c xs h \<noteq> None" for h
    using Cons.prems by (intro Cons.IH) (cases x; auto)+
  ultimately show ?case by auto
qed

section \<open>The state in closed form\<close>

definition exact_state :: "decision \<Rightarrow> follow_up list \<Rightarrow> lifecycle_event list \<Rightarrow> date \<Rightarrow> commitment_state" where
  "exact_state r fs es today = (if is_stopped es then Stopped_now else if unreviewed fs es then Review_required
     else if Max (review_days (fst (review_terms r)) (snd (review_terms r)) fs es) \<le> today then Review_due else In_force)"

lemma derived_state:
  assumes "sorted (map le_occurred_at es)" and "derive_commitment_state r fs es today = Some v"
  shows "lv_state v = exact_state r fs es today"
    and "lv_next_review_due_on v = (if is_stopped es then None
      else Some (Max (review_days (fst (review_terms r)) (snd (review_terms r)) fs es)))"
    and "lv_proactive_review v \<longleftrightarrow> lv_state v \<in> {Review_due, Review_required}"
proof -
  obtain c due where terms: "review_terms r = (c, due)" by fastforce
  obtain g where g: "progress_run c (timeline fs es) (fresh_progress due) = Some g"
    and v: "lv_state v = progress_state g today" "lv_next_review_due_on v = (if pg_stop_event g \<noteq> None then None else Some (pg_next_review g))"
      "lv_proactive_review v \<longleftrightarrow> lv_state v \<in> {Review_due, Review_required}"
    using assms(2) by (auto simp: derive_commitment_state_def terms fresh_progress_def Let_def)
  have "sorted (map entry_rank (timeline fs es))" by (simp add: timeline_by_rank)
  note run_open [OF g this]
  moreover have "unreviewed (observed (timeline fs es)) (happened (timeline fs es)) = unreviewed fs es"
    by (simp add: unreviewed_def timeline_sets)
  moreover note run_stopped [OF g, unfolded events_in_order [OF assms(1)]]
  moreover have "pg_next_review g = Max (review_days c due fs es)"
    unfolding run_next [OF g] by (rule arg_cong [of _ _ Max]) (simp add: review_days_def timeline_sets reopenings_def)
  ultimately show "lv_state v = exact_state r fs es today"
    and "lv_next_review_due_on v = (if is_stopped es then None else Some (Max (review_days (fst (review_terms r)) (snd (review_terms r)) fs es)))"
    unfolding v by (auto simp: progress_state_def exact_state_def terms)
  show "lv_proactive_review v \<longleftrightarrow> lv_state v \<in> {Review_due, Review_required}" by (rule v(3))
qed

lemma listed_in_order: "sorted (map le_occurred_at (list_decision_lifecycle_events s a))"
proof -
  have "sorted (map (\<lambda>e. (le_occurred_at e, le_created_at e, le_event_id e)) xs) \<Longrightarrow> sorted (map le_occurred_at xs)" for xs
    by (induction xs) (auto simp: less_eq_prod_def)
  then show ?thesis unfolding list_decision_lifecycle_events_def by this (rule sorted_sort_key)
qed

end
