(* ===== verification/HouseholdDecisions.thy ===== *)
theory HouseholdDecisions
  imports DecisionTerms
begin

text \<open>
  The two declared decisions of the household (\<open>packages/domains/utilities/battery_plan_decision.py\<close>,
  \<open>energy_contract_decision.py\<close>) and their registry (\<open>packages/pipelines/household_decisions.py\<close>).
\<close>

definition BATTERY_PLAN_DECISION :: decision_definition where
  "BATTERY_PLAN_DECISION = \<lparr> df_decision_key = ''kotiakku_battery_plan_review'', df_version = ''1.1.0'',
     df_question = ''Over one closed household-local calendar month, do the Kotiakku battery-versus-no-battery estimated savings cover the battery plan's effective monthly cost, so that the current battery plan, tariff and contract need no review?'',
     df_subject_publication_key = ''mart_battery_plan_outcome'',
     df_evidence_window = ''One closed calendar month in the household timezone, evaluated as complete five-minute source windows read from Home Assistant history and bounded by the assessment timestamp.'',
     df_evidence_that_could_change_decision =
      [''Estimated monthly savings moving above or below the effective monthly battery cost.'',
       ''A change to the battery cost basis (monthly cost, total cost, or akkureservihyvitys compensation).'',
       ''A tariff snapshot change for the month (tariff mode, transfer fees, margins).'',
       ''Further closed months showing a seasonal pattern that a single month does not.'',
       ''Observed bills contradicting the source estimate.''],
     df_insufficient_evidence_criteria =
      [''Measurement coverage below 100% of expected five-minute windows.'',
       ''Source measurements older than 15 minutes at assessment time.'',
       ''Missing, invalid, conflicting or ambiguously scoped source records.'',
       ''Missing or mixed tariff snapshot for the month, or tariff signature mismatch.'',
       ''Missing savings estimate or battery cost basis, or source counters that disagree.'',
       ''Unsupported source evidence contract, calculation method, or period.'',
       ''Decision month not yet closed in the household timezone, or no source profile configured.''],
     df_outcome_options =
      [\<lparr> oo_key = ''keep_current_plan'', oo_label = ''Keep the current battery plan, tariff and contract'', oo_is_non_decision = False \<rparr>,
       \<lparr> oo_key = ''review_battery_plan'', oo_label = ''Open a review of the battery plan, tariff or contract'', oo_is_non_decision = False \<rparr>,
       \<lparr> oo_key = ''change_tariff_or_contract'', oo_label = ''Change tariff or contract (executed outside HLA by the household)'', oo_is_non_decision = False \<rparr>,
       \<lparr> oo_key = ''defer_pending_evidence'', oo_label = ''Explicit non-decision: defer until the evidence improves'', oo_is_non_decision = True \<rparr>],
     df_authorization_boundary = ''Review-only. A verdict or recorded decision is not authorization to change a tariff, contract or battery behaviour; HLA holds no device credentials and exposes no actuation path. Any device change runs through Home Assistant under a separate, target-specific operator approval.'',
     df_supporting_publication_keys = [''mart_battery_plan_outcome_values''],
     df_subject_period_label = ''Closed decision month of the battery-plan outcome (YYYY-MM).'',
     df_purpose = ''Keep the household's battery plan, tariff and contract only while observed economics justify them; reopen the question when the evidence or the plan changes.'',
     df_owner = \<lparr> ow_role = ''operator'', ow_principal = None, ow_description = ''Any authenticated household operator (permission control.decisions.write).'' \<rparr>,
     df_baseline = \<lparr> bl_description = ''The subject month's source estimate: estimated savings, the user-entered effective monthly battery cost and their difference. These are estimates and assumptions, never realized cash.'',
       bl_value_keys = [''estimated_savings_eur'',
       ''effective_monthly_cost_eur'',
       ''estimated_net_benefit_eur''] \<rparr>,
     df_success_measure = \<lparr> sm_key = ''realized_monthly_net_benefit_eur'',
       sm_description = ''Realized monthly net benefit over the observation window: observed bill savings attributable to the battery minus the effective monthly battery cost. Record it on the follow-up as an observed or user-entered value; without one the outcome stays unmeasured.'',
       sm_unit = ''EUR/month'', sm_comparison = At_least, sm_threshold = Dec 0 0, sm_accepted_value_statuses = [''observed'',
       ''user_entered''] \<rparr>,
     df_observation_window = \<lparr> wn_description = ''The first full household-local calendar month after the decision; the review is due 14 days after it closes so bills and the refresh can land, then every 30 days while the commitment stays active.'',
       wn_kind = Calendar_months_after_decision, wn_length = 1, wn_review_grace_days = 14, wn_review_cadence_days = 30 \<rparr>,
     df_evidence_components =
      [\<lparr> vc_key = ''source_windows'', vc_label = ''Source windows, counters, savings estimate and contributing HA runs'', vc_correction_kind = ''source_window'' \<rparr>,
       \<lparr> vc_key = ''tariff_snapshot'', vc_label = ''Month tariff snapshot'', vc_correction_kind = ''tariff_snapshot'' \<rparr>,
       \<lparr> vc_key = ''entity_mapping'', vc_label = ''Kotiakku HA entity mapping'', vc_correction_kind = ''entity_mapping'' \<rparr>,
       \<lparr> vc_key = ''cost_basis'', vc_label = ''Battery cost basis'', vc_correction_kind = ''cost_basis'' \<rparr>],
     df_review_triggers =
      [\<lparr> rt_key = ''observation_window_closed'', rt_description = ''The observation window has closed and the review grace period has passed.'', rt_kind = Timed, rt_evidence_components = [] \<rparr>,
       \<lparr> rt_key = ''source_window_corrected'', rt_description = ''HA history for the month was re-landed or corrected (new runs, windows or savings).'', rt_kind = Evidence_change, rt_evidence_components = [''source_windows''] \<rparr>,
       \<lparr> rt_key = ''tariff_revised'', rt_description = ''The month's tariff snapshot was revised.'', rt_kind = Evidence_change, rt_evidence_components = [''tariff_snapshot''] \<rparr>,
       \<lparr> rt_key = ''entity_mapping_revised'', rt_description = ''The Kotiakku entity mapping changed.'', rt_kind = Evidence_change, rt_evidence_components = [''entity_mapping''] \<rparr>,
       \<lparr> rt_key = ''cost_basis_changed'', rt_description = ''The battery cost basis changed.'', rt_kind = Evidence_change, rt_evidence_components = [''cost_basis''] \<rparr>,
       \<lparr> rt_key = ''verdict_changed'', rt_description = ''The recomputed verdict differs from the one the decision was made on.'', rt_kind = Verdict_change, rt_evidence_components = [] \<rparr>],
     df_stop_conditions =
      [\<lparr> sp_key = ''battery_plan_ended'', sp_description = ''The battery plan or its cost basis no longer exists (plan cancelled or battery removed).'', sp_outcome_keys = [], sp_reason_codes = [''battery_cost_basis_missing''] \<rparr>,
       \<lparr> sp_key = ''tariff_or_contract_changed'', sp_description = ''The household changed tariff or contract; this commitment ends once the follow-up records the realized result, and a new decision opens a new commitment.'', sp_outcome_keys = [''change_tariff_or_contract''], sp_reason_codes = [] \<rparr>,
       \<lparr> sp_key = ''purpose_expired'', sp_description = ''The owner ends the commitment because its purpose no longer applies.'', sp_outcome_keys = [], sp_reason_codes = [] \<rparr>] \<rparr>"

definition ENERGY_CONTRACT_DECISION :: decision_definition where
  "ENERGY_CONTRACT_DECISION = \<lparr> df_decision_key = ''electricity_contract_keep_or_switch'', df_version = ''1.0.0'',
     df_question = ''Given the last twelve billing months of household electricity usage, is the current electricity contract estimated to cost no more per year than the best alternative the household has recorded, so the contract can be kept?'',
     df_subject_publication_key = ''mart_electricity_price_current'',
     df_evidence_window = ''The current contract terms and recorded alternatives as published now, priced against the latest 12 billing months of electricity usage.'',
     df_evidence_that_could_change_decision =
      [''A price change to the current contract (energy price or base fee).'',
       ''A new or changed alternative offer recorded in the contract price file.'',
       ''Household electricity usage moving materially across the trailing year.'',
       ''The contract approaching its renewal date or ending.'',
       ''Observed bills after a switch contradicting the estimate.''],
     df_insufficient_evidence_criteria =
      [''The contract is not published, not active, or not an electricity contract.'',
       ''No per-kWh energy price is recorded for the contract.'',
       ''No comparable alternative (same currency and unit) is recorded.'',
       ''Fewer than 12 billing months of electricity usage.''],
     df_outcome_options =
      [\<lparr> oo_key = ''keep_current_contract'', oo_label = ''Keep the current electricity contract'', oo_is_non_decision = False \<rparr>,
       \<lparr> oo_key = ''switch_contract'', oo_label = ''Switch to an alternative contract (executed outside HLA by the household)'', oo_is_non_decision = False \<rparr>,
       \<lparr> oo_key = ''request_new_quotes'', oo_label = ''Request new quotes before deciding'', oo_is_non_decision = False \<rparr>,
       \<lparr> oo_key = ''defer_pending_evidence'', oo_label = ''Explicit non-decision: defer until the evidence improves'', oo_is_non_decision = True \<rparr>],
     df_authorization_boundary = ''Review-only. A verdict or recorded decision is not authorization to switch or cancel a contract; HLA holds no supplier credentials and exposes no contract action. The household executes any switch outside HLA.'',
     df_supporting_publication_keys = [''mart_contract_review_candidates'',
       ''mart_contract_renewal_watchlist'',
       ''mart_utility_cost_trend_monthly''],
     df_subject_period_label = ''Contract identifier (contract_id) of an active electricity contract.'',
     df_purpose = ''Keep the household electricity contract only while recorded alternatives are not materially cheaper for the household's own usage; reopen when prices, offers or usage change.'',
     df_owner = \<lparr> ow_role = ''operator'', ow_principal = None, ow_description = ''Any authenticated household operator (permission control.decisions.write).'' \<rparr>,
     df_baseline = \<lparr> bl_description = ''Estimated annual cost of the current contract and of the cheapest recorded alternative over the trailing usage year, and their difference. Estimates only.'',
       bl_value_keys = [''estimated_annual_cost_current_eur'',
       ''estimated_annual_cost_best_alternative_eur'',
       ''estimated_annual_difference_eur''] \<rparr>,
     df_success_measure = \<lparr> sm_key = ''realized_annual_cost_change_eur'',
       sm_description = ''Realized change in annualized electricity cost versus the baseline estimate of the current contract, from bills over the observation window (negative means the household pays less). Record it on the follow-up as an observed or user-entered value; without one the outcome stays unmeasured.'',
       sm_unit = ''EUR/year'', sm_comparison = At_most, sm_threshold = Dec 0 0, sm_accepted_value_statuses = [''observed'',
       ''user_entered''] \<rparr>,
     df_observation_window = \<lparr> wn_description = ''Ninety days of bills after the decision; the review is due 21 days later so the last bill can land, then every 180 days while the commitment stays active.'',
       wn_kind = Days_after_decision, wn_length = 90, wn_review_grace_days = 21, wn_review_cadence_days = 180 \<rparr>,
     df_evidence_components =
      [\<lparr> vc_key = ''contract_terms'', vc_label = ''Current contract price components'', vc_correction_kind = ''contract_terms'' \<rparr>,
       \<lparr> vc_key = ''alternatives'', vc_label = ''Recorded alternative electricity offers'', vc_correction_kind = ''market_reference'' \<rparr>,
       \<lparr> vc_key = ''usage_basis'', vc_label = ''Trailing electricity usage and cost months'', vc_correction_kind = ''usage_basis'' \<rparr>],
     df_review_triggers =
      [\<lparr> rt_key = ''observation_window_closed'', rt_description = ''The observation window has closed and the review grace period has passed.'', rt_kind = Timed, rt_evidence_components = [] \<rparr>,
       \<lparr> rt_key = ''contract_terms_changed'', rt_description = ''The current contract's prices were corrected or changed.'', rt_kind = Evidence_change, rt_evidence_components = [''contract_terms''] \<rparr>,
       \<lparr> rt_key = ''alternatives_changed'', rt_description = ''An alternative offer was recorded, corrected or removed.'', rt_kind = Evidence_change, rt_evidence_components = [''alternatives''] \<rparr>,
       \<lparr> rt_key = ''usage_basis_changed'', rt_description = ''Electricity usage months were re-landed or corrected.'', rt_kind = Evidence_change, rt_evidence_components = [''usage_basis''] \<rparr>,
       \<lparr> rt_key = ''verdict_changed'', rt_description = ''The recomputed verdict differs from the one the decision was made on.'', rt_kind = Verdict_change, rt_evidence_components = [] \<rparr>],
     df_stop_conditions =
      [\<lparr> sp_key = ''contract_ended'', sp_description = ''The contract is no longer active (ended or replaced).'', sp_outcome_keys = [], sp_reason_codes = [''contract_not_active''] \<rparr>,
       \<lparr> sp_key = ''contract_switched'', sp_description = ''The household switched contract; this commitment ends once the follow-up records the realized result, and the new contract opens a new commitment.'', sp_outcome_keys = [''switch_contract''], sp_reason_codes = [] \<rparr>,
       \<lparr> sp_key = ''purpose_expired'', sp_description = ''The owner ends the commitment because its purpose no longer applies.'', sp_outcome_keys = [], sp_reason_codes = [] \<rparr>] \<rparr>"

definition DECISION_DEFINITIONS :: "(string \<times> decision_definition) list" where
  "DECISION_DEFINITIONS = map (\<lambda>d. (df_decision_key d, d)) [BATTERY_PLAN_DECISION, ENERGY_CONTRACT_DECISION]"

definition get_decision_definition :: "string \<Rightarrow> decision_definition option" where
  "get_decision_definition key = map_of DECISION_DEFINITIONS key"

lemma declared_ok: "definition_ok BATTERY_PLAN_DECISION" "definition_ok ENERGY_CONTRACT_DECISION"
  by code_simp+

lemma known_definition_ok: "get_decision_definition key = Some d \<Longrightarrow> definition_ok d \<and> df_decision_key d = key"
  by (auto simp: get_decision_definition_def DECISION_DEFINITIONS_def declared_ok split: if_splits)

end
