(* ===== verification/DecisionRules.thy ===== *)
theory DecisionRules
  imports DecisionState HouseholdDecisions
begin

text \<open>What the checks before a write secure: the owner, the observation window and the times of a decision.\<close>

section \<open>Windows\<close>

lemma date_of_instant_valid: "date_of_instant t = Some d \<Longrightarrow> valid_date d"
  unfolding date_of_instant_def using of_ordinal_spec by blast

lemma later_day: "plus_days d k = Some e \<Longrightarrow> valid_date d \<Longrightarrow> 0 < k \<Longrightarrow> d < e"
  using plus_days_valid [of d k e] ordinal_less_iff [of d e] by simp

lemma days_apart: "plus_days d j = Some a \<Longrightarrow> plus_days d k = Some b \<Longrightarrow> j \<le> k \<Longrightarrow> a \<le> b"
  using plus_days_valid [of d j a] plus_days_valid [of d k b] ordinal_le_iff [of a b] by simp

lemma months_laterD:
  assumes "months_later d k = Some e"
  shows "valid_date e" and "year e * 12 + month e = year d * 12 + month d + k" and "day e \<le> day d" and "1 \<le> day d \<Longrightarrow> 1 \<le> day e"
proof -
  let ?i = "month d - 1 + k"
  have e: "e = Date (year d + ?i div 12) (?i mod 12 + 1) (min (day d) (days_in_month (year d + ?i div 12) (?i mod 12 + 1)))" "valid_date e"
    using assms by (auto simp: months_later_def Let_def make_date_Some)
  show "valid_date e" "day e \<le> day d" by (simp_all add: e(2), simp add: e(1))
  show "year e * 12 + month e = year d * 12 + month d + k"
    unfolding e(1) using div_mult_mod_eq [of ?i 12] by simp
  show "1 \<le> day d \<Longrightarrow> 1 \<le> day e"
    using days_in_month_bounds(1) [of "year d + ?i div 12" "?i mod 12 + 1"] unfolding e(1) by simp
qed

lemma month_before:
  assumes "valid_date a" and "valid_date b" and "year a * 12 + month a < year b * 12 + month b"
  shows "a < b"
  using assms by (auto simp: less_date_def valid_date_def)

lemma window_after:
  assumes "window_for w d = Some (a, b)" and "valid_date d" and "window_ok w"
  shows "d < a" and "a \<le> b"
proof -
  have len: "1 \<le> wn_length w" using assms(3) by (simp add: window_ok_def)
  have "d < a \<and> a \<le> b"
  proof (cases "wn_kind w")
    case Days_after_decision
    then have "plus_days d 1 = Some a" "plus_days d (wn_length w) = Some b"
      using assms(1) by (auto simp: window_for_def split: option.splits)
    then show ?thesis using later_day assms(2) days_apart len by auto
  next
    case Calendar_months_after_decision
    then obtain last_month where s: "months_later (Date (year d) (month d) 1) 1 = Some a" and l: "months_later a (wn_length w - 1) = Some last_month"
      and b: "b = last_of_month last_month"
      using assms(1) by (auto simp: window_for_def bind_eq_Some_conv)
    have "d < a"
      using month_before [OF assms(2) months_laterD(1) [OF s]] months_laterD(2) [OF s] by simp
    moreover have "a \<le> b"
    proof -
      have day: "day a = 1" using months_laterD(3,4) [OF s] by simp
      have ym: "year a * 12 + month a \<le> year b * 12 + month b" and m: "1 \<le> month a" "month a \<le> 12" "1 \<le> month b" "month b \<le> 12"
        using months_laterD(2) [OF l] len months_laterD(1) [OF s] months_laterD(1) [OF l]
        by (simp_all add: b last_of_month_def valid_date_def)
      moreover have "1 \<le> day b" using days_in_month_bounds(1) [of "year last_month" "month last_month"] by (simp add: b last_of_month_def)
      ultimately show ?thesis using day by (auto simp: less_eq_date_def)
    qed
    ultimately show ?thesis by blast
  qed
  then show "d < a" and "a \<le> b" by blast+
qed

lemma review_datesE:
  assumes "review_dates d requested decided_on = Inr dates" and "valid_date decided_on" and "window_ok (df_observation_window d)"
  obtains a b due where "dates = (a, b, due)" and "decided_on < a" and "a \<le> b" and "b \<le> due"
proof -
  obtain a b where w: "window_for (df_observation_window d) decided_on = Some (a, b)"
    using assms(1) by (auto simp: review_dates_def split: option.split_asm)
  then obtain due where "dates = (a, b, due)" "\<not> due < b"
    using assms(1) by (auto simp: review_dates_def split: option.split_asm if_split_asm)
  with window_after [OF w assms(2,3)] show ?thesis by (intro that [of a b due]) (simp_all add: not_less)
qed

section \<open>Owners and times\<close>

lemma check_ownerD:
  assumes "check_owner role person actor = Inr verified"
  shows "verified \<longleftrightarrow> ac_authenticated actor"
    and "ac_authenticated actor \<Longrightarrow> \<exists>held required. ac_role actor = Some (role_value held) \<and> role = role_value required \<and> has_required_role held required"
    and "ac_authenticated actor \<Longrightarrow> person \<in> {None, Some (ac_actor actor)}"
proof -
  show "verified \<longleftrightarrow> ac_authenticated actor" and "ac_authenticated actor \<Longrightarrow> person \<in> {None, Some (ac_actor actor)}"
    using assms by (auto simp: check_owner_def split: if_split_asm option.split_asm)
  assume "ac_authenticated actor"
  then obtain held required where hr: "role_of_text (text_or (ac_role actor) []) = Some held" "role_of_text role = Some required"
      "has_required_role held required"
    using assms by (auto simp: check_owner_def split: if_split_asm option.split_asm)
  have "role_value held = text_or (ac_role actor) []" "role_value required = role"
    using find_Some_member [OF hr(1) [unfolded role_of_text_def]] find_Some_member [OF hr(2) [unfolded role_of_text_def]] by simp_all
  moreover have "role_value held \<noteq> []" by (cases held) simp_all
  moreover have "x = Some y" if "y = text_or x []" and "y \<noteq> []" for x y
    using that by (simp add: text_or_def split: option.split_asm if_split_asm)
  ultimately have "ac_role actor = Some (role_value held)" "role = role_value required" by auto
  with hr(3) show "\<exists>held required. ac_role actor = Some (role_value held) \<and> role = role_value required \<and> has_required_role held required"
    by blast
qed

lemma decision_timeD:
  assumes "decision_time request now = Inr timing"
  shows "(case fst timing of None \<Rightarrow> snd timing = None | Some (Naive _) \<Rightarrow> False | Some (Aware t off) \<Rightarrow> t \<le> now \<and> snd timing \<noteq> None)"
  using assms by (auto simp: decision_time_def Let_def split: option.splits moment.splits if_split_asm)

lemma decided_on_valid: "decided_on_date m now = Inr d \<Longrightarrow> valid_date d"
  by (auto simp: decided_on_date_def local_date_def dest: date_of_instant_valid split: option.split_asm moment.split_asm)

lemma declared_owner: "get_decision_definition key = Some d \<Longrightarrow> ow_role (df_owner d) = ''operator'' \<and> ow_principal (df_owner d) = None"
  by (auto simp: get_decision_definition_def DECISION_DEFINITIONS_def BATTERY_PLAN_DECISION_def ENERGY_CONTRACT_DECISION_def split: if_splits)

lemma role_value_inj: "role_value a = role_value b \<longleftrightarrow> a = b"
  by (cases a; cases b) simp_all

lemma declared_operator:
  assumes "get_decision_definition key = Some d" and "check_owner (ow_role (df_owner d)) (ow_principal (df_owner d)) actor = Inr verified"
  shows "ac_authenticated actor \<longrightarrow> (\<exists>role. ac_role actor = Some (role_value role) \<and> has_required_role role Operator)"
proof
  assume "ac_authenticated actor"
  from check_ownerD(2) [OF assms(2) this] obtain held required where held: "ac_role actor = Some (role_value held)"
      "ow_role (df_owner d) = role_value required" "has_required_role held required" by (elim exE conjE)
  have "role_value required = role_value Operator" using held(2) declared_owner [OF assms(1)] by simp
  then have "required = Operator" by (rule iffD1 [OF role_value_inj])
  with held show "\<exists>role. ac_role actor = Some (role_value role) \<and> has_required_role role Operator" by blast
qed

end
