(* ===== verification/DecisionRounds.thy ===== *)
theory DecisionRounds
  imports DecisionState
begin

text \<open>
  The numbering of stops and reopenings, which makes an undisturbed stop take effect; traces that are
  repeated; and the chain of outcome references.
\<close>

section \<open>Numbered rounds\<close>

definition history_events :: "ledger \<Rightarrow> string \<Rightarrow> lifecycle_event list" where
  "history_events s a = filter (\<lambda>e. le_decision_id e = a) (lg_events s)"

definition well_keyed :: "(lifecycle_kind \<Rightarrow> string \<Rightarrow> nat) \<Rightarrow> lifecycle_event \<Rightarrow> bool" where
  "well_keyed bound e \<longleftrightarrow>
     (if le_kind e = Evidence_superseded then \<exists>fp. le_dedupe_key e = le_decision_id e @ '':evidence_superseded:'' @ fp
      else \<exists>n. 1 \<le> n \<and> n \<le> bound (le_kind e) (le_decision_id e) \<and> le_dedupe_key e = sequence_key (le_decision_id e) (le_kind e) n)"

definition rounds :: "ledger \<Rightarrow> lifecycle_kind \<Rightarrow> string \<Rightarrow> nat" where
  "rounds s k a = count_kind k (history_events s a)"

definition rounds_numbered :: "ledger \<Rightarrow> bool" where
  "rounds_numbered s \<longleftrightarrow> (\<forall>r \<in> set (lg_records s). CHR '':'' \<notin> set (dn_decision_id r)) \<and> (\<forall>e \<in> set (lg_events s). well_keyed (rounds s) e)"

definition orderly :: "others \<Rightarrow> bool" where
  "orderly others \<longleftrightarrow> calm_others others \<and> (\<forall>i s. ledger_inv s \<longrightarrow> rounds_numbered s \<longrightarrow> rounds_numbered (others i s))"

lemma orderly_calm: "orderly others \<Longrightarrow> calm_others others"
  by (simp add: orderly_def)

lemma orderly_numbered: "orderly others \<Longrightarrow> ledger_inv s \<Longrightarrow> rounds_numbered s \<Longrightarrow> rounds_numbered (others i s)"
  by (simp add: orderly_def)

lemma orderly_later: "orderly others \<Longrightarrow> orderly (later_others n others)"
  by (simp add: orderly_def calm_later_others) (simp add: later_others_def)

lemma orderly_undisturbed [simp]: "orderly undisturbed"
  by (simp add: orderly_def)

lemma numbered_empty: "rounds_numbered empty_ledger"
  by (simp add: rounds_numbered_def empty_ledger_def)

lemma rounds_mono: "grows s t \<Longrightarrow> rounds s k a \<le> rounds t k a"
  by (auto simp: rounds_def history_events_def count_kind_def grows_def prefix_def)

lemma well_keyed_mono: "well_keyed b e \<Longrightarrow> (\<And>k a. b k a \<le> c k a) \<Longrightarrow> well_keyed c e"
  unfolding well_keyed_def by (meson order_trans)

lemma insert_lifecycle_event_numbered:
  assumes "insert_lifecycle_event s e = Inr (r, t)" and "ledger_inv s" and "rounds_numbered s" and "le_decision_id e \<in> dn_decision_id ` set (lg_records s)"
    and "well_keyed (\<lambda>k a. Suc (rounds s k a)) e"
  shows "rounds_numbered t"
proof -
  note k = insert_lifecycle_event_kept [OF assms(1,2,4)]
  note grown = ledger_keptD(2) [OF k(1)]
  show ?thesis
  proof (cases "snd r")
    case False
    with k(7) assms(3) show ?thesis by simp
  next
    case True
    then have events: "lg_events t = lg_events s @ [e]" using k(4) by simp
    have records: "lg_records t = lg_records s"
      using assms(1) by (auto simp: insert_lifecycle_event_def split: option.split_asm if_split_asm)
    have more: "rounds t (le_kind e) (le_decision_id e) = Suc (rounds s (le_kind e) (le_decision_id e))"
      by (simp add: rounds_def history_events_def count_kind_def events)
    have "well_keyed (rounds t) e" using assms(5) by (simp only: well_keyed_def more)
    moreover have "well_keyed (rounds t) x" if "x \<in> set (lg_events s)" for x
      using assms(3) that rounds_mono [OF grown] by (auto simp: rounds_numbered_def intro: well_keyed_mono)
    ultimately show ?thesis using assms(3) by (auto simp: rounds_numbered_def events records)
  qed
qed

lemma append_numbered:
  assumes "orderly others" and "ledger_inv s" and "rounds_numbered s" and "well_keyed (\<lambda>k a. Suc (rounds s k a)) e"
  shows "rounds_numbered (snd (append_decision_lifecycle_event others s e))"
proof -
  let ?s0 = "others 0 s" and ?s1 = "others 1 (others 0 s)"
  note calm = orderly_calm [OF assms(1)]
  have s0: "ledger_kept s ?s0" "rounds_numbered ?s0" by (rule others_kept [OF calm assms(2)]) (rule orderly_numbered [OF assms(1-3)])
  have s1: "ledger_kept ?s0 ?s1" "rounds_numbered ?s1"
    by (rule others_kept [OF calm ledger_keptD(1) [OF s0(1)]]) (rule orderly_numbered [OF assms(1) ledger_keptD(1) [OF s0(1)] s0(2)])
  show ?thesis
  proof (cases "get_decision_record ?s0 (le_decision_id e)")
    case (Inl err)
    with s0 show ?thesis by (simp add: append_decision_lifecycle_event_def)
  next
    case get: (Inr q)
    have at: "le_decision_id e \<in> dn_decision_id ` set (lg_records ?s1)"
      using get_known [OF ledger_keptD(3) [OF s1(1) get]] by simp
    have keyed: "well_keyed (\<lambda>k a. Suc (rounds ?s1 k a)) e"
      using rounds_mono [OF ledger_keptD(2) [OF ledger_kept_trans [OF s0(1) s1(1)]]] by (intro well_keyed_mono [OF assms(4)]) simp
    show ?thesis
    proof (cases "insert_lifecycle_event ?s1 e")
      case (Inl err)
      with s1 get show ?thesis by (simp add: append_decision_lifecycle_event_def Let_def)
    next
      case (Inr p)
      obtain r t where p: "p = (r, t)" by fastforce
      from insert_lifecycle_event_numbered [OF Inr [unfolded p] ledger_keptD(1) [OF s1(1)] s1(2) at keyed] Inr get p
      show ?thesis by (simp add: append_decision_lifecycle_event_def Let_def)
    qed
  qed
qed

lemma listed_rounds: "count_kind k (list_decision_lifecycle_events s a) = rounds s k a"
proof -
  have "length (filter (\<lambda>e. le_kind e = k) (sort_key f xs)) = length (filter (\<lambda>e. le_kind e = k) xs)" for f :: "lifecycle_event \<Rightarrow> int \<times> int \<times> string" and xs
    by (metis filter_sort length_sort)
  then show ?thesis by (simp add: count_kind_def rounds_def history_events_def list_decision_lifecycle_events_def)
qed

lemma owner_event_keyed:
  "k \<noteq> Evidence_superseded \<Longrightarrow> well_keyed (\<lambda>k a. Suc (rounds s k a)) (owner_event uid a k (Suc (rounds s k a)) code reason details actor now)"
  by (auto simp: well_keyed_def owner_event_def intro!: exI [of _ "Suc (rounds s k a)"])

lemma stop_numbered:
  assumes "orderly others" and "ledger_inv s" and "rounds_numbered s"
  shows "rounds_numbered (snd (stop_commitment others definitions uid now s a key reason actor))"
    and "rounds_numbered (snd (reopen_commitment others definitions uid now s a reason actor))"
proof -
  let ?s0 = "others 0 s" and ?s1 = "others 1 (others 0 s)"
  note calm = orderly_calm [OF assms(1)]
  have s0: "ledger_kept s ?s0" "rounds_numbered ?s0" by (rule others_kept [OF calm assms(2)]) (rule orderly_numbered [OF assms(1-3)])
  have s1: "ledger_kept ?s0 ?s1" "rounds_numbered ?s1"
    by (rule others_kept [OF calm ledger_keptD(1) [OF s0(1)]]) (rule orderly_numbered [OF assms(1) ledger_keptD(1) [OF s0(1)] s0(2)])
  have "rounds_numbered (snd (append_owner_event (later_others 2 others) ?s1 (owner_event uid a k (Suc (count_kind k (list_decision_lifecycle_events ?s1 a)))
      code reason' details actor now)))" if "k \<noteq> Evidence_superseded" for k code reason' details
    using append_numbered [OF orderly_later [OF assms(1)] ledger_keptD(1) [OF s1(1)] s1(2) owner_event_keyed [OF that]]
    by (simp add: append_owner_event_def listed_rounds)
  then show "rounds_numbered (snd (stop_commitment others definitions uid now s a key reason actor))"
    and "rounds_numbered (snd (reopen_commitment others definitions uid now s a reason actor))"
    using s0(2) s1(2) by (auto simp: stop_commitment_def reopen_commitment_def Let_def split: sum.split)
qed

lemma numbered_cong: "lg_records t = lg_records s \<Longrightarrow> lg_events t = lg_events s \<Longrightarrow> rounds_numbered s \<Longrightarrow> rounds_numbered t"
  unfolding rounds_numbered_def rounds_def history_events_def by simp

section \<open>A stop takes effect\<close>

lemma colon_split: "CHR '':'' \<notin> set a \<Longrightarrow> CHR '':'' \<notin> set b \<Longrightarrow> a @ CHR '':'' # x = b @ CHR '':'' # y \<Longrightarrow> a = b \<and> x = y"
proof (induction a arbitrary: b)
  case Nil
  then show ?case by (cases b) auto
next
  case (Cons c a)
  then show ?case by (cases b) auto
qed

lemma sequence_key_inj:
  assumes "CHR '':'' \<notin> set a" and "CHR '':'' \<notin> set b"
  shows "sequence_key a k m = sequence_key b l n \<longleftrightarrow> a = b \<and> k = l \<and> m = n"
proof
  assume eq: "sequence_key a k m = sequence_key b l n"
  have plain: "CHR '':'' \<notin> set (lifecycle_kind_text x)" for x by (cases x) simp_all
  from eq have "a @ CHR '':'' # (lifecycle_kind_text k @ CHR '':'' # nat_text m) = b @ CHR '':'' # (lifecycle_kind_text l @ CHR '':'' # nat_text n)"
    by (simp add: sequence_key_def)
  from colon_split [OF assms this] have "a = b" and "lifecycle_kind_text k @ CHR '':'' # nat_text m = lifecycle_kind_text l @ CHR '':'' # nat_text n"
    by blast+
  from colon_split [OF plain plain this(2)] have "lifecycle_kind_text k = lifecycle_kind_text l" "m = n" by simp_all
  with \<open>a = b\<close> show "a = b \<and> k = l \<and> m = n" by (cases k; cases l) simp_all
qed simp

lemma next_key_fresh:
  assumes "rounds_numbered s" and "ledger_inv s" and "a \<in> dn_decision_id ` set (lg_records s)" and "k \<noteq> Evidence_superseded"
  shows "sequence_key a k (Suc (rounds s k a)) \<notin> le_dedupe_key ` set (lg_events s)"
proof
  assume "sequence_key a k (Suc (rounds s k a)) \<in> le_dedupe_key ` set (lg_events s)"
  then obtain e where e: "e \<in> set (lg_events s)" "le_dedupe_key e = sequence_key a k (Suc (rounds s k a))" by auto
  have "le_decision_id e \<in> dn_decision_id ` set (lg_records s)" using assms(2) e(1) by (auto simp: ledger_inv_def)
  then have free: "CHR '':'' \<notin> set a" "CHR '':'' \<notin> set (le_decision_id e)" using assms(1,3) by (auto simp: rounds_numbered_def)
  have keyed: "well_keyed (rounds s) e" using assms(1) e(1) by (simp add: rounds_numbered_def)
  show False
  proof (cases "le_kind e = Evidence_superseded")
    case True
    then obtain fp where "le_decision_id e @ CHR '':'' # (''evidence_superseded'' @ CHR '':'' # fp) =
        a @ CHR '':'' # (lifecycle_kind_text k @ CHR '':'' # nat_text (Suc (rounds s k a)))"
      using keyed e(2) by (auto simp: well_keyed_def sequence_key_def)
    from colon_split [OF free(2,1) this] have "''evidence_superseded'' @ CHR '':'' # fp = lifecycle_kind_text k @ CHR '':'' # nat_text (Suc (rounds s k a))"
      by blast
    from colon_split [OF _ _ this] assms(4) show False by (cases k) simp_all
  next
    case False
    then obtain n where "n \<le> rounds s (le_kind e) (le_decision_id e)" "sequence_key (le_decision_id e) (le_kind e) n = sequence_key a k (Suc (rounds s k a))"
      using keyed e(2) by (auto simp: well_keyed_def)
    then show False by (simp add: sequence_key_inj [OF free(2,1)])
  qed
qed

lemma stop_appends:
  assumes "ledger_inv s" and "rounds_numbered s" and "stop_commitment undisturbed definitions uid now s a key reason actor = (Inr e, t)"
  shows "lg_events t = lg_events s @ [e]" and "le_kind e = Stopped_by_owner" and "le_decision_id e = a" and "le_occurred_at e = now"
    and "\<not> is_stopped (list_decision_lifecycle_events s a)" and "le_reason_code e = key"
proof -
  let ?e = "owner_event uid a Stopped_by_owner (Suc (rounds s Stopped_by_owner a)) key reason (Stop_details key) actor now"
  obtain r where r: "get_decision_record s a = Inr r" and go: "\<not> is_stopped (list_decision_lifecycle_events s a)"
    and appended: "append_owner_event undisturbed s ?e = (Inr e, t)"
    using assms(3) by (auto simp: stop_commitment_def Let_def listed_rounds and_then_Inr_iff split: sum.split_asm if_split_asm)
  have a: "a \<in> dn_decision_id ` set (lg_records s)" using get_known [OF r] by simp
  have id': "le_decision_id ?e = a" "le_dedupe_key ?e = sequence_key a Stopped_by_owner (Suc (rounds s Stopped_by_owner a))"
    by (simp_all add: owner_event_def)
  obtain b where ins: "insert_lifecycle_event s ?e = Inr ((e, b), t)"
    using appended r by (auto simp: append_owner_event_def append_decision_lifecycle_event_def id' map_prod_def split: sum.split_asm prod.split_asm)
  have b: b
    using insert_lifecycle_event_kept(6) [OF ins assms(1)] next_key_fresh [OF assms(2,1) a] a by (simp add: id')
  then have e: "e = ?e" "lg_events t = lg_events s @ [?e]" using insert_lifecycle_event_kept(4,5) [OF ins assms(1)] a by (simp_all add: id')
  then show "lg_events t = lg_events s @ [e]" and "le_kind e = Stopped_by_owner" and "le_decision_id e = a" and "le_occurred_at e = now"
    and "le_reason_code e = key"
    by (simp_all add: owner_event_def)
  show "\<not> is_stopped (list_decision_lifecycle_events s a)" by (rule go)
qed

lemma stopped_if_latest:
  assumes "sorted (map le_occurred_at es)" and "e \<in> set es" and "le_kind e = Stopped_by_owner"
    and "\<And>x. x \<in> set es \<Longrightarrow> le_kind x = Reopened_by_owner \<Longrightarrow> le_occurred_at x < le_occurred_at e"
  shows "is_stopped es"
  using assms(1,2,4)
proof (induction es rule: rev_induct)
  case Nil
  then show ?case by simp
next
  case (snoc x es)
  have early: "\<forall>y \<in> set es. le_occurred_at y \<le> le_occurred_at x" using snoc.prems(1) by (simp add: sorted_append)
  show ?case
  proof (cases "le_kind x")
    case Stopped_by_owner
    then show ?thesis by (simp add: is_stopped_snoc)
  next
    case Reopened_by_owner
    then have "e \<in> set es" using snoc.prems(2) assms(3) by auto
    with early snoc.prems(3) [of x] Reopened_by_owner have False by force
    then show ?thesis ..
  next
    case Evidence_superseded
    then have "e \<in> set es" using snoc.prems(2) assms(3) by auto
    with snoc.IH snoc.prems(1,3) have "is_stopped es" by (simp add: sorted_append)
    with Evidence_superseded show ?thesis by (simp add: is_stopped_snoc)
  qed
qed

end
