(* ===== verification/DecisionRevisions.thy ===== *)
theory DecisionRevisions
  imports DecisionRounds
begin

text \<open>Repeated traces of the same evidence, and how outcome references grow with the history.\<close>

section \<open>Traces\<close>

lemma trace_records_only_events:
  "trace_one digest undisturbed snapshots uid now s r current d = (x, t) \<Longrightarrow>
     lg_records t = lg_records s \<and> lg_commitments t = lg_commitments s \<and> lg_follow_ups t = lg_follow_ups s"
  by (auto simp: trace_one_def Let_def append_decision_lifecycle_event_def insert_lifecycle_event_def
    split: option.split_asm sum.split_asm prod.split_asm if_split_asm)

lemma trace_run_only_events:
  "trace_records digest undisturbed definitions subjects snapshots uids now s rs acc = (x, t) \<Longrightarrow>
     lg_records t = lg_records s \<and> lg_commitments t = lg_commitments s \<and> lg_follow_ups t = lg_follow_ups s"
proof (induction rs arbitrary: s acc)
  case Nil
  then show ?case by (cases acc) auto
next
  case (Cons r rs)
  obtain results affected where acc: "acc = (results, affected)" by fastforce
  obtain y u where one: "trace_one digest undisturbed snapshots (uids (length results)) now s r
      (subjects (dn_decision_key r) (dn_subject_period r)) (definitions (dn_decision_key r)) = (y, u)" by fastforce
  show ?case
  proof (cases y)
    case (Inl e)
    with Cons.prems one trace_records_only_events [OF one] show ?thesis by (simp add: acc del: undisturbed_same(1))
  next
    case (Inr p)
    obtain result publications where p: "p = (result, publications)" by fastforce
    with Cons.prems one Inr have "trace_records digest undisturbed definitions subjects snapshots uids now u rs
        (results @ [result], affected @ publications) = (x, t)" by (simp add: acc del: undisturbed_same(1))
    from Cons.IH [OF this] trace_records_only_events [OF one] show ?thesis by simp
  qed
qed

definition traced_key :: "(string \<Rightarrow> string) \<Rightarrow> decision \<Rightarrow> subject_evidence \<Rightarrow> string" where
  "traced_key digest r subject = dn_decision_id r @ '':evidence_superseded:'' @ evidence_fingerprint digest (sj_evidence_components subject)"

definition needs_event :: "snapshot_components \<Rightarrow> decision_definition option \<Rightarrow> subject_evidence option \<Rightarrow> decision \<Rightarrow> bool" where
  "needs_event snapshots d current r \<longleftrightarrow> d \<noteq> None \<and> (\<exists>subject pinned. current = Some subject \<and>
     pinned_evidence_components snapshots r = Some pinned \<and> changed_components pinned (sj_evidence_components subject) \<noteq> [])"

definition event_recorded :: "(string \<Rightarrow> string) \<Rightarrow> ledger \<Rightarrow> decision \<Rightarrow> subject_evidence option \<Rightarrow> bool" where
  "event_recorded digest s r current \<longleftrightarrow> (\<forall>subject. current = Some subject \<longrightarrow> traced_key digest r subject \<in> le_dedupe_key ` set (lg_events s))"

lemma recorded_grows: "event_recorded digest s r current \<Longrightarrow> grows s t \<Longrightarrow> event_recorded digest t r current"
  unfolding event_recorded_def grows_def prefix_def by auto

lemma trace_one_records:
  assumes "trace_one digest undisturbed snapshots uid now s r current d = (Inr p, t)" and "ledger_inv s"
  shows "ledger_kept s t" and "needs_event snapshots d current r \<Longrightarrow> event_recorded digest t r current"
proof -
  show kept: "ledger_kept s t"
    using trace_one_kept [OF calm_undisturbed assms(2), of digest snapshots uid now r current d] assms(1) by simp
  assume "needs_event snapshots d current r"
  then obtain subject pinned d' where n: "current = Some subject" "d = Some d'" "pinned_evidence_components snapshots r = Some pinned"
      "changed_components pinned (sj_evidence_components subject) \<noteq> []" by (auto simp: needs_event_def)
  let ?e = "supersession_event digest uid now d' r pinned subject"
  obtain q where q: "append_decision_lifecycle_event undisturbed s ?e = (Inr q, t)"
    using assms(1) n by (auto simp: trace_one_def Let_def split: sum.split_asm prod.split_asm)
  then obtain x where known: "get_decision_record s (le_decision_id ?e) = Inr x" and ins: "insert_lifecycle_event s ?e = Inr (q, t)"
    by (auto simp: append_decision_lifecycle_event_def split: sum.split_asm prod.split_asm)
  have "le_dedupe_key (fst q) = traced_key digest r subject"
    using insert_lifecycle_event_kept(3) [OF ins assms(2)] get_known [OF known] by (simp add: supersession_event_def Let_def traced_key_def)
  with insert_lifecycle_event_kept(2) [OF ins assms(2)] get_known [OF known] n(1)
  show "event_recorded digest t r current" by (force simp: event_recorded_def)
qed

lemma trace_run_records:
  "trace_records digest undisturbed definitions subjects snapshots uids now s rs acc = (Inr p, t) \<Longrightarrow> ledger_inv s \<Longrightarrow>
     ledger_kept s t \<and> (\<forall>r \<in> set rs. let current = subjects (dn_decision_key r) (dn_subject_period r) in
       needs_event snapshots (definitions (dn_decision_key r)) current r \<longrightarrow> event_recorded digest t r current)"
proof (induction rs arbitrary: s acc)
  case Nil
  then show ?case by (cases acc) (auto simp: ledger_kept_refl)
next
  case (Cons r rs)
  obtain results affected where acc: "acc = (results, affected)" by fastforce
  let ?current = "subjects (dn_decision_key r) (dn_subject_period r)"
  obtain y u where one: "trace_one digest undisturbed snapshots (uids (length results)) now s r ?current (definitions (dn_decision_key r)) = (y, u)"
    by fastforce
  with Cons.prems(1) obtain result publications where y: "y = Inr (result, publications)"
    and rest: "trace_records digest undisturbed definitions subjects snapshots uids now u rs (results @ [result], affected @ publications) = (Inr p, t)"
    by (auto simp: acc simp del: undisturbed_same(1) split: sum.split_asm)
  note first = trace_one_records [OF one [unfolded y] Cons.prems(2)]
  note later = Cons.IH [OF rest ledger_keptD(1) [OF first(1)]]
  have "ledger_kept s t" using ledger_kept_trans [OF first(1)] later by blast
  moreover have "event_recorded digest t r ?current" if "needs_event snapshots (definitions (dn_decision_key r)) ?current r"
    using recorded_grows [OF first(2) [OF that]] later ledger_keptD(2) by blast
  ultimately show ?case using later by (simp add: Let_def)
qed

lemma trace_one_again:
  assumes "needs_event snapshots d current r \<longrightarrow> event_recorded digest s r current"
    and "get_decision_record s (dn_decision_id r) = Inr q"
  shows "\<exists>z ps. trace_one digest undisturbed snapshots uid now s r current d = (Inr (z, ps), s) \<and> tz_status z \<noteq> Superseded_evidence"
proof (cases "needs_event snapshots d current r")
  case False
  then show ?thesis
    by (auto simp: needs_event_def trace_one_def trace_base_def Let_def split: option.split)
next
  case True
  then obtain subject pinned d' where n: "current = Some subject" "d = Some d'" "pinned_evidence_components snapshots r = Some pinned"
      "changed_components pinned (sj_evidence_components subject) \<noteq> []" by (auto simp: needs_event_def)
  let ?e = "supersession_event digest uid now d' r pinned subject"
  have key: "le_dedupe_key ?e = traced_key digest r subject" "le_decision_id ?e = dn_decision_id r"
    by (simp_all add: supersession_event_def Let_def traced_key_def)
  have "le_dedupe_key ?e \<in> le_dedupe_key ` set (lg_events s)" using assms(1) True n(1) by (simp add: event_recorded_def key)
  then obtain stored where "List.find (\<lambda>x. le_dedupe_key x = le_dedupe_key ?e) (lg_events s) = Some stored"
    using find_id_None [of le_dedupe_key "le_dedupe_key ?e" "lg_events s"] by fastforce
  then have "append_decision_lifecycle_event undisturbed s ?e = (Inr (stored, False), s)"
    using assms(2) by (simp add: append_decision_lifecycle_event_def insert_lifecycle_event_def key(2))
  with n show ?thesis by (simp add: trace_one_def trace_base_def Let_def)
qed

lemma trace_run_again:
  "(\<And>r. r \<in> set rs \<Longrightarrow> (\<exists>q. get_decision_record s (dn_decision_id r) = Inr q) \<and>
      (let current = subjects (dn_decision_key r) (dn_subject_period r) in
       needs_event snapshots (definitions (dn_decision_key r)) current r \<longrightarrow> event_recorded digest s r current)) \<Longrightarrow>
     (\<forall>z \<in> set (fst acc). tz_status z \<noteq> Superseded_evidence) \<Longrightarrow>
     \<exists>results affected. trace_records digest undisturbed definitions subjects snapshots uids now s rs acc = (Inr (results, affected), s) \<and>
       (\<forall>z \<in> set results. tz_status z \<noteq> Superseded_evidence)"
proof (induction rs arbitrary: acc)
  case Nil
  then show ?case by (cases acc) auto
next
  case (Cons r rs)
  obtain results affected where acc: "acc = (results, affected)" by fastforce
  obtain q where q: "get_decision_record s (dn_decision_id r) = Inr q" using Cons.prems(1) [of r] by auto
  obtain z ps where one: "trace_one digest undisturbed snapshots (uids (length results)) now s r
      (subjects (dn_decision_key r) (dn_subject_period r)) (definitions (dn_decision_key r)) = (Inr (z, ps), s)" "tz_status z \<noteq> Superseded_evidence"
  proof -
    have "needs_event snapshots (definitions (dn_decision_key r)) (subjects (dn_decision_key r) (dn_subject_period r)) r \<longrightarrow>
        event_recorded digest s r (subjects (dn_decision_key r) (dn_subject_period r))"
      using Cons.prems(1) [of r] by (simp add: Let_def)
    from trace_one_again [OF this q] show ?thesis using that by blast
  qed
  have "\<exists>rr aa. trace_records digest undisturbed definitions subjects snapshots uids now s rs (results @ [z], affected @ ps) = (Inr (rr, aa), s) \<and>
      (\<forall>z \<in> set rr. tz_status z \<noteq> Superseded_evidence)"
    using Cons.prems one(2) by (intro Cons.IH) (auto simp: acc)
  with one(1) show ?case by (simp add: acc del: undisturbed_same(1))
qed

lemma listed_known: "r \<in> set (list_decision_records s k p) \<Longrightarrow> ledger_inv s \<Longrightarrow> get_decision_record s (dn_decision_id r) = Inr r"
proof -
  assume "r \<in> set (list_decision_records s k p)" "ledger_inv s"
  then obtain q where q: "q \<in> set (lg_records s)" "r = joined s q" "distinct (map dn_decision_id (lg_records s))"
    by (auto simp: list_decision_records_def ledger_inv_def)
  have "List.find (\<lambda>x. dn_decision_id x = dn_decision_id q) xs = Some q" if "distinct (map dn_decision_id xs)" "q \<in> set xs" for xs
    using that by (induction xs) auto
  with q show ?thesis by (auto simp: get_Inr joined_def)
qed

section \<open>Outcome references\<close>

lemma sort_snoc_latest:
  assumes "\<forall>y \<in> set A. key y \<le> key x" and "\<forall>y \<in> set B. key y < key x"
  shows "sort_key key (A @ x # B) = sort_key key (A @ B) @ [x]"
proof (rule properties_for_sort_key)
  show "sorted (map key (sort_key key (A @ B) @ [x]))" using assms by (auto simp: sorted_append order_less_imp_le)
  show "filter (\<lambda>y. key k = key y) (sort_key key (A @ B) @ [x]) = filter (\<lambda>y. key k = key y) (A @ x # B)" for k
  proof -
    have "filter (\<lambda>y. key k = key y) B = []" if "key k = key x" using assms(2) that by (auto simp: filter_empty_conv)
    moreover have "filter (\<lambda>y. key k = key y) (sort_key key (A @ B)) = filter (\<lambda>y. key k = key y) (A @ B)"
      using sort_key_stable [of key "key k" "A @ B"] by (simp add: eq_commute)
    ultimately show ?thesis by auto
  qed
qed simp

lemma seen_states_snoc: "seen_states fs es (xs @ [x]) =
    seen_states fs es xs @ [(fs @ observed (xs @ [x]), es @ happened (xs @ [x]), entry_time x)]"
  by (induction fs es xs rule: seen_states.induct) (cases x; simp)+

lemma chain_length: "chain bd r n prev states = Some es \<Longrightarrow> length es = length states"
  by (induction bd r n prev states arbitrary: es rule: chain.induct) (auto simp: bind_eq_Some_conv)

lemma chain_snoc:
  "chain bd r n prev (states @ [(fs, es, t)]) = Some new \<Longrightarrow>
     \<exists>old e. chain bd r n prev states = Some old \<and> new = old @ [e] \<and> ob_revision (en_body e) = n + length states \<and>
       ob_supersedes (en_body e) = (if states = [] then prev else Some (en_event_id (last old))) \<and>
       ob_follow_up_ids (en_body e) = map fu_follow_up_id fs"
proof (induction states arbitrary: n prev new)
  case Nil
  then show ?case by (auto simp: bind_eq_Some_conv envelope_of_def Let_def outcome_body_of_def)
next
  case (Cons a states)
  obtain fs' es' t' where a: "a = (fs', es', t')" by (cases a) auto
  with Cons.prems obtain as_of e rest where e: "date_of_instant t' = Some as_of" "envelope_of bd r fs' es' n prev as_of = Some e"
    "chain bd r (Suc n) (Some (en_event_id e)) (states @ [(fs, es, t)]) = Some rest" "new = e # rest"
    by (auto simp: bind_eq_Some_conv)
  from Cons.IH [OF e(3)] obtain old x where old: "chain bd r (Suc n) (Some (en_event_id e)) states = Some old" "rest = old @ [x]"
    "ob_revision (en_body x) = Suc n + length states"
    "ob_supersedes (en_body x) = (if states = [] then Some (en_event_id e) else Some (en_event_id (last old)))"
    "ob_follow_up_ids (en_body x) = map fu_follow_up_id fs" by blast
  have "old = [] \<longleftrightarrow> states = []" using chain_length [OF old(1)] by auto
  with a e old show ?case by auto
qed

lemma build_snoc:
  assumes "sort_key entry_rank (map Observed fs' @ map Happened es') = sort_key entry_rank (map Observed fs @ map Happened es) @ [x]"
    and "build_outcome_references bd r fs' es' = Some new"
  shows "\<exists>old e. build_outcome_references bd r fs es = Some old \<and> new = old @ [e] \<and> ob_revision (en_body e) = Suc (length old) \<and>
    ob_supersedes (en_body e) = Some (en_event_id (last old)) \<and>
    ob_follow_up_ids (en_body e) = map fu_follow_up_id (observed (sort_key entry_rank (map Observed fs' @ map Happened es')))"
proof -
  let ?states = "([], [], dn_created_at r) # seen_states [] [] (sort_key entry_rank (map Observed fs @ map Happened es))"
  have "chain bd r 1 None (?states @ [(observed (sort_key entry_rank (map Observed fs' @ map Happened es')),
      happened (sort_key entry_rank (map Observed fs' @ map Happened es')), entry_time x)]) = Some new"
    using assms(2) by (simp add: build_outcome_references_def assms(1) seen_states_snoc)
  from chain_snoc [OF this] obtain old e where "chain bd r 1 None ?states = Some old" "new = old @ [e]"
    "ob_revision (en_body e) = 1 + length ?states" "ob_supersedes (en_body e) = Some (en_event_id (last old))"
    "ob_follow_up_ids (en_body e) = map fu_follow_up_id (observed (sort_key entry_rank (map Observed fs' @ map Happened es')))" by auto
  with chain_length [OF this(1)] show ?thesis by (simp add: build_outcome_references_def)
qed

lemma references_extended:
  assumes "\<forall>g \<in> set fs. fu_observed_at g < fu_observed_at f" and "\<forall>e \<in> set es. le_occurred_at e < fu_observed_at f"
    and "build_outcome_references bd r (fs @ [f]) es = Some new"
  shows "\<exists>old e. build_outcome_references bd r fs es = Some old \<and> new = old @ [e] \<and> ob_revision (en_body e) = Suc (length old) \<and>
    ob_supersedes (en_body e) = Some (en_event_id (last old)) \<and> last (ob_follow_up_ids (en_body e)) = fu_follow_up_id f"
proof -
  have "sort_key entry_rank (map Observed fs @ Observed f # map Happened es) = sort_key entry_rank (map Observed fs @ map Happened es) @ [Observed f]"
    using assms(1,2) by (intro sort_snoc_latest) (auto simp: less_eq_prod_def less_prod_def)
  then have step: "sort_key entry_rank (map Observed (fs @ [f]) @ map Happened es) = sort_key entry_rank (map Observed fs @ map Happened es) @ [Observed f]"
    by simp
  from build_snoc [OF step assms(3)] show ?thesis unfolding step by auto
qed

lemma event_extends_references:
  assumes "\<forall>g \<in> set fs. fu_observed_at g \<le> le_occurred_at x" and "\<forall>e \<in> set es. le_occurred_at e \<le> le_occurred_at x"
    and "build_outcome_references bd r fs (es @ [x]) = Some new"
  shows "\<exists>old e. build_outcome_references bd r fs es = Some old \<and> new = old @ [e] \<and> ob_revision (en_body e) = Suc (length old) \<and>
    ob_supersedes (en_body e) = Some (en_event_id (last old))"
proof -
  have "sort_key entry_rank ((map Observed fs @ map Happened es) @ Happened x # []) = sort_key entry_rank ((map Observed fs @ map Happened es) @ []) @ [Happened x]"
    using assms(1,2) by (intro sort_snoc_latest) (auto simp: less_eq_prod_def)
  then have "sort_key entry_rank (map Observed fs @ map Happened (es @ [x])) = sort_key entry_rank (map Observed fs @ map Happened es) @ [Happened x]"
    by simp
  from build_snoc [OF this assms(3)] show ?thesis by blast
qed

lemma followed_up:
  assumes "record_follow_up undisturbed uid now s a request actor = (Inr f, t)"
  shows "lg_follow_ups t = lg_follow_ups s @ [f]" and "lg_events t = lg_events s" and "fu_decision_id f = a"
proof -
  obtain r g where r: "get_decision_record s a = Inr r" "prepare_follow_up r uid now request actor = Inr g"
      and "add_decision_follow_up undisturbed s g = (Inr f, t)"
    using assms by (auto simp: record_follow_up_def Let_def and_then_Inr_iff split: sum.split_asm)
  then have ins: "insert_follow_up s f = Inr t" and "g = f"
    by (auto simp: add_decision_follow_up_def Let_def split: sum.split_asm)
  show "lg_follow_ups t = lg_follow_ups s @ [f]" and "lg_events t = lg_events s"
    using ins by (auto simp: insert_follow_up_def split: if_split_asm)
  have "fu_decision_id g = dn_decision_id r"
    using r(2) by (auto simp: prepare_follow_up_def and_then_Inr_iff split: option.split_asm if_split_asm prod.split_asm)
  with get_known [OF r(1)] \<open>g = f\<close> show "fu_decision_id f = a" by simp
qed

end
