(* ===== verification/DecisionRoutes.thy ===== *)
theory DecisionRoutes
  imports DecisionRules DecisionRevisions ProposalRoutes AuthClaims
begin

text \<open>
  The decision routes (\<open>apps/api/routes/decision_routes.py\<close>): the actor of a request, how errors become
  answers, and the handlers; a request's validation of single fields is left to the request models.
  \<open>available\<close> says whether the control plane has a ledger, and no reader of subjects is a deployment
  without the reporting layer.
\<close>

section \<open>Answers\<close>

definition strip_quotes :: "string \<Rightarrow> string" where
  \<comment> \<open>quotation marks at both ends\<close>
  "strip_quotes t = (let q = (\<lambda>c. c = char_of (39::nat) \<or> c = char_of (34::nat)) in rev (dropWhile q (rev (dropWhile q t))))"

definition no_ledger :: response where
  "no_ledger = response_of 404 ''The control plane has no decision ledger.''"

definition unknown_decision :: response where
  "unknown_decision = response_of 404 ''Unknown decision.''"

fun creation_answer :: "decision_error \<Rightarrow> response" where
  "creation_answer (Lookup_error detail) = response_of 404 (strip_quotes detail)"
| "creation_answer (Key_error detail) = response_of 404 (strip_quotes (py_repr detail))"
| "creation_answer (Authorization_error detail) = response_of 403 detail"
| "creation_answer (Subject_conflict detail) = response_of 409 detail"
| "creation_answer (Validation_error detail) = response_of 422 detail"
| "creation_answer _ = server_error"

fun follow_up_answer :: "decision_error \<Rightarrow> response" where
  "follow_up_answer (Key_error _) = unknown_decision"
| "follow_up_answer (Validation_error detail) = response_of 422 detail"
| "follow_up_answer _ = server_error"

fun lifecycle_answer :: "decision_error \<Rightarrow> response" where
  "lifecycle_answer (Key_error _) = unknown_decision"
| "lifecycle_answer (Authorization_error detail) = response_of 403 detail"
| "lifecycle_answer (State_conflict detail) = response_of 409 detail"
| "lifecycle_answer (Validation_error detail) = response_of 422 detail"
| "lifecycle_answer _ = server_error"

section \<open>Handlers\<close>

definition answered :: "(decision_error \<Rightarrow> response) \<Rightarrow> (decision_error + 'a) \<times> ledger \<Rightarrow> (response + 'a) \<times> ledger" where
  "answered f x = map_prod (answer_with f) id x"

definition create_decision :: "bool \<Rightarrow> (string \<Rightarrow> string) \<Rightarrow> others \<Rightarrow> subject_reader option \<Rightarrow> string \<Rightarrow> int \<Rightarrow> ledger \<Rightarrow> principal option \<Rightarrow>
  decision_request \<Rightarrow> (response + decision) \<times> ledger" where
  "create_decision available digest others reporting uid now s p body =
     (if \<not> available then (Inl no_ledger, s)
      else (case reporting of
        None \<Rightarrow> (Inl (response_of 404 ''Recording a decision requires the reporting layer.''), s)
      | Some subjects \<Rightarrow> answered creation_answer
          (record_decision digest others get_decision_definition subjects uid now s body (actor_from_principal p))))"

definition create_decision_follow_up :: "bool \<Rightarrow> others \<Rightarrow> string \<Rightarrow> int \<Rightarrow> ledger \<Rightarrow> principal option \<Rightarrow> string \<Rightarrow> follow_up_request \<Rightarrow>
  (response + follow_up) \<times> ledger" where
  "create_decision_follow_up available others uid now s p a body =
     (if \<not> available then (Inl no_ledger, s)
      else answered follow_up_answer (record_follow_up others uid now s a body (actor_from_principal p)))"

definition stop_decision_commitment :: "bool \<Rightarrow> others \<Rightarrow> string \<Rightarrow> int \<Rightarrow> ledger \<Rightarrow> principal option \<Rightarrow> string \<Rightarrow> string \<Rightarrow> string \<Rightarrow>
  (response + lifecycle_event) \<times> ledger" where
  "stop_decision_commitment available others uid now s p a key reason =
     (if \<not> available then (Inl no_ledger, s)
      else answered lifecycle_answer (stop_commitment others get_decision_definition uid now s a key reason (actor_from_principal p)))"

definition reopen_decision_commitment :: "bool \<Rightarrow> others \<Rightarrow> string \<Rightarrow> int \<Rightarrow> ledger \<Rightarrow> principal option \<Rightarrow> string \<Rightarrow> string \<Rightarrow>
  (response + lifecycle_event) \<times> ledger" where
  "reopen_decision_commitment available others uid now s p a reason =
     (if \<not> available then (Inl no_ledger, s)
      else answered lifecycle_answer (reopen_commitment others get_decision_definition uid now s a reason (actor_from_principal p)))"

definition trace_decision_evidence :: "bool \<Rightarrow> (string \<Rightarrow> string) \<Rightarrow> others \<Rightarrow> subject_reader option \<Rightarrow> snapshot_components \<Rightarrow> (nat \<Rightarrow> string) \<Rightarrow>
  int \<Rightarrow> ledger \<Rightarrow> string option \<Rightarrow> (response + (trace_result list \<times> string list)) \<times> ledger" where
  "trace_decision_evidence available digest others reporting snapshots uids now s key =
     (if \<not> available then (Inl no_ledger, s)
      else (case reporting of
        None \<Rightarrow> (Inl (response_of 404 ''Decision evidence requires the reporting layer.''), s)
      | Some subjects \<Rightarrow> answered (\<lambda>_. server_error)
          (trace_evidence_corrections digest others get_decision_definition subjects snapshots uids now s key)))"

definition get_decision :: "bool \<Rightarrow> ledger \<Rightarrow> string \<Rightarrow> response + decision" where
  "get_decision available s a =
     (if \<not> available then Inl no_ledger else answer_with (\<lambda>_. unknown_decision) (get_decision_record s a))"

definition get_outcome_reference :: "bool \<Rightarrow> (outcome_body \<Rightarrow> string) \<Rightarrow> ledger \<Rightarrow> string \<Rightarrow> response + (envelope \<times> envelope list)" where
  "get_outcome_reference available body_digest s a =
     (if \<not> available then Inl no_ledger
      else answer_with (\<lambda>e. case e of Key_error _ \<Rightarrow> unknown_decision | _ \<Rightarrow> server_error) (latest_outcome_reference body_digest s a))"

definition list_decision_reviews :: "bool \<Rightarrow> ledger \<Rightarrow> date \<Rightarrow> string option \<Rightarrow> response + review_row list" where
  "list_decision_reviews available s today key =
     (if \<not> available then Inl no_ledger
      else (case list_commitment_reviews s today key of None \<Rightarrow> Inl server_error | Some rows \<Rightarrow> Inr rows))"

definition list_outcome_references :: "bool \<Rightarrow> (outcome_body \<Rightarrow> string) \<Rightarrow> ledger \<Rightarrow> string option \<Rightarrow> bool \<Rightarrow> response + (envelope \<times> bool) list" where
  "list_outcome_references available body_digest s key latest_only =
     (if \<not> available then Inl no_ledger
      else (case outcome_reference_feed body_digest s key (\<not> latest_only) of None \<Rightarrow> Inl server_error | Some events \<Rightarrow> Inr events))"

section \<open>A decision behind the gate\<close>

definition create_over_http :: "auth_env \<Rightarrow> request \<Rightarrow> int \<Rightarrow> gate_state \<Rightarrow> (string \<Rightarrow> string) \<Rightarrow> others \<Rightarrow> subject_reader option \<Rightarrow> string \<Rightarrow> int \<Rightarrow>
  ledger \<Rightarrow> decision_request \<Rightarrow> (response + decision) \<times> ledger" where
  "create_over_http env rq now gs digest others reporting uid t s body =
     (case gate env rq now gs of
        Inl _ \<Rightarrow> (Inl server_error, s)
      | Inr (None, _) \<Rightarrow> (Inl server_error, s)
      | Inr (Some (Stopped r), _) \<Rightarrow> (Inl r, s)
      | Inr (Some (Passed p), _) \<Rightarrow> create_decision True digest others reporting uid t s p body)"

lemma answer_with_Inr: "answer_with f x = Inr y \<longleftrightarrow> x = Inr y"
  by (cases x) (simp_all add: answer_with_def)

lemma created_decision:
  assumes "create_decision available digest others reporting uid now s p body = (Inr r, t)"
  obtains subjects where "record_decision digest others get_decision_definition subjects uid now s body (actor_from_principal p) = (Inr r, t)"
  using assms by (cases "record_decision digest others get_decision_definition (the reporting) uid now s body (actor_from_principal p)")
    (auto simp: create_decision_def answered_def answer_with_Inr split: if_split_asm option.split_asm)

lemma recorded_actor:
  assumes "record_decision digest others definitions subjects uid now s body actor = (Inr r, t)" and "ledger_inv s" and "calm_others others"
  shows "dn_actor r = actor" and "get_decision_record t (dn_decision_id r) = Inr r"
    and "ac_authenticated actor \<Longrightarrow> dn_commitment r \<noteq> None \<and> cm_owner_verified (the (dn_commitment r))"
proof -
  obtain q where prepared: "prepare_decision digest definitions subjects uid now body actor = Inr q"
    and made: "create_decision_record others s q = (Inr r, t)"
    using assms(1) by (auto simp: record_decision_def split: sum.splits)
  note own = prepared_commitment [OF prepared]
  have r: "r = q" "get_decision_record t (dn_decision_id r) = Inr r"
    using create_kept(2) [OF assms(2,3) own, of r] made by auto
  then show "get_decision_record t (dn_decision_id r) = Inr r" by simp
  obtain d option subject verified timing dates where v: "check_owner (ow_role (df_owner d)) (ow_principal (df_owner d)) actor = Inr verified"
    and q: "q = new_decision digest d option subject uid now verified body actor timing dates"
    by (rule prepare_decisionE [OF prepared]) blast
  show "dn_actor r = actor" by (simp add: r(1) q new_decision_def)
  assume "ac_authenticated actor"
  then have verified using check_ownerD(1) [OF v] by simp
  then show "dn_commitment r \<noteq> None \<and> cm_owner_verified (the (dn_commitment r))"
    by (cases dates) (simp add: r(1) q new_decision_def new_commitment_def)
qed

lemma recorded_owner:
  assumes "record_decision digest others get_decision_definition subjects uid now s body actor = (Inr r, t)" and "ledger_inv s" and "calm_others others"
  shows "ac_authenticated actor \<longrightarrow> (\<exists>role. ac_role actor = Some (role_value role) \<and> has_required_role role Operator)"
proof -
  obtain q where prepared: "prepare_decision digest get_decision_definition subjects uid now body actor = Inr q"
    using assms(1) by (auto simp: record_decision_def split: sum.splits)
  show ?thesis by (rule prepare_decisionE [OF prepared]) (blast dest: declared_operator)
qed

lemma decision_role:
  assumes "below path ''/control/decisions''" and "request_method (Some m) \<notin> {''GET'', ''HEAD''}"
  shows "required_role_for_request API_ROUTE_POLICY_CATALOG path (Some m) = Some Operator"
  using assms(2) by (cases rule: below_cases [OF assms(1)]; simp add: catalog_defs match_defs lookup_defs decision_read_def)

lemma passed_decision:
  assumes "gate env rq now gs = Inr (Some (Passed p), gs')" and "en_auth_mode env \<noteq> ''disabled''" and "en_policies env = API_ROUTE_POLICY_CATALOG"
    and "below (rq_path rq) ''/control/decisions''" and "request_method (Some (rq_method rq)) \<notin> {''GET'', ''HEAD''}"
  obtains q where "p = Some q" and "has_required_permission (context_of q) (Some PERMISSION_CONTROL_DECISIONS_WRITE)"
    and "au_auth_provider q \<noteq> ''service_token''"
proof -
  let ?role = "required_role_for_request API_ROUTE_POLICY_CATALOG (rq_path rq) (Some (rq_method rq))"
  have needed: "required_permission_for_request API_ROUTE_POLICY_CATALOG (rq_path rq) (rq_query rq) (Some (rq_method rq)) = Some PERMISSION_CONTROL_DECISIONS_WRITE"
    using decision_needs(2) [OF assms(4)] assms(5) by simp
  have ok: "authorize_request p ?role (required_scope_for_request API_ROUTE_POLICY_CATALOG (rq_path rq) (Some (rq_method rq)))
      (Some PERMISSION_CONTROL_DECISIONS_WRITE) (en_unsafe_admin env) = None"
    by (rule gate_passed [OF assms(1,2)]) (simp only: assms(3) needed)
  have role: "?role = Some Operator" by (rule decision_role [OF assms(4,5)])
  have writing: "PERMISSION_CONTROL_DECISIONS_WRITE \<in> set decided_permissions" by (simp add: decided_permissions_def)
  show ?thesis
  proof (cases p)
    case None
    with ok role show ?thesis by (simp add: authorize_request_def)
  next
    case (Some q)
    with ok role have permitted: "has_required_permission (context_of q) (Some PERMISSION_CONTROL_DECISIONS_WRITE)"
      by (simp add: authorize_request_def Let_def split: if_split_asm)
    have "au_auth_provider q \<noteq> ''service_token''"
      using token_grants_exactly(1) [of q PERMISSION_CONTROL_DECISIONS_WRITE] never_granted permitted writing
      by (auto simp: exact_permissions_def list_all_iff)
    with Some permitted show ?thesis by (rule that)
  qed
qed

end
