(* ===== verification/DecisionClaims.thy ===== *)
theory DecisionClaims
  imports DecisionRules DecisionRevisions
begin

text \<open>Properties of recorded decisions and of the derived state of a commitment.\<close>

section \<open>Samples\<close>

definition sample_owner :: decision_actor where
  "sample_owner = \<lparr> ac_actor = ''ann'', ac_role = Some ''operator'', ac_auth_provider = ''local'', ac_authenticated = True \<rparr>"

definition sample_subject :: "json \<Rightarrow> subject_evidence" where
  "sample_subject cost = \<lparr> sj_publication_key = ''mart_battery_plan_outcome'', sj_schema_version = ''1.0.0'', sj_period = ''2026-04'',
     sj_row_ref = ''bpo_1'', sj_verdict = ''review'', sj_reason_codes = [], sj_lineage_reference = [(''assessment_id'', JStr ''bpo_1'')],
     sj_snapshot = JNull, sj_baseline = [], sj_evidence_components = [(''cost_basis'', cost)] \<rparr>"

definition sample_decision_request :: decision_request where
  "sample_decision_request = \<lparr> rd_decision_key = ''kotiakku_battery_plan_review'', rd_subject_period = ''2026-04'',
     rd_outcome = ''keep_current_plan'', rd_rationale = ''it pays'', rd_evidence_gaps_acknowledged = [], rd_uncertainty = None,
     rd_subject_row_ref = Some ''bpo_1'', rd_follow_up_due_on = None, rd_decided_at = None, rd_retrospective_basis = None \<rparr>"

definition day_start :: "int \<Rightarrow> int" where
  \<comment> \<open>midnight of a day counted from 1 May 2026\<close>
  "day_start n = (20574 + n) * 86400000000"

definition sample_definition :: decision_definition where
  "sample_definition = \<lparr> df_decision_key = ''kotiakku_battery_plan_review'', df_version = ''1'', df_question = [], df_subject_publication_key = ''m'',
     df_evidence_window = [], df_evidence_that_could_change_decision = [], df_insufficient_evidence_criteria = [],
     df_outcome_options = [\<lparr> oo_key = ''keep_current_plan'', oo_label = [], oo_is_non_decision = False \<rparr>,
       \<lparr> oo_key = ''defer'', oo_label = [], oo_is_non_decision = True \<rparr>],
     df_authorization_boundary = [], df_supporting_publication_keys = [], df_subject_period_label = [], df_purpose = ''p'',
     df_owner = \<lparr> ow_role = ''operator'', ow_principal = None, ow_description = [] \<rparr>,
     df_baseline = \<lparr> bl_description = [], bl_value_keys = [] \<rparr>,
     df_success_measure = \<lparr> sm_key = ''k'', sm_description = [], sm_unit = [], sm_comparison = At_least, sm_threshold = Dec 0 0,
       sm_accepted_value_statuses = [''observed''] \<rparr>,
     df_observation_window = \<lparr> wn_description = [], wn_kind = Calendar_months_after_decision, wn_length = 1, wn_review_grace_days = 14,
       wn_review_cadence_days = 30 \<rparr>,
     df_evidence_components = [\<lparr> vc_key = ''cost_basis'', vc_label = ''Cost'', vc_correction_kind = ''cost_basis'' \<rparr>],
     df_review_triggers = [\<lparr> rt_key = ''closed'', rt_description = [], rt_kind = Timed, rt_evidence_components = [] \<rparr>],
     df_stop_conditions = [\<lparr> sp_key = ''purpose_expired'', sp_description = [], sp_outcome_keys = [], sp_reason_codes = [] \<rparr>] \<rparr>"

definition sample_definitions :: definition_lookup where
  "sample_definitions key = (if key = df_decision_key sample_definition then Some sample_definition else None)"

section \<open>Properties\<close>

text \<open>C36: A recorded decision keeps the rules: it answers a declared decision with one of its outcomes on the
  current row of the subject, the one the caller reviewed if any was named; evidence marked insufficient
  was acknowledged; an authenticated actor has at least the owner's role, operator for every
  declared decision, while an actor without authentication is recorded as an unverified owner; the observation window lies after the
  day of the decision and the follow-up is not due before it closes; a decision is never dated in the
  future; and the record that is read back carries the commitment with the definition's terms.
  The ledger is well-formed, and other sessions may only add to it between the steps.\<close>
theorem recorded_decision_is_sound:
  assumes "ledger_inv s" and "calm_others others"
    and "record_decision digest others get_decision_definition subjects uid now s request actor = (Inr r, t)"
  shows "\<exists>d option subject c decided_on. get_decision_definition (rd_decision_key request) = Some d \<and>
    find_outcome d (rd_outcome request) = Some option \<and> dn_outcome r = oo_key option \<and>
    subjects (rd_decision_key request) (rd_subject_period request) = Some subject \<and>
    dn_subject_row_ref r = sj_row_ref subject \<and> rd_subject_row_ref request \<in> {None, Some (dn_subject_row_ref r)} \<and>
    (sj_reason_codes subject \<noteq> [] \<or> sj_verdict subject = ''insufficient_evidence'' \<longrightarrow> dn_evidence_gaps_acknowledged r \<noteq> []) \<and>
    (ac_authenticated actor \<longrightarrow> (\<exists>role. ac_role actor = Some (role_value role) \<and> has_required_role role Operator)) \<and>
    dn_commitment r = Some c \<and> cm_owner_verified c = ac_authenticated actor \<and> cm_stop_conditions c = df_stop_conditions d \<and>
    decided_on_date (rd_decided_at request) now = Inr decided_on \<and> decided_on < cm_observation_window_start c \<and>
    cm_observation_window_start c \<le> cm_observation_window_end c \<and> cm_observation_window_end c \<le> cm_next_review_due_on c \<and>
    cm_next_review_due_on c = dn_follow_up_due_on r \<and> effective_decided_at r \<le> now \<and>
    ledger_kept s t \<and> get_decision_record t (dn_decision_id r) = Inr r"
proof -
  obtain q where prepared: "prepare_decision digest get_decision_definition subjects uid now request actor = Inr q"
    and made: "create_decision_record others s q = (Inr r, t)"
    using assms(3) by (auto simp: record_decision_def split: sum.splits)
  note own = prepared_commitment [OF prepared]
  have stored: "r = q" "get_decision_record t (dn_decision_id r) = Inr r" "ledger_kept s t"
    using create_kept(2) [OF assms(1,2) own, of r] create_kept(1) [OF assms(1,2) own] made by auto
  obtain d option subject verified timing decided_on dates where
    d: "get_decision_definition (rd_decision_key request) = Some d" "find_outcome d (rd_outcome request) = Some option"
      "check_owner (ow_role (df_owner d)) (ow_principal (df_owner d)) actor = Inr verified"
      "subjects (rd_decision_key request) (rd_subject_period request) = Some subject"
      "rd_subject_row_ref request \<in> {None, Some (sj_row_ref subject)}"
      "\<not> evidence_gap_missing subject (clean_gaps (rd_evidence_gaps_acknowledged request))"
      "decision_time request now = Inr timing" "decided_on_date (fst timing) now = Inr decided_on"
      "review_dates d (rd_follow_up_due_on request) decided_on = Inr dates"
    and q: "q = new_decision digest d option subject uid now verified request actor timing dates"
    by (rule prepare_decisionE [OF prepared]) blast
  have "window_ok (df_observation_window d)"
    using known_definition_ok [OF d(1)] by (simp add: definition_ok_def Let_def)
  from d(9) decided_on_valid [OF d(8)] this obtain a b due where
    dates: "dates = (a, b, due)" "decided_on < a" "a \<le> b" "b \<le> due" by (rule review_datesE)
  note owner = check_ownerD [OF d(3)] and timely = decision_timeD [OF d(7)]
  note declared_operator [OF d(1,3)]
  moreover have "decided_on_date (rd_decided_at request) now = Inr decided_on"
    using d(7,8) by (auto simp: decision_time_def Let_def split: option.splits moment.splits if_split_asm)
  moreover have "effective_decided_at r \<le> now"
    using timely by (auto simp: stored(1) q new_decision_def effective_decided_at_def split: option.splits moment.splits)
  moreover have "dn_outcome r = oo_key option" "dn_subject_row_ref r = sj_row_ref subject"
    "dn_evidence_gaps_acknowledged r = clean_gaps (rd_evidence_gaps_acknowledged request)"
    "dn_commitment r = Some (new_commitment digest d option subject (''dec_'' @ uid) verified dates now)" "dn_follow_up_due_on r = due"
    by (simp_all add: stored(1) q new_decision_def dates(1))
  moreover have "sj_reason_codes subject \<noteq> [] \<or> sj_verdict subject = ''insufficient_evidence'' \<longrightarrow> clean_gaps (rd_evidence_gaps_acknowledged request) \<noteq> []"
    using d(6) by (auto simp: evidence_gap_missing_def)
  ultimately show ?thesis
    using d(1,2,4,5) owner(1) dates stored(2,3)
    by (intro exI [of _ d] exI [of _ option] exI [of _ subject] exI [of _ decided_on]
      exI [of _ "new_commitment digest d option subject (''dec_'' @ uid) verified dates now"])
      (simp add: new_commitment_def)
qed

theorem recorded_decision_is_sound_witness:
  "\<exists>r t c. record_decision (\<lambda>s. s) undisturbed get_decision_definition (\<lambda>_ _. Some (sample_subject JNull)) ''1'' (day_start 0) empty_ledger
      sample_decision_request sample_owner = (Inr r, t) \<and> dn_commitment r = Some c \<and> cm_observation_window_end c \<le> dn_follow_up_due_on r \<and>
      get_decision_record t (dn_decision_id r) = Inr r"
proof -
  let ?call = "record_decision (\<lambda>s. s) undisturbed get_decision_definition (\<lambda>_ _. Some (sample_subject JNull)) ''1'' (day_start 0) empty_ledger
      sample_decision_request sample_owner"
  have "case ?call of (Inl _, _) \<Rightarrow> False | (Inr _, _) \<Rightarrow> True" by code_simp
  then obtain r t where rt: "?call = (Inr r, t)" by (auto split: prod.splits sum.splits)
  from recorded_decision_is_sound [OF ledger_inv_empty calm_undisturbed rt] show ?thesis using rt by auto
qed

text \<open>C37: The state shown for a commitment is this: stopped exactly when its last stop is not followed by a
  reopening; otherwise under required review exactly when some supersession of its evidence is not older
  than every follow-up; otherwise due exactly when today reaches the latest of the first review date and
  the cadence after each follow-up and reopening; otherwise in force.\<close>
theorem commitment_state_exact:
  assumes "load_lifecycle s r today = Some v"
  shows "lv_state v =
    (let events = list_decision_lifecycle_events s (dn_decision_id r); follow_ups = list_decision_follow_ups s (dn_decision_id r);
         (cadence, due) = review_terms r in
     if is_stopped events then Stopped_now
     else if \<exists>e \<in> set events. le_kind e = Evidence_superseded \<and> (\<forall>f \<in> set follow_ups. fu_observed_at f \<le> le_occurred_at e) then Review_required
     else if Max (insert due (day_after cadence ` (fu_observed_at ` set follow_ups \<union>
       le_occurred_at ` {e \<in> set events. le_kind e = Reopened_by_owner}))) \<le> today then Review_due else In_force)"
proof -
  have "lv_state v = exact_state r (list_decision_follow_ups s (dn_decision_id r)) (list_decision_lifecycle_events s (dn_decision_id r)) today"
    using assms unfolding load_lifecycle_def by (rule derived_state(1) [OF listed_in_order])
  moreover obtain cadence due where "review_terms r = (cadence, due)" by fastforce
  ultimately show ?thesis
    by (simp only: exact_state_def unreviewed_def review_days_def reopenings_def Let_def prod.case fst_conv snd_conv set_filter)
qed

definition sample_ledger :: ledger where
  "sample_ledger = snd (record_decision (\<lambda>s. s) undisturbed sample_definitions (\<lambda>_ _. Some (sample_subject JNull)) ''1'' (day_start 0)
     empty_ledger sample_decision_request sample_owner)"

definition superseded_ledger :: ledger where
  "superseded_ledger = snd (trace_evidence_corrections (\<lambda>s. s) undisturbed sample_definitions
     (\<lambda>_ _. Some (sample_subject (JNum 7))) (\<lambda>_ _. None) (\<lambda>_. ''2'') (day_start 3) sample_ledger None)"

theorem commitment_state_exact_witness:
  "\<exists>r v. get_decision_record superseded_ledger ''dec_1'' = Inr r \<and> load_lifecycle superseded_ledger r (Date 2026 5 5) = Some v \<and>
     lv_state v = Review_required"
proof -
  have "(case get_decision_record superseded_ledger ''dec_1'' of Inl _ \<Rightarrow> False
      | Inr r \<Rightarrow> load_lifecycle superseded_ledger r (Date 2026 5 5) \<noteq> None \<and> dn_decision_id r = ''dec_1'')"
    by code_simp
  then obtain r v where r: "get_decision_record superseded_ledger ''dec_1'' = Inr r" "load_lifecycle superseded_ledger r (Date 2026 5 5) = Some v"
      "dn_decision_id r = ''dec_1''"
    by (auto split: sum.splits)
  have "\<not> is_stopped (list_decision_lifecycle_events superseded_ledger ''dec_1'')"
    "map le_kind (list_decision_lifecycle_events superseded_ledger ''dec_1'') = [Evidence_superseded]"
    "list_decision_follow_ups superseded_ledger ''dec_1'' = []"
    by code_simp+
  then have "lv_state v = Review_required"
    using commitment_state_exact [OF r(2)] by (auto simp: r(3) split: prod.split)
  with r show ?thesis by blast
qed

text \<open>C38: An operator's stop that no other session disturbs, at a time after the decision's earlier events,
  takes effect and lasts: it adds its event to the
  history, and however the ledger grows afterwards, with follow-ups, traces and other decisions, the
  commitment is shown as stopped, with no review date and outside the review queue, until it is
  reopened.\<close>
theorem stop_holds_until_reopened:
  assumes "ledger_inv s" and "rounds_numbered s"
    and "stop_commitment undisturbed definitions uid now s a key reason actor = (Inr e, t)"
    and "\<forall>x \<in> set (lg_events s). le_decision_id x = a \<longrightarrow> le_occurred_at x < now"
    and "grows t u" and "\<forall>x \<in> set (lg_events u). le_decision_id x = a \<and> le_kind x = Reopened_by_owner \<longrightarrow> x \<in> set (lg_events t)"
    and "dn_decision_id r = a" and "load_lifecycle u r today = Some v"
  shows "lg_events t = lg_events s @ [e] \<and> le_reason_code e = key \<and> rounds_numbered t \<and>
    lv_state v = Stopped_now \<and> lv_next_review_due_on v = None \<and> \<not> lv_proactive_review v"
proof -
  note e = stop_appends [OF assms(1-3)]
  let ?es = "list_decision_lifecycle_events u a"
  have "e \<in> set ?es" using assms(5) e(1,3) by (auto simp: list_decision_lifecycle_events_def grows_def prefix_def)
  moreover have "le_occurred_at x < le_occurred_at e" if x: "x \<in> set ?es" "le_kind x = Reopened_by_owner" for x
  proof -
    have "x \<in> set (lg_events u)" "le_decision_id x = a" using x(1) by (simp_all add: list_decision_lifecycle_events_def)
    then have "x \<in> set (lg_events s)" using assms(6) x(2) e(1,2) by auto
    with assms(4) \<open>le_decision_id x = a\<close> e(4) show ?thesis by simp
  qed
  ultimately have stopped: "is_stopped ?es" by (rule stopped_if_latest [OF listed_in_order _ e(2)])
  note shown = derived_state [OF listed_in_order assms(8) [unfolded load_lifecycle_def], unfolded assms(7)]
  have "lv_state v = Stopped_now" "lv_next_review_due_on v = None" "\<not> lv_proactive_review v"
    using shown stopped by (simp_all add: exact_state_def)
  moreover have "rounds_numbered t" using stop_numbered(1) [OF orderly_undisturbed assms(1,2)] assms(3) by (metis snd_conv)
  moreover have "le_reason_code e = key" by (rule e(6))
  ultimately show ?thesis using e(1) by simp
qed

lemma sample_ledger_sound: "ledger_inv sample_ledger" "rounds_numbered sample_ledger"
proof -
  show "ledger_inv sample_ledger" by code_simp
  have "lg_events sample_ledger = []" "list_all (\<lambda>r. CHR '':'' \<notin> set (dn_decision_id r)) (lg_records sample_ledger)" by code_simp+
  then show "rounds_numbered sample_ledger" by (simp add: rounds_numbered_def list_all_iff)
qed

theorem stop_holds_until_reopened_witness:
  "\<exists>e t r v. stop_commitment undisturbed sample_definitions ''2'' (day_start 2) sample_ledger ''dec_1'' ''purpose_expired'' ''moved out'' sample_owner
      = (Inr e, t) \<and> get_decision_record t ''dec_1'' = Inr r \<and> load_lifecycle t r (Date 2027 1 1) = Some v \<and> lv_state v = Stopped_now"
proof -
  let ?call = "stop_commitment undisturbed sample_definitions ''2'' (day_start 2) sample_ledger ''dec_1'' ''purpose_expired'' ''moved out'' sample_owner"
  have "(case ?call of (Inl _, _) \<Rightarrow> False | (Inr _, t) \<Rightarrow> (case get_decision_record t ''dec_1'' of Inl _ \<Rightarrow> False
      | Inr r \<Rightarrow> dn_decision_id r = ''dec_1'' \<and> load_lifecycle t r (Date 2027 1 1) \<noteq> None))" by code_simp
  then obtain e t r v where c: "?call = (Inr e, t)" "get_decision_record t ''dec_1'' = Inr r" "dn_decision_id r = ''dec_1''"
      "load_lifecycle t r (Date 2027 1 1) = Some v" by (auto split: prod.splits sum.splits)
  have "lg_events sample_ledger = []" by code_simp
  with stop_holds_until_reopened [OF sample_ledger_sound c(1) _ grows_refl _ c(3,4)] c show ?thesis by auto
qed

text \<open>C39: A trace that no other session disturbs and that returns settles in one pass: afterwards, for every
  decision that can be traced (its subject is published, its definition declared, its evidence known) and
  whose evidence differs from what it was recorded on, some event under this correction's fingerprint
  key is in the ledger, and tracing the same evidence again, at any time, writes nothing and reports
  nothing as newly superseded.  A correction that returns to evidence seen before shares the key of
  the earlier one and adds no event.\<close>
theorem second_trace_changes_nothing:
  assumes "ledger_inv s"
    and "trace_evidence_corrections digest undisturbed definitions subjects snapshots uids now s key = (Inr report, t)"
  shows "(\<forall>r \<in> set (list_decision_records s key None). \<forall>subject pinned d.
      subjects (dn_decision_key r) (dn_subject_period r) = Some subject \<and> definitions (dn_decision_key r) = Some d \<and>
      pinned_evidence_components snapshots r = Some pinned \<and> changed_components pinned (sj_evidence_components subject) \<noteq> [] \<longrightarrow>
      traced_key digest r subject \<in> le_dedupe_key ` set (lg_events t)) \<and>
    (\<exists>results affected. trace_evidence_corrections digest undisturbed definitions subjects snapshots uids' now' t key = (Inr (results, affected), t) \<and>
      (\<forall>z \<in> set results. tz_status z \<noteq> Superseded_evidence))"
proof -
  have run: "trace_records digest undisturbed definitions subjects snapshots uids now s (list_decision_records s key None) ([], []) = (Inr report, t)"
    using assms(2) unfolding trace_evidence_corrections_def Let_def undisturbed_same .
  note recorded = trace_run_records [OF run assms(1)]
  then have t: "ledger_inv t" by (blast dest: ledger_keptD(1))
  have same: "list_decision_records t key None = list_decision_records s key None"
    using trace_run_only_events [OF run] by (simp add: list_decision_records_def joined_def fun_eq_iff)
  have known: "\<exists>q. get_decision_record t (dn_decision_id r) = Inr q" if "r \<in> set (list_decision_records s key None)" for r
    using listed_known [of r t key None, unfolded same] that t by blast
  have "\<exists>results affected. trace_records digest undisturbed definitions subjects snapshots uids' now' t (list_decision_records t key None) ([], []) =
      (Inr (results, affected), t) \<and> (\<forall>z \<in> set results. tz_status z \<noteq> Superseded_evidence)"
    using recorded known by (intro trace_run_again) (auto simp: same)
  moreover have "event_recorded digest t r (Some subject)"
    if "r \<in> set (list_decision_records s key None)" "subjects (dn_decision_key r) (dn_subject_period r) = Some subject"
      "definitions (dn_decision_key r) = Some d" "pinned_evidence_components snapshots r = Some pinned"
      "changed_components pinned (sj_evidence_components subject) \<noteq> []" for r subject pinned d
    using recorded that by (auto simp: needs_event_def Let_def)
  ultimately show ?thesis
    unfolding trace_evidence_corrections_def Let_def undisturbed_same by (simp add: event_recorded_def)
qed

theorem second_trace_changes_nothing_witness:
  "\<exists>results affected. trace_evidence_corrections (\<lambda>s. s) undisturbed sample_definitions (\<lambda>_ _. Some (sample_subject (JNum 7))) (\<lambda>_ _. None)
     (\<lambda>_. ''3'') (day_start 9) superseded_ledger None = (Inr (results, affected), superseded_ledger)"
proof -
  let ?call = "trace_evidence_corrections (\<lambda>s. s) undisturbed sample_definitions (\<lambda>_ _. Some (sample_subject (JNum 7))) (\<lambda>_ _. None)
     (\<lambda>_. ''2'') (day_start 3) sample_ledger None"
  have "(case ?call of (Inl _, _) \<Rightarrow> False | (Inr _, _) \<Rightarrow> True)" by code_simp
  then obtain report where "?call = (Inr report, superseded_ledger)"
    by (auto simp: superseded_ledger_def split: prod.splits sum.splits)
  from second_trace_changes_nothing [OF sample_ledger_sound(1) this, of "\<lambda>_. ''3''" "day_start 9"] show ?thesis by blast
qed

text \<open>C40: A follow-up observed after everything in a decision's history adds one revision to its outcome
  references: the earlier envelopes stay as they were, and the new one carries the next number and
  supersedes the last.\<close>
theorem follow_up_extends_references:
  assumes "record_follow_up undisturbed uid now s a request actor = (Inr f, t)" and "get_decision_record s a = Inr r"
    and "\<forall>g \<in> set (list_decision_follow_ups s a). fu_observed_at g < fu_observed_at f"
    and "\<forall>e \<in> set (list_decision_lifecycle_events s a). le_occurred_at e < fu_observed_at f"
    and "references_of body_digest t r = Some new"
  shows "\<exists>old e. references_of body_digest s r = Some old \<and> new = old @ [e] \<and> ob_revision (en_body e) = Suc (length old) \<and>
    ob_supersedes (en_body e) = Some (en_event_id (last old)) \<and> last (ob_follow_up_ids (en_body e)) = fu_follow_up_id f"
proof -
  have a: "dn_decision_id r = a" using get_known [OF assms(2)] by simp
  have t: "lg_follow_ups t = lg_follow_ups s @ [f]" "lg_events t = lg_events s" "fu_decision_id f = a"
    by (rule followed_up [OF assms(1)])+
  have "list_decision_follow_ups t a = list_decision_follow_ups s a @ [f]"
    unfolding list_decision_follow_ups_def t(1) using assms(3)
      sort_snoc_latest [of "filter (\<lambda>f. fu_decision_id f = a) (lg_follow_ups s)" "\<lambda>f. (fu_observed_at f, fu_follow_up_id f)" f "[]"]
    by (simp add: t(3) list_decision_follow_ups_def less_eq_prod_def)
  moreover have "list_decision_lifecycle_events t a = list_decision_lifecycle_events s a"
    by (simp add: list_decision_lifecycle_events_def t(2))
  ultimately have "build_outcome_references body_digest r (list_decision_follow_ups s a @ [f]) (list_decision_lifecycle_events s a) = Some new"
    using assms(5) by (simp add: references_of_def a)
  then show ?thesis
    unfolding references_of_def a using assms(3,4) by (intro references_extended) (simp_all add: less_eq_prod_def less_prod_def)
qed

definition sample_follow_up :: "int \<Rightarrow> follow_up_request" where
  "sample_follow_up t = \<lparr> rf_observed_at = Aware t 0, rf_realized_result = ''a bill'', rf_evidence_effect = Some Confirmed_decision,
     rf_observation_period = None, rf_realized_value = Some (Dec 1250 (- 2)), rf_realized_value_status = Some ''observed'', rf_notes = None,
     rf_baseline_value_key = None, rf_estimated_baseline = None, rf_estimated_baseline_basis = None, rf_attribution_hypothesis = None,
     rf_confounders = [], rf_attribution_uncertainty = None, rf_missing_evidence = [], rf_attention_minutes = Some 5 \<rparr>"

theorem follow_up_extends_references_witness:
  "\<exists>f t r old new. record_follow_up undisturbed ''4'' (day_start 5) superseded_ledger ''dec_1'' (sample_follow_up (day_start 4)) sample_owner = (Inr f, t) \<and>
     get_decision_record superseded_ledger ''dec_1'' = Inr r \<and> references_of (\<lambda>_. ''0'') superseded_ledger r = Some old \<and>
     references_of (\<lambda>_. ''0'') t r = Some new \<and> butlast new = old"
proof -
  let ?call = "record_follow_up undisturbed ''4'' (day_start 5) superseded_ledger ''dec_1'' (sample_follow_up (day_start 4)) sample_owner"
  have "(case ?call of (Inl _, _) \<Rightarrow> False | (Inr f, t) \<Rightarrow> fu_observed_at f = day_start 4 \<and> (case get_decision_record superseded_ledger ''dec_1'' of
      Inl _ \<Rightarrow> False | Inr r \<Rightarrow> references_of (\<lambda>_. ''0'') t r \<noteq> None))" by code_simp
  then obtain f t r new where c: "?call = (Inr f, t)" "fu_observed_at f = day_start 4" "get_decision_record superseded_ledger ''dec_1'' = Inr r"
      "references_of (\<lambda>_. ''0'') t r = Some new" by (auto split: prod.splits sum.splits)
  have "list_decision_follow_ups superseded_ledger ''dec_1'' = []"
    "list_all (\<lambda>e. le_occurred_at e < day_start 4) (list_decision_lifecycle_events superseded_ledger ''dec_1'')" by code_simp+
  with follow_up_extends_references [OF c(1,3) _ _ c(4)] c show ?thesis by (auto simp: list_all_iff)
qed

section \<open>Where the ledger departs from its documentation\<close>

definition revision_texts :: "ledger \<Rightarrow> string \<Rightarrow> (string \<times> string list \<times> string list) list" where
  "revision_texts s a = (case get_decision_record s a of Inl _ \<Rightarrow> [] | Inr r \<Rightarrow> (case references_of (\<lambda>_. ''0'') s r of None \<Rightarrow> []
     | Some es \<Rightarrow> map (\<lambda>e. (en_idempotency_key e, ob_follow_up_ids (en_body e), ob_lifecycle_event_ids (en_body e))) es))"

lemma earlier_follow_up_rewrites:
  \<comment> \<open>a follow-up observed before an exported event takes over that event's revision number\<close>
  "revision_texts superseded_ledger ''dec_1'' = [(''hla:outcome:dec_1:r1'', [], []), (''hla:outcome:dec_1:r2'', [], [''dle_2''])] \<and>
   revision_texts (snd (record_follow_up undisturbed ''4'' (day_start 5) superseded_ledger ''dec_1'' (sample_follow_up (day_start 1)) sample_owner)) ''dec_1'' =
     [(''hla:outcome:dec_1:r1'', [], []), (''hla:outcome:dec_1:r2'', [''fup_4''], []), (''hla:outcome:dec_1:r3'', [''fup_4''], [''dle_2''])]"
  by code_simp

definition retraced :: "json \<Rightarrow> int \<Rightarrow> ledger \<Rightarrow> (decision_error + (trace_result list \<times> string list)) \<times> ledger" where
  "retraced cost n s = trace_evidence_corrections (\<lambda>s. s) undisturbed sample_definitions (\<lambda>_ _. Some (sample_subject cost)) (\<lambda>_ _. None)
     (\<lambda>_. nat_text (nat n)) (day_start n) s None"

definition reviewed_ledger :: ledger where
  "reviewed_ledger = snd (retraced JNull 5 (snd (record_follow_up undisturbed ''4'' (day_start 4) superseded_ledger ''dec_1''
     (sample_follow_up (day_start 4)) sample_owner)))"

lemma returning_correction_unseen:
  \<comment> \<open>evidence that differs again in a way reviewed before asks for no review\<close>
  "(case retraced (JNum 7) 6 reviewed_ledger of (Inl _, _) \<Rightarrow> False
    | (Inr (results, _), t) \<Rightarrow> map tz_status results = [Already_recorded] \<and>
        (case get_decision_record t ''dec_1'' of Inl _ \<Rightarrow> False
         | Inr r \<Rightarrow> map_option lv_state (load_lifecycle t r (Date 2026 5 7)) = Some In_force))"
  by code_simp

definition stop_and_reopen :: "nat \<Rightarrow> ledger \<Rightarrow> ledger" where
  \<comment> \<open>another operator stops and reopens before the insertion of a racing stop\<close>
  "stop_and_reopen i s = (if i \<noteq> 3 then s else
     snd (reopen_commitment undisturbed sample_definitions ''6'' (day_start 2 + 2) (snd (stop_commitment undisturbed sample_definitions ''5''
       (day_start 2 + 1) s ''dec_1'' ''purpose_expired'' ''mistake'' sample_owner)) ''dec_1'' ''undone'' sample_owner))"

lemma racing_stop_lost:
  "(case stop_commitment stop_and_reopen sample_definitions ''7'' (day_start 2) sample_ledger ''dec_1'' ''purpose_expired'' ''moved out'' sample_owner of
     (Inl _, _) \<Rightarrow> False
   | (Inr e, t) \<Rightarrow> le_reason e = ''mistake'' \<and> \<not> is_stopped (list_decision_lifecycle_events t ''dec_1''))"
  by code_simp

end
