(* ===== verification/DecisionAccess.thy ===== *)
theory DecisionAccess
  imports DecisionRoutes DecisionClaims
begin

text \<open>A decision from the request's credentials to the stored record.\<close>

text \<open>A decision recorded over HTTP was made by somebody the gate let pass with the permission to write
  decisions, never by a service token; the stored record names them as authenticated, they hold at least
  the operator's role, and the commitment says that its owner was verified; this with any well-behaved
  sessions in between.\<close>
theorem decisions_have_owners:
  assumes "en_auth_mode env \<noteq> ''disabled''" and "en_policies env = API_ROUTE_POLICY_CATALOG"
    and "below (rq_path rq) ''/control/decisions''" and "request_method (Some (rq_method rq)) \<notin> {''GET'', ''HEAD''}"
    and "ledger_inv s" and "calm_others others"
    and "create_over_http env rq now gs digest others reporting uid t s body = (Inr r, s')"
  shows "\<exists>p gs'. gate env rq now gs = Inr (Some (Passed (Some p)), gs') \<and> au_auth_provider p \<noteq> ''service_token'' \<and>
    has_required_permission (context_of p) (Some PERMISSION_CONTROL_DECISIONS_WRITE) \<and> has_required_role (au_role p) Operator \<and>
    get_decision_record s' (dn_decision_id r) = Inr r \<and> dn_actor r = actor_from_principal (Some p) \<and> ac_authenticated (dn_actor r) \<and>
    (\<exists>c. dn_commitment r = Some c \<and> cm_owner_verified c)"
proof -
  obtain p gs' where g: "gate env rq now gs = Inr (Some (Passed p), gs')"
    and made: "create_decision True digest others reporting uid t s p body = (Inr r, s')"
    using assms(7) unfolding create_over_http_def
    by (force split: sum.split_asm prod.split_asm option.split_asm verdict_of_gate.split_asm)
  obtain q where q: "p = Some q" "has_required_permission (context_of q) (Some PERMISSION_CONTROL_DECISIONS_WRITE)"
      "au_auth_provider q \<noteq> ''service_token''"
    by (rule passed_decision [OF g assms(1-4)])
  obtain subjects where recorded: "record_decision digest others get_decision_definition subjects uid t s body (actor_from_principal p) = (Inr r, s')"
    by (rule created_decision [OF made])
  note facts = recorded_actor [OF recorded assms(5,6)] recorded_owner [OF recorded assms(5,6)]
  have "ac_authenticated (actor_from_principal p)" by (simp add: actor_from_principal_def q(1))
  with facts(3) obtain c where "dn_commitment r = Some c" "cm_owner_verified c" by auto
  moreover have "has_required_role (au_role q) Operator"
    using facts(4) by (simp add: actor_from_principal_def q(1) role_value_inj)
  ultimately show ?thesis
    using g q(2,3) facts(1,2) \<open>ac_authenticated (actor_from_principal p)\<close> unfolding q(1)
    by (intro exI [of _ q] exI [of _ gs']) simp
qed

definition decide_request :: request where
  "decide_request = (sample_request ''/control/decisions'' ''POST'' None)\<lparr> rq_headers := [(''x-csrf-token'', ''x1'')],
     rq_cookies := [(''session'', ''p.s''), (''csrf'', ''x1'')] \<rparr>"

theorem decisions_have_owners_witness:
  "\<exists>r s'. create_over_http signed_env decide_request 50 session_state (\<lambda>s. s) undisturbed (Some (\<lambda>_ _. Some (sample_subject JNull))) ''1''
     (day_start 0) empty_ledger sample_decision_request = (Inr r, s') \<and> ac_actor (dn_actor r) = ''ann'' \<and> ac_authenticated (dn_actor r)"
proof -
  let ?p = "principal_from_user sample_user ''x1''"
  let ?make = "create_decision True (\<lambda>s. s) undisturbed (Some (\<lambda>_ _. Some (sample_subject JNull))) ''1'' (day_start 0) empty_ledger (Some ?p) sample_decision_request"
  have g: "gate signed_env decide_request 50 session_state = Inr (Some (Passed (Some ?p)), session_state)" by code_simp
  have "(case ?make of (Inl _, _) \<Rightarrow> False | (Inr _, _) \<Rightarrow> True)" by code_simp
  then obtain r s' where "?make = (Inr r, s')" by (auto split: prod.splits sum.splits)
  then have result: "create_over_http signed_env decide_request 50 session_state (\<lambda>s. s) undisturbed (Some (\<lambda>_ _. Some (sample_subject JNull))) ''1''
     (day_start 0) empty_ledger sample_decision_request = (Inr r, s')" by (simp add: create_over_http_def g)
  have "en_auth_mode signed_env \<noteq> ''disabled''" "en_policies signed_env = API_ROUTE_POLICY_CATALOG"
    by (simp_all add: signed_env_def sample_env_def)
  moreover have "below (rq_path decide_request) ''/control/decisions'' \<and> request_method (Some (rq_method decide_request)) \<notin> {''GET'', ''HEAD''}"
    by code_simp
  ultimately have "dn_actor r = actor_from_principal (Some ?p) \<and> ac_authenticated (dn_actor r)"
    using decisions_have_owners [OF _ _ _ _ ledger_inv_empty calm_undisturbed result] g by auto
  with result show ?thesis
    by (auto simp: actor_from_principal_def principal_from_user_def sample_user_def)
qed

end
