(* ===== verification/Spec2Isabelle.thy ===== *)
theory Spec2Isabelle
  imports ProposalClaims PackClaims AdapterClaims DispatchClaims FreshnessClaims ConfidenceClaims LineageClaims ContractClaims AuthClaims QueueAccess DecisionAccess
begin

text \<open>
  A model of the control core of homelab-analytics and the theorems that make it correct.

  \<^bold>\<open>The program.\<close>  The platform lands files and readings from household sources, transforms them
  into publications and shows them with a statement of how far they can be trusted.  Its control
  core keeps seven kinds of state, each in tables of one SQL database.

  \<^item> The \<^emph>\<open>action proposal queue\<close>: agents and policies propose actions, an operator approves, dismisses
    or reverts them, and clients follow the changes through a feed.
  \<^item> The \<^emph>\<open>pack lifecycle\<close>: installed capability packs with their versions, which an operator installs,
    enables, upgrades, rolls back, pins, disables and removes.
  \<^item> The \<^emph>\<open>execution control plane\<close>: schedules with cron expressions, the dispatches they enqueue, the
    workers that claim dispatches under leases, and their heartbeats.
  \<^item> The \<^emph>\<open>run metadata\<close> of every landed file.
  \<^item> The \<^emph>\<open>provenance and confidence\<close> tables: which runs fed a publication, and the recorded verdicts.
  \<^item> The \<^emph>\<open>authentication\<close> tables: local users, service tokens and the audit events from which a lockout
    is computed; beside them, in the process, the window of break-glass access.
  \<^item> The \<^emph>\<open>decision ledger\<close>: household decisions with the evidence and the terms they were made on, their
    follow-ups and the events of their lifecycle, all only ever added to.

  Beside them stands a check without state: the \<^emph>\<open>contract compatibility\<close> of two releases, which
  compares their OpenAPI documents and published contracts and reports breaking and additive changes.

  They interact through records: a dispatch leads to a run, a run to lineage, lineage, run metadata and
  the freshness schedule of a source to a confidence verdict.  Requests reach the queue through the
  authentication gate, which turns credentials into a principal and a route's policies into a verdict.

  \<^bold>\<open>Theories.\<close>

  \<^item> \<^theory_text>\<open>Prelude\<close>, \<^theory_text>\<open>PyText\<close>, \<^theory_text>\<open>Json\<close>, \<^theory_text>\<open>PyRepr\<close>, \<^theory_text>\<open>Calendar\<close>: errors as sums, ordered dictionaries, Python's
    texts and integers as texts, JSON values, dates and ordinals.
  \<^item> \<^theory_text>\<open>Proposals\<close>, \<^theory_text>\<open>ProposalRegistry\<close> (packages/platform/action_proposals.py): the data, the in-process
    store and the registry's operations over an abstract record of store operations;
    \<^theory_text>\<open>ProposalSqlStore\<close> (packages/storage/action_proposal_store.py): the same operations on rows;
    \<^theory_text>\<open>ProposalFeed\<close> (packages/application/use_cases/action_proposal_changes.py): cursors and pages;
    \<^theory_text>\<open>ProposalLifecycle\<close>, \<^theory_text>\<open>ProposalGuarantees\<close>, \<^theory_text>\<open>ProposalRace\<close>, \<^theory_text>\<open>ProposalRefine\<close>: the locale
    of a proposal store, the lifecycle it keeps, two racing resolutions and the simulation of one
    store by the other; \<^theory_text>\<open>ProposalClaims\<close>: the properties.
  \<^item> \<^theory_text>\<open>PackVersions\<close> (packages/adapters/pack_compatibility.py), \<^theory_text>\<open>PackStore\<close>
    (packages/storage/pack_lifecycle.py and its SQLite form), \<^theory_text>\<open>PackPlan\<close>, \<^theory_text>\<open>PackLifecycle\<close>,
    \<^theory_text>\<open>PackSafety\<close> (packages/application/use_cases/pack_lifecycle.py): constraints, tables, the plan of
    an operation with its diagnostics, the write as a compare-and-set; \<^theory_text>\<open>PackClaims\<close>.
  \<^item> \<^theory_text>\<open>AdapterRegistry\<close> (packages/adapters/contracts.py, registry.py) with the locale of a pack registry,
    \<^theory_text>\<open>AdapterLifecycle\<close> (lifecycle.py) and the state machine it refines, \<^theory_text>\<open>AdapterRouting\<close>
    (renderer_router.py, instance_registry.py, entity_correlation.py, compatibility.py), \<^theory_text>\<open>AdapterRoutes\<close>
    (apps/api/routes/adapter_routes.py), \<^theory_text>\<open>AdapterClaims\<close>: adapter packs in the process.
  \<^item> \<^theory_text>\<open>Cron\<close> (packages/storage/scheduling.py) and \<^theory_text>\<open>CronClaims\<close>; \<^theory_text>\<open>DispatchQueue\<close>
    (packages/storage/execution_control_plane.py), \<^theory_text>\<open>DispatchSafety\<close>, \<^theory_text>\<open>DispatchLeases\<close> and
    \<^theory_text>\<open>DispatchClaims\<close>.
  \<^item> \<^theory_text>\<open>Freshness\<close> (packages/platform/source_freshness.py), \<^theory_text>\<open>FreshnessFacts\<close>, \<^theory_text>\<open>FreshnessClaims\<close>.
  \<^item> \<^theory_text>\<open>RunMetadata\<close> (packages/storage/run_metadata.py), \<^theory_text>\<open>RunMetadataFacts\<close>; \<^theory_text>\<open>Confidence\<close>
    (packages/platform/publication_confidence.py, publication_keys.py and the snapshot tables),
    \<^theory_text>\<open>ConfidenceService\<close> (packages/pipelines/publication_confidence_service.py), \<^theory_text>\<open>ConfidenceFacts\<close>
    with the locale of the run lookup, and \<^theory_text>\<open>ConfidenceClaims\<close>.
  \<^item> \<^theory_text>\<open>LineageGraph\<close> (packages/platform/lineage_graph.py, apps/api/routes/lineage_routes.py): the graph of
    the runs, relations and sources behind a publication, from the same tables; \<^theory_text>\<open>LineageFacts\<close>,
    \<^theory_text>\<open>LineageClaims\<close>: what its assembly keeps and which runs it shows.
  \<^item> \<^theory_text>\<open>Contracts\<close>, \<^theory_text>\<open>PublicationCompare\<close>, \<^theory_text>\<open>SchemaCompare\<close>, \<^theory_text>\<open>OpenapiCompare\<close>
    (packages/platform/contract_compat/): the changes, the comparison of published contracts, of JSON
    schemas, of operations, and the report; \<^theory_text>\<open>SchemaDepth\<close>, \<^theory_text>\<open>SchemaTermination\<close>,
    \<^theory_text>\<open>SchemaTotal\<close>, \<^theory_text>\<open>ContractEnds\<close>: how deep a comparison recurses and when it ends;
    \<^theory_text>\<open>SameRelease\<close>: a release against itself; \<^theory_text>\<open>PublicationOrder\<close>: backward compatibility as an
    order; \<^theory_text>\<open>ContractClaims\<close>.
  \<^item> \<^theory_text>\<open>Permissions\<close> (packages/platform/auth/: permission_registry.py, role_hierarchy.py, contracts.py),
    \<^theory_text>\<open>RoutePolicies\<close> (route_policy_engine.py and the catalog apps/api/auth_policies.py): grants, wildcards
    and the policies of every route; \<^theory_text>\<open>AuthStore\<close> (packages/storage/sqlite_auth_control_plane.py): users,
    tokens and audit events; \<^theory_text>\<open>AuthGate\<close> (credential_resolution.py, session_manager.py, the middleware
    parts and apps/api/auth_runtime.py): from a request to a principal or a refusal; \<^theory_text>\<open>AuthLogin\<close>
    (packages/application/use_cases/auth_sessions.py): logging in and out and break-glass;
    \<^theory_text>\<open>AuthFacts\<close>, \<^theory_text>\<open>AuthTokens\<close>, \<^theory_text>\<open>AuthLockout\<close>: what a policy lets through, the life of a token,
    the sliding window of failures; \<^theory_text>\<open>AuthClaims\<close>.
  \<^item> \<^theory_text>\<open>ProposalReview\<close> (packages/application/use_cases/agent_trust.py, agent_proposal_review.py): the
    guidance on evidence and the review an operator reads; \<^theory_text>\<open>ProposalRoutes\<close>
    (apps/api/routes/action_proposal_routes.py, ha_routes.py): the handlers of the queue;
    \<^theory_text>\<open>QueueAccess\<close>: the gate, the handlers and the store composed.
  \<^item> \<^theory_text>\<open>DecisionTerms\<close> (packages/platform/decision_definitions.py), \<^theory_text>\<open>HouseholdDecisions\<close>
    (packages/domains/utilities/battery_plan_decision.py, energy_contract_decision.py): what a decision is
    held to; \<^theory_text>\<open>DecisionStore\<close> (packages/storage/decision_ledger.py, sqlite_decision_ledger.py): the
    tables; \<^theory_text>\<open>DecisionLedger\<close> (packages/application/use_cases/decision_ledger.py): recording,
    follow-ups, stops, reopenings and the derived state; \<^theory_text>\<open>DecisionTrace\<close>
    (decision_evidence_trace.py, decision_outcome_reference.py): corrections of evidence and outcome
    references; \<^theory_text>\<open>DecisionFacts\<close> with the locale of a ledger call, \<^theory_text>\<open>DecisionState\<close>,
    \<^theory_text>\<open>DecisionRules\<close>, \<^theory_text>\<open>DecisionRounds\<close>, \<^theory_text>\<open>DecisionRevisions\<close>: growth, the state in closed
    form, windows and owners, numbered stops, repeated traces; \<^theory_text>\<open>DecisionRoutes\<close>
    (apps/api/routes/decision_routes.py); \<^theory_text>\<open>DecisionClaims\<close>, \<^theory_text>\<open>DecisionAccess\<close>.

  A dataclass is a record, an enum a datatype, a dictionary an association list in insertion order,
  and an exception a value: the left of a sum with the component's error type, or \<^theory_text>\<open>None\<close>.

  \<^bold>\<open>What the theorems show.\<close>  One of two racing resolutions of a proposal wins and a resolved proposal
  stays as it was; the feed delivers every change once; both stores behave alike.  An applied pack
  operation is one step of the lifecycle's state machine and, while no other pack changes, keeps
  dependencies satisfied and publications unique; a refused one changes nothing.  The lifecycle of adapter packs is its
  documented state machine.  The cron search finds the first matching
  minute; a dispatch is handed to one worker, the concurrency limit holds while no other worker enqueues
  at the same time, a recovery fails the claims that expired first up to its limit, and only the owner
  renews a lease.  A landed run makes its source current exactly within its period.
  A trustworthy verdict is earned by clean runs, and a recorded one is read back.  A lineage graph is
  well-formed and shows the most recent runs behind its publication.
  The compatibility report of documents whose references can be ranked is always reached, and of a
  component that contains itself never; a report of a release against itself says unchanged; breaking changes of
  published contracts are exactly those that break an order, and compatible releases compose.
  With authentication on, only a person with the permission resolves a proposal over HTTP; a service token decides nothing; a
  local session and a service token are accepted exactly while they are valid; a revoked token stays
  out; a failed release returns the proposal to the queue; a review without caveats means sound evidence.
  A recorded decision keeps the rules of its definition, with an authorized owner or one marked unverified; the state of a commitment
  is a closed form of its history; a stop lasts until a reopening; a repeated trace changes nothing; and a
  later follow-up only adds to the outcome references.

  \<^bold>\<open>Assumptions.\<close>  A database session that holds the write lock, or that makes one statement, is one
  atomic step; where the code opens several sessions in one call, a parameter stands for what others
  do between them.  Enqueueing dispatches reads and counts without the write lock, so its steps up to
  the first write, which takes SQLite's lock, are separate ones, with others between them; two
  concurrent enqueueings can pass the concurrency limit (\<^theory_text>\<open>racing_enqueues_pass_limit\<close>).  The plan of a
  pack change reads the registry several times in sequence and is modelled as one step: the properties
  of applied changes ask that nobody writes between its start and the second read of the pack.  The
  write is a compare-and-set on the changed pack only, so concurrent changes of two packs can break
  what each kept alone (\<^theory_text>\<open>concurrent_enables_share_publication\<close>).  Other sessions of several statements
  are taken as one step.
  Instants are UTC microseconds, and their stored texts order as they do.  Texts are strings of
  8-bit characters.  JSON columns hold the value they encode.  Fresh ids and the clock are arguments.
  The time zone database is a parameter of the cron search, with UTC and a summer-time rule as
  instances.  Loops are structural or bounded by the code's own bound (366 days of minutes in the
  cron search).  The comparison of schemas recurses as deep as its documents do, through references
  too, so its first argument is the depth the interpreter allows and running out of it is an error
  value; a result that was reached never changes with more depth, and for ranked references some depth
  is enough.

  Password hashing, signatures, IP networks and the identity providers are fields of the gate's
  environment; the laws the theorems need of them are named hypotheses.  The readers of a decision's
  subject and the SHA-256 digests are arguments, and a Decimal is a finite one.

  \<^bold>\<open>Not modelled.\<close>  The other HTTP routes, the ranking of renderers by an Accept header, the worker's loop, the identity providers, the warehouse's SQL, file parsing,
  the configuration catalogs and the domain pipelines: they are input and output, statements
  executed by a database, or libraries the sources only call.
\<close>

end
